(* ===== verification/Mlan_Prelude.thy ===== *)
theory Mlan_Prelude
  imports Main "HOL-Library.Word" "HOL-Library.Multiset" "HOL-Library.Monad_Syntax"
begin

text \<open>
  Shared vocabulary of the development: the integer widths and status codes of
  \<^verbatim>\<open>mlan_decl.h\<close>, reading and writing C arrays with the bounds made explicit,
  the arithmetic of the 12-bit 802.11 sequence space, and the generic list lemmas that
  the component theories share.
\<close>

unbundle bit_operations_syntax

type_synonym t_u8 = "8 word"
type_synonym t_u16 = "16 word"
type_synonym t_u32 = "32 word"
type_synonym t_s32 = "32 word"
type_synonym mac = "t_u8 list"

datatype mlan_status =
    MLAN_STATUS_SUCCESS
  | MLAN_STATUS_FAILURE
  | MLAN_STATUS_PENDING
  | MLAN_STATUS_RESOURCE

named_theorems monad_simps "unfolding of the option monad"
named_theorems seq_arith "arithmetic of the 12-bit sequence space"

lemmas [monad_simps] = Option.bind_eq_Some_conv

subsection \<open>C arrays: an access outside the array is \<^term>\<open>None\<close>\<close>

definition arr_get :: "'a list \<Rightarrow> int \<Rightarrow> 'a option" where
  "arr_get xs i = (if 0 \<le> i \<and> i < int (length xs) then Some (xs ! nat i) else None)"

definition arr_set :: "'a list \<Rightarrow> int \<Rightarrow> 'a \<Rightarrow> 'a list option" where
  "arr_set xs i v = (if 0 \<le> i \<and> i < int (length xs) then Some (xs[nat i := v]) else None)"

lemma arr_get_Some [monad_simps]:
  "arr_get xs i = Some v \<longleftrightarrow> 0 \<le> i \<and> i < int (length xs) \<and> v = xs ! nat i"
  by (auto simp: arr_get_def)

lemma arr_set_Some [monad_simps]:
  "arr_set xs i v = Some ys \<longleftrightarrow> 0 \<le> i \<and> i < int (length xs) \<and> ys = xs[nat i := v]"
  by (auto simp: arr_set_def)

lemma arr_get_in [simp]: "0 \<le> i \<Longrightarrow> i < int (length xs) \<Longrightarrow> arr_get xs i = Some (xs ! nat i)"
  by (simp add: arr_get_def)

lemma arr_set_in [simp]: "0 \<le> i \<Longrightarrow> i < int (length xs) \<Longrightarrow> arr_set xs i v = Some (xs[nat i := v])"
  by (simp add: arr_set_def)

lemma arr_get_nat [simp]: "i < length xs \<Longrightarrow> arr_get xs (int i) = Some (xs ! i)"
  by (simp add: arr_get_def)

lemma arr_set_nat [simp]: "i < length xs \<Longrightarrow> arr_set xs (int i) v = Some (xs[i := v])"
  by (simp add: arr_set_def)

subsection \<open>The sequence space\<close>

lemma and_4095 [seq_arith]: "(x::int) AND 4095 = x mod 4096"
proof -
  have "(x::int) AND mask 12 = take_bit 12 x" by (simp add: take_bit_eq_mask)
  then show ?thesis by (simp add: mask_eq_exp_minus_1 take_bit_eq_mod)
qed

lemma mod_4096_wrap [seq_arith]:
  "0 \<le> x \<Longrightarrow> x < 8192 \<Longrightarrow> (x::int) mod 4096 = (if x < 4096 then x else x - 4096)"
proof -
  assume x: "0 \<le> x" "x < 8192"
  have "x mod 4096 = (x - 4096) mod 4096" by (rule minus_mod_self2 [symmetric])
  with x show ?thesis
    using mod_pos_pos_trivial [of x 4096] mod_pos_pos_trivial [of "x - 4096" 4096] by auto
qed

lemma uint16_lt [simp]: "uint (w::t_u16) < 65536"
  by (rule order_less_le_trans [OF uint_lt2p]) simp

subsection \<open>Lists\<close>

text \<open>Six bytes at an offset of a buffer, the \<^verbatim>\<open>memcpy\<close> of an address.\<close>

definition bytes6 :: "t_u8 list \<Rightarrow> int \<Rightarrow> mac option" where
  "bytes6 buf off = (if 0 \<le> off \<and> off + 6 \<le> int (length buf)
                     then Some (take 6 (drop (nat off) buf)) else None)"

text \<open>Position of the first element that satisfies a predicate, as a list walk finds it.\<close>

fun find_index :: "('a \<Rightarrow> bool) \<Rightarrow> 'a list \<Rightarrow> nat option" where
  "find_index P [] = None"
| "find_index P (x # xs) = (if P x then Some 0 else map_option Suc (find_index P xs))"

lemma find_index_SomeD:
  "find_index P xs = Some i \<Longrightarrow> i < length xs \<and> P (xs ! i) \<and> (\<forall>j < i. \<not> P (xs ! j))"
  by (induction xs arbitrary: i) (auto split: if_splits simp: less_Suc_eq_0_disj nth_Cons')

lemma find_index_None: "find_index P xs = None \<longleftrightarrow> (\<forall>x \<in> set xs. \<not> P x)"
  by (induction xs) auto

lemma find_index_append:
  "find_index P (xs @ ys) =
     (case find_index P xs of Some i \<Rightarrow> Some i
      | None \<Rightarrow> map_option (\<lambda>j. length xs + j) (find_index P ys))"
proof (induction xs)
  case Nil
  show ?case by (cases "find_index P ys") simp_all
next
  case (Cons x xs)
  then show ?case by (cases "find_index P ys") (auto split: option.splits)
qed

lemma find_index_update:
  assumes "i < length xs" and "P v = P (xs ! i)"
  shows "find_index P (xs[i := v]) = find_index P xs"
  using assms by (induction xs arbitrary: i) (auto split: nat.splits)

text \<open>Unlinking the node at a position.\<close>

definition remove_nth :: "nat \<Rightarrow> 'a list \<Rightarrow> 'a list" where
  "remove_nth i xs = take i xs @ drop (Suc i) xs"

lemma length_remove_nth: "i < length xs \<Longrightarrow> length (remove_nth i xs) = length xs - 1"
  by (simp add: remove_nth_def)

lemma set_remove_nth_subset: "set (remove_nth i xs) \<subseteq> set xs"
  by (auto simp: remove_nth_def dest: in_set_takeD in_set_dropD)

lemma remove_nth_Cons_0 [simp]: "remove_nth 0 (x # xs) = xs"
  by (simp add: remove_nth_def)

lemma map_remove_nth: "map f (remove_nth i xs) = remove_nth i (map f xs)"
  by (simp add: remove_nth_def take_map drop_map)

lemma distinct_remove_nth:
  assumes "distinct xs"
  shows "distinct (remove_nth i xs)"
proof (cases "i < length xs")
  case True
  then have "distinct (take i xs @ xs ! i # drop (Suc i) xs)"
    using assms by (simp add: id_take_nth_drop [symmetric])
  then show ?thesis by (simp add: remove_nth_def)
next
  case False
  then show ?thesis using assms by (simp add: remove_nth_def)
qed

lemma in_set_remove_nth_distinct:
  assumes "distinct xs" "i < length xs"
  shows "set (remove_nth i xs) = set xs - {xs ! i}"
proof -
  have eq: "xs = take i xs @ xs ! i # drop (Suc i) xs"
    using assms by (simp add: id_take_nth_drop)
  have "distinct (take i xs @ xs ! i # drop (Suc i) xs)"
    using assms eq by simp
  moreover have "set xs = set (take i xs @ xs ! i # drop (Suc i) xs)"
    using eq by simp
  ultimately show ?thesis by (auto simp: remove_nth_def)
qed

end
