(* ===== verification/Util_List.thy ===== *)
theory Util_List
  imports Mlan_Prelude
begin

text \<open>
  \<^verbatim>\<open>mlan_util.h\<close>: the circular doubly linked lists on which every queue of the
  driver is built (command queues, packet queues, the reorder and BA tables), the
  lock-protected scalars, and \<^verbatim>\<open>bitcount\<close>.

  Pointers are natural numbers with 0 for \<^verbatim>\<open>NULL\<close>; the heap maps a pointer to
  the two link fields of the node it points to, and a dereference of an unmapped pointer is
  \<^term>\<open>None\<close>.  The lock handlers are the two optional callbacks of the code: each
  operation takes one flag per handler (is the function pointer non-null) and records the
  calls it makes.  \<open>dlist\<close> says that a head and a list of nodes form a well-formed
  circular list; every operation is shown to act on that list as its name says and to leave
  every other node alone.  The locale \<open>node_queue\<close> states what the clients of the
  lists rely on; it is interpreted on the operations of this file.
\<close>

type_synonym ptr = nat

record mlan_linked_list =
  pprev :: ptr
  pnext :: ptr

datatype lock_op = Init_lock nat | Free_lock nat | Acquire nat | Release nat

record list_mem =
  links :: "ptr \<rightharpoonup> mlan_linked_list"
  plock :: "ptr \<Rightarrow> nat"
  lock_log :: "lock_op list"

definition log_lock :: "bool \<Rightarrow> lock_op \<Rightarrow> list_mem \<Rightarrow> list_mem" where
  "log_lock present l m = (if present then m\<lparr>lock_log := lock_log m @ [l]\<rparr> else m)"

subsection \<open>Field reads and writes\<close>

definition get_pnext :: "list_mem \<Rightarrow> ptr \<Rightarrow> ptr option" where
  "get_pnext m p = map_option pnext (links m p)"

definition get_pprev :: "list_mem \<Rightarrow> ptr \<Rightarrow> ptr option" where
  "get_pprev m p = map_option pprev (links m p)"

definition set_pnext :: "ptr \<Rightarrow> ptr \<Rightarrow> list_mem \<Rightarrow> list_mem option" where
  "set_pnext p v m = map_option (\<lambda>n. m\<lparr>links := (links m)(p \<mapsto> n\<lparr>pnext := v\<rparr>)\<rparr>) (links m p)"

definition set_pprev :: "ptr \<Rightarrow> ptr \<Rightarrow> list_mem \<Rightarrow> list_mem option" where
  "set_pprev p v m = map_option (\<lambda>n. m\<lparr>links := (links m)(p \<mapsto> n\<lparr>pprev := v\<rparr>)\<rparr>) (links m p)"

subsection \<open>The operations\<close>

definition util_init_list :: "ptr \<Rightarrow> list_mem \<Rightarrow> list_mem option" where
  "util_init_list phead m = do { m1 \<leftarrow> set_pnext phead phead m; set_pprev phead phead m1 }"

definition util_init_list_head :: "ptr \<Rightarrow> bool \<Rightarrow> nat \<Rightarrow> list_mem \<Rightarrow> list_mem option" where
  \<comment> \<open>\<open>new_lock\<close> is the lock the callback \<^verbatim>\<open>moal_init_lock\<close> hands out\<close>
  "util_init_list_head phead lock_required new_lock m = do {
     m1 \<leftarrow> util_init_list phead m;
     Some (if lock_required
           then (log_lock True (Init_lock new_lock) m1)\<lparr>plock := (plock m1)(phead := new_lock)\<rparr>
           else m1\<lparr>plock := (plock m1)(phead := 0)\<rparr>) }"

definition util_free_list_head :: "ptr \<Rightarrow> list_mem \<Rightarrow> list_mem option" where
  "util_free_list_head phead m = do {
     m1 \<leftarrow> set_pnext phead 0 m;
     m2 \<leftarrow> set_pprev phead 0 m1;
     Some (log_lock (plock m2 phead \<noteq> 0) (Free_lock (plock m2 phead)) m2) }"

definition util_peek_list :: "bool \<Rightarrow> bool \<Rightarrow> ptr \<Rightarrow> list_mem \<Rightarrow> (ptr \<times> list_mem) option" where
  "util_peek_list sl su phead m = do {
     let m = log_lock sl (Acquire (plock m phead)) m;
     nx \<leftarrow> get_pnext m phead;
     let pnode = (if nx \<noteq> phead then nx else 0);
     Some (pnode, log_lock su (Release (plock m phead)) m) }"

definition util_enqueue_list_tail :: "bool \<Rightarrow> bool \<Rightarrow> ptr \<Rightarrow> ptr \<Rightarrow> list_mem \<Rightarrow> list_mem option" where
  "util_enqueue_list_tail sl su phead pnode m = do {
     let m = log_lock sl (Acquire (plock m phead)) m;
     pold_last \<leftarrow> get_pprev m phead;
     m1 \<leftarrow> set_pprev pnode pold_last m;
     m2 \<leftarrow> set_pnext pnode phead m1;
     m3 \<leftarrow> set_pnext pold_last pnode m2;
     m4 \<leftarrow> set_pprev phead pnode m3;
     Some (log_lock su (Release (plock m4 phead)) m4) }"

definition util_enqueue_list_head :: "bool \<Rightarrow> bool \<Rightarrow> ptr \<Rightarrow> ptr \<Rightarrow> list_mem \<Rightarrow> list_mem option" where
  "util_enqueue_list_head sl su phead pnode m = do {
     let m = log_lock sl (Acquire (plock m phead)) m;
     pold_first \<leftarrow> get_pnext m phead;
     m1 \<leftarrow> set_pprev pnode phead m;
     m2 \<leftarrow> set_pnext pnode pold_first m1;
     m3 \<leftarrow> set_pprev pold_first pnode m2;
     m4 \<leftarrow> set_pnext phead pnode m3;
     Some (log_lock su (Release (plock m4 phead)) m4) }"

definition util_unlink_list :: "bool \<Rightarrow> bool \<Rightarrow> ptr \<Rightarrow> ptr \<Rightarrow> list_mem \<Rightarrow> list_mem option" where
  "util_unlink_list sl su phead pnode m = do {
     let m = log_lock sl (Acquire (plock m phead)) m;
     pmy_prev \<leftarrow> get_pprev m pnode;
     pmy_next \<leftarrow> get_pnext m pnode;
     m1 \<leftarrow> set_pprev pmy_next pmy_prev m;
     m2 \<leftarrow> set_pnext pmy_prev pmy_next m1;
     m3 \<leftarrow> set_pprev pnode 0 m2;
     m4 \<leftarrow> set_pnext pnode 0 m3;
     Some (log_lock su (Release (plock m4 phead)) m4) }"

definition util_dequeue_list :: "bool \<Rightarrow> bool \<Rightarrow> ptr \<Rightarrow> list_mem \<Rightarrow> (ptr \<times> list_mem) option" where
  "util_dequeue_list sl su phead m = do {
     let m = log_lock sl (Acquire (plock m phead)) m;
     pnode \<leftarrow> get_pnext m phead;
     (pnode, m1) \<leftarrow> (if pnode \<noteq> 0 \<and> pnode \<noteq> phead
                    then do { m1 \<leftarrow> util_unlink_list False False phead pnode m; Some (pnode, m1) }
                    else Some (0, m));
     Some (pnode, log_lock su (Release (plock m1 phead)) m1) }"

subsection \<open>Well-formed circular lists\<close>

abbreviation nx :: "list_mem \<Rightarrow> ptr \<Rightarrow> ptr option" where
  "nx m \<equiv> get_pnext m"

abbreviation pv :: "list_mem \<Rightarrow> ptr \<Rightarrow> ptr option" where
  "pv m \<equiv> get_pprev m"

fun chain :: "(ptr \<Rightarrow> ptr option) \<Rightarrow> (ptr \<Rightarrow> ptr option) \<Rightarrow> ptr list \<Rightarrow> bool" where
  "chain n p (a # b # ps) = (n a = Some b \<and> p b = Some a \<and> chain n p (b # ps))"
| "chain n p ps = True"

definition dlist :: "list_mem \<Rightarrow> ptr \<Rightarrow> ptr list \<Rightarrow> bool" where
  "dlist m h xs \<longleftrightarrow> distinct (h # xs) \<and> 0 \<notin> set (h # xs) \<and> chain (nx m) (pv m) (h # xs @ [h])"

lemma chain_append: "chain n p (us @ u # ws) \<longleftrightarrow> chain n p (us @ [u]) \<and> chain n p (u # ws)"
proof (induction us)
  case Nil
  show ?case by simp
next
  case (Cons a us)
  then show ?case by (cases us) auto
qed

lemma chain_cong:
  assumes "\<And>a. a \<in> set (butlast ps) \<Longrightarrow> n' a = n a"
    and "\<And>a. a \<in> set (tl ps) \<Longrightarrow> p' a = p a"
  shows "chain n' p' ps = chain n p ps"
  using assms by (induction n p ps rule: chain.induct) (auto split: if_splits)

text \<open>Splicing a node in between two neighbours, and taking one out.\<close>

lemma chain_insert:
  assumes c: "chain n p (us @ u # w # ws)"
    and d: "distinct (us @ [u] @ butlast (w # ws))" "distinct (tl (us @ [u]) @ w # ws)"
    and x: "x \<notin> set (us @ u # w # ws)"
  shows "chain (n(x \<mapsto> w, u \<mapsto> x)) (p(x \<mapsto> u, w \<mapsto> x)) (us @ u # x # w # ws)"
proof -
  let ?n = "n(x \<mapsto> w, u \<mapsto> x)" and ?p = "p(x \<mapsto> u, w \<mapsto> x)"
  have 1: "chain n p (us @ [u])" and 2: "chain n p (w # ws)"
    using c chain_append [of n p us u "w # ws"] by auto
  have xx: "x \<notin> set us" "x \<noteq> u" "x \<noteq> w" "x \<notin> set ws" using x by auto
  have tx: "x \<notin> set (tl (us @ [u]))" using xx by (cases us) auto
  have tw: "w \<notin> set (tl (us @ [u]))" "w \<notin> set ws" using d(2) by auto
  have ub: "u \<notin> set us" "u \<notin> set (butlast (w # ws))" using d(1) by auto
  have xb: "x \<notin> set (butlast (w # ws))" using xx in_set_butlastD by fastforce
  have "chain ?n ?p (us @ [u]) = chain n p (us @ [u])"
    by (rule chain_cong) (use xx tx tw ub in auto)
  moreover have "chain ?n ?p (w # ws) = chain n p (w # ws)"
    by (rule chain_cong) (use xx xb tw ub in auto)
  ultimately show ?thesis
    using 1 2 xx chain_append [of ?n ?p us u "x # w # ws"] by auto
qed

lemma chain_delete:
  assumes c: "chain n p (us @ u # x # w # ws)"
    and d: "distinct (us @ [u, x] @ butlast (w # ws))" "distinct (tl (us @ [u, x]) @ w # ws)"
  shows "chain (n(u \<mapsto> w, x \<mapsto> z)) (p(w \<mapsto> u, x \<mapsto> z)) (us @ u # w # ws)"
proof -
  let ?n = "n(u \<mapsto> w, x \<mapsto> z)" and ?p = "p(w \<mapsto> u, x \<mapsto> z)"
  have 1: "chain n p (us @ [u])" and 2: "chain n p (w # ws)"
    using c chain_append [of n p us u "x # w # ws"] by auto
  have tl: "tl (us @ [u, x]) = tl (us @ [u]) @ [x]" by (cases us) auto
  have xt: "x \<notin> set (tl (us @ [u]))" "w \<notin> set (tl (us @ [u]))" "x \<notin> set ws" "w \<noteq> x" "w \<notin> set ws"
    using d(2) unfolding tl by auto
  have xb: "x \<notin> set us" "u \<notin> set us" "u \<notin> set (butlast (w # ws))" "u \<noteq> x"
    "x \<notin> set (butlast (w # ws))"
    using d(1) by auto
  have "chain ?n ?p (us @ [u]) = chain n p (us @ [u])"
    by (rule chain_cong) (use xt xb in auto)
  moreover have "chain ?n ?p (w # ws) = chain n p (w # ws)"
    by (rule chain_cong) (use xt xb in auto)
  ultimately show ?thesis
    using 1 2 xt xb chain_append [of ?n ?p us u "w # ws"] by auto
qed

subsection \<open>Effect of the field writes\<close>

definition mapped :: "list_mem \<Rightarrow> ptr \<Rightarrow> bool" where
  "mapped m q \<longleftrightarrow> links m q \<noteq> None"

lemma set_pnext_effect:
  "set_pnext q v m = Some m' \<Longrightarrow>
     nx m' = (nx m)(q \<mapsto> v) \<and> pv m' = pv m \<and> mapped m' = mapped m
     \<and> plock m' = plock m \<and> lock_log m' = lock_log m"
  by (auto simp: set_pnext_def get_pnext_def get_pprev_def mapped_def fun_eq_iff split: if_splits)

lemma set_pprev_effect:
  "set_pprev q v m = Some m' \<Longrightarrow>
     pv m' = (pv m)(q \<mapsto> v) \<and> nx m' = nx m \<and> mapped m' = mapped m
     \<and> plock m' = plock m \<and> lock_log m' = lock_log m"
  by (auto simp: set_pprev_def get_pnext_def get_pprev_def mapped_def fun_eq_iff split: if_splits)

lemma set_pnext_ex: "mapped m q \<Longrightarrow> \<exists>m'. set_pnext q v m = Some m'"
  by (auto simp: set_pnext_def mapped_def)

lemma set_pprev_ex: "mapped m q \<Longrightarrow> \<exists>m'. set_pprev q v m = Some m'"
  by (auto simp: set_pprev_def mapped_def)

lemma log_lock_simps [simp]:
  "plock (log_lock b l m) = plock m" "mapped (log_lock b l m) = mapped m"
  "nx (log_lock b l m) = nx m" "pv (log_lock b l m) = pv m"
  "lock_log (log_lock b l m) = lock_log m @ (if b then [l] else [])"
  by (simp_all add: log_lock_def get_pnext_def get_pprev_def mapped_def fun_eq_iff)

lemma nx_mapped: "nx m a = Some b \<Longrightarrow> mapped m a"
  by (auto simp: get_pnext_def mapped_def)

lemma pv_mapped: "pv m a = Some b \<Longrightarrow> mapped m a"
  by (auto simp: get_pprev_def mapped_def)

subsection \<open>Each operation on a well-formed list\<close>

text \<open>What an operation may touch: \<open>same_outside A m m'\<close> says that links of nodes outside
  \<open>A\<close>, the allocation and the locks are unchanged.\<close>

definition same_outside :: "ptr set \<Rightarrow> list_mem \<Rightarrow> list_mem \<Rightarrow> bool" where
  "same_outside A m m' \<longleftrightarrow> (\<forall>a. a \<notin> A \<longrightarrow> nx m' a = nx m a \<and> pv m' a = pv m a)
     \<and> mapped m' = mapped m \<and> plock m' = plock m"

definition bracketed :: "bool \<Rightarrow> bool \<Rightarrow> nat \<Rightarrow> list_mem \<Rightarrow> list_mem \<Rightarrow> bool" where
  "bracketed sl su l m m' \<longleftrightarrow>
     lock_log m' = lock_log m @ (if sl then [Acquire l] else []) @ (if su then [Release l] else [])"

lemma chain_mapped: "chain (nx m) (pv m) ps \<Longrightarrow> a \<in> set (butlast ps) \<Longrightarrow> mapped m a"
  by (induction "nx m" "pv m" ps rule: chain.induct) (auto dest: nx_mapped split: if_splits)

lemma dlist_mapped: "dlist m h xs \<Longrightarrow> a \<in> set (h # xs) \<Longrightarrow> mapped m a"
  using chain_mapped [of m "h # xs @ [h]" a] by (auto simp: dlist_def butlast_append)

lemma dlist_frame:
  assumes "same_outside A m m'" "dlist m h xs" "set (h # xs) \<inter> A = {}"
  shows "dlist m' h xs"
proof -
  have "chain (nx m') (pv m') (h # xs @ [h]) = chain (nx m) (pv m) (h # xs @ [h])"
    using assms by (intro chain_cong) (auto simp: same_outside_def butlast_append)
  then show ?thesis using assms by (simp add: dlist_def)
qed

lemma dlist_ends:
  assumes "dlist m h xs"
  shows "pv m h = Some (last (h # xs))" "nx m h = Some (hd (xs @ [h]))"
proof -
  have c: "chain (nx m) (pv m) (h # xs @ [h])" using assms by (simp add: dlist_def)
  show "nx m h = Some (hd (xs @ [h]))" using c by (cases xs) auto
  have "h # xs @ [h] = butlast (h # xs) @ last (h # xs) # [h]"
    by (simp del: butlast.simps last.simps)
  then have "chain (nx m) (pv m) (butlast (h # xs) @ last (h # xs) # [h])" using c by metis
  then show "pv m h = Some (last (h # xs))"
    by (subst (asm) chain_append) simp
qed

lemma util_init_list_spec:
  assumes "mapped m h" "h \<noteq> 0"
  shows "\<exists>m'. util_init_list h m = Some m' \<and> dlist m' h [] \<and> same_outside {h} m m'
           \<and> lock_log m' = lock_log m"
proof -
  obtain m1 where 1: "set_pnext h h m = Some m1" using set_pnext_ex assms by blast
  then obtain m2 where 2: "set_pprev h h m1 = Some m2"
    using set_pprev_ex set_pnext_effect [OF 1] assms by metis
  from 1 2 set_pnext_effect [OF 1] set_pprev_effect [OF 2] assms show ?thesis
    by (auto simp: util_init_list_def dlist_def same_outside_def)
qed

lemma util_enqueue_list_tail_spec:
  assumes dl: "dlist m h xs" and x: "mapped m x" "x \<notin> set (h # xs)" "x \<noteq> 0"
  shows "\<exists>m'. util_enqueue_list_tail sl su h x m = Some m' \<and> dlist m' h (xs @ [x])
           \<and> same_outside (set (h # xs @ [x])) m m' \<and> bracketed sl su (plock m h) m m'"
proof -
  let ?z = "last (h # xs)"
  let ?m = "log_lock sl (Acquire (plock m h)) m"
  have z: "?z \<in> set (h # xs)" by (rule last_in_set) simp
  have dom: "mapped m h" "mapped m ?z" using dlist_mapped [OF dl] z by auto
  obtain m1 where 1: "set_pprev x ?z ?m = Some m1" using set_pprev_ex [of ?m x] x by auto
  obtain m2 where 2: "set_pnext x h m1 = Some m2"
    using set_pnext_ex [of m1 x] set_pprev_effect [OF 1] x by auto
  obtain m3 where 3: "set_pnext ?z x m2 = Some m3"
    using set_pnext_ex [of m2 ?z] set_pprev_effect [OF 1] set_pnext_effect [OF 2] dom by auto
  obtain m4 where 4: "set_pprev h x m3 = Some m4"
    using set_pprev_ex [of m3 h] set_pprev_effect [OF 1] set_pnext_effect [OF 2]
      set_pnext_effect [OF 3] dom by auto
  note eff = set_pprev_effect [OF 1] set_pnext_effect [OF 2] set_pnext_effect [OF 3]
    set_pprev_effect [OF 4]
  let ?m' = "log_lock su (Release (plock m4 h)) m4"
  have run: "util_enqueue_list_tail sl su h x m = Some ?m'"
    using 1 2 3 4 dlist_ends [OF dl] by (simp add: util_enqueue_list_tail_def Let_def)
  have split: "h # xs @ [h] = butlast (h # xs) @ ?z # h # []"
    by (simp del: butlast.simps last.simps)
  have "chain ((nx m)(x \<mapsto> h, ?z \<mapsto> x)) ((pv m)(x \<mapsto> ?z, h \<mapsto> x)) (butlast (h # xs) @ ?z # x # h # [])"
  proof (rule chain_insert)
    show "chain (nx m) (pv m) (butlast (h # xs) @ ?z # h # [])"
      using dl split unfolding dlist_def by metis
    have id: "butlast (h # xs) @ [?z] = h # xs" by (rule append_butlast_last_id) simp
    show "distinct (butlast (h # xs) @ [?z] @ butlast (h # []))"
      unfolding append_assoc [symmetric] id using dl by (simp add: dlist_def)
    show "distinct (tl (butlast (h # xs) @ [?z]) @ h # [])"
      using dl by (simp add: dlist_def del: butlast.simps last.simps)
    show "x \<notin> set (butlast (h # xs) @ ?z # h # [])"
      unfolding split [symmetric] using x by auto
  qed
  moreover have eq: "butlast (h # xs) @ ?z # x # h # [] = h # (xs @ [x]) @ [h]"
    using split by (metis append_Cons append_Nil append_assoc append_butlast_last_id list.distinct(1))
  ultimately have "chain (nx ?m') (pv ?m') (h # (xs @ [x]) @ [h])"
    using eff by (simp only: eq log_lock_simps)
  then have "dlist ?m' h (xs @ [x])"
    using dl x by (auto simp: dlist_def)
  moreover have "same_outside (set (h # xs @ [x])) m ?m'"
    using eff z unfolding same_outside_def by auto
  moreover have "bracketed sl su (plock m h) m ?m'"
    using eff by (auto simp: bracketed_def)
  ultimately show ?thesis using run by blast
qed

lemma util_enqueue_list_head_spec:
  assumes dl: "dlist m h xs" and x: "mapped m x" "x \<notin> set (h # xs)" "x \<noteq> 0"
  shows "\<exists>m'. util_enqueue_list_head sl su h x m = Some m' \<and> dlist m' h (x # xs)
           \<and> same_outside (set (h # xs @ [x])) m m' \<and> bracketed sl su (plock m h) m m'"
proof -
  let ?w = "hd (xs @ [h])" and ?ws = "tl (xs @ [h])"
  let ?m = "log_lock sl (Acquire (plock m h)) m"
  have w: "?w \<in> set (h # xs)" by (cases xs) auto
  have dom: "mapped m h" "mapped m ?w" using dlist_mapped [OF dl] w by auto
  obtain m1 where 1: "set_pprev x h ?m = Some m1" using set_pprev_ex [of ?m x] x by auto
  obtain m2 where 2: "set_pnext x ?w m1 = Some m2"
    using set_pnext_ex [of m1 x] set_pprev_effect [OF 1] x by auto
  obtain m3 where 3: "set_pprev ?w x m2 = Some m3"
    using set_pprev_ex [of m2 ?w] set_pprev_effect [OF 1] set_pnext_effect [OF 2] dom by auto
  obtain m4 where 4: "set_pnext h x m3 = Some m4"
    using set_pnext_ex [of m3 h] set_pprev_effect [OF 1] set_pnext_effect [OF 2]
      set_pprev_effect [OF 3] dom by auto
  note eff = set_pprev_effect [OF 1] set_pnext_effect [OF 2] set_pprev_effect [OF 3]
    set_pnext_effect [OF 4]
  let ?m' = "log_lock su (Release (plock m4 h)) m4"
  have run: "util_enqueue_list_head sl su h x m = Some ?m'"
    using 1 2 3 4 dlist_ends [OF dl] by (simp add: util_enqueue_list_head_def Let_def)
  have split: "xs @ [h] = ?w # ?ws" by (cases xs) auto
  have "chain ((nx m)(x \<mapsto> ?w, h \<mapsto> x)) ((pv m)(x \<mapsto> h, ?w \<mapsto> x)) ([] @ h # x # ?w # ?ws)"
  proof (rule chain_insert)
    show "chain (nx m) (pv m) ([] @ h # ?w # ?ws)"
      using dl split by (simp add: dlist_def)
    show "distinct ([] @ [h] @ butlast (?w # ?ws))" and "distinct (tl ([] @ [h]) @ ?w # ?ws)"
      and "x \<notin> set ([] @ h # ?w # ?ws)"
      using dl x unfolding split [symmetric] by (auto simp: dlist_def)
  qed
  then have "dlist ?m' h (x # xs)"
    using dl x eff split by (auto simp: dlist_def)
  moreover have "same_outside (set (h # xs @ [x])) m ?m'"
    using eff w unfolding same_outside_def by auto
  moreover have "bracketed sl su (plock m h) m ?m'"
    using eff by (auto simp: bracketed_def)
  ultimately show ?thesis using run by blast
qed

lemma util_peek_list_spec:
  assumes "dlist m h xs"
  shows "\<exists>m'. util_peek_list sl su h m = Some (case xs of [] \<Rightarrow> 0 | x # _ \<Rightarrow> x, m') \<and> links m' = links m
     \<and> plock m' = plock m \<and> bracketed sl su (plock m h) m m'"
  using assms dlist_ends(2) [OF assms]
  by (cases xs) (auto simp: util_peek_list_def Let_def bracketed_def dlist_def log_lock_def get_pnext_def)

lemma same_links_dlist: "links m' = links m \<Longrightarrow> dlist m' h xs = dlist m h xs"
  by (simp add: dlist_def get_pnext_def get_pprev_def [abs_def] fun_eq_iff cong: chain_cong)

lemma util_unlink_list_spec:
  assumes dl: "dlist m h (as @ x # bs)"
  shows "\<exists>m'. util_unlink_list sl su h x m = Some m' \<and> dlist m' h (as @ bs) \<and> nx m' x = Some 0
           \<and> pv m' x = Some 0 \<and> same_outside (set (h # as @ x # bs)) m m'
           \<and> bracketed sl su (plock m h) m m'"
proof -
  let ?us = "butlast (h # as)" and ?u = "last (h # as)" and ?w = "hd (bs @ [h])" and ?ws = "tl (bs @ [h])"
  let ?m = "log_lock sl (Acquire (plock m h)) m"
  have u: "?u \<in> set (h # as)" by (rule last_in_set) simp
  have w: "?w \<in> set (h # bs)" by (cases bs) auto
  have idu: "?us @ [?u] = h # as" by (rule append_butlast_last_id) simp
  have idw: "?w # ?ws = bs @ [h]" by (cases bs) auto
  have whole: "h # (as @ x # bs) @ [h] = ?us @ ?u # x # ?w # ?ws"
    using idu idw by (metis append.assoc append_Cons append_Nil)
  have c: "chain (nx m) (pv m) (?us @ ?u # x # ?w # ?ws)"
    unfolding whole [symmetric] using dl by (simp add: dlist_def)
  then have "chain (nx m) (pv m) (?u # x # ?w # ?ws)"
    using chain_append by blast
  then have nb: "pv m x = Some ?u" "nx m x = Some ?w" by (simp_all only: chain.simps)
  have dom: "mapped m x" "mapped m ?u" "mapped m ?w"
    using dlist_mapped [OF dl] u w by auto
  obtain m1 where 1: "set_pprev ?w ?u ?m = Some m1" using set_pprev_ex [of ?m ?w] dom by auto
  obtain m2 where 2: "set_pnext ?u ?w m1 = Some m2"
    using set_pnext_ex [of m1 ?u] set_pprev_effect [OF 1] dom by auto
  obtain m3 where 3: "set_pprev x 0 m2 = Some m3"
    using set_pprev_ex [of m2 x] set_pprev_effect [OF 1] set_pnext_effect [OF 2] dom by auto
  obtain m4 where 4: "set_pnext x 0 m3 = Some m4"
    using set_pnext_ex [of m3 x] set_pprev_effect [OF 1] set_pnext_effect [OF 2]
      set_pprev_effect [OF 3] dom by auto
  note eff = set_pprev_effect [OF 1] set_pnext_effect [OF 2] set_pprev_effect [OF 3]
    set_pnext_effect [OF 4]
  let ?m' = "log_lock su (Release (plock m4 h)) m4"
  have run: "util_unlink_list sl su h x m = Some ?m'"
    using 1 2 3 4 nb by (simp add: util_unlink_list_def Let_def)
  have "chain ((nx m)(?u \<mapsto> ?w, x \<mapsto> 0)) ((pv m)(?w \<mapsto> ?u, x \<mapsto> 0)) (?us @ ?u # ?w # ?ws)"
  proof (rule chain_delete [OF c])
    have "distinct (h # as @ x # bs)" using dl by (simp add: dlist_def)
    moreover have "?us @ [?u, x] @ butlast (?w # ?ws) = h # as @ x # bs"
      using idu idw by (metis append.assoc append_Cons append_Nil butlast_snoc)
    ultimately show "distinct (?us @ [?u, x] @ butlast (?w # ?ws))" by (simp only:)
    have "tl (?us @ [?u, x]) @ ?w # ?ws = as @ x # bs @ [h]"
      using idu idw by (metis append.assoc append_Cons append_Nil list.sel(3))
    then show "distinct (tl (?us @ [?u, x]) @ ?w # ?ws)"
      using dl by (simp add: dlist_def)
  qed
  moreover have eq: "?us @ ?u # ?w # ?ws = h # (as @ bs) @ [h]"
    using idu idw by (metis append.assoc append_Cons append_Nil)
  ultimately have "chain (nx ?m') (pv ?m') (h # (as @ bs) @ [h])"
    using eff by (simp only: eq log_lock_simps)
  then have "dlist ?m' h (as @ bs)"
    using dl by (auto simp: dlist_def)
  moreover have "same_outside (set (h # as @ x # bs)) m ?m'"
    using eff u w unfolding same_outside_def by auto
  moreover have "bracketed sl su (plock m h) m ?m'" "nx ?m' x = Some 0" "pv ?m' x = Some 0"
    using eff by (auto simp: bracketed_def)
  ultimately show ?thesis using run by blast
qed

lemma util_dequeue_list_spec:
  assumes dl: "dlist m h xs"
  shows "\<exists>m'. util_dequeue_list sl su h m = Some (case xs of [] \<Rightarrow> 0 | x # _ \<Rightarrow> x, m')
           \<and> dlist m' h (tl xs) \<and> same_outside (set (h # xs)) m m' \<and> bracketed sl su (plock m h) m m'"
proof (cases xs)
  case Nil
  then show ?thesis using dl dlist_ends(2) [OF dl]
    by (auto simp: util_dequeue_list_def Let_def bracketed_def same_outside_def dlist_def)
next
  case (Cons x xs')
  let ?m = "log_lock sl (Acquire (plock m h)) m"
  have "dlist ?m h ([] @ x # xs')" using dl Cons by (simp add: dlist_def)
  from util_unlink_list_spec [OF this, of False False] obtain m' where
    "util_unlink_list False False h x ?m = Some m'" "dlist m' h xs'"
    "same_outside (set (h # xs)) ?m m'" "bracketed False False (plock m h) ?m m'"
    using Cons by auto
  then show ?thesis using dl Cons dlist_ends(2) [OF dl]
    by (auto simp: util_dequeue_list_def Let_def bracketed_def same_outside_def dlist_def)
qed

subsection \<open>What the clients of the lists rely on\<close>

text \<open>
  A queue of nodes in some memory: \<open>queue m xs\<close> says that the queue holds the nodes
  \<open>xs\<close> in order, \<open>usable m x\<close> that \<open>x\<close> is a node that may be linked.  \<open>peek\<close> and
  \<open>deq\<close> answer \<^term>\<open>0\<close> on the empty queue, as the code does.
\<close>

locale node_queue =
  fixes queue :: "'m \<Rightarrow> nat list \<Rightarrow> bool"
    and usable :: "'m \<Rightarrow> nat \<Rightarrow> bool"
    and enq_tail :: "nat \<Rightarrow> 'm \<Rightarrow> 'm option"
    and enq_head :: "nat \<Rightarrow> 'm \<Rightarrow> 'm option"
    and deq :: "'m \<Rightarrow> (nat \<times> 'm) option"
    and peek :: "'m \<Rightarrow> (nat \<times> 'm) option"
    and unlink :: "nat \<Rightarrow> 'm \<Rightarrow> 'm option"
  assumes queue_distinct: "queue m xs \<Longrightarrow> distinct xs \<and> 0 \<notin> set xs"
    and enq_tail_law: "queue m xs \<Longrightarrow> usable m x \<Longrightarrow> x \<notin> set xs \<Longrightarrow>
          \<exists>m'. enq_tail x m = Some m' \<and> queue m' (xs @ [x]) \<and> usable m' = usable m"
    and enq_head_law: "queue m xs \<Longrightarrow> usable m x \<Longrightarrow> x \<notin> set xs \<Longrightarrow>
          \<exists>m'. enq_head x m = Some m' \<and> queue m' (x # xs) \<and> usable m' = usable m"
    and deq_law: "queue m xs \<Longrightarrow>
          \<exists>m'. deq m = Some (case xs of [] \<Rightarrow> 0 | x # _ \<Rightarrow> x, m') \<and> queue m' (tl xs) \<and> usable m' = usable m"
    and peek_law: "queue m xs \<Longrightarrow>
          \<exists>m'. peek m = Some (case xs of [] \<Rightarrow> 0 | x # _ \<Rightarrow> x, m') \<and> queue m' xs \<and> usable m' = usable m"
    and unlink_law: "queue m (xs @ x # ys) \<Longrightarrow>
          \<exists>m'. unlink x m = Some m' \<and> queue m' (xs @ ys) \<and> usable m' = usable m"

text \<open>
  Two client loops: queueing a sequence of nodes, and the cleanup loop
  \<open>while ((p = peek())) unlink(p)\<close> that empties the tables at teardown, with the number of
  rounds bounded by \<open>fuel\<close>.
\<close>

fun enqueue_all :: "(nat \<Rightarrow> 'm \<Rightarrow> 'm option) \<Rightarrow> nat list \<Rightarrow> 'm \<Rightarrow> 'm option" where
  "enqueue_all enq [] m = Some m"
| "enqueue_all enq (x # xs) m = Option.bind (enq x m) (enqueue_all enq xs)"

fun cleanup_loop :: "('m \<Rightarrow> (nat \<times> 'm) option) \<Rightarrow> (nat \<Rightarrow> 'm \<Rightarrow> 'm option) \<Rightarrow> nat \<Rightarrow> 'm
    \<Rightarrow> (nat list \<times> 'm) option" where
  "cleanup_loop pk ul 0 m = None"
| "cleanup_loop pk ul (Suc fuel) m = do {
     (p, m1) \<leftarrow> pk m;
     if p = 0 then Some ([], m1)
     else do { m2 \<leftarrow> ul p m1; (ps, m3) \<leftarrow> cleanup_loop pk ul fuel m2; Some (p # ps, m3) } }"

context node_queue
begin

lemma enqueue_all_law:
  assumes "queue m xs" "\<forall>y \<in> set ys. usable m y" "distinct (xs @ ys)"
  shows "\<exists>m'. enqueue_all enq_tail ys m = Some m' \<and> queue m' (xs @ ys) \<and> usable m' = usable m"
  using assms
proof (induction ys arbitrary: xs m)
  case Nil
  then show ?case by simp
next
  case (Cons y ys)
  then obtain m1 where 1: "enq_tail y m = Some m1" "queue m1 (xs @ [y])" "usable m1 = usable m"
    using enq_tail_law [of m xs y] by auto
  with Cons.IH [of m1 "xs @ [y]"] Cons.prems show ?case by auto
qed

lemma cleanup_loop_law:
  assumes "queue m xs" "length xs < fuel"
  shows "\<exists>m'. cleanup_loop peek unlink fuel m = Some (xs, m') \<and> queue m' []"
  using assms
proof (induction xs arbitrary: m fuel)
  case Nil
  then obtain f where f: "fuel = Suc f" by (cases fuel) auto
  then show ?case using peek_law [OF Nil.prems(1)] by auto
next
  case (Cons x xs)
  then obtain f where f: "fuel = Suc f" by (cases fuel) auto
  obtain m1 where 1: "peek m = Some (x, m1)" "queue m1 (x # xs)"
    using peek_law [OF Cons.prems(1)] by auto
  obtain m2 where 2: "unlink x m1 = Some m2" "queue m2 xs"
    using unlink_law [of m1 "[]" x xs] 1 by auto
  obtain m3 where "cleanup_loop peek unlink f m2 = Some (xs, m3)" "queue m3 []"
    using Cons.IH [OF 2(2), of f] Cons.prems f by auto
  moreover have "x \<noteq> 0" using queue_distinct [OF Cons.prems(1)] by auto
  ultimately show ?case using 1 2 f by auto
qed

lemma fifo:
  assumes "queue m []" "\<forall>y \<in> set ys. usable m y" "distinct ys" "length ys < fuel"
  shows "\<exists>m' m''. enqueue_all enq_tail ys m = Some m' \<and> queue m' ys
           \<and> cleanup_loop peek unlink fuel m' = Some (ys, m'') \<and> queue m'' []"
  using enqueue_all_law [of m "[]" ys] cleanup_loop_law [of _ ys fuel] assms by fastforce

end

definition linkable :: "ptr \<Rightarrow> list_mem \<Rightarrow> ptr \<Rightarrow> bool" where
  "linkable h m x \<longleftrightarrow> mapped m x \<and> x \<noteq> 0 \<and> x \<noteq> h"

interpretation ulist: node_queue "\<lambda>m. dlist m h" "linkable h" "util_enqueue_list_tail sl su h"
    "util_enqueue_list_head sl su h" "util_dequeue_list sl su h" "util_peek_list sl su h"
    "util_unlink_list sl su h" for h sl su
proof (unfold_locales, goal_cases)
  case (1 m xs)
  then show ?case by (auto simp: dlist_def)
next
  case (2 m xs x)
  then show ?case using util_enqueue_list_tail_spec [of m h xs x sl su]
    by (fastforce simp: linkable_def same_outside_def fun_eq_iff)
next
  case (3 m xs x)
  then show ?case using util_enqueue_list_head_spec [of m h xs x sl su]
    by (fastforce simp: linkable_def same_outside_def fun_eq_iff)
next
  case (4 m xs)
  then show ?case using util_dequeue_list_spec [of m h xs sl su]
    by (fastforce simp: linkable_def same_outside_def fun_eq_iff)
next
  case (5 m xs)
  then show ?case using util_peek_list_spec [of m h xs sl su] same_links_dlist
    by (fastforce simp: linkable_def mapped_def fun_eq_iff)
next
  case (6 m xs x ys)
  then show ?case using util_unlink_list_spec [of m h xs x ys sl su]
    by (fastforce simp: linkable_def same_outside_def fun_eq_iff)
qed

subsection \<open>Scalars\<close>

record mlan_scalar =
  scalar_value :: t_s32
  scalar_lock :: nat
  scalar_flags :: t_u32

datatype MLAN_SCALAR_CONDITIONAL =
    MLAN_SCALAR_COND_EQUAL
  | MLAN_SCALAR_COND_NOT_EQUAL
  | MLAN_SCALAR_COND_GREATER_THAN
  | MLAN_SCALAR_COND_GREATER_OR_EQUAL
  | MLAN_SCALAR_COND_LESS_THAN
  | MLAN_SCALAR_COND_LESS_OR_EQUAL
  | MLAN_SCALAR_COND_other nat

definition MLAN_SCALAR_FLAG_UNIQUE_LOCK :: t_u32 where
  "MLAN_SCALAR_FLAG_UNIQUE_LOCK = push_bit 16 1"

text \<open>
  The scalar operations bracket one access between the two lock callbacks; the lock calls they
  make are returned next to the result.
\<close>

definition scalar_locked :: "bool \<Rightarrow> bool \<Rightarrow> mlan_scalar \<Rightarrow> lock_op list" where
  "scalar_locked sl su s = (if sl then [Acquire (scalar_lock s)] else [])
     @ (if su then [Release (scalar_lock s)] else [])"

definition util_scalar_init :: "t_s32 \<Rightarrow> nat \<Rightarrow> nat \<Rightarrow> mlan_scalar \<times> lock_op list" where
  \<comment> \<open>\<open>plock_to_use = 0\<close> is \<^verbatim>\<open>NULL\<close>; \<open>new_lock\<close> is what \<^verbatim>\<open>moal_init_lock\<close> hands out\<close>
  "util_scalar_init val plock_to_use new_lock =
     (if plock_to_use \<noteq> 0
      then (\<lparr>scalar_value = val, scalar_lock = plock_to_use, scalar_flags = 0 AND NOT MLAN_SCALAR_FLAG_UNIQUE_LOCK\<rparr>, [])
      else (\<lparr>scalar_value = val, scalar_lock = new_lock, scalar_flags = 0 OR MLAN_SCALAR_FLAG_UNIQUE_LOCK\<rparr>,
            [Init_lock new_lock]))"

definition util_scalar_free :: "mlan_scalar \<Rightarrow> lock_op list" where
  "util_scalar_free s =
     (if scalar_flags s AND MLAN_SCALAR_FLAG_UNIQUE_LOCK \<noteq> 0 then [Free_lock (scalar_lock s)] else [])"

definition util_scalar_read :: "bool \<Rightarrow> bool \<Rightarrow> mlan_scalar \<Rightarrow> t_s32 \<times> lock_op list" where
  "util_scalar_read sl su s = (scalar_value s, scalar_locked sl su s)"

definition util_scalar_write :: "bool \<Rightarrow> bool \<Rightarrow> t_s32 \<Rightarrow> mlan_scalar \<Rightarrow> mlan_scalar \<times> lock_op list" where
  "util_scalar_write sl su val s = (s\<lparr>scalar_value := val\<rparr>, scalar_locked sl su s)"

definition util_scalar_increment :: "bool \<Rightarrow> bool \<Rightarrow> mlan_scalar \<Rightarrow> mlan_scalar \<times> lock_op list" where
  "util_scalar_increment sl su s = (s\<lparr>scalar_value := scalar_value s + 1\<rparr>, scalar_locked sl su s)"

definition util_scalar_decrement :: "bool \<Rightarrow> bool \<Rightarrow> mlan_scalar \<Rightarrow> mlan_scalar \<times> lock_op list" where
  "util_scalar_decrement sl su s = (s\<lparr>scalar_value := scalar_value s - 1\<rparr>, scalar_locked sl su s)"

definition util_scalar_offset :: "bool \<Rightarrow> bool \<Rightarrow> t_s32 \<Rightarrow> mlan_scalar
    \<Rightarrow> t_s32 \<times> mlan_scalar \<times> lock_op list" where
  "util_scalar_offset sl su off s =
     (let newval = scalar_value s + off in (newval, s\<lparr>scalar_value := newval\<rparr>, scalar_locked sl su s))"

fun scalar_condition :: "MLAN_SCALAR_CONDITIONAL \<Rightarrow> t_s32 \<Rightarrow> t_s32 \<Rightarrow> bool" where
  "scalar_condition MLAN_SCALAR_COND_EQUAL v c = (v = c)"
| "scalar_condition MLAN_SCALAR_COND_NOT_EQUAL v c = (v \<noteq> c)"
| "scalar_condition MLAN_SCALAR_COND_GREATER_THAN v c = (sint c < sint v)"
| "scalar_condition MLAN_SCALAR_COND_GREATER_OR_EQUAL v c = (sint c \<le> sint v)"
| "scalar_condition MLAN_SCALAR_COND_LESS_THAN v c = (sint v < sint c)"
| "scalar_condition MLAN_SCALAR_COND_LESS_OR_EQUAL v c = (sint v \<le> sint c)"
| "scalar_condition (MLAN_SCALAR_COND_other k) v c = False"

definition util_scalar_conditional_write :: "bool \<Rightarrow> bool \<Rightarrow> MLAN_SCALAR_CONDITIONAL \<Rightarrow> t_s32 \<Rightarrow> t_s32
    \<Rightarrow> mlan_scalar \<Rightarrow> bool \<times> mlan_scalar \<times> lock_op list" where
  "util_scalar_conditional_write sl su condition val_compare val_to_set s =
     (let update = scalar_condition condition (scalar_value s) val_compare
      in (update, if update then s\<lparr>scalar_value := val_to_set\<rparr> else s, scalar_locked sl su s))"

subsection \<open>Counting bits\<close>

definition nibblebits :: "t_u32 list" where
  "nibblebits = [0, 1, 1, 2, 1, 2, 2, 3, 1, 2, 2, 3, 2, 3, 3, 4]"

function bitcount_loop :: "t_u32 \<Rightarrow> t_u32 \<Rightarrow> t_u32" where
  "bitcount_loop num cnt =
     (if num \<noteq> 0 then bitcount_loop (drop_bit 4 num) (cnt + nibblebits ! unat (num AND 0x0f))
      else cnt)"
  by pat_completeness auto
termination
proof (relation "measure (\<lambda>(num, cnt). unat num)", goal_cases)
  case 1
  show ?case by simp
next
  case (2 num cnt)
  then have "0 < unat num" by (simp add: unat_gt_0)
  then show ?case by (simp add: drop_bit_eq_div unat_div)
qed

definition bitcount :: "t_u32 \<Rightarrow> t_u32" where
  "bitcount num = bitcount_loop num 0"

declare bitcount_loop.simps [simp del]

text \<open>The number of one bits, from the bits themselves.\<close>

definition popcount :: "t_u32 \<Rightarrow> nat" where
  "popcount w = (\<Sum>i = 0..<32. of_bool (bit w i))"

lemma nibble_bits:
  "nibblebits ! unat ((w::t_u32) AND 0x0f) =
     of_nat (of_bool (bit w 0) + of_bool (bit w 1) + of_bool (bit w 2) + of_bool (bit w 3))"
proof -
  have "w AND 0x0f = take_bit 4 w"
    by (simp add: take_bit_eq_mask mask_numeral)
  also have "\<dots> = horner_sum of_bool 2 (map (bit w) [0..<4])"
    by (rule horner_sum_bit_eq_take_bit [symmetric])
  also have "[0..<4] = [0, 1, 2, 3::nat]" by code_simp
  finally have *: "w AND 0x0f = horner_sum of_bool 2 (map (bit w) [0, 1, 2, 3])" .
  show ?thesis unfolding *
    by (cases "bit w 0"; cases "bit w 1"; cases "bit w 2"; cases "bit w 3") (simp_all add: nibblebits_def)
qed

lemma popcount_step:
  "popcount w = of_bool (bit w 0) + of_bool (bit w 1) + of_bool (bit w 2) + of_bool (bit w 3)
     + popcount (drop_bit 4 w)"
proof -
  have "popcount (drop_bit 4 w) = (\<Sum>i = 0..<32. of_bool (bit w (i + 4)))"
    by (simp add: popcount_def bit_drop_bit_eq add.commute)
  also have "\<dots> = (\<Sum>i = 4..<36. of_bool (bit w i))"
    using sum.shift_bounds_nat_ivl [of "\<lambda>i. of_bool (bit w i) :: nat" 0 4 32] by simp
  also have "\<dots> = (\<Sum>i = 4..<32. of_bool (bit w i)) + (\<Sum>i = 32..<36. of_bool (bit w i))"
    by (rule sum.atLeastLessThan_concat [symmetric]) simp_all
  also have "(\<Sum>i = 32..<36. of_bool (bit w i)) = (0 :: nat)"
    by (intro sum.neutral) (auto dest: bit_imp_le_length)
  finally have "popcount (drop_bit 4 w) = (\<Sum>i = 4..<32. of_bool (bit w i))" by simp
  moreover have "popcount w = (\<Sum>i = 0..<4. of_bool (bit w i)) + (\<Sum>i = 4..<32. of_bool (bit w i))"
    unfolding popcount_def by (rule sum.atLeastLessThan_concat [symmetric]) simp_all
  moreover have "(\<Sum>i = 0..<4. of_bool (bit w i) :: nat) =
      of_bool (bit w 0) + of_bool (bit w 1) + of_bool (bit w 2) + of_bool (bit w 3)"
    by (simp add: numeral_eq_Suc)
  ultimately show ?thesis by simp
qed

lemma bitcount_loop_correct: "bitcount_loop w c = c + of_nat (popcount w)"
proof (induction w c rule: bitcount_loop.induct)
  case (1 num cnt)
  show ?case
  proof (cases "num = 0")
    case True
    then show ?thesis by (simp add: bitcount_loop.simps popcount_def)
  next
    case False
    then show ?thesis
      using 1 by (simp add: bitcount_loop.simps [of num] nibble_bits popcount_step [of num])
  qed
qed

subsection \<open>Properties\<close>

text \<open>First in, first out, on the real heap: queueing any sequence of distinct nodes at the tail of
  an empty list and then running the teardown loop (peek, unlink, repeat) never dereferences a
  bad pointer, returns exactly those nodes in the order they were queued, and leaves the head a
  well-formed empty list. One round per node, plus the final peek, is enough.\<close>

theorem util_list_fifo:
  assumes "dlist m h []" "\<forall>y \<in> set ys. linkable h m y" "distinct ys"
  shows "\<exists>m' m''. enqueue_all (util_enqueue_list_tail sl su h) ys m = Some m' \<and> dlist m' h ys
     \<and> cleanup_loop (util_peek_list sl su h) (util_unlink_list sl su h) (Suc (length ys)) m'
         = Some (ys, m'') \<and> dlist m'' h []"
  using ulist.fifo [of m h ys "Suc (length ys)" sl su] assms by simp

definition three_nodes :: list_mem where
  "three_nodes = \<lparr>links = [1 \<mapsto> \<lparr>pprev = 1, pnext = 1\<rparr>, 2 \<mapsto> \<lparr>pprev = 0, pnext = 0\<rparr>,
     3 \<mapsto> \<lparr>pprev = 0, pnext = 0\<rparr>], plock = (\<lambda>_. 7), lock_log = []\<rparr>"

theorem util_list_fifo_witness:
  "\<exists>m' m''. enqueue_all (util_enqueue_list_tail True True 1) [3, 2] three_nodes = Some m' \<and> dlist m' 1 [3, 2]
     \<and> cleanup_loop (util_peek_list True True 1) (util_unlink_list True True 1) (Suc (length [3, 2::nat])) m'
         = Some ([3, 2], m'') \<and> dlist m'' 1 []"
  by (rule util_list_fifo)
    (simp_all add: three_nodes_def dlist_def linkable_def mapped_def get_pnext_def get_pprev_def)

text \<open>Removing a node from the middle of one list is local: the list loses exactly that node and keeps
  the order of the others, the node's links are cleared, the lock is taken and released once, and
  any other list that shares no node with it is untouched.\<close>

theorem util_unlink_list_local:
  assumes "dlist m h (xs @ x # ys)" "dlist m g zs" "set (g # zs) \<inter> set (h # xs @ x # ys) = {}"
  shows "\<exists>m'. util_unlink_list True True h x m = Some m' \<and> dlist m' h (xs @ ys) \<and> dlist m' g zs
     \<and> links m' x = Some \<lparr>pprev = 0, pnext = 0\<rparr>
     \<and> lock_log m' = lock_log m @ [Acquire (plock m h), Release (plock m h)]"
proof -
  obtain m' where m': "util_unlink_list True True h x m = Some m'" "dlist m' h (xs @ ys)"
    "nx m' x = Some 0" "pv m' x = Some 0" "same_outside (set (h # xs @ x # ys)) m m'"
    "bracketed True True (plock m h) m m'"
    using util_unlink_list_spec [OF assms(1)] by blast
  moreover have "dlist m' g zs" using dlist_frame [OF m'(5) assms(2,3)] .
  moreover have "links m' x = Some \<lparr>pprev = 0, pnext = 0\<rparr>"
    using m'(3,4) by (auto simp: get_pnext_def get_pprev_def)
  ultimately show ?thesis by (auto simp: bracketed_def)
qed

definition two_lists :: list_mem where
  "two_lists = \<lparr>links = [1 \<mapsto> \<lparr>pprev = 2, pnext = 2\<rparr>, 2 \<mapsto> \<lparr>pprev = 1, pnext = 1\<rparr>,
     3 \<mapsto> \<lparr>pprev = 3, pnext = 3\<rparr>], plock = (\<lambda>_. 7), lock_log = []\<rparr>"

theorem util_unlink_list_local_witness:
  "\<exists>m'. util_unlink_list True True 1 2 two_lists = Some m' \<and> dlist m' 1 ([] @ []) \<and> dlist m' 3 []
     \<and> links m' 2 = Some \<lparr>pprev = 0, pnext = 0\<rparr>
     \<and> lock_log m' = lock_log two_lists @ [Acquire (plock two_lists 1), Release (plock two_lists 1)]"
  by (rule util_unlink_list_local)
    (simp_all add: two_lists_def dlist_def get_pnext_def get_pprev_def)

text \<open>\<open>bitcount\<close> terminates on every 32-bit value and returns the number of its one bits: the
  nibble table is right and the loop loses none of the eight nibbles.\<close>

theorem bitcount_correct: "bitcount w = of_nat (\<Sum>i = 0..<32. of_bool (bit w i))"
  by (simp add: bitcount_def bitcount_loop_correct popcount_def)

end
