(* ===== verification/Mlan_State.thy ===== *)
theory Mlan_State
  imports Mlan_Prelude Util_List
begin

text \<open>
  The data model shared by the driver components, from \<^verbatim>\<open>mlan_main.h\<close>,
  \<^verbatim>\<open>mlan_fw.h\<close> and \<^verbatim>\<open>mlan_decl.h\<close>: packet buffers with their receive
  descriptor, the receive reorder table, the transmit BA stream table, the stations, the WMM
  queues, and the part of \<^verbatim>\<open>mlan_private\<close> and \<^verbatim>\<open>mlan_adapter\<close> that the modelled
  code reads and writes.

  A C table that is a linked list of nodes is a list here, in list order; a pointer to a node of it
  is the node's position (the theory \<^verbatim>\<open>Util_List\<close> proves that the pointer lists realise
  these list operations).  Flags of type \<^verbatim>\<open>t_u8\<close> that only hold \<^verbatim>\<open>MTRUE\<close> or
  \<^verbatim>\<open>MFALSE\<close> are booleans.  Calls that leave a component (to the kernel, to the firmware,
  or into the next stage of the receive path) are recorded in order as values of
  \<open>moal_call\<close>.  The host is little-endian, as the supported boards are: the
  \<^verbatim>\<open>wlan_cpu_to_le16\<close> conversions are then the identity macros of \<^verbatim>\<open>mlan_main.h\<close>.
\<close>

subsection \<open>Roles and constants\<close>

datatype mlan_bss_role = MLAN_BSS_ROLE_STA | MLAN_BSS_ROLE_UAP

datatype mlan_bss_type =
    MLAN_BSS_TYPE_STA | MLAN_BSS_TYPE_UAP | MLAN_BSS_TYPE_WIFIDIRECT | MLAN_BSS_TYPE_NAN
  | MLAN_BSS_TYPE_ANY

datatype mlan_bss_mode = MLAN_BSS_MODE_INFRA | MLAN_BSS_MODE_IBSS | MLAN_BSS_MODE_AUTO

datatype tdlsStatus_e =
    TDLS_NOT_SETUP | TDLS_SETUP_INPROGRESS | TDLS_SETUP_COMPLETE | TDLS_SETUP_FAILURE | TDLS_TEAR_DOWN
  | TDLS_SWITCHING_CHANNEL | TDLS_IN_BASE_CHANNEL | TDLS_IN_OFF_CHANNEL

datatype baStatus_e = BA_STREAM_NOT_SETUP | BA_STREAM_SETUP_INPROGRESS | BA_STREAM_SETUP_COMPLETE

abbreviation MAX_NUM_TID :: nat where "MAX_NUM_TID \<equiv> 8"
abbreviation PKT_TYPE_AMSDU :: nat where "PKT_TYPE_AMSDU \<equiv> 0xE6"
abbreviation PKT_TYPE_BAR :: nat where "PKT_TYPE_BAR \<equiv> 0xE7"
abbreviation DEFAULT_SEQ_NUM :: int where "DEFAULT_SEQ_NUM \<equiv> 0xffff"
abbreviation BA_STREAM_NOT_ALLOWED :: t_u8 where "BA_STREAM_NOT_ALLOWED \<equiv> 0xff"
abbreviation RXPD_FLAG_PN_CHECK_SUPPORT :: t_u8 where "RXPD_FLAG_PN_CHECK_SUPPORT \<equiv> 4"

definition ISSUPP_RSN_REPLAY_DETECTION :: "t_u32 \<Rightarrow> bool" where
  "ISSUPP_RSN_REPLAY_DETECTION cap \<longleftrightarrow> cap AND push_bit 28 1 \<noteq> 0"

subsection \<open>Packets\<close>

text \<open>The fields of the receive descriptor at \<^verbatim>\<open>pbuf + data_offset\<close> that the code reads.\<close>

record RxPD =
  rx_pkt_length :: t_u16
  rx_pkt_offset :: t_u16
  rx_pkt_type :: t_u16
  rxpd_seq_num :: t_u16
  rxpd_priority :: t_u8
  rx_rate :: t_u8
  rxpd_snr :: t_u8
  rxpd_nf :: t_u8
  rxpd_flags :: t_u8
  hi_rx_count32 :: t_u32
  lo_rx_count16 :: t_u16

text \<open>Per-packet transmit settings of the host (\<^verbatim>\<open>tx_power_ctl\<close> is the union's byte, its top bit \<^verbatim>\<open>hostctl\<close>).\<close>

record pkt_txctrl =
  txc_data_rate :: t_u16
  txc_channel :: t_u8
  txc_bw :: t_u8
  txc_tx_power :: t_u8
  txc_retry_limit :: t_u8

record mlan_buffer =
  buf_addr :: nat
  pbuf :: "t_u8 list"
  data_offset :: nat
  data_len :: nat
  rxpd :: RxPD
  buf_bss_index :: nat
  buf_type :: nat
  buf_priority :: nat
  buf_flags :: t_u32
  use_count :: nat
  in_ts :: "t_u32 \<times> t_u32"
  tx_seq_num :: t_u32
  tx_info :: pkt_txctrl
  pparent :: "nat option"

text \<open>A reorder slot holds \<^verbatim>\<open>MNULL\<close>, the marker \<^verbatim>\<open>RX_PKT_DROPPED_IN_FW\<close>, or a buffer.\<close>

datatype payload = RX_PKT_DROPPED_IN_FW | Rx_buffer mlan_buffer

subsection \<open>Host commands, events, outgoing calls\<close>

record HostCmd_DS_11N_ADDBA_REQ =
  add_req_result :: t_u8
  req_peer_mac_addr :: mac
  req_dialog_token :: t_u8
  req_block_ack_param_set :: t_u16
  req_block_ack_tmo :: t_u16
  req_ssn :: t_u16

record HostCmd_DS_11N_ADDBA_RSP =
  add_rsp_result :: t_u8
  rsp_peer_mac_addr :: mac
  rsp_dialog_token :: t_u8
  rsp_status_code :: t_u16
  rsp_block_ack_param_set :: t_u16
  rsp_block_ack_tmo :: t_u16
  rsp_ssn :: t_u16

record HostCmd_DS_11N_DELBA =
  del_result :: t_u8
  del_peer_mac_addr :: mac
  del_ba_param_set :: t_u16
  del_reason_code :: t_u16

record HostCmd_DS_11N_BATIMEOUT =
  bat_tid :: t_u8
  bat_peer_mac_addr :: mac
  bat_origninator :: t_u8

datatype host_cmd =
    HostCmd_CMD_11N_ADDBA_REQ HostCmd_DS_11N_ADDBA_REQ
  | HostCmd_CMD_11N_DELBA HostCmd_DS_11N_DELBA

datatype mlan_event_id =
    MLAN_EVENT_ID_DRV_DEFER_RX_WORK
  | MLAN_EVENT_ID_DRV_FLUSH_RX_WORK
  | MLAN_EVENT_ID_DRV_DEFER_HANDLING

datatype moal_call =
    Call_wlan_11n_deaggregate_pkt mlan_buffer
  | Call_wlan_process_uap_rx_packet mlan_buffer
  | Call_wlan_process_rx_packet mlan_buffer
  | Call_wlan_free_mlan_buffer mlan_buffer
  | Call_wlan_write_data_complete mlan_buffer mlan_status
  | Call_moal_init_timer
  | Call_moal_start_timer int
  | Call_moal_stop_timer
  | Call_moal_free_timer
  | Call_wlan_recv_event mlan_event_id
  | Call_wlan_prepare_cmd host_cmd
  | Call_wlan_prepare_cmd_ioctl host_cmd
  | Call_wlan_prepare_cmd_eapol mlan_buffer
  | Call_moal_recv_packet mlan_buffer
  | Call_wlan_uap_recv_packet mlan_buffer
  | Call_wlan_recv_packet_complete mlan_buffer mlan_status
  | Call_wlan_process_tdls_action_frame "t_u8 list"
  | Call_wlan_sdio_host_to_card mlan_buffer nat
  | Call_wlan_process_802dot11_mgmt_pkt mlan_buffer
  | Call_moal_hist_data_add nat
  | Call_moal_updata_peer_signal nat mac t_u8 t_u8

subsection \<open>The receive reorder table\<close>

record RxReorderTbl =
  rr_tid :: int
  rr_ta :: mac
  rr_start_win :: int
  rr_last_seq :: int
  rr_win_size :: int
  rx_reorder_ptr :: "payload option list"
  rr_timer :: bool
  timer_is_set :: bool
  rr_ba_status :: baStatus_e
  rr_amsdu :: bool
  force_no_drop :: bool
  check_start_win :: bool
  pkt_count :: t_u8
  rr_flush_data :: bool
  hi_curr_rx_count32 :: t_u32
  lo_curr_rx_count16 :: t_u16

subsection \<open>The transmit side\<close>

record TxBAStreamTbl =
  tx_tid :: int
  tx_ra :: mac
  tx_ba_status :: baStatus_e
  tx_amsdu_ok :: bool

record raListTbl =
  ra_addr :: ptr
  buf_head :: "mlan_buffer list"
  ra :: mac
  total_pkts :: t_u16
  packet_count :: t_u16
  ba_packet_threshold :: t_u8
  ra_is_11n_enabled :: bool
  ra_max_amsdu :: t_u16
  ra_ba_status :: baStatus_e
  del_ba_count :: t_u8
  amsdu_in_ampdu :: bool
  is_tdls_link :: bool
  tx_pause :: bool

text \<open>The round-robin cursor of a queue: null, the list head, or the node at an address.\<close>

datatype ra_cursor = Ra_null | Ra_head | Ra_node ptr

record tid_tbl_t =
  ra_list :: "raListTbl list"
  ra_list_curr :: ra_cursor

datatype mlan_wmm_ac_e = WMM_AC_BK | WMM_AC_BE | WMM_AC_VI | WMM_AC_VO

record WmmAcStatus_t =
  ac_disabled :: bool
  flow_required :: bool
  flow_created :: bool

record wmm_desc_t =
  tid_tbl_ptr :: "tid_tbl_t list"
  packets_out :: "t_u32 list"
  pkts_queued :: "t_u32 list"
  pkts_paused :: "t_u32 list"
  ac_status :: "WmmAcStatus_t list"
  ac_down_graded_vals :: "mlan_wmm_ac_e list"
  queue_priority :: "nat list"
  drv_pkt_delay_max :: t_u32
  user_pri_pkt_tx_ctrl :: "t_u32 list"
  tx_pkts_queued :: mlan_scalar
  highest_queued_prio :: mlan_scalar

record add_ba_param_t =
  tx_win_size :: t_u32
  rx_win_size :: t_u32
  ba_timeout :: t_u32
  tx_amsdu :: bool
  rx_amsdu :: bool

record tx_aggr_t =
  ampdu_user :: t_u8
  ampdu_ap :: t_u8
  aggr_amsdu :: t_u8

record sta_node =
  sta_mac_addr :: mac
  sta_is_wmm_enabled :: bool
  sta_is_11n_enabled :: bool
  ampdu_sta :: "t_u8 list"
  sta_rx_seq :: "t_u16 list"
  sta_max_amsdu :: t_u16
  sta_wapi_key_on :: bool
  sta_snr :: t_u8
  sta_nf :: t_u8
  sta_tdls_status :: tdlsStatus_e
  sta_tx_pause :: bool
  sta_capability :: t_u16
  sta_support_rate :: "t_u8 list"
  sta_rate_len :: t_u8
  sta_qos_info :: t_u8
  sta_HTcap :: "t_u8 list"
  sta_HTInfo :: "t_u8 list"
  sta_BSSCO_20_40 :: "t_u8 list"
  sta_ExtCap :: "t_u8 list"
  sta_rsn_ie :: "t_u8 list"
  sta_link_ie :: "t_u8 list"

subsection \<open>Interface and adapter\<close>

record mlan_private =
  bss_index :: nat
  priv_bss_num :: t_u8
  bss_priority :: nat
  intf_hr_len :: nat
  pkt_tx_ctrl :: t_u32
  ewpa_enabled :: bool
  curr_addr :: mac
  bss_mac_address :: mac
  priv_rxpd_rate :: t_u8
  mgmt_frame_passthru_mask :: t_u32
  msdu_in_tx_amsdu_cnt :: t_u32
  amsdu_tx_cnt :: t_u32
  msdu_in_rx_amsdu_cnt :: t_u32
  amsdu_rx_cnt :: t_u32
  bss_role :: mlan_bss_role
  bss_type :: mlan_bss_type
  bss_mode :: mlan_bss_mode
  media_connected :: bool
  uap_bss_started :: bool
  wps_session_enable :: bool
  rx_reorder_tbl_ptr :: "RxReorderTbl list"
  tx_ba_stream_tbl_ptr :: "TxBAStreamTbl list"
  sta_list :: "sta_node list"
  rx_seq :: "t_u16 list"
  addba_reject :: "t_u8 list"
  aggr_prio_tbl :: "tx_aggr_t list"
  add_ba_param :: add_ba_param_t
  user_rxwinsize :: t_u32
  wmm_enabled :: bool
  priv_is_11n_enabled :: bool
  config_bands :: t_u8
  has_ht_cap :: bool
  disable_11n :: bool
  priv_max_amsdu :: t_u16
  wapi_enabled :: bool
  wapi_key_on :: bool
  is_data_rate_auto :: bool
  bitmap_rates :: "t_u16 list"
  txaggrctrl :: bool
  priv_snr :: t_u8
  priv_nf :: t_u8
  priv_tx_pause :: bool
  port_ctrl_mode :: bool
  port_open :: bool
  tdls_pending_txq :: "mlan_buffer list"
  bypass_txq :: "mlan_buffer list"
  num_drop_pkts :: t_u32
  wmm :: wmm_desc_t

record mlan_adapter =
  fw_cap_info :: t_u32
  hw_dot_11n_dev_cap :: t_u32
  flush_data :: bool
  rx_lock_flag :: bool
  mlan_rx_processing :: bool
  pending_bridge_pkts :: mlan_scalar
  coex_rx_winsize :: bool
  coex_win_size :: bool
  coex_rx_win_size :: t_u8
  system_time :: "t_u32 \<times> t_u32"
  dialog_tok :: t_u8
  tdls_status :: tdlsStatus_e
  bypass_pkt_count :: t_u16
  tx_buf_size :: t_u16
  pps_uapsd_mode :: t_u16
  tx_lock_flag :: bool
  data_sent :: bool
  num_tx_host_to_card_failure :: t_u32
  sleep_period :: t_u16
  cmd_sent :: bool
  curr_cmd :: bool
  cmd_pending :: bool
  delay_null_pkt :: bool
  sdio_ireg :: t_u8
  enable_net_mon :: bool

text \<open>What a function of one interface works on: its interface, the adapter behind
  \<^verbatim>\<open>priv->adapter\<close>, and the calls made so far.\<close>

record mlan_ctx =
  adapter :: mlan_adapter
  priv :: mlan_private
  calls :: "moal_call list"

definition emit :: "moal_call list \<Rightarrow> mlan_ctx \<Rightarrow> mlan_ctx" where
  "emit cs c = c\<lparr>calls := calls c @ cs\<rparr>"

definition set_priv :: "mlan_private \<Rightarrow> mlan_ctx \<Rightarrow> mlan_ctx" where
  "set_priv p c = c\<lparr>priv := p\<rparr>"

lemma emit_simps [simp]:
  "priv (emit cs c) = priv c" "adapter (emit cs c) = adapter c" "calls (emit cs c) = calls c @ cs"
  "emit ds (emit cs c) = emit (cs @ ds) c" "emit [] c = c"
  by (simp_all add: emit_def)

lemma set_priv_simps [simp]:
  "priv (set_priv p c) = p" "adapter (set_priv p c) = adapter c" "calls (set_priv p c) = calls c"
  by (simp_all add: set_priv_def)

subsection \<open>Helpers used by several components\<close>

definition queuing_ra_based :: "mlan_private \<Rightarrow> bool" where
  "queuing_ra_based p \<longleftrightarrow>
     \<not> (bss_mode p = MLAN_BSS_MODE_INFRA \<and> bss_role p = MLAN_BSS_ROLE_STA)"

definition mlan_block_rx_process :: "bool \<Rightarrow> mlan_ctx \<Rightarrow> mlan_ctx" where
  "mlan_block_rx_process block c =
     (let c1 = c\<lparr>adapter := (adapter c)\<lparr>rx_lock_flag := block\<rparr>\<rparr>
      in if block \<and> mlan_rx_processing (adapter c)
         then emit [Call_wlan_recv_event MLAN_EVENT_ID_DRV_FLUSH_RX_WORK] c1 else c1)"

lemma mlan_block_rx_process_simps [simp]:
  "priv (mlan_block_rx_process b c) = priv c"
  "fw_cap_info (adapter (mlan_block_rx_process b c)) = fw_cap_info (adapter c)"
  by (simp_all add: mlan_block_rx_process_def Let_def emit_def)

end
