(* ===== verification/Mlan_Tables.thy ===== *)
theory Mlan_Tables
  imports Mlan_State
begin

text \<open>
  The keyed tables of the driver: the reorder table (by TID and transmitter), the transmit BA
  table (by TID and receiver), the station list (by address) and the receiver lists of the WMM
  queues are all linked lists searched from the head for the first node with a given key.  The
  locale \<open>keyed_table\<close> states that contract once and shows that such a table, kept free of
  duplicate keys, behaves as a finite map under insertion at the tail, deletion and update of a
  node.  The station list of \<^verbatim>\<open>mlan_misc.c\<close> is the first table that provides it.
\<close>

locale keyed_table =
  fixes nodes :: "'s \<Rightarrow> 'e list"
    and lookup :: "'s \<Rightarrow> 'k \<Rightarrow> nat option"
    and key :: "'e \<Rightarrow> 'k"
  assumes lookup_Some: "lookup s k = Some i \<Longrightarrow>
      i < length (nodes s) \<and> key (nodes s ! i) = k \<and> (\<forall>j < i. key (nodes s ! j) \<noteq> k)"
    and lookup_None: "lookup s k = None \<Longrightarrow> k \<notin> key ` set (nodes s)"
begin

definition unique :: "'s \<Rightarrow> bool" where
  "unique s \<longleftrightarrow> distinct (map key (nodes s))"

definition entry :: "'s \<Rightarrow> 'k \<rightharpoonup> 'e" where
  "entry s k = map_option (\<lambda>i. nodes s ! i) (lookup s k)"

lemma lookup_nth:
  assumes "unique s" "i < length (nodes s)"
  shows "lookup s (key (nodes s ! i)) = Some i"
proof (cases "lookup s (key (nodes s ! i))")
  case None
  then show ?thesis using lookup_None [OF None] assms by auto
next
  case (Some j)
  then have "j < length (nodes s)" "key (nodes s ! j) = key (nodes s ! i)"
    using lookup_Some by auto
  then have "i = j"
    using assms by (auto simp: unique_def distinct_conv_nth)
  then show ?thesis using Some by simp
qed

lemma entry_iff:
  assumes "unique s"
  shows "entry s k = Some e \<longleftrightarrow> e \<in> set (nodes s) \<and> key e = k"
proof
  assume "entry s k = Some e"
  then show "e \<in> set (nodes s) \<and> key e = k"
    using lookup_Some by (auto simp: entry_def)
next
  assume "e \<in> set (nodes s) \<and> key e = k"
  then obtain i where "i < length (nodes s)" "nodes s ! i = e" "key e = k"
    by (auto simp: in_set_conv_nth)
  then show "entry s k = Some e"
    using lookup_nth [OF assms] by (auto simp: entry_def)
qed

lemma entry_None_iff: "entry s k = None \<longleftrightarrow> k \<notin> key ` set (nodes s)"
proof
  show "entry s k = None \<Longrightarrow> k \<notin> key ` set (nodes s)"
    using lookup_None by (auto simp: entry_def)
  show "k \<notin> key ` set (nodes s) \<Longrightarrow> entry s k = None"
    using lookup_Some by (cases "lookup s k") (force simp: entry_def)+
qed

lemma map_eqI:
  assumes "\<And>k e. m k = Some e \<longleftrightarrow> m' k = Some e"
  shows "m = m'"
proof
  fix k
  show "m k = m' k" using assms [of k] by (metis option.exhaust)
qed

lemma insert_tail:
  assumes "unique s" "lookup s (key e) = None" "nodes s' = nodes s @ [e]"
  shows "unique s'" "entry s' = (entry s)(key e \<mapsto> e)"
proof -
  have nin: "key e \<notin> key ` set (nodes s)" using lookup_None [OF assms(2)] .
  then have nin': "key x \<noteq> key e" if "x \<in> set (nodes s)" for x
    using that by (metis image_eqI)
  show u': "unique s'" using assms(1,3) nin by (simp add: unique_def)
  show "entry s' = (entry s)(key e \<mapsto> e)"
  proof (rule map_eqI)
    fix k x
    show "(entry s' k = Some x) = (((entry s)(key e \<mapsto> e)) k = Some x)"
      unfolding entry_iff [OF u'] using nin' assms(3)
      by (cases "k = key e") (auto simp: entry_iff [OF assms(1)])
  qed
qed

lemma delete_node:
  assumes "unique s" "lookup s k = Some i" "nodes s' = remove_nth i (nodes s)"
  shows "unique s'" "entry s' = (entry s)(k := None)"
proof -
  have i: "i < length (nodes s)" "key (nodes s ! i) = k" using lookup_Some [OF assms(2)] by auto
  show u': "unique s'"
    using assms(1,3) by (simp add: unique_def map_remove_nth distinct_remove_nth)
  have d: "distinct (nodes s)" using assms(1) by (auto simp: unique_def distinct_map)
  have inj: "inj_on key (set (nodes s))" using assms(1) by (auto simp: unique_def distinct_map)
  have s': "set (nodes s') = set (nodes s) - {nodes s ! i}"
    using in_set_remove_nth_distinct [OF d i(1)] assms(3) by simp
  show "entry s' = (entry s)(k := None)"
  proof (rule map_eqI)
    fix k' x
    show "(entry s' k' = Some x) = (((entry s)(k := None)) k' = Some x)"
      using s' i inj by (auto simp: entry_iff [OF u'] entry_iff [OF assms(1)] inj_on_def)
  qed
qed

lemma update_node:
  assumes "unique s" "lookup s k = Some i" "nodes s' = (nodes s)[i := e]" "key e = k"
  shows "unique s'" "entry s' = (entry s)(k \<mapsto> e)"
proof -
  have i: "i < length (nodes s)" "key (nodes s ! i) = k" using lookup_Some [OF assms(2)] by auto
  have m: "map key (nodes s') = map key (nodes s)"
    using assms(3,4) i by (metis list_update_id map_update nth_map)
  show u': "unique s'" using assms(1) m by (simp add: unique_def)
  show "entry s' = (entry s)(k \<mapsto> e)"
  proof
    fix k'
    show "entry s' k' = ((entry s)(k \<mapsto> e)) k'"
    proof (cases "k' = k")
      case True
      have "e \<in> set (nodes s')" using assms(3) i by (simp add: set_update_memI)
      then show ?thesis using True assms(4) entry_iff [OF u'] by simp
    next
      case False
      have "(entry s' k' = Some x) = (entry s k' = Some x)" for x
      proof -
        have "x \<in> set (nodes s')" if x: "x \<in> set (nodes s)" "key x = k'"
        proof -
          obtain j where "j < length (nodes s)" "nodes s ! j = x" using x(1) by (auto simp: in_set_conv_nth)
          moreover then have "i \<noteq> j" using i x(2) False by auto
          ultimately have "j < length (nodes s')" "nodes s' ! j = x" using assms(3) i by auto
          then show ?thesis by auto
        qed
        moreover have "x \<in> set (nodes s)" if "x \<in> set (nodes s')" "key x = k'"
          using that set_update_subset_insert [of "nodes s" i e] assms(3,4) False by auto
        ultimately have "(x \<in> set (nodes s') \<and> key x = k') = (x \<in> set (nodes s) \<and> key x = k')"
          by blast
        then show ?thesis by (simp add: entry_iff [OF u'] entry_iff [OF assms(1)])
      qed
      then have "entry s' k' = entry s k'" by (metis option.exhaust)
      then show ?thesis using False by simp
    qed
  qed
qed

end

subsection \<open>The station list\<close>

definition wlan_is_station_list_empty :: "mlan_private \<Rightarrow> bool" where
  "wlan_is_station_list_empty p = (if sta_list p = [] then True else False)"

definition wlan_get_station_entry :: "mlan_private \<Rightarrow> mac \<Rightarrow> nat option" where
  "wlan_get_station_entry p mac = find_index (\<lambda>s. sta_mac_addr s = mac) (sta_list p)"

definition new_sta_node :: "mac \<Rightarrow> sta_node" where
  "new_sta_node mac = \<lparr>sta_mac_addr = mac, sta_is_wmm_enabled = False, sta_is_11n_enabled = False,
     ampdu_sta = replicate MAX_NUM_TID 0, sta_rx_seq = replicate MAX_NUM_TID 0,
     sta_max_amsdu = 0, sta_wapi_key_on = False, sta_snr = 0, sta_nf = 0,
     sta_tdls_status = TDLS_NOT_SETUP, sta_tx_pause = False, sta_capability = 0,
     sta_support_rate = replicate 32 0, sta_rate_len = 0, sta_qos_info = 0, sta_HTcap = replicate 28 0,
     sta_HTInfo = replicate 24 0, sta_BSSCO_20_40 = replicate 3 0, sta_ExtCap = replicate 10 0,
     sta_rsn_ie = replicate 256 0, sta_link_ie = replicate 20 0\<rparr>"

definition wlan_add_station_entry :: "bool \<Rightarrow> mlan_private \<Rightarrow> mac \<Rightarrow> nat option \<times> mlan_private" where
  \<comment> \<open>\<open>alloc\<close>: did \<^verbatim>\<open>moal_malloc\<close> succeed\<close>
  "wlan_add_station_entry alloc p mac =
     (case wlan_get_station_entry p mac of
        Some i \<Rightarrow> (Some i, p)
      | None \<Rightarrow>
          if \<not> alloc then (None, p)
          else (Some (length (sta_list p)), p\<lparr>sta_list := sta_list p @ [new_sta_node mac]\<rparr>))"

definition wlan_delete_station_entry :: "mlan_private \<Rightarrow> mac \<Rightarrow> mlan_private" where
  "wlan_delete_station_entry p mac =
     (case wlan_get_station_entry p mac of
        Some i \<Rightarrow> p\<lparr>sta_list := remove_nth i (sta_list p)\<rparr>
      | None \<Rightarrow> p)"

fun delete_station_nodes :: "sta_node list \<Rightarrow> sta_node list" where
  "delete_station_nodes [] = []"
| "delete_station_nodes (sta_ptr # rest) = delete_station_nodes rest"

definition wlan_delete_station_list :: "mlan_private \<Rightarrow> mlan_private" where
  "wlan_delete_station_list p = p\<lparr>sta_list := delete_station_nodes (sta_list p)\<rparr>"

interpretation stas: keyed_table sta_list wlan_get_station_entry sta_mac_addr
proof (unfold_locales, goal_cases)
  case (1 s k i)
  then show ?case using find_index_SomeD by (fastforce simp: wlan_get_station_entry_def)
next
  case (2 s k)
  then show ?case by (auto simp: wlan_get_station_entry_def find_index_None)
qed


subsection \<open>What the station list says about a peer\<close>

definition is_station_11n_enabled :: "mlan_private \<Rightarrow> mac \<Rightarrow> bool" where
  "is_station_11n_enabled p mac =
     (case wlan_get_station_entry p mac of
        Some i \<Rightarrow> if sta_is_11n_enabled (sta_list p ! i) then True else False | None \<Rightarrow> False)"

definition get_station_max_amsdu_size :: "mlan_private \<Rightarrow> mac \<Rightarrow> t_u16" where
  "get_station_max_amsdu_size p mac =
     (case wlan_get_station_entry p mac of Some i \<Rightarrow> sta_max_amsdu (sta_list p ! i) | None \<Rightarrow> 0)"

definition wlan_is_tx_pause :: "mlan_private \<Rightarrow> mac \<Rightarrow> bool" where
  "wlan_is_tx_pause p addr =
     (case wlan_get_station_entry p addr of Some i \<Rightarrow> sta_tx_pause (sta_list p ! i) | None \<Rightarrow> False)"

definition wlan_get_tdls_link_status :: "mlan_private \<Rightarrow> mac \<Rightarrow> tdlsStatus_e" where
  "wlan_get_tdls_link_status p mac =
     (case wlan_get_station_entry p mac of Some i \<Rightarrow> sta_tdls_status (sta_list p ! i) | None \<Rightarrow> TDLS_NOT_SETUP)"

definition wlan_is_tdls_link_setup :: "tdlsStatus_e \<Rightarrow> bool" where
  "wlan_is_tdls_link_setup status =
     (case status of TDLS_SWITCHING_CHANNEL \<Rightarrow> True | TDLS_IN_OFF_CHANNEL \<Rightarrow> True
      | TDLS_IN_BASE_CHANNEL \<Rightarrow> True | TDLS_SETUP_COMPLETE \<Rightarrow> True | _ \<Rightarrow> False)"

definition wlan_is_11n_enabled :: "mlan_private \<Rightarrow> mac \<Rightarrow> bool" where
  "wlan_is_11n_enabled p addr =
     (if bss_role p = MLAN_BSS_ROLE_UAP \<and> addr ! 0 AND 1 = 0 \<and> priv_is_11n_enabled p
      then is_station_11n_enabled p addr else False)"

abbreviation BAND_GN :: t_u8 where "BAND_GN \<equiv> 8"
abbreviation BAND_AN :: t_u8 where "BAND_AN \<equiv> 16"

definition IS_11N_ENABLED :: "mlan_private \<Rightarrow> bool" where
  "IS_11N_ENABLED p \<longleftrightarrow> (config_bands p AND BAND_GN \<noteq> 0 \<or> config_bands p AND BAND_AN \<noteq> 0)
     \<and> has_ht_cap p \<and> \<not> disable_11n p"

end
