(* ===== verification/Rx_Reorder.thy ===== *)
theory Rx_Reorder
  imports Mlan_Tables
begin

text \<open>
  One entry of the receive reorder table (\<^verbatim>\<open>mlan_11n_rxreorder.c\<close>): dispatching buffered
  packets, the replay check, and the window algorithm of \<^verbatim>\<open>mlan_11n_rxreorder_pkt\<close>,
  split at the phases the C function has.  Each function takes the adapter and interface it reads
  and returns the calls it makes together with the updated entry; an access outside the slot array
  is \<^term>\<open>None\<close>.
\<close>

subsection \<open>Dispatching one packet\<close>

definition wlan_11n_dispatch_amsdu_pkt :: "mlan_buffer \<Rightarrow> moal_call list \<times> mlan_status" where
  "wlan_11n_dispatch_amsdu_pkt pmbuf =
     (let prx_pd = rxpd pmbuf
      in if unat (rx_pkt_type prx_pd) = PKT_TYPE_AMSDU
         then ([Call_wlan_11n_deaggregate_pkt
                  (pmbuf\<lparr>data_len := unat (rx_pkt_length prx_pd),
                         data_offset := data_offset pmbuf + unat (rx_pkt_offset prx_pd)\<rparr>)],
               MLAN_STATUS_SUCCESS)
         else ([], MLAN_STATUS_FAILURE))"

definition pn_not_fresh :: "RxPD \<Rightarrow> RxReorderTbl \<Rightarrow> bool" where
  \<comment> \<open>the condition of the check\<close>
  "pn_not_fresh prx_pd e \<longleftrightarrow>
     (hi_rx_count32 prx_pd = hi_curr_rx_count32 e \<and> lo_rx_count16 prx_pd \<le> lo_curr_rx_count16 e)
     \<or> (hi_curr_rx_count32 e \<noteq> 0xffffffff \<and> hi_rx_count32 prx_pd < hi_curr_rx_count32 e)"

definition wlan_is_rsn_replay_attack ::
    "mlan_buffer \<Rightarrow> RxReorderTbl \<Rightarrow> bool \<times> moal_call list \<times> RxReorderTbl" where
  "wlan_is_rsn_replay_attack pmbuf e =
     (let prx_pd = rxpd pmbuf
      in if rxpd_flags prx_pd AND RXPD_FLAG_PN_CHECK_SUPPORT = 0 then (False, [], e)
         else if pn_not_fresh prx_pd e
         then (True, [Call_wlan_free_mlan_buffer pmbuf], e)
         else (False, [], e\<lparr>lo_curr_rx_count16 := lo_rx_count16 prx_pd,
                            hi_curr_rx_count32 := hi_rx_count32 prx_pd\<rparr>))"

text \<open>The hand-over to the next receive stage, by role; \<open>priv\<close> is consulted for the role only.\<close>

definition dispatch_to_role :: "mlan_private \<Rightarrow> mlan_buffer \<Rightarrow> moal_call list" where
  "dispatch_to_role p pmbuf =
     (let (cs, st) = wlan_11n_dispatch_amsdu_pkt pmbuf
      in if bss_role p = MLAN_BSS_ROLE_UAP
         then (if st = MLAN_STATUS_SUCCESS then cs else cs @ [Call_wlan_process_uap_rx_packet pmbuf])
         else (if st = MLAN_STATUS_SUCCESS then cs else cs @ [Call_wlan_process_rx_packet pmbuf]))"

definition wlan_11n_dispatch_pkt :: "mlan_adapter \<Rightarrow> mlan_private \<Rightarrow> payload \<Rightarrow> RxReorderTbl option
    \<Rightarrow> moal_call list \<times> RxReorderTbl option" where
  "wlan_11n_dispatch_pkt ad p payload rx_reor_tbl_ptr =
     (case payload of
        RX_PKT_DROPPED_IN_FW \<Rightarrow> ([], rx_reor_tbl_ptr)
      | Rx_buffer pmbuf \<Rightarrow>
          (case rx_reor_tbl_ptr of
             Some e \<Rightarrow>
               if ISSUPP_RSN_REPLAY_DETECTION (fw_cap_info ad)
               then (let (attack, cs, e') = wlan_is_rsn_replay_attack pmbuf e
                     in if attack then (cs, Some e') else (cs @ dispatch_to_role p pmbuf, Some e'))
               else (dispatch_to_role p pmbuf, Some e)
           | None \<Rightarrow> (dispatch_to_role p pmbuf, None)))"

text \<open>The same, for a caller that has an entry.\<close>

definition dispatch_on :: "mlan_adapter \<Rightarrow> mlan_private \<Rightarrow> payload \<Rightarrow> RxReorderTbl
    \<Rightarrow> moal_call list \<times> RxReorderTbl" where
  "dispatch_on ad p payload e =
     (let (cs, e') = wlan_11n_dispatch_pkt ad p payload (Some e)
      in (cs, case e' of Some e1 \<Rightarrow> e1 | None \<Rightarrow> e))"

definition mlan_11n_rxreorder_timer_restart :: "RxReorderTbl \<Rightarrow> moal_call list \<times> RxReorderTbl" where
  "mlan_11n_rxreorder_timer_restart e =
     (let min_flush_time = (if rr_win_size e \<ge> 32 then 15 else 50)
      in ((if timer_is_set e then [Call_moal_stop_timer] else [])
            @ [Call_moal_start_timer (rr_win_size e * min_flush_time)],
          e\<lparr>timer_is_set := True\<rparr>))"

subsection \<open>Moving the window\<close>

text \<open>The loop that empties slots \<open>i, \<dots>, i + n - 1\<close>, and the loop that moves slot \<open>k + i\<close>
  to slot \<open>i\<close>.\<close>

fun dispatch_slots :: "mlan_adapter \<Rightarrow> mlan_private \<Rightarrow> nat \<Rightarrow> nat \<Rightarrow> RxReorderTbl
    \<Rightarrow> (moal_call list \<times> RxReorderTbl) option" where
  "dispatch_slots ad p i 0 e = Some ([], e)"
| "dispatch_slots ad p i (Suc n) e = do {
     rx_tmp_ptr \<leftarrow> arr_get (rx_reorder_ptr e) (int i);
     (case rx_tmp_ptr of
        None \<Rightarrow> dispatch_slots ad p (Suc i) n e
      | Some payload \<Rightarrow> do {
          slots \<leftarrow> arr_set (rx_reorder_ptr e) (int i) None;
          let (cs, e1) = dispatch_on ad p payload (e\<lparr>rx_reorder_ptr := slots\<rparr>);
          (cs', e2) \<leftarrow> dispatch_slots ad p (Suc i) n e1;
          Some (cs @ cs', e2) }) }"

fun shift_slots :: "nat \<Rightarrow> nat \<Rightarrow> int \<Rightarrow> 'a option list \<Rightarrow> 'a option list option" where
  "shift_slots i 0 k slots = Some slots"
| "shift_slots i (Suc n) k slots = do {
     v \<leftarrow> arr_get slots (k + int i);
     slots1 \<leftarrow> arr_set slots (int i) v;
     slots2 \<leftarrow> arr_set slots1 (k + int i) None;
     shift_slots (Suc i) n k slots2 }"

definition wlan_11n_dispatch_pkt_until_start_win :: "mlan_adapter \<Rightarrow> mlan_private \<Rightarrow> RxReorderTbl
    \<Rightarrow> int \<Rightarrow> (moal_call list \<times> RxReorderTbl) option" where
  "wlan_11n_dispatch_pkt_until_start_win ad p e start_win = do {
     let no_pkt_to_send = (if start_win > rr_start_win e
                           then min (start_win - rr_start_win e) (rr_win_size e)
                           else rr_win_size e);
     (cs, e1) \<leftarrow> dispatch_slots ad p 0 (nat no_pkt_to_send) e;
     let xchg = rr_win_size e1 - no_pkt_to_send;
     slots \<leftarrow> shift_slots 0 (nat xchg) no_pkt_to_send (rx_reorder_ptr e1);
     Some (cs, e1\<lparr>rx_reorder_ptr := slots, rr_start_win := start_win\<rparr>) }"

text \<open>The loop over the leading occupied slots; the result also says where it stopped.\<close>

fun scan_slots :: "mlan_adapter \<Rightarrow> mlan_private \<Rightarrow> nat \<Rightarrow> nat \<Rightarrow> RxReorderTbl
    \<Rightarrow> (moal_call list \<times> nat \<times> RxReorderTbl) option" where
  "scan_slots ad p i 0 e = Some ([], i, e)"
| "scan_slots ad p i (Suc n) e = do {
     rx_tmp_ptr \<leftarrow> arr_get (rx_reorder_ptr e) (int i);
     (case rx_tmp_ptr of
        None \<Rightarrow> Some ([], i, e)
      | Some payload \<Rightarrow> do {
          slots \<leftarrow> arr_set (rx_reorder_ptr e) (int i) None;
          let (cs, e1) = dispatch_on ad p payload (e\<lparr>rx_reorder_ptr := slots\<rparr>);
          (cs', j, e2) \<leftarrow> scan_slots ad p (Suc i) n e1;
          Some (cs @ cs', j, e2) }) }"

definition wlan_11n_scan_and_dispatch :: "mlan_adapter \<Rightarrow> mlan_private \<Rightarrow> RxReorderTbl
    \<Rightarrow> (moal_call list \<times> RxReorderTbl) option" where
  "wlan_11n_scan_and_dispatch ad p e = do {
     (cs, i, e1) \<leftarrow> scan_slots ad p 0 (nat (rr_win_size e)) e;
     slots \<leftarrow> (if i > 0 then shift_slots 0 (nat (rr_win_size e1 - int i)) (int i) (rx_reorder_ptr e1)
              else Some (rx_reorder_ptr e1));
     Some (cs, e1\<lparr>rx_reorder_ptr := slots,
                  rr_start_win := (rr_start_win e1 + int i) AND 4095\<rparr>) }"

text \<open>The search for the last occupied slot, from slot \<open>n - 1\<close> downwards.\<close>

fun last_slot :: "nat \<Rightarrow> 'a option list \<Rightarrow> int option" where
  "last_slot 0 slots = Some (- 1)"
| "last_slot (Suc i) slots = do {
     v \<leftarrow> arr_get slots (int i);
     if v \<noteq> None then Some (int i) else last_slot i slots }"

definition wlan_11n_find_last_seqnum :: "RxReorderTbl \<Rightarrow> int option" where
  "wlan_11n_find_last_seqnum e = last_slot (nat (rr_win_size e)) (rx_reorder_ptr e)"

definition wlan_start_flush_data :: "mlan_adapter \<Rightarrow> mlan_private \<Rightarrow> RxReorderTbl
    \<Rightarrow> (moal_call list \<times> RxReorderTbl) option" where
  "wlan_start_flush_data ad p e = do {
     startWin \<leftarrow> wlan_11n_find_last_seqnum e;
     if startWin \<ge> 0
     then wlan_11n_dispatch_pkt_until_start_win ad p e ((rr_start_win e + startWin + 1) AND 4095)
     else Some ([], e) }"

subsection \<open>The phases of \<open>mlan_11n_rxreorder_pkt\<close>\<close>

text \<open>Right after the BA setup the window start is not trusted: the first packets are forwarded at
  once, until the expected sequence number shows up or half a window has passed.  The first
  component is the return status when the function returns from this phase.\<close>

definition rxreorder_check_start_win :: "mlan_adapter \<Rightarrow> mlan_private \<Rightarrow> int \<Rightarrow> nat \<Rightarrow> payload
    \<Rightarrow> RxReorderTbl \<Rightarrow> mlan_status option \<times> moal_call list \<times> RxReorderTbl" where
  "rxreorder_check_start_win ad p seq_num pkt_type payload e =
     (if \<not> check_start_win e then (None, [], e)
      else if seq_num = rr_start_win e then (None, [], e\<lparr>check_start_win := False\<rparr>)
      else
        let e1 = e\<lparr>pkt_count := pkt_count e + 1\<rparr>
        in if int (unat (pkt_count e1)) < rr_win_size e1 div 2
           then (if rr_last_seq e1 = seq_num then (Some MLAN_STATUS_FAILURE, [], e1)
                 else
                   let e2 = e1\<lparr>rr_last_seq := seq_num\<rparr>
                   in if pkt_type \<noteq> PKT_TYPE_BAR
                      then (let (cs, e3) = dispatch_on ad p payload e2
                            in (Some MLAN_STATUS_SUCCESS, cs, e3))
                      else (Some MLAN_STATUS_SUCCESS, [], e2))
           else
             let e2 = e1\<lparr>check_start_win := False\<rparr>;
                 last_seq = rr_last_seq e2; start_win = rr_start_win e2;
                 end_win = (start_win + rr_win_size e2 - 1) AND 4095
             in if seq_num \<noteq> start_win \<and> last_seq \<noteq> DEFAULT_SEQ_NUM
                then (if (end_win > start_win \<and> last_seq \<ge> start_win \<and> last_seq < end_win)
                       \<or> (end_win < start_win \<and> (last_seq \<ge> start_win \<or> last_seq < end_win))
                      then (None, [], e2\<lparr>rr_start_win := last_seq + 1\<rparr>)
                      else if seq_num < start_win \<and> seq_num > last_seq
                      then (None, [], e2\<lparr>rr_start_win := last_seq + 1\<rparr>)
                      else (None, [], e2))
                else (None, [], e2))"

definition rxreorder_force_no_drop :: "mlan_adapter \<Rightarrow> mlan_private \<Rightarrow> int \<Rightarrow> nat \<Rightarrow> RxReorderTbl
    \<Rightarrow> (moal_call list \<times> RxReorderTbl) option" where
  "rxreorder_force_no_drop ad p seq_num pkt_type e =
     (if force_no_drop e then do {
        (cs, e1) \<leftarrow> wlan_11n_dispatch_pkt_until_start_win ad p e
                     ((rr_start_win e + rr_win_size e) AND 4095);
        let e2 = (if pkt_type \<noteq> PKT_TYPE_BAR then e1\<lparr>rr_start_win := seq_num\<rparr> else e1);
        let (cs', e3) = mlan_11n_rxreorder_timer_restart e2;
        Some (cs @ cs', e3) }
      else Some ([], e))"

text \<open>A sequence number in the half of the sequence space behind the window start is old.\<close>

definition rxreorder_is_old :: "int \<Rightarrow> int \<Rightarrow> bool" where
  "rxreorder_is_old start_win seq_num =
     (if start_win + 2048 > 4095
      then seq_num \<ge> ((start_win + 2048) AND 4095) \<and> seq_num < start_win
      else seq_num < start_win \<or> seq_num \<ge> start_win + 2048)"

text \<open>Sequence number beyond the window: slide the window so that it becomes the last one.\<close>

definition rxreorder_slide :: "mlan_adapter \<Rightarrow> mlan_private \<Rightarrow> int \<Rightarrow> RxReorderTbl
    \<Rightarrow> (moal_call list \<times> int \<times> RxReorderTbl) option" where
  "rxreorder_slide ad p seq_num e =
     (let start_win = rr_start_win e; win_size = rr_win_size e;
          end_win = ((start_win + win_size) - 1) AND 4095
      in if (end_win < start_win \<and> seq_num < start_win \<and> seq_num > end_win)
          \<or> (end_win > start_win \<and> (seq_num > end_win \<or> seq_num < start_win))
         then (let start_win' = (if (seq_num - win_size) + 1 \<ge> 0 then (seq_num - win_size) + 1
                                 else (4096 - (win_size - seq_num)) + 1)
               in map_option (\<lambda>(cs, e1). (cs, start_win', e1))
                    (wlan_11n_dispatch_pkt_until_start_win ad p e start_win'))
         else Some ([], start_win, e))"

definition rxreorder_store :: "int \<Rightarrow> int \<Rightarrow> payload \<Rightarrow> RxReorderTbl
    \<Rightarrow> (mlan_status \<times> RxReorderTbl) option" where
  "rxreorder_store seq_num start_win payload e = do {
     let i = (if seq_num \<ge> start_win then seq_num - start_win else (seq_num + 4096) - start_win);
     old \<leftarrow> arr_get (rx_reorder_ptr e) i;
     if old \<noteq> None then Some (MLAN_STATUS_FAILURE, e)
     else do { slots \<leftarrow> arr_set (rx_reorder_ptr e) i (Some payload);
               Some (MLAN_STATUS_SUCCESS, e\<lparr>rx_reorder_ptr := slots\<rparr>) } }"

text \<open>The \<^verbatim>\<open>done:\<close> label: restart the flush timer when it is not running or the window moved.\<close>

definition rxreorder_done :: "int \<Rightarrow> RxReorderTbl \<Rightarrow> moal_call list \<times> RxReorderTbl" where
  "rxreorder_done prev_start_win e =
     (if \<not> timer_is_set e \<or> prev_start_win \<noteq> rr_start_win e
      then mlan_11n_rxreorder_timer_restart e else ([], e))"

text \<open>What happens to a packet that is not old: slide, store, hand over the leading run.\<close>

definition rxreorder_accept :: "mlan_adapter \<Rightarrow> mlan_private \<Rightarrow> int \<Rightarrow> nat \<Rightarrow> payload \<Rightarrow> RxReorderTbl
    \<Rightarrow> (mlan_status \<times> moal_call list \<times> RxReorderTbl) option" where
  "rxreorder_accept ad p seq_num0 pkt_type payload e = do {
     let seq_num = (if pkt_type = PKT_TYPE_BAR
                    then ((seq_num0 + rr_win_size e) - 1) AND 4095 else seq_num0);
     (cs1, start_win, e1) \<leftarrow> rxreorder_slide ad p seq_num e;
     (st, e2) \<leftarrow> (if pkt_type \<noteq> PKT_TYPE_BAR then rxreorder_store seq_num start_win payload e1
                  else Some (MLAN_STATUS_SUCCESS, e1));
     if st = MLAN_STATUS_FAILURE then Some (MLAN_STATUS_FAILURE, cs1, e2)
     else do {
       (cs2, e3) \<leftarrow> wlan_11n_scan_and_dispatch ad p e2;
       Some (MLAN_STATUS_SUCCESS, cs1 @ cs2, e3) } }"

definition rxreorder_window :: "mlan_adapter \<Rightarrow> mlan_private \<Rightarrow> int \<Rightarrow> nat \<Rightarrow> payload \<Rightarrow> RxReorderTbl
    \<Rightarrow> (mlan_status \<times> moal_call list \<times> RxReorderTbl) option" where
  "rxreorder_window ad p seq_num pkt_type payload e0 = do {
     (cs0, e1) \<leftarrow> rxreorder_force_no_drop ad p seq_num pkt_type e0;
     let prev_start_win = rr_start_win e1;
     let drop_old = (\<not> force_no_drop e1 \<and> rxreorder_is_old (rr_start_win e1) seq_num);
     let e2 = e1\<lparr>force_no_drop := False\<rparr>;
     (ret, cs1, e3) \<leftarrow> (if drop_old then Some (MLAN_STATUS_FAILURE, [], e2)
                       else rxreorder_accept ad p seq_num pkt_type payload e2);
     let (cs2, e4) = rxreorder_done prev_start_win e3;
     Some (ret, cs0 @ cs1 @ cs2, e4) }"

text \<open>The part of \<^verbatim>\<open>mlan_11n_rxreorder_pkt\<close> that runs when an entry with a window was found.\<close>

definition rxreorder_entry :: "mlan_adapter \<Rightarrow> mlan_private \<Rightarrow> int \<Rightarrow> nat \<Rightarrow> payload \<Rightarrow> RxReorderTbl
    \<Rightarrow> (mlan_status \<times> moal_call list \<times> RxReorderTbl) option" where
  "rxreorder_entry ad p seq_num pkt_type payload e = do {
     (cs0, e1) \<leftarrow> (if rr_flush_data e
                   then wlan_start_flush_data ad p (e\<lparr>rr_flush_data := False\<rparr>)
                   else Some ([], e));
     if pkt_type = PKT_TYPE_AMSDU \<and> \<not> rr_amsdu e1
     then (let (cs1, e2) = dispatch_on ad p payload e1 in Some (MLAN_STATUS_SUCCESS, cs0 @ cs1, e2))
     else (case rxreorder_check_start_win ad p seq_num pkt_type payload e1 of
             (Some ret, cs1, e2) \<Rightarrow> Some (ret, cs0 @ cs1, e2)
           | (None, cs1, e2) \<Rightarrow> do {
               (ret, cs2, e3) \<leftarrow> rxreorder_window ad p seq_num pkt_type payload e2;
               Some (ret, cs0 @ cs1 @ cs2, e3) }) }"

end
