(* ===== verification/Rx_Window.thy ===== *)
theory Rx_Window
  imports Rx_Reorder
begin

text \<open>
  What the window algorithm of \<^verbatim>\<open>Rx_Reorder\<close> guarantees for one entry.  A buffer is
  identified by its token, the address and the receive descriptor, which no stage of the dispatch
  changes; \<open>handed\<close> lists the tokens a sequence of calls gives away and \<open>buffered\<close> those an
  entry holds.  The lemmas give each loop and phase a closed form; the properties are the memory
  safety and invariant of a whole packet step, conservation of buffers, delivery in sequence order,
  and the replay check.
\<close>

type_synonym token = "nat \<times> RxPD"

definition token_of :: "mlan_buffer \<Rightarrow> token" where
  "token_of b = (buf_addr b, rxpd b)"

fun payload_tokens :: "payload \<Rightarrow> token list" where
  "payload_tokens RX_PKT_DROPPED_IN_FW = []"
| "payload_tokens (Rx_buffer b) = [token_of b]"

fun slot_tokens :: "payload option \<Rightarrow> token list" where
  "slot_tokens None = []"
| "slot_tokens (Some pl) = payload_tokens pl"

fun call_tokens :: "moal_call \<Rightarrow> token list" where
  "call_tokens (Call_wlan_11n_deaggregate_pkt b) = [token_of b]"
| "call_tokens (Call_wlan_process_uap_rx_packet b) = [token_of b]"
| "call_tokens (Call_wlan_process_rx_packet b) = [token_of b]"
| "call_tokens (Call_wlan_free_mlan_buffer b) = [token_of b]"
| "call_tokens _ = []"

definition handed :: "moal_call list \<Rightarrow> token list" where
  "handed cs = concat (map call_tokens cs)"

definition buffered :: "payload option list \<Rightarrow> token list" where
  "buffered slots = concat (map slot_tokens slots)"

lemma handed_simps [simp]:
  "handed [] = []" "handed (cs @ ds) = handed cs @ handed ds"
  "handed (c # cs) = call_tokens c @ handed cs"
  by (simp_all add: handed_def)

lemma buffered_simps [simp]:
  "buffered [] = []" "buffered (x # t) = slot_tokens x @ buffered t"
  "buffered (s @ t) = buffered s @ buffered t" "buffered (replicate n None) = []"
  by (simp_all add: buffered_def)

lemma buffered_all_None: "(\<forall>x \<in> set slots. x = None) \<Longrightarrow> buffered slots = []"
  by (induction slots) simp_all

lemma buffered_update:
  assumes "k < length slots" "slots ! k = None"
  shows "mset (buffered (slots[k := Some pl])) = mset (payload_tokens pl) + mset (buffered slots)"
proof -
  have 1: "take k slots @ None # drop (Suc k) slots = slots"
    using id_take_nth_drop [OF assms(1)] assms(2) by simp
  have 2: "slots[k := Some pl] = take k slots @ Some pl # drop (Suc k) slots"
    using assms(1) by (rule upd_conv_take_nth_drop)
  have "buffered slots = buffered (take k slots) @ buffered (drop (Suc k) slots)"
    using arg_cong [OF 1, of buffered] by simp
  then show ?thesis by (simp add: 2)
qed

subsection \<open>Dispatching touches nothing but the packet-number counters\<close>

lemma dispatch_to_role_handed: "handed (dispatch_to_role p b) = [token_of b]"
  by (simp add: dispatch_to_role_def wlan_11n_dispatch_amsdu_pkt_def Let_def token_of_def)

lemma same_counters: "\<exists>h l. e = e\<lparr>hi_curr_rx_count32 := h, lo_curr_rx_count16 := l\<rparr>"
  by (intro exI [of _ "hi_curr_rx_count32 e"] exI [of _ "lo_curr_rx_count16 e"]) simp

lemma replay_cases:
  "wlan_is_rsn_replay_attack b e =
     (if rxpd_flags (rxpd b) AND RXPD_FLAG_PN_CHECK_SUPPORT = 0 then (False, [], e)
      else if pn_not_fresh (rxpd b) e then (True, [Call_wlan_free_mlan_buffer b], e)
      else (False, [], e\<lparr>hi_curr_rx_count32 := hi_rx_count32 (rxpd b),
                         lo_curr_rx_count16 := lo_rx_count16 (rxpd b)\<rparr>))"
  by (simp add: wlan_is_rsn_replay_attack_def Let_def)

lemma replay_spec:
  assumes "wlan_is_rsn_replay_attack b e = (att, cs, e')"
  shows "(\<exists>h l. e' = e\<lparr>hi_curr_rx_count32 := h, lo_curr_rx_count16 := l\<rparr>)
     \<and> handed cs = (if att then [token_of b] else [])"
proof (cases "e' = e")
  case True
  have "handed cs = (if att then [token_of b] else [])"
    using assms by (auto simp: replay_cases split: if_splits)
  then show ?thesis using True same_counters [of e] by blast
next
  case False
  then have "\<not> att" "cs = []" "e' = e\<lparr>hi_curr_rx_count32 := hi_rx_count32 (rxpd b),
      lo_curr_rx_count16 := lo_rx_count16 (rxpd b)\<rparr>"
    using assms by (simp_all only: replay_cases prod.inject split: if_splits) simp_all
  then show ?thesis by simp blast
qed

lemma dispatch_on_spec:
  "\<exists>h l. snd (dispatch_on ad p pl e) = e\<lparr>hi_curr_rx_count32 := h, lo_curr_rx_count16 := l\<rparr>
     \<and> handed (fst (dispatch_on ad p pl e)) = payload_tokens pl"
proof (cases pl)
  case RX_PKT_DROPPED_IN_FW
  then show ?thesis
    using same_counters [of e] by (simp add: dispatch_on_def wlan_11n_dispatch_pkt_def)
next
  case (Rx_buffer b)
  obtain att cs e' where r: "wlan_is_rsn_replay_attack b e = (att, cs, e')"
    by (metis prod_cases3)
  obtain h l where e': "e' = e\<lparr>hi_curr_rx_count32 := h, lo_curr_rx_count16 := l\<rparr>"
    and cs: "handed cs = (if att then [token_of b] else [])" using replay_spec [OF r] by blast
  show ?thesis
  proof (cases "ISSUPP_RSN_REPLAY_DETECTION (fw_cap_info ad)")
    case True
    then show ?thesis
      using Rx_buffer r cs e'
      by (cases att) (auto simp: dispatch_on_def wlan_11n_dispatch_pkt_def dispatch_to_role_handed)
  next
    case False
    then show ?thesis
      using Rx_buffer same_counters [of e]
      by (simp add: dispatch_on_def wlan_11n_dispatch_pkt_def dispatch_to_role_handed)
  qed
qed

lemma dispatch_on_obtain:
  obtains cs h l where
    "dispatch_on ad p pl e = (cs, e\<lparr>hi_curr_rx_count32 := h, lo_curr_rx_count16 := l\<rparr>)"
    "handed cs = payload_tokens pl"
  using dispatch_on_spec [of ad p pl e] by (cases "dispatch_on ad p pl e") auto

subsection \<open>The loops in closed form\<close>

definition clear_slots :: "nat \<Rightarrow> nat \<Rightarrow> 'a option list \<Rightarrow> 'a option list" where
  "clear_slots i n slots = take i slots @ replicate n None @ drop (i + n) slots"

lemma clear_slots_Suc:
  assumes "i < length slots"
  shows "clear_slots (Suc i) n (slots[i := None]) = clear_slots i (Suc n) slots"
  using assms by (simp add: clear_slots_def take_Suc_conv_app_nth)

lemma clear_slots_skip:
  assumes "i < length slots" "slots ! i = None"
  shows "clear_slots (Suc i) n slots = clear_slots i (Suc n) slots"
  using assms by (simp add: clear_slots_def take_Suc_conv_app_nth)

lemma take_drop_Suc: "i < length xs \<Longrightarrow> take (Suc n) (drop i xs) = xs ! i # take n (drop (Suc i) xs)"
  by (simp add: Cons_nth_drop_Suc [symmetric])

lemma dispatch_slots_spec:
  assumes "i + n \<le> length (rx_reorder_ptr e)"
  shows "\<exists>cs h l. dispatch_slots ad p i n e
      = Some (cs, e\<lparr>rx_reorder_ptr := clear_slots i n (rx_reorder_ptr e),
                    hi_curr_rx_count32 := h, lo_curr_rx_count16 := l\<rparr>)
    \<and> handed cs = buffered (take n (drop i (rx_reorder_ptr e)))"
  using assms
proof (induction n arbitrary: i e)
  case 0
  show ?case
    by (intro exI [of _ "[]"] exI [of _ "hi_curr_rx_count32 e"] exI [of _ "lo_curr_rx_count16 e"])
       (simp add: clear_slots_def)
next
  case (Suc n)
  then have i: "i < length (rx_reorder_ptr e)" by simp
  show ?case
  proof (cases "rx_reorder_ptr e ! i")
    case None
    with Suc.IH [of "Suc i" e] Suc.prems i show ?thesis
      by (simp add: clear_slots_skip take_drop_Suc)
  next
    case (Some pl)
    let ?e = "e\<lparr>rx_reorder_ptr := (rx_reorder_ptr e)[i := None]\<rparr>"
    obtain cs h l where d: "dispatch_on ad p pl ?e
        = (cs, ?e\<lparr>hi_curr_rx_count32 := h, lo_curr_rx_count16 := l\<rparr>)"
      and c: "handed cs = payload_tokens pl"
      by (rule dispatch_on_obtain)
    from Suc.IH [of "Suc i" "?e\<lparr>hi_curr_rx_count32 := h, lo_curr_rx_count16 := l\<rparr>"]
    obtain cs' h' l' where "dispatch_slots ad p (Suc i) n
          (?e\<lparr>hi_curr_rx_count32 := h, lo_curr_rx_count16 := l\<rparr>)
        = Some (cs', e\<lparr>rx_reorder_ptr := clear_slots (Suc i) n ((rx_reorder_ptr e)[i := None]),
                       hi_curr_rx_count32 := h', lo_curr_rx_count16 := l'\<rparr>)"
      and "handed cs' = buffered (take n (drop (Suc i) ((rx_reorder_ptr e)[i := None])))"
      using Suc.prems by auto
    then show ?thesis
      using i Some d c by (simp add: clear_slots_Suc take_drop_Suc) blast
  qed
qed

lemma shift_slots_spec:
  assumes "0 < k"
  shows "shift_slots (length A) (length B) (int k) (A @ replicate k None @ B)
      = Some (A @ B @ replicate k None)"
proof (induction B arbitrary: A)
  case Nil
  show ?case by simp
next
  case (Cons b B)
  let ?s = "A @ replicate k None @ b # B"
  obtain k' where k': "k = Suc k'" using assms by (cases k) auto
  have g: "arr_get ?s (int k + int (length A)) = Some b"
    by (simp add: arr_get_def nth_append nat_add_distrib)
  have s1: "arr_set ?s (int (length A)) b = Some ((A @ [b]) @ replicate k' None @ b # B)"
    using k' by (simp add: list_update_append)
  have s2: "arr_set ((A @ [b]) @ replicate k' None @ b # B) (int k + int (length A)) None
      = Some ((A @ [b]) @ replicate k None @ B)"
  proof -
    have "((A @ [b]) @ replicate k' None @ b # B)[k + length A := None]
        = (A @ [b]) @ replicate k' None @ None # B"
      using k' by (simp add: list_update_append)
    also have "\<dots> = (A @ [b]) @ replicate k None @ B"
      using k' by (simp add: replicate_app_Cons_same)
    finally show ?thesis using k' by (simp add: arr_set_def nat_add_distrib)
  qed
  have "shift_slots (length A) (length (b # B)) (int k) ?s
      = shift_slots (Suc (length A)) (length B) (int k) ((A @ [b]) @ replicate k None @ B)"
    by (simp only: list.size(4) add_Suc_right add_0_right shift_slots.simps g s1 s2
          Option.bind.bind_lunit)
  then show ?case
    using Cons.IH [of "A @ [b]"] by simp
qed

lemma shift_after_clear:
  assumes "0 < n" "n \<le> length slots"
  shows "shift_slots 0 (length slots - n) (int n) (clear_slots 0 n slots)
      = Some (drop n slots @ replicate n None)"
  using shift_slots_spec [OF assms(1), of "[]" "drop n slots"] by (simp add: clear_slots_def)

lemma scan_slots_spec:
  assumes "i + n \<le> length (rx_reorder_ptr e)"
  shows "\<exists>cs h l. scan_slots ad p i n e
      = (let m = length (takeWhile (\<lambda>s. s \<noteq> None) (take n (drop i (rx_reorder_ptr e))))
         in Some (cs, i + m, e\<lparr>rx_reorder_ptr := clear_slots i m (rx_reorder_ptr e),
                              hi_curr_rx_count32 := h, lo_curr_rx_count16 := l\<rparr>))
    \<and> handed cs = buffered (takeWhile (\<lambda>s. s \<noteq> None) (take n (drop i (rx_reorder_ptr e))))"
  using assms
proof (induction n arbitrary: i e)
  case 0
  show ?case
    by (intro exI [of _ "[]"] exI [of _ "hi_curr_rx_count32 e"] exI [of _ "lo_curr_rx_count16 e"])
       (simp add: clear_slots_def)
next
  case (Suc n)
  then have i: "i < length (rx_reorder_ptr e)" by simp
  show ?case
  proof (cases "rx_reorder_ptr e ! i")
    case None
    then show ?thesis using i
      by (intro exI [of _ "[]"] exI [of _ "hi_curr_rx_count32 e"] exI [of _ "lo_curr_rx_count16 e"])
         (simp add: clear_slots_def take_drop_Suc)
  next
    case (Some pl)
    let ?e = "e\<lparr>rx_reorder_ptr := (rx_reorder_ptr e)[i := None]\<rparr>"
    let ?m = "length (takeWhile (\<lambda>s. s \<noteq> None) (take n (drop (Suc i) (rx_reorder_ptr e))))"
    obtain cs h l where d: "dispatch_on ad p pl ?e
        = (cs, ?e\<lparr>hi_curr_rx_count32 := h, lo_curr_rx_count16 := l\<rparr>)"
      and c: "handed cs = payload_tokens pl"
      by (rule dispatch_on_obtain)
    from Suc.IH [of "Suc i" "?e\<lparr>hi_curr_rx_count32 := h, lo_curr_rx_count16 := l\<rparr>"]
    obtain cs' h' l' where "scan_slots ad p (Suc i) n
          (?e\<lparr>hi_curr_rx_count32 := h, lo_curr_rx_count16 := l\<rparr>)
        = Some (cs', Suc i + ?m,
                e\<lparr>rx_reorder_ptr := clear_slots (Suc i) ?m ((rx_reorder_ptr e)[i := None]),
                       hi_curr_rx_count32 := h', lo_curr_rx_count16 := l'\<rparr>)"
      and "handed cs' = buffered (takeWhile (\<lambda>s. s \<noteq> None) (take n (drop (Suc i) (rx_reorder_ptr e))))"
      using Suc.prems by (auto simp: Let_def)
    then show ?thesis
      using i Some d c by (simp add: clear_slots_Suc take_drop_Suc Let_def) blast
  qed
qed

subsection \<open>The window phases in closed form\<close>

definition win_ok :: "RxReorderTbl \<Rightarrow> bool" where
  "win_ok e \<longleftrightarrow> 1 < rr_win_size e \<and> rr_win_size e \<le> 1023
     \<and> length (rx_reorder_ptr e) = nat (rr_win_size e)
     \<and> 0 \<le> rr_start_win e \<and> rr_start_win e \<le> 4096"

lemma win_okD:
  assumes "win_ok e"
  shows "1 < rr_win_size e" "rr_win_size e \<le> 1023" "length (rx_reorder_ptr e) = nat (rr_win_size e)"
    "0 \<le> rr_start_win e" "rr_start_win e \<le> 4096" "1 < length (rx_reorder_ptr e)"
    "length (rx_reorder_ptr e) \<le> 1023" "int (length (rx_reorder_ptr e)) = rr_win_size e"
  using assms by (auto simp: win_ok_def)

abbreviation moved :: "RxReorderTbl \<Rightarrow> payload option list \<Rightarrow> int \<Rightarrow> t_u32 \<Rightarrow> t_u16 \<Rightarrow> RxReorderTbl" where
  "moved e slots w h l \<equiv> e\<lparr>rx_reorder_ptr := slots, rr_start_win := w,
     hi_curr_rx_count32 := h, lo_curr_rx_count16 := l\<rparr>"

definition rotate_out :: "nat \<Rightarrow> 'a option list \<Rightarrow> 'a option list" where
  "rotate_out n slots = drop n slots @ replicate n None"

definition flush_count :: "int \<Rightarrow> int \<Rightarrow> nat \<Rightarrow> nat" where
  "flush_count start start' w = (if start' > start then min (nat (start' - start)) w else w)"

definition run :: "'a option list \<Rightarrow> nat" where
  "run slots = length (takeWhile (\<lambda>s. s \<noteq> None) slots)"

definition slots_ok :: "RxReorderTbl \<Rightarrow> bool" where
  "slots_ok e \<longleftrightarrow> 0 < rr_win_size e \<and> length (rx_reorder_ptr e) = nat (rr_win_size e)"

lemma win_ok_slots_ok: "win_ok e \<Longrightarrow> slots_ok e"
  by (simp add: win_ok_def slots_ok_def)

lemma until_closed:
  assumes "slots_ok e"
  shows "\<exists>cs h l. wlan_11n_dispatch_pkt_until_start_win ad p e sw
      = Some (cs, moved e (rotate_out (flush_count (rr_start_win e) sw (length (rx_reorder_ptr e)))
                             (rx_reorder_ptr e)) sw h l)
    \<and> handed cs = buffered (take (flush_count (rr_start_win e) sw (length (rx_reorder_ptr e)))
                             (rx_reorder_ptr e))"
proof -
  have w: "0 < rr_win_size e" "length (rx_reorder_ptr e) = nat (rr_win_size e)"
    using assms by (auto simp: slots_ok_def)
  define n where "n = flush_count (rr_start_win e) sw (length (rx_reorder_ptr e))"
  have n: "(if sw > rr_start_win e then min (sw - rr_start_win e) (rr_win_size e) else rr_win_size e)
      = int n"
    using w by (auto simp: n_def flush_count_def)
  have n1: "0 < n" "n \<le> length (rx_reorder_ptr e)"
    using w by (auto simp: n_def flush_count_def)
  obtain cs h l where d: "dispatch_slots ad p 0 n e
      = Some (cs, e\<lparr>rx_reorder_ptr := clear_slots 0 n (rx_reorder_ptr e),
                    hi_curr_rx_count32 := h, lo_curr_rx_count16 := l\<rparr>)"
    and c: "handed cs = buffered (take n (rx_reorder_ptr e))"
    using dispatch_slots_spec [of 0 n e ad p] n1 by auto
  have x: "nat (rr_win_size e - int n) = length (rx_reorder_ptr e) - n" using w by simp
  show ?thesis
    using c shift_after_clear [OF n1]
    by (intro exI [of _ cs] exI [of _ h] exI [of _ l])
       (simp add: wlan_11n_dispatch_pkt_until_start_win_def n d x n_def [symmetric]
          rotate_out_def Let_def)
qed

lemmas until_spec = until_closed [OF win_ok_slots_ok]

lemma takeWhile_take_run: "takeWhile (\<lambda>s. s \<noteq> None) slots = take (run slots) slots"
  unfolding run_def by (metis takeWhile_eq_take)

lemma run_le: "run slots \<le> length slots"
  by (simp add: run_def length_takeWhile_le)

lemma run_pos: "0 < length slots \<Longrightarrow> slots ! 0 \<noteq> None \<longleftrightarrow> 0 < run slots"
  by (cases slots) (simp_all add: run_def)

lemma scan_spec:
  assumes "win_ok e"
  shows "\<exists>cs h l. wlan_11n_scan_and_dispatch ad p e
      = Some (cs, moved e (rotate_out (run (rx_reorder_ptr e)) (rx_reorder_ptr e))
                    ((rr_start_win e + int (run (rx_reorder_ptr e))) mod 4096) h l)
    \<and> handed cs = buffered (take (run (rx_reorder_ptr e)) (rx_reorder_ptr e))"
proof -
  note w = win_okD [OF assms]
  define m where "m = run (rx_reorder_ptr e)"
  have m: "m \<le> length (rx_reorder_ptr e)" by (simp add: m_def run_le)
  obtain cs h l where s: "scan_slots ad p 0 (nat (rr_win_size e)) e
      = Some (cs, m, e\<lparr>rx_reorder_ptr := clear_slots 0 m (rx_reorder_ptr e),
                    hi_curr_rx_count32 := h, lo_curr_rx_count16 := l\<rparr>)"
    and c: "handed cs = buffered (take m (rx_reorder_ptr e))"
    using scan_slots_spec [of 0 "nat (rr_win_size e)" e ad p] w(3)
    run_le [of "rx_reorder_ptr e"]
    by (auto simp: Let_def m_def run_def [symmetric] takeWhile_take_run min.absorb2
          simp del: not_None_eq)
  have x: "nat (rr_win_size e - int m) = length (rx_reorder_ptr e) - m" using w by simp
  show ?thesis
  proof (cases "m = 0")
    case True
    then show ?thesis using s c
      by (intro exI [of _ cs] exI [of _ h] exI [of _ l])
         (simp add: wlan_11n_scan_and_dispatch_def m_def [symmetric] clear_slots_def rotate_out_def
            and_4095)
  next
    case False
    then show ?thesis using s c shift_after_clear [of m "rx_reorder_ptr e"] m
      by (intro exI [of _ cs] exI [of _ h] exI [of _ l])
         (simp add: wlan_11n_scan_and_dispatch_def m_def [symmetric] x rotate_out_def and_4095)
  qed
qed

subsection \<open>Positions in the sequence space\<close>

lemma dist_mod:
  assumes "0 \<le> start" "start \<le> 4096" "0 \<le> seq" "seq < (4096::int)"
  shows "(seq - start) mod 4096 = (if seq \<ge> start then seq - start else seq - start + 4096)"
proof (cases "seq \<ge> start")
  case True
  then show ?thesis using assms by simp
next
  case False
  have "(seq - start) mod 4096 = (seq - start + 4096) mod 4096" by simp
  also have "\<dots> = seq - start + 4096"
    using False assms by (intro mod_pos_pos_trivial) auto
  finally show ?thesis using False by simp
qed

lemma rxreorder_is_old_char:
  assumes "0 \<le> start" "start \<le> 4096" "0 \<le> seq" "seq < 4096"
  shows "rxreorder_is_old start seq \<longleftrightarrow> (seq - start) mod 4096 \<ge> 2048"
  using assms
  by (auto simp: rxreorder_is_old_def and_4095 dist_mod mod_4096_wrap)

text \<open>C26. Old packets are recognised correctly across the wrap of the sequence space: for every window
  start (also the unnormalised 4096) the two-branch comparison of the code says exactly that the
  packet lies in the 2048 sequence numbers behind the window.\<close>

theorem rxreorder_is_old_iff:
  assumes "0 \<le> start" "start \<le> 4096" "0 \<le> seq" "seq < 4096"
  shows "rxreorder_is_old start seq \<longleftrightarrow> (seq - start) mod 4096 \<ge> 2048"
  using assms by (rule rxreorder_is_old_char)

lemma slide_spec:
  assumes "win_ok e" "0 \<le> seq" "seq < 4096"
  shows "(seq - rr_start_win e) mod 4096 < rr_win_size e \<Longrightarrow>
      rxreorder_slide ad p seq e = Some ([], rr_start_win e, e)"
    and "(seq - rr_start_win e) mod 4096 \<ge> rr_win_size e \<Longrightarrow>
      rxreorder_slide ad p seq e =
        map_option (\<lambda>(cs, e1). (cs, (seq - rr_win_size e + 1) mod 4096, e1))
          (wlan_11n_dispatch_pkt_until_start_win ad p e ((seq - rr_win_size e + 1) mod 4096))"
proof -
  note w = win_okD [OF assms(1)]
  define start where "start = rr_start_win e"
  define win where "win = rr_win_size e"
  have b: "0 \<le> start" "start \<le> 4096" "1 < win" "win \<le> 1023" using w by (auto simp: start_def win_def)
  have e: "(start + win - 1) AND 4095
      = (if start + win - 1 < 4096 then start + win - 1 else start + win - 1 - 4096)"
    using b by (simp add: and_4095 mod_4096_wrap)
  have s: "(seq - win + 1) mod 4096
      = (if seq - win + 1 \<ge> 0 then seq - win + 1 else 4096 - (win - seq) + 1)"
    using b assms dist_mod [of "win - 1" seq] by (simp add: algebra_simps)
  show "(seq - rr_start_win e) mod 4096 < rr_win_size e \<Longrightarrow>
      rxreorder_slide ad p seq e = Some ([], rr_start_win e, e)"
    using b assms(2,3) unfolding rxreorder_slide_def Let_def start_def [symmetric] win_def [symmetric] e
    by (simp add: dist_mod split: if_splits)
  show "(seq - rr_start_win e) mod 4096 \<ge> rr_win_size e \<Longrightarrow>
      rxreorder_slide ad p seq e =
        map_option (\<lambda>(cs, e1). (cs, (seq - rr_win_size e + 1) mod 4096, e1))
          (wlan_11n_dispatch_pkt_until_start_win ad p e ((seq - rr_win_size e + 1) mod 4096))"
    using b assms(2,3)
    unfolding rxreorder_slide_def Let_def start_def [symmetric] win_def [symmetric] e s
    by (simp add: dist_mod split: if_splits)
qed

subsection \<open>The window step against its specification\<close>

text \<open>The specification works on the distance of the packet from the window start.  A packet (or the
  window end a BAR asks for) beyond the window first slides the window by flushing leading slots;
  then the packet is stored and the leading run of occupied slots leaves.\<close>

definition slide_start :: "nat \<Rightarrow> int \<Rightarrow> nat \<Rightarrow> int" where
  "slide_start w start d = (if d < w then start else (start + int (d - w + 1)) mod 4096)"

definition slide_count :: "nat \<Rightarrow> int \<Rightarrow> nat \<Rightarrow> nat" where
  "slide_count w start d = (if d < w then 0 else flush_count start (slide_start w start d) w)"

definition accept_spec :: "nat \<Rightarrow> int \<Rightarrow> payload option list \<Rightarrow> int \<Rightarrow> bool \<Rightarrow> payload
    \<Rightarrow> mlan_status \<times> token list \<times> int \<times> payload option list" where
  "accept_spec w start slots seq bar pl =
     (let k = nat ((seq - start) mod 4096);
          d = (if bar then (k + (w - 1)) mod 4096 else k);
          start1 = slide_start w start d; n = slide_count w start d;
          s1 = rotate_out n slots; i = min d (w - 1)
      in if \<not> bar \<and> s1 ! i \<noteq> None
         then (MLAN_STATUS_FAILURE, buffered (take n slots), start1, s1)
         else
           let s2 = (if bar then s1 else s1[i := Some pl]); m = run s2
           in (MLAN_STATUS_SUCCESS, buffered (take n slots) @ buffered (take m s2),
               (start1 + int m) mod 4096, rotate_out m s2))"

lemma accept_spec_unfold:
  assumes "k = nat ((seq - start) mod 4096)" "d = (if bar then (k + (w - 1)) mod 4096 else k)"
    "S = slide_start w start d" "n = slide_count w start d" "s1 = rotate_out n slots"
    "i = min d (w - 1)" "s2 = (if bar then s1 else s1[i := Some pl])"
  shows "accept_spec w start slots seq bar pl =
     (if \<not> bar \<and> s1 ! i \<noteq> None then (MLAN_STATUS_FAILURE, buffered (take n slots), S, s1)
      else (MLAN_STATUS_SUCCESS, buffered (take n slots) @ buffered (take (run s2) s2),
            (S + int (run s2)) mod 4096, rotate_out (run s2) s2))"
  unfolding accept_spec_def Let_def assms by (rule refl)

definition reorder_spec :: "nat \<Rightarrow> int \<Rightarrow> payload option list \<Rightarrow> int \<Rightarrow> bool \<Rightarrow> payload
    \<Rightarrow> mlan_status \<times> token list \<times> int \<times> payload option list" where
  "reorder_spec w start slots seq bar pl =
     (if (seq - start) mod 4096 \<ge> 2048 then (MLAN_STATUS_FAILURE, [], start, slots)
      else accept_spec w start slots seq bar pl)"

lemma length_rotate_out [simp]: "n \<le> length s \<Longrightarrow> length (rotate_out n s) = length s"
  by (simp add: rotate_out_def)

lemma rotate_out_0 [simp]: "rotate_out 0 s = s"
  by (simp add: rotate_out_def)

lemma flush_count_le: "flush_count a b w \<le> w"
  by (simp add: flush_count_def)

lemma slide_count_le: "slide_count w start d \<le> w"
  by (simp add: slide_count_def flush_count_le)

lemma slide_start_bounds:
  "0 \<le> start \<Longrightarrow> start \<le> 4096 \<Longrightarrow> 0 \<le> slide_start w start d \<and> slide_start w start d \<le> 4096"
  using pos_mod_bound [of 4096 "start + int (d - w + 1)"]
    pos_mod_sign [of 4096 "start + int (d - w + 1)"]
  unfolding slide_start_def by (auto simp del: of_nat_add of_nat_Suc)

lemma slide_closed:
  assumes ok: "win_ok e" and seq: "0 \<le> seq" "seq < 4096"
    and d: "int d = (seq - rr_start_win e) mod 4096" and w: "w = length (rx_reorder_ptr e)"
  shows "\<exists>cs h l. rxreorder_slide ad p seq e
      = Some (cs, slide_start w (rr_start_win e) d,
              moved e (rotate_out (slide_count w (rr_start_win e) d) (rx_reorder_ptr e))
                (slide_start w (rr_start_win e) d) h l)
    \<and> handed cs = buffered (take (slide_count w (rr_start_win e) d) (rx_reorder_ptr e))"
proof (cases "d < w")
  case True
  then have "(seq - rr_start_win e) mod 4096 < rr_win_size e"
    using d win_okD [OF ok] w by simp
  from slide_spec(1) [OF ok seq this] True show ?thesis
    by (intro exI [of _ "[]"] exI [of _ "hi_curr_rx_count32 e"] exI [of _ "lo_curr_rx_count16 e"])
       (simp add: slide_start_def slide_count_def)
next
  case False
  then have ge: "(seq - rr_start_win e) mod 4096 \<ge> rr_win_size e"
    using d win_okD [OF ok] w by simp
  have "(seq - rr_win_size e + 1) mod 4096 = (rr_start_win e + (int d - rr_win_size e + 1)) mod 4096"
    using mod_add_right_eq [of "rr_start_win e - rr_win_size e + 1" "seq - rr_start_win e" 4096]
    unfolding d by (simp add: algebra_simps)
  then have s: "(seq - rr_win_size e + 1) mod 4096 = slide_start w (rr_start_win e) d"
    using False win_okD [OF ok] w by (simp add: slide_start_def of_nat_diff algebra_simps)
  obtain cs h l where "wlan_11n_dispatch_pkt_until_start_win ad p e (slide_start w (rr_start_win e) d)
      = Some (cs, moved e (rotate_out (slide_count w (rr_start_win e) d) (rx_reorder_ptr e))
                (slide_start w (rr_start_win e) d) h l)"
    and "handed cs = buffered (take (slide_count w (rr_start_win e) d) (rx_reorder_ptr e))"
    using until_spec [OF ok, of ad p "slide_start w (rr_start_win e) d"] False w
    by (auto simp: slide_count_def)
  with slide_spec(2) [OF ok seq ge] s show ?thesis by simp blast
qed

lemma slide_position:
  assumes "0 \<le> start" "start \<le> 4096" "1 < w" "w \<le> 1023" and "int d = (seq - start) mod 4096"
  shows "(seq - slide_start w start d) mod 4096 = int (min d (w - 1))"
proof (cases "d < w")
  case True
  then show ?thesis using assms by (simp add: slide_start_def)
next
  case False
  have "(seq - slide_start w start d) mod 4096 = (seq - start - (int d - int w + 1)) mod 4096"
    using False assms(3) by (simp add: slide_start_def mod_simps of_nat_diff algebra_simps)
  also have "\<dots> = (int d - (int d - int w + 1)) mod 4096"
    using mod_diff_left_eq [of "seq - start" 4096 "int d - int w + 1"] assms(5) by simp
  also have "\<dots> = int w - 1" using assms by simp
  finally show ?thesis using False assms(3) by (simp add: min_def of_nat_diff)
qed

lemma store_spec:
  assumes "win_ok e" "0 \<le> seq" "seq < 4096" "int i = (seq - rr_start_win e) mod 4096"
    and "i < length (rx_reorder_ptr e)"
  shows "rxreorder_store seq (rr_start_win e) pl e =
     (if rx_reorder_ptr e ! i \<noteq> None then Some (MLAN_STATUS_FAILURE, e)
      else Some (MLAN_STATUS_SUCCESS, e\<lparr>rx_reorder_ptr := (rx_reorder_ptr e)[i := Some pl]\<rparr>))"
proof -
  have "(if seq \<ge> rr_start_win e then seq - rr_start_win e else seq + 4096 - rr_start_win e) = int i"
    using assms(4) dist_mod [of "rr_start_win e" seq] win_okD [OF assms(1)] assms(2,3)
    by (simp split: if_splits)
  then show ?thesis using assms(5) by (simp add: rxreorder_store_def Let_def)
qed


lemma win_ok_moved:
  assumes "win_ok e" "length slots = length (rx_reorder_ptr e)" "0 \<le> start" "start \<le> 4096"
  shows "win_ok (moved e slots start h l)"
  using assms by (simp add: win_ok_def)

lemma bar_distance:
  assumes "1 < w" "w \<le> 1023"
  shows "int ((nat ((seq - start) mod 4096) + (w - 1)) mod 4096)
     = ((seq + int w - 1) mod 4096 - start) mod 4096"
proof -
  have "int ((nat ((seq - start) mod 4096) + (w - 1)) mod 4096)
      = ((seq - start) mod 4096 + (int w - 1)) mod 4096"
    using assms by (simp add: zmod_int of_nat_diff add_diff_eq)
  also have "\<dots> = (seq - start + (int w - 1)) mod 4096" by (rule mod_add_left_eq)
  also have "\<dots> = ((seq + int w - 1) mod 4096 - start) mod 4096"
    using mod_diff_left_eq [of "seq + int w - 1" 4096 start] by (simp add: algebra_simps)
  finally show ?thesis .
qed

lemma accept_refines:
  assumes ok: "win_ok e" and seq: "0 \<le> seq" "seq < 4096"
    and spec: "accept_spec (length (rx_reorder_ptr e)) (rr_start_win e) (rx_reorder_ptr e) seq
        (pt = PKT_TYPE_BAR) pl = (ret, toks, start', slots')"
  shows "\<exists>cs h l. rxreorder_accept ad p seq pt pl e = Some (ret, cs, moved e slots' start' h l)
    \<and> handed cs = toks"
proof -
  note w = win_okD [OF ok]
  define W where "W = length (rx_reorder_ptr e)"
  define seq' where "seq' = (if pt = PKT_TYPE_BAR then (seq + rr_win_size e - 1) AND 4095 else seq)"
  define k where "k = nat ((seq - rr_start_win e) mod 4096)"
  define d where "d = (if pt = PKT_TYPE_BAR then (k + (W - 1)) mod 4096 else k)"
  have seq': "0 \<le> seq'" "seq' < 4096" using seq by (auto simp: seq'_def and_4095)
  have W: "int W = rr_win_size e" using w(8) by (simp add: W_def)
  have bd: "int ((k + (W - 1)) mod 4096) = ((seq + int W - 1) mod 4096 - rr_start_win e) mod 4096"
    unfolding k_def by (rule bar_distance) (use w(6,7) W_def in auto)
  have k: "int k = (seq - rr_start_win e) mod 4096" by (simp add: k_def)
  have d: "int d = (seq' - rr_start_win e) mod 4096"
  proof (cases "pt = PKT_TYPE_BAR")
    case True
    then show ?thesis using bd by (simp only: d_def seq'_def W if_True and_4095 simp_thms)
  next
    case False
    then show ?thesis using k by (simp only: d_def seq'_def if_False)
  qed
  define S where "S = slide_start W (rr_start_win e) d"
  define n where "n = slide_count W (rr_start_win e) d"
  define s1 where "s1 = rotate_out n (rx_reorder_ptr e)"
  define i where "i = min d (W - 1)"
  define s2 where "s2 = (if pt = PKT_TYPE_BAR then s1 else s1[i := Some pl])"
  note eqn = spec [folded W_def, unfolded accept_spec_unfold
      [OF k_def d_def S_def n_def s1_def i_def s2_def]]
  have n: "n \<le> W" by (simp add: n_def slide_count_le)
  have S: "0 \<le> S" "S \<le> 4096"
    using slide_start_bounds [OF w(4,5), of W d] by (auto simp: S_def)
  have ls1: "length s1 = W" using n by (simp add: s1_def W_def)
  obtain cs h l where sl: "rxreorder_slide ad p seq' e = Some (cs, S, moved e s1 S h l)"
    and c: "handed cs = buffered (take n (rx_reorder_ptr e))"
    using slide_closed [OF ok seq' d W_def, of ad p] by (auto simp: S_def n_def s1_def)
  let ?e1 = "moved e s1 S h l"
  have ok1: "win_ok ?e1" using win_ok_moved [OF ok] ls1 S W_def by simp
  have i: "i < length s1" using ls1 w by (simp add: i_def W_def)
  have pos: "int i = (seq' - rr_start_win ?e1) mod 4096"
    using slide_position [OF w(4,5) _ _ d, of W] w by (simp add: i_def S_def W_def)
  have st: "rxreorder_store seq' S pl ?e1 = (if s1 ! i \<noteq> None then Some (MLAN_STATUS_FAILURE, ?e1)
      else Some (MLAN_STATUS_SUCCESS, ?e1\<lparr>rx_reorder_ptr := s1[i := Some pl]\<rparr>))"
    using store_spec [OF ok1 seq' pos] i by simp
  note body = rxreorder_accept_def [of ad p seq pt pl e, unfolded Let_def, folded seq'_def, unfolded sl
      Option.bind.bind_lunit prod.case]
  show ?thesis
  proof (cases "pt \<noteq> PKT_TYPE_BAR \<and> s1 ! i \<noteq> None")
    case True
    then have "ret = MLAN_STATUS_FAILURE" "toks = buffered (take n (rx_reorder_ptr e))"
        "start' = S" "slots' = s1"
      using eqn by auto
    then show ?thesis
      using True st c by (intro exI [of _ cs] exI [of _ h] exI [of _ l]) (simp add: body)
  next
    case False
    let ?e2 = "?e1\<lparr>rx_reorder_ptr := s2\<rparr>"
    have e2: "(if pt \<noteq> PKT_TYPE_BAR then rxreorder_store seq' S pl ?e1
        else Some (MLAN_STATUS_SUCCESS, ?e1)) = Some (MLAN_STATUS_SUCCESS, ?e2)"
      using st False by (auto simp: s2_def)
    have ok2: "win_ok ?e2" using ok1 by (simp add: win_ok_def s2_def)
    have r: "ret = MLAN_STATUS_SUCCESS"
        "toks = buffered (take n (rx_reorder_ptr e)) @ buffered (take (run s2) s2)"
        "start' = (S + int (run s2)) mod 4096" "slots' = rotate_out (run s2) s2"
      using eqn False by auto
    obtain cs2 h2 l2 where "wlan_11n_scan_and_dispatch ad p ?e2
        = Some (cs2, moved ?e2 (rotate_out (run s2) s2) ((S + int (run s2)) mod 4096) h2 l2)"
      and "handed cs2 = buffered (take (run s2) s2)"
      using scan_spec [OF ok2, of ad p] by auto
    then show ?thesis
      using c r
      by (intro exI [of _ "cs @ cs2"] exI [of _ h2] exI [of _ l2])
         (simp add: body [unfolded e2 Option.bind.bind_lunit prod.case])
  qed
qed

lemma restart_spec:
  "\<exists>cs. mlan_11n_rxreorder_timer_restart e = (cs, e\<lparr>timer_is_set := True\<rparr>) \<and> handed cs = []"
  by (simp add: mlan_11n_rxreorder_timer_restart_def Let_def)

lemma done_spec:
  "\<exists>cs. rxreorder_done prev e = (cs, e\<lparr>timer_is_set := True\<rparr>) \<and> handed cs = []"
  using restart_spec [of e] by (cases "timer_is_set e") (auto simp: rxreorder_done_def)

lemma rxreorder_window_closed:
  assumes "win_ok e" "\<not> force_no_drop e" "0 \<le> seq" "seq < 4096"
    and "reorder_spec (length (rx_reorder_ptr e)) (rr_start_win e) (rx_reorder_ptr e) seq
          (pt = PKT_TYPE_BAR) pl = (ret, toks, start', slots')"
  shows "\<exists>cs h l. rxreorder_window ad p seq pt pl e
      = Some (ret, cs, (moved e slots' start' h l)\<lparr>force_no_drop := False, timer_is_set := True\<rparr>)
    \<and> handed cs = toks"
proof -
  let ?e = "e\<lparr>force_no_drop := False\<rparr>"
  have f: "rxreorder_force_no_drop ad p seq pt e = Some ([], e)"
    using assms(2) by (simp add: rxreorder_force_no_drop_def)
  have old: "rxreorder_is_old (rr_start_win e) seq = ((seq - rr_start_win e) mod 4096 \<ge> 2048)"
    using rxreorder_is_old_char [of "rr_start_win e" seq] win_okD [OF assms(1)] assms(3,4) by simp
  show ?thesis
  proof (cases "(seq - rr_start_win e) mod 4096 \<ge> 2048")
    case True
    obtain cs where dn: "rxreorder_done (rr_start_win e) ?e = (cs, ?e\<lparr>timer_is_set := True\<rparr>)" "handed cs = []"
      using done_spec by blast
    show ?thesis
      using True assms f old dn
      by (intro exI [of _ cs] exI [of _ "hi_curr_rx_count32 e"] exI [of _ "lo_curr_rx_count16 e"])
         (simp add: rxreorder_window_def reorder_spec_def Let_def)
  next
    case False
    have "win_ok ?e" using assms(1) by (simp add: win_ok_def)
    then obtain cs1 h l where a: "rxreorder_accept ad p seq pt pl ?e
        = Some (ret, cs1, moved ?e slots' start' h l)" "handed cs1 = toks"
      using accept_refines [of ?e seq pt pl ret toks start' slots' ad p] False assms
      by (auto simp: reorder_spec_def)
    obtain cs2 where "rxreorder_done (rr_start_win e) (moved ?e slots' start' h l)
        = (cs2, (moved ?e slots' start' h l)\<lparr>timer_is_set := True\<rparr>)" "handed cs2 = []"
      using done_spec by blast
    then show ?thesis
      using False f old a
      by (intro exI [of _ "cs1 @ cs2"] exI [of _ h] exI [of _ l])
         (simp add: rxreorder_window_def Let_def)
  qed
qed


subsection \<open>What a window step preserves\<close>

text \<open>Each buffer waits in the slot of its sequence number.\<close>

fun slot_seq_ok :: "int \<Rightarrow> payload option \<Rightarrow> bool" where
  "slot_seq_ok s (Some (Rx_buffer b)) \<longleftrightarrow> uint (rxpd_seq_num (rxpd b)) = s mod 4096"
| "slot_seq_ok s _ \<longleftrightarrow> True"

fun slots_seq :: "int \<Rightarrow> payload option list \<Rightarrow> bool" where
  "slots_seq s [] \<longleftrightarrow> True"
| "slots_seq s (x # xs) \<longleftrightarrow> slot_seq_ok s x \<and> slots_seq (s + 1) xs"

lemma slot_seq_ok_mod: "s mod 4096 = t mod 4096 \<Longrightarrow> slot_seq_ok s x = slot_seq_ok t x"
  by (cases "(s, x)" rule: slot_seq_ok.cases) simp_all

lemma slots_seq_mod:
  assumes "s mod 4096 = t mod 4096"
  shows "slots_seq s xs = slots_seq t xs"
  using assms
proof (induction xs arbitrary: s t)
  case (Cons x xs)
  have "(s + 1) mod 4096 = (t + 1) mod 4096" using Cons.prems by (rule mod_add_cong) simp
  then show ?case using Cons.IH [of "s + 1" "t + 1"] slot_seq_ok_mod [OF Cons.prems, of x] by simp
qed simp

lemma slots_seq_append:
  "slots_seq s (xs @ ys) \<longleftrightarrow> slots_seq s xs \<and> slots_seq (s + int (length xs)) ys"
  by (induction xs arbitrary: s) (simp_all add: algebra_simps)

lemma slots_seq_None [simp]: "slots_seq s (replicate n None)"
  by (induction n arbitrary: s) simp_all

lemma slots_seq_all_None: "(\<forall>x \<in> set xs. x = None) \<Longrightarrow> slots_seq s xs"
  by (induction xs arbitrary: s) simp_all

lemma slots_seq_rotate:
  assumes "slots_seq s xs" "n \<le> length xs"
  shows "slots_seq (s + int n) (rotate_out n xs)"
proof -
  have "slots_seq s (take n xs @ drop n xs)" using assms(1) by simp
  then show ?thesis
    using assms(2) unfolding slots_seq_append rotate_out_def by simp
qed

lemma slots_seq_store:
  assumes "slots_seq s xs" "k < length xs" "slot_seq_ok (s + int k) x"
  shows "slots_seq s (xs[k := x])"
proof -
  have "slots_seq s (take k xs @ xs ! k # drop (Suc k) xs)"
    using assms(1,2) by (simp add: id_take_nth_drop [symmetric])
  then have "slots_seq s (take k xs @ x # drop (Suc k) xs)"
    using assms(2,3) unfolding slots_seq_append by simp
  then show ?thesis using assms(2) by (simp add: upd_conv_take_nth_drop)
qed

lemma slots_seq_insert:
  assumes "slots_seq S xs" "i < length xs" "(seq - S) mod 4096 = int i" "slot_seq_ok seq (Some pl)"
  shows "slots_seq S (xs[i := Some pl])"
proof -
  have "(S + int i) mod 4096 = seq mod 4096"
    using assms(3) by (metis add.commute diff_add_cancel mod_add_left_eq)
  then show ?thesis
    using slots_seq_store [OF assms(1,2)] assms(4) slot_seq_ok_mod [of "S + int i" seq "Some pl"] by simp
qed

lemma rotate_out_full: "rotate_out (length xs) xs = replicate (length xs) None"
  by (simp add: rotate_out_def)

lemma slide_seq:
  assumes "slots_seq start xs" "0 \<le> start" "0 < length xs"
  shows "slots_seq (slide_start (length xs) start d) (rotate_out (slide_count (length xs) start d) xs)"
proof (cases "d < length xs")
  case True
  then show ?thesis using assms by (simp add: slide_start_def slide_count_def)
next
  case False
  let ?w = "length xs"
  let ?n = "slide_count ?w start d" and ?t = "slide_start ?w start d"
  show ?thesis
  proof (cases "?n = ?w")
    case True
    then show ?thesis by (simp add: rotate_out_full)
  next
    case n: False
    then have n1: "?t > start" "?n = nat (?t - start)" "?n \<le> ?w"
      using False by (auto simp: slide_count_def flush_count_def min_def split: if_splits)
    then have "start + int ?n = ?t" using assms(2) by simp
    then show ?thesis using slots_seq_rotate [OF assms(1) n1(3)] by simp
  qed
qed

text \<open>Buffers given away together with buffers still held are the old ones plus the accepted one.\<close>

lemma buffered_split: "buffered (take n s) @ buffered (rotate_out n s) = buffered s"
  by (simp add: rotate_out_def) (metis append_take_drop_id buffered_simps(3))

lemma buffered_split_mset:
  "mset (buffered (take n s)) + mset (buffered (rotate_out n s)) = mset (buffered s)"
  by (metis buffered_split mset_append)

lemma slide_frees_last:
  assumes "d \<ge> length xs" "0 < length xs" "0 \<le> start"
  shows "rotate_out (slide_count (length xs) start d) xs ! (length xs - 1) = None"
proof -
  let ?n = "slide_count (length xs) start d"
  have "0 < ?n" using assms by (simp add: slide_count_def flush_count_def)
  moreover have "?n \<le> length xs" by (rule slide_count_le)
  ultimately show ?thesis by (auto simp: rotate_out_def nth_append)
qed

lemma run_rotate_head:
  assumes "0 < length s"
  shows "rotate_out (run s) s ! 0 = None"
proof (cases "run s < length s")
  case True
  then have "s ! run s = None"
    using nth_length_takeWhile [of "\<lambda>s. s \<noteq> None" s] by (simp add: run_def)
  then show ?thesis using True by (simp add: rotate_out_def nth_append)
next
  case False
  then have "run s = length s" using run_le [of s] by simp
  then show ?thesis using assms by (simp add: rotate_out_full)
qed

definition accepted_tokens :: "mlan_status \<Rightarrow> bool \<Rightarrow> payload \<Rightarrow> token list" where
  "accepted_tokens ret bar pl = (if ret = MLAN_STATUS_SUCCESS \<and> \<not> bar then payload_tokens pl else [])"

lemma accept_spec_props:
  assumes spec: "accept_spec (length slots) start slots seq bar pl = (ret, toks, start', slots')"
    and w: "1 < length slots" "length slots \<le> 1023" and st: "0 \<le> start" "start \<le> 4096"
  shows "length slots' = length slots" "0 \<le> start'" "start' \<le> 4096"
    and "mset toks + mset (buffered slots') = mset (buffered slots) + mset (accepted_tokens ret bar pl)"
    and "slots_seq start slots \<Longrightarrow> bar \<or> slot_seq_ok seq (Some pl) \<Longrightarrow> slots_seq start' slots'"
    and "slots ! 0 = None \<Longrightarrow> slots' ! 0 = None"
    and "ret = MLAN_STATUS_FAILURE \<Longrightarrow> toks = [] \<and> start' = start \<and> slots' = slots"
    and "ret = MLAN_STATUS_SUCCESS \<or> ret = MLAN_STATUS_FAILURE"
proof -
  define W where "W = length slots"
  define k where "k = nat ((seq - start) mod 4096)"
  define d where "d = (if bar then (k + (W - 1)) mod 4096 else k)"
  define S where "S = slide_start W start d"
  define n where "n = slide_count W start d"
  define s1 where "s1 = rotate_out n slots"
  define i where "i = min d (W - 1)"
  define s2 where "s2 = (if bar then s1 else s1[i := Some pl])"
  note eqn = spec [folded W_def, unfolded accept_spec_unfold
      [OF k_def d_def S_def n_def s1_def i_def s2_def]]
  have n: "n \<le> W" by (simp add: n_def slide_count_le)
  have S: "0 \<le> S \<and> S \<le> 4096" unfolding S_def by (rule slide_start_bounds [OF st])
  have l1: "length s1 = W" "length s2 = W" using n by (simp_all add: s1_def s2_def W_def)
  have i: "i < W" using w by (simp add: i_def W_def)
  have rs: "if \<not> bar \<and> s1 ! i \<noteq> None
      then ret = MLAN_STATUS_FAILURE \<and> toks = buffered (take n slots) \<and> start' = S \<and> slots' = s1
      else ret = MLAN_STATUS_SUCCESS \<and> toks = buffered (take n slots) @ buffered (take (run s2) s2)
        \<and> start' = (S + int (run s2)) mod 4096 \<and> slots' = rotate_out (run s2) s2"
    using eqn by (auto simp del: not_None_eq split: if_splits)
  have sq1: "slots_seq S s1" if "slots_seq start slots"
  proof -
    have "0 < length slots" using w by linarith
    from slide_seq [OF that st(1) this] show ?thesis by (simp add: S_def n_def s1_def W_def)
  qed
  have ne: "0 < length slots" using w by linarith
  have dup: "n = 0 \<and> S = start" if "\<not> bar" "s1 ! i \<noteq> None"
  proof -
    have "d < W"
    proof (rule ccontr)
      assume nd: "\<not> d < W"
      then have "i = W - 1" using ne by (auto simp: i_def min_def W_def)
      moreover have "s1 ! (W - 1) = None"
        using slide_frees_last [OF _ ne st(1), of d] nd by (simp add: s1_def n_def W_def)
      ultimately show False using that by simp
    qed
    then show ?thesis by (simp add: n_def S_def slide_count_def slide_start_def)
  qed
  show "length slots' = length slots"
    using rs l1 run_le [of s2] by (auto simp: W_def split: if_splits)
  show "0 \<le> start'" "start' \<le> 4096"
    using rs S by (auto simp: order_less_imp_le split: if_splits)
  show "ret = MLAN_STATUS_FAILURE \<Longrightarrow> toks = [] \<and> start' = start \<and> slots' = slots"
    using rs dup by (auto simp: s1_def split: if_splits)
  show "ret = MLAN_STATUS_SUCCESS \<or> ret = MLAN_STATUS_FAILURE"
    using rs by (auto split: if_splits)
  show "slots ! 0 = None \<Longrightarrow> slots' ! 0 = None"
    using rs dup run_rotate_head [of s2] l1 ne by (auto simp: s1_def W_def split: if_splits)
  show "mset toks + mset (buffered slots') = mset (buffered slots) + mset (accepted_tokens ret bar pl)"
  proof (cases "\<not> bar \<and> s1 ! i \<noteq> None")
    case True
    then show ?thesis using rs dup by (simp add: accepted_tokens_def s1_def)
  next
    case False
    have 1: "mset (buffered s2) = mset (buffered s1) + mset (accepted_tokens MLAN_STATUS_SUCCESS bar pl)"
      using False buffered_update [of i s1 pl] i l1 by (auto simp: s2_def accepted_tokens_def)
    have 2: "mset (buffered (take n slots)) + mset (buffered s1) = mset (buffered slots)"
      unfolding s1_def by (rule buffered_split_mset)
    have 3: "mset toks + mset (buffered slots')
        = mset (buffered (take n slots)) + mset (buffered s2)"
      using rs False buffered_split_mset [of "run s2" s2] by (auto simp: add.assoc)
    have 4: "ret = MLAN_STATUS_SUCCESS" using rs False by auto
    show ?thesis unfolding 3 1 4 by (simp only: add.assoc [symmetric] 2)
  qed
  show "slots_seq start' slots'" if q: "slots_seq start slots" "bar \<or> slot_seq_ok seq (Some pl)"
  proof (cases "\<not> bar \<and> s1 ! i \<noteq> None")
    case True
    then show ?thesis using rs sq1 q by simp
  next
    case False
    have "slots_seq S s2"
    proof (cases bar)
      case True
      then show ?thesis using sq1 q by (simp add: s2_def)
    next
      case nb: False
      have "(seq - S) mod 4096 = int i"
        using slide_position [OF st, of W d seq] w nb by (simp add: d_def k_def S_def i_def W_def)
      then show ?thesis
        using slots_seq_insert [OF sq1 [OF q(1)]] q(2) i l1 nb by (simp add: s2_def)
    qed
    then have "slots_seq (S + int (run s2)) (rotate_out (run s2) s2)"
      by (rule slots_seq_rotate) (rule run_le)
    then show ?thesis
      using rs False slots_seq_mod [of "start'" "S + int (run s2)"] by simp
  qed
qed


subsection \<open>Delivery order\<close>

definition tok_seq :: "token \<Rightarrow> int" where
  "tok_seq t = uint (rxpd_seq_num (snd t))"

definition tok_off :: "int \<Rightarrow> token \<Rightarrow> int" where
  \<comment> \<open>how far ahead of \<open>start\<close> the packet is\<close>
  "tok_off start t = (tok_seq t - start) mod 4096"

lemma payload_off:
  assumes "slot_seq_ok s (Some pl)" "s mod 4096 = (start + c) mod 4096" "0 \<le> c" "c < 4096"
    and "t \<in> set (payload_tokens pl)"
  shows "tok_off start t = c"
proof -
  obtain b where "pl = Rx_buffer b" "t = token_of b" using assms(5) by (cases pl) auto
  then have "tok_seq t mod 4096 = (start + c) mod 4096"
    using assms(1,2) by (simp add: tok_seq_def token_of_def)
  then have "tok_off start t = (start + c - start) mod 4096"
    unfolding tok_off_def by (metis mod_diff_left_eq)
  then show ?thesis using assms(3,4) by simp
qed

lemma payload_tokens_cases: "payload_tokens pl = [] \<or> (\<exists>t. payload_tokens pl = [t])"
  by (cases pl) auto

lemma buffered_offsets:
  assumes "slots_seq s xs" "s mod 4096 = (start + c) mod 4096" "0 \<le> c" "c + int (length xs) \<le> 4096"
  shows "sorted_wrt (<) (map (tok_off start) (buffered xs))
    \<and> (\<forall>t \<in> set (buffered xs). c \<le> tok_off start t \<and> tok_off start t < c + int (length xs))"
  using assms
proof (induction xs arbitrary: s c)
  case Nil
  then show ?case by simp
next
  case (Cons x xs)
  have "(s + 1) mod 4096 = (start + (c + 1)) mod 4096"
    using Cons.prems(2) mod_add_cong [of s 4096 "start + c" 1 1] by (simp add: algebra_simps)
  then have IH: "sorted_wrt (<) (map (tok_off start) (buffered xs))"
      "\<forall>t \<in> set (buffered xs). c + 1 \<le> tok_off start t \<and> tok_off start t < c + 1 + int (length xs)"
    using Cons.IH [of "s + 1" "c + 1"] Cons.prems by auto
  show ?case
  proof (cases x)
    case None
    then show ?thesis using IH by force
  next
    case (Some pl)
    have o: "tok_off start t = c" if "t \<in> set (payload_tokens pl)" for t
      using payload_off [of s pl start c t] Cons.prems Some that by simp
    show ?thesis
      using payload_tokens_cases [of pl] IH o Some by force
  qed
qed

lemma sorted_concat:
  assumes "sorted_wrt (<) (map f xs)" "sorted_wrt (<) (map f ys)"
    and "\<forall>x \<in> set xs. f x < c" "\<forall>y \<in> set ys. (c::int) \<le> f y"
  shows "sorted_wrt (<) (map f (xs @ ys))"
  using assms by (force simp: sorted_wrt_append)

lemma slide_start_no_wrap:
  assumes "w \<le> d" "0 \<le> start" "start + int d - int w + 1 < 4096"
  shows "slide_start w start d = start + int d - int w + 1"
    "slide_count w start d = min (d - w + 1) w"
proof -
  show 1: "slide_start w start d = start + int d - int w + 1"
    using assms by (simp add: slide_start_def of_nat_diff algebra_simps)
  show "slide_count w start d = min (d - w + 1) w"
    using assms 1 by (auto simp: slide_count_def flush_count_def nat_diff_distrib)
qed

lemma slide_start_wrap:
  assumes "w \<le> d" "0 < w" "start \<le> 4096" "4096 \<le> start + int d - int w + 1" "d < 4096"
  shows "slide_count w start d = w"
proof -
  have x: "start + int (d - w + 1) = start + int d - int w + 1" using assms by (simp add: of_nat_diff)
  have "slide_start w start d = (start + int d - int w + 1) mod 4096"
    using assms(1) unfolding slide_start_def x by simp
  also have "\<dots> = (start + int d - int w + 1 - 4096) mod 4096" by (rule minus_mod_self2 [symmetric])
  also have "\<dots> = start + int d - int w + 1 - 4096"
    using assms by (intro mod_pos_pos_trivial) auto
  finally have "slide_start w start d \<le> start" using assms by simp
  then show ?thesis using assms by (simp add: slide_count_def flush_count_def)
qed


lemma accept_spec_order:
  assumes spec: "accept_spec (length slots) start slots seq bar pl = (ret, toks, start', slots')"
    and w: "1 < length slots" "length slots \<le> 1023" and st: "0 \<le> start" "start \<le> 4096"
    and sq: "slots_seq start slots" and pk: "slot_seq_ok seq (Some pl)"
    and k: "(seq - start) mod 4096 < 2048"
  shows "sorted_wrt (<) (map (tok_off start) (toks @ buffered slots'))"
    and "(seq - start) mod 4096 < int (length slots) \<and> \<not> bar
         \<or> start + (seq - start) mod 4096 < 4096
       \<Longrightarrow> \<forall>t \<in> set toks. tok_off start t < (start' - start) mod 4096"
proof -
  define W where "W = length slots"
  define k where "k = nat ((seq - start) mod 4096)"
  define d where "d = (if bar then (k + (W - 1)) mod 4096 else k)"
  define S where "S = slide_start W start d"
  define n where "n = slide_count W start d"
  define s1 where "s1 = rotate_out n slots"
  define i where "i = min d (W - 1)"
  define s2 where "s2 = (if bar then s1 else s1[i := Some pl])"
  note eqn = spec [folded W_def, unfolded accept_spec_unfold
      [OF k_def d_def S_def n_def s1_def i_def s2_def]]
  have kk: "int k = (seq - start) mod 4096" "k < 2048" using k by (auto simp: k_def)
  have d: "d = (if bar then k + (W - 1) else k)" "d + 1 \<le> 4096"
    using kk w by (auto simp: d_def W_def)
  have W: "1 < W" "W \<le> 1023" using w by (auto simp: W_def)
  define c where "c = (if d < W then 0 else int d - int W + 1)"
  have c: "0 \<le> c" "c + int W \<le> 4096" using d(2) W by (auto simp: c_def)
  have S: "S mod 4096 = (start + c) mod 4096"
    using W by (auto simp: S_def slide_start_def c_def of_nat_diff algebra_simps)
  have l1: "length s1 = W" using slide_count_le [of W start d] by (simp add: s1_def n_def W_def)
  have i: "i < W" using W by (simp add: i_def)
  have ne: "0 < length slots" using w by linarith
  have sq1: "slots_seq S s1"
    using slide_seq [OF sq st(1) ne, of d] by (simp add: S_def n_def s1_def W_def)
  have "(seq - S) mod 4096 = int i" if "\<not> bar"
    using slide_position [OF st, of W d seq] W that kk d by (simp add: S_def i_def)
  then have sq2: "slots_seq S s2"
    using slots_seq_insert [OF sq1 _ _ pk] i l1 by (simp add: s2_def sq1)
  have l2: "length s2 = W" using l1 by (simp add: s2_def)
  have A: "sorted_wrt (<) (map (tok_off start) (buffered (take n slots)))"
      "\<forall>t \<in> set (buffered (take n slots)). tok_off start t < int n"
  proof -
    have "slots_seq start (take n slots)"
      using sq slots_seq_append [of start "take n slots" "drop n slots"] by simp
    then show "sorted_wrt (<) (map (tok_off start) (buffered (take n slots)))"
      "\<forall>t \<in> set (buffered (take n slots)). tok_off start t < int n"
      using buffered_offsets [of start "take n slots" start 0] W slide_count_le [of W start d]
      by (auto simp: W_def n_def min.absorb2)
  qed
  have B: "sorted_wrt (<) (map (tok_off start) (buffered s))
      \<and> (\<forall>t \<in> set (buffered s). c \<le> tok_off start t)" if "s = s1 \<or> s = s2" for s
    using buffered_offsets [of S s start c] that sq1 sq2 l1 l2 S c by auto
  have no_wrap: "int n \<le> c" if "d < W \<or> start + int d - int W + 1 < 4096"
    using slide_start_no_wrap [of W d start] that st by (auto simp: n_def c_def slide_count_def)
  have AB: "sorted_wrt (<) (map (tok_off start) (buffered (take n slots) @ buffered s))"
    if s: "s = s1 \<or> s = s2" for s
  proof (cases "d < W \<or> start + int d - int W + 1 < 4096")
    case True
    have "\<forall>t \<in> set (buffered (take n slots)). tok_off start t < c" using A(2) no_wrap [OF True] by auto
    then show ?thesis using sorted_concat [OF A(1)] B [OF s] by blast
  next
    case False
    then have n: "n = W"
      using slide_start_wrap [of W d start] W st d(2) by (simp add: n_def)
    then have s1: "s1 = replicate W None" by (simp add: s1_def W_def rotate_out_full)
    have "int W \<le> tok_off start t" if t: "t \<in> set (buffered s)" for t
    proof -
      have "\<not> bar" "t \<in> set (payload_tokens pl)"
        using t s s1 buffered_update [of i s1 pl] i
        by (auto simp: s2_def set_mset_mset [symmetric] simp del: set_mset_mset split: if_splits)
      then have "tok_off start t = int d"
        using payload_off [OF pk, of start "int d" t] kk d by (simp add: mod_simps)
      then show ?thesis using False by simp
    qed
    then show ?thesis using sorted_concat [OF A(1), of "buffered s" "int W"] A(2) B [OF s] n by auto
  qed
  show "sorted_wrt (<) (map (tok_off start) (toks @ buffered slots'))"
  proof -
    have "toks @ buffered slots'
        = buffered (take n slots) @ buffered (if \<not> bar \<and> s1 ! i \<noteq> None then s1 else s2)"
      using eqn buffered_split [of "run s2" s2] by (auto split: if_splits)
    then show ?thesis using AB [of s1] AB [of s2] by presburger
  qed
  show "\<forall>t \<in> set toks. tok_off start t < (start' - start) mod 4096"
    if nw: "(seq - start) mod 4096 < int (length slots) \<and> \<not> bar \<or> start + (seq - start) mod 4096 < 4096"
  proof (cases "\<not> bar \<and> s1 ! i \<noteq> None")
    case True
    then show ?thesis using eqn accept_spec_props(7) [OF spec w st] by auto
  next
    case False
    have nc: "int n \<le> c" using no_wrap nw kk d(1) W by (auto simp: W_def split: if_splits)
    have r: "run s2 \<le> W" using run_le [of s2] l2 by simp
    have "slots_seq S (take (run s2) s2)"
      using sq2 slots_seq_append [of S "take (run s2) s2" "drop (run s2) s2"] by simp
    then have R: "\<forall>t \<in> set (buffered (take (run s2) s2)). tok_off start t < c + int (run s2)"
      using buffered_offsets [of S "take (run s2) s2" start c] S c r l2 by auto
    have "(start' - start) mod 4096 = (S + int (run s2) - start) mod 4096"
      using eqn False mod_diff_left_eq by auto
    also have "\<dots> = (S + (int (run s2) - start)) mod 4096" by (simp add: algebra_simps)
    also have "\<dots> = (S mod 4096 + (int (run s2) - start)) mod 4096"
      by (rule mod_add_left_eq [symmetric])
    also have "\<dots> = (start + c + (int (run s2) - start)) mod 4096"
      unfolding S by (rule mod_add_left_eq)
    also have "\<dots> = c + int (run s2)" using c r d(1) kk W by (auto simp: c_def)
    finally show ?thesis using eqn False A(2) R nc by force
  qed
qed


subsection \<open>A whole packet step\<close>

definition rx_inv :: "RxReorderTbl \<Rightarrow> bool" where
  "rx_inv e \<longleftrightarrow> win_ok e \<and> rx_reorder_ptr e ! 0 = None
     \<and> (rr_last_seq e = DEFAULT_SEQ_NUM \<or> 0 \<le> rr_last_seq e \<and> rr_last_seq e < 4096)
     \<and> (check_start_win e \<longrightarrow> (\<forall>x \<in> set (rx_reorder_ptr e). x = None))
     \<and> slots_seq (rr_start_win e) (rx_reorder_ptr e)"

lemma last_slot_spec:
  assumes "n \<le> length slots"
  shows "\<exists>r. last_slot n slots = Some r \<and> - 1 \<le> r \<and> r < int n
    \<and> (\<forall>j < n. r < int j \<longrightarrow> slots ! j = None)"
  using assms
proof (induction n)
  case 0
  show ?case by simp
next
  case (Suc n)
  then obtain r where r: "last_slot n slots = Some r" "- 1 \<le> r" "r < int n"
      "\<forall>j < n. r < int j \<longrightarrow> slots ! j = None" by auto
  show ?case
  proof (cases "slots ! n")
    case None
    then show ?thesis using r Suc.prems by (auto simp: less_Suc_eq)
  next
    case (Some v)
    then show ?thesis using Suc.prems by (intro exI [of _ "int n"]) auto
  qed
qed

lemma rotate_out_tail_None:
  assumes "\<forall>j < length xs. n \<le> j \<longrightarrow> xs ! j = None" "n \<le> length xs"
  shows "rotate_out n xs = replicate (length xs) None"
  using assms by (auto simp: rotate_out_def nth_append intro!: nth_equalityI)

lemma buffered_tail_None:
  assumes "\<forall>j < length xs. n \<le> j \<longrightarrow> xs ! j = None" "n \<le> length xs"
  shows "buffered (take n xs) = buffered xs"
  using buffered_split [of n xs] rotate_out_tail_None [OF assms] by simp

text \<open>Flushing empties the table and hands over everything it held.\<close>

lemma flush_spec:
  assumes ok: "win_ok e"
  shows "\<exists>cs w h l. wlan_start_flush_data ad p e
      = Some (cs, moved e (replicate (length (rx_reorder_ptr e)) None) w h l)
    \<and> handed cs = buffered (rx_reorder_ptr e) \<and> 0 \<le> w \<and> w \<le> 4096"
proof -
  let ?s = "rx_reorder_ptr e"
  note w = win_okD [OF ok]
  obtain r where r: "last_slot (length ?s) ?s = Some r" "- 1 \<le> r" "r < int (length ?s)"
      and none: "\<forall>j < length ?s. r < int j \<longrightarrow> ?s ! j = None"
    using last_slot_spec [of "length ?s" ?s] by auto
  have f: "wlan_11n_find_last_seqnum e = Some r"
    using r w(3) by (simp add: wlan_11n_find_last_seqnum_def)
  show ?thesis
  proof (cases "0 \<le> r")
    case False
    then have "\<forall>j < length ?s. 0 \<le> j \<longrightarrow> ?s ! j = None" using none by auto
    from rotate_out_tail_None [OF this] buffered_tail_None [OF this]
    have s: "?s = replicate (length ?s) None" "buffered ?s = []" by auto
    then have "moved e (replicate (length ?s) None) (rr_start_win e)
        (hi_curr_rx_count32 e) (lo_curr_rx_count16 e) = e" by (simp add: s(1) [symmetric])
    then show ?thesis using False f s(2) w
      by (intro exI [of _ "[]"] exI [of _ "rr_start_win e"] exI [of _ "hi_curr_rx_count32 e"]
            exI [of _ "lo_curr_rx_count16 e"]) (simp add: wlan_start_flush_data_def)
  next
    case True
    define sw where "sw = (rr_start_win e + r + 1) mod 4096"
    define n where "n = flush_count (rr_start_win e) sw (length ?s)"
    have rn: "r < int n" "n \<le> length ?s"
    proof -
      have "sw = (if rr_start_win e + r + 1 < 4096 then rr_start_win e + r + 1
          else rr_start_win e + r + 1 - 4096)"
        unfolding sw_def by (rule mod_4096_wrap) (use True r w in linarith)+
      then show "r < int n" using r w by (auto simp: n_def flush_count_def)
      show "n \<le> length ?s" by (simp add: n_def flush_count_le)
    qed
    then have t: "\<forall>j < length ?s. n \<le> j \<longrightarrow> ?s ! j = None" using none by auto
    obtain cs h l where "wlan_11n_dispatch_pkt_until_start_win ad p e sw
        = Some (cs, moved e (rotate_out n ?s) sw h l)" "handed cs = buffered (take n ?s)"
      using until_spec [OF ok, of ad p sw] by (auto simp: n_def)
    then show ?thesis
      using True f rotate_out_tail_None [OF t rn(2)] buffered_tail_None [OF t rn(2)]
      by (intro exI [of _ cs] exI [of _ sw] exI [of _ h] exI [of _ l])
         (simp add: wlan_start_flush_data_def and_4095 sw_def)
  qed
qed

lemma advance_window_flushes:
  assumes "slots_ok e" "rr_win_size e \<le> 1023" "0 \<le> rr_start_win e" "rr_start_win e \<le> 4096"
  shows "\<exists>cs h l. wlan_11n_dispatch_pkt_until_start_win ad p e ((rr_start_win e + rr_win_size e) mod 4096)
      = Some (cs, moved e (replicate (length (rx_reorder_ptr e)) None)
          ((rr_start_win e + rr_win_size e) mod 4096) h l) \<and> handed cs = buffered (rx_reorder_ptr e)"
proof -
  let ?s = "rx_reorder_ptr e"
  have w: "0 < rr_win_size e" "length ?s = nat (rr_win_size e)" using assms by (auto simp: slots_ok_def)
  define sw where "sw = (rr_start_win e + rr_win_size e) mod 4096"
  have "sw = (if rr_start_win e + rr_win_size e < 4096 then rr_start_win e + rr_win_size e
      else rr_start_win e + rr_win_size e - 4096)"
    unfolding sw_def by (rule mod_4096_wrap) (use w assms in linarith)+
  then have "flush_count (rr_start_win e) sw (length ?s) = length ?s"
    using w assms by (auto simp: flush_count_def)
  then show ?thesis
    using until_closed [OF assms(1), of ad p sw] by (auto simp: rotate_out_full sw_def)
qed

text \<open>In the no-drop mode the whole window is flushed first.\<close>

lemma force_spec:
  assumes ok: "win_ok e" and f: "force_no_drop e" and seq: "0 \<le> seq" "seq < 4096"
  shows "\<exists>cs w h l. rxreorder_force_no_drop ad p seq pt e
      = Some (cs, (moved e (replicate (length (rx_reorder_ptr e)) None) w h l)\<lparr>timer_is_set := True\<rparr>)
    \<and> handed cs = buffered (rx_reorder_ptr e) \<and> 0 \<le> w \<and> w \<le> 4096
    \<and> (pt \<noteq> PKT_TYPE_BAR \<longrightarrow> w = seq)"
proof -
  let ?s = "rx_reorder_ptr e"
  note w = win_okD [OF ok]
  define sw where "sw = (rr_start_win e + rr_win_size e) mod 4096"
  obtain cs h l where u: "wlan_11n_dispatch_pkt_until_start_win ad p e sw
      = Some (cs, moved e (replicate (length ?s) None) sw h l)" "handed cs = buffered ?s"
    using advance_window_flushes [OF win_ok_slots_ok [OF ok] w(2,4,5), of ad p] by (auto simp: sw_def)
  define x where "x = (if pt \<noteq> PKT_TYPE_BAR then seq else sw)"
  let ?e = "moved e (replicate (length ?s) None) x h l"
  obtain cs2 where r: "mlan_11n_rxreorder_timer_restart ?e = (cs2, ?e\<lparr>timer_is_set := True\<rparr>)"
      "handed cs2 = []" using restart_spec by blast
  have "(if pt \<noteq> PKT_TYPE_BAR then (moved e (replicate (length ?s) None) sw h l)\<lparr>rr_start_win := seq\<rparr>
      else moved e (replicate (length ?s) None) sw h l) = ?e" by (simp add: x_def)
  then show ?thesis
    using f u r seq
    by (intro exI [of _ "cs @ cs2"] exI [of _ x] exI [of _ h] exI [of _ l])
       (simp add: rxreorder_force_no_drop_def and_4095 sw_def [symmetric],
        auto simp: x_def sw_def order_less_imp_le)
qed


definition slots_inv :: "RxReorderTbl \<Rightarrow> bool" where
  "slots_inv e \<longleftrightarrow> win_ok e \<and> rx_reorder_ptr e ! 0 = None
     \<and> slots_seq (rr_start_win e) (rx_reorder_ptr e)"

definition same_status :: "RxReorderTbl \<Rightarrow> RxReorderTbl \<Rightarrow> bool" where
  "same_status e e' \<longleftrightarrow> rr_last_seq e' = rr_last_seq e \<and> check_start_win e' = check_start_win e
     \<and> rr_tid e' = rr_tid e \<and> rr_ta e' = rr_ta e \<and> rr_win_size e' = rr_win_size e"

definition conserved :: "mlan_status \<Rightarrow> bool \<Rightarrow> payload \<Rightarrow> moal_call list \<Rightarrow> RxReorderTbl \<Rightarrow> RxReorderTbl \<Rightarrow> bool" where
  "conserved ret bar pl cs e e' \<longleftrightarrow>
     mset (handed cs) + mset (buffered (rx_reorder_ptr e'))
       = mset (buffered (rx_reorder_ptr e)) + mset (accepted_tokens ret bar pl)"

lemma slots_inv_empty:
  assumes "win_ok e" "rx_reorder_ptr e = replicate n None"
  shows "slots_inv e"
  using assms win_okD(6) [OF assms(1)] by (simp add: slots_inv_def)

lemma accept_props:
  assumes inv: "slots_inv e" and seq: "0 \<le> seq" "seq < 4096" and pk: "slot_seq_ok seq (Some pl)"
  shows "\<exists>ret cs w s h l. rxreorder_accept ad p seq pt pl e = Some (ret, cs, moved e s w h l)
    \<and> slots_inv (moved e s w h l) \<and> conserved ret (pt = PKT_TYPE_BAR) pl cs e (moved e s w h l)
    \<and> (ret = MLAN_STATUS_SUCCESS \<or> ret = MLAN_STATUS_FAILURE)"
proof -
  have ok: "win_ok e" and z: "rx_reorder_ptr e ! 0 = None"
    and q: "slots_seq (rr_start_win e) (rx_reorder_ptr e)" using inv by (auto simp: slots_inv_def)
  note w = win_okD [OF ok]
  obtain ret toks w' s' where spec: "accept_spec (length (rx_reorder_ptr e)) (rr_start_win e)
      (rx_reorder_ptr e) seq (pt = PKT_TYPE_BAR) pl = (ret, toks, w', s')" by (metis prod_cases4)
  note P = accept_spec_props [OF spec w(6,7,4,5)]
  obtain cs h l where a: "rxreorder_accept ad p seq pt pl e = Some (ret, cs, moved e s' w' h l)"
    and c: "handed cs = toks" using accept_refines [OF ok seq spec] by blast
  have "slots_inv (moved e s' w' h l)"
    using win_ok_moved [OF ok P(1-3)] P(5) [OF q] P(6) [OF z] pk by (simp add: slots_inv_def)
  moreover have "conserved ret (pt = PKT_TYPE_BAR) pl cs e (moved e s' w' h l)"
    using P(4) c by (simp add: conserved_def)
  ultimately show ?thesis using a P(8) by blast
qed

lemma window_props:
  assumes inv: "slots_inv e" and seq: "0 \<le> seq" "seq < 4096" and pk: "slot_seq_ok seq (Some pl)"
  shows "\<exists>ret cs e'. rxreorder_window ad p seq pt pl e = Some (ret, cs, e')
    \<and> slots_inv e' \<and> same_status e e' \<and> conserved ret (pt = PKT_TYPE_BAR) pl cs e e'
    \<and> (ret = MLAN_STATUS_SUCCESS \<or> ret = MLAN_STATUS_FAILURE)"
proof -
  have ok: "win_ok e" using inv by (simp add: slots_inv_def)
  have "\<exists>cs e1. rxreorder_force_no_drop ad p seq pt e = Some (cs, e1) \<and> slots_inv e1
      \<and> same_status e e1
      \<and> mset (handed cs) + mset (buffered (rx_reorder_ptr e1)) = mset (buffered (rx_reorder_ptr e))"
  proof (cases "force_no_drop e")
    case False
    then show ?thesis using inv by (simp add: rxreorder_force_no_drop_def same_status_def)
  next
    case True
    obtain cs w h l where f: "rxreorder_force_no_drop ad p seq pt e
        = Some (cs, (moved e (replicate (length (rx_reorder_ptr e)) None) w h l)\<lparr>timer_is_set := True\<rparr>)"
      and c: "handed cs = buffered (rx_reorder_ptr e)" "0 \<le> w" "w \<le> 4096"
      using force_spec [OF ok True seq, of ad p pt] by blast
    let ?e1 = "(moved e (replicate (length (rx_reorder_ptr e)) None) w h l)\<lparr>timer_is_set := True\<rparr>"
    have "win_ok ?e1" using ok c by (simp add: win_ok_def)
    then have "slots_inv ?e1" by (rule slots_inv_empty) simp
    then show ?thesis using f c by (intro exI [of _ cs] exI [of _ ?e1]) (simp add: same_status_def)
  qed
  then obtain cs0 e1 where f: "rxreorder_force_no_drop ad p seq pt e = Some (cs0, e1)"
    and i1: "slots_inv e1" and s1: "same_status e e1"
    and c0: "mset (handed cs0) + mset (buffered (rx_reorder_ptr e1)) = mset (buffered (rx_reorder_ptr e))"
    by blast
  let ?e2 = "e1\<lparr>force_no_drop := False\<rparr>"
  have i2: "slots_inv ?e2" using i1 by (simp add: slots_inv_def win_ok_def)
  define A where "A = (if \<not> force_no_drop e1 \<and> rxreorder_is_old (rr_start_win e1) seq
      then Some (MLAN_STATUS_FAILURE, [], ?e2) else rxreorder_accept ad p seq pt pl ?e2)"
  have "\<exists>ret cs e3. A = Some (ret, cs, e3) \<and> slots_inv e3 \<and> same_status ?e2 e3
      \<and> conserved ret (pt = PKT_TYPE_BAR) pl cs ?e2 e3
      \<and> (ret = MLAN_STATUS_SUCCESS \<or> ret = MLAN_STATUS_FAILURE)"
  proof (cases "\<not> force_no_drop e1 \<and> rxreorder_is_old (rr_start_win e1) seq")
    case True
    then show ?thesis using i2 by (simp add: A_def same_status_def conserved_def accepted_tokens_def)
  next
    case False
    obtain ret cs w s h l where "rxreorder_accept ad p seq pt pl ?e2 = Some (ret, cs, moved ?e2 s w h l)"
      "slots_inv (moved ?e2 s w h l)" "conserved ret (pt = PKT_TYPE_BAR) pl cs ?e2 (moved ?e2 s w h l)"
      "ret = MLAN_STATUS_SUCCESS \<or> ret = MLAN_STATUS_FAILURE"
      using accept_props [OF i2 seq pk, of ad p pt] by blast
    moreover have "same_status ?e2 (moved ?e2 s w h l)" by (simp add: same_status_def)
    ultimately show ?thesis using False by (metis A_def)
  qed
  then obtain ret cs1 e3 where a: "A = Some (ret, cs1, e3)" "slots_inv e3" "same_status ?e2 e3"
      "conserved ret (pt = PKT_TYPE_BAR) pl cs1 ?e2 e3"
      "ret = MLAN_STATUS_SUCCESS \<or> ret = MLAN_STATUS_FAILURE" by blast
  obtain cs2 where d: "rxreorder_done (rr_start_win e1) e3 = (cs2, e3\<lparr>timer_is_set := True\<rparr>)" "handed cs2 = []"
    using done_spec by blast
  have "rxreorder_window ad p seq pt pl e = Some (ret, cs0 @ cs1 @ cs2, e3\<lparr>timer_is_set := True\<rparr>)"
    using f a(1) d(1) by (simp add: rxreorder_window_def Let_def A_def)
  moreover have "slots_inv (e3\<lparr>timer_is_set := True\<rparr>)" using a(2) by (simp add: slots_inv_def win_ok_def)
  moreover have "same_status e (e3\<lparr>timer_is_set := True\<rparr>)" using s1 a(3) by (simp add: same_status_def)
  moreover have "conserved ret (pt = PKT_TYPE_BAR) pl (cs0 @ cs1 @ cs2) e (e3\<lparr>timer_is_set := True\<rparr>)"
    using c0 a(4) d(2) by (simp add: conserved_def) (metis union_assoc)
  ultimately show ?thesis using a(5) by blast
qed


lemma check_start_win_props:
  assumes inv: "rx_inv e" and seq: "0 \<le> seq" "seq < 4096"
    and r: "rxreorder_check_start_win ad p seq pt pl e = (ret, cs, e1)"
  shows "rx_reorder_ptr e1 = rx_reorder_ptr e \<and> rr_tid e1 = rr_tid e \<and> rr_ta e1 = rr_ta e
      \<and> rr_win_size e1 = rr_win_size e"
    and "case ret of
        None \<Rightarrow> cs = [] \<and> slots_inv e1 \<and> \<not> check_start_win e1 \<and> rr_last_seq e1 = rr_last_seq e
      | Some st \<Rightarrow> rx_inv e1 \<and> handed cs = accepted_tokens st (pt = PKT_TYPE_BAR) pl
          \<and> (st = MLAN_STATUS_SUCCESS \<or> st = MLAN_STATUS_FAILURE)"
proof -
  have ok: "win_ok e" using inv by (simp add: rx_inv_def)
  have base: "slots_inv e" using inv by (simp add: rx_inv_def slots_inv_def)
  have "(rx_reorder_ptr e1 = rx_reorder_ptr e \<and> rr_tid e1 = rr_tid e \<and> rr_ta e1 = rr_ta e
      \<and> rr_win_size e1 = rr_win_size e) \<and> (case ret of
        None \<Rightarrow> cs = [] \<and> slots_inv e1 \<and> \<not> check_start_win e1 \<and> rr_last_seq e1 = rr_last_seq e
      | Some st \<Rightarrow> rx_inv e1 \<and> handed cs = accepted_tokens st (pt = PKT_TYPE_BAR) pl
          \<and> (st = MLAN_STATUS_SUCCESS \<or> st = MLAN_STATUS_FAILURE))"
  proof (cases "check_start_win e \<and> seq \<noteq> rr_start_win e")
    case False
    then show ?thesis
      using r base by (auto simp: rxreorder_check_start_win_def slots_inv_def win_ok_def split: if_splits)
  next
    case True
    then have empty: "\<forall>x \<in> set (rx_reorder_ptr e). x = None" using inv by (simp add: rx_inv_def)
    have z: "rx_reorder_ptr e ! 0 = None" using inv by (simp add: rx_inv_def)
    have sq: "slots_seq w (rx_reorder_ptr e)" for w using empty by (rule slots_seq_all_None)
    let ?e1 = "e\<lparr>pkt_count := pkt_count e + 1\<rparr>"
    show ?thesis
    proof (cases "int (unat (pkt_count e + 1)) < rr_win_size e div 2")
      case early: True
      obtain cs' h l where d: "dispatch_on ad p pl (?e1\<lparr>rr_last_seq := seq\<rparr>)
          = (cs', ?e1\<lparr>rr_last_seq := seq\<rparr>\<lparr>hi_curr_rx_count32 := h, lo_curr_rx_count16 := l\<rparr>)"
        "handed cs' = payload_tokens pl" by (rule dispatch_on_obtain)
      show ?thesis
        using r True early d inv seq
        by (auto simp: rxreorder_check_start_win_def Let_def accepted_tokens_def rx_inv_def win_ok_def
              split: if_splits)
    next
      case False
      have last: "rr_last_seq e \<noteq> DEFAULT_SEQ_NUM \<Longrightarrow> 0 \<le> rr_last_seq e + 1 \<and> rr_last_seq e + 1 \<le> 4096"
        using inv by (auto simp: rx_inv_def)
      have "ret = None \<and> cs = [] \<and> (e1 = ?e1\<lparr>check_start_win := False\<rparr>
          \<or> rr_last_seq e \<noteq> DEFAULT_SEQ_NUM
            \<and> e1 = ?e1\<lparr>check_start_win := False\<rparr>\<lparr>rr_start_win := rr_last_seq e + 1\<rparr>)"
        using r True False by (auto simp: rxreorder_check_start_win_def Let_def split: if_splits)
      then show ?thesis
        using last ok z sq by (auto simp: slots_inv_def win_ok_def)
    qed
  qed
  then show "rx_reorder_ptr e1 = rx_reorder_ptr e \<and> rr_tid e1 = rr_tid e \<and> rr_ta e1 = rr_ta e
      \<and> rr_win_size e1 = rr_win_size e"
    and "case ret of
        None \<Rightarrow> cs = [] \<and> slots_inv e1 \<and> \<not> check_start_win e1 \<and> rr_last_seq e1 = rr_last_seq e
      | Some st \<Rightarrow> rx_inv e1 \<and> handed cs = accepted_tokens st (pt = PKT_TYPE_BAR) pl
          \<and> (st = MLAN_STATUS_SUCCESS \<or> st = MLAN_STATUS_FAILURE)" by blast+
qed

lemma entry_props:
  assumes inv: "rx_inv e" and seq: "0 \<le> seq" "seq < 4096" and pk: "slot_seq_ok seq (Some pl)"
  shows "\<exists>ret cs e'. rxreorder_entry ad p seq pt pl e = Some (ret, cs, e') \<and> rx_inv e'
    \<and> rr_tid e' = rr_tid e \<and> rr_ta e' = rr_ta e
    \<and> conserved ret (pt = PKT_TYPE_BAR) pl cs e e'
    \<and> (ret = MLAN_STATUS_SUCCESS \<or> ret = MLAN_STATUS_FAILURE)"
proof -
  have "\<exists>cs e1. (if rr_flush_data e then wlan_start_flush_data ad p (e\<lparr>rr_flush_data := False\<rparr>)
        else Some ([], e)) = Some (cs, e1) \<and> rx_inv e1 \<and> rr_tid e1 = rr_tid e \<and> rr_ta e1 = rr_ta e
      \<and> mset (handed cs) + mset (buffered (rx_reorder_ptr e1)) = mset (buffered (rx_reorder_ptr e))"
  proof (cases "rr_flush_data e")
    case False
    then show ?thesis using inv by simp
  next
    case True
    let ?e = "e\<lparr>rr_flush_data := False\<rparr>"
    have ok: "win_ok ?e" using inv by (simp add: rx_inv_def win_ok_def)
    obtain cs w h l where "wlan_start_flush_data ad p ?e
        = Some (cs, moved ?e (replicate (length (rx_reorder_ptr e)) None) w h l)"
      "handed cs = buffered (rx_reorder_ptr e)" "0 \<le> w" "w \<le> 4096"
      using flush_spec [OF ok, of ad p] by auto
    moreover from this have "rx_inv (moved ?e (replicate (length (rx_reorder_ptr e)) None) w h l)"
      using inv win_okD(6) [OF ok] by (simp add: rx_inv_def win_ok_def)
    ultimately show ?thesis
      using True by (intro exI [of _ cs]
          exI [of _ "moved ?e (replicate (length (rx_reorder_ptr e)) None) w h l"]) simp
  qed
  then obtain cs0 e1 where f: "(if rr_flush_data e
        then wlan_start_flush_data ad p (e\<lparr>rr_flush_data := False\<rparr>) else Some ([], e)) = Some (cs0, e1)"
    and i1: "rx_inv e1" and id1: "rr_tid e1 = rr_tid e" "rr_ta e1 = rr_ta e"
    and c0: "mset (handed cs0) + mset (buffered (rx_reorder_ptr e1)) = mset (buffered (rx_reorder_ptr e))"
    by blast
  have E: "rxreorder_entry ad p seq pt pl e =
      (if pt = PKT_TYPE_AMSDU \<and> \<not> rr_amsdu e1
       then (let (cs1, e2) = dispatch_on ad p pl e1 in Some (MLAN_STATUS_SUCCESS, cs0 @ cs1, e2))
       else (case rxreorder_check_start_win ad p seq pt pl e1 of
               (Some ret, cs1, e2) \<Rightarrow> Some (ret, cs0 @ cs1, e2)
             | (None, cs1, e2) \<Rightarrow> do {
                 (ret, cs2, e3) \<leftarrow> rxreorder_window ad p seq pt pl e2;
                 Some (ret, cs0 @ cs1 @ cs2, e3) }))"
    unfolding rxreorder_entry_def f by simp
  show ?thesis
  proof (cases "pt = PKT_TYPE_AMSDU \<and> \<not> rr_amsdu e1")
    case True
    obtain cs1 h l where d: "dispatch_on ad p pl e1
        = (cs1, e1\<lparr>hi_curr_rx_count32 := h, lo_curr_rx_count16 := l\<rparr>)"
      "handed cs1 = payload_tokens pl" by (rule dispatch_on_obtain)
    have "rx_inv (e1\<lparr>hi_curr_rx_count32 := h, lo_curr_rx_count16 := l\<rparr>)"
      using i1 by (simp add: rx_inv_def win_ok_def)
    then show ?thesis
      using E True d c0 id1 by (auto simp: conserved_def accepted_tokens_def)
  next
    case False
    obtain r cs1 e2 where k: "rxreorder_check_start_win ad p seq pt pl e1 = (r, cs1, e2)"
      by (metis prod_cases3)
    note K = check_start_win_props [OF i1 seq k]
    show ?thesis
    proof (cases r)
      case (Some st)
      then show ?thesis
        using E False k K c0 id1 by (auto simp: conserved_def)
    next
      case None
      then have i2: "slots_inv e2" and k2: "cs1 = []" "\<not> check_start_win e2" "rr_last_seq e2 = rr_last_seq e1"
        using K(2) by auto
      obtain ret cs2 e3 where w: "rxreorder_window ad p seq pt pl e2 = Some (ret, cs2, e3)"
        "slots_inv e3" "same_status e2 e3" "conserved ret (pt = PKT_TYPE_BAR) pl cs2 e2 e3"
        "ret = MLAN_STATUS_SUCCESS \<or> ret = MLAN_STATUS_FAILURE"
        using window_props [OF i2 seq pk, of ad p pt] by blast
      have e: "rxreorder_entry ad p seq pt pl e = Some (ret, cs0 @ cs2, e3)"
        using E False k None w(1) k2(1) by simp
      have i3: "rx_inv e3"
        using w(2,3) k2 i1 by (auto simp: rx_inv_def slots_inv_def same_status_def)
      have c: "conserved ret (pt = PKT_TYPE_BAR) pl (cs0 @ cs2) e e3"
        using w(4) c0 K(1) by (simp add: conserved_def) (metis union_assoc)
      have "rr_tid e3 = rr_tid e \<and> rr_ta e3 = rr_ta e"
        using w(3) K(1) id1 by (simp add: same_status_def)
      then show ?thesis using e i3 c w(5) by blast
    qed
  qed
qed

end
