(* ===== verification/Rx_Props.thy ===== *)
theory Rx_Props
  imports Rx_Window
begin

text \<open>
  The properties of one receive reorder entry, with their witnesses: memory safety and the
  invariant, conservation of buffers, delivery order, what happens when the window slides across
  the wrap of the sequence space, and the replay check over a run of packets.
\<close>

subsection \<open>Concrete entries for the witnesses\<close>

definition sample_buffer :: "nat \<Rightarrow> int \<Rightarrow> t_u16 \<Rightarrow> mlan_buffer" where
  "sample_buffer a seq lo = \<lparr>buf_addr = a, pbuf = [], data_offset = 0, data_len = 100,
     rxpd = \<lparr>rx_pkt_length = 100, rx_pkt_offset = 0, rx_pkt_type = 0, rxpd_seq_num = word_of_int seq,
             rxpd_priority = 0, rx_rate = 0, rxpd_snr = 0, rxpd_nf = 0, rxpd_flags = 4, hi_rx_count32 = 0, lo_rx_count16 = lo\<rparr>,
     buf_bss_index = 0, buf_type = 0, buf_priority = 0, buf_flags = 0, use_count = 0, in_ts = (0, 0),
     tx_seq_num = 0, tx_info = \<lparr>txc_data_rate = 0, txc_channel = 0, txc_bw = 0, txc_tx_power = 0, txc_retry_limit = 0\<rparr>,
     pparent = None\<rparr>"

definition sample_entry :: "int \<Rightarrow> payload option list \<Rightarrow> RxReorderTbl" where
  "sample_entry start slots = \<lparr>rr_tid = 0, rr_ta = [2, 0, 0, 0, 0, 1], rr_start_win = start,
     rr_last_seq = DEFAULT_SEQ_NUM, rr_win_size = int (length slots), rx_reorder_ptr = slots,
     rr_timer = True, timer_is_set = True, rr_ba_status = BA_STREAM_SETUP_COMPLETE, rr_amsdu = False,
     force_no_drop = False, check_start_win = False, pkt_count = 0, rr_flush_data = False,
     hi_curr_rx_count32 = 0, lo_curr_rx_count16 = 0\<rparr>"

definition sample_adapter :: mlan_adapter where
  "sample_adapter = \<lparr>fw_cap_info = push_bit 28 1, hw_dot_11n_dev_cap = 0, flush_data = False,
     rx_lock_flag = False, mlan_rx_processing = False,
     pending_bridge_pkts = \<lparr>scalar_value = 0, scalar_lock = 0, scalar_flags = 0\<rparr>,
     coex_rx_winsize = False, coex_win_size = False, coex_rx_win_size = 0, system_time = (0, 0),
     dialog_tok = 1, tdls_status = TDLS_NOT_SETUP, bypass_pkt_count = 0, tx_buf_size = 2048, pps_uapsd_mode = 0, tx_lock_flag = False, data_sent = False,
     num_tx_host_to_card_failure = 0, sleep_period = 0, cmd_sent = False, curr_cmd = False, cmd_pending = False,
     delay_null_pkt = False, sdio_ireg = 0, enable_net_mon = False\<rparr>"

definition sample_private :: mlan_private where
  "sample_private = \<lparr>bss_index = 0, priv_bss_num = 0, bss_priority = 0, intf_hr_len = 4, pkt_tx_ctrl = 0,
     ewpa_enabled = False, curr_addr = [2, 0, 0, 0, 0, 9], bss_mac_address = [2, 0, 0, 0, 0, 1], priv_rxpd_rate = 0,
     mgmt_frame_passthru_mask = 0, msdu_in_tx_amsdu_cnt = 0, amsdu_tx_cnt = 0, msdu_in_rx_amsdu_cnt = 0, amsdu_rx_cnt = 0,
     bss_role = MLAN_BSS_ROLE_STA, bss_type = MLAN_BSS_TYPE_STA,
     bss_mode = MLAN_BSS_MODE_INFRA, media_connected = True, uap_bss_started = False,
     wps_session_enable = False, rx_reorder_tbl_ptr = [], tx_ba_stream_tbl_ptr = [], sta_list = [],
     rx_seq = replicate 8 0xffff, addba_reject = replicate 8 0,
     aggr_prio_tbl = replicate 8 \<lparr>ampdu_user = 0, ampdu_ap = 0, aggr_amsdu = 0\<rparr>,
     add_ba_param = \<lparr>tx_win_size = 16, rx_win_size = 32, ba_timeout = 0, tx_amsdu = True, rx_amsdu = True\<rparr>,
     user_rxwinsize = 32, wmm_enabled = True, priv_is_11n_enabled = True, config_bands = 8,
     has_ht_cap = True, disable_11n = False, priv_max_amsdu = 4096, wapi_enabled = False,
     wapi_key_on = False, is_data_rate_auto = True, bitmap_rates = replicate 18 0, txaggrctrl = True,
     priv_snr = 0, priv_nf = 0, priv_tx_pause = False, port_ctrl_mode = False, port_open = True,
     tdls_pending_txq = [], bypass_txq = [], num_drop_pkts = 0,
     wmm = \<lparr>tid_tbl_ptr = replicate 8 \<lparr>ra_list = [], ra_list_curr = Ra_null\<rparr>, packets_out = replicate 8 0,
       pkts_queued = replicate 8 0, pkts_paused = replicate 8 0,
       ac_status = replicate 4 \<lparr>ac_disabled = False, flow_required = False, flow_created = False\<rparr>,
       ac_down_graded_vals = [WMM_AC_BK, WMM_AC_BE, WMM_AC_VI, WMM_AC_VO], queue_priority = [3, 2, 1, 0],
       drv_pkt_delay_max = 510, user_pri_pkt_tx_ctrl = replicate 8 0, tx_pkts_queued = \<lparr>scalar_value = 0, scalar_lock = 0, scalar_flags = 0\<rparr>,
       highest_queued_prio = \<lparr>scalar_value = 0, scalar_lock = 0, scalar_flags = 0\<rparr>\<rparr>\<rparr>"

lemmas sample_simps = sample_entry_def sample_buffer_def

lemma sample_win_ok:
  "1 < length slots \<Longrightarrow> length slots \<le> 1023 \<Longrightarrow> 0 \<le> start \<Longrightarrow> start \<le> 4096 \<Longrightarrow>
     win_ok (sample_entry start slots)"
  by (simp add: win_ok_def sample_entry_def)

lemma sample_rx_inv:
  "1 < length slots \<Longrightarrow> length slots \<le> 1023 \<Longrightarrow> 0 \<le> start \<Longrightarrow> start \<le> 4096 \<Longrightarrow>
     slots ! 0 = None \<Longrightarrow> slots_seq start slots \<Longrightarrow> rx_inv (sample_entry start slots)"
  by (simp add: rx_inv_def win_ok_def sample_entry_def)

subsection \<open>Safety, invariant, conservation\<close>

text \<open>C1. A received packet never makes the reorder code leave the slot array, and the entry stays
  consistent: from an entry whose invariant holds, with any 12-bit sequence number (data, A-MSDU or
  BAR, any phase: flush pending, window start not yet trusted, no-drop mode), the step returns and
  the invariant holds again: one slot per window position, window start at most 4096, slot 0 empty,
  every buffered packet in the slot of its sequence number, nothing buffered before the window
  start is trusted.\<close>

theorem rxreorder_entry_safe:
  assumes "rx_inv e" "0 \<le> seq" "seq < 4096" "slot_seq_ok seq (Some pl)"
  shows "\<exists>ret cs e'. rxreorder_entry ad p seq pt pl e = Some (ret, cs, e') \<and> rx_inv e'
    \<and> rr_tid e' = rr_tid e \<and> rr_ta e' = rr_ta e"
  using entry_props [OF assms, of ad p pt] by blast

abbreviation sample_slots :: "payload option list" where
  "sample_slots \<equiv> [None, None, Some (Rx_buffer (sample_buffer 1 102 5)), None,
     Some (Rx_buffer (sample_buffer 2 104 7))]"

lemma sample_slots_inv: "rx_inv (sample_entry 100 sample_slots)"
  by (rule sample_rx_inv) (simp_all add: sample_buffer_def)

lemma rxreorder_entry_safe_witness:
  "\<exists>ret cs e'. rxreorder_entry sample_adapter sample_private 101 0 (Rx_buffer (sample_buffer 3 101 6)) (sample_entry 100 sample_slots)
     = Some (ret, cs, e') \<and> rx_inv e' \<and> rr_tid e' = rr_tid (sample_entry 100 sample_slots)
     \<and> rr_ta e' = rr_ta (sample_entry 100 sample_slots)"
  by (rule rxreorder_entry_safe [OF sample_slots_inv]) (simp_all add: sample_buffer_def)

text \<open>C3. No buffer is lost or delivered twice: the buffers a packet step gives away (to the next stage,
  or freed by the replay check) together with those it still holds are exactly those held before
  plus the new one; a packet refused with FAILURE is left to the caller, and a BAR adds none.\<close>

theorem rxreorder_entry_conserves:
  assumes "rx_inv e" "0 \<le> seq" "seq < 4096" "slot_seq_ok seq (Some pl)"
    and "rxreorder_entry ad p seq pt pl e = Some (ret, cs, e')"
  shows "mset (handed cs) + mset (buffered (rx_reorder_ptr e'))
    = mset (buffered (rx_reorder_ptr e))
      + (if ret = MLAN_STATUS_SUCCESS \<and> pt \<noteq> PKT_TYPE_BAR then mset (payload_tokens pl) else {#})"
  using entry_props [OF assms(1-4), of ad p pt] assms(5)
  by (auto simp: conserved_def accepted_tokens_def)

lemma rxreorder_entry_conserves_witness:
  "\<exists>ret cs e'. rxreorder_entry sample_adapter sample_private 108 0 (Rx_buffer (sample_buffer 3 108 6))
       (sample_entry 100 sample_slots) = Some (ret, cs, e')
     \<and> mset (handed cs) + mset (buffered (rx_reorder_ptr e'))
       = mset (buffered sample_slots) + (if ret = MLAN_STATUS_SUCCESS \<and> (0::nat) \<noteq> PKT_TYPE_BAR
           then mset (payload_tokens (Rx_buffer (sample_buffer 3 108 6))) else {#})"
proof -
  have "rxreorder_entry sample_adapter sample_private 108 0 (Rx_buffer (sample_buffer 3 108 6))
      (sample_entry 100 sample_slots) \<noteq> None" by code_simp
  then obtain ret cs e' where r: "rxreorder_entry sample_adapter sample_private 108 0
      (Rx_buffer (sample_buffer 3 108 6)) (sample_entry 100 sample_slots) = Some (ret, cs, e')" by auto
  from rxreorder_entry_conserves [OF sample_slots_inv _ _ _ r] r show ?thesis
    by (simp add: sample_entry_def sample_buffer_def)
qed

subsection \<open>Refinement and order\<close>

text \<open>The classification of old packets is proved with the window arithmetic in
  \<^verbatim>\<open>Rx_Window\<close>.\<close>

lemma rxreorder_is_old_iff_witness:
  "rxreorder_is_old 4090 5 \<longleftrightarrow> (5 - 4090) mod (4096::int) \<ge> 2048"
  by (rule rxreorder_is_old_iff) simp_all

text \<open>C2. The window phase refines its specification: for every entry with a well-formed window that is
  not in the no-drop mode and every 12-bit sequence number, the step does not leave the slot array
  and returns exactly the status, hands over exactly the buffers (in that order), and leaves exactly
  the window start and slots that the specification says; the flush timer runs afterwards.\<close>

theorem rxreorder_window_refines:
  assumes "win_ok e" "\<not> force_no_drop e" "0 \<le> seq" "seq < 4096"
    and "reorder_spec (length (rx_reorder_ptr e)) (rr_start_win e) (rx_reorder_ptr e) seq
          (pt = PKT_TYPE_BAR) pl = (ret, toks, start', slots')"
  shows "\<exists>cs h l. rxreorder_window ad p seq pt pl e
      = Some (ret, cs, (moved e slots' start' h l)\<lparr>force_no_drop := False, timer_is_set := True\<rparr>)
    \<and> handed cs = toks"
  using assms by (rule rxreorder_window_closed)

text \<open>C25. In-order delivery, for an entry that is not in no-drop mode (in that mode the window is first flushed and its start
  set to the number of the packet) and for 12-bit sequence numbers, each buffered packet in the slot of its own number and the
  packet handed in with the number its descriptor holds.  In one step the packets handed over and, after them, the packets
  that stay buffered are strictly ordered by their distance from the window start.  Unless the slide crosses the wrap of
  the sequence space, everything handed over lies before the new window start, so no later packet can be overtaken.\<close>

theorem rxreorder_in_order:
  assumes "win_ok e" "slots_seq (rr_start_win e) (rx_reorder_ptr e)" "\<not> force_no_drop e"
    and "0 \<le> seq" "seq < 4096" "slot_seq_ok seq (Some pl)"
    and "rxreorder_window ad p seq pt pl e = Some (ret, cs, e')"
  shows "sorted_wrt (<) (map (tok_off (rr_start_win e)) (handed cs @ buffered (rx_reorder_ptr e')))
    \<and> (pt \<noteq> PKT_TYPE_BAR \<and> (seq - rr_start_win e) mod 4096 < rr_win_size e
       \<or> rr_start_win e + (seq - rr_start_win e) mod 4096 < 4096
       \<longrightarrow> (\<forall>t \<in> set (handed cs).
             tok_off (rr_start_win e) t < (rr_start_win e' - rr_start_win e) mod 4096))"
proof -
  note w = win_okD [OF assms(1)]
  obtain ret0 toks w' s' where spec: "reorder_spec (length (rx_reorder_ptr e)) (rr_start_win e)
      (rx_reorder_ptr e) seq (pt = PKT_TYPE_BAR) pl = (ret0, toks, w', s')" by (metis prod_cases4)
  from rxreorder_window_closed [OF assms(1,3,4,5) spec, of ad p]
  have r: "handed cs = toks" "rr_start_win e' = w'" "rx_reorder_ptr e' = s'"
    using assms(7) by auto
  show ?thesis
  proof (cases "(seq - rr_start_win e) mod 4096 < 2048")
    case True
    then have "accept_spec (length (rx_reorder_ptr e)) (rr_start_win e) (rx_reorder_ptr e) seq
        (pt = PKT_TYPE_BAR) pl = (ret0, toks, w', s')" using spec by (simp add: reorder_spec_def)
    from accept_spec_order [OF this w(6,7,4,5) assms(2,6) True] w(8) show ?thesis
      unfolding r by auto
  next
    case False
    then have "toks = []" "w' = rr_start_win e" "s' = rx_reorder_ptr e"
      using spec by (auto simp: reorder_spec_def)
    then show ?thesis
      using buffered_offsets [OF assms(2), of "rr_start_win e" 0] w r by simp
  qed
qed


lemma rxreorder_in_order_witness:
  "\<exists>ret cs e'. rxreorder_window sample_adapter sample_private 108 0 (Rx_buffer (sample_buffer 3 108 6))
       (sample_entry 100 sample_slots) = Some (ret, cs, e')
     \<and> sorted_wrt (<) (map (tok_off 100) (handed cs @ buffered (rx_reorder_ptr e')))
     \<and> handed cs \<noteq> []"
proof -
  have "case rxreorder_window sample_adapter sample_private 108 0 (Rx_buffer (sample_buffer 3 108 6))
      (sample_entry 100 sample_slots) of Some (ret, cs, e') \<Rightarrow> length (handed cs) = 2 | None \<Rightarrow> False"
    by code_simp
  then obtain ret cs e' where r: "rxreorder_window sample_adapter sample_private 108 0
      (Rx_buffer (sample_buffer 3 108 6)) (sample_entry 100 sample_slots) = Some (ret, cs, e')"
    and l: "length (handed cs) = 2"
    by (auto split: option.splits)
  have i: "win_ok (sample_entry 100 sample_slots)"
    "slots_seq (rr_start_win (sample_entry 100 sample_slots)) (rx_reorder_ptr (sample_entry 100 sample_slots))"
    using sample_slots_inv by (auto simp: rx_inv_def)
  from rxreorder_in_order [OF i _ _ _ _ r] l r show ?thesis
    by (auto simp: sample_entry_def sample_buffer_def)
qed

lemma rxreorder_window_refines_witness:
  "\<exists>cs h l. rxreorder_window sample_adapter sample_private 100 0 (Rx_buffer (sample_buffer 3 100 6))
       (sample_entry 100 sample_slots)
     = Some (MLAN_STATUS_SUCCESS, cs,
         (moved (sample_entry 100 sample_slots)
            [None, Some (Rx_buffer (sample_buffer 1 102 5)), None, Some (Rx_buffer (sample_buffer 2 104 7)), None]
            101 h l)\<lparr>force_no_drop := False, timer_is_set := True\<rparr>)
     \<and> handed cs = [token_of (sample_buffer 3 100 6)]"
proof -
  have s: "reorder_spec (length (rx_reorder_ptr (sample_entry 100 sample_slots)))
       (rr_start_win (sample_entry 100 sample_slots)) (rx_reorder_ptr (sample_entry 100 sample_slots))
       100 (0 = PKT_TYPE_BAR) (Rx_buffer (sample_buffer 3 100 6))
     = (MLAN_STATUS_SUCCESS, [token_of (sample_buffer 3 100 6)], 101,
        [None, Some (Rx_buffer (sample_buffer 1 102 5)), None, Some (Rx_buffer (sample_buffer 2 104 7)), None])"
    by code_simp
  have ok: "win_ok (sample_entry 100 sample_slots)" by (rule sample_win_ok) simp_all
  show ?thesis
    by (rule rxreorder_window_refines [OF ok _ _ _ s]) (simp_all add: sample_entry_def)
qed

lemma replicate_last: "(replicate (Suc n) a)[n := x] = replicate n a @ [x]"
  by (induction n) simp_all

text \<open>When the slide crosses the wrap of the sequence space the whole window is handed over, also the
  packets that lie inside the new window: the new start is smaller as a number, so the code takes
  the branch that flushes every slot.  Only the new packet stays buffered, and packets of the new
  window that are still missing will be delivered after packets that follow them.\<close>

theorem rxreorder_wrap_flushes_window:
  assumes "win_ok e" "\<not> force_no_drop e" "0 \<le> seq" "seq < 4096" "pt \<noteq> PKT_TYPE_BAR"
    and "rr_win_size e \<le> (seq - rr_start_win e) mod 4096" "(seq - rr_start_win e) mod 4096 < 2048"
    and "4096 \<le> rr_start_win e + (seq - rr_start_win e) mod 4096 - rr_win_size e + 1"
  shows "\<exists>cs e'. rxreorder_window ad p seq pt pl e = Some (MLAN_STATUS_SUCCESS, cs, e')
    \<and> handed cs = buffered (rx_reorder_ptr e)
    \<and> rr_start_win e' = (seq - rr_win_size e + 1) mod 4096
    \<and> rx_reorder_ptr e' = replicate (nat (rr_win_size e) - 1) None @ [Some pl]"
proof -
  note w = win_okD [OF assms(1)]
  let ?s = "rx_reorder_ptr e" and ?W = "length (rx_reorder_ptr e)"
  define k where "k = nat ((seq - rr_start_win e) mod 4096)"
  have k: "int k = (seq - rr_start_win e) mod 4096" by (simp add: k_def)
  have b: "?W \<le> k" "k < 4096" "4096 \<le> rr_start_win e + int k - int ?W + 1"
    using assms(6-8) w(8) k by auto
  have W0: "0 < ?W" using w(6) by linarith
  have n: "slide_count ?W (rr_start_win e) k = ?W"
    by (rule slide_start_wrap [OF b(1) W0 w(5) b(3,2)])
  have W: "?W = Suc (?W - 1)" using w(6) by simp
  have last: "(replicate ?W None)[?W - 1 := Some pl] = replicate (?W - 1) None @ [Some pl]"
    by (rule replicate_last [of "?W - 1" None "Some pl", folded W])
  have run0: "run (replicate (?W - 1) None @ [Some pl]) = 0"
    using w(6) by (cases "?W - 1") (simp_all add: run_def)
  have z: "(replicate ?W (None :: payload option)) ! (?W - 1) = None" using w(6) by simp
  have m: "min k (?W - 1) = ?W - 1" using b(1) by simp
  have "(slide_start ?W (rr_start_win e) k + 0) mod 4096 = (seq - rr_win_size e + 1) mod 4096"
  proof -
    have "slide_start ?W (rr_start_win e) k = (rr_start_win e + (int k - rr_win_size e + 1)) mod 4096"
      using b(1) w(8) by (simp add: slide_start_def of_nat_diff add.commute)
    also have "\<dots> = (seq - rr_win_size e + 1) mod 4096"
      unfolding k using mod_add_right_eq [of "rr_start_win e - rr_win_size e + 1" "seq - rr_start_win e" 4096]
      by (simp add: algebra_simps)
    finally show ?thesis by simp
  qed
  then have "reorder_spec ?W (rr_start_win e) ?s seq (pt = PKT_TYPE_BAR) pl
     = (MLAN_STATUS_SUCCESS, buffered ?s, (seq - rr_win_size e + 1) mod 4096,
        replicate (?W - 1) None @ [Some pl])"
    using assms(5,7) m n last run0 z w(6) k
    by (simp add: reorder_spec_def accept_spec_def Let_def k_def [symmetric] rotate_out_full)
  from rxreorder_window_closed [OF assms(1-4) this, of ad p] w(3) show ?thesis by auto
qed


abbreviation wrap_slots :: "payload option list" where
  "wrap_slots \<equiv> [None, None, Some (Rx_buffer (sample_buffer 1 4092 5)), None, None, None, None,
     Some (Rx_buffer (sample_buffer 2 1 7))]"

text \<open>Window 4090..1 of eight, packets 4092 and 1 buffered; packet 7 arrives, the new window is 0..7, and
  packet 1 has been handed over although packet 0 is still awaited in that window.\<close>

lemma rxreorder_wrap_flushes_window_witness:
  "\<exists>cs e'. rxreorder_window sample_adapter sample_private 7 0 (Rx_buffer (sample_buffer 3 7 8))
        (sample_entry 4090 wrap_slots) = Some (MLAN_STATUS_SUCCESS, cs, e')
    \<and> map tok_seq (handed cs) = [4092, 1] \<and> rr_start_win e' = 0
    \<and> rx_reorder_ptr e' = replicate 7 None @ [Some (Rx_buffer (sample_buffer 3 7 8))]"
proof -
  have ok: "win_ok (sample_entry 4090 wrap_slots)" by (rule sample_win_ok) simp_all
  obtain cs e' where r: "rxreorder_window sample_adapter sample_private 7 0 (Rx_buffer (sample_buffer 3 7 8))
        (sample_entry 4090 wrap_slots) = Some (MLAN_STATUS_SUCCESS, cs, e')"
      "handed cs = buffered (rx_reorder_ptr (sample_entry 4090 wrap_slots))"
      "rr_start_win e' = (7 - rr_win_size (sample_entry 4090 wrap_slots) + 1) mod 4096"
      "rx_reorder_ptr e' = replicate (nat (rr_win_size (sample_entry 4090 wrap_slots)) - 1) None
         @ [Some (Rx_buffer (sample_buffer 3 7 8))]"
    using rxreorder_wrap_flushes_window [OF ok, of 7 0 sample_adapter sample_private "Rx_buffer (sample_buffer 3 7 8)"]
    by (auto simp: sample_entry_def)
  have "map tok_seq (buffered wrap_slots) = [4092, 1]" by code_simp
  moreover have "rr_win_size (sample_entry 4090 wrap_slots) = 8"
    "rx_reorder_ptr (sample_entry 4090 wrap_slots) = wrap_slots" by (simp_all add: sample_entry_def)
  ultimately show ?thesis using r by auto
qed

subsection \<open>Replay protection\<close>

text \<open>The 48-bit packet number, and what of a run of calls is passed on rather than freed.\<close>

definition pn :: "t_u32 \<Rightarrow> t_u16 \<Rightarrow> int" where
  "pn hi lo = uint hi * 65536 + uint lo"

definition tok_pn :: "token \<Rightarrow> int" where
  "tok_pn t = pn (hi_rx_count32 (snd t)) (lo_rx_count16 (snd t))"

fun passed :: "moal_call list \<Rightarrow> token list" where
  "passed [] = []"
| "passed (Call_wlan_free_mlan_buffer b # cs) = passed cs"
| "passed (c # cs) = call_tokens c @ passed cs"

fun dispatch_run :: "mlan_adapter \<Rightarrow> mlan_private \<Rightarrow> mlan_buffer list \<Rightarrow> RxReorderTbl
    \<Rightarrow> moal_call list \<times> RxReorderTbl" where
  "dispatch_run ad p [] e = ([], e)"
| "dispatch_run ad p (b # bs) e =
     (let (cs, e1) = dispatch_on ad p (Rx_buffer b) e; (ds, e2) = dispatch_run ad p bs e1
      in (cs @ ds, e2))"

text \<open>The buffers that are freed.\<close>

fun freed :: "moal_call list \<Rightarrow> mlan_buffer list" where
  "freed [] = []"
| "freed (Call_wlan_free_mlan_buffer b # cs) = b # freed cs"
| "freed (c # cs) = freed cs"

text \<open>What a replay filter promises: of a run of packets those above the highest number so far are fresh, the others are
  stale.\<close>

fun fresh_pkts :: "int \<Rightarrow> mlan_buffer list \<Rightarrow> mlan_buffer list" where
  "fresh_pkts n [] = []"
| "fresh_pkts n (b # bs) =
     (if n < tok_pn (token_of b) then b # fresh_pkts (tok_pn (token_of b)) bs else fresh_pkts n bs)"

fun stale_pkts :: "int \<Rightarrow> mlan_buffer list \<Rightarrow> mlan_buffer list" where
  "stale_pkts n [] = []"
| "stale_pkts n (b # bs) =
     (if n < tok_pn (token_of b) then stale_pkts (tok_pn (token_of b)) bs else b # stale_pkts n bs)"

lemma fresh_above: "sorted_wrt (<) (n # map (tok_pn \<circ> token_of) (fresh_pkts n bs))"
  by (induction bs arbitrary: n) force+

lemma freed_append [simp]: "freed (cs @ ds) = freed cs @ freed ds"
  by (induction cs rule: freed.induct) simp_all

lemma freed_role: "freed (dispatch_to_role p b) = []"
  by (simp add: dispatch_to_role_def wlan_11n_dispatch_amsdu_pkt_def Let_def)

lemma passed_append [simp]: "passed (cs @ ds) = passed cs @ passed ds"
  by (induction cs rule: passed.induct) simp_all

lemma passed_role: "passed (dispatch_to_role p b) = [token_of b]"
  by (simp add: dispatch_to_role_def wlan_11n_dispatch_amsdu_pkt_def Let_def token_of_def)

lemma pn_not_fresh_iff:
  assumes "hi_curr_rx_count32 e \<noteq> 0xffffffff"
  shows "pn_not_fresh d e \<longleftrightarrow>
     pn (hi_rx_count32 d) (lo_rx_count16 d) \<le> pn (hi_curr_rx_count32 e) (lo_curr_rx_count16 e)"
proof -
  define a where "a = uint (hi_rx_count32 d)"
  define b where "b = uint (hi_curr_rx_count32 e)"
  define x where "x = uint (lo_rx_count16 d)"
  define y where "y = uint (lo_curr_rx_count16 e)"
  have "0 \<le> x" "x < 65536" "0 \<le> y" "y < 65536" by (simp_all add: x_def y_def)
  then have "(a = b \<and> x \<le> y \<or> a < b) \<longleftrightarrow> a * 65536 + x \<le> b * 65536 + y" by linarith
  then show ?thesis
    using assms by (simp add: pn_not_fresh_def pn_def a_def b_def x_def y_def word_le_def word_less_def
        word_uint_eq_iff [of "hi_rx_count32 d" "hi_curr_rx_count32 e"])
qed


lemma dispatch_on_replay:
  assumes "ISSUPP_RSN_REPLAY_DETECTION (fw_cap_info ad)"
    and "rxpd_flags (rxpd b) AND RXPD_FLAG_PN_CHECK_SUPPORT \<noteq> 0" "hi_curr_rx_count32 e \<noteq> 0xffffffff"
  shows "(let (cs, e') = dispatch_on ad p (Rx_buffer b) e in
     if tok_pn (token_of b) \<le> pn (hi_curr_rx_count32 e) (lo_curr_rx_count16 e)
     then cs = [Call_wlan_free_mlan_buffer b] \<and> e' = e
     else passed cs = [token_of b] \<and> freed cs = [] \<and> hi_curr_rx_count32 e' = hi_rx_count32 (rxpd b)
       \<and> lo_curr_rx_count16 e' = lo_rx_count16 (rxpd b))"
proof (cases "pn_not_fresh (rxpd b) e")
  case True
  then show ?thesis
    using assms pn_not_fresh_iff [OF assms(3), of "rxpd b"]
    by (simp add: dispatch_on_def wlan_11n_dispatch_pkt_def replay_cases tok_pn_def token_of_def)
next
  case False
  then show ?thesis
    using assms pn_not_fresh_iff [OF assms(3), of "rxpd b"]
    by (simp add: dispatch_on_def wlan_11n_dispatch_pkt_def replay_cases tok_pn_def token_of_def
        passed_role [unfolded token_of_def] freed_role)
qed

lemma dispatch_run_split:
  assumes "ISSUPP_RSN_REPLAY_DETECTION (fw_cap_info ad)"
    and "\<forall>b \<in> set bs. rxpd_flags (rxpd b) AND RXPD_FLAG_PN_CHECK_SUPPORT \<noteq> 0
           \<and> hi_rx_count32 (rxpd b) \<noteq> 0xffffffff"
    and "hi_curr_rx_count32 e \<noteq> 0xffffffff"
    and "dispatch_run ad p bs e = (cs, e')"
  shows "passed cs = map token_of (fresh_pkts (pn (hi_curr_rx_count32 e) (lo_curr_rx_count16 e)) bs) \<and> freed cs = stale_pkts (pn (hi_curr_rx_count32 e) (lo_curr_rx_count16 e)) bs
    \<and> pn (hi_curr_rx_count32 e') (lo_curr_rx_count16 e') = last (pn (hi_curr_rx_count32 e) (lo_curr_rx_count16 e) # map tok_pn (passed cs))"
  using assms(2-4)
proof (induction bs arbitrary: e cs)
  case Nil
  then show ?case by simp
next
  case (Cons b bs)
  obtain ds e1 where d: "dispatch_on ad p (Rx_buffer b) e = (ds, e1)" by fastforce
  obtain es where r: "dispatch_run ad p bs e1 = (es, e')" "cs = ds @ es"
    using Cons.prems(3) d by (auto split: prod.splits)
  note D = dispatch_on_replay [OF assms(1) _ Cons.prems(2), of b p, unfolded d Let_def prod.case]
  show ?case
  proof (cases "tok_pn (token_of b) \<le> pn (hi_curr_rx_count32 e) (lo_curr_rx_count16 e)")
    case True
    then have "ds = [Call_wlan_free_mlan_buffer b]" "e1 = e" using D Cons.prems(1) by auto
    then show ?thesis using Cons.IH [OF _ Cons.prems(2), of es] Cons.prems(1) r True by auto
  next
    case False
    then have n: "passed ds = [token_of b]" "freed ds = []" "hi_curr_rx_count32 e1 = hi_rx_count32 (rxpd b)"
      "lo_curr_rx_count16 e1 = lo_rx_count16 (rxpd b)" using D Cons.prems(1) by auto
    then have "pn (hi_curr_rx_count32 e1) (lo_curr_rx_count16 e1) = tok_pn (token_of b)"
      by (simp add: tok_pn_def token_of_def)
    moreover have "hi_curr_rx_count32 e1 \<noteq> 0xffffffff" using n(3) Cons.prems(1) by simp
    ultimately show ?thesis using Cons.IH [OF _ _ r(1)] Cons.prems(1) r(2) n(1,2) False by auto
  qed
qed

text \<open>C24. Replay protection.  The firmware supports replay detection, all packets of a run carry the flag for the check, and
  neither the counter of the entry nor a packet has the high part 0xffffffff that stands for a counter that is not
  initialised.  Then, however long the run and in whatever order the packets come, exactly those are passed on, in order,
  whose 48-bit packet number is above the counter and above that of every packet passed on before, so that the numbers
  passed on increase strictly; every other packet, a repetition or an older one, is freed; and the counter ends at the
  number of the last packet passed on.\<close>

theorem replay_protected:
  assumes "ISSUPP_RSN_REPLAY_DETECTION (fw_cap_info ad)"
    and "\<forall>b \<in> set bs. rxpd_flags (rxpd b) AND RXPD_FLAG_PN_CHECK_SUPPORT \<noteq> 0
           \<and> hi_rx_count32 (rxpd b) \<noteq> 0xffffffff"
    and "hi_curr_rx_count32 e \<noteq> 0xffffffff"
  shows "\<exists>cs e'. dispatch_run ad p bs e = (cs, e')
    \<and> passed cs = map token_of (fresh_pkts (pn (hi_curr_rx_count32 e) (lo_curr_rx_count16 e)) bs)
    \<and> freed cs = stale_pkts (pn (hi_curr_rx_count32 e) (lo_curr_rx_count16 e)) bs
    \<and> sorted_wrt (<) (pn (hi_curr_rx_count32 e) (lo_curr_rx_count16 e) # map tok_pn (passed cs))
    \<and> pn (hi_curr_rx_count32 e') (lo_curr_rx_count16 e')
        = last (pn (hi_curr_rx_count32 e) (lo_curr_rx_count16 e) # map tok_pn (passed cs))"
proof -
  let ?n = "pn (hi_curr_rx_count32 e) (lo_curr_rx_count16 e)"
  obtain cs e' where r: "dispatch_run ad p bs e = (cs, e')" by fastforce
  from dispatch_run_split [OF assms this] fresh_above [of ?n bs] r show ?thesis by auto
qed

text \<open>Of four packets with the numbers 5, 5, 9 and 7 the first and the third are passed on and the others freed.\<close>

lemma replay_protected_witness:
  "\<exists>cs e'. dispatch_run sample_adapter sample_private
       [sample_buffer 1 100 5, sample_buffer 2 101 5, sample_buffer 3 102 9, sample_buffer 4 103 7]
       (sample_entry 100 sample_slots) = (cs, e')
   \<and> passed cs = map token_of [sample_buffer 1 100 5, sample_buffer 3 102 9]
   \<and> freed cs = [sample_buffer 2 101 5, sample_buffer 4 103 7]
   \<and> sorted_wrt (<) (map tok_pn (passed cs))"
proof -
  let ?bs = "[sample_buffer 1 100 5, sample_buffer 2 101 5, sample_buffer 3 102 9, sample_buffer 4 103 7]"
  let ?e = "sample_entry 100 sample_slots"
  have "fresh_pkts (pn (hi_curr_rx_count32 ?e) (lo_curr_rx_count16 ?e)) ?bs = [sample_buffer 1 100 5, sample_buffer 3 102 9]"
    "stale_pkts (pn (hi_curr_rx_count32 ?e) (lo_curr_rx_count16 ?e)) ?bs = [sample_buffer 2 101 5, sample_buffer 4 103 7]"
    by (simp_all add: sample_buffer_def sample_entry_def tok_pn_def token_of_def pn_def)
  moreover have "ISSUPP_RSN_REPLAY_DETECTION (fw_cap_info sample_adapter)" by code_simp
  ultimately show ?thesis
    using replay_protected [of sample_adapter ?bs ?e sample_private]
    by (auto simp: sample_buffer_def sample_entry_def)
qed

end
