(* ===== verification/Rx_Table.thy ===== *)
theory Rx_Table
  imports Rx_Window
begin

text \<open>
  The receive reorder table of an interface (\<^verbatim>\<open>mlan_11n_rxreorder.c\<close>): lookup by TID and
  transmitter, the packet entry point, creation and deletion of entries, the ADDBA responder, the
  RXBA_SYNC event, the flush timer and the no-drop flag.  A pointer to an entry is its position in
  the list.  \<open>None\<close> is an access outside an array; the memory allocations are parameters
  (\<open>True\<close>: \<^verbatim>\<open>moal_malloc\<close> succeeded).
\<close>

subsection \<open>Lookup\<close>

definition wlan_11n_get_rxreorder_tbl :: "mlan_private \<Rightarrow> int \<Rightarrow> mac \<Rightarrow> nat option" where
  "wlan_11n_get_rxreorder_tbl p tid ta =
     find_index (\<lambda>e. rr_ta e = ta \<and> rr_tid e = tid) (rx_reorder_tbl_ptr p)"

definition rx_lookup :: "mlan_private \<Rightarrow> int \<times> mac \<Rightarrow> nat option" where
  "rx_lookup p k = wlan_11n_get_rxreorder_tbl p (fst k) (snd k)"

definition rx_key :: "RxReorderTbl \<Rightarrow> int \<times> mac" where
  "rx_key e = (rr_tid e, rr_ta e)"

interpretation rxt: keyed_table rx_reorder_tbl_ptr rx_lookup rx_key
proof (unfold_locales, goal_cases)
  case (1 s k i)
  then show ?case
    using find_index_SomeD by (fastforce simp: rx_lookup_def wlan_11n_get_rxreorder_tbl_def rx_key_def)
next
  case (2 s k)
  then show ?case
    by (auto simp: rx_lookup_def wlan_11n_get_rxreorder_tbl_def find_index_None rx_key_def)
qed

definition put_rx_entry :: "nat \<Rightarrow> RxReorderTbl \<Rightarrow> mlan_ctx \<Rightarrow> mlan_ctx" where
  "put_rx_entry i e c =
     set_priv ((priv c)\<lparr>rx_reorder_tbl_ptr := (rx_reorder_tbl_ptr (priv c))[i := e]\<rparr>) c"

subsection \<open>A received packet\<close>

definition mlan_11n_rxreorder_pkt :: "int \<Rightarrow> int \<Rightarrow> mac \<Rightarrow> nat \<Rightarrow> payload \<Rightarrow> mlan_ctx
    \<Rightarrow> (mlan_status \<times> mlan_ctx) option" where
  "mlan_11n_rxreorder_pkt seq_num tid ta pkt_type payload c =
     (case wlan_11n_get_rxreorder_tbl (priv c) tid ta of
        None \<Rightarrow>
          Some (MLAN_STATUS_SUCCESS,
            if pkt_type \<noteq> PKT_TYPE_BAR
            then emit (fst (wlan_11n_dispatch_pkt (adapter c) (priv c) payload None)) c else c)
      | Some i \<Rightarrow>
          (let e = rx_reorder_tbl_ptr (priv c) ! i
           in if rr_win_size e \<le> 1
              then Some (MLAN_STATUS_SUCCESS,
                if pkt_type \<noteq> PKT_TYPE_BAR
                then (let (cs, e') = dispatch_on (adapter c) (priv c) payload e
                      in emit cs (put_rx_entry i e' c))
                else c)
              else do {
                (ret, cs, e') \<leftarrow> rxreorder_entry (adapter c) (priv c) seq_num pkt_type payload e;
                Some (ret, emit cs (put_rx_entry i e' c)) }))"

subsection \<open>Deleting entries\<close>

definition wlan_11n_delete_rxreorder_tbl_entry :: "nat \<Rightarrow> mlan_ctx \<Rightarrow> mlan_ctx option" where
  "wlan_11n_delete_rxreorder_tbl_entry i c = do {
     let c1 = mlan_block_rx_process True c;
     let e = rx_reorder_tbl_ptr (priv c1) ! i;
     (cs, e') \<leftarrow> wlan_11n_dispatch_pkt_until_start_win (adapter c1) (priv c1) e
                  ((rr_start_win e + rr_win_size e) AND 4095);
     let c2 = emit (cs @ (if rr_timer e' then (if timer_is_set e' then [Call_moal_stop_timer] else [])
                                              @ [Call_moal_free_timer] else [])) c1;
     let c3 = set_priv ((priv c2)\<lparr>rx_reorder_tbl_ptr := remove_nth i (rx_reorder_tbl_ptr (priv c2))\<rparr>) c2;
     Some (mlan_block_rx_process False c3) }"

text \<open>The loop that deletes the head until the list is empty, by the number of entries left.\<close>

fun cleanup_entries :: "nat \<Rightarrow> mlan_ctx \<Rightarrow> mlan_ctx option" where
  "cleanup_entries 0 c = (if rx_reorder_tbl_ptr (priv c) = [] then Some c else None)"
| "cleanup_entries (Suc n) c =
     (if rx_reorder_tbl_ptr (priv c) = [] then Some c
      else Option.bind (wlan_11n_delete_rxreorder_tbl_entry 0 c) (cleanup_entries n))"

definition wlan_11n_cleanup_reorder_tbl :: "mlan_ctx \<Rightarrow> mlan_ctx option" where
  "wlan_11n_cleanup_reorder_tbl c = do {
     c1 \<leftarrow> cleanup_entries (length (rx_reorder_tbl_ptr (priv c))) c;
     Some (set_priv ((priv c1)\<lparr>rx_reorder_tbl_ptr := [],
                               rx_seq := replicate MAX_NUM_TID 0xffff\<rparr>) c1) }"

fun cleanup_tids :: "int list \<Rightarrow> mac \<Rightarrow> mlan_ctx \<Rightarrow> mlan_ctx option" where
  "cleanup_tids [] ta c = Some c"
| "cleanup_tids (i # is) ta c = do {
     c1 \<leftarrow> (case wlan_11n_get_rxreorder_tbl (priv c) i ta of
              Some k \<Rightarrow> wlan_11n_delete_rxreorder_tbl_entry k c
            | None \<Rightarrow> Some c);
     cleanup_tids is ta c1 }"

definition wlan_cleanup_reorder_tbl :: "mac \<Rightarrow> mlan_ctx \<Rightarrow> mlan_ctx option" where
  "wlan_cleanup_reorder_tbl ta c = cleanup_tids (map int [0..<MAX_NUM_TID]) ta c"

subsection \<open>Creating an entry\<close>

definition rx_last_seq :: "mlan_private \<Rightarrow> mac \<Rightarrow> int \<Rightarrow> t_u16 option" where
  \<comment> \<open>the last sequence number seen before the BA setup\<close>
  "rx_last_seq p ta tid =
     (if queuing_ra_based p
      then (if bss_role p = MLAN_BSS_ROLE_UAP
            then (case wlan_get_station_entry p ta of
                    Some s \<Rightarrow> arr_get (sta_rx_seq (sta_list p ! s)) tid
                  | None \<Rightarrow> Some 0)
            else Some 0)
      else (case wlan_get_station_entry p ta of
              Some s \<Rightarrow> arr_get (sta_rx_seq (sta_list p ! s)) tid
            | None \<Rightarrow> arr_get (rx_seq p) tid))"

definition new_rx_entry :: "mac \<Rightarrow> int \<Rightarrow> int \<Rightarrow> int \<Rightarrow> t_u16 \<Rightarrow> RxReorderTbl" where
  "new_rx_entry ta tid win_size seq_num last_seq = \<lparr>rr_tid = tid, rr_ta = ta, rr_start_win = seq_num,
     rr_last_seq = uint last_seq, rr_win_size = win_size,
     rx_reorder_ptr = replicate (nat win_size) None, rr_timer = True, timer_is_set = False,
     rr_ba_status = BA_STREAM_SETUP_INPROGRESS, rr_amsdu = False, force_no_drop = False,
     check_start_win = True, pkt_count = 0, rr_flush_data = False,
     hi_curr_rx_count32 = 0xffffffff, lo_curr_rx_count16 = 0\<rparr>"

definition wlan_11n_create_rxreorder_tbl :: "bool \<Rightarrow> bool \<Rightarrow> mac \<Rightarrow> int \<Rightarrow> int \<Rightarrow> int \<Rightarrow> mlan_ctx
    \<Rightarrow> mlan_ctx option" where
  "wlan_11n_create_rxreorder_tbl alloc_node alloc_slots ta tid win_size seq_num c = do {
     c1 \<leftarrow> (case wlan_11n_get_rxreorder_tbl (priv c) tid ta of
              Some i \<Rightarrow> wlan_11n_delete_rxreorder_tbl_entry i c
            | None \<Rightarrow> Some c);
     let c2 = mlan_block_rx_process True c1;
     if \<not> (alloc_node \<and> alloc_slots) then Some (mlan_block_rx_process False c2)
     else do {
       let c3 = emit [Call_moal_init_timer] c2;
       last_seq \<leftarrow> rx_last_seq (priv c3) ta tid;
       let c4 = set_priv ((priv c3)\<lparr>rx_reorder_tbl_ptr :=
                  rx_reorder_tbl_ptr (priv c3) @ [new_rx_entry ta tid win_size seq_num last_seq]\<rparr>) c3;
       Some (mlan_block_rx_process False c4) } }"

subsection \<open>Block Ack negotiation, responder side\<close>

abbreviation BLOCKACKPARAM_TID_MASK :: t_u16 where "BLOCKACKPARAM_TID_MASK \<equiv> 0x3C"
abbreviation BLOCKACKPARAM_WINSIZE_MASK :: t_u16 where "BLOCKACKPARAM_WINSIZE_MASK \<equiv> 0xffc0"
abbreviation BLOCKACKPARAM_AMSDU_SUPP_MASK :: t_u16 where "BLOCKACKPARAM_AMSDU_SUPP_MASK \<equiv> 1"
abbreviation ADDBA_RSP_STATUS_DECLINED :: t_u16 where "ADDBA_RSP_STATUS_DECLINED \<equiv> 37"
abbreviation ADDBA_RSP_STATUS_ACCEPT :: t_u16 where "ADDBA_RSP_STATUS_ACCEPT \<equiv> 0"

definition param_tid :: "t_u16 \<Rightarrow> t_u16" where
  "param_tid s = drop_bit 2 (s AND BLOCKACKPARAM_TID_MASK)"

definition param_win :: "t_u16 \<Rightarrow> t_u16" where
  "param_win s = drop_bit 6 (s AND BLOCKACKPARAM_WINSIZE_MASK)"

definition wlan_cmd_11n_addba_req :: "HostCmd_DS_11N_ADDBA_REQ \<Rightarrow> HostCmd_DS_11N_ADDBA_REQ" where
  "wlan_cmd_11n_addba_req pdata = pdata\<lparr>add_req_result := 0\<rparr>"

definition wlan_cmd_11n_delba :: "HostCmd_DS_11N_DELBA \<Rightarrow> HostCmd_DS_11N_DELBA" where
  "wlan_cmd_11n_delba pdata = pdata\<lparr>del_result := 0\<rparr>"

definition wlan_is_addba_reject :: "mlan_private \<Rightarrow> int \<Rightarrow> t_u8 option" where
  "wlan_is_addba_reject p tid = arr_get (addba_reject p) tid"

text \<open>The answered parameter set: the requested one with our window, and without the A-MSDU bit when
  we do not support A-MSDU inside A-MPDU.\<close>

definition rsp_param_set :: "mlan_private \<Rightarrow> t_u16 \<Rightarrow> t_u16" where
  "rsp_param_set p s =
     (let s1 = s AND NOT BLOCKACKPARAM_WINSIZE_MASK;
          s2 = (if \<not> rx_amsdu (add_ba_param p) then s1 AND NOT BLOCKACKPARAM_AMSDU_SUPP_MASK else s1)
      in s2 OR ucast (push_bit 6 (rx_win_size (add_ba_param p))))"

definition wlan_cmd_11n_addba_rspgen :: "bool \<Rightarrow> bool \<Rightarrow> HostCmd_DS_11N_ADDBA_REQ \<Rightarrow> mlan_ctx
    \<Rightarrow> (HostCmd_DS_11N_ADDBA_RSP \<times> mlan_ctx) option" where
  "wlan_cmd_11n_addba_rspgen alloc_node alloc_slots req c = do {
     let p = priv c;
     let tid = uint (param_tid (req_block_ack_param_set req));
     rejected \<leftarrow> wlan_is_addba_reject p tid;
     let status1 =
       (if rejected \<noteq> 0
           \<or> (bss_role p = MLAN_BSS_ROLE_STA \<and> wps_session_enable p)
           \<or> (bss_role p = MLAN_BSS_ROLE_UAP
               \<and> sint (fst (util_scalar_read True True (pending_bridge_pkts (adapter c)))) > 128)
        then ADDBA_RSP_STATUS_DECLINED else ADDBA_RSP_STATUS_ACCEPT);
     let set1 = rsp_param_set p (req_block_ack_param_set req);
     let win_size = uint (param_win set1);
     let status2 = (if win_size = 0 then ADDBA_RSP_STATUS_DECLINED else status1);
     let rsp = \<lparr>add_rsp_result = 0, rsp_peer_mac_addr = req_peer_mac_addr req,
                rsp_dialog_token = req_dialog_token req, rsp_status_code = status2,
                rsp_block_ack_param_set = set1, rsp_block_ack_tmo = req_block_ack_tmo req,
                rsp_ssn = req_ssn req\<rparr>;
     c1 \<leftarrow> (if status2 = ADDBA_RSP_STATUS_ACCEPT
           then wlan_11n_create_rxreorder_tbl alloc_node alloc_slots (req_peer_mac_addr req) tid
                  win_size (uint (req_ssn req)) c
           else Some c);
     Some (rsp, c1) }"

definition wlan_ret_11n_addba_resp :: "HostCmd_DS_11N_ADDBA_RSP \<Rightarrow> mlan_ctx
    \<Rightarrow> (mlan_status \<times> mlan_ctx) option" where
  "wlan_ret_11n_addba_resp rsp c = do {
     let tid = uint (param_tid (rsp_block_ack_param_set rsp));
     if rsp_status_code rsp = 0
     then Some (MLAN_STATUS_SUCCESS,
       (case wlan_11n_get_rxreorder_tbl (priv c) tid (rsp_peer_mac_addr rsp) of
          Some i \<Rightarrow>
            put_rx_entry i ((rx_reorder_tbl_ptr (priv c) ! i)\<lparr>
              rr_ba_status := BA_STREAM_SETUP_COMPLETE,
              rr_amsdu := (rsp_block_ack_param_set rsp AND BLOCKACKPARAM_AMSDU_SUPP_MASK \<noteq> 0
                           \<and> rx_amsdu (add_ba_param (priv c)))\<rparr>) c
        | None \<Rightarrow> c))
     else (case wlan_11n_get_rxreorder_tbl (priv c) tid (rsp_peer_mac_addr rsp) of
             Some i \<Rightarrow> map_option (Pair MLAN_STATUS_SUCCESS) (wlan_11n_delete_rxreorder_tbl_entry i c)
           | None \<Rightarrow> Some (MLAN_STATUS_SUCCESS, c)) }"

definition wlan_11n_ba_stream_timeout :: "HostCmd_DS_11N_BATIMEOUT \<Rightarrow> mlan_ctx \<Rightarrow> mlan_ctx" where
  "wlan_11n_ba_stream_timeout event c =
     (let set1 = push_bit 12 (ucast (bat_tid event)) OR push_bit 11 (ucast (bat_origninator event));
          delba = \<lparr>del_result = 0, del_peer_mac_addr = bat_peer_mac_addr event,
                   del_ba_param_set = set1, del_reason_code = 39\<rparr>
      in emit [Call_wlan_prepare_cmd (HostCmd_CMD_11N_DELBA delba)] c)"

subsection \<open>Packet number reset on a new key\<close>

abbreviation KEY_FLAG_GROUP_KEY :: t_u32 where "KEY_FLAG_GROUP_KEY \<equiv> 4"
abbreviation KEY_FLAG_REMOVE_KEY :: t_u32 where "KEY_FLAG_REMOVE_KEY \<equiv> 0x80000000"

record mlan_ds_encrypt_key =
  key_flags :: t_u32
  key_mac_addr :: mac

definition reset_pn :: "RxReorderTbl \<Rightarrow> RxReorderTbl" where
  "reset_pn e = e\<lparr>hi_curr_rx_count32 := 0xffffffff, lo_curr_rx_count16 := 0\<rparr>"

fun reset_pn_tids :: "int list \<Rightarrow> mac \<Rightarrow> mlan_private \<Rightarrow> mlan_private" where
  "reset_pn_tids [] mac p = p"
| "reset_pn_tids (tid # tids) mac p =
     reset_pn_tids tids mac
       (case wlan_11n_get_rxreorder_tbl p tid mac of
          Some i \<Rightarrow> p\<lparr>rx_reorder_tbl_ptr :=
                      (rx_reorder_tbl_ptr p)[i := reset_pn (rx_reorder_tbl_ptr p ! i)]\<rparr>
        | None \<Rightarrow> p)"

definition wlan_reset_pn_value :: "mlan_ds_encrypt_key \<Rightarrow> mlan_private \<Rightarrow> mlan_private" where
  "wlan_reset_pn_value key p =
     (if key_flags key AND KEY_FLAG_REMOVE_KEY \<noteq> 0 \<or> key_flags key AND KEY_FLAG_GROUP_KEY \<noteq> 0 then p
      else reset_pn_tids (map int [0..<7]) (key_mac_addr key) p)"

subsection \<open>Flush timer and no-drop flag\<close>

definition wlan_flush_data :: "nat \<Rightarrow> mlan_ctx \<Rightarrow> mlan_ctx" where
  \<comment> \<open>the timer callback; its context is the entry\<close>
  "wlan_flush_data i c =
     (let c1 = c\<lparr>adapter := (adapter c)\<lparr>flush_data := True\<rparr>\<rparr>;
          e = rx_reorder_tbl_ptr (priv c1) ! i
      in emit [Call_wlan_recv_event MLAN_EVENT_ID_DRV_DEFER_RX_WORK]
           (put_rx_entry i (e\<lparr>rr_flush_data := True, timer_is_set := False\<rparr>) c1))"

fun set_no_drop :: "bool \<Rightarrow> RxReorderTbl list \<Rightarrow> RxReorderTbl list" where
  "set_no_drop flag [] = []"
| "set_no_drop flag (e # es) = e\<lparr>force_no_drop := flag\<rparr> # set_no_drop flag es"

definition wlan_set_rxreorder_tbl_no_drop_flag :: "bool \<Rightarrow> mlan_private \<Rightarrow> mlan_private" where
  "wlan_set_rxreorder_tbl_no_drop_flag flag p =
     p\<lparr>rx_reorder_tbl_ptr := set_no_drop flag (rx_reorder_tbl_ptr p)\<rparr>"

fun flush_entries :: "mlan_adapter \<Rightarrow> mlan_private \<Rightarrow> RxReorderTbl list
    \<Rightarrow> (moal_call list \<times> RxReorderTbl list) option" where
  "flush_entries ad p [] = Some ([], [])"
| "flush_entries ad p (e # es) = do {
     (cs, e') \<leftarrow> (if rr_flush_data e then wlan_start_flush_data ad p (e\<lparr>rr_flush_data := False\<rparr>)
                 else Some ([], e));
     (ds, es') \<leftarrow> flush_entries ad p es;
     Some (cs @ ds, e' # es') }"

definition wlan_flush_priv_rxreorder_tbl :: "mlan_ctx \<Rightarrow> mlan_ctx option" where
  "wlan_flush_priv_rxreorder_tbl c = do {
     (cs, es) \<leftarrow> flush_entries (adapter c) (priv c) (rx_reorder_tbl_ptr (priv c));
     Some (emit cs (set_priv ((priv c)\<lparr>rx_reorder_tbl_ptr := es\<rparr>) c)) }"

subsection \<open>Invariant of the table\<close>

definition entry_inv :: "RxReorderTbl \<Rightarrow> bool" where
  "entry_inv e \<longleftrightarrow> slots_ok e \<and> rr_win_size e \<le> 1023 \<and> 0 \<le> rr_start_win e \<and> rr_start_win e \<le> 4096
     \<and> (1 < rr_win_size e \<longrightarrow> rx_inv e)"

definition tbl_inv :: "mlan_private \<Rightarrow> bool" where
  "tbl_inv p \<longleftrightarrow> rxt.unique p \<and> (\<forall>e \<in> set (rx_reorder_tbl_ptr p). entry_inv e)"

lemma put_rx_entry_simps [simp]:
  "adapter (put_rx_entry i e c) = adapter c" "calls (put_rx_entry i e c) = calls c"
  "rx_reorder_tbl_ptr (priv (put_rx_entry i e c)) = (rx_reorder_tbl_ptr (priv c))[i := e]"
  by (simp_all add: put_rx_entry_def)

lemma rx_lookup_pair: "rx_lookup p (tid, ta) = wlan_11n_get_rxreorder_tbl p tid ta"
  by (simp add: rx_lookup_def)

lemma get_rxreorder_SomeD:
  assumes "wlan_11n_get_rxreorder_tbl p tid ta = Some i"
  shows "i < length (rx_reorder_tbl_ptr p)" "rr_tid (rx_reorder_tbl_ptr p ! i) = tid"
    "rr_ta (rx_reorder_tbl_ptr p ! i) = ta"
  using find_index_SomeD [OF assms [unfolded wlan_11n_get_rxreorder_tbl_def]] by auto

lemma tbl_inv_put:
  assumes "tbl_inv p" "wlan_11n_get_rxreorder_tbl p tid ta = Some i" "entry_inv e"
    and "rr_tid e = tid" "rr_ta e = ta"
    and "rx_reorder_tbl_ptr p' = (rx_reorder_tbl_ptr p)[i := e]"
  shows "tbl_inv p'" "rxt.entry p' = (rxt.entry p)((tid, ta) \<mapsto> e)"
proof -
  have l: "rx_lookup p (tid, ta) = Some i" using assms(2) by (simp add: rx_lookup_pair)
  have k: "rx_key e = (tid, ta)" using assms(4,5) by (simp add: rx_key_def)
  have u: "rxt.unique p" using assms(1) by (simp add: tbl_inv_def)
  show "rxt.entry p' = (rxt.entry p)((tid, ta) \<mapsto> e)"
    by (rule rxt.update_node(2) [OF u l assms(6) k])
  have "set (rx_reorder_tbl_ptr p') \<subseteq> insert e (set (rx_reorder_tbl_ptr p))"
    using assms(6) by (simp add: set_update_subset_insert)
  then show "tbl_inv p'"
    using rxt.update_node(1) [OF u l assms(6) k] assms(1,3) by (auto simp: tbl_inv_def)
qed

text \<open>Deleting an entry hands over what it buffers, in slot order, stops and frees its timer, and
  unlinks it; the table loses that key only.\<close>

lemma delete_entry_spec:
  assumes "i < length (rx_reorder_tbl_ptr (priv c))" "entry_inv (rx_reorder_tbl_ptr (priv c) ! i)"
  shows "\<exists>ds. wlan_11n_delete_rxreorder_tbl_entry i c = Some
      \<lparr>adapter = (adapter c)\<lparr>rx_lock_flag := False\<rparr>,
       priv = (priv c)\<lparr>rx_reorder_tbl_ptr := remove_nth i (rx_reorder_tbl_ptr (priv c))\<rparr>,
       calls = calls c @ ds\<rparr>
    \<and> handed ds = buffered (rx_reorder_ptr (rx_reorder_tbl_ptr (priv c) ! i))"
proof -
  let ?e = "rx_reorder_tbl_ptr (priv c) ! i"
  let ?c1 = "mlan_block_rx_process True c"
  obtain cs h l where u: "wlan_11n_dispatch_pkt_until_start_win (adapter ?c1) (priv c) ?e
        ((rr_start_win ?e + rr_win_size ?e) AND 4095)
      = Some (cs, moved ?e (replicate (length (rx_reorder_ptr ?e)) None)
          ((rr_start_win ?e + rr_win_size ?e) mod 4096) h l)" "handed cs = buffered (rx_reorder_ptr ?e)"
    using advance_window_flushes [of ?e "adapter ?c1" "priv c"] assms(2)
    by (auto simp: entry_inv_def and_4095)
  show ?thesis
    using u by (intro exI [of _ "(if mlan_rx_processing (adapter c)
            then [Call_wlan_recv_event MLAN_EVENT_ID_DRV_FLUSH_RX_WORK] else []) @ cs
          @ (if rr_timer ?e then (if timer_is_set ?e then [Call_moal_stop_timer] else [])
                @ [Call_moal_free_timer] else [])"])
       (auto simp: wlan_11n_delete_rxreorder_tbl_entry_def Let_def mlan_block_rx_process_def
          emit_def set_priv_def)
qed

lemma tbl_inv_remove:
  assumes "tbl_inv p" "wlan_11n_get_rxreorder_tbl p tid ta = Some i"
    and "rx_reorder_tbl_ptr p' = remove_nth i (rx_reorder_tbl_ptr p)"
  shows "tbl_inv p'" "rxt.entry p' = (rxt.entry p)((tid, ta) := None)"
proof -
  have l: "rx_lookup p (tid, ta) = Some i" using assms(2) by (simp add: rx_lookup_pair)
  have u: "rxt.unique p" using assms(1) by (simp add: tbl_inv_def)
  show "rxt.entry p' = (rxt.entry p)((tid, ta) := None)"
    by (rule rxt.delete_node(2) [OF u l assms(3)])
  show "tbl_inv p'"
    using rxt.delete_node(1) [OF u l assms(3)] assms(1,3)
      set_remove_nth_subset [of i "rx_reorder_tbl_ptr p"] by (auto simp: tbl_inv_def)
qed

subsection \<open>The packet entry point\<close>

lemma rxreorder_pkt_props:
  assumes inv: "tbl_inv (priv c)" and seq: "0 \<le> seq" "seq < 4096" and pk: "slot_seq_ok seq (Some pl)"
  shows "\<exists>ret c'. mlan_11n_rxreorder_pkt seq tid ta pt pl c = Some (ret, c') \<and> tbl_inv (priv c')
    \<and> (\<forall>k. k \<noteq> (tid, ta) \<longrightarrow> rxt.entry (priv c') k = rxt.entry (priv c) k)
    \<and> (rxt.entry (priv c') (tid, ta) = None \<longleftrightarrow> rxt.entry (priv c) (tid, ta) = None)"
proof (cases "wlan_11n_get_rxreorder_tbl (priv c) tid ta")
  case None
  then show ?thesis using inv by (simp add: mlan_11n_rxreorder_pkt_def)
next
  case (Some i)
  let ?e = "rx_reorder_tbl_ptr (priv c) ! i"
  note g = get_rxreorder_SomeD [OF Some]
  have ei: "entry_inv ?e" using inv g(1) by (simp add: tbl_inv_def)
  have old: "rxt.entry (priv c) (tid, ta) = Some ?e"
    using Some by (simp add: rxt.entry_def rx_lookup_pair)
  show ?thesis
  proof (cases "rr_win_size ?e \<le> 1")
    case True
    obtain cs h l where d: "dispatch_on (adapter c) (priv c) pl ?e
        = (cs, ?e\<lparr>hi_curr_rx_count32 := h, lo_curr_rx_count16 := l\<rparr>)" by (rule dispatch_on_obtain)
    let ?e' = "?e\<lparr>hi_curr_rx_count32 := h, lo_curr_rx_count16 := l\<rparr>"
    have "entry_inv ?e'" using ei True by (simp add: entry_inv_def slots_ok_def)
    from tbl_inv_put [OF inv Some this, of "priv (emit cs (put_rx_entry i ?e' c))"] g
    have "tbl_inv (priv (emit cs (put_rx_entry i ?e' c)))"
      "rxt.entry (priv (emit cs (put_rx_entry i ?e' c))) = (rxt.entry (priv c))((tid, ta) \<mapsto> ?e')" by auto
    then show ?thesis
      using Some True d inv old by (simp add: mlan_11n_rxreorder_pkt_def Let_def)
  next
    case False
    then have ri: "rx_inv ?e" using ei by (simp add: entry_inv_def)
    obtain ret cs e' where r: "rxreorder_entry (adapter c) (priv c) seq pt pl ?e = Some (ret, cs, e')"
      "rx_inv e'" "rr_tid e' = rr_tid ?e" "rr_ta e' = rr_ta ?e"
      using entry_props [OF ri seq pk] by blast
    have "entry_inv e'" using r(2) by (simp add: entry_inv_def rx_inv_def win_ok_def slots_ok_def)
    from tbl_inv_put [OF inv Some this, of "priv (emit cs (put_rx_entry i e' c))"] g r
    have "tbl_inv (priv (emit cs (put_rx_entry i e' c)))"
      "rxt.entry (priv (emit cs (put_rx_entry i e' c))) = (rxt.entry (priv c))((tid, ta) \<mapsto> e')" by auto
    then show ?thesis
      using Some False r(1) old by (simp add: mlan_11n_rxreorder_pkt_def Let_def)
  qed
qed

text \<open>C7. Received packets keep the reorder table consistent.  The sequence number is one of the 12-bit numbers that the
  air carries (below 4096; the code itself takes any 16-bit number), and the packet is a marker or a buffer whose descriptor
  holds that same number.  Then, on a table with distinct (TID, transmitter) pairs and consistent entries, the packet entry
  point never accesses anything outside the arrays, the table stays consistent, and only the entry of that TID and
  transmitter can change; entries are neither created nor removed.\<close>

theorem mlan_11n_rxreorder_pkt_inv:
  assumes "tbl_inv (priv c)" "0 \<le> seq" "seq < 4096" "slot_seq_ok seq (Some pl)"
  shows "\<exists>ret c'. mlan_11n_rxreorder_pkt seq tid ta pt pl c = Some (ret, c') \<and> tbl_inv (priv c')
    \<and> (\<forall>k. k \<noteq> (tid, ta) \<longrightarrow> rxt.entry (priv c') k = rxt.entry (priv c) k)
    \<and> (rxt.entry (priv c') (tid, ta) = None \<longleftrightarrow> rxt.entry (priv c) (tid, ta) = None)"
  using assms by (rule rxreorder_pkt_props)

subsection \<open>Creating and deleting entries\<close>

lemma rx_last_seq_total:
  assumes "0 \<le> tid" "tid < 8" "length (rx_seq p) = 8"
    and "\<forall>s \<in> set (sta_list p). length (sta_rx_seq s) = 8"
  shows "\<exists>w. rx_last_seq p ta tid = Some w
    \<and> (w \<in> set (rx_seq p) \<or> (\<exists>s \<in> set (sta_list p). w \<in> set (sta_rx_seq s)) \<or> w = 0)"
proof -
  have sta: "\<exists>w. arr_get (sta_rx_seq (sta_list p ! s)) tid = Some w
      \<and> (\<exists>s \<in> set (sta_list p). w \<in> set (sta_rx_seq s))"
    if "wlan_get_station_entry p ta = Some s" for s
  proof -
    have m: "sta_list p ! s \<in> set (sta_list p)"
      using stas.lookup_Some [OF that] by simp
    then have "nat tid < length (sta_rx_seq (sta_list p ! s))" using assms by auto
    then show ?thesis using assms(1) m by (auto simp: arr_get_def intro: nth_mem)
  qed
  have own: "\<exists>w. arr_get (rx_seq p) tid = Some w \<and> w \<in> set (rx_seq p)"
    using assms by (auto simp: arr_get_def intro: nth_mem)
  show ?thesis
    using sta own by (cases "wlan_get_station_entry p ta") (fastforce simp: rx_last_seq_def)+
qed

definition seqs_ok :: "mlan_private \<Rightarrow> bool" where
  \<comment> \<open>the last sequence numbers are 12-bit or the initial 0xffff, one per TID\<close>
  "seqs_ok p \<longleftrightarrow> length (rx_seq p) = 8 \<and> (\<forall>s \<in> set (sta_list p). length (sta_rx_seq s) = 8)
     \<and> (\<forall>w \<in> set (rx_seq p). w = 0xffff \<or> uint w < 4096)
     \<and> (\<forall>s \<in> set (sta_list p). \<forall>w \<in> set (sta_rx_seq s). w = 0xffff \<or> uint w < 4096)"

lemma new_entry_inv:
  assumes "0 < win" "win \<le> 1023" "0 \<le> ssn" "ssn \<le> 4096" "lst = 0xffff \<or> uint lst < 4096"
  shows "entry_inv (new_rx_entry ta tid win ssn lst)"
proof -
  have "uint lst = DEFAULT_SEQ_NUM \<or> 0 \<le> uint lst \<and> uint lst < 4096" using assms(5) by auto
  then show ?thesis
    using assms by (auto simp: entry_inv_def new_rx_entry_def slots_ok_def rx_inv_def win_ok_def)
qed

text \<open>A new agreement replaces the old entry of the same TID and transmitter, whose packets are handed
  over first.\<close>

lemma create_spec:
  assumes inv: "tbl_inv (priv c)" and sq: "seqs_ok (priv c)" and tid: "0 \<le> tid" "tid < 8"
    and win: "0 < win" "win \<le> 1023" and ssn: "0 \<le> ssn" "ssn \<le> 4096"
  shows "\<exists>c' lst. wlan_11n_create_rxreorder_tbl True True ta tid win ssn c = Some c' \<and> tbl_inv (priv c')
    \<and> rxt.entry (priv c') = (rxt.entry (priv c))((tid, ta) \<mapsto> new_rx_entry ta tid win ssn lst)
    \<and> handed (calls c') = handed (calls c)
       @ (case rxt.entry (priv c) (tid, ta) of None \<Rightarrow> [] | Some e \<Rightarrow> buffered (rx_reorder_ptr e))"
proof -
  have "\<exists>c1. (case wlan_11n_get_rxreorder_tbl (priv c) tid ta of
          Some i \<Rightarrow> wlan_11n_delete_rxreorder_tbl_entry i c | None \<Rightarrow> Some c) = Some c1
      \<and> tbl_inv (priv c1) \<and> rxt.entry (priv c1) = (rxt.entry (priv c))((tid, ta) := None)
      \<and> (\<exists>t. priv c1 = (priv c)\<lparr>rx_reorder_tbl_ptr := t\<rparr>)
      \<and> handed (calls c1) = handed (calls c)
       @ (case rxt.entry (priv c) (tid, ta) of None \<Rightarrow> [] | Some e \<Rightarrow> buffered (rx_reorder_ptr e))"
  proof (cases "wlan_11n_get_rxreorder_tbl (priv c) tid ta")
    case None
    have "rxt.entry (priv c) (tid, ta) = None" using None by (simp add: rxt.entry_def rx_lookup_pair)
    moreover have "(rxt.entry (priv c))((tid, ta) := None) = rxt.entry (priv c)"
      using calculation by auto
    moreover have "\<exists>t. priv c = (priv c)\<lparr>rx_reorder_tbl_ptr := t\<rparr>"
      by (intro exI [of _ "rx_reorder_tbl_ptr (priv c)"]) simp
    ultimately show ?thesis using None inv by simp
  next
    case (Some i)
    note g = get_rxreorder_SomeD [OF Some]
    have old: "rxt.entry (priv c) (tid, ta) = Some (rx_reorder_tbl_ptr (priv c) ! i)"
      using Some by (simp add: rxt.entry_def rx_lookup_pair)
    have "entry_inv (rx_reorder_tbl_ptr (priv c) ! i)" using inv g(1) by (simp add: tbl_inv_def)
    from delete_entry_spec [OF g(1) this] obtain ds where d: "wlan_11n_delete_rxreorder_tbl_entry i c = Some
      \<lparr>adapter = (adapter c)\<lparr>rx_lock_flag := False\<rparr>,
       priv = (priv c)\<lparr>rx_reorder_tbl_ptr := remove_nth i (rx_reorder_tbl_ptr (priv c))\<rparr>,
       calls = calls c @ ds\<rparr>" "handed ds = buffered (rx_reorder_ptr (rx_reorder_tbl_ptr (priv c) ! i))"
      by blast
    show ?thesis
      using Some d old tbl_inv_remove [OF inv Some,
          of "(priv c)\<lparr>rx_reorder_tbl_ptr := remove_nth i (rx_reorder_tbl_ptr (priv c))\<rparr>"]
      by auto
  qed
  then obtain c1 t where c1: "(case wlan_11n_get_rxreorder_tbl (priv c) tid ta of
          Some i \<Rightarrow> wlan_11n_delete_rxreorder_tbl_entry i c | None \<Rightarrow> Some c) = Some c1"
      "tbl_inv (priv c1)" "rxt.entry (priv c1) = (rxt.entry (priv c))((tid, ta) := None)"
      "priv c1 = (priv c)\<lparr>rx_reorder_tbl_ptr := t\<rparr>"
      "handed (calls c1) = handed (calls c)
       @ (case rxt.entry (priv c) (tid, ta) of None \<Rightarrow> [] | Some e \<Rightarrow> buffered (rx_reorder_ptr e))"
    by blast
  have ls: "rx_last_seq (priv c1) ta tid = rx_last_seq (priv c) ta tid"
    by (simp add: c1(4) rx_last_seq_def queuing_ra_based_def wlan_get_station_entry_def
          split: option.split)
  obtain lst where l: "rx_last_seq (priv c) ta tid = Some lst" "lst = 0xffff \<or> uint lst < 4096"
    using rx_last_seq_total [OF tid, of "priv c" ta] sq by (fastforce simp: seqs_ok_def)
  let ?n = "new_rx_entry ta tid win ssn lst"
  let ?c2 = "mlan_block_rx_process True c1"
  let ?c3 = "emit [Call_moal_init_timer] ?c2"
  let ?c' = "mlan_block_rx_process False (set_priv ((priv c1)\<lparr>rx_reorder_tbl_ptr := t @ [?n]\<rparr>) ?c3)"
  have r: "wlan_11n_create_rxreorder_tbl True True ta tid win ssn c = Some ?c'"
    using c1(1) l(1) ls c1(4) by (simp add: wlan_11n_create_rxreorder_tbl_def Let_def)
  have look: "rx_lookup (priv c1) (rx_key ?n) = None"
    using c1(3) rxt.entry_def [of "priv c1" "(tid, ta)"] by (auto simp: rx_key_def new_rx_entry_def)
  have p': "rx_reorder_tbl_ptr (priv ?c') = rx_reorder_tbl_ptr (priv c1) @ [?n]" by (simp add: c1(4))
  have u: "rxt.unique (priv c1)" using c1(2) by (simp add: tbl_inv_def)
  have k: "rx_key ?n = (tid, ta)" by (simp add: rx_key_def new_rx_entry_def)
  have "rxt.unique (priv ?c')" by (rule rxt.insert_tail(1) [OF u look p'])
  then have "tbl_inv (priv ?c')"
    using c1(2) new_entry_inv [OF win ssn l(2)] unfolding tbl_inv_def p' by auto
  moreover have "rxt.entry (priv ?c') = (rxt.entry (priv c))((tid, ta) \<mapsto> ?n)"
    using rxt.insert_tail(2) [OF u look p'] by (simp add: k c1(3))
  moreover have "handed (calls ?c') = handed (calls c1)"
    by (simp add: mlan_block_rx_process_def emit_def set_priv_def Let_def)
  ultimately show ?thesis using r c1(5) by (intro exI [of _ ?c'] exI [of _ lst]) simp
qed


subsection \<open>Negotiation\<close>

lemma tid_mask: "BLOCKACKPARAM_TID_MASK = push_bit 2 (mask 4)"
  by (simp add: mask_eq_exp_minus_1)

lemma win_mask: "BLOCKACKPARAM_WINSIZE_MASK = push_bit 6 (mask 10)"
  by (simp add: mask_eq_exp_minus_1)

lemma param_tid_rsp: "param_tid (rsp_param_set p s) = param_tid s"
  unfolding param_tid_def rsp_param_set_def Let_def tid_mask win_mask
  by (rule bit_word_eqI)
     (auto simp: bit_simps split: if_splits)

lemma param_win_rsp: "param_win (rsp_param_set p s) = ucast (take_bit 10 (rx_win_size (add_ba_param p)))"
  unfolding param_win_def rsp_param_set_def Let_def win_mask
  by (rule bit_word_eqI) (auto simp: bit_simps split: if_splits)

lemma param_amsdu_rsp:
  "bit (rsp_param_set p s) 0 \<longleftrightarrow> bit s 0 \<and> rx_amsdu (add_ba_param p)"
  unfolding rsp_param_set_def Let_def win_mask
  by (auto simp: bit_simps split: if_splits)


lemma param_win_uint:
  "uint (param_win (rsp_param_set p s)) = uint (rx_win_size (add_ba_param p)) mod 1024"
proof -
  have "uint (ucast (take_bit 10 (rx_win_size (add_ba_param p))) :: t_u16)
      = take_bit 10 (uint (rx_win_size (add_ba_param p)))"
    by (simp add: unsigned_ucast_eq unsigned_take_bit_eq take_bit_take_bit min_def)
  then show ?thesis by (simp add: param_win_rsp take_bit_eq_mod)
qed

lemma param_tid_bounds: "0 \<le> uint (param_tid s)" "uint (param_tid s) < 16"
proof -
  show "0 \<le> uint (param_tid s)" by simp
  have "param_tid s = take_bit 4 (drop_bit 2 s)"
    unfolding param_tid_def tid_mask by (rule bit_word_eqI) (auto simp: bit_simps)
  then have "uint (param_tid s) = take_bit 4 (uint (drop_bit 2 s))"
    by (simp add: unsigned_take_bit_eq)
  then show "uint (param_tid s) < 16" by (simp add: take_bit_eq_mod)
qed

text \<open>The reasons to decline a request.\<close>

definition addba_refused :: "t_u8 \<Rightarrow> mlan_ctx \<Rightarrow> bool" where
  "addba_refused rejected c \<longleftrightarrow> rejected \<noteq> 0
     \<or> (bss_role (priv c) = MLAN_BSS_ROLE_STA \<and> wps_session_enable (priv c))
     \<or> (bss_role (priv c) = MLAN_BSS_ROLE_UAP
         \<and> sint (fst (util_scalar_read True True (pending_bridge_pkts (adapter c)))) > 128)"

text \<open>An accepted ADDBA request yields a response that keeps the TID, carries our window in the window
  bits and the A-MSDU bit only when both sides support it, and installs for that TID and peer a fresh
  entry whose window has exactly the size the response announces and starts at the requested sequence
  number; an old entry of the same TID and peer is replaced, its packets handed over first, every
  other entry is untouched and the table stays consistent.\<close>

theorem addba_accepted:
  assumes "tbl_inv (priv c)" "seqs_ok (priv c)" "uint (param_tid (req_block_ack_param_set req)) < 8"
    and "wlan_is_addba_reject (priv c) (uint (param_tid (req_block_ack_param_set req))) = Some rejected"
    and "\<not> addba_refused rejected c" "uint (rx_win_size (add_ba_param (priv c))) mod 1024 \<noteq> 0"
    and "uint (req_ssn req) \<le> 4096"
  shows "\<exists>rsp c' lst. wlan_cmd_11n_addba_rspgen True True req c = Some (rsp, c')
    \<and> rsp_status_code rsp = ADDBA_RSP_STATUS_ACCEPT \<and> rsp_peer_mac_addr rsp = req_peer_mac_addr req
    \<and> param_tid (rsp_block_ack_param_set rsp) = param_tid (req_block_ack_param_set req)
    \<and> uint (param_win (rsp_block_ack_param_set rsp)) = uint (rx_win_size (add_ba_param (priv c))) mod 1024
    \<and> (bit (rsp_block_ack_param_set rsp) 0
         \<longleftrightarrow> bit (req_block_ack_param_set req) 0 \<and> rx_amsdu (add_ba_param (priv c)))
    \<and> tbl_inv (priv c')
    \<and> rxt.entry (priv c') = (rxt.entry (priv c))
        ((uint (param_tid (req_block_ack_param_set req)), req_peer_mac_addr req) \<mapsto>
           new_rx_entry (req_peer_mac_addr req) (uint (param_tid (req_block_ack_param_set req)))
             (uint (param_win (rsp_block_ack_param_set rsp))) (uint (req_ssn req)) lst)"
proof -
  let ?tid = "uint (param_tid (req_block_ack_param_set req))"
  let ?set = "rsp_param_set (priv c) (req_block_ack_param_set req)"
  have w: "uint (param_win ?set) = uint (rx_win_size (add_ba_param (priv c))) mod 1024"
    by (rule param_win_uint)
  have win: "0 < uint (param_win ?set)" "uint (param_win ?set) \<le> 1023"
    using w assms(6) pos_mod_bound [of 1024 "uint (rx_win_size (add_ba_param (priv c)))"]
    by (auto simp: order_less_le)
  obtain c' lst where c': "wlan_11n_create_rxreorder_tbl True True (req_peer_mac_addr req) ?tid
        (uint (param_win ?set)) (uint (req_ssn req)) c = Some c'" "tbl_inv (priv c')"
      "rxt.entry (priv c') = (rxt.entry (priv c))((?tid, req_peer_mac_addr req) \<mapsto>
         new_rx_entry (req_peer_mac_addr req) ?tid (uint (param_win ?set)) (uint (req_ssn req)) lst)"
    using create_spec [OF assms(1,2) param_tid_bounds(1) assms(3) win _ assms(7), of "req_peer_mac_addr req"]
    by auto
  let ?rsp = "\<lparr>add_rsp_result = 0, rsp_peer_mac_addr = req_peer_mac_addr req,
    rsp_dialog_token = req_dialog_token req, rsp_status_code = ADDBA_RSP_STATUS_ACCEPT,
    rsp_block_ack_param_set = ?set, rsp_block_ack_tmo = req_block_ack_tmo req, rsp_ssn = req_ssn req\<rparr>"
  have "wlan_cmd_11n_addba_rspgen True True req c = Some (?rsp, c')"
    using assms(4,5) win(1) c'(1)
    by (simp add: wlan_cmd_11n_addba_rspgen_def Let_def addba_refused_def)
  then show ?thesis
    using c'(2,3) w param_tid_rsp param_amsdu_rsp
    by (intro exI [of _ ?rsp] exI [of _ c'] exI [of _ lst]) simp
qed

text \<open>A declined request (the TID's reject flag, a WPS session on a station, an overloaded bridge on
  an access point, or a zero window of our own) changes nothing and is answered with the declined
  status.\<close>

theorem addba_declined:
  assumes "wlan_is_addba_reject (priv c) (uint (param_tid (req_block_ack_param_set req))) = Some rejected"
    and "addba_refused rejected c \<or> uint (rx_win_size (add_ba_param (priv c))) mod 1024 = 0"
  shows "\<exists>rsp. wlan_cmd_11n_addba_rspgen a b req c = Some (rsp, c)
    \<and> rsp_status_code rsp = ADDBA_RSP_STATUS_DECLINED
    \<and> rsp_peer_mac_addr rsp = req_peer_mac_addr req \<and> rsp_dialog_token rsp = req_dialog_token req"
proof -
  have "uint (param_win (rsp_param_set (priv c) (req_block_ack_param_set req)))
      = uint (rx_win_size (add_ba_param (priv c))) mod 1024" by (rule param_win_uint)
  then show ?thesis
    using assms by (auto simp: wlan_cmd_11n_addba_rspgen_def Let_def addba_refused_def)
qed

text \<open>The TID of a request is four bits wide, the per-TID tables have eight entries: a request for a
  TID above 7 makes the handler read the reject table out of its bounds.\<close>

theorem addba_tid_out_of_bounds:
  assumes "length (addba_reject (priv c)) = MAX_NUM_TID"
    and "8 \<le> uint (param_tid (req_block_ack_param_set req))"
  shows "wlan_cmd_11n_addba_rspgen a b req c = None"
  using assms by (simp add: wlan_cmd_11n_addba_rspgen_def wlan_is_addba_reject_def arr_get_def)


subsection \<open>Teardown\<close>

fun table_tokens :: "RxReorderTbl list \<Rightarrow> token list" where
  "table_tokens [] = []"
| "table_tokens (e # es) = buffered (rx_reorder_ptr e) @ table_tokens es"

lemma cleanup_entries_spec:
  assumes "\<forall>e \<in> set (rx_reorder_tbl_ptr (priv c)). entry_inv e" "n = length (rx_reorder_tbl_ptr (priv c))"
  shows "\<exists>ad ds. cleanup_entries n c
      = Some \<lparr>adapter = ad, priv = (priv c)\<lparr>rx_reorder_tbl_ptr := []\<rparr>, calls = calls c @ ds\<rparr>
    \<and> handed ds = table_tokens (rx_reorder_tbl_ptr (priv c))"
  using assms
proof (induction n arbitrary: c)
  case 0
  then show ?case by (intro exI [of _ "adapter c"] exI [of _ "[]"]) simp
next
  case (Suc n)
  then obtain e es where t: "rx_reorder_tbl_ptr (priv c) = e # es" by (metis length_Suc_conv)
  obtain ds where d: "wlan_11n_delete_rxreorder_tbl_entry 0 c = Some
      \<lparr>adapter = (adapter c)\<lparr>rx_lock_flag := False\<rparr>,
       priv = (priv c)\<lparr>rx_reorder_tbl_ptr := es\<rparr>, calls = calls c @ ds\<rparr>"
    "handed ds = buffered (rx_reorder_ptr e)"
    using delete_entry_spec [of 0 c] Suc.prems t by auto
  let ?c1 = "\<lparr>adapter = (adapter c)\<lparr>rx_lock_flag := False\<rparr>,
       priv = (priv c)\<lparr>rx_reorder_tbl_ptr := es\<rparr>, calls = calls c @ ds\<rparr>"
  from Suc.IH [of ?c1] Suc.prems t obtain ad ds' where
    "cleanup_entries n ?c1 = Some \<lparr>adapter = ad, priv = (priv c)\<lparr>rx_reorder_tbl_ptr := []\<rparr>,
        calls = calls c @ ds @ ds'\<rparr>" "handed ds' = table_tokens es" by auto
  then show ?case using d t by (intro exI [of _ ad] exI [of _ "ds @ ds'"]) simp
qed

text \<open>C27. Tearing the whole table down ends after one round per entry, hands every buffered packet over
  exactly once, entry by entry in table order and within an entry in window order, and leaves the
  table empty with all last sequence numbers reset.\<close>

theorem cleanup_reorder_tbl_complete:
  assumes "\<forall>e \<in> set (rx_reorder_tbl_ptr (priv c)). entry_inv e"
  shows "\<exists>c'. wlan_11n_cleanup_reorder_tbl c = Some c' \<and> rx_reorder_tbl_ptr (priv c') = []
    \<and> rx_seq (priv c') = replicate MAX_NUM_TID 0xffff
    \<and> handed (calls c') = handed (calls c)
        @ table_tokens (rx_reorder_tbl_ptr (priv c))"
proof -
  obtain ad ds where "cleanup_entries (length (rx_reorder_tbl_ptr (priv c))) c
      = Some \<lparr>adapter = ad, priv = (priv c)\<lparr>rx_reorder_tbl_ptr := []\<rparr>, calls = calls c @ ds\<rparr>"
    "handed ds = table_tokens (rx_reorder_tbl_ptr (priv c))"
    using cleanup_entries_spec [OF assms refl] by blast
  then show ?thesis by (simp add: wlan_11n_cleanup_reorder_tbl_def)
qed

lemma cleanup_tids_spec:
  assumes "tbl_inv (priv c)"
  shows "\<exists>c'. cleanup_tids tids ta c = Some c' \<and> tbl_inv (priv c')
    \<and> rxt.entry (priv c') = (\<lambda>k. if snd k = ta \<and> fst k \<in> set tids then None else rxt.entry (priv c) k)"
  using assms
proof (induction tids arbitrary: c)
  case Nil
  then show ?case by simp
next
  case (Cons t tids)
  have "\<exists>c1. (case wlan_11n_get_rxreorder_tbl (priv c) t ta of
        Some k \<Rightarrow> wlan_11n_delete_rxreorder_tbl_entry k c | None \<Rightarrow> Some c) = Some c1
      \<and> tbl_inv (priv c1) \<and> rxt.entry (priv c1) = (rxt.entry (priv c))((t, ta) := None)"
  proof (cases "wlan_11n_get_rxreorder_tbl (priv c) t ta")
    case None
    then have "rxt.entry (priv c) (t, ta) = None" by (simp add: rxt.entry_def rx_lookup_pair)
    then have "(rxt.entry (priv c))((t, ta) := None) = rxt.entry (priv c)" by auto
    then show ?thesis using None Cons.prems by simp
  next
    case (Some i)
    note g = get_rxreorder_SomeD [OF Some]
    have "entry_inv (rx_reorder_tbl_ptr (priv c) ! i)" using Cons.prems g(1) by (simp add: tbl_inv_def)
    from delete_entry_spec [OF g(1) this] show ?thesis
      using Some tbl_inv_remove [OF Cons.prems Some,
          of "(priv c)\<lparr>rx_reorder_tbl_ptr := remove_nth i (rx_reorder_tbl_ptr (priv c))\<rparr>"] by auto
  qed
  then obtain c1 where c1: "(case wlan_11n_get_rxreorder_tbl (priv c) t ta of
        Some k \<Rightarrow> wlan_11n_delete_rxreorder_tbl_entry k c | None \<Rightarrow> Some c) = Some c1"
      "tbl_inv (priv c1)" "rxt.entry (priv c1) = (rxt.entry (priv c))((t, ta) := None)" by blast
  from Cons.IH [OF c1(2)] obtain c' where c': "cleanup_tids tids ta c1 = Some c'" "tbl_inv (priv c')"
    "rxt.entry (priv c') = (\<lambda>k. if snd k = ta \<and> fst k \<in> set tids then None else rxt.entry (priv c1) k)"
    by blast
  have "rxt.entry (priv c')
      = (\<lambda>k. if snd k = ta \<and> fst k \<in> set (t # tids) then None else rxt.entry (priv c) k)"
    unfolding c'(3) c1(3) by (auto simp: fun_eq_iff)
  then show ?case using c1(1) c'(1,2) by simp
qed

text \<open>When a station leaves, exactly its entries go: afterwards no TID below 8 has an entry for that
  transmitter, and the entries of every other transmitter are as before.\<close>

theorem cleanup_station_exact:
  assumes "tbl_inv (priv c)"
  shows "\<exists>c'. wlan_cleanup_reorder_tbl ta c = Some c' \<and> tbl_inv (priv c')
    \<and> rxt.entry (priv c') = (\<lambda>(t, a). if a = ta \<and> 0 \<le> t \<and> t < 8 then None else rxt.entry (priv c) (t, a))"
proof -
  have s: "t \<in> set (map int [0..<MAX_NUM_TID]) \<longleftrightarrow> 0 \<le> t \<and> t < 8" for t
    by (auto simp: image_iff intro!: bexI [of _ "nat t"])
  from cleanup_tids_spec [OF assms, of "map int [0..<MAX_NUM_TID]" ta] show ?thesis
    by (auto simp: wlan_cleanup_reorder_tbl_def fun_eq_iff s simp del: set_map set_upt)
qed

subsection \<open>New keys\<close>

lemma reset_pn_tids_spec:
  assumes "tbl_inv p"
  shows "tbl_inv (reset_pn_tids tids mac p)
    \<and> rxt.entry (reset_pn_tids tids mac p)
       = (\<lambda>k. if snd k = mac \<and> fst k \<in> set tids then map_option reset_pn (rxt.entry p k) else rxt.entry p k)"
  using assms
proof (induction tids arbitrary: p)
  case Nil
  then show ?case by simp
next
  case (Cons t tids)
  define q where "q = (case wlan_11n_get_rxreorder_tbl p t mac of
      Some i \<Rightarrow> p\<lparr>rx_reorder_tbl_ptr := (rx_reorder_tbl_ptr p)[i := reset_pn (rx_reorder_tbl_ptr p ! i)]\<rparr>
    | None \<Rightarrow> p)"
  have q: "tbl_inv q \<and> rxt.entry q = (\<lambda>k. if k = (t, mac) then map_option reset_pn (rxt.entry p k) else rxt.entry p k)"
  proof (cases "wlan_11n_get_rxreorder_tbl p t mac")
    case None
    then have "rxt.entry p (t, mac) = None" by (simp add: rxt.entry_def rx_lookup_pair)
    then show ?thesis using None Cons.prems by (auto simp: q_def)
  next
    case (Some i)
    let ?e = "rx_reorder_tbl_ptr p ! i"
    note g = get_rxreorder_SomeD [OF Some]
    have "entry_inv ?e" using Cons.prems g(1) by (simp add: tbl_inv_def)
    then have "entry_inv (reset_pn ?e)"
      by (simp add: entry_inv_def reset_pn_def slots_ok_def rx_inv_def win_ok_def)
    from tbl_inv_put [OF Cons.prems Some this, of q] g Some have "tbl_inv q"
      "rxt.entry q = (rxt.entry p)((t, mac) \<mapsto> reset_pn ?e)" by (auto simp: q_def reset_pn_def)
    moreover have "rxt.entry p (t, mac) = Some ?e" using Some by (simp add: rxt.entry_def rx_lookup_pair)
    ultimately show ?thesis by auto
  qed
  have idem: "map_option reset_pn (map_option reset_pn x) = map_option reset_pn x" for x
    by (cases x) (simp_all add: reset_pn_def)
  from Cons.IH [of q] q show ?case
    by (auto simp: q_def [symmetric] fun_eq_iff idem)
qed

text \<open>A new pairwise key resets the packet-number counter of the peer's entries for the TIDs 0 to 6
  and of no other entry: the entry of TID 7 keeps the counter of the old key, so frames protected
  with the new key, whose packet numbers start again, are refused there as replays.\<close>

theorem reset_pn_value_skips_tid7:
  assumes "tbl_inv p" "key_flags key AND KEY_FLAG_REMOVE_KEY = 0" "key_flags key AND KEY_FLAG_GROUP_KEY = 0"
  shows "tbl_inv (wlan_reset_pn_value key p)
    \<and> rxt.entry (wlan_reset_pn_value key p) (t, a)
       = (if a = key_mac_addr key \<and> 0 \<le> t \<and> t < 7 then map_option reset_pn (rxt.entry p (t, a))
          else rxt.entry p (t, a))"
proof -
  have s: "t \<in> set (map int [0..<7]) \<longleftrightarrow> 0 \<le> t \<and> t < 7"
    by (auto simp: image_iff intro!: bexI [of _ "nat t"])
  show ?thesis
    using reset_pn_tids_spec [OF assms(1), of "map int [0..<7]" "key_mac_addr key"] assms(2,3) s
    by (auto simp: wlan_reset_pn_value_def simp del: set_map set_upt)
qed


subsection \<open>Flushing marked entries\<close>

fun marked_tokens :: "RxReorderTbl list \<Rightarrow> token list" where
  "marked_tokens [] = []"
| "marked_tokens (e # es) = (if rr_flush_data e then buffered (rx_reorder_ptr e) else []) @ marked_tokens es"

lemma flush_entries_spec:
  assumes "\<forall>e \<in> set es. win_ok e"
  shows "\<exists>cs es'. flush_entries ad p es = Some (cs, es') \<and> handed cs = marked_tokens es
    \<and> map rx_key es' = map rx_key es \<and> length es' = length es
    \<and> (\<forall>i < length es. if rr_flush_data (es ! i)
         then \<not> rr_flush_data (es' ! i) \<and> buffered (rx_reorder_ptr (es' ! i)) = [] else es' ! i = es ! i)"
  using assms
proof (induction es)
  case Nil
  then show ?case by simp
next
  case (Cons e es)
  then obtain ds es' where r: "flush_entries ad p es = Some (ds, es')" "handed ds = marked_tokens es"
    "map rx_key es' = map rx_key es" "length es' = length es"
    "\<forall>i < length es. if rr_flush_data (es ! i)
       then \<not> rr_flush_data (es' ! i) \<and> buffered (rx_reorder_ptr (es' ! i)) = [] else es' ! i = es ! i"
    by auto
  show ?case
  proof (cases "rr_flush_data e")
    case False
    then show ?thesis using r by (auto simp: nth_Cons split: nat.splits)
  next
    case True
    let ?e = "e\<lparr>rr_flush_data := False\<rparr>"
    have "win_ok ?e" using Cons.prems by (simp add: win_ok_def)
    from flush_spec [OF this, of ad p] obtain cs w h l where f: "wlan_start_flush_data ad p ?e
        = Some (cs, moved ?e (replicate (length (rx_reorder_ptr e)) None) w h l)"
      "handed cs = buffered (rx_reorder_ptr e)" by auto
    have "rx_key (moved ?e (replicate (length (rx_reorder_ptr e)) None) w h l) = rx_key e"
      by (simp add: rx_key_def)
    then show ?thesis
      using True f r
      by (intro exI [of _ "cs @ ds"]
            exI [of _ "moved ?e (replicate (length (rx_reorder_ptr e)) None) w h l # es'"])
         (auto simp: nth_Cons split: nat.splits)
  qed
qed

text \<open>The deferred flush empties exactly the marked entries, once: it hands over their packets entry by
  entry in window order, clears the mark, and leaves unmarked entries as they are.\<close>

theorem flush_marked_entries:
  assumes "\<forall>e \<in> set (rx_reorder_tbl_ptr (priv c)). win_ok e"
  shows "\<exists>c'. wlan_flush_priv_rxreorder_tbl c = Some c'
    \<and> handed (calls c') = handed (calls c) @ marked_tokens (rx_reorder_tbl_ptr (priv c))
    \<and> length (rx_reorder_tbl_ptr (priv c')) = length (rx_reorder_tbl_ptr (priv c))
    \<and> (\<forall>i < length (rx_reorder_tbl_ptr (priv c)). if rr_flush_data (rx_reorder_tbl_ptr (priv c) ! i)
         then \<not> rr_flush_data (rx_reorder_tbl_ptr (priv c') ! i)
            \<and> buffered (rx_reorder_ptr (rx_reorder_tbl_ptr (priv c') ! i)) = []
         else rx_reorder_tbl_ptr (priv c') ! i = rx_reorder_tbl_ptr (priv c) ! i)"
  using flush_entries_spec [OF assms, of "adapter c" "priv c"]
  by (auto simp: wlan_flush_priv_rxreorder_tbl_def)

end
