(* ===== verification/Rx_Sync.thy ===== *)
theory Rx_Sync
  imports Rx_Table
begin

text \<open>
  The RXBA_SYNC event (\<^verbatim>\<open>wlan_11n_rxba_sync_event\<close>): the firmware lists packets it dropped,
  as TLVs with a bitmap, and the driver feeds a marker for each into the reorder window.  The event
  is the byte buffer it is parsed from; reading behind it is \<open>Out_of_bounds\<close>.  The bitmap loop
  counts in an 8-bit variable, so it may not end: it runs on fuel, and running out of it is
  \<open>Out_of_fuel\<close>.  The comparison of the remaining length with a \<^verbatim>\<open>sizeof\<close> is unsigned, so a
  negative remainder does not stop the outer loop.
\<close>

datatype sync_fail = Out_of_bounds | Out_of_fuel

abbreviation TLV_TYPE_RXBA_SYNC :: nat where "TLV_TYPE_RXBA_SYNC \<equiv> 0x199"

definition le16 :: "t_u8 list \<Rightarrow> int \<Rightarrow> nat option" where
  "le16 buf off = do { a \<leftarrow> arr_get buf off; b \<leftarrow> arr_get buf (off + 1); Some (unat a + 256 * unat b) }"

text \<open>The fields of \<^verbatim>\<open>MrvlIEtypes_RxBaSync_t\<close> at an offset.\<close>

record MrvlIEtypes_RxBaSync_t =
  tlv_type :: nat
  tlv_len :: nat
  tlv_mac :: mac
  tlv_tid :: nat
  tlv_seq_num :: nat
  bitmap_len :: nat

definition read_rxba :: "t_u8 list \<Rightarrow> int \<Rightarrow> MrvlIEtypes_RxBaSync_t option" where
  "read_rxba buf off = do {
     ty \<leftarrow> le16 buf off; ln \<leftarrow> le16 buf (off + 2); m \<leftarrow> bytes6 buf (off + 4);
     t \<leftarrow> arr_get buf (off + 10); s \<leftarrow> le16 buf (off + 12); b \<leftarrow> le16 buf (off + 14);
     Some \<lparr>tlv_type = ty, tlv_len = ln, tlv_mac = m, tlv_tid = unat t, tlv_seq_num = s, bitmap_len = b\<rparr> }"

text \<open>One byte of the bitmap: the bits still to test, then the loop over the bytes.\<close>

fun sync_bits :: "nat list \<Rightarrow> t_u8 \<Rightarrow> nat \<Rightarrow> MrvlIEtypes_RxBaSync_t \<Rightarrow> mlan_ctx \<Rightarrow> mlan_ctx option" where
  "sync_bits [] byte i tlv c = Some c"
| "sync_bits (j # js) byte i tlv c =
     (if bit byte j
      then do {
        (ret, c1) \<leftarrow> mlan_11n_rxreorder_pkt (int (tlv_seq_num tlv + i * 8 + j) AND 4095) (int (tlv_tid tlv))
                      (tlv_mac tlv) 0 RX_PKT_DROPPED_IN_FW c;
        sync_bits js byte i tlv c1 }
      else sync_bits js byte i tlv c)"

fun sync_bitmap :: "nat \<Rightarrow> t_u8 \<Rightarrow> t_u8 list \<Rightarrow> int \<Rightarrow> MrvlIEtypes_RxBaSync_t \<Rightarrow> mlan_ctx
    \<Rightarrow> sync_fail + mlan_ctx" where
  "sync_bitmap 0 i buf off tlv c = Inl Out_of_fuel"
| "sync_bitmap (Suc fuel) i buf off tlv c =
     (if unat i < bitmap_len tlv
      then (case arr_get buf (off + 16 + int (unat i)) of
              None \<Rightarrow> Inl Out_of_bounds
            | Some byte \<Rightarrow>
                (case sync_bits [0..<8] byte (unat i) tlv c of
                   None \<Rightarrow> Inl Out_of_bounds
                 | Some c1 \<Rightarrow> sync_bitmap fuel (i + 1) buf off tlv c1))
      else Inr c)"

lemma arr_get_None: "arr_get xs i = None \<longleftrightarrow> i < 0 \<or> int (length xs) \<le> i"
  by (auto simp: arr_get_def)

lemma read_rxba_bounds: "read_rxba buf off = Some tlv \<Longrightarrow> 0 \<le> off \<and> off + 16 \<le> int (length buf)"
  by (auto simp: read_rxba_def le16_def monad_simps)

function rxba_sync_loop :: "nat \<Rightarrow> t_u8 list \<Rightarrow> int \<Rightarrow> int \<Rightarrow> mlan_ctx \<Rightarrow> sync_fail + mlan_ctx" where
  "rxba_sync_loop fuel buf off tlv_buf_left c =
     (if \<not> (tlv_buf_left \<ge> 17 \<or> tlv_buf_left < 0) then Inr c
      else (case read_rxba buf off of
              None \<Rightarrow> Inl Out_of_bounds
            | Some tlv \<Rightarrow>
                if tlv_type tlv \<noteq> TLV_TYPE_RXBA_SYNC then Inr c
                else (case wlan_11n_get_rxreorder_tbl (priv c) (int (tlv_tid tlv)) (tlv_mac tlv) of
                        None \<Rightarrow> Inr c
                      | Some k \<Rightarrow>
                          if force_no_drop (rx_reorder_tbl_ptr (priv c) ! k) then Inr c
                          else (case sync_bitmap fuel 0 buf off tlv c of
                                  Inl e \<Rightarrow> Inl e
                                | Inr c1 \<Rightarrow>
                                    rxba_sync_loop fuel buf (off + (4 + int (tlv_len tlv)))
                                      (tlv_buf_left - (4 + int (tlv_len tlv))) c1))))"
  by pat_completeness auto
termination
  by (relation "measure (\<lambda>(fuel, buf, off, left, c). nat (int (length buf) + 1 - off))")
     (auto dest!: read_rxba_bounds)

declare rxba_sync_loop.simps [simp del]

definition wlan_11n_rxba_sync_event :: "nat \<Rightarrow> t_u8 list \<Rightarrow> t_u16 \<Rightarrow> mlan_ctx \<Rightarrow> sync_fail + mlan_ctx" where
  "wlan_11n_rxba_sync_event fuel event_buf len c = rxba_sync_loop fuel event_buf 0 (uint len) c"

subsection \<open>Well-formed events\<close>

definition same_keys :: "mlan_private \<Rightarrow> mlan_private \<Rightarrow> bool" where
  "same_keys p p' \<longleftrightarrow> (\<forall>k. rxt.entry p' k = None \<longleftrightarrow> rxt.entry p k = None)"

lemma sync_bits_props:
  assumes "tbl_inv (priv c)"
  shows "\<exists>c'. sync_bits js byte i tlv c = Some c' \<and> tbl_inv (priv c') \<and> same_keys (priv c) (priv c')"
  using assms
proof (induction js arbitrary: c)
  case Nil
  then show ?case by (simp add: same_keys_def)
next
  case (Cons j js)
  show ?case
  proof (cases "bit byte j")
    case False
    then show ?thesis using Cons by simp
  next
    case True
    let ?s = "int (tlv_seq_num tlv + i * 8 + j) AND 4095"
    have s: "0 \<le> ?s" "?s < 4096" by (simp_all add: and_4095)
    have pk: "slot_seq_ok ?s (Some RX_PKT_DROPPED_IN_FW)" by simp
    from rxreorder_pkt_props [OF Cons.prems s pk, where pt = 0
          and tid = "int (tlv_tid tlv)" and ta = "tlv_mac tlv"]
    obtain ret c1 where r: "mlan_11n_rxreorder_pkt ?s (int (tlv_tid tlv)) (tlv_mac tlv) 0
          RX_PKT_DROPPED_IN_FW c = Some (ret, c1)" "tbl_inv (priv c1)"
        "\<forall>k. k \<noteq> (int (tlv_tid tlv), tlv_mac tlv) \<longrightarrow> rxt.entry (priv c1) k = rxt.entry (priv c) k"
        "rxt.entry (priv c1) (int (tlv_tid tlv), tlv_mac tlv) = None
          \<longleftrightarrow> rxt.entry (priv c) (int (tlv_tid tlv), tlv_mac tlv) = None"
      by (elim exE conjE)
    have k: "same_keys (priv c) (priv c1)"
      unfolding same_keys_def using r(3,4) by metis
    from Cons.IH [OF r(2)] True r(1) k show ?thesis by (auto simp: same_keys_def)
  qed
qed

lemma sync_bitmap_props:
  assumes "tbl_inv (priv c)" "bitmap_len tlv \<le> 255" "unat i \<le> bitmap_len tlv"
    and "0 \<le> off" "off + 16 + int (bitmap_len tlv) \<le> int (length buf)"
    and "bitmap_len tlv - unat i < fuel"
  shows "\<exists>c'. sync_bitmap fuel i buf off tlv c = Inr c' \<and> tbl_inv (priv c') \<and> same_keys (priv c) (priv c')"
  using assms(1,3,6)
proof (induction fuel arbitrary: i c)
  case 0
  then show ?case by simp
next
  case (Suc fuel)
  show ?case
  proof (cases "unat i < bitmap_len tlv")
    case False
    then show ?thesis using Suc.prems by (simp add: same_keys_def)
  next
    case True
    have i1: "unat (i + 1) = unat i + 1"
      using True assms(2) by (simp add: unat_word_ariths)
    have "0 \<le> off + 16 + int (unat i)" "off + 16 + int (unat i) < int (length buf)"
      using True assms(4,5) by linarith+
    note b = arr_get_in [OF this]
    obtain c1 where c1: "sync_bits [0..<8] (buf ! nat (off + 16 + int (unat i))) (unat i) tlv c = Some c1" "tbl_inv (priv c1)"
      "same_keys (priv c) (priv c1)" using sync_bits_props [OF Suc.prems(1)] by blast
    obtain c' where "sync_bitmap fuel (i + 1) buf off tlv c1 = Inr c'" "tbl_inv (priv c')"
      "same_keys (priv c1) (priv c')"
      using Suc.IH [OF c1(2), of "i + 1"] True Suc.prems i1 by force
    then show ?thesis using True b c1 by (simp add: same_keys_def del: upt.simps)
  qed
qed

text \<open>A well-formed event: each TLV lies inside the announced length and holds its bitmap, of at most 255
  bytes.\<close>

fun wf_sync :: "nat \<Rightarrow> t_u8 list \<Rightarrow> int \<Rightarrow> int \<Rightarrow> bool" where
  "wf_sync 0 buf off left \<longleftrightarrow> 0 \<le> left \<and> left < 17"
| "wf_sync (Suc n) buf off left \<longleftrightarrow> 17 \<le> left \<and>
     (case read_rxba buf off of
        None \<Rightarrow> False
      | Some tlv \<Rightarrow> bitmap_len tlv \<le> 255 \<and> 16 + bitmap_len tlv \<le> 4 + tlv_len tlv
          \<and> 4 + int (tlv_len tlv) \<le> left
          \<and> wf_sync n buf (off + (4 + int (tlv_len tlv))) (left - (4 + int (tlv_len tlv))))"

lemma rxba_sync_loop_props:
  assumes "wf_sync n buf off left" "0 \<le> off" "off + left \<le> int (length buf)" "tbl_inv (priv c)"
  shows "\<exists>c'. rxba_sync_loop 256 buf off left c = Inr c' \<and> tbl_inv (priv c') \<and> same_keys (priv c) (priv c')"
  using assms
proof (induction n arbitrary: off left c)
  case 0
  then show ?case by (subst rxba_sync_loop.simps) (simp add: same_keys_def)
next
  case (Suc n)
  obtain tlv where t: "read_rxba buf off = Some tlv" "bitmap_len tlv \<le> 255"
    "16 + bitmap_len tlv \<le> 4 + tlv_len tlv" "4 + int (tlv_len tlv) \<le> left"
    "wf_sync n buf (off + (4 + int (tlv_len tlv))) (left - (4 + int (tlv_len tlv)))" "17 \<le> left"
    using Suc.prems(1) by (auto split: option.splits)
  obtain c1 where c1: "sync_bitmap 256 0 buf off tlv c = Inr c1" "tbl_inv (priv c1)"
    "same_keys (priv c) (priv c1)"
    using sync_bitmap_props [OF Suc.prems(4) t(2), of 0 off buf 256] t Suc.prems by auto
  obtain c' where c': "rxba_sync_loop 256 buf (off + (4 + int (tlv_len tlv)))
      (left - (4 + int (tlv_len tlv))) c1 = Inr c'" "tbl_inv (priv c')" "same_keys (priv c1) (priv c')"
    using Suc.IH [OF t(5) _ _ c1(2)] Suc.prems by auto
  show ?case
    using t c1 c' Suc.prems(4)
    by (subst rxba_sync_loop.simps) (auto simp: same_keys_def split: option.splits)
qed

text \<open>C28. A well-formed RXBA_SYNC event (every TLV inside the event, its bitmap inside the TLV and at most
  255 bytes long) is processed to the end: the loops end, nothing is read or written out of bounds,
  and the reorder table stays consistent with the same entries.  256 rounds of the bitmap loop are
  enough, since the counter has eight bits.\<close>

theorem rxba_sync_wellformed:
  assumes "wf_sync n buf 0 (uint len)" "uint len \<le> int (length buf)" "tbl_inv (priv c)"
  shows "\<exists>c'. wlan_11n_rxba_sync_event 256 buf len c = Inr c' \<and> tbl_inv (priv c')
    \<and> same_keys (priv c) (priv c')"
  using rxba_sync_loop_props [OF assms(1) _ _ assms(3)] assms(2)
  by (simp add: wlan_11n_rxba_sync_event_def)

subsection \<open>Malformed events\<close>

lemma sync_bitmap_no_exit: "256 \<le> bitmap_len tlv \<Longrightarrow> sync_bitmap fuel i buf off tlv c \<noteq> Inr c'"
proof (induction fuel arbitrary: i c)
  case (Suc fuel)
  have "unat i < 256" using unsigned_less [of i] by simp
  then show ?case using Suc by (auto split: option.splits simp del: upt.simps)
qed simp

text \<open>The counter never gets past the first 256 bytes of the bitmap: if these lie inside the buffer, no round stops.\<close>

lemma sync_bitmap_endless:
  assumes "256 \<le> bitmap_len tlv" "0 \<le> off" "off + 272 \<le> int (length buf)" "tbl_inv (priv c)"
  shows "sync_bitmap fuel i buf off tlv c = Inl Out_of_fuel"
  using assms(4)
proof (induction fuel arbitrary: i c)
  case (Suc fuel)
  have i: "unat i < 256" using unsigned_less [of i] by simp
  then have "0 \<le> off + 16 + int (unat i)" "off + 16 + int (unat i) < int (length buf)" using assms(2,3) by linarith+
  note g = arr_get_in [OF this]
  obtain c1 where "sync_bits [0..<8] (buf ! nat (off + 16 + int (unat i))) (unat i) tlv c = Some c1" "tbl_inv (priv c1)"
    using sync_bits_props [OF Suc.prems] by blast
  then show ?case using Suc.IH g i assms(1) by (simp del: upt.simps)
qed simp

text \<open>C29. An event for a live entry that is not in no-drop mode, whose bitmap claims 256 bytes or more, is never finished,
  because the 8-bit loop counter cannot reach the 16-bit length.  The handler never returns normally; and when the reorder
  table is consistent and the TLV header and the first 256 bitmap bytes, 272 bytes together, lie inside the buffer, it does
  not stop out of bounds either: no number of rounds of the bitmap loop ends it.\<close>

theorem rxba_sync_long_bitmap_hangs:
  assumes "17 \<le> uint len" "read_rxba buf 0 = Some tlv" "tlv_type tlv = TLV_TYPE_RXBA_SYNC"
    and "wlan_11n_get_rxreorder_tbl (priv c) (int (tlv_tid tlv)) (tlv_mac tlv) = Some k"
    and "\<not> force_no_drop (rx_reorder_tbl_ptr (priv c) ! k)" "256 \<le> bitmap_len tlv"
  shows "(\<forall>fuel c'. wlan_11n_rxba_sync_event fuel buf len c \<noteq> Inr c')
    \<and> (tbl_inv (priv c) \<and> 272 \<le> length buf \<longrightarrow> (\<forall>fuel. wlan_11n_rxba_sync_event fuel buf len c = Inl Out_of_fuel))"
proof -
  have run: "wlan_11n_rxba_sync_event fuel buf len c = (case sync_bitmap fuel 0 buf 0 tlv c of Inl e \<Rightarrow> Inl e
      | Inr c1 \<Rightarrow> rxba_sync_loop fuel buf (0 + (4 + int (tlv_len tlv))) (uint len - (4 + int (tlv_len tlv))) c1)" for fuel
    using assms(1-5) unfolding wlan_11n_rxba_sync_event_def by (subst rxba_sync_loop.simps) simp
  show ?thesis
    unfolding run
    using sync_bitmap_no_exit [OF assms(6), of _ 0 buf 0 c] sync_bitmap_endless [OF assms(6), of 0 buf c _ 0]
    by (auto split: sum.splits)
qed

text \<open>A TLV that claims to be longer than the event is not refused: the remaining length becomes
  negative, is compared as an unsigned number, and the loop goes on to read a TLV behind the event.\<close>

theorem rxba_sync_overlong_tlv:
  assumes "uint len = int (length buf)" "17 \<le> uint len" "read_rxba buf 0 = Some tlv"
    and "tlv_type tlv = TLV_TYPE_RXBA_SYNC" "tbl_inv (priv c)"
    and "wlan_11n_get_rxreorder_tbl (priv c) (int (tlv_tid tlv)) (tlv_mac tlv) = Some k"
    and "\<not> force_no_drop (rx_reorder_tbl_ptr (priv c) ! k)"
    and "bitmap_len tlv \<le> 255" "16 + bitmap_len tlv \<le> length buf" "length buf < 4 + tlv_len tlv"
  shows "wlan_11n_rxba_sync_event 256 buf len c = Inl Out_of_bounds"
proof -
  obtain c1 where c1: "sync_bitmap 256 0 buf 0 tlv c = Inr c1"
    using sync_bitmap_props [OF assms(5,8), of 0 0 buf 256] assms(9) assms(8) by auto
  have "read_rxba buf (4 + int (tlv_len tlv)) = None"
    using read_rxba_bounds [of buf "4 + int (tlv_len tlv)"] assms(10) by (cases "read_rxba buf (4 + int (tlv_len tlv))") auto
  then have "rxba_sync_loop 256 buf (4 + int (tlv_len tlv)) (uint len - (4 + int (tlv_len tlv))) c1
      = Inl Out_of_bounds"
    using assms(1,10) by (subst rxba_sync_loop.simps) simp
  then show ?thesis
    using assms c1 unfolding wlan_11n_rxba_sync_event_def
    by (subst rxba_sync_loop.simps) simp
qed

end
