(* ===== verification/Rx_Witness.thy ===== *)
theory Rx_Witness
  imports Rx_Sync Rx_Props
begin

text \<open>
  Concrete reorder tables, requests and events at which the properties of \<^verbatim>\<open>Rx_Table\<close> and
  \<^verbatim>\<open>Rx_Sync\<close> are applied.
\<close>

abbreviation peer :: mac where "peer \<equiv> [2, 0, 0, 0, 0, 1]"

definition sample_tbl :: "RxReorderTbl list" where
  "sample_tbl = [sample_entry 100 sample_slots,
     (sample_entry 200 [None, Some (Rx_buffer (sample_buffer 9 201 3)), None])\<lparr>rr_tid := 7\<rparr>]"

definition sample_ctx :: mlan_ctx where
  "sample_ctx = \<lparr>adapter = sample_adapter, priv = sample_private\<lparr>rx_reorder_tbl_ptr := sample_tbl\<rparr>,
     calls = []\<rparr>"

lemma rx_inv_entry_inv: "rx_inv e \<Longrightarrow> entry_inv e"
  by (simp add: entry_inv_def rx_inv_def win_ok_def slots_ok_def)

lemma sample_entries_inv: "\<forall>e \<in> set sample_tbl. rx_inv e"
proof -
  have "rx_inv (sample_entry 200 [None, Some (Rx_buffer (sample_buffer 9 201 3)), None])"
    by (rule sample_rx_inv) (simp_all add: sample_buffer_def)
  then have "rx_inv ((sample_entry 200 [None, Some (Rx_buffer (sample_buffer 9 201 3)), None])\<lparr>rr_tid := 7\<rparr>)"
    by (simp add: rx_inv_def win_ok_def)
  then show ?thesis using sample_slots_inv by (simp add: sample_tbl_def)
qed

lemma sample_tbl_inv: "tbl_inv (priv sample_ctx)"
proof -
  have "rxt.unique (priv sample_ctx)"
    by (simp add: rxt.unique_def sample_ctx_def sample_tbl_def rx_key_def sample_entry_def)
  then show ?thesis
    using sample_entries_inv rx_inv_entry_inv by (auto simp: tbl_inv_def sample_ctx_def)
qed

lemma sample_seqs_ok: "seqs_ok (priv sample_ctx)"
  by (simp add: seqs_ok_def sample_ctx_def sample_private_def)

lemma sample_lookup: "wlan_11n_get_rxreorder_tbl (priv sample_ctx) 0 peer = Some 0"
  by (simp add: wlan_11n_get_rxreorder_tbl_def sample_ctx_def sample_tbl_def sample_entry_def)

lemma mlan_11n_rxreorder_pkt_inv_witness:
  "\<exists>ret c'. mlan_11n_rxreorder_pkt 101 0 peer 0 (Rx_buffer (sample_buffer 3 101 6)) sample_ctx = Some (ret, c')
    \<and> tbl_inv (priv c')
    \<and> (\<forall>k. k \<noteq> (0, peer) \<longrightarrow> rxt.entry (priv c') k = rxt.entry (priv sample_ctx) k)
    \<and> (rxt.entry (priv c') (0, peer) = None \<longleftrightarrow> rxt.entry (priv sample_ctx) (0, peer) = None)"
  by (rule mlan_11n_rxreorder_pkt_inv [OF sample_tbl_inv]) (simp_all add: sample_buffer_def)

definition sample_addba :: "t_u16 \<Rightarrow> HostCmd_DS_11N_ADDBA_REQ" where
  "sample_addba s = \<lparr>add_req_result = 0, req_peer_mac_addr = peer, req_dialog_token = 3,
     req_block_ack_param_set = s, req_block_ack_tmo = 0, req_ssn = 300\<rparr>"

lemma param_tid_5: "uint (param_tid 0x1015) = 5" by (simp add: param_tid_def)

lemma addba_accepted_witness:
  "\<exists>rsp c' lst. wlan_cmd_11n_addba_rspgen True True (sample_addba 0x1015) sample_ctx = Some (rsp, c')
    \<and> rsp_status_code rsp = ADDBA_RSP_STATUS_ACCEPT
    \<and> uint (param_win (rsp_block_ack_param_set rsp)) = 32
    \<and> rxt.entry (priv c') = (rxt.entry (priv sample_ctx))((5, peer) \<mapsto> new_rx_entry peer 5 32 300 lst)"
proof -
  have "\<not> addba_refused 0 sample_ctx"
    by (simp add: addba_refused_def sample_ctx_def sample_private_def)
  then show ?thesis
    using addba_accepted [OF sample_tbl_inv sample_seqs_ok, of "sample_addba 0x1015" 0] param_tid_5
    by (auto simp: sample_addba_def wlan_is_addba_reject_def sample_ctx_def sample_private_def)
qed

definition rejecting_ctx :: mlan_ctx where
  "rejecting_ctx = set_priv ((priv sample_ctx)\<lparr>addba_reject := replicate 8 1\<rparr>) sample_ctx"

lemma addba_declined_witness:
  "\<exists>rsp. wlan_cmd_11n_addba_rspgen True True (sample_addba 0x1015) rejecting_ctx = Some (rsp, rejecting_ctx)
    \<and> rsp_status_code rsp = ADDBA_RSP_STATUS_DECLINED
    \<and> rsp_peer_mac_addr rsp = peer \<and> rsp_dialog_token rsp = 3"
  using addba_declined [of rejecting_ctx "sample_addba 0x1015" 1 True True] param_tid_5
  by (simp add: sample_addba_def wlan_is_addba_reject_def rejecting_ctx_def addba_refused_def)

lemma addba_tid_out_of_bounds_witness:
  "wlan_cmd_11n_addba_rspgen True True (sample_addba 0x1024) sample_ctx = None"
  by (rule addba_tid_out_of_bounds)
     (simp_all add: sample_addba_def sample_ctx_def sample_private_def param_tid_def)

lemma cleanup_reorder_tbl_complete_witness:
  "\<exists>c'. wlan_11n_cleanup_reorder_tbl sample_ctx = Some c' \<and> rx_reorder_tbl_ptr (priv c') = []
    \<and> rx_seq (priv c') = replicate MAX_NUM_TID 0xffff \<and> map fst (handed (calls c')) = [1, 2, 9]"
proof -
  have "\<forall>e \<in> set (rx_reorder_tbl_ptr (priv sample_ctx)). entry_inv e"
    using sample_entries_inv rx_inv_entry_inv by (simp add: sample_ctx_def)
  from cleanup_reorder_tbl_complete [OF this] obtain c' where
    "wlan_11n_cleanup_reorder_tbl sample_ctx = Some c'" "rx_reorder_tbl_ptr (priv c') = []"
    "rx_seq (priv c') = replicate MAX_NUM_TID 0xffff"
    "handed (calls c') = handed (calls sample_ctx) @ table_tokens (rx_reorder_tbl_ptr (priv sample_ctx))"
    by blast
  moreover have "map fst (handed (calls sample_ctx) @ table_tokens (rx_reorder_tbl_ptr (priv sample_ctx)))
      = [1, 2, 9]" by code_simp
  ultimately show ?thesis by auto
qed

lemma cleanup_station_exact_witness:
  "\<exists>c'. wlan_cleanup_reorder_tbl peer sample_ctx = Some c' \<and> tbl_inv (priv c')
    \<and> rxt.entry (priv c') = (\<lambda>(t, a). if a = peer \<and> 0 \<le> t \<and> t < 8 then None
         else rxt.entry (priv sample_ctx) (t, a))"
  by (rule cleanup_station_exact [OF sample_tbl_inv])

lemma reset_pn_value_skips_tid7_witness:
  "rxt.entry (wlan_reset_pn_value \<lparr>key_flags = 8, key_mac_addr = peer\<rparr> (priv sample_ctx)) (7, peer)
     = rxt.entry (priv sample_ctx) (7, peer)
   \<and> rxt.entry (priv sample_ctx) (7, peer) \<noteq> None"
proof -
  have "rxt.entry (priv sample_ctx) (7, peer) \<noteq> None"
    by (simp add: rxt.entry_def rx_lookup_def wlan_11n_get_rxreorder_tbl_def sample_ctx_def sample_tbl_def
        sample_entry_def)
  then show ?thesis
    using reset_pn_value_skips_tid7 [OF sample_tbl_inv, of "\<lparr>key_flags = 8, key_mac_addr = peer\<rparr>" 7 peer]
    by simp
qed

definition marked_ctx :: mlan_ctx where
  "marked_ctx = set_priv ((priv sample_ctx)\<lparr>rx_reorder_tbl_ptr :=
     [(sample_entry 100 sample_slots)\<lparr>rr_flush_data := True\<rparr>, sample_entry 300 sample_slots]\<rparr>) sample_ctx"

lemma flush_marked_entries_witness:
  "\<exists>c'. wlan_flush_priv_rxreorder_tbl marked_ctx = Some c' \<and> map fst (handed (calls c')) = [1, 2]
    \<and> buffered (rx_reorder_ptr (rx_reorder_tbl_ptr (priv c') ! 0)) = []
    \<and> rx_reorder_tbl_ptr (priv c') ! 1 = sample_entry 300 sample_slots"
proof -
  have "\<forall>e \<in> set (rx_reorder_tbl_ptr (priv marked_ctx)). win_ok e"
    by (simp add: marked_ctx_def sample_entry_def win_ok_def)
  from flush_marked_entries [OF this] obtain c' where c: "wlan_flush_priv_rxreorder_tbl marked_ctx = Some c'"
    "handed (calls c') = handed (calls marked_ctx) @ marked_tokens (rx_reorder_tbl_ptr (priv marked_ctx))"
    "\<forall>i < length (rx_reorder_tbl_ptr (priv marked_ctx)). if rr_flush_data (rx_reorder_tbl_ptr (priv marked_ctx) ! i)
       then \<not> rr_flush_data (rx_reorder_tbl_ptr (priv c') ! i)
          \<and> buffered (rx_reorder_ptr (rx_reorder_tbl_ptr (priv c') ! i)) = []
       else rx_reorder_tbl_ptr (priv c') ! i = rx_reorder_tbl_ptr (priv marked_ctx) ! i" by blast
  have "map fst (handed (calls marked_ctx) @ marked_tokens (rx_reorder_tbl_ptr (priv marked_ctx))) = [1, 2]"
    by code_simp
  moreover have "buffered (rx_reorder_ptr (rx_reorder_tbl_ptr (priv c') ! 0)) = []"
    using c(3) [rule_format, of 0] by (simp add: marked_ctx_def)
  moreover have "rx_reorder_tbl_ptr (priv c') ! 1 = sample_entry 300 sample_slots"
    using c(3) [rule_format, of 1] by (simp add: marked_ctx_def sample_entry_def)
  ultimately show ?thesis using c(1,2) by auto
qed

text \<open>An event for TID 0 of the peer: first sequence number 101, the two packets 101 and 102 dropped.
  The parameters are the length field and the bitmap length field.\<close>

definition sample_event :: "t_u8 \<Rightarrow> t_u8 \<Rightarrow> t_u8 \<Rightarrow> t_u8 list" where
  "sample_event tlen blo bhi = [0x99, 1, tlen, 0] @ peer @ [0, 0, 101, 0, blo, bhi, 3]"

lemma read_sample_event:
  "read_rxba (sample_event 13 1 0) 0 = Some \<lparr>tlv_type = TLV_TYPE_RXBA_SYNC, tlv_len = 13, tlv_mac = peer,
     tlv_tid = 0, tlv_seq_num = 101, bitmap_len = 1\<rparr>"
  "read_rxba (sample_event 13 0 1 @ replicate 255 0) 0 = Some \<lparr>tlv_type = TLV_TYPE_RXBA_SYNC, tlv_len = 13, tlv_mac = peer,
     tlv_tid = 0, tlv_seq_num = 101, bitmap_len = 256\<rparr>"
  "read_rxba (sample_event 100 1 0) 0 = Some \<lparr>tlv_type = TLV_TYPE_RXBA_SYNC, tlv_len = 100, tlv_mac = peer,
     tlv_tid = 0, tlv_seq_num = 101, bitmap_len = 1\<rparr>"
  by code_simp+

lemma sample_no_drop: "\<not> force_no_drop (rx_reorder_tbl_ptr (priv sample_ctx) ! 0)"
  by (simp add: sample_ctx_def sample_tbl_def sample_entry_def)

lemma rxba_sync_wellformed_witness:
  "\<exists>c'. wlan_11n_rxba_sync_event 256 (sample_event 13 1 0) 17 sample_ctx = Inr c' \<and> tbl_inv (priv c')
    \<and> same_keys (priv sample_ctx) (priv c')"
proof (rule rxba_sync_wellformed [OF _ _ sample_tbl_inv])
  show "wf_sync 1 (sample_event 13 1 0) 0 (uint (17::t_u16))" by code_simp
  show "uint (17::t_u16) \<le> int (length (sample_event 13 1 0))" by (simp add: sample_event_def)
qed

lemma rxba_sync_long_bitmap_hangs_witness:
  "\<forall>fuel. wlan_11n_rxba_sync_event fuel (sample_event 13 0 1 @ replicate 255 0) 272 sample_ctx = Inl Out_of_fuel"
proof -
  have "272 \<le> length (sample_event 13 0 1 @ replicate 255 0)" by (simp add: sample_event_def)
  then show ?thesis
    using rxba_sync_long_bitmap_hangs [of 272, OF _ read_sample_event(2), of sample_ctx 0]
      sample_lookup sample_no_drop sample_tbl_inv by simp
qed

lemma rxba_sync_overlong_tlv_witness:
  "wlan_11n_rxba_sync_event 256 (sample_event 100 1 0) 17 sample_ctx = Inl Out_of_bounds"
  using rxba_sync_overlong_tlv [of 17 "sample_event 100 1 0", OF _ _ read_sample_event(3) _ sample_tbl_inv]
    sample_lookup sample_no_drop by (simp add: sample_event_def)

end
