(* ===== verification/Wmm_Tables.thy ===== *)
theory Wmm_Tables
  imports Mlan_Tables
begin

text \<open>
  The WMM tables (\<^verbatim>\<open>mlan_wmm.c\<close>): mapping of user priorities (TOS/TID) to access
  categories, downgrading of TIDs when an access category needs admission, and the queue priorities
  computed from the WMM parameter element of the access point.  The two TID order tables are file-level
  variables of the driver, shared by all interfaces; they are the record \<open>wmm_globals\<close>.
\<close>

subsection \<open>The constant tables\<close>

fun ac_index :: "mlan_wmm_ac_e \<Rightarrow> nat" where
  "ac_index WMM_AC_BK = 0"
| "ac_index WMM_AC_BE = 1"
| "ac_index WMM_AC_VI = 2"
| "ac_index WMM_AC_VO = 3"

definition ac_of :: "nat \<Rightarrow> mlan_wmm_ac_e" where
  "ac_of i = (if i = 0 then WMM_AC_BK else if i = 1 then WMM_AC_BE else if i = 2 then WMM_AC_VI
              else WMM_AC_VO)"

definition wmm_aci_to_qidx_map :: "nat list" where
  "wmm_aci_to_qidx_map = [1, 0, 2, 3]"

definition ac_to_tid :: "nat list list" where
  "ac_to_tid = [[1, 2], [0, 3], [4, 5], [6, 7]]"

definition tos_to_ac :: "mlan_wmm_ac_e list" where
  "tos_to_ac = [WMM_AC_BE, WMM_AC_BK, WMM_AC_BK, WMM_AC_BE, WMM_AC_VI, WMM_AC_VI, WMM_AC_VO, WMM_AC_VO]"

record wmm_globals =
  tos_to_tid :: "nat list"
  tos_to_tid_inv :: "nat list"

definition initial_globals :: wmm_globals where
  "initial_globals = \<lparr>tos_to_tid = [1, 2, 0, 3, 4, 5, 6, 7], tos_to_tid_inv = [2, 0, 1, 3, 4, 5, 6, 7]\<rparr>"

subsection \<open>Downgrading\<close>

definition wlan_wmm_convert_tos_to_ac :: "nat \<Rightarrow> mlan_wmm_ac_e" where
  "wlan_wmm_convert_tos_to_ac tos = (if tos \<ge> length tos_to_ac then WMM_AC_BE else tos_to_ac ! tos)"

definition wlan_wmm_downgrade_tid :: "mlan_private \<Rightarrow> nat \<Rightarrow> nat" where
  "wlan_wmm_downgrade_tid p tid =
     (let ac_down = ac_down_graded_vals (wmm p) ! ac_index (wlan_wmm_convert_tos_to_ac tid)
      in if tid = 1 \<or> tid = 2 then ac_to_tid ! ac_index ac_down ! ((tid + 1) mod 2)
         else if tid \<ge> MAX_NUM_TID then ac_to_tid ! ac_index ac_down ! 0
         else ac_to_tid ! ac_index ac_down ! (tid mod 2))"

definition wlan_get_wmm_tid_down :: "mlan_private \<Rightarrow> int \<Rightarrow> nat" where
  "wlan_get_wmm_tid_down p tid = wlan_wmm_downgrade_tid p (nat tid)"

definition wlan_wmm_select_queue :: "mlan_private \<Rightarrow> nat \<Rightarrow> nat" where
  "wlan_wmm_select_queue p tid =
     (let ac_down = ac_down_graded_vals (wmm p) ! ac_index (wlan_wmm_convert_tos_to_ac tid)
      in case find_index (\<lambda>q. q = ac_index ac_down) (take 4 (queue_priority (wmm p))) of
           Some i \<Rightarrow> i | None \<Rightarrow> 0)"

fun downgrade_scan :: "WmmAcStatus_t list \<Rightarrow> nat list \<Rightarrow> mlan_wmm_ac_e \<Rightarrow> mlan_wmm_ac_e" where
  "downgrade_scan st [] ret_ac = ret_ac"
| "downgrade_scan st (down_ac # rest) ret_ac =
     downgrade_scan st rest
       (if \<not> ac_disabled (st ! down_ac) \<and> \<not> flow_required (st ! down_ac) then ac_of down_ac else ret_ac)"

definition wlan_wmm_eval_downgrade_ac :: "mlan_private \<Rightarrow> mlan_wmm_ac_e \<Rightarrow> mlan_wmm_ac_e" where
  "wlan_wmm_eval_downgrade_ac p eval_ac =
     (if \<not> ac_disabled (ac_status (wmm p) ! ac_index eval_ac) then eval_ac
      else downgrade_scan (ac_status (wmm p)) [0..<ac_index eval_ac] WMM_AC_BK)"

definition wlan_wmm_setup_ac_downgrade :: "mlan_private \<Rightarrow> mlan_private" where
  "wlan_wmm_setup_ac_downgrade p =
     p\<lparr>wmm := (wmm p)\<lparr>ac_down_graded_vals :=
        (if \<not> wmm_enabled p then map ac_of [0..<4]
         else map (\<lambda>i. wlan_wmm_eval_downgrade_ac p (ac_of i)) [0..<4])\<rparr>\<rparr>"

subsection \<open>Queue priorities\<close>

record IEEEtypes_WmmAcParameters_t =
  aifsn :: nat
  aci :: nat
  ecw_min :: nat

definition wlan_wmm_default_queue_priorities :: "mlan_private \<Rightarrow> mlan_private" where
  "wlan_wmm_default_queue_priorities p = p\<lparr>wmm := (wmm p)\<lparr>queue_priority := [3, 2, 1, 0]\<rparr>\<rparr>"

definition wlan_wmm_queue_priorities_tid :: "nat list \<Rightarrow> mlan_private \<Rightarrow> wmm_globals
    \<Rightarrow> mlan_private \<times> wmm_globals" where
  "wlan_wmm_queue_priorities_tid qp p g =
     (let tt = fold (\<lambda>i tt. (tt[7 - (i * 2) := ac_to_tid ! (qp ! i) ! 1])[6 - (i * 2) := ac_to_tid ! (qp ! i) ! 0])
                 [0..<4] (tos_to_tid g);
          inv = fold (\<lambda>i inv. inv[tt ! i := i]) [0..<MAX_NUM_TID] (tos_to_tid_inv g)
      in (p\<lparr>wmm := (wmm p)\<lparr>highest_queued_prio :=
             fst (util_scalar_write True True 7 (highest_queued_prio (wmm p)))\<rparr>\<rparr>,
          \<lparr>tos_to_tid = tt, tos_to_tid_inv = inv\<rparr>))"

text \<open>One comparison of the bubble sort, on the back-off values and the queue indices side by side.\<close>

definition swap :: "nat \<Rightarrow> 'a list \<Rightarrow> 'a list" where
  "swap j xs = xs[j - 1 := xs ! j, j := xs ! (j - 1)]"

definition bubble_step :: "nat \<Rightarrow> nat list \<times> nat list \<Rightarrow> nat list \<times> nat list" where
  "bubble_step j s =
     (let (tmp, qp) = s
      in if tmp ! (j - 1) > tmp ! j then (swap j tmp, swap j qp)
         else if tmp ! (j - 1) = tmp ! j
         then (if qp ! (j - 1) < qp ! j then (tmp, swap j qp) else (tmp, qp))
         else (tmp, qp))"

definition bubble_sort :: "nat \<Rightarrow> nat list \<times> nat list \<Rightarrow> nat list \<times> nat list" where
  "bubble_sort num_ac s = fold (\<lambda>i. fold bubble_step [1..<num_ac - i]) [0..<num_ac] s"

fun load_ac_params :: "IEEEtypes_WmmAcParameters_t list \<Rightarrow> nat list \<times> nat list \<Rightarrow> nat list \<times> nat list" where
  "load_ac_params [] s = s"
| "load_ac_params (a # as) (tmp, qp) =
     (let cw_min = 2 ^ ecw_min a - 1;
          avg_back_off = cw_min div 2 + aifsn a;
          ac_idx = wmm_aci_to_qidx_map ! aci a
      in load_ac_params as (tmp[ac_idx := avg_back_off], qp[ac_idx := ac_idx]))"

definition wlan_wmm_setup_queue_priorities :: "IEEEtypes_WmmAcParameters_t list option \<Rightarrow> mlan_private
    \<Rightarrow> wmm_globals \<Rightarrow> mlan_private \<times> wmm_globals" where
  \<comment> \<open>the four AC records of the WMM parameter element\<close>
  "wlan_wmm_setup_queue_priorities pwmm_ie p g =
     (case pwmm_ie of
        None \<Rightarrow> (wlan_wmm_default_queue_priorities p, g)
      | Some ac_params \<Rightarrow>
          if \<not> wmm_enabled p then (wlan_wmm_default_queue_priorities p, g)
          else
            let (tmp, qp) = bubble_sort 4 (load_ac_params ac_params ([0, 0, 0, 0], queue_priority (wmm p)))
            in wlan_wmm_queue_priorities_tid qp (p\<lparr>wmm := (wmm p)\<lparr>queue_priority := qp\<rparr>\<rparr>) g)"

definition wlan_wmm_setup_queues :: "mlan_private \<Rightarrow> wmm_globals \<Rightarrow> mlan_private \<times> wmm_globals" where
  "wlan_wmm_setup_queues p g =
     (let (p1, g1) = wlan_wmm_setup_queue_priorities None p g in (wlan_wmm_setup_ac_downgrade p1, g1))"

subsection \<open>BA setup threshold\<close>

definition wlan_get_random_ba_threshold :: "mlan_adapter \<Rightarrow> t_u8" where
  "wlan_get_random_ba_threshold ad =
     (let (sec0, usec0) = system_time ad;
          sec = (sec0 AND 0xFFFF) + drop_bit 16 sec0;
          usec = (usec0 AND 0xFFFF) + drop_bit 16 usec0
      in ucast ((push_bit 16 sec + usec) mod 16 + 16))"

subsection \<open>Properties\<close>

lemma less_4_cases: "(i::nat) < 4 \<Longrightarrow> i = 0 \<or> i = 1 \<or> i = 2 \<or> i = 3"
  by auto

lemma less_8_cases:
  "(i::nat) < 8 \<Longrightarrow> i = 0 \<or> i = 1 \<or> i = 2 \<or> i = 3 \<or> i = 4 \<or> i = 5 \<or> i = 6 \<or> i = 7"
  by auto

lemma ac_index_less: "ac_index a < 4"
  by (cases a) simp_all

lemma ac_of_index [simp]: "ac_of (ac_index a) = a"
  by (cases a) (simp_all add: ac_of_def)

text \<open>Both TIDs of an access category map back to it.\<close>

lemma tos_to_ac_to_tid:
  assumes "k < 2"
  shows "ac_to_tid ! ac_index a ! k < MAX_NUM_TID
    \<and> wlan_wmm_convert_tos_to_ac (ac_to_tid ! ac_index a ! k) = a"
proof -
  have "k = 0 \<or> k = 1" using assms by auto
  then show ?thesis
    by (cases a) (auto simp: ac_to_tid_def tos_to_ac_def wlan_wmm_convert_tos_to_ac_def)
qed

lemma downgrade_tid_cases:
  "\<exists>k < 2. wlan_wmm_downgrade_tid p tid
     = ac_to_tid ! ac_index (ac_down_graded_vals (wmm p) ! ac_index (wlan_wmm_convert_tos_to_ac tid)) ! k"
  unfolding wlan_wmm_downgrade_tid_def Let_def
  by (simp add: exI [of _ "(tid + 1) mod 2"] exI [of _ "tid mod 2"] exI [of _ "0::nat"])

lemma downgrade_tid_less: "wlan_wmm_downgrade_tid p tid < MAX_NUM_TID"
  using downgrade_tid_cases [of p tid] tos_to_ac_to_tid by metis

text \<open>A downgraded TID is always one of the eight queues, and it lies in exactly the access category
  the downgrade table prescribes for the original priority, whatever 32-bit priority the packet
  carries (out-of-range ones are treated as best effort).\<close>

theorem downgrade_tid_category:
  "wlan_wmm_downgrade_tid p tid < MAX_NUM_TID
   \<and> wlan_wmm_convert_tos_to_ac (wlan_wmm_downgrade_tid p tid)
     = ac_down_graded_vals (wmm p) ! ac_index (wlan_wmm_convert_tos_to_ac tid)"
  using downgrade_tid_cases [of p tid] tos_to_ac_to_tid by metis

lemma downgrade_scan_char:
  assumes "\<forall>i \<in> set is. i < 4" "sorted_wrt (<) is"
  shows "downgrade_scan st is r =
    (case filter (\<lambda>i. \<not> ac_disabled (st ! i) \<and> \<not> flow_required (st ! i)) is of
       [] \<Rightarrow> r | xs \<Rightarrow> ac_of (last xs))"
  using assms by (induction "is" arbitrary: r) (auto split: list.splits)

text \<open>The downgrade table is what the admission rules ask for: an enabled category keeps its own
  traffic; a disabled one falls to the highest lower category that is enabled and needs no
  admission, and to background when there is none.\<close>

theorem eval_downgrade_highest:
  "wlan_wmm_eval_downgrade_ac p a =
     (let ok = (\<lambda>i. \<not> ac_disabled (ac_status (wmm p) ! i) \<and> \<not> flow_required (ac_status (wmm p) ! i));
          lower = {i. i < ac_index a \<and> ok i}
      in if \<not> ac_disabled (ac_status (wmm p) ! ac_index a) then a
         else if lower = {} then WMM_AC_BK else ac_of (Max lower))"
proof -
  define ok where "ok = (\<lambda>i. \<not> ac_disabled (ac_status (wmm p) ! i) \<and> \<not> flow_required (ac_status (wmm p) ! i))"
  define xs where "xs = filter ok [0..<ac_index a]"
  have s: "sorted xs" and set: "set xs = {i. i < ac_index a \<and> ok i}"
    by (auto simp: xs_def intro: sorted_wrt_filter)
  have m: "Max (set xs) = last xs" if "xs \<noteq> []"
  proof (rule Max_eqI)
    show "finite (set xs)" by simp
    show "y \<le> last xs" if y: "y \<in> set xs" for y
    proof -
      have "xs = butlast xs @ [last xs]" using \<open>xs \<noteq> []\<close> by simp
      then have "sorted (butlast xs @ [last xs])" "y \<in> set (butlast xs @ [last xs])" using s y by auto
      then show ?thesis by (auto simp: sorted_append)
    qed
    show "last xs \<in> set xs" using that by simp
  qed
  have "downgrade_scan (ac_status (wmm p)) [0..<ac_index a] WMM_AC_BK
      = (case xs of [] \<Rightarrow> WMM_AC_BK | _ \<Rightarrow> ac_of (last xs))"
    using ac_index_less [of a]
    by (subst downgrade_scan_char) (auto simp: xs_def ok_def strict_sorted_iff split: list.splits)
  then show ?thesis
    unfolding wlan_wmm_eval_downgrade_ac_def Let_def ok_def [symmetric] set [symmetric]
    using m by (cases xs) auto
qed

lemma random_ba_threshold_bounds:
  "16 \<le> unat (wlan_get_random_ba_threshold ad) \<and> unat (wlan_get_random_ba_threshold ad) < 32"
proof -
  obtain sec usec where t: "system_time ad = (sec, usec)" by fastforce
  define x where "x = push_bit 16 ((sec AND 0xFFFF) + drop_bit 16 sec) + ((usec AND 0xFFFF) + drop_bit 16 usec)"
  have m: "unat (x mod 16) = unat x mod 16" by (simp add: unat_mod)
  then have "unat (x mod 16 + 16) = unat x mod 16 + 16"
    by (subst unat_add_lem [THEN iffD1]) auto
  then have "unat (ucast (x mod 16 + 16) :: t_u8) = unat x mod 16 + 16"
    by (simp add: unsigned_ucast_eq take_bit_nat_def)
  then show ?thesis
    by (simp add: wlan_get_random_ba_threshold_def t Let_def x_def [symmetric])
qed


subsection \<open>The queue order\<close>

abbreviation qidx :: "IEEEtypes_WmmAcParameters_t \<Rightarrow> nat" where
  "qidx a \<equiv> wmm_aci_to_qidx_map ! aci a"

abbreviation back_off :: "IEEEtypes_WmmAcParameters_t \<Rightarrow> nat" where
  "back_off a \<equiv> (2 ^ ecw_min a - 1) div 2 + aifsn a"

text \<open>The order of the sort, as one number: back-off first, then the higher access category.\<close>

definition order_key :: "nat \<times> nat \<Rightarrow> nat" where
  "order_key x = 4 * fst x + (3 - snd x)"

lemma order_key_le:
  "4 * a + (3 - x) \<le> 4 * b + (3 - y) \<Longrightarrow> x \<noteq> y \<Longrightarrow> x < 4 \<Longrightarrow> y < 4 \<Longrightarrow> a < b \<or> (a = b \<and> y < (x::nat))"
  by presburger

definition cswap :: "('a \<Rightarrow> nat) \<Rightarrow> nat \<Rightarrow> 'a list \<Rightarrow> 'a list" where
  "cswap f j xs = (if f (xs ! (j - 1)) > f (xs ! j) then swap j xs else xs)"

lemma length_swap [simp]: "length (swap j xs) = length xs"
  by (simp add: swap_def)

lemma length_cswap [simp]: "length (cswap f j xs) = length xs"
  by (simp add: cswap_def)

lemma swap_nth:
  "i < length xs \<Longrightarrow> j < length xs \<Longrightarrow>
     swap j xs ! i = (if i = j then xs ! (j - 1) else if i = j - 1 then xs ! j else xs ! i)"
  by (simp add: swap_def nth_list_update)

lemma zip_swap:
  assumes "length xs = length ys" "j < length xs"
  shows "zip (swap j xs) (swap j ys) = swap j (zip xs ys)"
  using assms by (intro nth_equalityI) (auto simp: swap_nth)

lemma map_swap: "j < length xs \<Longrightarrow> map f (swap j xs) = swap j (map f xs)"
  by (simp add: swap_def map_update)

lemma map_cswap:
  "j < length xs \<Longrightarrow> map f (cswap f j xs) = cswap id j (map f xs)"
  by (simp add: cswap_def map_swap)

lemma mset_cswap: "j < length xs \<Longrightarrow> mset (cswap f j xs) = mset xs"
  by (simp add: cswap_def swap_def mset_swap)

lemma bubble_step_cswap:
  assumes l: "length tmp = length qp" "0 < j" "j < length tmp" and q: "\<forall>q \<in> set qp. q < 4"
  shows "\<exists>tmp' qp'. bubble_step j (tmp, qp) = (tmp', qp') \<and> length tmp' = length qp'
           \<and> length qp' = length qp \<and> set qp' = set qp
           \<and> zip tmp' qp' = cswap order_key j (zip tmp qp)"
proof -
  have b: "qp ! j < 4" "qp ! (j - 1) < 4" using q l by auto
  have s: "set (swap j qp) = set qp"
    using l mset_swap [of j qp "j - 1"] by (metis less_imp_diff_less mset_eq_setD swap_def mset_swap list_update_swap)
  have t: "swap j tmp = tmp" if "tmp ! (j - 1) = tmp ! j"
    using that l by (intro nth_equalityI) (auto simp: swap_nth)
  have t': "swap j qp = qp" if "qp ! (j - 1) = qp ! j"
    using that l by (intro nth_equalityI) (auto simp: swap_nth)
  have z: "zip tmp (swap j qp) = swap j (zip tmp qp)" if "tmp ! (j - 1) = tmp ! j"
    using t [OF that] zip_swap [of tmp qp j] l by simp
  show ?thesis
    using l b s z zip_swap [of tmp qp j]
    by (auto simp: bubble_step_def cswap_def order_key_def)
qed


lemma bubble_steps_cswap:
  assumes "length tmp = length qp" "\<forall>j \<in> set js. 0 < j \<and> j < length tmp" "\<forall>q \<in> set qp. q < 4"
  shows "\<exists>tmp' qp'. fold bubble_step js (tmp, qp) = (tmp', qp') \<and> length tmp' = length qp'
           \<and> length qp' = length qp \<and> set qp' = set qp
           \<and> zip tmp' qp' = fold (cswap order_key) js (zip tmp qp)"
  using assms
proof (induction js arbitrary: tmp qp)
  case Nil
  then show ?case by simp
next
  case (Cons j js)
  obtain t1 q1 where 1: "bubble_step j (tmp, qp) = (t1, q1)" "length t1 = length q1"
    "length q1 = length qp" "set q1 = set qp" "zip t1 q1 = cswap order_key j (zip tmp qp)"
    using bubble_step_cswap [of tmp qp j] Cons.prems by auto
  show ?case
    using Cons.IH [of t1 q1] 1 Cons.prems by simp
qed

lemma mset_cswaps:
  "\<forall>j \<in> set js. j < length xs \<Longrightarrow> mset (fold (cswap f) js xs) = mset xs"
  by (induction js arbitrary: xs) (simp_all add: mset_cswap)

lemma map_cswaps:
  "\<forall>j \<in> set js. j < length xs \<Longrightarrow> map f (fold (cswap f) js xs) = fold (cswap id) js (map f xs)"
  by (induction js arbitrary: xs) (simp_all add: map_cswap)

lemma cswap_network_sorts:
  fixes ks :: "nat list"
  assumes "length ks = 4"
  shows "sorted (fold (cswap id) [1, 2, 3, 1, 2, 1] ks)"
proof -
  obtain a b c d where "ks = [a, b, c, d]"
    using assms by (auto simp: eval_nat_numeral length_Suc_conv)
  then show ?thesis by (simp add: cswap_def swap_def)
qed

lemma bubble_sort_4: "bubble_sort 4 s = fold bubble_step [1, 2, 3, 1, 2, 1] s"
  by (simp add: bubble_sort_def upt_rec numeral_eq_Suc)

lemma bubble_sort_sorts:
  assumes "length tmp = 4" "length qp = 4" "\<forall>q \<in> set qp. q < 4" "bubble_sort 4 (tmp, qp) = (tmp', qp')"
  shows "length tmp' = 4 \<and> length qp' = 4 \<and> set qp' = set qp \<and> mset (zip tmp' qp') = mset (zip tmp qp)
    \<and> sorted (map order_key (zip tmp' qp'))"
proof -
  have js: "\<forall>j \<in> set [1, 2, 3, 1, 2, 1]. 0 < j \<and> j < length tmp" using assms(1) by auto
  have z: "length tmp' = length qp'" "length qp' = length qp" "set qp' = set qp"
    "zip tmp' qp' = fold (cswap order_key) [1, 2, 3, 1, 2, 1] (zip tmp qp)"
    using bubble_steps_cswap [OF _ js assms(3)] assms by (auto simp only: bubble_sort_4 prod.inject)
  have js': "\<forall>j \<in> set [1, 2, 3, 1, 2, 1]. j < length (zip tmp qp)" using assms by auto
  show ?thesis
    using z(1-3) assms(1,2) cswap_network_sorts [of "map order_key (zip tmp qp)"]
    unfolding z(4) mset_cswaps [OF js'] map_cswaps [OF js'] by simp
qed

lemma load_ac_params_at:
  assumes "distinct (map aci as)" "\<forall>a \<in> set as. aci a < 4" "length tmp = 4" "length qp = 4"
    "load_ac_params as (tmp, qp) = (tmp', qp')"
  shows "length tmp' = 4 \<and> length qp' = 4
    \<and> (\<forall>a \<in> set as. tmp' ! qidx a = back_off a \<and> qp' ! qidx a = qidx a)
    \<and> (\<forall>i. i \<notin> qidx ` set as \<longrightarrow> tmp' ! i = tmp ! i \<and> qp' ! i = qp ! i)"
  using assms
proof (induction as arbitrary: tmp qp)
  case Nil
  then show ?case by simp
next
  case (Cons a as)
  have q: "qidx a < 4" using less_4_cases [of "aci a"] Cons.prems(2) by (auto simp: wmm_aci_to_qidx_map_def)
  have inj: "qidx b \<noteq> qidx a" if b: "b \<in> set as" for b
  proof -
    have "aci a \<notin> aci ` set as" using Cons.prems(1) by simp
    then have "aci b \<noteq> aci a" using b by (metis image_eqI)
    moreover have "aci b < 4" "aci a < 4" using Cons.prems(2) b by auto
    ultimately show ?thesis
      using less_4_cases [of "aci a"] less_4_cases [of "aci b"] by (auto simp: wmm_aci_to_qidx_map_def)
  qed
  then have ni: "qidx a \<notin> qidx ` set as" by force
  have r: "load_ac_params as (tmp[qidx a := back_off a], qp[qidx a := qidx a]) = (tmp', qp')"
    using Cons.prems(5) by (simp add: Let_def)
  have ih: "length tmp' = 4 \<and> length qp' = 4
    \<and> (\<forall>a \<in> set as. tmp' ! qidx a = back_off a \<and> qp' ! qidx a = qidx a)
    \<and> (\<forall>i. i \<notin> qidx ` set as \<longrightarrow> tmp' ! i = tmp[qidx a := back_off a] ! i \<and> qp' ! i = qp[qidx a := qidx a] ! i)"
    using Cons.prems by (intro Cons.IH [OF _ _ _ _ r]) auto
  then show ?case using q ni Cons.prems(3,4) by auto
qed


lemma inverse_table:
  assumes "\<forall>i < n. \<forall>j < n. f i = f j \<longrightarrow> i = j" "\<forall>i < n. f i < length iv"
  shows "length (fold (\<lambda>i iv. iv[f i := i]) [0..<n] iv) = length iv
    \<and> (\<forall>i < n. fold (\<lambda>i iv. iv[f i := i]) [0..<n] iv ! f i = i)"
  using assms
proof (induction n)
  case 0
  then show ?case by simp
next
  case (Suc n)
  define F where "F = fold (\<lambda>i iv. iv[f i := i]) [0..<n] iv"
  have ih: "length F = length iv" "\<forall>i < n. F ! f i = i"
    using Suc.IH Suc.prems by (simp_all add: F_def)
  have ne: "f n \<noteq> f i" if "i < n" for i using Suc.prems(1) that by (metis lessI less_Suc_eq nat_neq_iff)
  have "(F[f n := n]) ! f i = i" if "i < Suc n" for i
    using that ih ne Suc.prems(2) by (cases "i = n") (simp_all add: less_Suc_eq nth_list_update_neq)
  then show ?case using ih by (simp add: F_def)
qed

text \<open>The two tables that \<open>wlan_wmm_queue_priorities_tid\<close> writes for the queue order \<open>qp\<close>.\<close>

definition tid_tables :: "nat list \<Rightarrow> wmm_globals \<Rightarrow> bool" where
  "tid_tables qp g \<longleftrightarrow> length (tos_to_tid g) = MAX_NUM_TID \<and> length (tos_to_tid_inv g) = MAX_NUM_TID
     \<and> (\<forall>i < 4. \<forall>k < 2. tos_to_tid g ! (6 - i * 2 + k) = ac_to_tid ! (qp ! i) ! k)
     \<and> (\<forall>tid < MAX_NUM_TID. tos_to_tid_inv g ! (tos_to_tid g ! tid) = tid
           \<and> tos_to_tid_inv g ! tid < MAX_NUM_TID \<and> tos_to_tid g ! (tos_to_tid_inv g ! tid) = tid)"

lemma tos_to_tid_written:
  assumes "length qp = 4" "length tt = 8"
  shows "fold (\<lambda>i tt. (tt[7 - (i * 2) := ac_to_tid ! (qp ! i) ! 1])[6 - (i * 2) := ac_to_tid ! (qp ! i) ! 0])
           [0..<4] tt
       = [ac_to_tid ! (qp ! 3) ! 0, ac_to_tid ! (qp ! 3) ! 1, ac_to_tid ! (qp ! 2) ! 0, ac_to_tid ! (qp ! 2) ! 1,
          ac_to_tid ! (qp ! 1) ! 0, ac_to_tid ! (qp ! 1) ! 1, ac_to_tid ! (qp ! 0) ! 0, ac_to_tid ! (qp ! 0) ! 1]"
proof -
  obtain a b c d e f g h where "tt = [a, b, c, d, e, f, g, h]"
    using assms(2) by (auto simp: eval_nat_numeral length_Suc_conv)
  moreover have "[0..<4] = [0, 1, 2, 3::nat]" by (simp add: upt_rec numeral_eq_Suc)
  ultimately show ?thesis by simp
qed

lemma tids_of_queues:
  assumes "length qp = 4" "set qp = {0..<4}"
  shows "distinct [ac_to_tid ! (qp ! 3) ! 0, ac_to_tid ! (qp ! 3) ! 1, ac_to_tid ! (qp ! 2) ! 0, ac_to_tid ! (qp ! 2) ! 1,
          ac_to_tid ! (qp ! 1) ! 0, ac_to_tid ! (qp ! 1) ! 1, ac_to_tid ! (qp ! 0) ! 0, ac_to_tid ! (qp ! 0) ! 1]
      \<and> set [ac_to_tid ! (qp ! 3) ! 0, ac_to_tid ! (qp ! 3) ! 1, ac_to_tid ! (qp ! 2) ! 0, ac_to_tid ! (qp ! 2) ! 1,
          ac_to_tid ! (qp ! 1) ! 0, ac_to_tid ! (qp ! 1) ! 1, ac_to_tid ! (qp ! 0) ! 0, ac_to_tid ! (qp ! 0) ! 1]
        = set [0..<8]"
proof -
  have "qp \<in> set (filter distinct (List.n_lists 4 [0, 1, 2, 3]))"
    using assms card_distinct [of qp] by (auto simp: set_n_lists)
  moreover have "\<forall>qp \<in> set (filter distinct (List.n_lists 4 [0, 1, 2, 3])).
      distinct [ac_to_tid ! (qp ! 3) ! 0, ac_to_tid ! (qp ! 3) ! 1, ac_to_tid ! (qp ! 2) ! 0, ac_to_tid ! (qp ! 2) ! 1,
          ac_to_tid ! (qp ! 1) ! 0, ac_to_tid ! (qp ! 1) ! 1, ac_to_tid ! (qp ! 0) ! 0, ac_to_tid ! (qp ! 0) ! 1]
      \<and> set [ac_to_tid ! (qp ! 3) ! 0, ac_to_tid ! (qp ! 3) ! 1, ac_to_tid ! (qp ! 2) ! 0, ac_to_tid ! (qp ! 2) ! 1,
          ac_to_tid ! (qp ! 1) ! 0, ac_to_tid ! (qp ! 1) ! 1, ac_to_tid ! (qp ! 0) ! 0, ac_to_tid ! (qp ! 0) ! 1]
        = set [0..<8]"
    by code_simp
  ultimately show ?thesis by blast
qed

lemma tid_tables_written:
  assumes "length qp = 4" "set qp = {0..<4}" "length (tos_to_tid g) = 8" "length (tos_to_tid_inv g) = 8"
    "wlan_wmm_queue_priorities_tid qp p g = (p', g')"
  shows "tid_tables qp g'"
proof -
  define tt where "tt = [ac_to_tid ! (qp ! 3) ! 0, ac_to_tid ! (qp ! 3) ! 1, ac_to_tid ! (qp ! 2) ! 0, ac_to_tid ! (qp ! 2) ! 1,
          ac_to_tid ! (qp ! 1) ! 0, ac_to_tid ! (qp ! 1) ! 1, ac_to_tid ! (qp ! 0) ! 0, ac_to_tid ! (qp ! 0) ! 1]"
  define iv where "iv = fold (\<lambda>i iv. iv[tt ! i := i]) [0..<MAX_NUM_TID] (tos_to_tid_inv g)"
  have d: "distinct tt" and set: "set tt = {0..<8}" and len: "length tt = 8"
    using tids_of_queues [OF assms(1,2)] unfolding tt_def by (simp_all only: atLeast_upt list.size) simp_all
  have g': "g' = \<lparr>tos_to_tid = tt, tos_to_tid_inv = iv\<rparr>"
    using assms(5) tos_to_tid_written [OF assms(1,3)]
    by (simp add: wlan_wmm_queue_priorities_tid_def Let_def tt_def iv_def)
  have r: "tt ! i < 8" if "i < 8" for i using nth_mem [of i tt] that len set by auto
  have inv: "length iv = 8 \<and> (\<forall>i < 8. iv ! (tt ! i) = i)"
    unfolding iv_def using inverse_table [of 8 "\<lambda>i. tt ! i" "tos_to_tid_inv g"] d len r assms(4)
    by (auto simp: nth_eq_iff_index_eq)
  have "iv ! tid < 8 \<and> tt ! (iv ! tid) = tid" if "tid < 8" for tid
  proof -
    have "tid \<in> set tt" using set that by simp
    then obtain i where i: "i < 8" "tt ! i = tid" using len by (auto simp: in_set_conv_nth)
    then have "iv ! tid = i" using inv by auto
    with i show ?thesis by simp
  qed
  moreover have "tt ! (6 - i * 2 + k) = ac_to_tid ! (qp ! i) ! k" if "i < 4" "k < 2" for i k
  proof -
    have "k = 0 \<or> k = 1" using that by auto
    then show ?thesis using less_4_cases [OF that(1)] by (auto simp: tt_def)
  qed
  ultimately show ?thesis using inv len by (simp add: tid_tables_def g')
qed


text \<open>From a WMM element that describes each of the four access categories once, the queue
  order lists every category once, in order of the mean back-off \<open>(2^ecw_min - 1) div 2 + aifsn\<close>, equal
  back-offs resolved in favour of the higher category; the TID tables written from it list each of
  the eight TIDs exactly once (each queue's two TIDs adjacent, the first queue highest), and
  \<^verbatim>\<open>tos_to_tid_inv\<close> is the inverse of \<^verbatim>\<open>tos_to_tid\<close> in both directions.\<close>

theorem wmm_queue_order:
  assumes "wmm_enabled p" "length params = 4" "aci ` set params = {0..<4}"
    "length (queue_priority (wmm p)) = 4" "length (tos_to_tid g) = 8" "length (tos_to_tid_inv g) = 8"
    "wlan_wmm_setup_queue_priorities (Some params) p g = (p', g')"
  shows "distinct (queue_priority (wmm p')) \<and> set (queue_priority (wmm p')) = {0..<4}
    \<and> (\<forall>j < 4. \<forall>i < j. \<forall>a \<in> set params. \<forall>b \<in> set params.
         qidx a = queue_priority (wmm p') ! i \<longrightarrow> qidx b = queue_priority (wmm p') ! j \<longrightarrow>
         back_off a < back_off b \<or> (back_off a = back_off b \<and> qidx b < qidx a))
    \<and> tid_tables (queue_priority (wmm p')) g'"
proof -
  obtain t0 q0 where load: "load_ac_params params ([0, 0, 0, 0], queue_priority (wmm p)) = (t0, q0)" by fastforce
  obtain t1 q1 where sort: "bubble_sort 4 (t0, q0) = (t1, q1)" by fastforce
  have set4: "set params \<noteq> {} \<and> (\<forall>a \<in> set params. aci a < 4)" using assms(2,3) by auto
  have "card (set (map aci params)) = length (map aci params)" using assms(2,3) by simp
  then have dist: "distinct (map aci params)" by (rule card_distinct)
  have at: "length t0 = 4" "length q0 = 4" "\<forall>a \<in> set params. t0 ! qidx a = back_off a \<and> q0 ! qidx a = qidx a"
    using load_ac_params_at [OF dist _ _ assms(4) load] set4 by auto
  have onto: "\<exists>a \<in> set params. qidx a = i" if "i < 4" for i
  proof -
    have "wmm_aci_to_qidx_map ! i < 4 \<and> wmm_aci_to_qidx_map ! (wmm_aci_to_qidx_map ! i) = i"
      using less_4_cases [OF that] by (auto simp: wmm_aci_to_qidx_map_def)
    moreover then have "wmm_aci_to_qidx_map ! i \<in> aci ` set params" using assms(3) by simp
    ultimately show ?thesis by fastforce
  qed
  have q0: "q0 ! i = i" if "i < 4" for i using onto [OF that] at by auto
  have q0': "q0 = [0..<4]" using q0 at by (intro nth_equalityI) auto
  have s: "length t1 = 4" "length q1 = 4" "set q1 = {0..<4}" "mset (zip t1 q1) = mset (zip t0 q0)"
    "sorted (map order_key (zip t1 q1))"
    using bubble_sort_sorts [OF at(1,2) _ sort] q0' by auto
  have tmp: "t1 ! i = t0 ! (q1 ! i)" if "i < 4" for i
  proof -
    have "(t1 ! i, q1 ! i) \<in> set (zip t1 q1)" using s that by (auto simp: set_zip)
    then have "(t1 ! i, q1 ! i) \<in> set (zip t0 q0)" using s(4) mset_eq_setD by blast
    then show ?thesis using q0 at by (auto simp: set_zip)
  qed
  have d: "distinct q1" using s(2,3) by (intro card_distinct) simp
  have order: "back_off a < back_off b \<or> (back_off a = back_off b \<and> qidx b < qidx a)"
    if ij: "j < 4" "i < j" and ab: "a \<in> set params" "b \<in> set params" "qidx a = q1 ! i" "qidx b = q1 ! j" for i j a b
  proof -
    have "order_key (t1 ! i, q1 ! i) \<le> order_key (t1 ! j, q1 ! j)"
      using s ij sorted_nth_mono [OF s(5), of i j] by simp
    moreover have "t1 ! i = back_off a" "t1 ! j = back_off b" using tmp ij ab at(3) by auto
    ultimately have le: "4 * back_off a + (3 - qidx a) \<le> 4 * back_off b + (3 - qidx b)"
      unfolding ab(3,4) by (simp only: order_key_def fst_conv snd_conv)
    have "qidx a \<noteq> qidx b" using d s(2) ij ab by (simp add: nth_eq_iff_index_eq)
    moreover have "qidx a < 4" "qidx b < 4" using s(2,3) ij nth_mem [of i q1] nth_mem [of j q1] ab by auto
    ultimately show ?thesis by (rule order_key_le [OF le])
  qed
  have w: "wlan_wmm_queue_priorities_tid q1 (p\<lparr>wmm := (wmm p)\<lparr>queue_priority := q1\<rparr>\<rparr>) g = (p', g')"
    using assms(1,7) load sort by (simp add: wlan_wmm_setup_queue_priorities_def)
  have qp: "queue_priority (wmm p') = q1"
    using w by (auto simp: wlan_wmm_queue_priorities_tid_def Let_def)
  show ?thesis
    unfolding qp using d s order tid_tables_written [OF s(2,3) assms(5,6) w] by blast
qed

lemma load_ac_params_queues:
  assumes "\<forall>a \<in> set as. aci a < 4" "length tmp = 4" "length qp = 4"
    "load_ac_params as (tmp, qp) = (tmp', qp')"
  shows "length tmp' = 4 \<and> length qp' = 4 \<and> (\<forall>i. qp' ! i = (if i \<in> qidx ` set as then i else qp ! i))"
  using assms
proof (induction as arbitrary: tmp qp)
  case Nil
  then show ?case by simp
next
  case (Cons a as)
  have q: "qidx a < 4" using less_4_cases [of "aci a"] Cons.prems(1) by (auto simp: wmm_aci_to_qidx_map_def)
  have r: "load_ac_params as (tmp[qidx a := back_off a], qp[qidx a := qidx a]) = (tmp', qp')"
    using Cons.prems(4) by (simp add: Let_def)
  have ih: "length tmp' = 4 \<and> length qp' = 4
      \<and> (\<forall>i. qp' ! i = (if i \<in> qidx ` set as then i else qp[qidx a := qidx a] ! i))"
    using Cons.prems by (intro Cons.IH [OF _ _ _ r]) auto
  then show ?case using q Cons.prems(3) by (auto simp: nth_list_update)
qed

text \<open>An element that describes best effort, video and voice but repeats one of them instead of
  describing background leaves TIDs 1 and 2 out of \<^verbatim>\<open>tos_to_tid\<close>: the scheduler, which visits
  the queues in the order of that table, then never serves them.  Nothing in the code checks the element for it.\<close>

theorem wmm_repeated_aci_drops_background:
  assumes "wmm_enabled p" "aci ` set params = {0, 2, 3}"
    "length (queue_priority (wmm p)) = 4" "queue_priority (wmm p) ! 0 \<in> {1, 2, 3}" "length (tos_to_tid g) = 8"
    "wlan_wmm_setup_queue_priorities (Some params) p g = (p', g')"
  shows "1 \<notin> set (tos_to_tid g') \<and> 2 \<notin> set (tos_to_tid g')"
proof -
  obtain t0 q0 where load: "load_ac_params params ([0, 0, 0, 0], queue_priority (wmm p)) = (t0, q0)" by fastforce
  obtain t1 q1 where sort: "bubble_sort 4 (t0, q0) = (t1, q1)" by fastforce
  have "aci a = 0 \<or> aci a = 2 \<or> aci a = 3" if "a \<in> set params" for a
    using assms(2) that by (metis empty_iff image_eqI insert_iff)
  then have lt: "\<forall>a \<in> set params. aci a < 4" by fastforce
  have img: "qidx ` set params = {1, 2, 3}"
  proof -
    have "qidx ` set params = (\<lambda>i. wmm_aci_to_qidx_map ! i) ` {0, 2, 3}" by (simp only: assms(2) [symmetric] image_image)
    then show ?thesis by (simp add: wmm_aci_to_qidx_map_def numeral_eq_Suc)
  qed
  have l: "length t0 = 4" "length q0 = 4" "\<And>i. q0 ! i = (if i \<in> {1, 2, 3} then i else queue_priority (wmm p) ! i)"
    using load_ac_params_queues [OF lt _ assms(3) load] img by auto
  have q0: "q0 ! i \<in> {1, 2, 3}" if "i < 4" for i
    using that less_4_cases [of i] l(3) [of i] assms(4) by auto
  then have set0: "set q0 \<subseteq> {1, 2, 3}" using l(2) by (metis in_set_conv_nth subsetI)
  then have "\<forall>q \<in> set q0. q < 4" by fastforce
  then have s: "length q1 = 4" "set q1 = set q0"
    using bubble_sort_sorts [OF l(1,2) _ sort] by auto
  have q1: "q1 ! i = 1 \<or> q1 ! i = 2 \<or> q1 ! i = 3" if "i < 4" for i
    using set0 nth_mem [of i q1] that s by auto
  have w: "wlan_wmm_queue_priorities_tid q1 (p\<lparr>wmm := (wmm p)\<lparr>queue_priority := q1\<rparr>\<rparr>) g = (p', g')"
    using assms(1,6) load sort by (simp add: wlan_wmm_setup_queue_priorities_def)
  have t: "ac_to_tid ! (q1 ! i) ! k \<noteq> 1 \<and> ac_to_tid ! (q1 ! i) ! k \<noteq> 2" if "i < 4" "k = 0 \<or> k = 1" for i k
    using q1 [OF that(1)] that(2) by (auto simp: ac_to_tid_def)
  have "tos_to_tid g' = [ac_to_tid ! (q1 ! 3) ! 0, ac_to_tid ! (q1 ! 3) ! 1, ac_to_tid ! (q1 ! 2) ! 0, ac_to_tid ! (q1 ! 2) ! 1,
          ac_to_tid ! (q1 ! 1) ! 0, ac_to_tid ! (q1 ! 1) ! 1, ac_to_tid ! (q1 ! 0) ! 0, ac_to_tid ! (q1 ! 0) ! 1]"
    using w tos_to_tid_written [OF s(1) assms(5)] by (auto simp: wlan_wmm_queue_priorities_tid_def Let_def)
  then have "\<forall>x \<in> set (tos_to_tid g'). x \<noteq> 1 \<and> x \<noteq> 2" using t by simp
  then show ?thesis by blast
qed

end
