(* ===== verification/Wmm_Queues.thy ===== *)
theory Wmm_Queues
  imports Wmm_Tables
begin

text \<open>
  The transmit queues (\<^verbatim>\<open>mlan_wmm.c\<close>): one list of receiver nodes per TID, each with its
  packet queue, and the packet counters kept beside them (per node, per TID, paused per TID, and the total
  that may be sent now).  The operations are those that create and remove nodes, queue and drop
  packets and pause receivers; the theory shows that the counters always agree with the queues.
  The operations run under the interface's \<^verbatim>\<open>ra_list_spinlock\<close>, so each is one step.
  Addresses of new nodes are a parameter: \<open>alloc tid\<close> is what \<^verbatim>\<open>moal_malloc\<close> returns.
\<close>

abbreviation HIGH_PRIO_TID :: t_s32 where "HIGH_PRIO_TID \<equiv> 7"
abbreviation RX_LOW_THRESHOLD :: nat where "RX_LOW_THRESHOLD \<equiv> 128"
abbreviation MLAN_BUF_TYPE_DATA :: nat where "MLAN_BUF_TYPE_DATA \<equiv> 2"
abbreviation MLAN_BUF_FLAG_TDLS :: t_u32 where "MLAN_BUF_FLAG_TDLS \<equiv> 0x100"

subsection \<open>Receiver nodes\<close>

text \<open>The receiver nodes of a TID, and updates of one TID's table and of one node.\<close>

definition ras :: "mlan_private \<Rightarrow> nat \<Rightarrow> raListTbl list" where
  "ras p tid = ra_list (tid_tbl_ptr (wmm p) ! tid)"

definition upd_wmm :: "(wmm_desc_t \<Rightarrow> wmm_desc_t) \<Rightarrow> mlan_private \<Rightarrow> mlan_private" where
  "upd_wmm f p = p\<lparr>wmm := f (wmm p)\<rparr>"

definition upd_tid :: "nat \<Rightarrow> (tid_tbl_t \<Rightarrow> tid_tbl_t) \<Rightarrow> mlan_private \<Rightarrow> mlan_private" where
  "upd_tid tid f = upd_wmm (\<lambda>w. w\<lparr>tid_tbl_ptr := (tid_tbl_ptr w)[tid := f (tid_tbl_ptr w ! tid)]\<rparr>)"

definition upd_ra :: "nat \<Rightarrow> nat \<Rightarrow> (raListTbl \<Rightarrow> raListTbl) \<Rightarrow> mlan_private \<Rightarrow> mlan_private" where
  "upd_ra tid i f = upd_tid tid (\<lambda>t. t\<lparr>ra_list := (ra_list t)[i := f (ra_list t ! i)]\<rparr>)"

definition add_queued :: "nat \<Rightarrow> t_u32 \<Rightarrow> mlan_private \<Rightarrow> mlan_private" where
  "add_queued tid d = upd_wmm (\<lambda>w. w\<lparr>pkts_queued := (pkts_queued w)[tid := pkts_queued w ! tid + d]\<rparr>)"

definition add_paused :: "nat \<Rightarrow> t_u32 \<Rightarrow> mlan_private \<Rightarrow> mlan_private" where
  "add_paused tid d = upd_wmm (\<lambda>w. w\<lparr>pkts_paused := (pkts_paused w)[tid := pkts_paused w ! tid + d]\<rparr>)"

definition write_tx_pkts_queued :: "t_u32 \<Rightarrow> mlan_private \<Rightarrow> mlan_private" where
  "write_tx_pkts_queued n = upd_wmm (\<lambda>w. w\<lparr>tx_pkts_queued := fst (util_scalar_write False False n (tx_pkts_queued w))\<rparr>)"

definition write_highest_prio :: "t_s32 \<Rightarrow> mlan_private \<Rightarrow> mlan_private" where
  "write_highest_prio n =
     upd_wmm (\<lambda>w. w\<lparr>highest_queued_prio := fst (util_scalar_write False False n (highest_queued_prio w))\<rparr>)"

definition read_tx_pkts_queued :: "mlan_private \<Rightarrow> t_u32" where
  "read_tx_pkts_queued p = fst (util_scalar_read False False (tx_pkts_queued (wmm p)))"

definition wlan_wmm_get_ralist_node :: "mlan_private \<Rightarrow> nat \<Rightarrow> mac \<Rightarrow> nat option" where
  "wlan_wmm_get_ralist_node p tid addr = find_index (\<lambda>r. ra r = addr) (ras p tid)"

definition wlan_is_ralist_valid :: "mlan_private \<Rightarrow> ptr \<Rightarrow> nat \<Rightarrow> bool" where
  "wlan_is_ralist_valid p a tid = (find_index (\<lambda>r. ra_addr r = a) (ras p tid) \<noteq> None)"

text \<open>\<^verbatim>\<open>moal_malloc\<close> returns zeroed memory.\<close>

definition wlan_wmm_allocate_ralist_node :: "ptr option \<Rightarrow> mac \<Rightarrow> raListTbl option" where
  "wlan_wmm_allocate_ralist_node a addr =
     map_option (\<lambda>a. \<lparr>ra_addr = a, buf_head = [], ra = addr, total_pkts = 0, packet_count = 0,
       ba_packet_threshold = 0, ra_is_11n_enabled = False, ra_max_amsdu = 0,
       ra_ba_status = BA_STREAM_NOT_SETUP, del_ba_count = 0, amsdu_in_ampdu = False,
       is_tdls_link = False, tx_pause = False\<rparr>) a"

text \<open>What \<^verbatim>\<open>wlan_ralist_add\<close> fills into a new node.\<close>

definition init_ralist_node :: "mlan_adapter \<Rightarrow> mlan_private \<Rightarrow> raListTbl \<Rightarrow> raListTbl" where
  "init_ralist_node ad p r0 =
     (let r1 = r0\<lparr>ra_max_amsdu := 0, ra_ba_status := BA_STREAM_NOT_SETUP, amsdu_in_ampdu := False\<rparr>;
          r2 = (if queuing_ra_based p
                then let n = wlan_is_11n_enabled p (ra r1)
                     in r1\<lparr>ra_is_11n_enabled := n,
                           ra_max_amsdu := (if n then get_station_max_amsdu_size p (ra r1) else 0),
                           tx_pause := wlan_is_tx_pause p (ra r1)\<rparr>
                else if wlan_is_tdls_link_setup (wlan_get_tdls_link_status p (ra r1))
                then let n = is_station_11n_enabled p (ra r1)
                     in r1\<lparr>is_tdls_link := True, tx_pause := False, ra_is_11n_enabled := n,
                           ra_max_amsdu := (if n then get_station_max_amsdu_size p (ra r1) else 0)\<rparr>
                else r1\<lparr>is_tdls_link := False, tx_pause := False, ra_is_11n_enabled := IS_11N_ENABLED p,
                        ra_max_amsdu := (if IS_11N_ENABLED p then priv_max_amsdu p else 0)\<rparr>)
      in if ra_is_11n_enabled r2
         then r2\<lparr>packet_count := 0, ba_packet_threshold := wlan_get_random_ba_threshold ad\<rparr> else r2)"

fun ralist_add_tids :: "(nat \<Rightarrow> ptr option) \<Rightarrow> mlan_adapter \<Rightarrow> nat list \<Rightarrow> mac \<Rightarrow> mlan_private \<Rightarrow> mlan_private" where
  "ralist_add_tids alloc ad [] addr p = p"
| "ralist_add_tids alloc ad (i # is) addr p =
     (case wlan_wmm_allocate_ralist_node (alloc i) addr of
        None \<Rightarrow> p
      | Some r0 \<Rightarrow>
          let r = init_ralist_node ad p r0
          in ralist_add_tids alloc ad is addr
               (upd_tid i (\<lambda>t. t\<lparr>ra_list := ra_list t @ [r],
                  ra_list_curr := (if ra_list_curr t = Ra_null then Ra_node (ra_addr r) else ra_list_curr t)\<rparr>) p))"

definition wlan_ralist_add :: "(nat \<Rightarrow> ptr option) \<Rightarrow> mlan_adapter \<Rightarrow> mac \<Rightarrow> mlan_private \<Rightarrow> mlan_private" where
  "wlan_ralist_add alloc ad addr p = ralist_add_tids alloc ad [0..<MAX_NUM_TID] addr p"

definition wlan_wmm_get_queue_raptr :: "(nat \<Rightarrow> ptr option) \<Rightarrow> mlan_adapter \<Rightarrow> nat \<Rightarrow> mac \<Rightarrow> mlan_private
    \<Rightarrow> nat option \<times> mlan_private" where
  "wlan_wmm_get_queue_raptr alloc ad tid addr p =
     (case wlan_wmm_get_ralist_node p tid addr of
        Some i \<Rightarrow> (Some i, p)
      | None \<Rightarrow>
          if bss_role p = MLAN_BSS_ROLE_UAP \<and> addr \<noteq> replicate 6 0xff \<and> wlan_get_station_entry p addr = None
          then (None, p)
          else let p1 = wlan_ralist_add alloc ad addr p in (wlan_wmm_get_ralist_node p1 tid addr, p1))"

fun ralist_update_tids :: "mlan_adapter \<Rightarrow> nat list \<Rightarrow> mac \<Rightarrow> mac \<Rightarrow> int \<times> mlan_private \<Rightarrow> int \<times> mlan_private" where
  "ralist_update_tids ad [] old_ra new_ra s = s"
| "ralist_update_tids ad (tid # tids) old_ra new_ra (cnt, p) =
     ralist_update_tids ad tids old_ra new_ra
       (case wlan_wmm_get_ralist_node p tid old_ra of
          None \<Rightarrow> (cnt, p)
        | Some i \<Rightarrow>
            (cnt + 1,
             upd_ra tid i (\<lambda>r.
               let n = (if queuing_ra_based p then wlan_is_11n_enabled p new_ra else IS_11N_ENABLED p);
                   m = (if queuing_ra_based p then get_station_max_amsdu_size p new_ra else priv_max_amsdu p)
               in r\<lparr>ra_is_11n_enabled := n, ra_max_amsdu := (if n then m else ra_max_amsdu r),
                    tx_pause := False, packet_count := 0,
                    ba_packet_threshold := wlan_get_random_ba_threshold ad, amsdu_in_ampdu := False,
                    ra_ba_status := BA_STREAM_NOT_SETUP, ra := new_ra\<rparr>) p))"

definition wlan_ralist_update :: "mlan_adapter \<Rightarrow> mac \<Rightarrow> mac \<Rightarrow> mlan_private \<Rightarrow> int \<times> mlan_private" where
  "wlan_ralist_update ad old_ra new_ra p = ralist_update_tids ad [0..<MAX_NUM_TID] old_ra new_ra (0, p)"

subsection \<open>Queueing a packet\<close>

definition wlan_add_buf_tdls_txqueue :: "mlan_buffer \<Rightarrow> mlan_private \<Rightarrow> mlan_private" where
  "wlan_add_buf_tdls_txqueue b p = p\<lparr>tdls_pending_txq := tdls_pending_txq p @ [b]\<rparr>"

definition enqueue_buf :: "mlan_adapter \<Rightarrow> wmm_globals \<Rightarrow> nat \<Rightarrow> nat \<Rightarrow> mlan_buffer \<Rightarrow> mlan_private \<Rightarrow> mlan_private" where
  "enqueue_buf ad g tid i b p =
     (let p1 = add_queued tid 1 (upd_ra tid i (\<lambda>r. r\<lparr>buf_head := buf_head r @ [b\<lparr>in_ts := system_time ad\<rparr>],
                 total_pkts := total_pkts r + 1, packet_count := packet_count r + 1\<rparr>) p)
      in if tx_pause (ras p tid ! i) then add_paused tid 1 p1
         else upd_wmm (\<lambda>w. w\<lparr>tx_pkts_queued := fst (util_scalar_increment False False (tx_pkts_queued w)),
                highest_queued_prio := fst (snd (util_scalar_conditional_write False False
                   MLAN_SCALAR_COND_LESS_THAN (of_nat (tos_to_tid_inv g ! tid)) (of_nat (tos_to_tid_inv g ! tid))
                   (highest_queued_prio w)))\<rparr>) p1)"

text \<open>Which queue: \<open>Inl\<close> parks the packet in the TDLS pending queue; \<open>Inr (tid, node, b, p)\<close> names the TID and
  the node (if there is one) in the interface \<open>p\<close>.\<close>

definition choose_queue :: "(nat \<Rightarrow> ptr option) \<Rightarrow> mlan_adapter \<Rightarrow> mac \<Rightarrow> mlan_buffer \<Rightarrow> mlan_private
    \<Rightarrow> (mlan_private + nat \<times> nat option \<times> mlan_buffer \<times> mlan_private)" where
  "choose_queue alloc ad addr b p =
     (let tid_down = wlan_wmm_downgrade_tid p (buf_priority b)
      in if \<not> queuing_ra_based p
         then let status = wlan_get_tdls_link_status p addr
              in if wlan_is_tdls_link_setup status
                 then let (node, p1) = wlan_wmm_get_queue_raptr alloc ad tid_down addr p
                      in Inr (tid_down, node, b\<lparr>buf_flags := buf_flags b OR MLAN_BUF_FLAG_TDLS\<rparr>, p1)
                 else if status = TDLS_SETUP_INPROGRESS then Inl (wlan_add_buf_tdls_txqueue b p)
                 else Inr (tid_down, if ras p tid_down = [] then None else Some 0, b, p)
         else let mcast = (addr ! 0 AND 1 \<noteq> 0);
                  dest = (if mcast then replicate 6 0xff else addr);
                  tid1 = (if \<not> mcast \<and> bss_type p = MLAN_BSS_TYPE_UAP
                          then (case wlan_get_station_entry p dest of
                                  Some i \<Rightarrow> if \<not> sta_is_wmm_enabled (sta_list p ! i)
                                            then wlan_wmm_downgrade_tid p 0xff else tid_down
                                | None \<Rightarrow> tid_down)
                          else tid_down);
                  (node, p1) = wlan_wmm_get_queue_raptr alloc ad tid1 dest p
              in Inr (tid1, node, b, p1))"

definition wlan_wmm_add_buf_txqueue :: "(nat \<Rightarrow> ptr option) \<Rightarrow> wmm_globals \<Rightarrow> mlan_buffer \<Rightarrow> mlan_ctx \<Rightarrow> mlan_ctx option" where
  "wlan_wmm_add_buf_txqueue alloc g b0 c =
     (let b = b0\<lparr>buf_type := MLAN_BUF_TYPE_DATA\<rparr>
      in if \<not> media_connected (priv c)
         then Some (emit [Call_wlan_write_data_complete b MLAN_STATUS_FAILURE] c)
         else do {
           addr \<leftarrow> bytes6 (pbuf b) (int (data_offset b));
           case choose_queue alloc (adapter c) addr b (priv c) of
             Inl p1 \<Rightarrow> Some (set_priv p1 c)
           | Inr (tid, None, b1, p1) \<Rightarrow>
               Some (emit [Call_wlan_write_data_complete b1 MLAN_STATUS_FAILURE] (set_priv p1 c))
           | Inr (tid, Some i, b1, p1) \<Rightarrow> Some (set_priv (enqueue_buf (adapter c) g tid i b1 p1) c) })"

subsection \<open>Pausing receivers\<close>

text \<open>One TID of the pause loops: the node's flag, the paused count of the TID, and the running count.\<close>

definition pause_node :: "bool \<Rightarrow> nat \<Rightarrow> nat \<Rightarrow> t_u32 \<times> mlan_private \<Rightarrow> t_u32 \<times> mlan_private" where
  "pause_node flag tid i s =
     (let (pkt_cnt, p) = s; n = ucast (total_pkts (ras p tid ! i))
      in (pkt_cnt + n,
          add_paused tid (if flag then n else - n) (upd_ra tid i (\<lambda>r. r\<lparr>tx_pause := flag\<rparr>) p)))"

fun pause_tids :: "bool \<Rightarrow> mac \<Rightarrow> nat list \<Rightarrow> t_u32 \<times> mlan_private \<Rightarrow> t_u32 \<times> mlan_private" where
  "pause_tids flag addr [] s = s"
| "pause_tids flag addr (tid # tids) s =
     pause_tids flag addr tids
       (case wlan_wmm_get_ralist_node (snd s) tid addr of
          Some i \<Rightarrow> if tx_pause (ras (snd s) tid ! i) \<noteq> flag then pause_node flag tid i s else s
        | None \<Rightarrow> s)"

definition settle_pause :: "bool \<Rightarrow> t_u32 \<times> mlan_private \<Rightarrow> mlan_private" where
  "settle_pause flag s =
     (let (pkt_cnt, p) = s
      in if pkt_cnt \<noteq> 0
         then write_highest_prio HIGH_PRIO_TID (write_tx_pkts_queued
                (if flag then read_tx_pkts_queued p - pkt_cnt else read_tx_pkts_queued p + pkt_cnt) p)
         else p)"

definition wlan_update_ralist_tx_pause :: "mac \<Rightarrow> bool \<Rightarrow> mlan_private \<Rightarrow> t_u16 \<times> mlan_private" where
  "wlan_update_ralist_tx_pause addr flag p =
     (let s = pause_tids flag addr [0..<MAX_NUM_TID] (0, p) in (ucast (fst s), settle_pause flag s))"

fun pause_others_nodes :: "bool \<Rightarrow> mac \<Rightarrow> nat \<Rightarrow> nat list \<Rightarrow> t_u32 \<times> mlan_private \<Rightarrow> t_u32 \<times> mlan_private" where
  "pause_others_nodes flag addr tid [] s = s"
| "pause_others_nodes flag addr tid (i # is) s =
     pause_others_nodes flag addr tid is
       (if ra (ras (snd s) tid ! i) \<noteq> addr \<and> tx_pause (ras (snd s) tid ! i) \<noteq> flag
        then pause_node flag tid i s else s)"

fun pause_others_tids :: "bool \<Rightarrow> mac \<Rightarrow> nat list \<Rightarrow> t_u32 \<times> mlan_private \<Rightarrow> t_u32 \<times> mlan_private" where
  "pause_others_tids flag addr [] s = s"
| "pause_others_tids flag addr (tid # tids) s =
     pause_others_tids flag addr tids
       (pause_others_nodes flag addr tid [0..<length (ras (snd s) tid)] s)"

definition wlan_update_non_tdls_ralist :: "mac \<Rightarrow> bool \<Rightarrow> mlan_private \<Rightarrow> mlan_private" where
  "wlan_update_non_tdls_ralist addr flag p =
     settle_pause flag (pause_others_tids flag addr [0..<MAX_NUM_TID] (0, p))"

subsection \<open>Dropping packets and removing receivers\<close>

definition complete_failed :: "mlan_buffer list \<Rightarrow> moal_call list" where
  "complete_failed bs = map (\<lambda>b. Call_wlan_write_data_complete b MLAN_STATUS_FAILURE) bs"

fun wlan_del_tx_pkts_in_ralist :: "nat list \<Rightarrow> nat \<Rightarrow> mlan_ctx \<Rightarrow> bool \<times> mlan_ctx" where
  \<comment> \<open>the list holds the positions of the nodes still to visit\<close>
  "wlan_del_tx_pkts_in_ralist [] tid c = (False, c)"
| "wlan_del_tx_pkts_in_ralist (i # is) tid c =
     (let r = ras (priv c) tid ! i
      in if total_pkts r \<noteq> 0 \<and> (tx_pause r \<or> unat (total_pkts r) > RX_LOW_THRESHOLD)
         then (case buf_head r of
                 [] \<Rightarrow> wlan_del_tx_pkts_in_ralist is tid c
               | b # bs \<Rightarrow>
                   let p1 = add_queued tid (- 1) (priv c);
                       p2 = p1\<lparr>num_drop_pkts := num_drop_pkts p1 + 1\<rparr>;
                       p3 = upd_ra tid i (\<lambda>r. r\<lparr>buf_head := bs, total_pkts := total_pkts r - 1\<rparr>) p2;
                       p4 = (if tx_pause r then add_paused tid (- 1) p3
                             else upd_wmm (\<lambda>w. w\<lparr>tx_pkts_queued :=
                                    fst (util_scalar_decrement False False (tx_pkts_queued w))\<rparr>) p3)
                   in (True, emit (complete_failed [b]) (set_priv p4 c)))
         else wlan_del_tx_pkts_in_ralist is tid c)"

fun drop_tx_pkts_loop :: "nat \<Rightarrow> nat \<Rightarrow> mlan_ctx \<Rightarrow> nat \<times> mlan_ctx" where
  \<comment> \<open>rounds left, and the function's static index \<^verbatim>\<open>i\<close>\<close>
  "drop_tx_pkts_loop 0 i c = (i, c)"
| "drop_tx_pkts_loop (Suc j) i c =
     (let i1 = (if i = MAX_NUM_TID then 0 else i);
          (ret, c1) = wlan_del_tx_pkts_in_ralist [0..<length (ras (priv c) i1)] i1 c
      in if ret then (i1 + 1, c1) else drop_tx_pkts_loop j (i1 + 1) c1)"

definition wlan_drop_tx_pkts :: "nat \<Rightarrow> mlan_ctx \<Rightarrow> nat \<times> mlan_ctx" where
  "wlan_drop_tx_pkts i c = drop_tx_pkts_loop MAX_NUM_TID i c"

definition unlink_ra :: "nat \<Rightarrow> nat \<Rightarrow> ra_cursor \<Rightarrow> mlan_private \<Rightarrow> mlan_private" where
  "unlink_ra tid i cur = upd_tid tid (\<lambda>t. t\<lparr>ra_list := remove_nth i (ra_list t),
      ra_list_curr := (if ra_list_curr t = Ra_node (ra_addr (ra_list t ! i)) then cur else ra_list_curr t)\<rparr>)"

fun delete_peer_tids :: "mac \<Rightarrow> nat list \<Rightarrow> t_u32 \<times> mlan_ctx \<Rightarrow> t_u32 \<times> mlan_ctx" where
  "delete_peer_tids addr [] s = s"
| "delete_peer_tids addr (tid # tids) (pkt_cnt, c) =
     delete_peer_tids addr tids
       (case wlan_wmm_get_ralist_node (priv c) tid addr of
          None \<Rightarrow> (pkt_cnt, c)
        | Some i \<Rightarrow>
            let r = ras (priv c) tid ! i; n = ucast (total_pkts r);
                p1 = add_queued tid (- n) (priv c);
                (pkt_cnt1, p2) = (if tx_pause r then (pkt_cnt, add_paused tid (- n) p1) else (pkt_cnt + n, p1))
            in (pkt_cnt1, emit (complete_failed (buf_head r)) (set_priv (unlink_ra tid i Ra_head p2) c)))"

definition wlan_wmm_delete_peer_ralist :: "mac \<Rightarrow> mlan_ctx \<Rightarrow> mlan_ctx" where
  "wlan_wmm_delete_peer_ralist addr c =
     (let (pkt_cnt, c1) = delete_peer_tids addr [0..<MAX_NUM_TID] (0, c)
      in if pkt_cnt \<noteq> 0
         then set_priv (write_highest_prio HIGH_PRIO_TID
                (write_tx_pkts_queued (read_tx_pkts_queued (priv c1) - pkt_cnt) (priv c1))) c1
         else c1)"

text \<open>Deleting the packets of every node leaves the nodes and their counters; only the queues are emptied.\<close>

definition wlan_wmm_del_pkts_in_ralist :: "nat \<Rightarrow> mlan_ctx \<Rightarrow> mlan_ctx" where
  "wlan_wmm_del_pkts_in_ralist tid c =
     emit (complete_failed (concat (map buf_head (ras (priv c) tid))))
       (set_priv (upd_tid tid (\<lambda>t. t\<lparr>ra_list := map (\<lambda>r. r\<lparr>buf_head := []\<rparr>) (ra_list t)\<rparr>) (priv c)) c)"

fun cleanup_queue_tids :: "nat list \<Rightarrow> mlan_ctx \<Rightarrow> mlan_ctx" where
  "cleanup_queue_tids [] c = c"
| "cleanup_queue_tids (i # is) c =
     (let c1 = wlan_wmm_del_pkts_in_ralist i c
      in cleanup_queue_tids is (set_priv (upd_wmm (\<lambda>w. w\<lparr>pkts_queued := (pkts_queued w)[i := 0],
            pkts_paused := (pkts_paused w)[i := 0]\<rparr>) (priv c1)) c1))"

definition wlan_wmm_cleanup_queues :: "mlan_ctx \<Rightarrow> mlan_ctx" where
  "wlan_wmm_cleanup_queues c =
     (let c1 = cleanup_queue_tids [0..<MAX_NUM_TID] c
      in set_priv (write_highest_prio HIGH_PRIO_TID (write_tx_pkts_queued 0 (priv c1))) c1)"

definition wlan_wmm_delete_all_ralist :: "mlan_private \<Rightarrow> mlan_private" where
  "wlan_wmm_delete_all_ralist p =
     fold (\<lambda>i. upd_tid i (\<lambda>t. t\<lparr>ra_list := [], ra_list_curr := Ra_null\<rparr>)) [0..<MAX_NUM_TID] p"

end
