(* ===== verification/Wmm_Acct.thy ===== *)
theory Wmm_Acct
  imports Wmm_Queues
begin

text \<open>
  The accounting of the transmit queues: the per-node, per-TID, paused and total packet counters
  always agree with the packet queues they count.  The invariant is stated with the wrap-around of the
  counters' words, so that it needs no bound on the queues.
\<close>

subsection \<open>The invariant\<close>

definition node_cnt :: "raListTbl \<Rightarrow> t_u32" where
  "node_cnt r = ucast (total_pkts r)"

lemma node_cnt_simps [simp]:
  "node_cnt (r\<lparr>tx_pause := f\<rparr>) = node_cnt r" "node_cnt (r\<lparr>buf_head := bs\<rparr>) = node_cnt r"
  by (simp_all add: node_cnt_def)

definition queued_sum :: "raListTbl list \<Rightarrow> t_u32" where
  "queued_sum rs = sum_list (map node_cnt rs)"

definition paused_sum :: "raListTbl list \<Rightarrow> t_u32" where
  "paused_sum rs = sum_list (map (\<lambda>r. if tx_pause r then node_cnt r else 0) rs)"

definition ready_sum :: "raListTbl list \<Rightarrow> t_u32" where
  "ready_sum rs = sum_list (map (\<lambda>r. if tx_pause r then 0 else node_cnt r) rs)"

definition node_ok :: "raListTbl \<Rightarrow> bool" where
  "node_ok r \<longleftrightarrow> length (buf_head r) < 65536 \<and> total_pkts r = of_nat (length (buf_head r))"

text \<open>\<open>acct d p\<close>: the counters are right, the total one up to the amount \<open>d\<close> that an operation still owes it.\<close>

definition acct :: "t_u32 \<Rightarrow> mlan_private \<Rightarrow> bool" where
  "acct d p \<longleftrightarrow> length (tid_tbl_ptr (wmm p)) = MAX_NUM_TID \<and> length (pkts_queued (wmm p)) = MAX_NUM_TID
     \<and> length (pkts_paused (wmm p)) = MAX_NUM_TID
     \<and> (\<forall>tid < MAX_NUM_TID. pkts_queued (wmm p) ! tid = queued_sum (ras p tid)
           \<and> pkts_paused (wmm p) ! tid = paused_sum (ras p tid) \<and> (\<forall>r \<in> set (ras p tid). node_ok r))
     \<and> scalar_value (tx_pkts_queued (wmm p)) + d = (\<Sum>tid < MAX_NUM_TID. ready_sum (ras p tid))"

text \<open>The receiver addresses of a TID are distinct.\<close>

definition ra_unique :: "mlan_private \<Rightarrow> bool" where
  "ra_unique p \<longleftrightarrow> (\<forall>tid < MAX_NUM_TID. distinct (map ra (ras p tid)))"

definition wmm_inv :: "mlan_private \<Rightarrow> bool" where
  "wmm_inv p \<longleftrightarrow> acct 0 p \<and> ra_unique p"

subsection \<open>Sums over an updated list\<close>

lemma sum_list_update_group:
  fixes f :: "'a \<Rightarrow> 'b::ab_group_add"
  shows "i < length xs \<Longrightarrow> sum_list (map f (xs[i := v])) = sum_list (map f xs) + f v - f (xs ! i)"
  by (induction xs arbitrary: i) (auto split: nat.splits simp: algebra_simps)

lemma sum_list_remove_nth:
  fixes f :: "'a \<Rightarrow> 'b::ab_group_add"
  assumes "i < length xs"
  shows "sum_list (map f (remove_nth i xs)) = sum_list (map f xs) - f (xs ! i)"
proof -
  have "sum_list (map f xs) = sum_list (map f (take i xs @ xs ! i # drop (Suc i) xs))"
    using assms by (simp only: id_take_nth_drop [symmetric])
  then show ?thesis by (simp add: remove_nth_def)
qed

lemma sums_update:
  assumes "i < length rs"
  shows "queued_sum (rs[i := r]) = queued_sum rs + node_cnt r - node_cnt (rs ! i)"
    "paused_sum (rs[i := r]) = paused_sum rs + (if tx_pause r then node_cnt r else 0)
        - (if tx_pause (rs ! i) then node_cnt (rs ! i) else 0)"
    "ready_sum (rs[i := r]) = ready_sum rs + (if tx_pause r then 0 else node_cnt r)
        - (if tx_pause (rs ! i) then 0 else node_cnt (rs ! i))"
  using assms by (simp_all only: queued_sum_def paused_sum_def ready_sum_def sum_list_update_group)

lemma sums_remove:
  assumes "i < length rs"
  shows "queued_sum (remove_nth i rs) = queued_sum rs - node_cnt (rs ! i)"
    "paused_sum (remove_nth i rs) = paused_sum rs - (if tx_pause (rs ! i) then node_cnt (rs ! i) else 0)"
    "ready_sum (remove_nth i rs) = ready_sum rs - (if tx_pause (rs ! i) then 0 else node_cnt (rs ! i))"
  using assms by (simp_all only: queued_sum_def paused_sum_def ready_sum_def sum_list_remove_nth)

lemma sums_append:
  "queued_sum (rs @ [r]) = queued_sum rs + node_cnt r"
  "paused_sum (rs @ [r]) = paused_sum rs + (if tx_pause r then node_cnt r else 0)"
  "ready_sum (rs @ [r]) = ready_sum rs + (if tx_pause r then 0 else node_cnt r)"
  by (simp_all add: queued_sum_def paused_sum_def ready_sum_def)

subsection \<open>What the updates touch\<close>

lemma wmm_upd_wmm [simp]: "wmm (upd_wmm f p) = f (wmm p)"
  by (simp add: upd_wmm_def)

lemmas upd_defs = upd_ra_def upd_tid_def add_queued_def add_paused_def write_tx_pkts_queued_def
  write_highest_prio_def unlink_ra_def util_scalar_write_def util_scalar_increment_def
  util_scalar_decrement_def read_tx_pkts_queued_def util_scalar_read_def

lemma upd_wmm_other [simp]:
  "bss_role (upd_wmm f p) = bss_role p" "bss_mode (upd_wmm f p) = bss_mode p" "bss_type (upd_wmm f p) = bss_type p"
  "sta_list (upd_wmm f p) = sta_list p" "tdls_pending_txq (upd_wmm f p) = tdls_pending_txq p"
  by (simp_all add: upd_wmm_def)

text \<open>Replacing one TID's table, with the counters moved accordingly, keeps the accounts.\<close>

lemma acct_step:
  assumes a: "acct d p" and tid: "tid < MAX_NUM_TID"
    and t: "tid_tbl_ptr (wmm p') = (tid_tbl_ptr (wmm p))[tid := t']"
    and q: "pkts_queued (wmm p') = (pkts_queued (wmm p))[tid := queued_sum (ra_list t')]"
    and pa: "pkts_paused (wmm p') = (pkts_paused (wmm p))[tid := paused_sum (ra_list t')]"
    and s: "scalar_value (tx_pkts_queued (wmm p')) + d' + ready_sum (ras p tid)
              = scalar_value (tx_pkts_queued (wmm p)) + d + ready_sum (ra_list t')"
    and ok: "\<forall>r \<in> set (ra_list t'). node_ok r"
  shows "acct d' p'"
proof -
  have l: "length (tid_tbl_ptr (wmm p)) = MAX_NUM_TID" using a by (simp add: acct_def)
  have r: "ras p' k = (if k = tid then ra_list t' else ras p k)" if "k < MAX_NUM_TID" for k
    using t l tid that by (auto simp: ras_def)
  have split: "(\<Sum>k < MAX_NUM_TID. f k) = f tid + (\<Sum>k \<in> {..<MAX_NUM_TID} - {tid}. f k)" for f :: "nat \<Rightarrow> t_u32"
    using tid by (intro sum.remove) auto
  have "(\<Sum>k \<in> {..<MAX_NUM_TID} - {tid}. ready_sum (ras p' k)) = (\<Sum>k \<in> {..<MAX_NUM_TID} - {tid}. ready_sum (ras p k))"
    by (rule sum.cong) (auto simp: r)
  then have "(\<Sum>k < MAX_NUM_TID. ready_sum (ras p' k)) + ready_sum (ras p tid)
      = (\<Sum>k < MAX_NUM_TID. ready_sum (ras p k)) + ready_sum (ra_list t')"
    using tid by (simp only: split) (simp add: r)
  moreover have "scalar_value (tx_pkts_queued (wmm p)) + d = (\<Sum>k < MAX_NUM_TID. ready_sum (ras p k))"
    using a by (simp add: acct_def)
  ultimately have "scalar_value (tx_pkts_queued (wmm p')) + d' + ready_sum (ras p tid)
      = (\<Sum>k < MAX_NUM_TID. ready_sum (ras p' k)) + ready_sum (ras p tid)"
    using s by (simp only:)
  then have sc: "scalar_value (tx_pkts_queued (wmm p')) + d' = (\<Sum>k < MAX_NUM_TID. ready_sum (ras p' k))"
    by simp
  have per: "pkts_queued (wmm p') ! k = queued_sum (ras p' k) \<and> pkts_paused (wmm p') ! k = paused_sum (ras p' k)
      \<and> (\<forall>r \<in> set (ras p' k). node_ok r)" if "k < MAX_NUM_TID" for k
    using a q pa ok that tid by (auto simp: acct_def r nth_list_update)
  show ?thesis
    unfolding acct_def using sc per a t q pa by (simp add: acct_def)
qed


text \<open>The same with the changes as differences: \<open>dq\<close> packets more queued, \<open>dp\<close> paused, \<open>dr\<close> ready.\<close>

lemma acct_diff:
  assumes a: "acct d p" and tid: "tid < MAX_NUM_TID"
    and t: "tid_tbl_ptr (wmm p') = (tid_tbl_ptr (wmm p))[tid := t']"
    and q: "pkts_queued (wmm p') = (pkts_queued (wmm p))[tid := pkts_queued (wmm p) ! tid + dq]"
    and pa: "pkts_paused (wmm p') = (pkts_paused (wmm p))[tid := pkts_paused (wmm p) ! tid + dp]"
    and s: "scalar_value (tx_pkts_queued (wmm p')) + d' = scalar_value (tx_pkts_queued (wmm p)) + d + dr"
    and sums: "queued_sum (ra_list t') = queued_sum (ras p tid) + dq"
      "paused_sum (ra_list t') = paused_sum (ras p tid) + dp" "ready_sum (ra_list t') = ready_sum (ras p tid) + dr"
    and ok: "\<forall>r \<in> set (ra_list t'). node_ok r"
  shows "acct d' p'"
proof (rule acct_step [OF a tid t _ _ _ ok])
  have "pkts_queued (wmm p) ! tid = queued_sum (ras p tid)" "pkts_paused (wmm p) ! tid = paused_sum (ras p tid)"
    using a tid by (auto simp: acct_def)
  then show "pkts_queued (wmm p') = (pkts_queued (wmm p))[tid := queued_sum (ra_list t')]"
    "pkts_paused (wmm p') = (pkts_paused (wmm p))[tid := paused_sum (ra_list t')]"
    using q pa sums by simp_all
  show "scalar_value (tx_pkts_queued (wmm p')) + d' + ready_sum (ras p tid)
      = scalar_value (tx_pkts_queued (wmm p)) + d + ready_sum (ra_list t')"
    unfolding s sums by (simp add: algebra_simps)
qed

lemma ucast_of_nat16:
  "n < 65536 \<Longrightarrow> (ucast (of_nat n :: t_u16) :: t_u32) = of_nat n"
  by (simp add: word_unat_eq_iff unsigned_ucast_eq unsigned_of_nat take_bit_eq_mod)

lemma ucast_succ:
  assumes "n < 65535"
  shows "(ucast ((of_nat n :: t_u16) + 1) :: t_u32) = ucast (of_nat n :: t_u16) + 1"
proof -
  have "(of_nat n :: t_u16) + 1 = of_nat (Suc n)" by simp
  then show ?thesis using ucast_of_nat16 [of n] ucast_of_nat16 [of "Suc n"] assms by (simp add: add.commute)
qed

lemma node_okD: "acct d p \<Longrightarrow> tid < MAX_NUM_TID \<Longrightarrow> r \<in> set (ras p tid) \<Longrightarrow> node_ok r"
  by (simp add: acct_def)

lemma node_ok_update:
  assumes "acct d p" "tid < MAX_NUM_TID" "node_ok r"
  shows "\<forall>x \<in> set ((ras p tid)[i := r]). node_ok x"
  using assms node_okD set_update_subset_insert [of "ras p tid" i r] by blast

lemma acct_enqueue:
  assumes a: "acct d p" and tid: "tid < MAX_NUM_TID" and i: "i < length (ras p tid)"
    and room: "length (buf_head (ras p tid ! i)) < 65535"
  shows "acct d (enqueue_buf ad g tid i b p)"
proof -
  define r where "r = ras p tid ! i"
  define r' where "r' = r\<lparr>buf_head := buf_head r @ [b\<lparr>in_ts := system_time ad\<rparr>],
                 total_pkts := total_pkts r + 1, packet_count := packet_count r + 1\<rparr>"
  define t' where "t' = (tid_tbl_ptr (wmm p) ! tid)\<lparr>ra_list := (ras p tid)[i := r']\<rparr>"
  have ok: "node_ok r" using node_okD [OF a tid] i by (simp add: r_def)
  then have ok': "node_ok r'" using room by (simp add: node_ok_def r'_def r_def)
  have c: "node_cnt r' = node_cnt r + 1"
    using ok room ucast_succ by (simp add: node_cnt_def r'_def node_ok_def r_def)
  have tp: "tx_pause r' = tx_pause r" by (simp add: r'_def)
  have sums: "queued_sum (ra_list t') = queued_sum (ras p tid) + 1"
    "paused_sum (ra_list t') = paused_sum (ras p tid) + (if tx_pause r then 1 else 0)"
    "ready_sum (ra_list t') = ready_sum (ras p tid) + (if tx_pause r then 0 else 1)"
    using sums_update [OF i, of r'] c tp by (simp_all add: t'_def r_def)
  show ?thesis
  proof (cases "tx_pause r")
    case True
    then show ?thesis
      using sums node_ok_update [OF a tid ok']
      by (intro acct_diff [where t' = t' and dq = 1 and dp = 1 and dr = 0, OF a tid])
        (simp_all add: enqueue_buf_def Let_def upd_defs t'_def r'_def r_def ras_def)
  next
    case False
    then show ?thesis
      using sums node_ok_update [OF a tid ok']
      by (intro acct_diff [where t' = t' and dq = 1 and dp = 0 and dr = 1, OF a tid])
        (simp_all add: enqueue_buf_def Let_def upd_defs t'_def r'_def r_def ras_def)
  qed
qed

definition owed :: "bool \<Rightarrow> t_u32 \<Rightarrow> t_u32" where
  "owed flag cnt = (if flag then - cnt else cnt)"

lemma owed_0 [simp]: "owed flag 0 = 0"
  by (simp add: owed_def)

lemma acct_pause_node:
  assumes a: "acct (owed flag cnt) p" and tid: "tid < MAX_NUM_TID" and i: "i < length (ras p tid)"
    and ch: "tx_pause (ras p tid ! i) \<noteq> flag" and s: "pause_node flag tid i (cnt, p) = (cnt', p')"
  shows "acct (owed flag cnt') p'"
proof -
  define r where "r = ras p tid ! i"
  define t' where "t' = (tid_tbl_ptr (wmm p) ! tid)\<lparr>ra_list := (ras p tid)[i := r\<lparr>tx_pause := flag\<rparr>]\<rparr>"
  have ok: "node_ok (r\<lparr>tx_pause := flag\<rparr>)" using node_okD [OF a tid] i by (simp add: r_def node_ok_def)
  have p': "p' = add_paused tid (if flag then node_cnt r else - node_cnt r) (upd_ra tid i (\<lambda>r. r\<lparr>tx_pause := flag\<rparr>) p)"
    "cnt' = cnt + node_cnt r"
    using s by (cases flag; auto simp: pause_node_def Let_def r_def node_cnt_def)+
  have sums: "queued_sum (ra_list t') = queued_sum (ras p tid) + 0"
    "paused_sum (ra_list t') = paused_sum (ras p tid) + (if flag then node_cnt r else - node_cnt r)"
    "ready_sum (ra_list t') = ready_sum (ras p tid) + (if flag then - node_cnt r else node_cnt r)"
    using sums_update [OF i, of "r\<lparr>tx_pause := flag\<rparr>"] ch by (simp_all add: t'_def r_def)
  show ?thesis
    using sums node_ok_update [OF a tid ok] p'
    by (intro acct_diff [where t' = t' and dq = 0 and dp = "if flag then node_cnt r else - node_cnt r"
          and dr = "if flag then - node_cnt r else node_cnt r", OF a tid])
      (simp_all add: upd_defs t'_def r_def ras_def owed_def)
qed

lemma acct_settle:
  assumes "acct (owed flag cnt) p"
  shows "acct 0 (settle_pause flag (cnt, p))"
  using assms by (auto simp: acct_def settle_pause_def upd_defs ras_def owed_def)


subsection \<open>Pausing\<close>

lemma acct_len: "acct d p \<Longrightarrow> length (tid_tbl_ptr (wmm p)) = MAX_NUM_TID"
  by (simp add: acct_def)

lemma update_first:
  assumes "distinct (map f xs)"
  shows "(case find_index (\<lambda>r. f r = a) xs of Some i \<Rightarrow> xs[i := g (xs ! i)] | None \<Rightarrow> xs)
         = map (\<lambda>r. if f r = a then g r else r) xs"
proof (cases "find_index (\<lambda>r. f r = a) xs")
  case None
  then have "map (\<lambda>r. if f r = a then g r else r) xs = map id xs"
    by (intro map_cong) (auto simp: find_index_None)
  then show ?thesis using None by simp
next
  case (Some i)
  have i: "i < length xs" "f (xs ! i) = a" using find_index_SomeD [OF Some] by auto
  have "f (xs ! j) \<noteq> a" if "j < length xs" "j \<noteq> i" for j
    using assms i that by (auto simp: distinct_conv_nth)
  then show ?thesis using Some i by (auto intro!: nth_equalityI simp: nth_list_update)
qed

lemma ras_pause_node:
  assumes "length (tid_tbl_ptr (wmm p)) = MAX_NUM_TID" "tid < MAX_NUM_TID" "k < MAX_NUM_TID"
  shows "ras (snd (pause_node flag tid i (cnt, p))) k
       = (if k = tid then (ras p tid)[i := (ras p tid ! i)\<lparr>tx_pause := flag\<rparr>] else ras p k)"
  using assms by (auto simp: pause_node_def Let_def ras_def upd_defs)

lemma pause_set_same: "tx_pause r = flag \<Longrightarrow> r\<lparr>tx_pause := flag\<rparr> = r"
  by simp

lemma map_ra_pause [simp]:
  "map ra (map (\<lambda>r. if Q r then r\<lparr>tx_pause := flag\<rparr> else r) rs) = map ra rs"
  by (induction rs) auto

lemma ra_unique_pause:
  assumes "ra_unique p" "\<forall>k < MAX_NUM_TID. map ra (ras p' k) = map ra (ras p k)"
  shows "ra_unique p'"
  using assms by (simp add: ra_unique_def)

lemma pause_tids_spec:
  assumes "acct (owed flag cnt) p" "ra_unique p" "\<forall>k \<in> set tids. k < MAX_NUM_TID" "distinct tids"
    "pause_tids flag addr tids (cnt, p) = (cnt', p')"
  shows "acct (owed flag cnt') p'
    \<and> (\<forall>k < MAX_NUM_TID. ras p' k = (if k \<in> set tids
          then map (\<lambda>r. if ra r = addr then r\<lparr>tx_pause := flag\<rparr> else r) (ras p k) else ras p k))"
  using assms
proof (induction tids arbitrary: cnt p)
  case Nil
  then show ?case by simp
next
  case (Cons tid tids)
  have tid: "tid < MAX_NUM_TID" using Cons.prems(3) by simp
  have d: "distinct (map ra (ras p tid))" using Cons.prems(2) tid by (simp add: ra_unique_def)
  define s1 where "s1 = (case wlan_wmm_get_ralist_node p tid addr of
      Some i \<Rightarrow> if tx_pause (ras p tid ! i) \<noteq> flag then pause_node flag tid i (cnt, p) else (cnt, p)
    | None \<Rightarrow> (cnt, p))"
  obtain cnt1 p1 where s1: "s1 = (cnt1, p1)" by fastforce
  have r: "acct (owed flag cnt1) p1 \<and> (\<forall>k < MAX_NUM_TID. ras p1 k =
      (if k = tid then map (\<lambda>r. if ra r = addr then r\<lparr>tx_pause := flag\<rparr> else r) (ras p tid) else ras p k))"
  proof (cases "wlan_wmm_get_ralist_node p tid addr")
    case None
    then show ?thesis
      using s1 s1_def Cons.prems(1) update_first [OF d, where a = addr and g = "\<lambda>r. r\<lparr>tx_pause := flag\<rparr>"]
      by (simp add: wlan_wmm_get_ralist_node_def)
  next
    case (Some i)
    have i: "i < length (ras p tid)"
      using find_index_SomeD Some unfolding wlan_wmm_get_ralist_node_def by fast
    have u: "(ras p tid)[i := (ras p tid ! i)\<lparr>tx_pause := flag\<rparr>]
        = map (\<lambda>r. if ra r = addr then r\<lparr>tx_pause := flag\<rparr> else r) (ras p tid)"
      using update_first [OF d, where a = addr and g = "\<lambda>r. r\<lparr>tx_pause := flag\<rparr>"] Some
      by (simp add: wlan_wmm_get_ralist_node_def)
    show ?thesis
    proof (cases "tx_pause (ras p tid ! i) = flag")
      case True
      then show ?thesis using s1 s1_def Some Cons.prems(1) u by (auto simp: pause_set_same)
    next
      case False
      then have e: "pause_node flag tid i (cnt, p) = (cnt1, p1)" using s1 s1_def Some by simp
      show ?thesis
        using acct_pause_node [OF Cons.prems(1) tid i False e] u
          ras_pause_node [OF acct_len [OF Cons.prems(1)] tid, where flag = flag and i = i and cnt = cnt]
        by (auto simp: e)
    qed
  qed
  have "map ra (ras p1 k) = map ra (ras p k)" if "k < MAX_NUM_TID" for k
    using r that by (cases "k = tid") (simp_all del: map_map)
  then have u1: "ra_unique p1" using Cons.prems(2) ra_unique_pause by blast
  have "pause_tids flag addr tids s1 = (cnt', p')"
    using Cons.prems(5) by (simp only: s1_def pause_tids.simps snd_conv)
  then have "pause_tids flag addr tids (cnt1, p1) = (cnt', p')" by (simp only: s1)
  then show ?case
    using Cons.IH [of cnt1 p1] r u1 Cons.prems(3,4) by auto
qed

lemma ras_settle [simp]: "ras (settle_pause flag s) k = ras (snd s) k"
  by (cases s) (simp add: settle_pause_def ras_def upd_defs)

text \<open>Pausing or resuming a receiver sets the flag of exactly its nodes, in all eight TIDs, and moves
  exactly their packets between the paused and the ready counters: all accounts agree again afterwards,
  also when the receiver was already in the wanted state, or only partly.\<close>

theorem update_ralist_tx_pause_exact:
  assumes "wmm_inv p"
  shows "wmm_inv (snd (wlan_update_ralist_tx_pause addr flag p))
    \<and> (\<forall>tid < MAX_NUM_TID. ras (snd (wlan_update_ralist_tx_pause addr flag p)) tid
         = map (\<lambda>r. if ra r = addr then r\<lparr>tx_pause := flag\<rparr> else r) (ras p tid))"
proof -
  obtain cnt p1 where s: "pause_tids flag addr [0..<MAX_NUM_TID] (0, p) = (cnt, p1)" by fastforce
  have a: "acct (owed flag 0) p" "ra_unique p" using assms by (simp_all add: wmm_inv_def)
  have r: "acct (owed flag cnt) p1" "\<forall>k < MAX_NUM_TID. ras p1 k
      = map (\<lambda>r. if ra r = addr then r\<lparr>tx_pause := flag\<rparr> else r) (ras p k)"
    using pause_tids_spec [OF a _ _ s] by auto
  then have "ra_unique (settle_pause flag (cnt, p1))"
    using a(2) by (intro ra_unique_pause [OF a(2)]) (simp del: map_map)
  then show ?thesis
    using acct_settle [OF r(1)] r(2) by (simp add: wlan_update_ralist_tx_pause_def Let_def s wmm_inv_def)
qed


lemma pause_others_nodes_spec:
  assumes "acct (owed flag cnt) p" "tid < MAX_NUM_TID" "\<forall>i \<in> set is. i < length (ras p tid)" "distinct is"
    "pause_others_nodes flag addr tid is (cnt, p) = (cnt', p')"
  shows "acct (owed flag cnt') p' \<and> length (ras p' tid) = length (ras p tid)
    \<and> (\<forall>k < MAX_NUM_TID. k \<noteq> tid \<longrightarrow> ras p' k = ras p k)
    \<and> (\<forall>j < length (ras p tid). ras p' tid ! j =
         (if j \<in> set is \<and> ra (ras p tid ! j) \<noteq> addr then (ras p tid ! j)\<lparr>tx_pause := flag\<rparr> else ras p tid ! j))"
  using assms
proof (induction "is" arbitrary: cnt p)
  case Nil
  then show ?case by simp
next
  case (Cons i rest)
  have i: "i < length (ras p tid)" using Cons.prems(3) by simp
  define hit where "hit \<longleftrightarrow> ra (ras p tid ! i) \<noteq> addr \<and> tx_pause (ras p tid ! i) \<noteq> flag"
  obtain cnt1 p1 where s1: "(if hit then pause_node flag tid i (cnt, p) else (cnt, p)) = (cnt1, p1)" by fastforce
  have r: "acct (owed flag cnt1) p1 \<and> length (ras p1 tid) = length (ras p tid)
      \<and> (\<forall>k < MAX_NUM_TID. k \<noteq> tid \<longrightarrow> ras p1 k = ras p k)
      \<and> (\<forall>j < length (ras p tid). ras p1 tid ! j =
         (if j = i \<and> ra (ras p tid ! j) \<noteq> addr then (ras p tid ! j)\<lparr>tx_pause := flag\<rparr> else ras p tid ! j))"
  proof (cases hit)
    case True
    then have e: "pause_node flag tid i (cnt, p) = (cnt1, p1)" using s1 by simp
    have "ras p1 k = (if k = tid then (ras p tid)[i := (ras p tid ! i)\<lparr>tx_pause := flag\<rparr>] else ras p k)"
      if "k < MAX_NUM_TID" for k
      using ras_pause_node [OF acct_len [OF Cons.prems(1)] Cons.prems(2) that, of flag i cnt] e by simp
    then show ?thesis
      using acct_pause_node [OF Cons.prems(1,2) i _ e] True Cons.prems(2) i by (auto simp: hit_def nth_list_update)
  next
    case False
    then show ?thesis using s1 Cons.prems(1) by (auto simp: hit_def pause_set_same)
  qed
  have e: "pause_others_nodes flag addr tid rest (cnt1, p1) = (cnt', p')"
    using Cons.prems(5) by (simp only: pause_others_nodes.simps snd_conv hit_def [symmetric] s1)
  have d: "i \<notin> set rest" using Cons.prems(4) by simp
  have ih: "acct (owed flag cnt') p' \<and> length (ras p' tid) = length (ras p1 tid)
    \<and> (\<forall>k < MAX_NUM_TID. k \<noteq> tid \<longrightarrow> ras p' k = ras p1 k)
    \<and> (\<forall>j < length (ras p1 tid). ras p' tid ! j =
         (if j \<in> set rest \<and> ra (ras p1 tid ! j) \<noteq> addr then (ras p1 tid ! j)\<lparr>tx_pause := flag\<rparr> else ras p1 tid ! j))"
    using r Cons.prems by (intro Cons.IH [OF _ _ _ _ e]) auto
  then show ?case using r d by auto
qed

lemma pause_others_tid:
  assumes "acct (owed flag cnt) p" "tid < MAX_NUM_TID"
    "pause_others_nodes flag addr tid [0..<length (ras p tid)] (cnt, p) = (cnt', p')"
  shows "acct (owed flag cnt') p' \<and> (\<forall>k < MAX_NUM_TID. k \<noteq> tid \<longrightarrow> ras p' k = ras p k)
    \<and> ras p' tid = map (\<lambda>r. if ra r \<noteq> addr then r\<lparr>tx_pause := flag\<rparr> else r) (ras p tid)"
  using pause_others_nodes_spec [OF assms(1,2) _ _ assms(3)] by (auto intro!: nth_equalityI)

lemma pause_others_tids_spec:
  assumes "acct (owed flag cnt) p" "\<forall>k \<in> set tids. k < MAX_NUM_TID" "distinct tids"
    "pause_others_tids flag addr tids (cnt, p) = (cnt', p')"
  shows "acct (owed flag cnt') p'
    \<and> (\<forall>k < MAX_NUM_TID. ras p' k = (if k \<in> set tids
          then map (\<lambda>r. if ra r \<noteq> addr then r\<lparr>tx_pause := flag\<rparr> else r) (ras p k) else ras p k))"
  using assms
proof (induction tids arbitrary: cnt p)
  case Nil
  then show ?case by simp
next
  case (Cons tid tids)
  obtain cnt1 p1 where s1: "pause_others_nodes flag addr tid [0..<length (ras p tid)] (cnt, p) = (cnt1, p1)" by fastforce
  have "acct (owed flag cnt1) p1 \<and> (\<forall>k < MAX_NUM_TID. k \<noteq> tid \<longrightarrow> ras p1 k = ras p k)
    \<and> ras p1 tid = map (\<lambda>r. if ra r \<noteq> addr then r\<lparr>tx_pause := flag\<rparr> else r) (ras p tid)"
    using pause_others_tid [OF Cons.prems(1) _ s1] Cons.prems(2) by simp
  then show ?case
    using Cons.IH [of cnt1 p1] Cons.prems s1 by auto
qed

text \<open>Pausing every receiver but one (the TDLS peer during a channel switch) sets the flag of exactly the
  other nodes and keeps all accounts in agreement.\<close>

theorem update_non_tdls_ralist_exact:
  assumes "wmm_inv p"
  shows "wmm_inv (wlan_update_non_tdls_ralist addr flag p)
    \<and> (\<forall>tid < MAX_NUM_TID. ras (wlan_update_non_tdls_ralist addr flag p) tid
         = map (\<lambda>r. if ra r \<noteq> addr then r\<lparr>tx_pause := flag\<rparr> else r) (ras p tid))"
proof -
  obtain cnt p1 where s: "pause_others_tids flag addr [0..<MAX_NUM_TID] (0, p) = (cnt, p1)" by fastforce
  have a: "acct (owed flag 0) p" "ra_unique p" using assms by (simp_all add: wmm_inv_def)
  have r: "acct (owed flag cnt) p1" "\<forall>k < MAX_NUM_TID. ras p1 k
      = map (\<lambda>r. if ra r \<noteq> addr then r\<lparr>tx_pause := flag\<rparr> else r) (ras p k)"
    using pause_others_tids_spec [OF a(1) _ _ s] by auto
  then have "ra_unique (settle_pause flag (cnt, p1))"
    by (intro ra_unique_pause [OF a(2)]) (simp del: map_map)
  then show ?thesis
    using acct_settle [OF r(1)] r(2) by (simp add: wlan_update_non_tdls_ralist_def s wmm_inv_def)
qed


subsection \<open>Removing a receiver\<close>

lemma remove_first:
  assumes "distinct (map f xs)"
  shows "(case find_index (\<lambda>r. f r = a) xs of Some i \<Rightarrow> remove_nth i xs | None \<Rightarrow> xs) = filter (\<lambda>r. f r \<noteq> a) xs"
  using assms
proof (induction xs)
  case Nil
  then show ?case by simp
next
  case (Cons x xs)
  have no: "filter (\<lambda>r. f r \<noteq> a) xs = xs" if "f x = a"
    using Cons.prems that by (intro filter_True) (metis distinct.simps(2) image_eqI image_set list.simps(9))
  have suc: "remove_nth (Suc i) (x # xs) = x # remove_nth i xs" for i by (simp add: remove_nth_def)
  show ?case
  proof (cases "f x = a")
    case True
    then show ?thesis using no by simp
  next
    case False
    then show ?thesis using Cons.IH Cons.prems by (auto simp: suc split: option.splits)
  qed
qed

lemma found_node:
  assumes "distinct (map f xs)" "find_index (\<lambda>r. f r = a) xs = Some i"
  shows "filter (\<lambda>r. f r = a) xs = [xs ! i]"
  using assms
proof (induction xs arbitrary: i)
  case Nil
  then show ?case by simp
next
  case (Cons x xs)
  have "filter (\<lambda>r. f r = a) xs = []" if "f x = a"
    using Cons.prems(1) that by (metis (mono_tags, lifting) distinct.simps(2) filter_False image_eqI image_set list.simps(9))
  then show ?case using Cons by (auto split: if_splits)
qed

lemma not_found_nodes:
  "find_index (\<lambda>r. f r = a) xs = None \<Longrightarrow> filter (\<lambda>r. f r = a) xs = []"
  by (auto simp: find_index_None filter_empty_conv)

definition peer_bufs :: "mac \<Rightarrow> mlan_private \<Rightarrow> nat \<Rightarrow> mlan_buffer list" where
  "peer_bufs addr p tid = concat (map buf_head (filter (\<lambda>r. ra r = addr) (ras p tid)))"

text \<open>One TID of the removal.\<close>

definition delete_peer_node :: "nat \<Rightarrow> nat \<Rightarrow> t_u32 \<times> mlan_private \<Rightarrow> t_u32 \<times> mlan_private" where
  "delete_peer_node tid i s =
     (let (pkt_cnt, p) = s; r = ras p tid ! i; n = ucast (total_pkts r); p1 = add_queued tid (- n) p;
          (pkt_cnt1, p2) = (if tx_pause r then (pkt_cnt, add_paused tid (- n) p1) else (pkt_cnt + n, p1))
      in (pkt_cnt1, unlink_ra tid i Ra_head p2))"

lemma acct_delete_peer_node:
  assumes a: "acct (owed True cnt) p" and tid: "tid < MAX_NUM_TID" and i: "i < length (ras p tid)"
    and s: "delete_peer_node tid i (cnt, p) = (cnt', p')"
  shows "acct (owed True cnt') p' \<and> (\<forall>k < MAX_NUM_TID. ras p' k = (if k = tid then remove_nth i (ras p tid) else ras p k))"
proof -
  define r where "r = ras p tid ! i"
  define t' where "t' = (tid_tbl_ptr (wmm p) ! tid)\<lparr>ra_list := remove_nth i (ras p tid),
      ra_list_curr := (if ra_list_curr (tid_tbl_ptr (wmm p) ! tid) = Ra_node (ra_addr r) then Ra_head
                       else ra_list_curr (tid_tbl_ptr (wmm p) ! tid))\<rparr>"
  have ok: "\<forall>x \<in> set (ra_list t'). node_ok x"
    using node_okD [OF a tid] set_remove_nth_subset [of i "ras p tid"] by (auto simp: t'_def)
  have sums: "queued_sum (ra_list t') = queued_sum (ras p tid) + - node_cnt r"
    "paused_sum (ra_list t') = paused_sum (ras p tid) + (if tx_pause r then - node_cnt r else 0)"
    "ready_sum (ra_list t') = ready_sum (ras p tid) + (if tx_pause r then 0 else - node_cnt r)"
    using sums_remove [OF i] by (simp_all add: t'_def r_def)
  have p': "cnt' = cnt + (if tx_pause r then 0 else node_cnt r)"
    "p' = unlink_ra tid i Ra_head
        (if tx_pause r then add_paused tid (- node_cnt r) (add_queued tid (- node_cnt r) p) else add_queued tid (- node_cnt r) p)"
    using s by (auto simp: delete_peer_node_def Let_def r_def node_cnt_def split: if_splits)
  have "acct (owed True cnt') p'"
    using sums p' ok
    by (intro acct_diff [where t' = t' and dq = "- node_cnt r" and dp = "if tx_pause r then - node_cnt r else 0"
          and dr = "if tx_pause r then 0 else - node_cnt r", OF a tid])
      (simp_all add: upd_defs t'_def r_def ras_def owed_def)
  moreover have "ras p' k = (if k = tid then remove_nth i (ras p tid) else ras p k)" if "k < MAX_NUM_TID" for k
    using p' acct_len [OF a] tid that by (auto simp: ras_def upd_defs)
  ultimately show ?thesis by blast
qed

lemma delete_peer_step:
  "delete_peer_tids addr (tid # tids) (cnt, c) =
     delete_peer_tids addr tids
       (case wlan_wmm_get_ralist_node (priv c) tid addr of
          None \<Rightarrow> (cnt, c)
        | Some i \<Rightarrow> (fst (delete_peer_node tid i (cnt, priv c)),
            emit (complete_failed (buf_head (ras (priv c) tid ! i)))
              (set_priv (snd (delete_peer_node tid i (cnt, priv c))) c)))"
  by (auto simp: delete_peer_node_def Let_def split: option.split)

lemma peer_bufs_cong: "ras p' tid = ras p tid \<Longrightarrow> peer_bufs addr p' tid = peer_bufs addr p tid"
  by (simp add: peer_bufs_def)

lemma complete_failed_append [simp]: "complete_failed (xs @ ys) = complete_failed xs @ complete_failed ys"
  by (simp add: complete_failed_def)

lemma delete_peer_tids_spec:
  assumes "acct (owed True cnt) (priv c)" "ra_unique (priv c)" "\<forall>k \<in> set tids. k < MAX_NUM_TID" "distinct tids"
    "delete_peer_tids addr tids (cnt, c) = (cnt', c')"
  shows "acct (owed True cnt') (priv c')
    \<and> (\<forall>k < MAX_NUM_TID. ras (priv c') k = (if k \<in> set tids
          then filter (\<lambda>r. ra r \<noteq> addr) (ras (priv c) k) else ras (priv c) k))
    \<and> calls c' = calls c @ complete_failed (concat (map (peer_bufs addr (priv c)) tids))"
  using assms
proof (induction tids arbitrary: cnt c)
  case Nil
  then show ?case by (simp add: complete_failed_def)
next
  case (Cons tid tids)
  have tid: "tid < MAX_NUM_TID" using Cons.prems(3) by simp
  have d: "distinct (map ra (ras (priv c) tid))" using Cons.prems(2) tid by (simp add: ra_unique_def)
  define s1 where "s1 = (case wlan_wmm_get_ralist_node (priv c) tid addr of
          None \<Rightarrow> (cnt, c)
        | Some i \<Rightarrow> (fst (delete_peer_node tid i (cnt, priv c)),
            emit (complete_failed (buf_head (ras (priv c) tid ! i)))
              (set_priv (snd (delete_peer_node tid i (cnt, priv c))) c)))"
  obtain cnt1 c1 where s1: "s1 = (cnt1, c1)" by fastforce
  have r: "acct (owed True cnt1) (priv c1)
      \<and> (\<forall>k < MAX_NUM_TID. ras (priv c1) k = (if k = tid then filter (\<lambda>r. ra r \<noteq> addr) (ras (priv c) tid) else ras (priv c) k))
      \<and> calls c1 = calls c @ complete_failed (peer_bufs addr (priv c) tid)"
  proof (cases "wlan_wmm_get_ralist_node (priv c) tid addr")
    case None
    then have "find_index (\<lambda>r. ra r = addr) (ras (priv c) tid) = None" by (simp add: wlan_wmm_get_ralist_node_def)
    then have "filter (\<lambda>r. ra r \<noteq> addr) (ras (priv c) tid) = ras (priv c) tid" "peer_bufs addr (priv c) tid = []"
      using remove_first [OF d, of addr] by (simp_all add: peer_bufs_def not_found_nodes del: concat_eq_Nil_conv)
    then show ?thesis using None s1 s1_def Cons.prems(1) by (simp add: complete_failed_def)
  next
    case (Some i)
    then have f: "find_index (\<lambda>r. ra r = addr) (ras (priv c) tid) = Some i" by (simp add: wlan_wmm_get_ralist_node_def)
    have i: "i < length (ras (priv c) tid)" using find_index_SomeD [OF f] by simp
    obtain p1 where e: "delete_peer_node tid i (cnt, priv c) = (cnt1, p1)"
      using s1 s1_def Some by (cases "delete_peer_node tid i (cnt, priv c)") simp
    have c1: "c1 = emit (complete_failed (buf_head (ras (priv c) tid ! i))) (set_priv p1 c)"
      using s1 s1_def Some e by simp
    show ?thesis
      using acct_delete_peer_node [OF Cons.prems(1) tid i e] remove_first [OF d, of addr] f found_node [OF d f] c1
      by (simp add: peer_bufs_def)
  qed
  have "map ra (ras (priv c1) k) = (if k = tid then map ra (filter (\<lambda>r. ra r \<noteq> addr) (ras (priv c) tid)) else map ra (ras (priv c) k))"
    if "k < MAX_NUM_TID" for k using r that by simp
  then have u1: "ra_unique (priv c1)"
    using Cons.prems(2) by (auto simp: ra_unique_def distinct_map_filter)
  have e: "delete_peer_tids addr tids (cnt1, c1) = (cnt', c')"
    using Cons.prems(5) by (simp only: delete_peer_step s1_def [symmetric] s1)
  have "peer_bufs addr (priv c1) k = peer_bufs addr (priv c) k" if "k \<in> set tids" for k
    using r that Cons.prems(3,4) by (intro peer_bufs_cong) auto
  then have m: "map (peer_bufs addr (priv c1)) tids = map (peer_bufs addr (priv c)) tids" by simp
  show ?case
    using Cons.IH [OF _ u1 _ _ e] r Cons.prems(3,4) by (auto simp: m)
qed

text \<open>C30. When a peer leaves, its nodes (and no others) disappear from all eight TIDs, every packet queued
  for it is completed exactly once, with failure, TID by TID in queue order, and the counters of the
  remaining queues still agree with them.\<close>

theorem delete_peer_ralist_exact:
  assumes "wmm_inv (priv c)"
  shows "wmm_inv (priv (wlan_wmm_delete_peer_ralist addr c))
    \<and> (\<forall>tid < MAX_NUM_TID. ras (priv (wlan_wmm_delete_peer_ralist addr c)) tid
         = filter (\<lambda>r. ra r \<noteq> addr) (ras (priv c) tid))
    \<and> calls (wlan_wmm_delete_peer_ralist addr c)
        = calls c @ complete_failed (concat (map (peer_bufs addr (priv c)) [0..<MAX_NUM_TID]))"
proof -
  obtain cnt c1 where s: "delete_peer_tids addr [0..<MAX_NUM_TID] (0, c) = (cnt, c1)" by fastforce
  have a: "acct (owed True 0) (priv c)" "ra_unique (priv c)" using assms by (simp_all add: wmm_inv_def)
  have r: "acct (owed True cnt) (priv c1)" "\<forall>k < MAX_NUM_TID. ras (priv c1) k = filter (\<lambda>r. ra r \<noteq> addr) (ras (priv c) k)"
    "calls c1 = calls c @ complete_failed (concat (map (peer_bufs addr (priv c)) [0..<MAX_NUM_TID]))"
    using delete_peer_tids_spec [OF a _ _ s] by auto
  have p': "priv (wlan_wmm_delete_peer_ralist addr c) = settle_pause True (cnt, priv c1)"
    "calls (wlan_wmm_delete_peer_ralist addr c) = calls c1"
    by (simp_all add: wlan_wmm_delete_peer_ralist_def s settle_pause_def)
  have "ra_unique (priv c1)" using a(2) r(2) by (simp add: ra_unique_def distinct_map_filter)
  then have "ra_unique (settle_pause True (cnt, priv c1))" by (simp add: ra_unique_def)
  then show ?thesis unfolding wmm_inv_def p' using acct_settle [OF r(1)] r(2,3) by simp
qed


subsection \<open>Dropping one packet\<close>

definition droppable :: "raListTbl \<Rightarrow> bool" where
  "droppable r \<longleftrightarrow> total_pkts r \<noteq> 0 \<and> (tx_pause r \<or> unat (total_pkts r) > RX_LOW_THRESHOLD)"

text \<open>The oldest packet of a droppable node leaves, completed with failure.\<close>

definition dropped_one :: "nat \<Rightarrow> nat \<Rightarrow> mlan_ctx \<Rightarrow> mlan_ctx \<Rightarrow> bool" where
  "dropped_one tid i c c' \<longleftrightarrow> i < length (ras (priv c) tid) \<and> droppable (ras (priv c) tid ! i)
     \<and> (\<exists>b bs. buf_head (ras (priv c) tid ! i) = b # bs \<and> calls c' = calls c @ complete_failed [b]
         \<and> ras (priv c') tid = (ras (priv c) tid)[i := (ras (priv c) tid ! i)\<lparr>buf_head := bs,
              total_pkts := total_pkts (ras (priv c) tid ! i) - 1\<rparr>])
     \<and> (\<forall>k < MAX_NUM_TID. k \<noteq> tid \<longrightarrow> ras (priv c') k = ras (priv c) k)"

lemma node_cnt_pred:
  assumes "node_ok r" "buf_head r = b # bs"
  shows "total_pkts r - 1 = of_nat (length bs)"
    "(ucast (total_pkts r - 1) :: t_u32) = ucast (total_pkts r) - 1"
proof -
  show t: "total_pkts r - 1 = of_nat (length bs)" using assms by (simp add: node_ok_def)
  show "(ucast (total_pkts r - 1) :: t_u32) = ucast (total_pkts r) - 1"
    unfolding t using assms ucast_of_nat16 [of "length bs"] ucast_of_nat16 [of "Suc (length bs)"]
    by (simp add: node_ok_def)
qed

lemma del_tx_pkts_spec:
  assumes a: "acct 0 (priv c)" and tid: "tid < MAX_NUM_TID" and "\<forall>i \<in> set is. i < length (ras (priv c) tid)"
    "wlan_del_tx_pkts_in_ralist is tid c = (ret, c')"
  shows "acct 0 (priv c') \<and> (if ret then \<exists>i \<in> set is. dropped_one tid i c c'
           else c' = c \<and> (\<forall>i \<in> set is. \<not> droppable (ras (priv c) tid ! i)))"
  using assms(3,4)
proof (induction "is")
  case Nil
  then show ?case using a by simp
next
  case (Cons i rest)
  define r where "r = ras (priv c) tid ! i"
  have i: "i < length (ras (priv c) tid)" using Cons.prems(1) by simp
  have ok: "node_ok r" using node_okD [OF a tid] i by (simp add: r_def)
  show ?case
  proof (cases "droppable r")
    case False
    then have "wlan_del_tx_pkts_in_ralist rest tid c = (ret, c')"
      using Cons.prems(2) by (simp add: Let_def r_def [symmetric] droppable_def split: if_splits)
    then show ?thesis using Cons.IH Cons.prems(1) False by (auto simp: r_def)
  next
    case True
    then have "buf_head r \<noteq> []" using ok by (auto simp: droppable_def node_ok_def)
    then obtain b bs where b: "buf_head r = b # bs" by (cases "buf_head r") auto
    define r' where "r' = r\<lparr>buf_head := bs, total_pkts := total_pkts r - 1\<rparr>"
    define p' where "p' = priv c'"
    have res: "ret" and c': "calls c' = calls c @ complete_failed [b]" and p'_eq: "p' = (let p3 = upd_ra tid i (\<lambda>r. r\<lparr>buf_head := bs, total_pkts := total_pkts r - 1\<rparr>)
           ((add_queued tid (- 1) (priv c))\<lparr>num_drop_pkts := num_drop_pkts (add_queued tid (- 1) (priv c)) + 1\<rparr>)
        in if tx_pause r then add_paused tid (- 1) p3
           else upd_wmm (\<lambda>w. w\<lparr>tx_pkts_queued := fst (util_scalar_decrement False False (tx_pkts_queued w))\<rparr>) p3)"
      using Cons.prems(2) True b by (auto simp: Let_def r_def [symmetric] droppable_def p'_def)
    define t' where "t' = (tid_tbl_ptr (wmm (priv c)) ! tid)\<lparr>ra_list := (ras (priv c) tid)[i := r']\<rparr>"
    have ok': "node_ok r'" using ok node_cnt_pred(1) [OF ok b] b by (simp add: node_ok_def r'_def)
    have c: "node_cnt r' = node_cnt r - 1" using node_cnt_pred(2) [OF ok b] by (simp add: node_cnt_def r'_def)
    have tp: "tx_pause r' = tx_pause r" by (simp add: r'_def)
    have sums: "queued_sum (ra_list t') = queued_sum (ras (priv c) tid) + - 1"
      "paused_sum (ra_list t') = paused_sum (ras (priv c) tid) + (if tx_pause r then - 1 else 0)"
      "ready_sum (ra_list t') = ready_sum (ras (priv c) tid) + (if tx_pause r then 0 else - 1)"
      using sums_update [OF i, of r'] c tp by (simp_all add: t'_def r_def)
    have "acct 0 p'"
      using sums node_ok_update [OF a tid ok']
      by (intro acct_diff [where t' = t' and dq = "- 1" and dp = "if tx_pause r then - 1 else 0"
            and dr = "if tx_pause r then 0 else - 1", OF a tid])
        (simp_all add: p'_eq Let_def upd_defs t'_def r'_def r_def ras_def upd_wmm_def)
    moreover have "ras p' k = (if k = tid then (ras (priv c) tid)[i := r'] else ras (priv c) k)" if "k < MAX_NUM_TID" for k
      using acct_len [OF a] tid that
      by (auto simp: p'_eq Let_def ras_def upd_defs upd_wmm_def r'_def r_def)
    ultimately show ?thesis
      using res c' i True b tid by (auto simp: p'_def dropped_one_def r_def r'_def)
  qed
qed

lemma map_update_same:
  "f v = f (xs ! i) \<Longrightarrow> map f (xs[i := v]) = map f xs"
  by (metis list_update_id map_update)

lemma ra_unique_dropped:
  assumes "dropped_one tid i c c'" "tid < MAX_NUM_TID" "ra_unique (priv c)"
  shows "ra_unique (priv c')"
proof (rule ra_unique_pause [OF assms(3)], intro allI impI)
  fix k assume "k < MAX_NUM_TID"
  then show "map ra (ras (priv c') k) = map ra (ras (priv c) k)"
    using assms(1) by (cases "k = tid") (auto simp: dropped_one_def map_update_same)
qed

lemma drop_loop_spec:
  assumes "acct 0 (priv c)" "i \<le> MAX_NUM_TID" "drop_tx_pkts_loop j i c = (i', c')"
  shows "i' \<le> MAX_NUM_TID \<and> acct 0 (priv c')
    \<and> ((\<exists>tid < MAX_NUM_TID. \<exists>n. dropped_one tid n c c')
        \<or> (c' = c \<and> (\<forall>k < j. \<forall>r \<in> set (ras (priv c) ((i + k) mod MAX_NUM_TID)). \<not> droppable r)))"
  using assms
proof (induction j arbitrary: i)
  case 0
  then show ?case by simp
next
  case (Suc j)
  define i1 where "i1 = (if i = MAX_NUM_TID then 0 else i)"
  have i1: "i1 < MAX_NUM_TID" "i1 = i mod MAX_NUM_TID" using Suc.prems(2) by (auto simp: i1_def)
  obtain ret c1 where d: "wlan_del_tx_pkts_in_ralist [0..<length (ras (priv c) i1)] i1 c = (ret, c1)" by fastforce
  have spec: "acct 0 (priv c1)" "if ret then \<exists>n. dropped_one i1 n c c1
      else c1 = c \<and> (\<forall>r \<in> set (ras (priv c) i1). \<not> droppable r)"
    using del_tx_pkts_spec [OF Suc.prems(1) i1(1) _ d] by (auto simp: in_set_conv_nth split: if_splits)
  show ?case
  proof (cases ret)
    case True
    then show ?thesis using spec d i1 Suc.prems(3) by (auto simp: i1_def [symmetric] Let_def)
  next
    case False
    then have c1: "c1 = c" and none: "\<forall>r \<in> set (ras (priv c) i1). \<not> droppable r" using spec by auto
    have e: "drop_tx_pkts_loop j (i1 + 1) c = (i', c')"
      using Suc.prems(3) d False c1 by (simp add: i1_def [symmetric] Let_def)
    have shift: "(i + k) mod MAX_NUM_TID = (if k = 0 then i1 else (i1 + 1 + (k - 1)) mod MAX_NUM_TID)" for k
      using i1(2) by (simp add: mod_add_left_eq)
    have "i' \<le> MAX_NUM_TID \<and> acct 0 (priv c') \<and> ((\<exists>tid < MAX_NUM_TID. \<exists>n. dropped_one tid n c c')
        \<or> (c' = c \<and> (\<forall>k < j. \<forall>r \<in> set (ras (priv c) ((i1 + 1 + k) mod MAX_NUM_TID)). \<not> droppable r)))"
      using i1(1) by (intro Suc.IH [OF Suc.prems(1) _ e]) simp
    moreover have "\<not> droppable r" if k: "k < Suc j" "r \<in> set (ras (priv c) ((i + k) mod MAX_NUM_TID))"
      and all: "\<forall>k < j. \<forall>r \<in> set (ras (priv c) ((i1 + 1 + k) mod MAX_NUM_TID)). \<not> droppable r" for k r
    proof (cases k)
      case 0
      then show ?thesis using none k i1(2) by simp
    next
      case (Suc k')
      then show ?thesis using all k(1) k(2) shift [of k] by simp
    qed
    ultimately show ?thesis by blast
  qed
qed

text \<open>Under memory pressure the access point drops at most one queued packet per call: the oldest one of
  a node that is paused or holds more than 128 packets; nothing is dropped only when no such node exists in any
  TID.  The function's static index stays within 0 to 8, so no call indexes outside the TID table, and the counters
  still agree with the queues.\<close>

theorem drop_tx_pkts_exact:
  assumes "wmm_inv (priv c)" "i \<le> MAX_NUM_TID" "wlan_drop_tx_pkts i c = (i', c')"
  shows "wmm_inv (priv c') \<and> i' \<le> MAX_NUM_TID
    \<and> ((\<exists>tid < MAX_NUM_TID. \<exists>n. dropped_one tid n c c')
        \<or> (c' = c \<and> (\<forall>tid < MAX_NUM_TID. \<forall>r \<in> set (ras (priv c) tid). \<not> droppable r)))"
proof -
  have a: "acct 0 (priv c)" "ra_unique (priv c)" using assms(1) by (simp_all add: wmm_inv_def)
  have r: "i' \<le> MAX_NUM_TID \<and> acct 0 (priv c') \<and> ((\<exists>tid < MAX_NUM_TID. \<exists>n. dropped_one tid n c c')
      \<or> (c' = c \<and> (\<forall>k < MAX_NUM_TID. \<forall>r \<in> set (ras (priv c) ((i + k) mod MAX_NUM_TID)). \<not> droppable r)))"
    using drop_loop_spec [OF a(1) assms(2)] assms(3) by (simp only: wlan_drop_tx_pkts_def)
  have cover: "\<exists>k < MAX_NUM_TID. (i + k) mod MAX_NUM_TID = tid" if "tid < MAX_NUM_TID" for tid
  proof (cases "i \<le> tid")
    case True
    then show ?thesis using that by (intro exI [of _ "tid - i"]) auto
  next
    case False
    then show ?thesis using that assms(2) by (intro exI [of _ "tid + MAX_NUM_TID - i"]) auto
  qed
  have "ra_unique (priv c')" using r ra_unique_dropped [OF _ _ a(2)] a(2) by blast
  then show ?thesis using r cover unfolding wmm_inv_def by metis
qed


subsection \<open>Adding receivers and queueing packets\<close>

text \<open>Every TID lists the same receivers, as long as no allocation fails half way.\<close>

definition uniform :: "mlan_private \<Rightarrow> bool" where
  "uniform p \<longleftrightarrow> (\<forall>tid < MAX_NUM_TID. ra ` set (ras p tid) = ra ` set (ras p 0))"

lemma uniform_cong:
  assumes "uniform p" "\<forall>k < MAX_NUM_TID. map ra (ras p' k) = map ra (ras p k)"
  shows "uniform p'"
  using assms unfolding uniform_def by (metis image_set zero_less_numeral)

definition queue_at :: "mlan_private \<Rightarrow> nat \<Rightarrow> nat \<Rightarrow> mlan_buffer list" where
  "queue_at p tid i = (if i < length (ras p tid) then buf_head (ras p tid ! i) else [])"

definition same_queues :: "mlan_private \<Rightarrow> mlan_private \<Rightarrow> bool" where
  "same_queues p p' \<longleftrightarrow> (\<forall>k < MAX_NUM_TID. \<forall>j. queue_at p' k j = queue_at p k j)"

lemma init_ralist_node_simps [simp]:
  "ra (init_ralist_node ad p r) = ra r" "ra_addr (init_ralist_node ad p r) = ra_addr r"
  "buf_head (init_ralist_node ad p r) = buf_head r" "total_pkts (init_ralist_node ad p r) = total_pkts r"
  by (simp_all add: init_ralist_node_def Let_def)

text \<open>The node \<^verbatim>\<open>wlan_ralist_add\<close> puts at the tail of a TID.\<close>

definition added_node :: "mlan_adapter \<Rightarrow> mlan_private \<Rightarrow> ptr \<Rightarrow> mac \<Rightarrow> raListTbl" where
  "added_node ad p a addr = init_ralist_node ad p (the (wlan_wmm_allocate_ralist_node (Some a) addr))"

lemma added_node_simps [simp]:
  "ra (added_node ad p a addr) = addr" "ra_addr (added_node ad p a addr) = a"
  "buf_head (added_node ad p a addr) = []" "total_pkts (added_node ad p a addr) = 0"
  "node_cnt (added_node ad p a addr) = 0" "node_ok (added_node ad p a addr)"
  by (simp_all add: added_node_def wlan_wmm_allocate_ralist_node_def node_cnt_def node_ok_def)

lemma station_upd_wmm [simp]: "wlan_get_station_entry (upd_wmm f p) = wlan_get_station_entry p"
  by (simp add: wlan_get_station_entry_def fun_eq_iff)

lemma peer_upd_wmm [simp]:
  "queuing_ra_based (upd_wmm f p) = queuing_ra_based p"
  "is_station_11n_enabled (upd_wmm f p) addr = is_station_11n_enabled p addr"
  "get_station_max_amsdu_size (upd_wmm f p) addr = get_station_max_amsdu_size p addr"
  "wlan_is_tx_pause (upd_wmm f p) addr = wlan_is_tx_pause p addr"
  "wlan_get_tdls_link_status (upd_wmm f p) addr = wlan_get_tdls_link_status p addr"
  by (simp_all add: queuing_ra_based_def is_station_11n_enabled_def get_station_max_amsdu_size_def
      wlan_is_tx_pause_def wlan_get_tdls_link_status_def split: option.split)

lemma caps_upd_wmm [simp]:
  "wlan_is_11n_enabled (upd_wmm f p) addr = wlan_is_11n_enabled p addr"
  "IS_11N_ENABLED (upd_wmm f p) = IS_11N_ENABLED p" "priv_max_amsdu (upd_wmm f p) = priv_max_amsdu p"
proof -
  have "priv_is_11n_enabled (upd_wmm f p) = priv_is_11n_enabled p" by (simp add: upd_wmm_def)
  then show "wlan_is_11n_enabled (upd_wmm f p) addr = wlan_is_11n_enabled p addr"
    by (simp add: wlan_is_11n_enabled_def)
  show "IS_11N_ENABLED (upd_wmm f p) = IS_11N_ENABLED p" "priv_max_amsdu (upd_wmm f p) = priv_max_amsdu p"
    by (simp_all add: IS_11N_ENABLED_def upd_wmm_def)
qed

lemma added_node_upd_wmm [simp]: "added_node ad (upd_wmm f p) a addr = added_node ad p a addr"
  by (simp only: added_node_def init_ralist_node_def peer_upd_wmm caps_upd_wmm)

definition put_node :: "mlan_adapter \<Rightarrow> nat \<Rightarrow> ptr \<Rightarrow> mac \<Rightarrow> mlan_private \<Rightarrow> mlan_private" where
  "put_node ad tid a addr p = upd_tid tid (\<lambda>t. t\<lparr>ra_list := ra_list t @ [added_node ad p a addr],
       ra_list_curr := (if ra_list_curr t = Ra_null then Ra_node a else ra_list_curr t)\<rparr>) p"

lemma ralist_add_step:
  "alloc i = Some a \<Longrightarrow> ralist_add_tids alloc ad (i # is) addr p = ralist_add_tids alloc ad is addr (put_node ad i a addr p)"
  by (simp add: put_node_def added_node_def wlan_wmm_allocate_ralist_node_def Let_def cong: if_cong)

lemma put_node_simps [simp]:
  "bss_role (put_node ad tid a addr p) = bss_role p" "bss_mode (put_node ad tid a addr p) = bss_mode p"
  "sta_list (put_node ad tid a addr p) = sta_list p" "bss_type (put_node ad tid a addr p) = bss_type p"
  "tdls_pending_txq (put_node ad tid a addr p) = tdls_pending_txq p"
  "added_node ad (put_node ad' tid a' addr' p) b addr'' = added_node ad p b addr''"
  by (simp_all add: put_node_def upd_tid_def)

lemma acct_put_node:
  assumes a: "acct d p" and tid: "tid < MAX_NUM_TID"
  shows "acct d (put_node ad tid n addr p)
    \<and> (\<forall>k < MAX_NUM_TID. ras (put_node ad tid n addr p) k =
         (if k = tid then ras p tid @ [added_node ad p n addr] else ras p k))"
proof -
  define t' where "t' = (tid_tbl_ptr (wmm p) ! tid)\<lparr>ra_list := ras p tid @ [added_node ad p n addr],
      ra_list_curr := (if ra_list_curr (tid_tbl_ptr (wmm p) ! tid) = Ra_null then Ra_node n
                       else ra_list_curr (tid_tbl_ptr (wmm p) ! tid))\<rparr>"
  have ok: "\<forall>x \<in> set (ra_list t'). node_ok x" using node_okD [OF a tid] by (auto simp: t'_def)
  have "acct d (put_node ad tid n addr p)"
    using ok by (intro acct_diff [where t' = t' and dq = 0 and dp = 0 and dr = 0, OF a tid])
      (simp_all add: put_node_def upd_tid_def t'_def ras_def sums_append)
  then show ?thesis using acct_len [OF a] tid by (auto simp: put_node_def upd_tid_def ras_def)
qed

lemma ralist_add_spec:
  assumes "acct d p" "\<forall>i. alloc i \<noteq> None" "\<forall>k \<in> set tids. k < MAX_NUM_TID" "distinct tids"
  shows "acct d (ralist_add_tids alloc ad tids addr p)
    \<and> (\<forall>k < MAX_NUM_TID. ras (ralist_add_tids alloc ad tids addr p) k =
         (if k \<in> set tids then ras p k @ [added_node ad p (the (alloc k)) addr] else ras p k))
    \<and> tdls_pending_txq (ralist_add_tids alloc ad tids addr p) = tdls_pending_txq p"
  using assms
proof (induction tids arbitrary: p)
  case Nil
  then show ?case by simp
next
  case (Cons tid tids)
  obtain n where n: "alloc tid = Some n" using Cons.prems(2) by auto
  have s: "acct d (put_node ad tid n addr p)"
    "\<forall>k < MAX_NUM_TID. ras (put_node ad tid n addr p) k = (if k = tid then ras p tid @ [added_node ad p n addr] else ras p k)"
    using acct_put_node [OF Cons.prems(1)] Cons.prems(3) by auto
  show ?case
    using Cons.IH [OF s(1) Cons.prems(2)] Cons.prems(3,4) s(2) n unfolding ralist_add_step [where alloc = alloc, OF n]
    by auto
qed


lemma get_queue_raptr_spec:
  assumes a: "acct d p" and u: "ra_unique p" and un: "uniform p" and al: "\<forall>i. alloc i \<noteq> None"
    and tid: "tid < MAX_NUM_TID" and g: "wlan_wmm_get_queue_raptr alloc ad tid addr p = (node, p1)"
  shows "acct d p1 \<and> ra_unique p1 \<and> uniform p1 \<and> same_queues p p1 \<and> tdls_pending_txq p1 = tdls_pending_txq p
    \<and> (\<forall>i. node = Some i \<longrightarrow> i < length (ras p1 tid) \<and> ra (ras p1 tid ! i) = addr)"
proof (cases "wlan_wmm_get_ralist_node p tid addr")
  case (Some i)
  then have f: "find_index (\<lambda>r. ra r = addr) (ras p tid) = Some i" by (simp add: wlan_wmm_get_ralist_node_def)
  have e: "node = Some i" "p1 = p" using g Some by (simp_all add: wlan_wmm_get_queue_raptr_def)
  show ?thesis using e a u un find_index_SomeD [OF f] by (simp add: same_queues_def)
next
  case None
  show ?thesis
  proof (cases "p1 = p")
    case True
    then show ?thesis
      using a u un find_index_SomeD [of _ "ras p tid"] g None
      by (auto simp: wlan_wmm_get_queue_raptr_def wlan_wmm_get_ralist_node_def same_queues_def Let_def split: if_splits)
  next
    case False
    then have p1: "p1 = wlan_ralist_add alloc ad addr p" "node = wlan_wmm_get_ralist_node p1 tid addr"
      using g None by (auto simp: wlan_wmm_get_queue_raptr_def Let_def split: if_splits)
    have r: "acct d p1" "\<forall>k < MAX_NUM_TID. ras p1 k = ras p k @ [added_node ad p (the (alloc k)) addr]"
      "tdls_pending_txq p1 = tdls_pending_txq p"
      using ralist_add_spec [OF a al, of "[0..<MAX_NUM_TID]"] by (auto simp: p1 wlan_ralist_add_def)
    have new: "addr \<notin> ra ` set (ras p k)" if "k < MAX_NUM_TID" for k
    proof -
      have "addr \<notin> ra ` set (ras p tid)" using None by (auto simp: wlan_wmm_get_ralist_node_def find_index_None)
      then show ?thesis using un tid that unfolding uniform_def by metis
    qed
    have "ra_unique p1" using u new r(2) by (auto simp: ra_unique_def)
    moreover have "uniform p1"
    proof -
      have "ra ` set (ras p1 k) = insert addr (ra ` set (ras p k))" if "k < MAX_NUM_TID" for k
        using r(2) that by simp
      then show ?thesis using un unfolding uniform_def by (metis zero_less_numeral)
    qed
    moreover have "same_queues p p1" using r(2) by (auto simp: same_queues_def queue_at_def nth_append)
    moreover have "i < length (ras p1 tid) \<and> ra (ras p1 tid ! i) = addr" if "node = Some i" for i
    proof -
      have f: "find_index (\<lambda>r. ra r = addr) (ras p1 tid) = Some i"
        using that p1(2) by (simp add: wlan_wmm_get_ralist_node_def)
      show ?thesis using find_index_SomeD [OF f] by simp
    qed
    ultimately show ?thesis using r by blast
  qed
qed

lemma enqueue_buf_spec:
  assumes a: "acct d p" and tid: "tid < MAX_NUM_TID" and i: "i < length (ras p tid)"
    and room: "length (buf_head (ras p tid ! i)) < 65535"
  shows "acct d (enqueue_buf ad g tid i b p)
    \<and> tdls_pending_txq (enqueue_buf ad g tid i b p) = tdls_pending_txq p
    \<and> (\<forall>k < MAX_NUM_TID. map ra (ras (enqueue_buf ad g tid i b p) k) = map ra (ras p k)
        \<and> (\<forall>j. queue_at (enqueue_buf ad g tid i b p) k j =
             (if k = tid \<and> j = i then queue_at p tid i @ [b\<lparr>in_ts := system_time ad\<rparr>] else queue_at p k j)))"
proof -
  have r: "ras (enqueue_buf ad g tid i b p) k =
      (if k = tid then (ras p tid)[i := (ras p tid ! i)\<lparr>buf_head := buf_head (ras p tid ! i) @ [b\<lparr>in_ts := system_time ad\<rparr>],
         total_pkts := total_pkts (ras p tid ! i) + 1, packet_count := packet_count (ras p tid ! i) + 1\<rparr>] else ras p k)"
    if "k < MAX_NUM_TID" for k
    using acct_len [OF a] tid that by (auto simp: enqueue_buf_def Let_def ras_def upd_defs)
  have "tdls_pending_txq (enqueue_buf ad g tid i b p) = tdls_pending_txq p"
    by (simp add: enqueue_buf_def Let_def upd_defs)
  moreover have "map ra (ras (enqueue_buf ad g tid i b p) k) = map ra (ras p k)" if "k < MAX_NUM_TID" for k
    using r [OF that] by (auto simp: map_update_same)
  ultimately show ?thesis
    using acct_enqueue [OF a tid i room] r i by (auto simp: queue_at_def nth_list_update)
qed


lemma choose_queue_spec:
  assumes a: "acct 0 p" "ra_unique p" "uniform p" "\<forall>i. alloc i \<noteq> None"
    and ch: "choose_queue alloc ad addr b p = Inr (tid, node, b1, p1)"
  shows "tid < MAX_NUM_TID \<and> buf_addr b1 = buf_addr b \<and> pbuf b1 = pbuf b \<and> acct 0 p1 \<and> ra_unique p1 \<and> uniform p1
    \<and> same_queues p p1 \<and> tdls_pending_txq p1 = tdls_pending_txq p
    \<and> (\<forall>i. node = Some i \<longrightarrow> i < length (ras p1 tid))"
proof -
  have down: "wlan_wmm_downgrade_tid p t < MAX_NUM_TID" for t by (rule downgrade_tid_less)
  have tid: "tid < MAX_NUM_TID"
    using ch down by (auto simp: choose_queue_def Let_def split: if_splits prod.splits option.splits)
  have b1: "buf_addr b1 = buf_addr b \<and> pbuf b1 = pbuf b"
    using ch by (auto simp: choose_queue_def Let_def split: if_splits prod.splits)
  have "(\<exists>dest. wlan_wmm_get_queue_raptr alloc ad tid dest p = (node, p1))
      \<or> (p1 = p \<and> (\<forall>i. node = Some i \<longrightarrow> i < length (ras p tid)))"
    using ch by (auto simp: choose_queue_def Let_def split: if_splits prod.splits option.splits)
  then show ?thesis
    using get_queue_raptr_spec [OF a tid] a tid b1 by (auto simp: same_queues_def)
qed

text \<open>C23. Queueing a packet, on every path: a connected interface puts it at the tail of one queue (or parks it while the
  TDLS link to its destination is being set up), a refused one is completed once with failure; nothing else
  moves, and the per-node, per-TID, paused and total counters agree with the queues afterwards.  Room for it (the
  16-bit node counter) and successful allocations are assumed.\<close>

theorem add_buf_txqueue_exact:
  assumes "wmm_inv (priv c)" "uniform (priv c)" "\<forall>i. alloc i \<noteq> None"
    "\<forall>tid < MAX_NUM_TID. \<forall>i. length (queue_at (priv c) tid i) < 65535"
    "data_offset b + 6 \<le> length (pbuf b)"
  shows "\<exists>c' b'. wlan_wmm_add_buf_txqueue alloc g b c = Some c' \<and> wmm_inv (priv c') \<and> uniform (priv c')
    \<and> buf_addr b' = buf_addr b \<and> pbuf b' = pbuf b
    \<and> ((calls c' = calls c @ complete_failed [b'] \<and> same_queues (priv c) (priv c')
           \<and> tdls_pending_txq (priv c') = tdls_pending_txq (priv c))
     \<or> (calls c' = calls c \<and> same_queues (priv c) (priv c')
           \<and> tdls_pending_txq (priv c') = tdls_pending_txq (priv c) @ [b'])
     \<or> (calls c' = calls c \<and> tdls_pending_txq (priv c') = tdls_pending_txq (priv c)
           \<and> (\<exists>tid < MAX_NUM_TID. \<exists>i. \<forall>k < MAX_NUM_TID. \<forall>j. queue_at (priv c') k j =
               (if k = tid \<and> j = i then queue_at (priv c) tid i @ [b'] else queue_at (priv c) k j))))"
  (is "\<exists>c' b'. ?P c' b'")
proof -
  define b0 where "b0 = b\<lparr>buf_type := MLAN_BUF_TYPE_DATA\<rparr>"
  have a: "acct 0 (priv c)" "ra_unique (priv c)" using assms(1) by (simp_all add: wmm_inv_def)
  show ?thesis
  proof (cases "media_connected (priv c)")
    case False
    then have "?P (emit [Call_wlan_write_data_complete b0 MLAN_STATUS_FAILURE] c) b0"
      using assms(1,2) by (simp add: wlan_wmm_add_buf_txqueue_def b0_def same_queues_def complete_failed_def)
    then show ?thesis by (intro exI)
  next
    case True
    obtain addr where addr: "bytes6 (pbuf b0) (int (data_offset b0)) = Some addr"
      using assms(5) by (simp add: bytes6_def b0_def)
    show ?thesis
    proof (cases "choose_queue alloc (adapter c) addr b0 (priv c)")
      case (Inl p1)
      then have p1: "p1 = wlan_add_buf_tdls_txqueue b0 (priv c)"
        by (auto simp: choose_queue_def Let_def split: if_splits prod.splits)
      have w: "wmm p1 = wmm (priv c)" by (simp add: p1 wlan_add_buf_tdls_txqueue_def)
      then have r: "ras p1 = ras (priv c)" by (simp add: ras_def fun_eq_iff)
      have "uniform p1" using uniform_cong [OF assms(2)] r by metis
      moreover have "wmm_inv p1" "same_queues (priv c) p1"
        using assms(1) by (simp_all add: wmm_inv_def acct_def ra_unique_def same_queues_def queue_at_def w r)
      ultimately have "?P (set_priv p1 c) b0"
        using True addr Inl by (simp add: wlan_wmm_add_buf_txqueue_def b0_def [symmetric] p1 wlan_add_buf_tdls_txqueue_def)
          (simp add: b0_def)
      then show ?thesis by (intro exI)
    next
      case (Inr x)
      obtain tid node b1 p1 where x: "x = (tid, node, b1, p1)" by (cases x) auto
      have sel: "tid < MAX_NUM_TID \<and> buf_addr b1 = buf_addr b \<and> pbuf b1 = pbuf b \<and> acct 0 p1 \<and> ra_unique p1 \<and> uniform p1
          \<and> same_queues (priv c) p1 \<and> tdls_pending_txq p1 = tdls_pending_txq (priv c)
          \<and> (\<forall>i. node = Some i \<longrightarrow> i < length (ras p1 tid))"
        using choose_queue_spec [OF a assms(2,3) Inr [unfolded x]] by (simp add: b0_def)
      show ?thesis
      proof (cases node)
        case None
        then have "?P (emit [Call_wlan_write_data_complete b1 MLAN_STATUS_FAILURE] (set_priv p1 c)) b1"
          using True addr Inr sel
          by (simp add: wlan_wmm_add_buf_txqueue_def b0_def [symmetric] x wmm_inv_def complete_failed_def)
        then show ?thesis by (intro exI)
      next
        case (Some i)
        have i: "i < length (ras p1 tid)" using sel Some by blast
        have room: "length (buf_head (ras p1 tid ! i)) < 65535"
        proof -
          have "queue_at p1 tid i = queue_at (priv c) tid i" using sel by (simp add: same_queues_def)
          then show ?thesis using assms(4) sel i by (metis queue_at_def)
        qed
        have sp: "acct 0 (enqueue_buf (adapter c) g tid i b1 p1)
          \<and> tdls_pending_txq (enqueue_buf (adapter c) g tid i b1 p1) = tdls_pending_txq p1
          \<and> (\<forall>k < MAX_NUM_TID. map ra (ras (enqueue_buf (adapter c) g tid i b1 p1) k) = map ra (ras p1 k)
            \<and> (\<forall>j. queue_at (enqueue_buf (adapter c) g tid i b1 p1) k j =
             (if k = tid \<and> j = i then queue_at p1 tid i @ [b1\<lparr>in_ts := system_time (adapter c)\<rparr>] else queue_at p1 k j)))"
          using sel by (intro enqueue_buf_spec [OF _ _ i room]) simp_all
        then have "wmm_inv (enqueue_buf (adapter c) g tid i b1 p1)" "uniform (enqueue_buf (adapter c) g tid i b1 p1)"
          using sel uniform_cong ra_unique_pause unfolding wmm_inv_def by blast+
        then have "?P (set_priv (enqueue_buf (adapter c) g tid i b1 p1) c) (b1\<lparr>in_ts := system_time (adapter c)\<rparr>)"
          using True addr Inr sel sp Some
          by (auto simp: wlan_wmm_add_buf_txqueue_def b0_def [symmetric] x same_queues_def)
        then show ?thesis by (intro exI)
      qed
    qed
  qed
qed

end
