(* ===== verification/Tx_Ba.thy ===== *)
theory Tx_Ba
  imports Rx_Table Wmm_Acct
begin

text \<open>
  Transmit block-ack streams (\<^verbatim>\<open>mlan_11n.c\<close>, \<^verbatim>\<open>mlan_11n.h\<close>, and the stream teardown of
  \<^verbatim>\<open>mlan_11n_rxreorder.c\<close>): the stream table keyed by TID and receiver, the ADDBA and DELBA
  commands and what their responses and the peer's DELBA do to the two tables and to the
  receiver's WMM node.  \<open>prep\<close> is what \<^verbatim>\<open>wlan_prepare_cmd\<close> answers for a command; \<open>None\<close> is an access
  outside an array or to freed memory.
\<close>

datatype delba_type = TYPE_DELBA_SENT | TYPE_DELBA_RECEIVE

abbreviation REASON_CODE_STA_TIMEOUT :: t_u16 where "REASON_CODE_STA_TIMEOUT \<equiv> 39"
abbreviation IMMEDIATE_BLOCK_ACK :: t_u32 where "IMMEDIATE_BLOCK_ACK \<equiv> 2"
abbreviation DELBA_ALL_TIDS :: int where "DELBA_ALL_TIDS \<equiv> 0xff"
abbreviation BA_RESULT_TIMEOUT :: t_u8 where "BA_RESULT_TIMEOUT \<equiv> 2"

text \<open>An address argument: a caller's buffer, or the address field inside an entry of the stream table.\<close>

datatype mac_ptr = Mac_value mac | Mac_of_tx_entry nat

definition INITIATOR_BIT :: "t_u16 \<Rightarrow> bool" where
  "INITIATOR_BIT s = bit s 11"

definition delba_tid :: "t_u16 \<Rightarrow> int" where
  "delba_tid s = uint (drop_bit 12 s)"

subsection \<open>The stream table\<close>

definition wlan_11n_get_txbastream_tbl :: "mlan_private \<Rightarrow> int \<Rightarrow> mac \<Rightarrow> nat option" where
  "wlan_11n_get_txbastream_tbl p tid addr =
     find_index (\<lambda>e. tx_ra e = addr \<and> tx_tid e = tid) (tx_ba_stream_tbl_ptr p)"

definition tx_lookup :: "mlan_private \<Rightarrow> int \<times> mac \<Rightarrow> nat option" where
  "tx_lookup p k = wlan_11n_get_txbastream_tbl p (fst k) (snd k)"

definition tx_key :: "TxBAStreamTbl \<Rightarrow> int \<times> mac" where
  "tx_key e = (tx_tid e, tx_ra e)"

interpretation txs: keyed_table tx_ba_stream_tbl_ptr tx_lookup tx_key
proof (unfold_locales, goal_cases)
  case (1 s k i)
  then show ?case
    using find_index_SomeD [of "\<lambda>e. tx_ra e = snd k \<and> tx_tid e = fst k"]
    by (cases k) (fastforce simp: tx_lookup_def wlan_11n_get_txbastream_tbl_def tx_key_def)
next
  case (2 s k)
  then show ?case
    by (auto simp: tx_lookup_def wlan_11n_get_txbastream_tbl_def tx_key_def find_index_None)
qed

definition wlan_is_txbastreamptr_valid :: "mlan_private \<Rightarrow> nat \<Rightarrow> bool" where
  "wlan_is_txbastreamptr_valid p i \<longleftrightarrow> i < length (tx_ba_stream_tbl_ptr p)"

definition wlan_11n_get_txbastream_status :: "mlan_private \<Rightarrow> baStatus_e \<Rightarrow> nat option" where
  "wlan_11n_get_txbastream_status p st = find_index (\<lambda>e. tx_ba_status e = st) (tx_ba_stream_tbl_ptr p)"

definition wlan_11n_delete_txbastream_tbl_entry :: "nat \<Rightarrow> mlan_private \<Rightarrow> mlan_private" where
  "wlan_11n_delete_txbastream_tbl_entry i p =
     (if \<not> wlan_is_txbastreamptr_valid p i then p
      else p\<lparr>tx_ba_stream_tbl_ptr := remove_nth i (tx_ba_stream_tbl_ptr p)\<rparr>)"

text \<open>Rounds of the deletion loop: the fuel is the length of the table.\<close>

fun delete_streams :: "nat \<Rightarrow> mlan_private \<Rightarrow> mlan_private option" where
  "delete_streams 0 p = (if tx_ba_stream_tbl_ptr p = [] then Some p else None)"
| "delete_streams (Suc n) p =
     (if tx_ba_stream_tbl_ptr p = [] then Some p
      else delete_streams n (wlan_11n_delete_txbastream_tbl_entry 0 p))"

definition wlan_11n_deleteall_txbastream_tbl :: "mlan_private \<Rightarrow> mlan_private option" where
  "wlan_11n_deleteall_txbastream_tbl p = do {
     p1 \<leftarrow> delete_streams (length (tx_ba_stream_tbl_ptr p)) p;
     Some (p1\<lparr>tx_ba_stream_tbl_ptr := [],
       aggr_prio_tbl := map (\<lambda>a. a\<lparr>ampdu_ap := ampdu_user a\<rparr>) (aggr_prio_tbl p1)\<rparr>) }"

text \<open>The WMM node of a stream, and an update of it.\<close>

definition upd_peer_node :: "int \<Rightarrow> mac \<Rightarrow> (raListTbl \<Rightarrow> raListTbl) \<Rightarrow> mlan_private \<Rightarrow> mlan_private" where
  "upd_peer_node tid addr f p =
     (let tid_down = wlan_get_wmm_tid_down p tid
      in case wlan_wmm_get_ralist_node p tid_down addr of Some i \<Rightarrow> upd_ra tid_down i f p | None \<Rightarrow> p)"

definition wlan_11n_create_txbastream_tbl :: "bool \<Rightarrow> mac \<Rightarrow> int \<Rightarrow> baStatus_e \<Rightarrow> mlan_private \<Rightarrow> mlan_private" where
  "wlan_11n_create_txbastream_tbl alloc addr tid st p =
     (if \<not> alloc then p
      else let p1 = upd_peer_node tid addr (\<lambda>r. r\<lparr>amsdu_in_ampdu := False, ra_ba_status := st\<rparr>) p
           in p1\<lparr>tx_ba_stream_tbl_ptr := tx_ba_stream_tbl_ptr p1
                   @ [\<lparr>tx_tid = tid, tx_ra = addr, tx_ba_status = st, tx_amsdu_ok = False\<rparr>]\<rparr>)"

fun cleanup_stream_tids :: "int list \<Rightarrow> mac \<Rightarrow> mlan_private \<Rightarrow> mlan_private" where
  "cleanup_stream_tids [] addr p = p"
| "cleanup_stream_tids (i # is) addr p =
     cleanup_stream_tids is addr
       (case wlan_11n_get_txbastream_tbl p i addr of
          Some n \<Rightarrow> wlan_11n_delete_txbastream_tbl_entry n p | None \<Rightarrow> p)"

definition wlan_11n_cleanup_txbastream_tbl :: "mac \<Rightarrow> mlan_private \<Rightarrow> mlan_private" where
  "wlan_11n_cleanup_txbastream_tbl addr p = cleanup_stream_tids (map int [0..<MAX_NUM_TID]) addr p"

subsection \<open>Commands\<close>

text \<open>The request is a variable on the stack: what is not assigned to it (\<open>junk\<close>) goes out as it is.\<close>

definition wlan_send_addba :: "(host_cmd \<Rightarrow> mlan_status) \<Rightarrow> HostCmd_DS_11N_ADDBA_REQ \<Rightarrow> int \<Rightarrow> mac \<Rightarrow> mlan_ctx
    \<Rightarrow> (mlan_status \<times> mlan_ctx) option" where
  "wlan_send_addba prep junk tid peer_mac c = do {
     let p = priv c;
     let param0 = (ucast ((push_bit 2 (word_of_int tid)) OR push_bit 6 (tx_win_size (add_ba_param p))
                     OR IMMEDIATE_BLOCK_ACK) :: t_u16);
     param \<leftarrow> (if tx_amsdu (add_ba_param p)
              then do { a \<leftarrow> arr_get (aggr_prio_tbl p) tid;
                        Some (if aggr_amsdu a \<noteq> BA_STREAM_NOT_ALLOWED then param0 OR BLOCKACKPARAM_AMSDU_SUPP_MASK else param0) }
              else Some param0);
     let tok1 = dialog_tok (adapter c) + 1;
     let tok = (if tok1 = 0 then 1 else tok1);
     let req = junk\<lparr>req_block_ack_param_set := param, req_block_ack_tmo := ucast (ba_timeout (add_ba_param p)),
                     req_dialog_token := tok, req_peer_mac_addr := peer_mac\<rparr>;
     let cmd = HostCmd_CMD_11N_ADDBA_REQ req;
     Some (prep cmd, emit [Call_wlan_prepare_cmd cmd] (c\<lparr>adapter := (adapter c)\<lparr>dialog_tok := tok\<rparr>\<rparr>)) }"

definition delba_cmd :: "int \<Rightarrow> mac \<Rightarrow> bool \<Rightarrow> host_cmd" where
  "delba_cmd tid peer_mac initiator =
     (let s = (word_of_int (tid * 4096) :: t_u16)
      in HostCmd_CMD_11N_DELBA \<lparr>del_result = 0, del_peer_mac_addr = peer_mac,
           del_ba_param_set = (if initiator then s OR push_bit 11 1 else s AND NOT (push_bit 11 1)),
           del_reason_code = 0\<rparr>)"

definition wlan_send_delba :: "(host_cmd \<Rightarrow> mlan_status) \<Rightarrow> bool \<Rightarrow> int \<Rightarrow> mac \<Rightarrow> bool \<Rightarrow> mlan_ctx \<Rightarrow> mlan_status \<times> mlan_ctx" where
  \<comment> \<open>the second argument: is an ioctl request attached to the command\<close>
  "wlan_send_delba prep ioctl tid peer_mac initiator c =
     (let cmd = delba_cmd tid peer_mac initiator
      in (if prep cmd = MLAN_STATUS_SUCCESS then MLAN_STATUS_PENDING else prep cmd,
          emit [if ioctl then Call_wlan_prepare_cmd_ioctl cmd else Call_wlan_prepare_cmd cmd] c))"

subsection \<open>Tearing a stream down\<close>

definition mac_deref :: "mlan_private \<Rightarrow> mac_ptr \<Rightarrow> mac option" where
  "mac_deref p m =
     (case m of Mac_value a \<Rightarrow> Some a
      | Mac_of_tx_entry i \<Rightarrow> map_option tx_ra (arr_get (tx_ba_stream_tbl_ptr p) (int i)))"

definition mlan_11n_delete_bastream_tbl :: "int \<Rightarrow> mac_ptr \<Rightarrow> delba_type \<Rightarrow> bool \<Rightarrow> t_u16 \<Rightarrow> mlan_ctx \<Rightarrow> mlan_ctx option" where
  "mlan_11n_delete_bastream_tbl tid peer_mac type initiator reason_code c = do {
     let cleanup_rx_reorder_tbl = (if type = TYPE_DELBA_RECEIVE then initiator else \<not> initiator);
     addr \<leftarrow> mac_deref (priv c) peer_mac;
     if cleanup_rx_reorder_tbl
     then (case wlan_11n_get_rxreorder_tbl (priv c) tid addr of
             None \<Rightarrow> Some c
           | Some i \<Rightarrow> wlan_11n_delete_rxreorder_tbl_entry i c)
     else (case wlan_11n_get_txbastream_tbl (priv c) tid addr of
             None \<Rightarrow> Some c
           | Some i \<Rightarrow> do {
               let p1 = wlan_11n_delete_txbastream_tbl_entry i (priv c);
               \<comment> \<open>the entry is freed; the address is read again\<close>
               addr1 \<leftarrow> (if peer_mac = Mac_of_tx_entry i then None else Some addr);
               Some (set_priv (upd_peer_node tid addr1 (\<lambda>r.
                 let r1 = r\<lparr>amsdu_in_ampdu := False, ra_ba_status := BA_STREAM_NOT_SETUP\<rparr>
                 in if type = TYPE_DELBA_RECEIVE
                    then r1\<lparr>del_ba_count := (if reason_code = REASON_CODE_STA_TIMEOUT then 0 else del_ba_count r1 + 1),
                            packet_count := 0,
                            ba_packet_threshold :=
                              ucast (1024 + ucast (wlan_get_random_ba_threshold (adapter c)) :: t_u32)\<rparr>
                    else r1) p1) c) }) }"

definition wlan_11n_delete_bastream :: "HostCmd_DS_11N_DELBA \<Rightarrow> mlan_ctx \<Rightarrow> mlan_ctx option" where
  "wlan_11n_delete_bastream del_ba c =
     mlan_11n_delete_bastream_tbl (delba_tid (del_ba_param_set del_ba)) (Mac_value (del_peer_mac_addr del_ba))
       TYPE_DELBA_RECEIVE (INITIATOR_BIT (del_ba_param_set del_ba)) (del_reason_code del_ba) c"

definition wlan_ret_11n_delba :: "(host_cmd \<Rightarrow> mlan_status) \<Rightarrow> HostCmd_DS_11N_ADDBA_REQ \<Rightarrow> bool \<Rightarrow> HostCmd_DS_11N_DELBA
    \<Rightarrow> mlan_ctx \<Rightarrow> mlan_ctx option" where
  "wlan_ret_11n_delba prep junk alloc del_ba c = do {
     let tid = delba_tid (del_ba_param_set del_ba);
     let initiator = INITIATOR_BIT (del_ba_param_set del_ba);
     if del_result del_ba = 0
     then do {
       c1 \<leftarrow> mlan_11n_delete_bastream_tbl tid (Mac_value (del_peer_mac_addr del_ba)) TYPE_DELBA_SENT initiator 0 c;
       case wlan_11n_get_txbastream_status (priv c1) BA_STREAM_SETUP_INPROGRESS of
         None \<Rightarrow> Some c1
       | Some i \<Rightarrow>
           let e = tx_ba_stream_tbl_ptr (priv c1) ! i
           in map_option snd (wlan_send_addba prep junk (tx_tid e) (tx_ra e) c1) }
     else if initiator
     then
       let p1 = (if wlan_11n_get_txbastream_tbl (priv c) tid (del_peer_mac_addr del_ba) = None
                 then wlan_11n_create_txbastream_tbl alloc (del_peer_mac_addr del_ba) tid
                        BA_STREAM_SETUP_INPROGRESS (priv c)
                 else priv c)
       in (case wlan_11n_get_txbastream_status p1 BA_STREAM_SETUP_INPROGRESS of
             None \<Rightarrow> Some (set_priv p1 c)
           | Some i \<Rightarrow> mlan_11n_delete_bastream_tbl (tx_tid (tx_ba_stream_tbl_ptr p1 ! i)) (Mac_of_tx_entry i)
                        TYPE_DELBA_SENT True 0 (set_priv p1 c))
     else Some c }"

definition disable_station_ampdu :: "int \<Rightarrow> mac \<Rightarrow> mlan_private \<Rightarrow> mlan_private option" where
  "disable_station_ampdu tid addr p =
     (case wlan_get_station_entry p addr of
        None \<Rightarrow> Some p
      | Some i \<Rightarrow> do {
          t \<leftarrow> arr_set (ampdu_sta (sta_list p ! i)) tid BA_STREAM_NOT_ALLOWED;
          Some (p\<lparr>sta_list := (sta_list p)[i := (sta_list p ! i)\<lparr>ampdu_sta := t\<rparr>]\<rparr>) })"

definition wlan_ret_11n_addba_req :: "HostCmd_DS_11N_ADDBA_RSP \<Rightarrow> mlan_ctx \<Rightarrow> mlan_ctx option" where
  "wlan_ret_11n_addba_req rsp c = do {
     let p = priv c;
     let tid = uint (param_tid (rsp_block_ack_param_set rsp));
     let addr = rsp_peer_mac_addr rsp;
     let tid_down = wlan_get_wmm_tid_down p tid;
     let node = wlan_wmm_get_ralist_node p tid_down addr;
     let upd = (\<lambda>f p. case node of Some i \<Rightarrow> upd_ra tid_down i f p | None \<Rightarrow> p);
     if rsp_status_code rsp = 0
     then (case wlan_11n_get_txbastream_tbl p tid addr of
             None \<Rightarrow> Some c
           | Some i \<Rightarrow> do {
               amsdu \<leftarrow> (if rsp_block_ack_param_set rsp AND BLOCKACKPARAM_AMSDU_SUPP_MASK \<noteq> 0 \<and> tx_amsdu (add_ba_param p)
                        then map_option (\<lambda>a. aggr_amsdu a \<noteq> BA_STREAM_NOT_ALLOWED) (arr_get (aggr_prio_tbl p) tid)
                        else Some False);
               let e = tx_ba_stream_tbl_ptr p ! i;
               let p1 = p\<lparr>tx_ba_stream_tbl_ptr := (tx_ba_stream_tbl_ptr p)[i :=
                            e\<lparr>tx_ba_status := BA_STREAM_SETUP_COMPLETE, tx_amsdu_ok := amsdu\<rparr>]\<rparr>;
               Some (set_priv (upd (\<lambda>r. r\<lparr>amsdu_in_ampdu := amsdu, ra_ba_status := BA_STREAM_SETUP_COMPLETE\<rparr>) p1) c) })
     else do {
       let p1 = upd (\<lambda>r. r\<lparr>amsdu_in_ampdu := False, ra_ba_status := BA_STREAM_NOT_SETUP\<rparr>) p;
       c2 \<leftarrow> mlan_11n_delete_bastream_tbl tid (Mac_value addr) TYPE_DELBA_SENT True 0 (set_priv p1 c);
       if add_rsp_result rsp \<noteq> BA_RESULT_TIMEOUT
       then do {
         p3 \<leftarrow> (if bss_role p = MLAN_BSS_ROLE_UAP then disable_station_ampdu tid addr (priv c2) else Some (priv c2));
         p4 \<leftarrow> (case node of
                  Some i \<Rightarrow> if is_tdls_link (ras p3 tid_down ! i) then disable_station_ampdu tid addr p3 else Some p3
                | None \<Rightarrow> Some p3);
         a \<leftarrow> arr_get (aggr_prio_tbl p4) tid;
         t \<leftarrow> arr_set (aggr_prio_tbl p4) tid (a\<lparr>ampdu_ap := BA_STREAM_NOT_ALLOWED\<rparr>);
         Some (set_priv (p4\<lparr>aggr_prio_tbl := t\<rparr>) c2) }
       else Some (set_priv (upd (\<lambda>r. r\<lparr>packet_count := 0,
              ba_packet_threshold := wlan_get_random_ba_threshold (adapter c2)\<rparr>) (priv c2)) c2) } }"

subsection \<open>Requests from user space\<close>

definition wlan_11n_delba :: "(host_cmd \<Rightarrow> mlan_status) \<Rightarrow> int \<Rightarrow> mlan_ctx \<Rightarrow> mlan_ctx" where
  "wlan_11n_delba prep tid c =
     (case find_index (\<lambda>e. rr_tid e = tid) (rx_reorder_tbl_ptr (priv c)) of
        Some i \<Rightarrow> snd (wlan_send_delba prep False tid (rr_ta (rx_reorder_tbl_ptr (priv c) ! i)) False c)
      | None \<Rightarrow> c)"

abbreviation ADDBA_RSP_STATUS_REJECT :: t_u8 where "ADDBA_RSP_STATUS_REJECT \<equiv> 1"

fun set_addba_reject :: "nat list \<Rightarrow> t_u8 list \<Rightarrow> mlan_private \<Rightarrow> mlan_status \<times> mlan_private" where
  "set_addba_reject [] cfg p = (MLAN_STATUS_SUCCESS, p)"
| "set_addba_reject (i # is) cfg p =
     (if cfg ! i > ADDBA_RSP_STATUS_REJECT then (MLAN_STATUS_FAILURE, p)
      else set_addba_reject is cfg (p\<lparr>addba_reject := (addba_reject p)[i := cfg ! i]\<rparr>))"

definition wlan_11n_ioctl_addba_reject :: "(host_cmd \<Rightarrow> mlan_status) \<Rightarrow> t_u8 list \<Rightarrow> mlan_ctx \<Rightarrow> mlan_status \<times> mlan_ctx" where
  \<comment> \<open>the set action; a failure also sets the request's status code to \<^verbatim>\<open>MLAN_ERROR_INVALID_PARAMETER\<close>\<close>
  "wlan_11n_ioctl_addba_reject prep cfg c =
     (let (ret, p1) = set_addba_reject [0..<MAX_NUM_TID] cfg (priv c);
          c1 = set_priv p1 c
      in (ret, if media_connected p1
               then emit [Call_wlan_recv_event MLAN_EVENT_ID_DRV_DEFER_HANDLING]
                      (fold (\<lambda>i c. if cfg ! i = ADDBA_RSP_STATUS_REJECT then wlan_11n_delba prep (int i) c else c)
                         [0..<MAX_NUM_TID] c1)
               else c1))"

text \<open>Does an established stream to \<open>addr\<close> fall under a DELBA request?\<close>

definition delba_applies :: "int \<Rightarrow> mac \<Rightarrow> baStatus_e \<Rightarrow> int \<Rightarrow> mac \<Rightarrow> bool" where
  "delba_applies tid peer_address st etid addr \<longleftrightarrow> st = BA_STREAM_SETUP_COMPLETE
     \<and> (tid = DELBA_ALL_TIDS \<or> tid = etid) \<and> (peer_address = replicate 6 0 \<or> peer_address = addr)"

text \<open>The walk over the stream table: positions still to visit.\<close>

fun wlan_send_delba_to_entry_in_txbastream_tbl :: "(host_cmd \<Rightarrow> mlan_status) \<Rightarrow> bool \<Rightarrow> int \<Rightarrow> mac \<Rightarrow> nat option
    \<Rightarrow> nat list \<Rightarrow> mlan_status \<times> mlan_ctx \<Rightarrow> mlan_status \<times> mlan_ctx" where
  "wlan_send_delba_to_entry_in_txbastream_tbl prep req tid peer last_del [] s = s"
| "wlan_send_delba_to_entry_in_txbastream_tbl prep req tid peer last_del (i # is) s =
     wlan_send_delba_to_entry_in_txbastream_tbl prep req tid peer last_del is
       (let e = tx_ba_stream_tbl_ptr (priv (snd s)) ! i
        in if delba_applies tid peer (tx_ba_status e) (tx_tid e) (tx_ra e)
           then wlan_send_delba prep (req \<and> last_del = Some i) (tx_tid e) (tx_ra e) True (snd s) else s)"

fun wlan_send_delba_to_entry_in_reorder_tbl :: "(host_cmd \<Rightarrow> mlan_status) \<Rightarrow> bool \<Rightarrow> int \<Rightarrow> mac \<Rightarrow> nat option
    \<Rightarrow> nat list \<Rightarrow> mlan_status \<times> mlan_ctx \<Rightarrow> mlan_status \<times> mlan_ctx" where
  "wlan_send_delba_to_entry_in_reorder_tbl prep req tid peer last_del [] s = s"
| "wlan_send_delba_to_entry_in_reorder_tbl prep req tid peer last_del (i # is) s =
     wlan_send_delba_to_entry_in_reorder_tbl prep req tid peer last_del is
       (let e = rx_reorder_tbl_ptr (priv (snd s)) ! i
        in if delba_applies tid peer (rr_ba_status e) (rr_tid e) (rr_ta e)
           then wlan_send_delba prep (req \<and> last_del = Some i) (rr_tid e) (rr_ta e) False (snd s) else s)"

fun last_match :: "('a \<Rightarrow> bool) \<Rightarrow> 'a list \<Rightarrow> nat \<Rightarrow> nat option \<Rightarrow> nat option" where
  "last_match P [] i best = best"
| "last_match P (x # xs) i best = last_match P xs (Suc i) (if P x then Some i else best)"

record mlan_ds_11n_delba =
  delba_direction :: t_u8
  delba_req_tid :: t_u8
  delba_req_mac :: mac

definition wlan_11n_ioctl_delba :: "(host_cmd \<Rightarrow> mlan_status) \<Rightarrow> mlan_ds_11n_delba \<Rightarrow> mlan_ctx \<Rightarrow> mlan_status \<times> mlan_ctx" where
  "wlan_11n_ioctl_delba prep cfg c =
     (let tid = uint (delba_req_tid cfg); peer = delba_req_mac cfg;
          rx = bit (delba_direction cfg) 1; tx = bit (delba_direction cfg) 0;
          last_rx = (if rx then last_match (\<lambda>e. delba_applies tid peer (rr_ba_status e) (rr_tid e) (rr_ta e))
                              (rx_reorder_tbl_ptr (priv c)) 0 None else None);
          last_tx = (if last_rx = None \<and> tx
                     then last_match (\<lambda>e. delba_applies tid peer (tx_ba_status e) (tx_tid e) (tx_ra e))
                            (tx_ba_stream_tbl_ptr (priv c)) 0 None else None);
          tx_is = [0..<length (tx_ba_stream_tbl_ptr (priv c))]; rx_is = [0..<length (rx_reorder_tbl_ptr (priv c))];
          s1 = (if tx
                then (if last_rx \<noteq> None
                      then wlan_send_delba_to_entry_in_txbastream_tbl prep False tid peer None tx_is (MLAN_STATUS_SUCCESS, c)
                      else wlan_send_delba_to_entry_in_txbastream_tbl prep True tid peer last_tx tx_is (MLAN_STATUS_SUCCESS, c))
                else (MLAN_STATUS_SUCCESS, c))
      in if last_rx \<noteq> None
         then wlan_send_delba_to_entry_in_reorder_tbl prep True tid peer last_rx rx_is (MLAN_STATUS_SUCCESS, snd s1)
         else s1)"

subsection \<open>Copies for user space\<close>

record rx_reorder_tbl =
  copy_tid :: t_u16
  copy_ta :: mac
  copy_start_win :: t_u32
  copy_win_size :: t_u32
  copy_amsdu :: bool
  copy_buffer :: "bool list"

abbreviation MLAN_MAX_RX_BASTREAM_SUPPORTED :: nat where "MLAN_MAX_RX_BASTREAM_SUPPORTED \<equiv> 16"
abbreviation MAX_RX_WINSIZE :: nat where "MAX_RX_WINSIZE \<equiv> 64"

fun copy_rx_entries :: "RxReorderTbl list \<Rightarrow> nat \<Rightarrow> rx_reorder_tbl list option" where
  \<comment> \<open>the number counts the entries copied so far; a copy's \<^verbatim>\<open>buffer\<close> has \<open>MAX_RX_WINSIZE\<close> words\<close>
  "copy_rx_entries [] n = Some []"
| "copy_rx_entries (e # es) n = do {
     flags \<leftarrow> those (map (\<lambda>i. if i < MAX_RX_WINSIZE
                             then map_option (\<lambda>v. v \<noteq> None) (arr_get (rx_reorder_ptr e) (int i)) else None)
                      [0..<nat (rr_win_size e)]);
     let t = \<lparr>copy_tid = word_of_int (rr_tid e), copy_ta = rr_ta e, copy_start_win = word_of_int (rr_start_win e),
              copy_win_size = word_of_int (rr_win_size e), copy_amsdu = rr_amsdu e, copy_buffer = flags\<rparr>;
     if Suc n \<ge> MLAN_MAX_RX_BASTREAM_SUPPORTED then Some [t]
     else do { ts \<leftarrow> copy_rx_entries es (Suc n); Some (t # ts) } }"

definition wlan_get_rxreorder_tbl :: "mlan_private \<Rightarrow> rx_reorder_tbl list option" where
  "wlan_get_rxreorder_tbl p = copy_rx_entries (rx_reorder_tbl_ptr p) 0"

record tx_ba_stream_tbl =
  tcopy_tid :: t_u16
  tcopy_ra :: mac
  tcopy_amsdu :: bool

definition bastream_max :: "mlan_adapter \<Rightarrow> nat" where
  "bastream_max ad =
     (let m = unat (drop_bit 18 (hw_dot_11n_dev_cap ad) AND 0xF) in if m = 0 then 2 else m)"

fun copy_tx_entries :: "nat \<Rightarrow> TxBAStreamTbl list \<Rightarrow> nat \<Rightarrow> tx_ba_stream_tbl list" where
  "copy_tx_entries m [] n = []"
| "copy_tx_entries m (e # es) n =
     \<lparr>tcopy_tid = word_of_int (tx_tid e), tcopy_ra = tx_ra e, tcopy_amsdu = tx_amsdu_ok e\<rparr>
       # (if Suc n \<ge> m then [] else copy_tx_entries m es (Suc n))"

definition wlan_get_txbastream_tbl :: "mlan_adapter \<Rightarrow> mlan_private \<Rightarrow> tx_ba_stream_tbl list" where
  "wlan_get_txbastream_tbl ad p = copy_tx_entries (bastream_max ad) (tx_ba_stream_tbl_ptr p) 0"

subsection \<open>May a stream be used\<close>

definition is_station_ampdu_allowed :: "mlan_private \<Rightarrow> mac \<Rightarrow> int \<Rightarrow> bool option" where
  "is_station_ampdu_allowed p addr tid =
     (case wlan_get_station_entry p addr of
        None \<Rightarrow> Some False
      | Some i \<Rightarrow>
          if bss_role p = MLAN_BSS_ROLE_UAP \<and> wapi_enabled p \<and> \<not> sta_wapi_key_on (sta_list p ! i) then Some False
          else map_option (\<lambda>a. a \<noteq> BA_STREAM_NOT_ALLOWED) (arr_get (ampdu_sta (sta_list p ! i)) tid))"

definition reset_station_ampdu :: "int \<Rightarrow> mac \<Rightarrow> mlan_private \<Rightarrow> mlan_private option" where
  "reset_station_ampdu tid addr p =
     (case wlan_get_station_entry p addr of
        None \<Rightarrow> Some p
      | Some i \<Rightarrow> do {
          a \<leftarrow> arr_get (aggr_prio_tbl p) tid;
          t \<leftarrow> arr_set (ampdu_sta (sta_list p ! i)) tid (ampdu_user a);
          Some (p\<lparr>sta_list := (sta_list p)[i := (sta_list p ! i)\<lparr>ampdu_sta := t\<rparr>]\<rparr>) })"

definition IS_BG_RATE :: "mlan_private \<Rightarrow> bool" where
  "IS_BG_RATE p \<longleftrightarrow> bitmap_rates p ! 0 \<noteq> 0 \<or> bitmap_rates p ! 1 \<noteq> 0"

definition wlan_is_ampdu_allowed :: "mlan_adapter \<Rightarrow> mlan_private \<Rightarrow> raListTbl \<Rightarrow> int \<Rightarrow> bool option" where
  "wlan_is_ampdu_allowed ad p r tid =
     (if is_tdls_link r then is_station_ampdu_allowed p (ra r) tid
      else if tdls_status ad \<noteq> TDLS_NOT_SETUP \<and> \<not> txaggrctrl p then Some False
      else if \<not> is_data_rate_auto p \<and> IS_BG_RATE p then Some False
      else if bss_role p = MLAN_BSS_ROLE_UAP then is_station_ampdu_allowed p (ra r) tid
      else if wapi_enabled p \<and> \<not> wapi_key_on p then Some False
      else map_option (\<lambda>a. ampdu_ap a \<noteq> BA_STREAM_NOT_ALLOWED) (arr_get (aggr_prio_tbl p) tid))"

definition wlan_is_amsdu_allowed :: "mlan_private \<Rightarrow> raListTbl \<Rightarrow> int \<Rightarrow> bool option" where
  "wlan_is_amsdu_allowed p r tid =
     (let no_key = (bss_role p = MLAN_BSS_ROLE_UAP \<and>
            (case wlan_get_station_entry p (ra r) of
               Some i \<Rightarrow> wapi_enabled p \<and> \<not> sta_wapi_key_on (sta_list p ! i) | None \<Rightarrow> False))
      in if no_key then Some False
         else do {
           a \<leftarrow> arr_get (aggr_prio_tbl p) tid;
           Some (if is_tdls_link r then aggr_amsdu a \<noteq> BA_STREAM_NOT_ALLOWED
                 else aggr_amsdu a \<noteq> BA_STREAM_NOT_ALLOWED
                   \<and> (is_data_rate_auto p \<or> \<not> (bitmap_rates p ! 2 AND 3 \<noteq> 0 \<or> IS_BG_RATE p))) })"

definition ba_rssi_high :: "t_u8 \<Rightarrow> t_u8 \<Rightarrow> bool" where
  "ba_rssi_high snr nf \<longleftrightarrow> sint (snr - nf) > - 70"

definition wlan_update_station_del_ba_count :: "mlan_private \<Rightarrow> raListTbl \<Rightarrow> raListTbl" where
  "wlan_update_station_del_ba_count p r =
     (case wlan_get_station_entry p (ra r) of
        Some i \<Rightarrow> if ba_rssi_high (sta_snr (sta_list p ! i)) (sta_nf (sta_list p ! i)) then r\<lparr>del_ba_count := 0\<rparr> else r
      | None \<Rightarrow> r)"

definition wlan_update_del_ba_count :: "mlan_private \<Rightarrow> raListTbl \<Rightarrow> raListTbl" where
  "wlan_update_del_ba_count p r =
     (if bss_role p = MLAN_BSS_ROLE_UAP \<or> is_tdls_link r then wlan_update_station_del_ba_count p r
      else if ba_rssi_high (priv_snr p) (priv_nf p) then r\<lparr>del_ba_count := 0\<rparr> else r)"

definition wlan_is_bastream_avail :: "mlan_adapter \<Rightarrow> mlan_private option list \<Rightarrow> bool" where
  "wlan_is_bastream_avail ad privs \<longleftrightarrow>
     fold (\<lambda>p n. case p of Some q \<Rightarrow> n + length (tx_ba_stream_tbl_ptr q) | None \<Rightarrow> n) privs 0 < bastream_max ad"

text \<open>The walk of \<^verbatim>\<open>wlan_find_stream_to_delete\<close>: the lowest priority seen so far and the stream that has it.\<close>

fun find_delete_scan :: "tx_aggr_t list \<Rightarrow> TxBAStreamTbl list \<Rightarrow> t_u8 \<Rightarrow> (int \<times> mac) option \<Rightarrow> (int \<times> mac) option option" where
  "find_delete_scan aggr [] tid best = Some best"
| "find_delete_scan aggr (e # es) tid best = do {
     a \<leftarrow> arr_get aggr (tx_tid e);
     if tid > ampdu_user a then find_delete_scan aggr es (ampdu_user a) (Some (tx_tid e, tx_ra e))
     else find_delete_scan aggr es tid best }"

definition wlan_find_stream_to_delete :: "mlan_private \<Rightarrow> int \<Rightarrow> (int \<times> mac) option option" where
  "wlan_find_stream_to_delete p ptr_tid =
     (if tx_ba_stream_tbl_ptr p = [] then Some None
      else do { a \<leftarrow> arr_get (aggr_prio_tbl p) ptr_tid; find_delete_scan (aggr_prio_tbl p) (tx_ba_stream_tbl_ptr p) (ampdu_user a) None })"

end
