(* ===== verification/Tx_Props.thy ===== *)
theory Tx_Props
  imports Tx_Ba
begin

text \<open>
  What the transmit block-ack code guarantees: exact tables after cleanup and teardown, the commands a
  DELBA request sends, the stream chosen for deletion, and the places where the code does not do
  what its comments say.
\<close>

subsection \<open>Deleting streams\<close>

lemma delete_streams_all:
  "delete_streams (length (tx_ba_stream_tbl_ptr p)) p = Some (p\<lparr>tx_ba_stream_tbl_ptr := []\<rparr>)"
proof (induction n \<equiv> "length (tx_ba_stream_tbl_ptr p)" arbitrary: p)
  case 0
  then have "tx_ba_stream_tbl_ptr p = []" by simp
  then show ?case by (simp only: list.size delete_streams.simps) simp
next
  case (Suc n)
  then obtain e es where es: "tx_ba_stream_tbl_ptr p = e # es" by (cases "tx_ba_stream_tbl_ptr p") auto
  define q where "q = wlan_11n_delete_txbastream_tbl_entry 0 p"
  have q: "q = p\<lparr>tx_ba_stream_tbl_ptr := es\<rparr>"
    by (simp add: q_def wlan_11n_delete_txbastream_tbl_entry_def wlan_is_txbastreamptr_valid_def es)
  have "delete_streams n q = Some (q\<lparr>tx_ba_stream_tbl_ptr := []\<rparr>)"
    using Suc.hyps(1) [of q] Suc.hyps(2) es by (simp add: q)
  then show ?case unfolding Suc.hyps(2) [symmetric] using es q by (simp add: q_def [symmetric])
qed

text \<open>Deleting all streams of an interface ends after one round per stream, empties the table, and gives
  every TID back the A-MPDU priority the user configured, also the TIDs a refused ADDBA had blocked.\<close>

theorem deleteall_txbastream_complete:
  "\<exists>p'. wlan_11n_deleteall_txbastream_tbl p = Some p' \<and> tx_ba_stream_tbl_ptr p' = []
     \<and> length (aggr_prio_tbl p') = length (aggr_prio_tbl p)
     \<and> (\<forall>tid < length (aggr_prio_tbl p). ampdu_ap (aggr_prio_tbl p' ! tid) = ampdu_user (aggr_prio_tbl p ! tid)
          \<and> ampdu_user (aggr_prio_tbl p' ! tid) = ampdu_user (aggr_prio_tbl p ! tid))
     \<and> rx_reorder_tbl_ptr p' = rx_reorder_tbl_ptr p \<and> wmm p' = wmm p"
  by (simp add: wlan_11n_deleteall_txbastream_tbl_def delete_streams_all)

lemma remove_first_two:
  assumes "distinct (map tx_key xs)"
  shows "(case find_index (\<lambda>e. tx_ra e = addr \<and> tx_tid e = tid) xs of Some i \<Rightarrow> remove_nth i xs | None \<Rightarrow> xs)
    = filter (\<lambda>e. \<not> (tx_ra e = addr \<and> tx_tid e = tid)) xs"
proof -
  have e: "(\<lambda>e. tx_ra e = addr \<and> tx_tid e = tid) = (\<lambda>e. tx_key e = (tid, addr))"
    "(\<lambda>e. \<not> (tx_ra e = addr \<and> tx_tid e = tid)) = (\<lambda>e. tx_key e \<noteq> (tid, addr))"
    by (auto simp: tx_key_def)
  show ?thesis unfolding e by (rule remove_first [OF assms])
qed

lemma delete_stream_exact:
  assumes "txs.unique p"
  shows "tx_ba_stream_tbl_ptr (case wlan_11n_get_txbastream_tbl p tid addr of
      Some i \<Rightarrow> wlan_11n_delete_txbastream_tbl_entry i p | None \<Rightarrow> p)
    = filter (\<lambda>e. \<not> (tx_ra e = addr \<and> tx_tid e = tid)) (tx_ba_stream_tbl_ptr p)"
proof -
  have "i < length (tx_ba_stream_tbl_ptr p)" if "find_index (\<lambda>e. tx_ra e = addr \<and> tx_tid e = tid) (tx_ba_stream_tbl_ptr p) = Some i" for i
    using find_index_SomeD [OF that] by simp
  then show ?thesis
    using remove_first_two [of "tx_ba_stream_tbl_ptr p" addr tid] assms
    by (auto simp: txs.unique_def wlan_11n_get_txbastream_tbl_def wlan_11n_delete_txbastream_tbl_entry_def
        wlan_is_txbastreamptr_valid_def split: option.splits)
qed

lemma cleanup_stream_tids_exact:
  assumes "txs.unique p"
  shows "tx_ba_stream_tbl_ptr (cleanup_stream_tids is addr p)
    = filter (\<lambda>e. \<not> (tx_ra e = addr \<and> tx_tid e \<in> set is)) (tx_ba_stream_tbl_ptr p)"
  using assms
proof (induction "is" arbitrary: p)
  case Nil
  then show ?case by simp
next
  case (Cons i rest)
  define q where "q = (case wlan_11n_get_txbastream_tbl p i addr of
      Some n \<Rightarrow> wlan_11n_delete_txbastream_tbl_entry n p | None \<Rightarrow> p)"
  have q: "tx_ba_stream_tbl_ptr q = filter (\<lambda>e. \<not> (tx_ra e = addr \<and> tx_tid e = i)) (tx_ba_stream_tbl_ptr p)"
    using delete_stream_exact [OF Cons.prems] by (simp only: q_def)
  then have "txs.unique q" using Cons.prems by (simp add: txs.unique_def distinct_map_filter)
  then have "tx_ba_stream_tbl_ptr (cleanup_stream_tids rest addr q)
      = filter (\<lambda>e. \<not> (tx_ra e = addr \<and> tx_tid e \<in> set rest)) (tx_ba_stream_tbl_ptr q)"
    by (rule Cons.IH)
  also have "\<dots> = filter (\<lambda>e. \<not> (tx_ra e = addr \<and> tx_tid e \<in> set (i # rest))) (tx_ba_stream_tbl_ptr p)"
    unfolding q filter_filter by (rule filter_cong) auto
  finally show ?case by (simp only: cleanup_stream_tids.simps q_def)
qed

text \<open>When a station leaves, exactly its streams (TIDs 0 to 7) are deleted, in any order they were set up, and every other
  stream stays in place.\<close>

theorem cleanup_txbastream_exact:
  assumes "txs.unique p"
  shows "tx_ba_stream_tbl_ptr (wlan_11n_cleanup_txbastream_tbl addr p)
    = filter (\<lambda>e. \<not> (tx_ra e = addr \<and> 0 \<le> tx_tid e \<and> tx_tid e < 8)) (tx_ba_stream_tbl_ptr p)"
proof -
  have "tid \<in> set (map int [0..<MAX_NUM_TID]) \<longleftrightarrow> 0 \<le> tid \<and> tid < 8" for tid
    by (auto simp: image_iff intro!: bexI [of _ "nat tid"])
  then show ?thesis
    unfolding wlan_11n_cleanup_txbastream_tbl_def cleanup_stream_tids_exact [OF assms] by simp
qed

subsection \<open>The DELBA request\<close>

text \<open>The commands a DELBA request stands for: first the streams we send, then the streams we receive.\<close>

definition delba_cmds :: "mlan_ds_11n_delba \<Rightarrow> mlan_private \<Rightarrow> host_cmd list" where
  "delba_cmds cfg p =
     (let tid = uint (delba_req_tid cfg); peer = delba_req_mac cfg
      in (if bit (delba_direction cfg) 0
          then map (\<lambda>e. delba_cmd (tx_tid e) (tx_ra e) True)
                 (filter (\<lambda>e. delba_applies tid peer (tx_ba_status e) (tx_tid e) (tx_ra e)) (tx_ba_stream_tbl_ptr p))
          else [])
       @ (if bit (delba_direction cfg) 1
          then map (\<lambda>e. delba_cmd (rr_tid e) (rr_ta e) False)
                 (filter (\<lambda>e. delba_applies tid peer (rr_ba_status e) (rr_tid e) (rr_ta e)) (rx_reorder_tbl_ptr p))
          else []))"

definition sent_status :: "(host_cmd \<Rightarrow> mlan_status) \<Rightarrow> host_cmd list \<Rightarrow> mlan_status" where
  "sent_status prep cmds = (if cmds = [] then MLAN_STATUS_SUCCESS
     else if prep (last cmds) = MLAN_STATUS_SUCCESS then MLAN_STATUS_PENDING else prep (last cmds))"

text \<open>The last command carries the ioctl request, the others do not.\<close>

definition with_last_ioctl :: "host_cmd list \<Rightarrow> moal_call list" where
  "with_last_ioctl cmds = (if cmds = [] then [] else
     map Call_wlan_prepare_cmd (butlast cmds) @ [Call_wlan_prepare_cmd_ioctl (last cmds)])"

lemma sent_simps [simp]:
  "sent_status prep [] = MLAN_STATUS_SUCCESS" "with_last_ioctl [] = []"
  "ds \<noteq> [] \<Longrightarrow> sent_status prep (cs @ ds) = sent_status prep ds"
  "ds \<noteq> [] \<Longrightarrow> with_last_ioctl (cs @ ds) = map Call_wlan_prepare_cmd cs @ with_last_ioctl ds"
  by (simp_all add: sent_status_def with_last_ioctl_def butlast_append)

lemma last_match_snoc:
  "last_match P (xs @ [x]) i best = (if P x then Some (i + length xs) else last_match P xs i best)"
  by (induction xs arbitrary: i best) simp_all

lemma last_match_filter:
  "last_match P xs 0 None = (let is = filter (\<lambda>i. P (xs ! i)) [0..<length xs] in if is = [] then None else Some (last is))"
proof (induction xs rule: rev_induct)
  case Nil
  then show ?case by simp
next
  case (snoc x xs)
  have "filter (\<lambda>i. P ((xs @ [x]) ! i)) [0..<length xs] = filter (\<lambda>i. P (xs ! i)) [0..<length xs]"
    by (rule filter_cong) (auto simp: nth_append)
  then show ?case using snoc.IH by (simp add: last_match_snoc Let_def)
qed

lemma map_filter_nth: "map (\<lambda>i. f (xs ! i)) (filter (\<lambda>i. Q (xs ! i)) [0..<length xs]) = map f (filter Q xs)"
proof -
  have "map f (filter Q xs) = map f (filter Q (map ((!) xs) [0..<length xs]))" by (simp add: map_nth)
  also have "\<dots> = map (\<lambda>i. f (xs ! i)) (filter (\<lambda>i. Q (xs ! i)) [0..<length xs])"
    by (simp only: filter_map comp_def list.map_comp)
  finally show ?thesis by simp
qed

definition delba_call :: "bool \<Rightarrow> host_cmd \<Rightarrow> moal_call" where
  "delba_call ioctl cmd = (if ioctl then Call_wlan_prepare_cmd_ioctl cmd else Call_wlan_prepare_cmd cmd)"

text \<open>Both walks send one command per position that matches, and touch no table.\<close>

definition walk_result :: "(host_cmd \<Rightarrow> mlan_status) \<Rightarrow> (nat \<Rightarrow> bool) \<Rightarrow> (nat \<Rightarrow> host_cmd) \<Rightarrow> nat list
    \<Rightarrow> mlan_status \<times> mlan_ctx \<Rightarrow> mlan_status \<times> mlan_ctx" where
  "walk_result prep io cmd is s =
     (if is = [] then fst s else sent_status prep [cmd (last is)], emit (map (\<lambda>i. delba_call (io i) (cmd i)) is) (snd s))"

lemma send_delba_eq:
  "wlan_send_delba prep ioctl tid addr ini c
     = (sent_status prep [delba_cmd tid addr ini], emit [delba_call ioctl (delba_cmd tid addr ini)] c)"
  by (simp add: wlan_send_delba_def Let_def sent_status_def delba_call_def)

lemma tx_walk:
  "wlan_send_delba_to_entry_in_txbastream_tbl prep req tid peer last_del is (ret, c)
     = walk_result prep (\<lambda>i. req \<and> last_del = Some i)
         (\<lambda>i. delba_cmd (tx_tid (tx_ba_stream_tbl_ptr (priv c) ! i)) (tx_ra (tx_ba_stream_tbl_ptr (priv c) ! i)) True)
         (filter (\<lambda>i. let e = tx_ba_stream_tbl_ptr (priv c) ! i in delba_applies tid peer (tx_ba_status e) (tx_tid e) (tx_ra e)) is)
         (ret, c)"
proof (induction "is" arbitrary: ret c)
  case Nil
  then show ?case by (simp add: walk_result_def)
next
  case (Cons i rest)
  then show ?case by (auto simp: Let_def send_delba_eq walk_result_def)
qed

lemma rx_walk:
  "wlan_send_delba_to_entry_in_reorder_tbl prep req tid peer last_del is (ret, c)
     = walk_result prep (\<lambda>i. req \<and> last_del = Some i)
         (\<lambda>i. delba_cmd (rr_tid (rx_reorder_tbl_ptr (priv c) ! i)) (rr_ta (rx_reorder_tbl_ptr (priv c) ! i)) False)
         (filter (\<lambda>i. let e = rx_reorder_tbl_ptr (priv c) ! i in delba_applies tid peer (rr_ba_status e) (rr_tid e) (rr_ta e)) is)
         (ret, c)"
proof (induction "is" arbitrary: ret c)
  case Nil
  then show ?case by (simp add: walk_result_def)
next
  case (Cons i rest)
  then show ?case by (auto simp: Let_def send_delba_eq walk_result_def)
qed

text \<open>A walk without the request, and one whose last position carries it.\<close>

lemma walk_plain:
  "walk_result prep (\<lambda>i. False) cmd is (ret, c) =
     (if is = [] then ret else sent_status prep (map cmd is), emit (map Call_wlan_prepare_cmd (map cmd is)) c)"
  by (simp add: walk_result_def sent_status_def delba_call_def last_map)

lemma walk_last:
  assumes "distinct is"
  shows "walk_result prep (\<lambda>i. (if is = [] then None else Some (last is)) = Some i) cmd is (ret, c) =
     (if is = [] then ret else sent_status prep (map cmd is), emit (with_last_ioctl (map cmd is)) c)"
proof (cases "is" rule: rev_cases)
  case Nil
  then show ?thesis by (simp add: walk_result_def with_last_ioctl_def)
next
  case (snoc ys y)
  then have "map (\<lambda>i. delba_call (y = i) (cmd i)) ys = map (\<lambda>i. Call_wlan_prepare_cmd (cmd i)) ys"
    using assms by (intro map_cong) (auto simp: delba_call_def)
  then show ?thesis using snoc by (simp add: walk_result_def with_last_ioctl_def sent_status_def delba_call_def)
qed

text \<open>A DELBA request from user space sends one command for each established stream it names, first the
  streams we transmit, then those we receive, and for no other; the request is attached to the very last of
  them only, so it completes once and after all of them; it stays pending exactly when a command was
  sent and accepted.  The tables are not touched before the responses arrive.\<close>

theorem ioctl_delba_commands:
  "wlan_11n_ioctl_delba prep cfg c =
     (sent_status prep (delba_cmds cfg (priv c)), emit (with_last_ioctl (delba_cmds cfg (priv c))) c)"
proof -
  define tid where "tid = uint (delba_req_tid cfg)"
  define peer where "peer = delba_req_mac cfg"
  define P where "P = (\<lambda>e :: TxBAStreamTbl. delba_applies tid peer (tx_ba_status e) (tx_tid e) (tx_ra e))"
  define Q where "Q = (\<lambda>e :: RxReorderTbl. delba_applies tid peer (rr_ba_status e) (rr_tid e) (rr_ta e))"
  define ptx where "ptx = filter (\<lambda>i. P (tx_ba_stream_tbl_ptr (priv c) ! i)) [0..<length (tx_ba_stream_tbl_ptr (priv c))]"
  define prx where "prx = filter (\<lambda>i. Q (rx_reorder_tbl_ptr (priv c) ! i)) [0..<length (rx_reorder_tbl_ptr (priv c))]"
  define ctx where "ctx = (\<lambda>i. delba_cmd (tx_tid (tx_ba_stream_tbl_ptr (priv c) ! i)) (tx_ra (tx_ba_stream_tbl_ptr (priv c) ! i)) True)"
  define crx where "crx = (\<lambda>i. delba_cmd (rr_tid (rx_reorder_tbl_ptr (priv c) ! i)) (rr_ta (rx_reorder_tbl_ptr (priv c) ! i)) False)"
  have m: "map ctx ptx = map (\<lambda>e. delba_cmd (tx_tid e) (tx_ra e) True) (filter P (tx_ba_stream_tbl_ptr (priv c)))"
    "map crx prx = map (\<lambda>e. delba_cmd (rr_tid e) (rr_ta e) False) (filter Q (rx_reorder_tbl_ptr (priv c)))"
    by (simp_all only: ptx_def prx_def ctx_def crx_def map_filter_nth [where f = "\<lambda>e. delba_cmd (tx_tid e) (tx_ra e) True"]
        map_filter_nth [where f = "\<lambda>e. delba_cmd (rr_tid e) (rr_ta e) False"])
  have d: "distinct ptx" "distinct prx" by (simp_all add: ptx_def prx_def)
  have cmds: "delba_cmds cfg (priv c) = (if bit (delba_direction cfg) 0 then map ctx ptx else [])
      @ (if bit (delba_direction cfg) 1 then map crx prx else [])"
    by (simp add: delba_cmds_def Let_def m P_def Q_def tid_def peer_def)
  have tx: "wlan_send_delba_to_entry_in_txbastream_tbl prep req tid peer last_del [0..<length (tx_ba_stream_tbl_ptr (priv c))] (ret, c)
      = walk_result prep (\<lambda>i. req \<and> last_del = Some i) ctx ptx (ret, c)" for req last_del ret
    unfolding tx_walk by (simp add: ctx_def ptx_def P_def Let_def)
  have rx: "wlan_send_delba_to_entry_in_reorder_tbl prep req tid peer last_del [0..<length (rx_reorder_tbl_ptr (priv c))] (ret, c1)
      = walk_result prep (\<lambda>i. req \<and> last_del = Some i) crx prx (ret, c1)" if "priv c1 = priv c" for req last_del ret c1
    unfolding rx_walk by (simp add: crx_def prx_def Q_def Let_def that)
  have lm: "last_match P (tx_ba_stream_tbl_ptr (priv c)) 0 None = (if ptx = [] then None else Some (last ptx))"
    "last_match Q (rx_reorder_tbl_ptr (priv c)) 0 None = (if prx = [] then None else Some (last prx))"
    by (simp_all add: last_match_filter Let_def ptx_def prx_def)
  show ?thesis
    unfolding wlan_11n_ioctl_delba_def Let_def tid_def [symmetric] peer_def [symmetric]
    unfolding P_def [symmetric] Q_def [symmetric] lm cmds
    by (auto simp: tx rx walk_plain walk_last d delba_cmds_def)
qed


subsection \<open>A failed DELBA\<close>

lemma upd_wmm_streams [simp]:
  "tx_ba_stream_tbl_ptr (upd_wmm f p) = tx_ba_stream_tbl_ptr p" "rx_reorder_tbl_ptr (upd_wmm f p) = rx_reorder_tbl_ptr p"
  "aggr_prio_tbl (upd_wmm f p) = aggr_prio_tbl p"
  by (simp_all add: upd_wmm_def)

lemma upd_peer_node_streams [simp]:
  "tx_ba_stream_tbl_ptr (upd_peer_node tid addr f p) = tx_ba_stream_tbl_ptr p"
  "rx_reorder_tbl_ptr (upd_peer_node tid addr f p) = rx_reorder_tbl_ptr p"
  "aggr_prio_tbl (upd_peer_node tid addr f p) = aggr_prio_tbl p" "sta_list (upd_peer_node tid addr f p) = sta_list p"
  by (simp_all add: upd_peer_node_def Let_def upd_ra_def upd_tid_def split: option.split)

lemma lookup_unique_stream:
  assumes "txs.unique p" "i < length (tx_ba_stream_tbl_ptr p)"
  shows "wlan_11n_get_txbastream_tbl p (tx_tid (tx_ba_stream_tbl_ptr p ! i)) (tx_ra (tx_ba_stream_tbl_ptr p ! i)) = Some i"
  using txs.lookup_nth [OF assms] by (simp add: tx_lookup_def tx_key_def)

text \<open>Deleting a stream through a pointer to the address inside its own entry reads that entry after it is freed.\<close>

lemma delete_through_own_entry:
  assumes "txs.unique (priv c)" "i < length (tx_ba_stream_tbl_ptr (priv c))"
  shows "mlan_11n_delete_bastream_tbl (tx_tid (tx_ba_stream_tbl_ptr (priv c) ! i)) (Mac_of_tx_entry i) TYPE_DELBA_SENT True 0 c = None"
  using lookup_unique_stream [OF assms] assms(2) by (simp add: mlan_11n_delete_bastream_tbl_def mac_deref_def)

text \<open>When the firmware refuses a DELBA of ours and the stream is no longer in the table, the handler creates the stream
  again, finds it as the first stream in setup, and deletes it through a pointer to the receiver address
  stored inside its entry: that address is read after the entry was freed.  The comment says the stream is
  recreated; the code deletes it again, and with a use after free.\<close>

theorem ret_delba_failure_use_after_free:
  assumes "txs.unique (priv c)" "del_result del_ba \<noteq> 0" "INITIATOR_BIT (del_ba_param_set del_ba)"
    "wlan_11n_get_txbastream_tbl (priv c) (delba_tid (del_ba_param_set del_ba)) (del_peer_mac_addr del_ba) = None"
  shows "wlan_ret_11n_delba prep junk True del_ba c = None"
proof -
  define tid where "tid = delba_tid (del_ba_param_set del_ba)"
  define p1 where "p1 = wlan_11n_create_txbastream_tbl True (del_peer_mac_addr del_ba) tid BA_STREAM_SETUP_INPROGRESS (priv c)"
  define e where "e = \<lparr>tx_tid = tid, tx_ra = del_peer_mac_addr del_ba, tx_ba_status = BA_STREAM_SETUP_INPROGRESS, tx_amsdu_ok = False\<rparr>"
  have tbl: "tx_ba_stream_tbl_ptr p1 = tx_ba_stream_tbl_ptr (priv c) @ [e]"
    by (simp add: p1_def e_def wlan_11n_create_txbastream_tbl_def Let_def)
  have "tx_lookup (priv c) (tx_key e) = None" using assms(4) by (simp add: tx_lookup_def tx_key_def e_def tid_def)
  then have u: "txs.unique p1" using txs.insert_tail(1) [OF assms(1) _ tbl] by simp
  have "find_index (\<lambda>e. tx_ba_status e = BA_STREAM_SETUP_INPROGRESS) (tx_ba_stream_tbl_ptr p1) \<noteq> None"
    unfolding tbl by (auto simp: find_index_None e_def)
  then obtain i where i: "wlan_11n_get_txbastream_status p1 BA_STREAM_SETUP_INPROGRESS = Some i"
    by (auto simp: wlan_11n_get_txbastream_status_def)
  then have "i < length (tx_ba_stream_tbl_ptr p1)"
    using find_index_SomeD unfolding wlan_11n_get_txbastream_status_def by blast
  then show ?thesis
    using delete_through_own_entry [of "set_priv p1 c" i] u i assms(2-4)
    by (simp add: wlan_ret_11n_delba_def tid_def [symmetric] p1_def [symmetric])
qed

subsection \<open>Streams the peer ends\<close>

text \<open>A DELBA from the peer ends exactly one stream.  Sent by the originator it removes our receive entry and leaves every
  transmit stream; sent by the recipient it removes the transmit stream for that TID and receiver (and no other, if it
  exists), and leaves every receive entry.\<close>

theorem delete_bastream_routes:
  assumes "txs.unique (priv c)" "wlan_11n_delete_bastream del_ba c = Some c'"
  shows "if INITIATOR_BIT (del_ba_param_set del_ba) then tx_ba_stream_tbl_ptr (priv c') = tx_ba_stream_tbl_ptr (priv c)
    else rx_reorder_tbl_ptr (priv c') = rx_reorder_tbl_ptr (priv c) \<and> calls c' = calls c
      \<and> tx_ba_stream_tbl_ptr (priv c') = filter (\<lambda>e. \<not> (tx_ra e = del_peer_mac_addr del_ba
           \<and> tx_tid e = delba_tid (del_ba_param_set del_ba))) (tx_ba_stream_tbl_ptr (priv c))"
proof (cases "INITIATOR_BIT (del_ba_param_set del_ba)")
  case True
  then show ?thesis
    using assms(2)
    by (auto simp: wlan_11n_delete_bastream_def mlan_11n_delete_bastream_tbl_def mac_deref_def
        wlan_11n_delete_rxreorder_tbl_entry_def Let_def monad_simps split: option.splits)
next
  case False
  then show ?thesis
    using assms(2) delete_stream_exact [OF assms(1), of "delba_tid (del_ba_param_set del_ba)" "del_peer_mac_addr del_ba"]
    by (auto simp: wlan_11n_delete_bastream_def mlan_11n_delete_bastream_tbl_def mac_deref_def Let_def
        wlan_11n_delete_txbastream_tbl_entry_def split: option.splits)
qed


lemma truncate_1024: "(ucast (1024 + ucast t :: t_u32) :: t_u8) = t"
proof (rule bit_word_eqI)
  fix n :: nat
  assume n: "n < LENGTH(8)"
  have b: "bit (1024 :: t_u32) m \<longleftrightarrow> m = 10" for m
    using bit_exp_iff [of 10 m, where ?'a = t_u32] by auto
  have u: "bit (ucast t :: t_u32) m \<longleftrightarrow> bit t m" for m
    using bit_imp_le_length [of t m] by (auto simp: bit_unsigned_iff)
  have "(1024 + ucast t :: t_u32) = 1024 OR ucast t"
  proof (rule disjunctive_add)
    show "\<not> bit (1024 :: t_u32) m \<or> \<not> bit (ucast t :: t_u32) m" for m
      unfolding b u using bit_imp_le_length [of t m] by auto
  qed
  then show "bit (ucast (1024 + ucast t :: t_u32) :: t_u8) n = bit t n"
    using n by (simp only: bit_unsigned_iff bit_or_iff b u) auto
qed

text \<open>After a DELBA from the recipient the code means to wait for 1024 packets and a random offset before it asks again, but the
  threshold is an 8-bit field: 1024 vanishes and the wait is the bare offset of 16 to 31 packets.\<close>

theorem delba_threshold_truncated:
  assumes "\<not> INITIATOR_BIT (del_ba_param_set del_ba)"
    "wlan_11n_get_txbastream_tbl (priv c) (delba_tid (del_ba_param_set del_ba)) (del_peer_mac_addr del_ba) = Some i"
    "length (tid_tbl_ptr (wmm (priv c))) = MAX_NUM_TID"
    "wlan_wmm_get_ralist_node (priv c) (wlan_get_wmm_tid_down (priv c) (delba_tid (del_ba_param_set del_ba)))
       (del_peer_mac_addr del_ba) = Some n"
  shows "\<exists>c'. wlan_11n_delete_bastream del_ba c = Some c'
    \<and> (let r = ras (priv c') (wlan_get_wmm_tid_down (priv c) (delba_tid (del_ba_param_set del_ba))) ! n
       in 16 \<le> unat (ba_packet_threshold r) \<and> unat (ba_packet_threshold r) < 32 \<and> packet_count r = 0)"
proof -
  define tid where "tid = delba_tid (del_ba_param_set del_ba)"
  define addr where "addr = del_peer_mac_addr del_ba"
  define td where "td = wlan_get_wmm_tid_down (priv c) tid"
  have td: "td < MAX_NUM_TID" by (simp add: td_def wlan_get_wmm_tid_down_def downgrade_tid_less)
  have n: "n < length (ras (priv c) td)"
    using assms(4) find_index_SomeD unfolding wlan_wmm_get_ralist_node_def td_def tid_def by blast
  define p1 where "p1 = wlan_11n_delete_txbastream_tbl_entry i (priv c)"
  have w: "wmm p1 = wmm (priv c)" by (simp add: p1_def wlan_11n_delete_txbastream_tbl_entry_def)
  have node: "wlan_get_wmm_tid_down p1 tid = td" "wlan_wmm_get_ralist_node p1 td addr = Some n"
    using assms(4) w by (simp_all add: wlan_get_wmm_tid_down_def wlan_wmm_downgrade_tid_def td_def tid_def addr_def
        wlan_wmm_get_ralist_node_def ras_def)
  show ?thesis
    using assms(1,2) node td n w assms(3) truncate_1024 random_ba_threshold_bounds [of "adapter c"]
    by (simp add: wlan_11n_delete_bastream_def mlan_11n_delete_bastream_tbl_def mac_deref_def Let_def tid_def [symmetric]
        addr_def [symmetric] td_def [symmetric] p1_def [symmetric] upd_peer_node_def upd_defs ras_def)
qed

subsection \<open>A refused ADDBA\<close>

lemma arr_get_Some' [simp]: "0 \<le> i \<Longrightarrow> i < int (length xs) \<Longrightarrow> arr_get xs i = Some (xs ! nat i)"
  by (rule arr_get_in)

lemma disable_station_ampdu_total:
  assumes "\<forall>s \<in> set (sta_list p). length (ampdu_sta s) = MAX_NUM_TID" "0 \<le> tid" "tid < 8"
  shows "\<exists>p'. disable_station_ampdu tid addr p = Some p' \<and> (\<forall>s \<in> set (sta_list p'). length (ampdu_sta s) = MAX_NUM_TID)
    \<and> wmm p' = wmm p \<and> aggr_prio_tbl p' = aggr_prio_tbl p \<and> tx_ba_stream_tbl_ptr p' = tx_ba_stream_tbl_ptr p
    \<and> rx_reorder_tbl_ptr p' = rx_reorder_tbl_ptr p \<and> bss_role p' = bss_role p"
proof (cases "wlan_get_station_entry p addr")
  case None
  then show ?thesis using assms by (simp add: disable_station_ampdu_def)
next
  case (Some i)
  then have "i < length (sta_list p)" using find_index_SomeD unfolding wlan_get_station_entry_def by blast
  then have "length (ampdu_sta (sta_list p ! i)) = MAX_NUM_TID" using assms(1) by simp
  then show ?thesis
    using assms Some by (auto simp: disable_station_ampdu_def arr_set_def dest!: set_update_subset_insert [THEN subsetD])
qed


lemma bss_role_upd_peer_node [simp]: "bss_role (upd_peer_node tid addr f p) = bss_role p"
  by (simp add: upd_peer_node_def Let_def upd_ra_def upd_tid_def split: option.split)

text \<open>Deleting one of our own streams by value.\<close>

lemma sent_delete_exact:
  assumes "txs.unique (priv c)"
  shows "\<exists>c2. mlan_11n_delete_bastream_tbl tid (Mac_value addr) TYPE_DELBA_SENT True 0 c = Some c2
    \<and> calls c2 = calls c \<and> aggr_prio_tbl (priv c2) = aggr_prio_tbl (priv c) \<and> sta_list (priv c2) = sta_list (priv c)
    \<and> bss_role (priv c2) = bss_role (priv c)
    \<and> tx_ba_stream_tbl_ptr (priv c2) = filter (\<lambda>e. \<not> (tx_ra e = addr \<and> tx_tid e = tid)) (tx_ba_stream_tbl_ptr (priv c))"
proof (cases "wlan_11n_get_txbastream_tbl (priv c) tid addr")
  case None
  then show ?thesis using delete_stream_exact [OF assms, of tid addr]
    by (simp add: mlan_11n_delete_bastream_tbl_def mac_deref_def)
next
  case (Some i)
  have e: "aggr_prio_tbl (wlan_11n_delete_txbastream_tbl_entry i p) = aggr_prio_tbl p"
    "sta_list (wlan_11n_delete_txbastream_tbl_entry i p) = sta_list p"
    "bss_role (wlan_11n_delete_txbastream_tbl_entry i p) = bss_role p" for p
    by (simp_all add: wlan_11n_delete_txbastream_tbl_entry_def)
  show ?thesis using delete_stream_exact [OF assms, of tid addr] Some
    by (simp add: mlan_11n_delete_bastream_tbl_def mac_deref_def Let_def e)
qed

text \<open>A refused ADDBA removes the stream that was in setup and keeps every other; unless the refusal was a timeout, the TID
  is closed for further block-ack setup: on a station interface no receiver is allowed A-MPDU on it, until all streams
  are deleted.\<close>

theorem addba_refused_blocks_tid:
  assumes "txs.unique (priv c)" "\<forall>s \<in> set (sta_list (priv c)). length (ampdu_sta s) = MAX_NUM_TID"
    "length (aggr_prio_tbl (priv c)) = MAX_NUM_TID" "uint (param_tid (rsp_block_ack_param_set rsp)) < 8"
    "rsp_status_code rsp \<noteq> 0"
  shows "\<exists>c'. wlan_ret_11n_addba_req rsp c = Some c' \<and> calls c' = calls c
    \<and> tx_ba_stream_tbl_ptr (priv c') = filter (\<lambda>e. \<not> (tx_ra e = rsp_peer_mac_addr rsp
         \<and> tx_tid e = uint (param_tid (rsp_block_ack_param_set rsp)))) (tx_ba_stream_tbl_ptr (priv c))
    \<and> (add_rsp_result rsp \<noteq> BA_RESULT_TIMEOUT \<longrightarrow> (\<forall>ad r. bss_role (priv c) = MLAN_BSS_ROLE_STA \<longrightarrow> \<not> is_tdls_link r \<longrightarrow>
         wlan_is_ampdu_allowed ad (priv c') r (uint (param_tid (rsp_block_ack_param_set rsp))) = Some False))"
proof -
  define tid where "tid = uint (param_tid (rsp_block_ack_param_set rsp))"
  define addr where "addr = rsp_peer_mac_addr rsp"
  define td where "td = wlan_get_wmm_tid_down (priv c) tid"
  define node where "node = wlan_wmm_get_ralist_node (priv c) td addr"
  define upd where "upd = (\<lambda>f p. case node of Some i \<Rightarrow> upd_ra td i f p | None \<Rightarrow> p)"
  define p1 where "p1 = upd (\<lambda>r. r\<lparr>amsdu_in_ampdu := False, ra_ba_status := BA_STREAM_NOT_SETUP\<rparr>) (priv c)"
  have tid: "0 \<le> tid" "tid < 8" using assms(4) by (simp_all add: tid_def)
  have up: "tx_ba_stream_tbl_ptr (upd f p) = tx_ba_stream_tbl_ptr p" "aggr_prio_tbl (upd f p) = aggr_prio_tbl p"
    "sta_list (upd f p) = sta_list p" "bss_role (upd f p) = bss_role p" for f p
    by (simp_all add: upd_def upd_ra_def upd_tid_def split: option.split)
  obtain c2 where c2: "mlan_11n_delete_bastream_tbl tid (Mac_value addr) TYPE_DELBA_SENT True 0 (set_priv p1 c) = Some c2"
    "calls c2 = calls c" "aggr_prio_tbl (priv c2) = aggr_prio_tbl (priv c)" "sta_list (priv c2) = sta_list (priv c)"
    "bss_role (priv c2) = bss_role (priv c)"
    "tx_ba_stream_tbl_ptr (priv c2) = filter (\<lambda>e. \<not> (tx_ra e = addr \<and> tx_tid e = tid)) (tx_ba_stream_tbl_ptr (priv c))"
    using sent_delete_exact [of "set_priv p1 c" tid addr] assms(1) by (auto simp: p1_def up txs.unique_def)
  let ?ok = "\<lambda>p'. (\<forall>s \<in> set (sta_list p'). length (ampdu_sta s) = MAX_NUM_TID)
    \<and> aggr_prio_tbl p' = aggr_prio_tbl (priv c) \<and> tx_ba_stream_tbl_ptr p' = tx_ba_stream_tbl_ptr (priv c2)
    \<and> bss_role p' = bss_role (priv c)"
  have ok2: "?ok (priv c2)" using c2 assms(2) by simp
  have dis: "\<exists>p'. disable_station_ampdu tid addr p = Some p' \<and> ?ok p'" if "?ok p" for p
    using disable_station_ampdu_total [of p tid addr] that tid by auto
  obtain p3 where p3: "(if bss_role (priv c) = MLAN_BSS_ROLE_UAP then disable_station_ampdu tid addr (priv c2) else Some (priv c2))
      = Some p3" "?ok p3"
    using dis [OF ok2] ok2 by (cases "bss_role (priv c) = MLAN_BSS_ROLE_UAP") auto
  obtain p4 where p4: "(case node of Some i \<Rightarrow> if is_tdls_link (ras p3 td ! i) then disable_station_ampdu tid addr p3 else Some p3
      | None \<Rightarrow> Some p3) = Some p4" "?ok p4"
    using dis [OF p3(2)] p3(2)
    by (cases "case node of Some i \<Rightarrow> is_tdls_link (ras p3 td ! i) | None \<Rightarrow> False") (auto split: option.splits)
  have len: "tid < int (length (aggr_prio_tbl p4))" using p4(2) assms(3) tid by simp
  note unf = wlan_ret_11n_addba_req_def Let_def tid_def [symmetric] addr_def [symmetric] td_def [symmetric] node_def [symmetric]
  note call = c2(1) [unfolded p1_def upd_def]
  show ?thesis
  proof (cases "add_rsp_result rsp = BA_RESULT_TIMEOUT")
    case True
    show ?thesis
      unfolding unf using True assms(5) call c2 by (simp add: up [unfolded upd_def])
  next
    case False
    define p5 where "p5 = p4\<lparr>aggr_prio_tbl := (aggr_prio_tbl p4)[nat tid :=
      (aggr_prio_tbl p4 ! nat tid)\<lparr>ampdu_ap := BA_STREAM_NOT_ALLOWED\<rparr>]\<rparr>"
    have r: "wlan_ret_11n_addba_req rsp c = Some (set_priv p5 c2)"
      unfolding unf using False assms(5) call p3(1) p4(1) tid len by (simp add: p5_def)
    have "wlan_is_ampdu_allowed ad p5 r tid = Some False" if "bss_role (priv c) = MLAN_BSS_ROLE_STA" "\<not> is_tdls_link r" for ad r
      using that tid len p4(2) by (simp add: wlan_is_ampdu_allowed_def p5_def)
    then show ?thesis
      using r c2 p4(2) by (simp add: p5_def tid_def addr_def)
  qed
qed

subsection \<open>The copy of the reorder tables\<close>

definition rx_copy :: "RxReorderTbl \<Rightarrow> rx_reorder_tbl" where
  "rx_copy e = \<lparr>copy_tid = word_of_int (rr_tid e), copy_ta = rr_ta e, copy_start_win = word_of_int (rr_start_win e),
     copy_win_size = word_of_int (rr_win_size e), copy_amsdu = rr_amsdu e,
     copy_buffer = map (\<lambda>v. v \<noteq> None) (rx_reorder_ptr e)\<rparr>"

lemma those_map_Some: "(\<And>x. x \<in> set xs \<Longrightarrow> f x = Some (g x)) \<Longrightarrow> those (map f xs) = Some (map g xs)"
  by (induction xs) auto

lemma those_None: "None \<in> set xs \<Longrightarrow> those xs = None"
  by (induction xs) (auto split: option.splits)

lemma copy_flags:
  assumes "rr_win_size e = int (length (rx_reorder_ptr e))"
  shows "those (map (\<lambda>i. if i < MAX_RX_WINSIZE
      then map_option (\<lambda>v. v \<noteq> None) (arr_get (rx_reorder_ptr e) (int i)) else None) [0..<nat (rr_win_size e)])
    = (if rr_win_size e \<le> 64 then Some (map (\<lambda>v. v \<noteq> None) (rx_reorder_ptr e)) else None)"
proof (cases "rr_win_size e \<le> 64")
  case True
  have "those (map (\<lambda>i. if i < MAX_RX_WINSIZE
      then map_option (\<lambda>v. v \<noteq> None) (arr_get (rx_reorder_ptr e) (int i)) else None) [0..<nat (rr_win_size e)])
    = Some (map (\<lambda>i. rx_reorder_ptr e ! i \<noteq> None) [0..<nat (rr_win_size e)])"
    using True assms by (intro those_map_Some) auto
  moreover have "map (\<lambda>i. rx_reorder_ptr e ! i \<noteq> None) [0..<nat (rr_win_size e)] = map (\<lambda>v. v \<noteq> None) (rx_reorder_ptr e)"
    using assms by (intro nth_equalityI) auto
  ultimately show ?thesis using True by simp
next
  case False
  then have "64 \<in> set [0..<nat (rr_win_size e)]" by auto
  then have "None \<in> set (map (\<lambda>i. if i < MAX_RX_WINSIZE
      then map_option (\<lambda>v. v \<noteq> None) (arr_get (rx_reorder_ptr e) (int i)) else None) [0..<nat (rr_win_size e)])"
    unfolding set_map by (rule rev_image_eqI) simp
  then show ?thesis using False by (simp only: those_None if_False)
qed

text \<open>The copy of the reorder tables for a debug query holds the first 16 entries, each with its slot flags, as long as
  no window among them is larger than the 64 words of the copy's array; with one larger window (the driver
  accepts up to 1023) the copy writes past the array.\<close>

theorem get_rxreorder_tbl_exact:
  assumes "\<forall>e \<in> set (rx_reorder_tbl_ptr p). rr_win_size e = int (length (rx_reorder_ptr e))"
  shows "wlan_get_rxreorder_tbl p =
    (if \<forall>e \<in> set (take 16 (rx_reorder_tbl_ptr p)). rr_win_size e \<le> 64
     then Some (map rx_copy (take 16 (rx_reorder_tbl_ptr p))) else None)"
proof -
  have "copy_rx_entries es n =
    (if \<forall>e \<in> set (take (16 - n) es). rr_win_size e \<le> 64 then Some (map rx_copy (take (16 - n) es)) else None)"
    if "n < 16" "\<forall>e \<in> set es. rr_win_size e = int (length (rx_reorder_ptr e))" for es n
    using that
  proof (induction es arbitrary: n)
    case Nil
    then show ?case by simp
  next
    case (Cons e es)
    then have t: "take (16 - n) (e # es) = e # take (16 - Suc n) es" by (simp add: take_Cons' Suc_diff_Suc)
    have f: "rr_win_size e = int (length (rx_reorder_ptr e))" using Cons.prems(2) by simp
    show ?case
    proof (cases "Suc n < 16")
      case True
      then show ?thesis
        unfolding t copy_rx_entries.simps copy_flags [OF f] using Cons.IH [OF True] Cons.prems(2)
        by (simp add: Let_def rx_copy_def [of e])
    next
      case False
      then show ?thesis
        unfolding t copy_rx_entries.simps copy_flags [OF f] using Cons.prems(1) by (simp add: Let_def rx_copy_def)
    qed
  qed
  from this [of 0] assms show ?thesis by (simp add: wlan_get_rxreorder_tbl_def)
qed

end
