(* ===== verification/Tx_Witness.thy ===== *)
theory Tx_Witness
  imports Rx_Witness Tx_Props
begin

text \<open>
  Concrete queues, WMM elements, streams and commands at which the properties of
  \<^verbatim>\<open>Wmm_Tables\<close>, \<^verbatim>\<open>Wmm_Acct\<close> and \<^verbatim>\<open>Tx_Props\<close> are applied.
\<close>

subsection \<open>WMM elements\<close>

definition sample_params :: "IEEEtypes_WmmAcParameters_t list" where
  "sample_params = [\<lparr>aifsn = 3, aci = 0, ecw_min = 4\<rparr>, \<lparr>aifsn = 7, aci = 1, ecw_min = 4\<rparr>,
     \<lparr>aifsn = 2, aci = 2, ecw_min = 3\<rparr>, \<lparr>aifsn = 2, aci = 3, ecw_min = 2\<rparr>]"

lemma wmm_queue_order_witness:
  "queue_priority (wmm (fst (wlan_wmm_setup_queue_priorities (Some sample_params) sample_private initial_globals)))
     = [3, 2, 1, 0]
   \<and> tid_tables [3, 2, 1, 0] (snd (wlan_wmm_setup_queue_priorities (Some sample_params) sample_private initial_globals))"
proof -
  obtain p g where r: "wlan_wmm_setup_queue_priorities (Some sample_params) sample_private initial_globals = (p, g)"
    by fastforce
  have "queue_priority (wmm (fst (wlan_wmm_setup_queue_priorities (Some sample_params) sample_private initial_globals)))
      = [3, 2, 1, 0]" by code_simp
  moreover have "wmm_enabled sample_private" "length sample_params = 4" "aci ` set sample_params = {0..<4}"
    "length (queue_priority (wmm sample_private)) = 4" "length (tos_to_tid initial_globals) = 8"
    "length (tos_to_tid_inv initial_globals) = 8" by code_simp+
  ultimately show ?thesis using wmm_queue_order [OF _ _ _ _ _ _ r] r by simp
qed

lemma wmm_repeated_aci_drops_background_witness:
  "\<exists>p g. wlan_wmm_setup_queue_priorities (Some (sample_params[1 := \<lparr>aifsn = 2, aci = 2, ecw_min = 3\<rparr>])) sample_private
       initial_globals = (p, g) \<and> 1 \<notin> set (tos_to_tid g) \<and> 2 \<notin> set (tos_to_tid g)"
proof -
  obtain p g where r: "wlan_wmm_setup_queue_priorities (Some (sample_params[1 := \<lparr>aifsn = 2, aci = 2, ecw_min = 3\<rparr>]))
      sample_private initial_globals = (p, g)" by fastforce
  have "wmm_enabled sample_private" "aci ` set (sample_params[1 := \<lparr>aifsn = 2, aci = 2, ecw_min = 3\<rparr>]) = {0, 2, 3}"
    "length (queue_priority (wmm sample_private)) = 4" "queue_priority (wmm sample_private) ! 0 \<in> {1, 2, 3}"
    "length (tos_to_tid initial_globals) = 8" by code_simp+
  then show ?thesis using wmm_repeated_aci_drops_background [OF _ _ _ _ _ r] r by simp
qed

subsection \<open>Queues\<close>

text \<open>Two receivers in every TID; in TID 0 the first has two packets ready, the second one packet paused.\<close>

abbreviation peer2 :: mac where "peer2 \<equiv> [2, 0, 0, 0, 0, 2]"

definition sample_node :: "nat \<Rightarrow> mac \<Rightarrow> bool \<Rightarrow> mlan_buffer list \<Rightarrow> raListTbl" where
  "sample_node a addr pause bs = \<lparr>ra_addr = a, buf_head = bs, ra = addr, total_pkts = of_nat (length bs),
     packet_count = 0, ba_packet_threshold = 20, ra_is_11n_enabled = True, ra_max_amsdu = 0,
     ra_ba_status = BA_STREAM_NOT_SETUP, del_ba_count = 0, amsdu_in_ampdu = False, is_tdls_link = False,
     tx_pause = pause\<rparr>"

definition sample_queues :: mlan_private where
  "sample_queues = sample_private\<lparr>wmm := (wmm sample_private)\<lparr>
     tid_tbl_ptr := \<lparr>ra_list = [sample_node 100 peer False [sample_buffer 1 0 0, sample_buffer 2 0 0],
                          sample_node 200 peer2 True [sample_buffer 3 0 0]], ra_list_curr = Ra_node 100\<rparr>
        # map (\<lambda>i. \<lparr>ra_list = [sample_node (100 + i) peer False [], sample_node (200 + i) peer2 True []],
                        ra_list_curr = Ra_head\<rparr>) [1..<8],
     pkts_queued := 3 # replicate 7 0, pkts_paused := 1 # replicate 7 0,
     tx_pkts_queued := \<lparr>scalar_value = 2, scalar_lock = 0, scalar_flags = 0\<rparr>\<rparr>\<rparr>"

definition queue_ctx :: mlan_ctx where
  "queue_ctx = \<lparr>adapter = sample_adapter, priv = sample_queues, calls = []\<rparr>"

lemma upt8: "[0..<8] = [0, 1, 2, 3, 4, 5, 6, 7]" by code_simp

lemma all8: "(\<forall>tid < MAX_NUM_TID. P tid) \<longleftrightarrow> P 0 \<and> P 1 \<and> P 2 \<and> P 3 \<and> P 4 \<and> P 5 \<and> P 6 \<and> P 7"
proof -
  have "(\<forall>tid < MAX_NUM_TID. P tid) \<longleftrightarrow> list_all P [0..<8]" by (auto simp: list_all_iff)
  also have "\<dots> \<longleftrightarrow> P 0 \<and> P 1 \<and> P 2 \<and> P 3 \<and> P 4 \<and> P 5 \<and> P 6 \<and> P 7" by (simp add: upt8)
  finally show ?thesis .
qed

lemma sum8: "(\<Sum>tid < MAX_NUM_TID. f tid) = f 0 + (f 1 + (f 2 + (f 3 + (f 4 + (f 5 + (f 6 + f 7))))))"
  for f :: "nat \<Rightarrow> 'a::comm_monoid_add"
proof -
  have "(\<Sum>tid < MAX_NUM_TID. f tid) = sum_list (map f [0..<8])"
    by (simp add: interv_sum_list_conv_sum_set_nat atLeast0LessThan)
  also have "\<dots> = f 0 + (f 1 + (f 2 + (f 3 + (f 4 + (f 5 + (f 6 + f 7))))))" by (simp add: upt8)
  finally show ?thesis .
qed

lemma sample_ras:
  "ras sample_queues 0 = [sample_node 100 peer False [sample_buffer 1 0 0, sample_buffer 2 0 0],
     sample_node 200 peer2 True [sample_buffer 3 0 0]]"
  "ras sample_queues 1 = [sample_node 101 peer False [], sample_node 201 peer2 True []]"
  "ras sample_queues 2 = [sample_node 102 peer False [], sample_node 202 peer2 True []]"
  "ras sample_queues 3 = [sample_node 103 peer False [], sample_node 203 peer2 True []]"
  "ras sample_queues 4 = [sample_node 104 peer False [], sample_node 204 peer2 True []]"
  "ras sample_queues 5 = [sample_node 105 peer False [], sample_node 205 peer2 True []]"
  "ras sample_queues 6 = [sample_node 106 peer False [], sample_node 206 peer2 True []]"
  "ras sample_queues (Suc 0) = [sample_node 101 peer False [], sample_node 201 peer2 True []]"
  "ras sample_queues 7 = [sample_node 107 peer False [], sample_node 207 peer2 True []]"
  by (simp_all add: ras_def sample_queues_def upt_rec_numeral)

lemma sample_counters:
  "pkts_queued (wmm sample_queues) = [3, 0, 0, 0, 0, 0, 0, 0]" "pkts_paused (wmm sample_queues) = [1, 0, 0, 0, 0, 0, 0, 0]"
  "scalar_value (tx_pkts_queued (wmm sample_queues)) = 2" "length (tid_tbl_ptr (wmm sample_queues)) = 8"
  by (simp_all add: sample_queues_def numeral_eq_Suc)

lemma sample_queues_inv: "wmm_inv sample_queues"
  unfolding wmm_inv_def acct_def ra_unique_def all8 sum8 sample_ras
  by (simp add: sample_counters sample_node_def queued_sum_def paused_sum_def ready_sum_def node_cnt_def node_ok_def)

lemma sample_queues_uniform: "uniform sample_queues"
  unfolding uniform_def all8 sample_ras by (simp add: sample_node_def)

lemma update_ralist_tx_pause_exact_witness:
  "wmm_inv (snd (wlan_update_ralist_tx_pause peer True sample_queues))
   \<and> ras (snd (wlan_update_ralist_tx_pause peer True sample_queues)) 0
       = [sample_node 100 peer True [sample_buffer 1 0 0, sample_buffer 2 0 0],
          sample_node 200 peer2 True [sample_buffer 3 0 0]]"
  using update_ralist_tx_pause_exact [OF sample_queues_inv, of peer True]
  by (simp add: all8 sample_ras) (simp add: sample_node_def)

lemma update_non_tdls_ralist_exact_witness:
  "wmm_inv (wlan_update_non_tdls_ralist peer False sample_queues)
   \<and> ras (wlan_update_non_tdls_ralist peer False sample_queues) 0
       = [sample_node 100 peer False [sample_buffer 1 0 0, sample_buffer 2 0 0],
          sample_node 200 peer2 False [sample_buffer 3 0 0]]"
  using update_non_tdls_ralist_exact [OF sample_queues_inv, of peer False]
  by (simp add: all8 sample_ras) (simp add: sample_node_def)

lemma queue_ctx_inv: "wmm_inv (priv queue_ctx)" "uniform (priv queue_ctx)"
  using sample_queues_inv sample_queues_uniform by (simp_all add: queue_ctx_def)

lemma delete_peer_ralist_exact_witness:
  "wmm_inv (priv (wlan_wmm_delete_peer_ralist peer queue_ctx))
   \<and> ras (priv (wlan_wmm_delete_peer_ralist peer queue_ctx)) 0 = [sample_node 200 peer2 True [sample_buffer 3 0 0]]
   \<and> calls (wlan_wmm_delete_peer_ralist peer queue_ctx) = complete_failed [sample_buffer 1 0 0, sample_buffer 2 0 0]"
proof -
  note t = delete_peer_ralist_exact [OF queue_ctx_inv(1), of peer]
  have "concat (map (peer_bufs peer sample_queues) [0..<MAX_NUM_TID]) = [sample_buffer 1 0 0, sample_buffer 2 0 0]"
    by (simp add: upt8 peer_bufs_def sample_ras sample_node_def)
  then show ?thesis using t by (simp add: all8 queue_ctx_def sample_ras) (simp add: sample_node_def)
qed

lemma drop_tx_pkts_exact_witness:
  "wmm_inv (priv (snd (wlan_drop_tx_pkts 8 queue_ctx)))
   \<and> (\<exists>tid < MAX_NUM_TID. \<exists>n. dropped_one tid n queue_ctx (snd (wlan_drop_tx_pkts 8 queue_ctx)))"
proof -
  obtain i c where r: "wlan_drop_tx_pkts 8 queue_ctx = (i, c)" by fastforce
  have "\<exists>r \<in> set (ras (priv queue_ctx) 0). droppable r"
    by (simp add: queue_ctx_def sample_ras droppable_def sample_node_def)
  then show ?thesis using drop_tx_pkts_exact [OF queue_ctx_inv(1) _ r] r by fastforce
qed

definition sample_packet :: mlan_buffer where
  "sample_packet = (sample_buffer 7 0 0)\<lparr>pbuf := [0, 0] @ peer @ peer2 @ [8, 0], data_offset := 2\<rparr>"

lemma add_buf_txqueue_exact_witness:
  "\<exists>c' b'. wlan_wmm_add_buf_txqueue (\<lambda>i. Some (300 + i)) initial_globals sample_packet queue_ctx = Some c'
     \<and> wmm_inv (priv c') \<and> uniform (priv c') \<and> buf_addr b' = 7
     \<and> (\<exists>tid < MAX_NUM_TID. \<exists>i. \<forall>k < MAX_NUM_TID. \<forall>j. queue_at (priv c') k j =
               (if k = tid \<and> j = i then queue_at sample_queues tid i @ [b'] else queue_at sample_queues k j))"
proof -
  have room: "\<forall>tid < MAX_NUM_TID. \<forall>i. length (queue_at (priv queue_ctx) tid i) < 65535"
    by (simp add: all8 queue_at_def queue_ctx_def sample_ras sample_node_def less_Suc_eq nth_Cons split: nat.split)
  have "case wlan_wmm_add_buf_txqueue (\<lambda>i. Some (300 + i)) initial_globals sample_packet queue_ctx of
      Some c' \<Rightarrow> calls c' = [] \<and> tdls_pending_txq (priv c') = [] \<and> length (queue_at (priv c') 0 0) = 3 | None \<Rightarrow> False"
    by code_simp
  moreover have "length (queue_at sample_queues 0 0) = 2" by (simp add: queue_at_def sample_ras sample_node_def)
  moreover have "tdls_pending_txq sample_queues = []" by (simp add: sample_queues_def sample_private_def)
  moreover have "data_offset sample_packet + 6 \<le> length (pbuf sample_packet)" "buf_addr sample_packet = 7"
    by (simp_all add: sample_packet_def sample_buffer_def)
  ultimately show ?thesis
    using add_buf_txqueue_exact [OF queue_ctx_inv _ room, of "\<lambda>i. Some (300 + i)" sample_packet initial_globals]
    by (fastforce simp: queue_ctx_def same_queues_def split: option.splits)
qed

subsection \<open>Streams\<close>

text \<open>Two transmit streams, for TIDs 0 and 3, of two receivers.\<close>

definition stream_ctx :: mlan_ctx where
  "stream_ctx = \<lparr>adapter = sample_adapter, priv = sample_queues\<lparr>tx_ba_stream_tbl_ptr :=
     [\<lparr>tx_tid = 0, tx_ra = peer, tx_ba_status = BA_STREAM_SETUP_COMPLETE, tx_amsdu_ok = False\<rparr>,
      \<lparr>tx_tid = 3, tx_ra = peer2, tx_ba_status = BA_STREAM_SETUP_INPROGRESS, tx_amsdu_ok = False\<rparr>]\<rparr>, calls = []\<rparr>"

lemma stream_ctx_unique: "txs.unique (priv stream_ctx)"
  by (simp add: txs.unique_def stream_ctx_def tx_key_def)

lemma cleanup_txbastream_exact_witness:
  "map tx_tid (tx_ba_stream_tbl_ptr (wlan_11n_cleanup_txbastream_tbl peer (priv stream_ctx))) = [3]"
  unfolding cleanup_txbastream_exact [OF stream_ctx_unique] by (simp add: stream_ctx_def)

lemma deleteall_txbastream_complete_witness:
  "\<exists>p'. wlan_11n_deleteall_txbastream_tbl ((priv stream_ctx)\<lparr>aggr_prio_tbl :=
       [\<lparr>ampdu_user = 5, ampdu_ap = 0xff, aggr_amsdu = 0\<rparr>]\<rparr>) = Some p'
     \<and> tx_ba_stream_tbl_ptr p' = [] \<and> ampdu_ap (aggr_prio_tbl p' ! 0) = 5"
  using deleteall_txbastream_complete [of "(priv stream_ctx)\<lparr>aggr_prio_tbl :=
       [\<lparr>ampdu_user = 5, ampdu_ap = 0xff, aggr_amsdu = 0\<rparr>]\<rparr>"] by auto

text \<open>A DELBA for a TID: from the originator or, without the bit, from the recipient.\<close>

definition sample_delba :: "t_u8 \<Rightarrow> t_u16 \<Rightarrow> HostCmd_DS_11N_DELBA" where
  "sample_delba res s = \<lparr>del_result = res, del_peer_mac_addr = peer, del_ba_param_set = s, del_reason_code = 0\<rparr>"

lemma ret_delba_failure_use_after_free_witness:
  "wlan_ret_11n_delba (\<lambda>_. MLAN_STATUS_SUCCESS) (sample_addba 0) True (sample_delba 1 0x5800) stream_ctx = None"
proof (rule ret_delba_failure_use_after_free [OF stream_ctx_unique])
  show "del_result (sample_delba 1 0x5800) \<noteq> 0" by (simp add: sample_delba_def)
  show "INITIATOR_BIT (del_ba_param_set (sample_delba 1 0x5800))" by code_simp
  show "wlan_11n_get_txbastream_tbl (priv stream_ctx) (delba_tid (del_ba_param_set (sample_delba 1 0x5800)))
      (del_peer_mac_addr (sample_delba 1 0x5800)) = None" by code_simp
qed

lemma delete_bastream_routes_witness:
  "\<exists>c'. wlan_11n_delete_bastream (sample_delba 0 0) stream_ctx = Some c' \<and> map tx_tid (tx_ba_stream_tbl_ptr (priv c')) = [3]
    \<and> rx_reorder_tbl_ptr (priv c') = rx_reorder_tbl_ptr (priv stream_ctx)"
proof -
  have "wlan_11n_delete_bastream (sample_delba 0 0) stream_ctx \<noteq> None" by code_simp
  moreover have "\<not> INITIATOR_BIT (del_ba_param_set (sample_delba 0 0))"
    "delba_tid (del_ba_param_set (sample_delba 0 0)) = 0" "del_peer_mac_addr (sample_delba 0 0) = peer" by code_simp+
  ultimately show ?thesis
    using delete_bastream_routes [OF stream_ctx_unique, of "sample_delba 0 0"] by (auto simp: stream_ctx_def)
qed

lemma delba_threshold_truncated_witness:
  "\<exists>c'. wlan_11n_delete_bastream (sample_delba 0 0) stream_ctx = Some c'
    \<and> unat (ba_packet_threshold (ras (priv c') (wlan_get_wmm_tid_down (priv stream_ctx) 0) ! 0)) < 32"
proof -
  have "\<not> INITIATOR_BIT (del_ba_param_set (sample_delba 0 0))" "delba_tid (del_ba_param_set (sample_delba 0 0)) = 0"
    "wlan_11n_get_txbastream_tbl (priv stream_ctx) 0 (del_peer_mac_addr (sample_delba 0 0)) = Some 0"
    "length (tid_tbl_ptr (wmm (priv stream_ctx))) = MAX_NUM_TID"
    "wlan_wmm_get_ralist_node (priv stream_ctx) (wlan_get_wmm_tid_down (priv stream_ctx) 0)
       (del_peer_mac_addr (sample_delba 0 0)) = Some 0"
    by code_simp+
  then show ?thesis using delba_threshold_truncated [of "sample_delba 0 0" stream_ctx 0 0] by (auto simp: Let_def)
qed

definition sample_refusal :: HostCmd_DS_11N_ADDBA_RSP where
  "sample_refusal = \<lparr>add_rsp_result = 1, rsp_peer_mac_addr = peer2, rsp_dialog_token = 1, rsp_status_code = 37,
     rsp_block_ack_param_set = 0xC, rsp_block_ack_tmo = 0, rsp_ssn = 0\<rparr>"

lemma addba_refused_blocks_tid_witness:
  "\<exists>c'. wlan_ret_11n_addba_req sample_refusal stream_ctx = Some c' \<and> map tx_tid (tx_ba_stream_tbl_ptr (priv c')) = [0]
    \<and> wlan_is_ampdu_allowed sample_adapter (priv c') (sample_node 100 peer False []) 3 = Some False"
proof -
  have "uint (param_tid (rsp_block_ack_param_set sample_refusal)) = 3" by code_simp
  moreover have "sta_list (priv stream_ctx) = []" "length (aggr_prio_tbl (priv stream_ctx)) = MAX_NUM_TID"
    "bss_role (priv stream_ctx) = MLAN_BSS_ROLE_STA"
    by (simp_all add: stream_ctx_def sample_queues_def sample_private_def)
  ultimately show ?thesis
    using addba_refused_blocks_tid [OF stream_ctx_unique, of sample_refusal]
    by (auto simp: sample_refusal_def stream_ctx_def sample_node_def)
qed

text \<open>A table with one window of 65 slots, and the table of \<^verbatim>\<open>sample_ctx\<close> that fits.\<close>

lemma get_rxreorder_tbl_exact_witness:
  "wlan_get_rxreorder_tbl (sample_private\<lparr>rx_reorder_tbl_ptr := [sample_entry 100 (replicate 65 None)]\<rparr>) = None
   \<and> wlan_get_rxreorder_tbl (priv sample_ctx) = Some (map rx_copy sample_tbl)"
proof
  show "wlan_get_rxreorder_tbl (sample_private\<lparr>rx_reorder_tbl_ptr := [sample_entry 100 (replicate 65 None)]\<rparr>) = None"
    using get_rxreorder_tbl_exact [of "sample_private\<lparr>rx_reorder_tbl_ptr := [sample_entry 100 (replicate 65 None)]\<rparr>"]
    by (simp add: sample_entry_def)
  show "wlan_get_rxreorder_tbl (priv sample_ctx) = Some (map rx_copy sample_tbl)"
    using get_rxreorder_tbl_exact [of "priv sample_ctx"]
    by (simp add: sample_ctx_def sample_tbl_def sample_entry_def)
qed

end
