(* ===== verification/Byte_Mem.thy ===== *)
theory Byte_Mem
  imports Mlan_Prelude
begin

text \<open>
  Reading and writing ranges of a byte buffer, as \<^verbatim>\<open>memcpy\<close> does: a range that is not inside the
  buffer is \<^term>\<open>None\<close>.  Fields are read and written in network or little-endian order.
\<close>

definition rd :: "t_u8 list \<Rightarrow> nat \<Rightarrow> nat \<Rightarrow> t_u8 list option" where
  "rd mem off n = (if off + n \<le> length mem then Some (take n (drop off mem)) else None)"

definition wr :: "t_u8 list \<Rightarrow> nat \<Rightarrow> t_u8 list \<Rightarrow> t_u8 list option" where
  "wr mem off bs = (if off + length bs \<le> length mem
                    then Some (take off mem @ bs @ drop (off + length bs) mem) else None)"

definition be16 :: "t_u16 \<Rightarrow> t_u8 list" where
  "be16 w = [ucast (drop_bit 8 w), ucast w]"

definition le16_bytes :: "t_u16 \<Rightarrow> t_u8 list" where
  "le16_bytes w = [ucast w, ucast (drop_bit 8 w)]"

definition le32_bytes :: "t_u32 \<Rightarrow> t_u8 list" where
  "le32_bytes w = [ucast w, ucast (drop_bit 8 w), ucast (drop_bit 16 w), ucast (drop_bit 24 w)]"

definition of_be16 :: "t_u8 list \<Rightarrow> t_u16" where
  "of_be16 bs = push_bit 8 (ucast (bs ! 0)) OR ucast (bs ! 1)"

definition of_le16 :: "t_u8 list \<Rightarrow> t_u16" where
  "of_le16 bs = push_bit 8 (ucast (bs ! 1)) OR ucast (bs ! 0)"

definition of_le32 :: "t_u8 list \<Rightarrow> t_u32" where
  "of_le32 bs = push_bit 24 (ucast (bs ! 3)) OR push_bit 16 (ucast (bs ! 2))
     OR push_bit 8 (ucast (bs ! 1)) OR ucast (bs ! 0)"

definition rd_be16 :: "t_u8 list \<Rightarrow> nat \<Rightarrow> t_u16 option" where
  "rd_be16 mem off = map_option of_be16 (rd mem off 2)"

subsection \<open>Laws\<close>

lemma length_bytes [simp]:
  "length (be16 w) = 2" "length (le16_bytes w) = 2" "length (le32_bytes v) = 4"
  by (simp_all add: be16_def le16_bytes_def le32_bytes_def)

lemma of_be16_be16 [simp]: "of_be16 (be16 w) = w"
  by (rule bit_word_eqI) (auto simp: of_be16_def be16_def bit_simps)

lemma of_le16_le16 [simp]: "of_le16 (le16_bytes w) = w"
  by (rule bit_word_eqI) (auto simp: of_le16_def le16_bytes_def bit_simps)

lemma le32_nth:
  "le32_bytes w ! 0 = ucast w" "le32_bytes w ! 1 = ucast (drop_bit 8 w)"
  "le32_bytes w ! 2 = ucast (drop_bit 16 w)" "le32_bytes w ! 3 = ucast (drop_bit 24 w)"
  by (simp_all add: le32_bytes_def eval_nat_numeral)

lemma of_le32_le32 [simp]: "of_le32 (le32_bytes w) = w"
proof (rule bit_word_eqI)
  fix n :: nat
  assume n: "n < LENGTH(32)"
  then consider "n < 8" | "8 \<le> n" "n < 16" | "16 \<le> n" "n < 24" | "24 \<le> n" by linarith
  then show "bit (of_le32 (le32_bytes w)) n = bit w n"
    unfolding of_le32_def le32_nth
    using n by cases (auto simp: bit_or_iff bit_push_bit_iff bit_drop_bit_eq bit_unsigned_iff)
qed

lemma rd_length: "rd mem off n = Some bs \<Longrightarrow> length bs = n"
  by (auto simp: rd_def split: if_splits)

lemma wr_length: "wr mem off bs = Some mem' \<Longrightarrow> length mem' = length mem"
  by (auto simp: wr_def split: if_splits)

lemma rd_Some [monad_simps]: "rd mem off n = Some bs \<longleftrightarrow> off + n \<le> length mem \<and> bs = take n (drop off mem)"
  by (auto simp: rd_def)

lemma wr_Some [monad_simps]:
  "wr mem off bs = Some mem' \<longleftrightarrow> off + length bs \<le> length mem \<and> mem' = take off mem @ bs @ drop (off + length bs) mem"
  by (auto simp: wr_def)

text \<open>Reading and writing at a boundary of an append.\<close>

lemma rd_append:
  assumes "off = length pre" "length bs = n"
  shows "rd (pre @ bs @ post) off n = Some bs"
  using assms by (simp add: rd_def)

lemma rd_append_offset:
  assumes "off = length pre + length xs" "length bs = n"
  shows "rd (pre @ xs @ bs @ post) off n = Some bs"
  using assms by (simp add: rd_def)

lemma wr_append:
  assumes "off = length pre" "length bs = length old"
  shows "wr (pre @ old @ post) off bs = Some (pre @ bs @ post)"
  using assms by (simp add: wr_def)

lemma rd_wr_same: "wr mem off bs = Some mem' \<Longrightarrow> rd mem' off (length bs) = Some bs"
  by (auto simp: wr_def rd_def split: if_splits)

lemma rd_wr_other:
  assumes "wr mem off bs = Some mem'" "o2 + n \<le> off \<or> off + length bs \<le> o2"
  shows "rd mem' o2 n = rd mem o2 n"
proof -
  have m: "off + length bs \<le> length mem" "mem' = take off mem @ bs @ drop (off + length bs) mem"
    using assms(1) by (simp_all add: wr_Some)
  have l: "length mem' = length mem" using assms(1) by (rule wr_length)
  have nth: "mem' ! i = mem ! i" if "i < off \<or> off + length bs \<le> i" "i < length mem" for i
    using that m by (auto simp: nth_append)
  show ?thesis
  proof (cases "o2 + n \<le> length mem")
    case True
    have "take n (drop o2 mem') = take n (drop o2 mem)"
      using True l assms(2) by (intro nth_equalityI) (auto intro!: nth)
    then show ?thesis using l by (simp add: rd_def)
  next
    case False
    then show ?thesis using l by (simp add: rd_def)
  qed
qed

end
