(* ===== verification/Amsdu.thy ===== *)
theory Amsdu
  imports Byte_Mem Mlan_State
begin

text \<open>
  A-MSDU frames (\<^verbatim>\<open>mlan_11n_aggr.c\<close>): how one packet becomes a subframe, and how a received frame is
  taken apart.  Buffers are byte lists; the loops run over them in place, as the code does.
  What the stages behind them answer (\<open>moal\<close> for \<^verbatim>\<open>moal_recv_packet\<close>, \<open>uap\<close> for \<^verbatim>\<open>wlan_uap_recv_packet\<close>,
  \<open>eapol\<close> for the EAPOL command) and what the allocator returns are parameters.
\<close>

abbreviation LLC_SNAP_LEN :: nat where "LLC_SNAP_LEN \<equiv> 8"
abbreviation ETH803_HDR_LEN :: nat where "ETH803_HDR_LEN \<equiv> 14"
abbreviation MLAN_RX_DATA_BUF_SIZE :: nat where "MLAN_RX_DATA_BUF_SIZE \<equiv> 4352"
abbreviation MLAN_NET_IP_ALIGN :: nat where "MLAN_NET_IP_ALIGN \<equiv> 2"

definition rfc1042_eth_hdr :: "t_u8 list" where
  "rfc1042_eth_hdr = [0xaa, 0xaa, 0x03, 0x00, 0x00, 0x00]"

text \<open>The pad that makes a length a multiple of four.\<close>

definition amsdu_pad :: "nat \<Rightarrow> nat" where
  "amsdu_pad n = (if n mod 4 \<noteq> 0 then 4 - n mod 4 else 0)"

subsection \<open>Forming a subframe\<close>

text \<open>Copy the packet of \<open>pkt_len\<close> bytes at \<open>data\<close> in \<open>src\<close> to \<open>off\<close> in the frame; the results are the frame, the
  returned size and the pad (which is counted, not written).\<close>

definition wlan_11n_form_amsdu_pkt :: "t_u8 list \<Rightarrow> nat \<Rightarrow> t_u8 list \<Rightarrow> nat \<Rightarrow> nat \<Rightarrow> (t_u8 list \<times> nat \<times> nat) option" where
  "wlan_11n_form_amsdu_pkt mem off src data pkt_len = do {
     addrs \<leftarrow> rd src data 12;
     m1 \<leftarrow> wr mem off addrs;
     snap_type \<leftarrow> rd src (data + 12) 2;
     m2 \<leftarrow> wr m1 (off + 12) (be16 (word_of_int (int pkt_len + 8 - 14)));
     m3 \<leftarrow> wr m2 (off + 14) (rfc1042_eth_hdr @ snap_type);
     body \<leftarrow> (if pkt_len < 14 then None else rd src (data + 14) (pkt_len - 14));
     m4 \<leftarrow> wr m3 (off + 22) body;
     let pad = amsdu_pad (pkt_len + LLC_SNAP_LEN);
     Some (m4, pkt_len + LLC_SNAP_LEN + pad, pad) }"

lemma form_amsdu_pkt_size: "wlan_11n_form_amsdu_pkt mem off src data n = Some (m, sz, pad) \<Longrightarrow> sz = n + LLC_SNAP_LEN + pad"
  unfolding wlan_11n_form_amsdu_pkt_def Let_def by (auto simp only: Option.bind_eq_Some_conv option.inject prod.inject)

subsection \<open>Taking a frame apart\<close>

lemma subframe_decreases [simp]: "- int n - 14 < uint (w :: t_u16)"
proof -
  have "0 \<le> uint w" by simp
  then show ?thesis by linarith
qed

function wlan_11n_get_num_aggrpkts :: "t_u8 list \<Rightarrow> nat \<Rightarrow> int \<Rightarrow> nat option" where
  "wlan_11n_get_num_aggrpkts mem data total_pkt_len =
     (if total_pkt_len \<ge> int ETH803_HDR_LEN
      then (case rd_be16 mem (data + 12) of
              None \<Rightarrow> None
            | Some pkt_len \<Rightarrow>
                if int (unat pkt_len) > total_pkt_len then Some 0
                else let pad = amsdu_pad (unat pkt_len + ETH803_HDR_LEN)
                     in map_option Suc (wlan_11n_get_num_aggrpkts mem (data + unat pkt_len + pad + ETH803_HDR_LEN)
                          (total_pkt_len - int (unat pkt_len + pad + ETH803_HDR_LEN))))
      else Some 0)"
  by auto
termination by (relation "measure (\<lambda>(mem, data, total). nat total)") auto

declare wlan_11n_get_num_aggrpkts.simps [simp del]

text \<open>One round of the loop up to the allocation: \<open>Some None\<close> is the break on a bad length, otherwise the frame (the
  header of an RFC 1042 subframe is moved in place), the new \<^verbatim>\<open>data\<close>, the length to deliver, the pad and what is left.\<close>

definition deagg_subframe :: "t_u8 list \<Rightarrow> nat \<Rightarrow> int \<Rightarrow> (t_u8 list \<times> nat \<times> t_u16 \<times> nat \<times> int) option option" where
  "deagg_subframe mem data total_pkt_len = do {
     pkt_len \<leftarrow> rd_be16 mem (data + 12);
     if int (unat pkt_len) > total_pkt_len then Some None
     else do {
       let pad = amsdu_pad (unat pkt_len + ETH803_HDR_LEN);
       let total = total_pkt_len - int (unat pkt_len + pad + ETH803_HDR_LEN);
       hdr \<leftarrow> rd mem (data + 14) 6;
       if hdr = rfc1042_eth_hdr
       then do {
         addrs \<leftarrow> rd mem data 12;
         mem1 \<leftarrow> wr mem (data + LLC_SNAP_LEN) addrs;
         Some (Some (mem1, data + LLC_SNAP_LEN, pkt_len + 6, pad, total)) }
       else do {
         mem1 \<leftarrow> wr mem (data + 12) [0, 0];
         Some (Some (mem1, data, pkt_len + 14, pad, total)) } } }"

text \<open>The buffer made for one packet.\<close>

definition daggr_buffer :: "nat \<Rightarrow> mlan_buffer \<Rightarrow> t_u8 list \<Rightarrow> mlan_buffer" where
  "daggr_buffer a pmbuf bytes = pmbuf\<lparr>buf_addr := a, pbuf := replicate MLAN_NET_IP_ALIGN 0 @ bytes,
     data_offset := MLAN_NET_IP_ALIGN, data_len := length bytes, buf_flags := 0, use_count := 0,
     pparent := Some (buf_addr pmbuf)\<rparr>"

definition wlan_recv_packet_complete :: "mlan_buffer \<Rightarrow> moal_call list" where
  "wlan_recv_packet_complete b = [Call_wlan_free_mlan_buffer b]"

definition after_recv :: "mlan_status \<Rightarrow> mlan_buffer \<Rightarrow> moal_call list" where
  "after_recv ret b = (if ret = MLAN_STATUS_FAILURE \<or> ret = MLAN_STATUS_SUCCESS
     then wlan_recv_packet_complete b else [])"

definition deliver_msdu :: "(mlan_buffer \<Rightarrow> mlan_status) \<Rightarrow> (mlan_buffer \<Rightarrow> mlan_status) \<Rightarrow> (mlan_buffer \<Rightarrow> mlan_status)
    \<Rightarrow> mlan_private \<Rightarrow> mlan_buffer \<Rightarrow> (mlan_status \<times> moal_call list) option" where
  "deliver_msdu moal uap eapol p d =
     (if bss_role p = MLAN_BSS_ROLE_UAP
      then Some (uap d, Call_wlan_uap_recv_packet d # after_recv (uap d) d)
      else do {
        ptype \<leftarrow> rd (pbuf d) (data_offset d + 12) 2;
        if ewpa_enabled p \<and> ptype = [0x88, 0x8e]
        then Some (eapol d, Call_wlan_prepare_cmd_eapol d
               # (if eapol d = MLAN_STATUS_SUCCESS then [Call_wlan_recv_event MLAN_EVENT_ID_DRV_DEFER_HANDLING] else [])
               @ [Call_wlan_free_mlan_buffer d])
        else Some (moal d,
               (if ptype = [0x89, 0x0d]
                then [Call_wlan_process_tdls_action_frame (take (data_len d) (drop (data_offset d) (pbuf d)))] else [])
               @ Call_moal_recv_packet d # after_recv (moal d) d) })"

function deagg_loop :: "(nat \<Rightarrow> nat option) \<Rightarrow> (mlan_buffer \<Rightarrow> (mlan_status \<times> moal_call list) option) \<Rightarrow> mlan_buffer
    \<Rightarrow> t_u8 list \<Rightarrow> nat \<Rightarrow> int \<Rightarrow> mlan_status \<Rightarrow> (mlan_status \<times> moal_call list) option" where
  "deagg_loop alloc deliver pmbuf mem data total_pkt_len ret =
     (if total_pkt_len \<ge> int ETH803_HDR_LEN
      then (case deagg_subframe mem data total_pkt_len of
              None \<Rightarrow> None
            | Some None \<Rightarrow> Some (MLAN_STATUS_FAILURE, [])
            | Some (Some (mem1, data1, pkt_len, pad, total1)) \<Rightarrow>
                (case alloc data1 of
                   None \<Rightarrow> Some (MLAN_STATUS_FAILURE, [])
                 | Some a \<Rightarrow>
                     (case rd mem1 data1 (unat pkt_len) of
                        None \<Rightarrow> None
                      | Some bytes \<Rightarrow>
                          (case deliver (daggr_buffer a pmbuf bytes) of
                             None \<Rightarrow> None
                           | Some (ret1, cs1) \<Rightarrow>
                               map_option (\<lambda>(ret2, cs2). (ret2, cs1 @ cs2))
                                 (deagg_loop alloc deliver pmbuf mem1 (data1 + unat pkt_len + pad) total1 ret1)))))
      else Some (ret, []))"
  by auto
termination
  by (relation "measure (\<lambda>(al, de, pm, mem, data, total, ret). nat total)")
     (auto simp: deagg_subframe_def Let_def monad_simps split: if_splits)

declare deagg_loop.simps [simp del]

definition wlan_11n_deaggregate_pkt :: "(nat \<Rightarrow> nat option) \<Rightarrow> (mlan_buffer \<Rightarrow> mlan_status) \<Rightarrow> (mlan_buffer \<Rightarrow> mlan_status)
    \<Rightarrow> (mlan_buffer \<Rightarrow> mlan_status) \<Rightarrow> mlan_buffer \<Rightarrow> mlan_ctx \<Rightarrow> (mlan_status \<times> mlan_ctx) option" where
  "wlan_11n_deaggregate_pkt alloc moal uap eapol pmbuf c = do {
     (ret, cs, n) \<leftarrow>
       (if data_len pmbuf > MLAN_RX_DATA_BUF_SIZE then Some (MLAN_STATUS_FAILURE, [], use_count pmbuf)
        else do {
          n \<leftarrow> wlan_11n_get_num_aggrpkts (pbuf pmbuf) (data_offset pmbuf) (int (data_len pmbuf));
          (ret, cs) \<leftarrow> deagg_loop alloc (deliver_msdu moal uap eapol (priv c)) pmbuf (pbuf pmbuf) (data_offset pmbuf)
                        (int (data_len pmbuf)) MLAN_STATUS_FAILURE;
          Some (ret, cs, n) });
     let p = priv c;
     Some (ret, emit (cs @ [Call_wlan_free_mlan_buffer pmbuf])
       (set_priv (p\<lparr>msdu_in_rx_amsdu_cnt := msdu_in_rx_amsdu_cnt p + of_nat n, amsdu_rx_cnt := amsdu_rx_cnt p + 1\<rparr>) c)) }"

end
