(* ===== verification/Amsdu_Props.thy ===== *)
theory Amsdu_Props
  imports Amsdu
begin

text \<open>
  What the A-MSDU code guarantees: the bytes of a subframe, taking apart a frame made of such subframes, and
  what a wrong length field does.
\<close>

definition amsdu_subframe :: "t_u8 list \<Rightarrow> t_u8 list" where
  "amsdu_subframe m = take 12 m @ be16 (of_nat (length m - 6)) @ rfc1042_eth_hdr @ drop 12 m"

lemma length_rfc1042 [simp]: "length rfc1042_eth_hdr = 6"
  by (simp add: rfc1042_eth_hdr_def)

lemma length_amsdu_subframe [simp]: "12 \<le> length m \<Longrightarrow> length (amsdu_subframe m) = length m + 8"
  by (simp add: amsdu_subframe_def)

lemma split_at: "n \<le> length xs \<Longrightarrow> \<exists>ys zs. xs = ys @ zs \<and> length ys = n"
  by (intro exI [of _ "take n xs"] exI [of _ "drop n xs"]) simp

text \<open>A packet is its addresses, its type field and its body.\<close>

lemma split_packet:
  assumes "14 \<le> length m"
  obtains a t b where "m = a @ t @ b" "length a = 12" "length t = 2"
proof -
  obtain a x where a: "m = a @ x" "length a = 12" using split_at [of 12 m] assms by auto
  moreover obtain t b where "x = t @ b" "length t = 2" using split_at [of 2 x] a assms by auto
  ultimately show ?thesis using that by simp
qed

text \<open>The bytes a subframe is written over.\<close>

lemma split_space:
  assumes "length old = n + 22"
  obtains a l h b where "old = a @ l @ h @ b" "length a = 12" "length l = 2" "length h = 8" "length b = n"
proof -
  obtain a x where a: "old = a @ x" "length a = 12" using split_at [of 12 old] assms by auto
  moreover obtain l y where l: "x = l @ y" "length l = 2" using split_at [of 2 x] a assms by auto
  moreover obtain h b where "y = h @ b" "length h = 8" using split_at [of 8 y] a l assms by auto
  ultimately show ?thesis using that assms by simp
qed

subsection \<open>Forming\<close>

lemma form_amsdu_pkt_exact:
  assumes "14 \<le> length m" "length old = length m + 8"
  shows "wlan_11n_form_amsdu_pkt (pre @ old @ post) (length pre) (spre @ m @ spost) (length spre) (length m)
    = Some (pre @ amsdu_subframe m @ post, length m + 8 + amsdu_pad (length m + 8), amsdu_pad (length m + 8))"
proof -
  obtain a t b where m: "m = a @ t @ b" "length a = 12" "length t = 2" by (rule split_packet [OF assms(1)])
  have len: "length old = length b + 22" using m assms by simp
  obtain oa ol oh ob where old: "old = oa @ ol @ oh @ ob" "length oa = 12" "length ol = 2" "length oh = 8" "length ob = length b"
    by (rule split_space [OF len])
  have w: "word_of_int (int (length m) + 8 - 14) = (of_nat (length m - 6) :: t_u16)"
    using assms(1) by (simp add: of_nat_diff)
  have s: "amsdu_subframe m = a @ be16 (of_nat (length m - 6)) @ rfc1042_eth_hdr @ t @ b"
    using m by (simp add: amsdu_subframe_def)
  have r: "rd (spre @ m @ spost) (length spre) 12 = Some a" "rd (spre @ m @ spost) (length spre + 12) 2 = Some t"
    "rd (spre @ m @ spost) (length spre + 14) (length m - 14) = Some b"
    using m by (simp_all add: rd_def)
  have w1: "wr (pre @ old @ post) (length pre) a = Some (pre @ a @ ol @ oh @ ob @ post)"
    using old m(2) wr_append [of "length pre" pre a oa "ol @ oh @ ob @ post"] by simp
  have w2: "wr (pre @ a @ ol @ oh @ ob @ post) (length pre + 12) (be16 v) = Some (pre @ a @ be16 v @ oh @ ob @ post)" for v
    using old m(2) wr_append [of "length pre + 12" "pre @ a" "be16 v" ol "oh @ ob @ post"] by simp
  have w3: "wr (pre @ a @ be16 v @ oh @ ob @ post) (length pre + 14) (rfc1042_eth_hdr @ t)
      = Some (pre @ a @ be16 v @ rfc1042_eth_hdr @ t @ ob @ post)" for v
    using old m wr_append [of "length pre + 14" "pre @ a @ be16 v" "rfc1042_eth_hdr @ t" oh "ob @ post"] by simp
  have w4: "wr (pre @ a @ be16 v @ rfc1042_eth_hdr @ t @ ob @ post) (length pre + 22) b
      = Some (pre @ a @ be16 v @ rfc1042_eth_hdr @ t @ b @ post)" for v
    using old m wr_append [of "length pre + 22" "pre @ a @ be16 v @ rfc1042_eth_hdr @ t" b ob post] by simp
  show ?thesis
    unfolding wlan_11n_form_amsdu_pkt_def using assms(1)
    by (simp add: r w1 w2 w3 w4 w s Let_def)
qed

subsection \<open>Taking apart\<close>

text \<open>A frame: subframes, each followed by its pad; the last one may have less pad.\<close>

definition amsdu_frame :: "(t_u8 list \<times> t_u8 list) list \<Rightarrow> t_u8 list" where
  "amsdu_frame ms = concat (map (\<lambda>(m, p). amsdu_subframe m @ p) ms)"

fun padded :: "(t_u8 list \<times> t_u8 list) list \<Rightarrow> bool" where
  "padded [] \<longleftrightarrow> True"
| "padded ((m, p) # ms) \<longleftrightarrow> 14 \<le> length m \<and> length m < 4096 \<and> padded ms
     \<and> (if ms = [] then length p \<le> amsdu_pad (length m + 8) else length p = amsdu_pad (length m + 8))"

lemma amsdu_frame_simps [simp]:
  "amsdu_frame [] = []" "amsdu_frame ((m, p) # ms) = amsdu_subframe m @ p @ amsdu_frame ms"
  by (simp_all add: amsdu_frame_def)

text \<open>The packets given to the stages above.\<close>

definition payload_bytes :: "mlan_buffer \<Rightarrow> t_u8 list" where
  "payload_bytes b = take (data_len b) (drop (data_offset b) (pbuf b))"

fun msdu_of_call :: "moal_call \<Rightarrow> t_u8 list list" where
  "msdu_of_call (Call_moal_recv_packet b) = [payload_bytes b]"
| "msdu_of_call (Call_wlan_uap_recv_packet b) = [payload_bytes b]"
| "msdu_of_call (Call_wlan_prepare_cmd_eapol b) = [payload_bytes b]"
| "msdu_of_call _ = []"

definition msdus :: "moal_call list \<Rightarrow> t_u8 list list" where
  "msdus cs = concat (map msdu_of_call cs)"

lemma msdus_simps [simp]: "msdus [] = []" "msdus (c # cs) = msdu_of_call c @ msdus cs" "msdus (cs @ ds) = msdus cs @ msdus ds"
  by (simp_all add: msdus_def)

lemma unat_len [simp]: "n < 65536 \<Longrightarrow> unat (of_nat n :: t_u16) = n"
  by (simp add: unsigned_of_nat take_bit_eq_mod)

lemma amsdu_pad_simps: "amsdu_pad n < 4" by (simp add: amsdu_pad_def)

lemma rd_subframe:
  assumes "14 \<le> length m" "length m < 4096"
  shows "rd_be16 (pre @ amsdu_subframe m @ post) (length pre + 12) = Some (of_nat (length m - 6))"
    "rd (pre @ amsdu_subframe m @ post) (length pre + 14) 6 = Some rfc1042_eth_hdr"
    "rd (pre @ amsdu_subframe m @ post) (length pre) 12 = Some (take 12 m)"
  using assms by (simp_all add: rd_be16_def rd_def amsdu_subframe_def)

lemma deagg_subframe_exact:
  assumes "14 \<le> length m" "length m < 4096" "int (length m) \<le> tot"
  shows "deagg_subframe (pre @ amsdu_subframe m @ post) (length pre) tot
    = Some (Some ((pre @ take 8 m) @ m @ post, length pre + 8, of_nat (length m), amsdu_pad (length m + 8),
        tot - int (length m + 8 + amsdu_pad (length m + 8))))"
proof -
  obtain a t b where m: "m = a @ t @ b" "length a = 12" "length t = 2" by (rule split_packet [OF assms(1)])
  have s: "pre @ amsdu_subframe m @ post = (pre @ take 8 m) @ (drop 8 a @ be16 (of_nat (length m - 6)) @ rfc1042_eth_hdr) @ (t @ b @ post)"
    using m by (simp add: amsdu_subframe_def)
  have w: "wr (pre @ amsdu_subframe m @ post) (length pre + 8) (take 12 m) = Some ((pre @ take 8 m) @ m @ post)"
    unfolding s using m by (subst wr_append) simp_all
  have u: "unat (of_nat (length m - 6) :: t_u16) = length m - 6" by (rule unat_len) (use assms in simp)
  have ui: "uint (of_nat (length m - 6) :: t_u16) = int (length m - 6)"
    using u by (metis uint_nat)
  have l: "(of_nat (length m - 6) :: t_u16) + 6 = of_nat (length m)"
    using assms(1) by (simp add: of_nat_diff)
  have e: "length m - 6 + 14 = length m + 8" using assms(1) by simp
  show ?thesis
    unfolding deagg_subframe_def rd_subframe [OF assms(1,2)]
    using assms(1,3) by (simp add: rd_subframe [OF assms(1,2)] w u ui l e Let_def del: of_nat_diff)
qed

lemma deliver_msdu_total:
  assumes "14 \<le> length m"
  shows "\<exists>ret cs. deliver_msdu moal uap eapol p (daggr_buffer a b m) = Some (ret, cs) \<and> msdus cs = [m]"
proof -
  have "\<exists>t. rd (pbuf (daggr_buffer a b m)) (data_offset (daggr_buffer a b m) + 12) 2 = Some t"
    using assms by (simp add: daggr_buffer_def rd_def)
  then obtain t where t: "rd (pbuf (daggr_buffer a b m)) (data_offset (daggr_buffer a b m) + 12) 2 = Some t" ..
  have "payload_bytes (daggr_buffer a b m) = m" by (simp add: payload_bytes_def daggr_buffer_def)
  then show ?thesis
    by (auto simp: deliver_msdu_def t after_recv_def wlan_recv_packet_complete_def)
qed

lemma deagg_frame:
  assumes "padded ms" "\<forall>i. alloc i \<noteq> None" "\<And>a b m. 14 \<le> length m \<Longrightarrow> \<exists>ret cs. deliver (daggr_buffer a b m) = Some (ret, cs) \<and> msdus cs = [m]"
  shows "\<exists>ret' cs. deagg_loop alloc deliver pm (pre @ amsdu_frame ms @ post) (length pre) (int (length (amsdu_frame ms))) ret
    = Some (ret', cs) \<and> msdus cs = map fst ms"
  using assms(1)
proof (induction ms arbitrary: pre ret)
  case Nil
  then show ?case by (simp add: deagg_loop.simps)
next
  case (Cons mp ms)
  obtain m p where mp: "mp = (m, p)" by fastforce
  have m: "14 \<le> length m" "length m < 4096" "padded ms" using Cons.prems by (simp_all add: mp)
  define tot where "tot = int (length (amsdu_frame ((m, p) # ms)))"
  have tot: "tot = int (length m + 8 + length p + length (amsdu_frame ms))" using m by (simp add: tot_def)
  obtain a where a: "alloc (length pre + 8) = Some a" using assms(2) by fastforce
  obtain r1 c1 where d: "deliver (daggr_buffer a pm m) = Some (r1, c1)" "msdus c1 = [m]"
    using assms(3) [OF m(1)] by blast
  define rest where "rest = deagg_loop alloc deliver pm ((pre @ take 8 m @ m @ p) @ amsdu_frame ms @ post)
      (length pre + 8 + length m + amsdu_pad (length m + 8)) (tot - int (length m + 8 + amsdu_pad (length m + 8))) r1"
  have r: "rd ((pre @ take 8 m) @ m @ p @ amsdu_frame ms @ post) (length pre + 8) (length m) = Some m"
    using m by (intro rd_append) simp_all
  have step: "deagg_loop alloc deliver pm (pre @ amsdu_frame (mp # ms) @ post) (length pre) tot ret
      = map_option (\<lambda>(ret2, cs2). (ret2, c1 @ cs2)) rest"
    unfolding rest_def mp amsdu_frame_simps append_assoc
    by (subst deagg_loop.simps)
       (use tot m a d(1) r deagg_subframe_exact [of m tot pre "p @ amsdu_frame ms @ post"] in simp)
  have "\<exists>ret' cs. rest = Some (ret', cs) \<and> msdus cs = map fst ms"
  proof (cases "ms = []")
    case True
    then have "length p \<le> amsdu_pad (length m + 8)" using Cons.prems by (simp add: mp)
    then show ?thesis using True tot unfolding rest_def by (subst deagg_loop.simps) simp
  next
    case False
    then have "length p = amsdu_pad (length m + 8)" using Cons.prems by (simp add: mp)
    then show ?thesis
      unfolding rest_def using Cons.IH [OF m(3), of "pre @ take 8 m @ m @ p" r1] m tot
      by (simp add: algebra_simps)
  qed
  then show ?case using step d(2) unfolding mp tot_def [symmetric] by auto
qed

lemma num_aggrpkts_frame:
  assumes "padded ms"
  shows "wlan_11n_get_num_aggrpkts (pre @ amsdu_frame ms @ post) (length pre) (int (length (amsdu_frame ms))) = Some (length ms)"
  using assms
proof (induction ms arbitrary: pre)
  case Nil
  then show ?case by (simp add: wlan_11n_get_num_aggrpkts.simps)
next
  case (Cons mp ms)
  obtain m p where mp: "mp = (m, p)" by fastforce
  have m: "14 \<le> length m" "length m < 4096" "padded ms" using Cons.prems by (simp_all add: mp)
  define tot where "tot = int (length (amsdu_frame ((m, p) # ms)))"
  have tot: "tot = int (length m + 8 + length p + length (amsdu_frame ms))" using m by (simp add: tot_def)
  define rest where "rest = wlan_11n_get_num_aggrpkts ((pre @ amsdu_subframe m @ p) @ amsdu_frame ms @ post)
      (length pre + length m + 8 + amsdu_pad (length m + 8)) (tot - int (length m + 8 + amsdu_pad (length m + 8)))"
  have u: "unat (of_nat (length m - 6) :: t_u16) = length m - 6" by (rule unat_len) (use m in simp)
  have ui: "uint (of_nat (length m - 6) :: t_u16) = int (length m - 6)" using u by (metis uint_nat)
  have e: "length m - 6 + 14 = length m + 8" "length pre + (length m - 6) + x + 14 = length pre + length m + 8 + x" for x
    using m(1) by simp_all
  have "wlan_11n_get_num_aggrpkts (pre @ amsdu_frame (mp # ms) @ post) (length pre) tot = map_option Suc rest"
    unfolding rest_def mp amsdu_frame_simps append_assoc
    by (subst wlan_11n_get_num_aggrpkts.simps)
       (use tot m u ui e rd_subframe(1) [of m pre "p @ amsdu_frame ms @ post"] in \<open>auto simp: Let_def ac_simps simp del: of_nat_diff\<close>)
  moreover have "rest = Some (length ms)"
  proof (cases "ms = []")
    case True
    then have "length p \<le> amsdu_pad (length m + 8)" using Cons.prems by (simp add: mp)
    then show ?thesis using True tot unfolding rest_def by (subst wlan_11n_get_num_aggrpkts.simps) simp
  next
    case False
    then have "length p = amsdu_pad (length m + 8)" using Cons.prems by (simp add: mp)
    then show ?thesis
      unfolding rest_def using Cons.IH [OF m(3), of "pre @ amsdu_subframe m @ p"] m tot
      by (simp add: algebra_simps)
  qed
  ultimately show ?case unfolding mp tot_def [symmetric] by simp
qed

text \<open>C14. A received A-MSDU frame whose subframes were built by the aggregation code (any pads, the last one possibly
  cut) is taken apart completely: whatever the interface's role and the kernel's answers, the packets handed on are
  exactly the original ones, in order; the subframe counter grows by their number and the frame is freed last.\<close>

theorem deaggregate_frame_roundtrip:
  assumes "padded ms" "\<forall>i. alloc i \<noteq> None" "pbuf b = pre @ amsdu_frame ms @ post" "data_offset b = length pre"
    "data_len b = length (amsdu_frame ms)" "data_len b \<le> MLAN_RX_DATA_BUF_SIZE"
  shows "\<exists>ret cs c'. wlan_11n_deaggregate_pkt alloc moal uap eapol b c = Some (ret, c')
    \<and> calls c' = calls c @ cs @ [Call_wlan_free_mlan_buffer b] \<and> msdus cs = map fst ms
    \<and> msdu_in_rx_amsdu_cnt (priv c') = msdu_in_rx_amsdu_cnt (priv c) + of_nat (length ms)"
proof -
  have "\<exists>ret cs. deagg_loop alloc (deliver_msdu moal uap eapol (priv c)) b (pre @ amsdu_frame ms @ post) (length pre)
      (int (length (amsdu_frame ms))) MLAN_STATUS_FAILURE = Some (ret, cs) \<and> msdus cs = map fst ms"
    by (rule deagg_frame [OF assms(1,2)]) (rule deliver_msdu_total)
  then show ?thesis
    using assms(3-6) num_aggrpkts_frame [OF assms(1), of pre post]
    by (auto simp: wlan_11n_deaggregate_pkt_def Let_def)
qed

text \<open>C31. The check of a subframe's length forgets the 14 bytes of its header: a frame whose first length field is the length of
  the whole frame is accepted, and the copy of the packet reads 14 bytes past the frame, here past the buffer.\<close>

theorem deaggregate_length_check_overreads:
  assumes "pbuf b = pre @ frame" "data_offset b = length pre" "data_len b = length frame" "20 \<le> length frame"
    "length frame \<le> MLAN_RX_DATA_BUF_SIZE" "take 2 (drop 12 frame) = be16 (of_nat (length frame))" "alloc (length pre) \<noteq> None"
    "take 6 (drop 14 frame) \<noteq> rfc1042_eth_hdr"
  shows "wlan_11n_deaggregate_pkt alloc moal uap eapol b c = None"
proof -
  obtain a where a: "alloc (length pre) = Some a" using assms(7) by auto
  have len: "rd_be16 (pbuf b) (length pre + 12) = Some (of_nat (length frame))"
    using assms(1,4,6) by (simp add: rd_be16_def rd_def)
  have u: "unat (of_nat (length frame) :: t_u16) = length frame" using assms(5) by (intro unat_len) simp
  have ui: "uint (of_nat (length frame) :: t_u16) = int (length frame)" using u by (metis uint_nat)
  have u14: "unat ((of_nat (length frame) :: t_u16) + 14) = length frame + 14"
    using unat_len [of "length frame + 14"] assms(5) by simp
  have hdr: "rd (pbuf b) (length pre + 14) 6 = Some (take 6 (drop 14 frame))"
    using assms(1,4) by (simp add: rd_def)
  have w: "\<exists>m1. wr (pbuf b) (length pre + 12) [0, 0] = Some m1" using assms(1,4) by (simp add: wr_def)
  then obtain m1 where m1: "wr (pbuf b) (length pre + 12) [0, 0] = Some m1" ..
  then have "length m1 = length pre + length frame" using wr_length [OF m1] assms(1) by simp
  then have "rd m1 (length pre) (length frame + 14) = None" by (simp add: rd_def)
  moreover have "deagg_subframe (pbuf b) (length pre) (int (length frame)) = Some (Some (m1, length pre, of_nat (length frame) + 14,
      amsdu_pad (length frame + 14), - int (amsdu_pad (length frame + 14) + 14)))"
    using assms(8) by (simp add: deagg_subframe_def len hdr m1 u ui Let_def)
  ultimately have "deagg_loop alloc d b (pbuf b) (length pre) (int (length frame)) MLAN_STATUS_FAILURE = None" for d
    using a u14 assms(4) by (subst deagg_loop.simps) simp
  then show ?thesis
    using assms(2,3,5) by (auto simp: wlan_11n_deaggregate_pkt_def split: option.split)
qed

end
