(* ===== verification/Tx_Path.thy ===== *)
theory Tx_Path
  imports Byte_Mem Tx_Ba "HOL-Library.Signed_Division"
begin

text \<open>
  The way of one packet to the card: the transmit descriptor written before it (\<^verbatim>\<open>mlan_sta_tx.c\<close>,
  \<^verbatim>\<open>mlan_uap_txrx.c\<close>), sending it and what the answer of the card does (\<^verbatim>\<open>mlan_txrx.c\<close>), and the queue of
  packets that bypass the WMM queues.  The device is the adapter with all its interfaces.  What the card
  answers is a parameter: \<open>h2c\<close> gives the status of \<^verbatim>\<open>wlan_sdio_host_to_card\<close> and the adapter after it;
  \<open>base\<close> is the address of a packet's buffer.
\<close>

subsection \<open>The device\<close>

record mlan_device =
  dev_adapter :: mlan_adapter
  dev_privs :: "mlan_private option list"
  bssprio_tbl :: "(nat list \<times> nat) list" \<comment> \<open>interfaces of one priority; the cursor, its length standing for the list head\<close>
  dev_calls :: "moal_call list"

type_synonym card = "mlan_buffer \<Rightarrow> mlan_adapter \<Rightarrow> mlan_status \<times> mlan_adapter"

definition demit :: "moal_call list \<Rightarrow> mlan_device \<Rightarrow> mlan_device" where
  "demit cs d = d\<lparr>dev_calls := dev_calls d @ cs\<rparr>"

definition upd_adapter :: "(mlan_adapter \<Rightarrow> mlan_adapter) \<Rightarrow> mlan_device \<Rightarrow> mlan_device" where
  "upd_adapter f d = d\<lparr>dev_adapter := f (dev_adapter d)\<rparr>"

text \<open>The interface at an index; an operation of one interface run on the device.\<close>

definition the_priv :: "nat \<Rightarrow> mlan_device \<Rightarrow> mlan_private option" where
  "the_priv j d = (if j < length (dev_privs d) then dev_privs d ! j else None)"

definition upd_priv :: "nat \<Rightarrow> (mlan_private \<Rightarrow> mlan_private) \<Rightarrow> mlan_device \<Rightarrow> mlan_device" where
  "upd_priv j f d = (case the_priv j d of Some p \<Rightarrow> d\<lparr>dev_privs := (dev_privs d)[j := Some (f p)]\<rparr> | None \<Rightarrow> d)"

definition ctx_of :: "nat \<Rightarrow> mlan_device \<Rightarrow> mlan_ctx option" where
  "ctx_of j d = map_option (\<lambda>p. \<lparr>adapter = dev_adapter d, priv = p, calls = []\<rparr>) (the_priv j d)"

definition with_ctx :: "nat \<Rightarrow> mlan_ctx \<Rightarrow> mlan_device \<Rightarrow> mlan_device" where
  "with_ctx j c d = d\<lparr>dev_adapter := adapter c, dev_privs := (dev_privs d)[j := Some (priv c)],
     dev_calls := dev_calls d @ calls c\<rparr>"

subsection \<open>Is anything left to send\<close>

definition wlan_wmm_lists_empty :: "mlan_device \<Rightarrow> bool" where
  "wlan_wmm_lists_empty d = list_all (\<lambda>q. case q of
       None \<Rightarrow> True
     | Some p \<Rightarrow> (port_ctrl_mode p \<and> \<not> port_open p) \<or> priv_tx_pause p
         \<or> fst (util_scalar_read True True (tx_pkts_queued (wmm p))) = 0) (dev_privs d)"

definition wlan_bypass_tx_list_empty :: "mlan_adapter \<Rightarrow> bool" where
  "wlan_bypass_tx_list_empty ad \<longleftrightarrow> bypass_pkt_count ad = 0"

definition wlan_check_last_packet_indication :: "mlan_device \<Rightarrow> bool \<times> mlan_device" where
  "wlan_check_last_packet_indication d =
     (let ad = dev_adapter d
      in if sleep_period ad = 0 then (False, d)
         else let ret = (wlan_bypass_tx_list_empty ad \<and> wlan_wmm_lists_empty d)
              in if ret \<and> \<not> cmd_sent ad \<and> \<not> curr_cmd ad \<and> \<not> cmd_pending ad
                 then (True, upd_adapter (\<lambda>a. a\<lparr>delay_null_pkt := False\<rparr>) d)
                 else (False, upd_adapter (\<lambda>a. a\<lparr>delay_null_pkt := True\<rparr>) d))"

subsection \<open>The transmit descriptor\<close>

record TxPD =
  txpd_bss_type :: t_u8
  txpd_bss_num :: t_u8
  tx_pkt_length :: t_u16
  tx_pkt_offset :: t_u16
  tx_pkt_type :: t_u16
  tx_control :: t_u32
  txpd_priority :: t_u8
  txpd_flags :: t_u8
  pkt_delay_2ms :: t_u8
  tx_control_1 :: t_u32

abbreviation SIZEOF_TXPD :: nat where "SIZEOF_TXPD \<equiv> 20"
abbreviation DMA_ALIGNMENT :: nat where "DMA_ALIGNMENT \<equiv> 32"
abbreviation PKT_TYPE_AMSDU16 :: t_u16 where "PKT_TYPE_AMSDU16 \<equiv> 0xE6"
abbreviation MLAN_BUF_TYPE_RAW_DATA :: nat where "MLAN_BUF_TYPE_RAW_DATA \<equiv> 4"
abbreviation MLAN_BUF_FLAG_REQUEUED_PKT :: t_u32 where "MLAN_BUF_FLAG_REQUEUED_PKT \<equiv> 1"
abbreviation MLAN_BUF_FLAG_TCP_ACK :: t_u32 where "MLAN_BUF_FLAG_TCP_ACK \<equiv> 0x200"
abbreviation MLAN_BUF_FLAG_TX_STATUS :: t_u32 where "MLAN_BUF_FLAG_TX_STATUS \<equiv> 0x400"
abbreviation MLAN_BUF_FLAG_TX_CTRL :: t_u32 where "MLAN_BUF_FLAG_TX_CTRL \<equiv> 0x4000"
abbreviation MRVDRV_TxPD_POWER_MGMT_LAST_PACKET :: t_u8 where "MRVDRV_TxPD_POWER_MGMT_LAST_PACKET \<equiv> 8"
abbreviation MRVDRV_TxPD_FLAGS_TDLS_PACKET :: t_u8 where "MRVDRV_TxPD_FLAGS_TDLS_PACKET \<equiv> 16"
abbreviation MRVDRV_TxPD_FLAGS_TX_PACKET_STATUS :: t_u8 where "MRVDRV_TxPD_FLAGS_TX_PACKET_STATUS \<equiv> 32"
abbreviation TXPD_BW_ENABLE :: t_u32 where "TXPD_BW_ENABLE \<equiv> 0x100000"
abbreviation TXPD_TXRATE_ENABLE :: t_u32 where "TXPD_TXRATE_ENABLE \<equiv> 0x8000"
abbreviation TXPD_RETRY_ENABLE :: t_u32 where "TXPD_RETRY_ENABLE \<equiv> 0x1000"

definition bss_type_code :: "mlan_bss_type \<Rightarrow> t_u8" where
  "bss_type_code t = (case t of MLAN_BSS_TYPE_STA \<Rightarrow> 0 | MLAN_BSS_TYPE_UAP \<Rightarrow> 1 | MLAN_BSS_TYPE_WIFIDIRECT \<Rightarrow> 2
     | MLAN_BSS_TYPE_NAN \<Rightarrow> 4 | MLAN_BSS_TYPE_ANY \<Rightarrow> 0xff)"

text \<open>The descriptor as it lies in memory (packed, little-endian).\<close>

definition txpd_bytes :: "TxPD \<Rightarrow> t_u8 list" where
  "txpd_bytes t = [txpd_bss_type t, txpd_bss_num t] @ le16_bytes (tx_pkt_length t) @ le16_bytes (tx_pkt_offset t)
     @ le16_bytes (tx_pkt_type t) @ le32_bytes (tx_control t) @ [txpd_priority t, txpd_flags t, pkt_delay_2ms t, 0]
     @ le32_bytes (tx_control_1 t)"

definition wlan_wmm_compute_driver_packet_delay :: "mlan_adapter \<Rightarrow> mlan_private \<Rightarrow> mlan_buffer \<Rightarrow> t_u8" where
  "wlan_wmm_compute_driver_packet_delay ad p b =
     (let (out_sec, out_usec) = system_time ad; (in_sec, in_usec) = in_ts b;
          queue_delay = (out_sec - in_sec) * 1000 + word_of_int (sint (out_usec - in_usec) sdiv 1000) :: t_u32;
          m = (if queue_delay < drv_pkt_delay_max (wmm p) then queue_delay else drv_pkt_delay_max (wmm p))
      in ucast (drop_bit 1 m))"

definition rate_map_table_1x1 :: "(nat \<times> t_u8) list" where
  "rate_map_table_1x1 = [(2, 0), (4, 1), (11, 2), (22, 3), (44, 4), (12, 5), (18, 6), (24, 7), (36, 8), (48, 9), (72, 10),
     (96, 11), (108, 12), (144, 13), (13, 14), (26, 15), (39, 16), (52, 17), (78, 18), (104, 19), (117, 20), (130, 21),
     (12, 22), (27, 23), (54, 24), (81, 25), (108, 26), (162, 27), (216, 28), (243, 29), (270, 30)]"

definition wlan_ieee_rateid_to_mrvl_rateid :: "t_u16 \<Rightarrow> t_u8" where
  "wlan_ieee_rateid_to_mrvl_rateid rate =
     (case find_index (\<lambda>(r, _). r = unat rate) rate_map_table_1x1 of
        Some i \<Rightarrow> snd (rate_map_table_1x1 ! i) | None \<Rightarrow> 0)"

text \<open>The settings of one packet that override the descriptor's control words.\<close>

definition apply_tx_ctrl :: "mlan_buffer \<Rightarrow> TxPD \<Rightarrow> TxPD" where
  "apply_tx_ctrl b t0 =
     (let i = tx_info b;
          t1 = (if txc_data_rate i \<noteq> 0
                then t0\<lparr>tx_control := (tx_control t0 OR push_bit 16 (ucast (wlan_ieee_rateid_to_mrvl_rateid (txc_data_rate i))))
                          OR TXPD_TXRATE_ENABLE\<rparr> else t0);
          t2 = t1\<lparr>tx_control_1 := tx_control_1 t1 OR push_bit 21 (ucast (txc_channel i))\<rparr>;
          t3 = (if txc_bw i \<noteq> 0
                then t2\<lparr>tx_control_1 := (tx_control_1 t2 OR push_bit 16 (ucast (txc_bw i))) OR TXPD_BW_ENABLE\<rparr> else t2);
          t4 = (if bit (txc_tx_power i) 7 then t3\<lparr>tx_control := tx_control t3 OR ucast (txc_tx_power i)\<rparr> else t3)
      in if txc_retry_limit i \<noteq> 0
         then t4\<lparr>tx_control := (tx_control t4 OR push_bit 8 (ucast (txc_retry_limit i))) OR TXPD_RETRY_ENABLE\<rparr> else t4)"

text \<open>A raw packet carries its type and control word before the data.\<close>

definition strip_raw :: "mlan_buffer \<Rightarrow> (mlan_buffer \<times> (t_u32 \<times> t_u32) option) option" where
  "strip_raw b =
     (if buf_type b = MLAN_BUF_TYPE_RAW_DATA
      then do {
        t \<leftarrow> rd (pbuf b) (data_offset b) 4;
        k \<leftarrow> rd (pbuf b) (data_offset b + 4) 4;
        Some (b\<lparr>data_offset := data_offset b + 8, data_len := (data_len b + 2 ^ 32 - 8) mod 2 ^ 32\<rparr>, Some (of_le32 t, of_le32 k)) }
      else Some (b, None))"

text \<open>The aligned place of the interface header in front of the data.\<close>

definition txpd_head :: "nat \<Rightarrow> mlan_private \<Rightarrow> mlan_buffer \<Rightarrow> nat" where
  "txpd_head base p b =
     (let a = base + data_offset b - SIZEOF_TXPD - intf_hr_len p in a - a mod DMA_ALIGNMENT - base)"

text \<open>The fields both kinds of interface fill in the same way.\<close>

definition fill_txpd :: "mlan_adapter \<Rightarrow> mlan_private \<Rightarrow> mlan_buffer \<Rightarrow> (t_u32 \<times> t_u32) option \<Rightarrow> t_u8 \<Rightarrow> nat \<Rightarrow> TxPD" where
  "fill_txpd ad p b raw flags head =
     (let prio = ucast (of_nat (buf_priority b) :: t_u32) :: t_u8;
          c0 = (if unat prio < length (user_pri_pkt_tx_ctrl (wmm p)) then user_pri_pkt_tx_ctrl (wmm p) ! unat prio else 0);
          c1 = (if c0 = 0 then pkt_tx_ctrl p else c0);
          t = \<lparr>txpd_bss_type = bss_type_code (bss_type p), txpd_bss_num = priv_bss_num p, tx_pkt_length = of_nat (data_len b),
               tx_pkt_offset = of_nat (data_offset b - (head + intf_hr_len p)),
               tx_pkt_type = (case raw of Some (ty, k) \<Rightarrow> ucast ty | None \<Rightarrow> 0),
               tx_control = (case raw of Some (ty, k) \<Rightarrow> k | None \<Rightarrow> c1),
               txpd_priority = prio,
               txpd_flags = (if buf_flags b AND MLAN_BUF_FLAG_TX_STATUS \<noteq> 0
                             then flags OR MRVDRV_TxPD_FLAGS_TX_PACKET_STATUS else flags),
               pkt_delay_2ms = wlan_wmm_compute_driver_packet_delay ad p b,
               tx_control_1 = (if buf_flags b AND MLAN_BUF_FLAG_TX_STATUS \<noteq> 0 then push_bit 8 (tx_seq_num b) else 0)\<rparr>
      in if buf_flags b AND MLAN_BUF_FLAG_TX_CTRL \<noteq> 0 then apply_tx_ctrl b t else t)"

text \<open>The results: the offset of the head (none when the packet is refused), the packet and the device.\<close>

definition wlan_ops_sta_process_txpd :: "nat \<Rightarrow> mlan_private \<Rightarrow> mlan_buffer \<Rightarrow> mlan_device
    \<Rightarrow> (nat option \<times> mlan_buffer \<times> mlan_device) option" where
  "wlan_ops_sta_process_txpd base p b0 d =
     (if data_len b0 = 0 then Some (None, b0, d)
      else do {
        (b, raw) \<leftarrow> strip_raw b0;
        if data_offset b < SIZEOF_TXPD + intf_hr_len p + DMA_ALIGNMENT then Some (None, b, d)
        else do {
          let head = txpd_head base p b;
          let (last, d1) = (if pps_uapsd_mode (dev_adapter d) \<noteq> 0 then wlan_check_last_packet_indication d else (False, d));
          let d2 = (if last then upd_adapter (\<lambda>a. a\<lparr>tx_lock_flag := True\<rparr>) d1 else d1);
          let f0 = (if last then MRVDRV_TxPD_POWER_MGMT_LAST_PACKET else 0);
          let f1 = (if buf_flags b AND MLAN_BUF_FLAG_TDLS \<noteq> 0 then f0 OR MRVDRV_TxPD_FLAGS_TDLS_PACKET else f0);
          mem \<leftarrow> wr (pbuf b) (head + intf_hr_len p) (txpd_bytes (fill_txpd (dev_adapter d) p b raw f1 head));
          Some (Some head, b\<lparr>pbuf := mem, data_len := data_len b + data_offset b - head, data_offset := head\<rparr>, d2) } })"

definition wlan_ops_uap_process_txpd :: "nat \<Rightarrow> mlan_private \<Rightarrow> mlan_buffer \<Rightarrow> mlan_device
    \<Rightarrow> (nat option \<times> mlan_buffer \<times> mlan_device) option" where
  "wlan_ops_uap_process_txpd base p b0 d =
     (if data_len b0 = 0 then Some (None, b0, d)
      else do {
        (b, raw) \<leftarrow> strip_raw b0;
        if data_offset b < SIZEOF_TXPD + intf_hr_len p + DMA_ALIGNMENT then Some (None, b, d)
        else do {
          let head = txpd_head base p b;
          mem \<leftarrow> wr (pbuf b) (head + intf_hr_len p) (txpd_bytes (fill_txpd (dev_adapter d) p b raw 0 head));
          Some (Some head, b\<lparr>pbuf := mem, data_len := data_len b + data_offset b - head, data_offset := head\<rparr>, d) } })"

subsection \<open>Sending\<close>

text \<open>The error path that sending a packet and sending an aggregate share.\<close>

definition tx_failed :: "mlan_device \<Rightarrow> mlan_device" where
  "tx_failed = upd_adapter (\<lambda>a. a\<lparr>data_sent := False, num_tx_host_to_card_failure := num_tx_host_to_card_failure a + 1\<rparr>)"

definition wlan_process_tx :: "(mlan_buffer \<Rightarrow> nat) \<Rightarrow> card \<Rightarrow> nat \<Rightarrow> mlan_buffer \<Rightarrow> nat \<Rightarrow> mlan_device
    \<Rightarrow> (mlan_status \<times> mlan_buffer \<times> mlan_device) option" where
  "wlan_process_tx base h2c j b next_pkt_len d = do {
     p \<leftarrow> the_priv j d;
     (head, b1, d1) \<leftarrow> (if bss_role p = MLAN_BSS_ROLE_STA then wlan_ops_sta_process_txpd (base b) p b d
                        else wlan_ops_uap_process_txpd (base b) p b d);
     let (ret, d2) = (case head of
         None \<Rightarrow> (MLAN_STATUS_FAILURE, d1)
       | Some _ \<Rightarrow> let (ret, ad) = h2c b1 (dev_adapter d1)
                   in (ret, demit [Call_wlan_sdio_host_to_card b1 next_pkt_len] (d1\<lparr>dev_adapter := ad\<rparr>)));
     (case ret of
        MLAN_STATUS_RESOURCE \<Rightarrow>
          if bss_role p = MLAN_BSS_ROLE_STA \<and> pps_uapsd_mode (dev_adapter d2) \<noteq> 0 \<and> tx_lock_flag (dev_adapter d2)
          then do {
            mem \<leftarrow> wr (pbuf b1) (data_offset b1 + intf_hr_len p + 13) [0];
            Some (ret, b1\<lparr>pbuf := mem\<rparr>, upd_adapter (\<lambda>a. a\<lparr>tx_lock_flag := False\<rparr>) d2) }
          else Some (ret, b1, d2)
      | MLAN_STATUS_FAILURE \<Rightarrow> Some (ret, b1, demit [Call_wlan_write_data_complete b1 ret] (tx_failed d2))
      | MLAN_STATUS_PENDING \<Rightarrow> Some (ret, b1, d2)
      | MLAN_STATUS_SUCCESS \<Rightarrow> Some (ret, b1, demit [Call_wlan_write_data_complete b1 ret] d2)) }"

subsection \<open>The bypass queue\<close>

definition wlan_add_buf_bypass_txqueue :: "mlan_buffer \<Rightarrow> mlan_device \<Rightarrow> mlan_device" where
  "wlan_add_buf_bypass_txqueue b0 d =
     (let b = (if buf_type b0 \<noteq> MLAN_BUF_TYPE_RAW_DATA then b0\<lparr>buf_type := MLAN_BUF_TYPE_DATA\<rparr> else b0)
      in upd_priv (buf_bss_index b) (\<lambda>p. p\<lparr>bypass_txq := bypass_txq p @ [b]\<rparr>)
           (upd_adapter (\<lambda>a. a\<lparr>bypass_pkt_count := bypass_pkt_count a + 1\<rparr>) d))"

definition wlan_cleanup_bypass_txq :: "mlan_ctx \<Rightarrow> mlan_ctx" where
  "wlan_cleanup_bypass_txq c =
     (let q = bypass_txq (priv c)
      in emit (complete_failed q) (set_priv ((priv c)\<lparr>bypass_txq := []\<rparr>)
           (c\<lparr>adapter := (adapter c)\<lparr>bypass_pkt_count := bypass_pkt_count (adapter c) - of_nat (length q)\<rparr>\<rparr>)))"

text \<open>The loop over the interfaces still to visit: the first packet found is sent, and the loop ends.\<close>

fun process_bypass :: "(mlan_buffer \<Rightarrow> nat) \<Rightarrow> card \<Rightarrow> nat list \<Rightarrow> mlan_device \<Rightarrow> mlan_device option" where
  "process_bypass base h2c [] d = Some d"
| "process_bypass base h2c (j # js) d =
     (case the_priv j d of
        None \<Rightarrow> process_bypass base h2c js d
      | Some p \<Rightarrow>
          (case bypass_txq p of
             [] \<Rightarrow> process_bypass base h2c js d
           | b # bs \<Rightarrow> do {
               (status, b1, d1) \<leftarrow> wlan_process_tx base h2c (buf_bss_index b) b 0 (upd_priv j (\<lambda>p. p\<lparr>bypass_txq := bs\<rparr>) d);
               Some (if status = MLAN_STATUS_RESOURCE
                     then upd_priv j (\<lambda>p. p\<lparr>bypass_txq := b1 # bypass_txq p\<rparr>) d1
                     else upd_adapter (\<lambda>a. a\<lparr>bypass_pkt_count := bypass_pkt_count a - 1\<rparr>) d1) }))"

definition wlan_process_bypass_tx :: "(mlan_buffer \<Rightarrow> nat) \<Rightarrow> card \<Rightarrow> mlan_device \<Rightarrow> mlan_device option" where
  "wlan_process_bypass_tx base h2c d = process_bypass base h2c [0..<length (dev_privs d)] d"

end
