(* ===== verification/Tx_Send.thy ===== *)
theory Tx_Send
  imports Tx_Path Amsdu
begin

text \<open>
  Sending from a receiver's queue (\<^verbatim>\<open>mlan_wmm.c\<close>, \<^verbatim>\<open>mlan_11n_aggr.c\<close>): one packet, a packet that was
  prepared before, or an A-MSDU of several.  The interface's \<^verbatim>\<open>ra_list_spinlock\<close> is held on entry and given up
  while the packet is prepared and sent: \<open>env\<close> is what the other threads do in the meantime.  A node of a queue
  is named by its address, so that a node that disappeared is noticed as the code notices it.
\<close>

type_synonym others = "mlan_device \<Rightarrow> mlan_device"

definition ra_pos :: "mlan_private \<Rightarrow> nat \<Rightarrow> ptr \<Rightarrow> nat option" where
  "ra_pos p tid a = find_index (\<lambda>r. ra_addr r = a) (ras p tid)"

definition inc_tx_pkts_queued :: "mlan_private \<Rightarrow> mlan_private" where
  "inc_tx_pkts_queued = upd_wmm (\<lambda>w. w\<lparr>tx_pkts_queued := fst (util_scalar_increment False False (tx_pkts_queued w))\<rparr>)"

definition dec_tx_pkts_queued :: "mlan_private \<Rightarrow> mlan_private" where
  "dec_tx_pkts_queued = upd_wmm (\<lambda>w. w\<lparr>tx_pkts_queued := fst (util_scalar_decrement False False (tx_pkts_queued w))\<rparr>)"

text \<open>The packet taken from the head of a node with its counters, and put back there.\<close>

definition take_head :: "nat \<Rightarrow> nat \<Rightarrow> mlan_private \<Rightarrow> mlan_private" where
  "take_head tid n p =
     dec_tx_pkts_queued (add_queued tid (- 1)
       (upd_ra tid n (\<lambda>r. r\<lparr>buf_head := tl (buf_head r), total_pkts := total_pkts r - 1\<rparr>) p))"

definition put_back :: "nat \<Rightarrow> nat \<Rightarrow> mlan_buffer \<Rightarrow> mlan_private \<Rightarrow> mlan_private" where
  "put_back tid n b p =
     inc_tx_pkts_queued (add_queued tid 1
       (upd_ra tid n (\<lambda>r. r\<lparr>buf_head := b\<lparr>buf_flags := buf_flags b OR MLAN_BUF_FLAG_REQUEUED_PKT\<rparr> # buf_head r,
          total_pkts := total_pkts r + 1\<rparr>) p))"

text \<open>A packet went out: count it and let the next receiver and the next interface of this priority have their turn.\<close>

definition count_out :: "nat \<Rightarrow> ptr \<Rightarrow> mlan_private \<Rightarrow> mlan_private" where
  "count_out tid a p =
     upd_tid tid (\<lambda>t. t\<lparr>ra_list_curr := Ra_node a\<rparr>)
       (upd_wmm (\<lambda>w. w\<lparr>packets_out := (packets_out w)[tid := packets_out w ! tid + 1]\<rparr>) p)"

definition next_bss :: "nat \<Rightarrow> mlan_device \<Rightarrow> mlan_device" where
  "next_bss j d =
     (if j < length (bssprio_tbl d)
      then let (l, cur) = bssprio_tbl d ! j
           in d\<lparr>bssprio_tbl := (bssprio_tbl d)[j := (l, if cur < length l then cur + 1 else 0)]\<rparr>
      else d)"

definition next_pkt_len :: "mlan_buffer list \<Rightarrow> nat" where
  "next_pkt_len bs = (case bs of [] \<Rightarrow> 0 | b # _ \<Rightarrow> data_len b + SIZEOF_TXPD)"

subsection \<open>One packet\<close>

definition wlan_send_single_packet :: "(mlan_buffer \<Rightarrow> nat) \<Rightarrow> card \<Rightarrow> others \<Rightarrow> nat \<Rightarrow> ptr \<Rightarrow> nat \<Rightarrow> mlan_device
    \<Rightarrow> mlan_device option" where
  "wlan_send_single_packet base h2c env k a ptrindex d = do {
     p \<leftarrow> the_priv k d;
     n \<leftarrow> ra_pos p ptrindex a;
     (case buf_head (ras p ptrindex ! n) of
        [] \<Rightarrow> Some d
      | b # bs \<Rightarrow> do {
          (status, b1, d1) \<leftarrow> wlan_process_tx base h2c k b (next_pkt_len bs) (upd_priv k (take_head ptrindex n) d);
          let d2 = env d1;
          p2 \<leftarrow> the_priv k d2;
          Some (if status = MLAN_STATUS_RESOURCE
                then (case ra_pos p2 ptrindex a of
                        None \<Rightarrow> demit [Call_wlan_write_data_complete b1 MLAN_STATUS_FAILURE] d2
                      | Some n2 \<Rightarrow> upd_priv k (put_back ptrindex n2 b1) d2)
                else next_bss (bss_priority p)
                       (case ra_pos p2 ptrindex a of
                          None \<Rightarrow> d2 | Some _ \<Rightarrow> upd_priv k (count_out ptrindex a) d2)) }) }"

subsection \<open>A packet prepared before\<close>

definition wlan_is_ptr_processed :: "raListTbl \<Rightarrow> bool" where
  "wlan_is_ptr_processed r = (case buf_head r of [] \<Rightarrow> False | b # _ \<Rightarrow> buf_flags b AND MLAN_BUF_FLAG_REQUEUED_PKT \<noteq> 0)"

text \<open>Here the counters are settled only after the packet was sent.\<close>

definition wlan_send_processed_packet :: "card \<Rightarrow> others \<Rightarrow> nat \<Rightarrow> ptr \<Rightarrow> nat \<Rightarrow> mlan_device \<Rightarrow> mlan_device option" where
  "wlan_send_processed_packet h2c env k a ptrindex d = do {
     p \<leftarrow> the_priv k d;
     n \<leftarrow> ra_pos p ptrindex a;
     (case buf_head (ras p ptrindex ! n) of
        [] \<Rightarrow> Some d
      | b # bs \<Rightarrow> do {
          let d0 = upd_priv k (upd_ra ptrindex n (\<lambda>r. r\<lparr>buf_head := bs\<rparr>)) d;
          let (ret, ad) = h2c b (dev_adapter d0);
          let d1 = demit [Call_wlan_sdio_host_to_card b (next_pkt_len bs)] (d0\<lparr>dev_adapter := ad\<rparr>);
          let d2 = env d1;
          p2 \<leftarrow> the_priv k d2;
          Some (if ret = MLAN_STATUS_RESOURCE
                then (case ra_pos p2 ptrindex a of
                        None \<Rightarrow> demit [Call_wlan_write_data_complete b MLAN_STATUS_FAILURE] d2
                      | Some n2 \<Rightarrow> upd_priv k (upd_ra ptrindex n2 (\<lambda>r. r\<lparr>buf_head :=
                           b\<lparr>buf_flags := buf_flags b OR MLAN_BUF_FLAG_REQUEUED_PKT\<rparr> # buf_head r\<rparr>)) d2)
                else let d3 = (case ret of
                         MLAN_STATUS_FAILURE \<Rightarrow> demit [Call_wlan_write_data_complete b ret] (tx_failed d2)
                       | MLAN_STATUS_SUCCESS \<Rightarrow> demit [Call_wlan_write_data_complete b ret] d2
                       | _ \<Rightarrow> d2);
                         d4 = (case ra_pos p2 ptrindex a of
                           None \<Rightarrow> d3
                         | Some n2 \<Rightarrow> upd_priv k (\<lambda>q. upd_ra ptrindex n2 (\<lambda>r. r\<lparr>total_pkts := total_pkts r - 1\<rparr>)
                                        (count_out ptrindex a q)) d3)
                     in upd_priv k (\<lambda>q. dec_tx_pkts_queued (add_queued ptrindex (- 1) q)) (next_bss (bss_priority p) d4)) }) }"

subsection \<open>An A-MSDU\<close>

fun num_pkts_loop :: "nat \<Rightarrow> nat \<Rightarrow> mlan_buffer list \<Rightarrow> nat" where
  "num_pkts_loop max_buf_size total_size [] = 0"
| "num_pkts_loop max_buf_size total_size (b # bs) =
     (let total_size1 = total_size + data_len b
      in if total_size1 < max_buf_size then Suc (num_pkts_loop max_buf_size total_size1 bs) else 0)"

definition wlan_num_pkts_in_txq :: "raListTbl \<Rightarrow> nat \<Rightarrow> nat" where
  "wlan_num_pkts_in_txq r max_buf_size = num_pkts_loop max_buf_size 0 (buf_head r)"

definition amsdu_txpd :: "mlan_adapter \<Rightarrow> mlan_private \<Rightarrow> mlan_buffer \<Rightarrow> TxPD" where
  "amsdu_txpd ad p b = \<lparr>txpd_bss_type = bss_type_code (bss_type p), txpd_bss_num = priv_bss_num p, tx_pkt_length = 0,
     tx_pkt_offset = of_nat SIZEOF_TXPD, tx_pkt_type = PKT_TYPE_AMSDU16, tx_control = pkt_tx_ctrl p,
     txpd_priority = ucast (of_nat (buf_priority b) :: t_u32),
     txpd_flags = (if buf_flags b AND MLAN_BUF_FLAG_TDLS \<noteq> 0 then MRVDRV_TxPD_FLAGS_TDLS_PACKET else 0),
     pkt_delay_2ms = wlan_wmm_compute_driver_packet_delay ad p b, tx_control_1 = 0\<rparr>"

text \<open>The descriptor of an aggregate lies at the start of its data.\<close>

definition wlan_11n_form_amsdu_txpd :: "mlan_adapter \<Rightarrow> mlan_private \<Rightarrow> nat \<Rightarrow> mlan_buffer \<Rightarrow> t_u8 list \<Rightarrow> t_u8 list option" where
  "wlan_11n_form_amsdu_txpd ad p headroom b mem = wr mem headroom (txpd_bytes (amsdu_txpd ad p b))"

definition wlan_11n_update_pktlen_amsdu_txpd :: "mlan_private \<Rightarrow> nat \<Rightarrow> nat \<Rightarrow> t_u8 list \<Rightarrow> mlan_device
    \<Rightarrow> (t_u8 list \<times> mlan_device) option" where
  "wlan_11n_update_pktlen_amsdu_txpd p headroom len mem d = do {
     m1 \<leftarrow> wr mem (headroom + 2) (le16_bytes (of_nat (len - SIZEOF_TXPD)));
     let (last, d1) = (if bss_role p = MLAN_BSS_ROLE_STA \<and> pps_uapsd_mode (dev_adapter d) \<noteq> 0
                       then wlan_check_last_packet_indication d else (False, d));
     if last
     then do {
       f \<leftarrow> rd m1 (headroom + 13) 1;
       m2 \<leftarrow> wr m1 (headroom + 13) [hd f OR MRVDRV_TxPD_POWER_MGMT_LAST_PACKET];
       Some (m2, upd_adapter (\<lambda>a. a\<lparr>tx_lock_flag := True\<rparr>) d1) }
     else Some (m1, d1) }"

text \<open>The loop: take packets from the node while they fit; it ends because every subframe fills at least eight bytes.  The
  result says whether the node still exists, and carries the frame, its size and the last pad.\<close>

function aggregate_loop :: "others \<Rightarrow> nat \<Rightarrow> ptr \<Rightarrow> nat \<Rightarrow> nat \<Rightarrow> nat \<Rightarrow> t_u8 list \<Rightarrow> nat \<Rightarrow> nat \<Rightarrow> mlan_device
    \<Rightarrow> (bool \<times> t_u8 list \<times> nat \<times> nat \<times> mlan_device) option" where
  "aggregate_loop env k a ptrindex headroom max_size mem pkt_size pad d =
     (case the_priv k d of
        None \<Rightarrow> None
      | Some p \<Rightarrow>
          (case ra_pos p ptrindex a of
             None \<Rightarrow> None
           | Some n \<Rightarrow>
               (case buf_head (ras p ptrindex ! n) of
                  [] \<Rightarrow> Some (True, mem, pkt_size, pad, d)
                | b # bs \<Rightarrow>
                    if pkt_size + (data_len b + LLC_SNAP_LEN) + headroom \<le> max_size
                    then (case wlan_11n_form_amsdu_pkt mem (headroom + pkt_size) (pbuf b) (data_offset b) (data_len b) of
                            None \<Rightarrow> None
                          | Some (mem1, sz, pad1) \<Rightarrow>
                              let d1 = env (demit [Call_wlan_write_data_complete b MLAN_STATUS_SUCCESS]
                                         (upd_priv k (take_head ptrindex n) d))
                              in (case the_priv k d1 of
                                    None \<Rightarrow> None
                                  | Some p1 \<Rightarrow>
                                      if ra_pos p1 ptrindex a = None then Some (False, mem1, pkt_size + sz, pad1, d1)
                                      else aggregate_loop env k a ptrindex headroom max_size mem1 (pkt_size + sz) pad1
                                             (upd_priv k (\<lambda>q. q\<lparr>msdu_in_tx_amsdu_cnt := msdu_in_tx_amsdu_cnt q + 1\<rparr>) d1)))
                    else Some (True, mem, pkt_size, pad, d))))"
  by auto
termination
  apply (relation "measure (\<lambda>(env, k, a, i, headroom, max_size, mem, pkt_size, pad, d). max_size - pkt_size)")
   apply simp
  subgoal by (auto dest!: form_amsdu_pkt_size)
  done

declare aggregate_loop.simps [simp del]

text \<open>The new buffer, zeroed, takes over what it needs from the first packet.\<close>

abbreviation MLAN_BUF_FLAG_MALLOC_BUF :: t_u32 where "MLAN_BUF_FLAG_MALLOC_BUF \<equiv> 4"

definition new_aggr_buffer :: "nat \<Rightarrow> mlan_buffer \<Rightarrow> mlan_buffer" where
  "new_aggr_buffer addr b = b\<lparr>buf_addr := addr,
     buf_flags := MLAN_BUF_FLAG_MALLOC_BUF OR (buf_flags b AND (MLAN_BUF_FLAG_TDLS OR MLAN_BUF_FLAG_TCP_ACK)),
     use_count := 0, tx_seq_num := 0,
     tx_info := \<lparr>txc_data_rate = 0, txc_channel = 0, txc_bw = 0, txc_tx_power = 0, txc_retry_limit = 0\<rparr>, pparent := None\<rparr>"

definition wlan_11n_aggregate_pkt :: "nat option \<Rightarrow> t_u8 list \<Rightarrow> card \<Rightarrow> others \<Rightarrow> nat \<Rightarrow> ptr \<Rightarrow> nat \<Rightarrow> nat
    \<Rightarrow> mlan_device \<Rightarrow> mlan_device option" where
  \<comment> \<open>the address and the contents of the new buffer, if there is one\<close>
  "wlan_11n_aggregate_pkt alloc fresh h2c env k a headroom ptrindex d = do {
     p \<leftarrow> the_priv k d;
     n \<leftarrow> ra_pos p ptrindex a;
     let r = ras p ptrindex ! n;
     let max_size = min (unat (ra_max_amsdu r)) (unat (tx_buf_size (dev_adapter d)));
     (case (buf_head r, alloc) of
        ([], _) \<Rightarrow> Some d
      | (_, None) \<Rightarrow> Some d
      | (b # _, Some addr) \<Rightarrow> do {
          let aggr = new_aggr_buffer addr b;
          mem0 \<leftarrow> wlan_11n_form_amsdu_txpd (dev_adapter d) p headroom aggr fresh;
          let d0 = upd_priv k (\<lambda>q. q\<lparr>msdu_in_tx_amsdu_cnt := msdu_in_tx_amsdu_cnt q + 1\<rparr>) d;
          (valid, mem1, sz, pad, d1) \<leftarrow> aggregate_loop env k a ptrindex headroom max_size mem0 SIZEOF_TXPD 0 d0;
          if \<not> valid then Some d1
          else do {
            p1 \<leftarrow> the_priv k d1;
            n1 \<leftarrow> ra_pos p1 ptrindex a;
            (mem2, d2) \<leftarrow> wlan_11n_update_pktlen_amsdu_txpd p headroom (sz - pad) mem1 d1;
            let aggr1 = aggr\<lparr>pbuf := mem2, data_offset := 0, data_len := sz - pad + headroom\<rparr>;
            let (ret, ad) = h2c aggr1 (dev_adapter d2);
            let d3 = env (demit [Call_wlan_sdio_host_to_card aggr1 (next_pkt_len (buf_head (ras p1 ptrindex ! n1)))]
                       (d2\<lparr>dev_adapter := ad\<rparr>));
            p3 \<leftarrow> the_priv k d3;
            (case ret of
               MLAN_STATUS_RESOURCE \<Rightarrow>
                 (case ra_pos p3 ptrindex a of
                    None \<Rightarrow> Some (demit [Call_wlan_write_data_complete aggr1 MLAN_STATUS_FAILURE] d3)
                  | Some n3 \<Rightarrow> do {
                      let unlock = (bss_role p = MLAN_BSS_ROLE_STA \<and> pps_uapsd_mode (dev_adapter d3) \<noteq> 0
                                    \<and> tx_lock_flag (dev_adapter d3));
                      mem3 \<leftarrow> (if unlock then wr mem2 (headroom + 13) [0] else Some mem2);
                      let d4 = (if unlock then upd_adapter (\<lambda>x. x\<lparr>tx_lock_flag := False\<rparr>) d3 else d3);
                      Some (upd_priv k (\<lambda>q. (put_back ptrindex n3 (aggr1\<lparr>pbuf := mem3\<rparr>) q)
                              \<lparr>amsdu_tx_cnt := amsdu_tx_cnt q + 1\<rparr>) d4) })
             | MLAN_STATUS_FAILURE \<Rightarrow> Some (demit [Call_wlan_write_data_complete aggr1 ret] (tx_failed d3))
             | _ \<Rightarrow>
                 let d4 = (if ret = MLAN_STATUS_SUCCESS then demit [Call_wlan_write_data_complete aggr1 ret] d3 else d3);
                     d5 = (case ra_pos p3 ptrindex a of
                             None \<Rightarrow> d4 | Some _ \<Rightarrow> upd_priv k (count_out ptrindex a) d4)
                 in Some (upd_priv k (\<lambda>q. q\<lparr>amsdu_tx_cnt := amsdu_tx_cnt q + 1\<rparr>) (next_bss (bss_priority p) d5))) } }) }"

end
