(* ===== verification/Tx_Sched.thy ===== *)
theory Tx_Sched
  imports Tx_Send
begin

text \<open>
  Which packet is sent next (\<^verbatim>\<open>mlan_wmm.c\<close>): the choice of an interface, a priority and a receiver, what is
  decided for the packet at the head of that receiver's queue, and the loop of the main process that sends while the
  card takes packets.
\<close>

abbreviation NO_PKT_PRIO_TID :: t_s32 where "NO_PKT_PRIO_TID \<equiv> - 1"
abbreviation MIN_NUM_AMSDU :: nat where "MIN_NUM_AMSDU \<equiv> 2"
abbreviation DEL_BA_THRESHOLD :: t_u8 where "DEL_BA_THRESHOLD \<equiv> 10"
abbreviation UP_LD_CMD_PORT_HOST_INT_STATUS :: t_u8 where "UP_LD_CMD_PORT_HOST_INT_STATUS \<equiv> 0x40"

subsection \<open>The choice\<close>

text \<open>The next position on a circular list of \<open>n\<close> nodes.\<close>

definition next_pos :: "nat \<Rightarrow> nat \<Rightarrow> nat" where
  "next_pos n i = (if Suc i = n then 0 else Suc i)"

definition ready_node :: "raListTbl \<Rightarrow> bool" where
  "ready_node r \<longleftrightarrow> \<not> tx_pause r \<and> buf_head r \<noteq> []"

text \<open>The receiver after the one that sent last; a cursor that points nowhere is no value.\<close>

definition rr_start :: "tid_tbl_t \<Rightarrow> nat option" where
  "rr_start t =
     (case ra_list_curr t of
        Ra_null \<Rightarrow> None
      | Ra_head \<Rightarrow> Some 0
      | Ra_node a \<Rightarrow> map_option (next_pos (length (ra_list t))) (find_index (\<lambda>r. ra_addr r = a) (ra_list t)))"

text \<open>The round over the receivers, each once.\<close>

fun pick_ra :: "raListTbl list \<Rightarrow> nat \<Rightarrow> nat \<Rightarrow> nat option" where
  "pick_ra rs 0 i = None"
| "pick_ra rs (Suc n) i = (if ready_node (rs ! i) then Some i else pick_ra rs n (next_pos (length rs) i))"

text \<open>The two TIDs of an access category take turns.\<close>

definition balance_prio :: "wmm_globals \<Rightarrow> nat \<Rightarrow> mlan_private \<Rightarrow> mlan_private option" where
  "balance_prio g i p = do {
     let next_prio = (if i mod 2 \<noteq> 0 then i - 1 else i + 1);
     next_tid \<leftarrow> arr_get (tos_to_tid g) (int next_prio);
     Some (if pkts_queued (wmm p) ! next_tid \<noteq> 0 \<and> pkts_queued (wmm p) ! next_tid > pkts_paused (wmm p) ! next_tid
           then write_highest_prio (of_nat next_prio) p
           else upd_wmm (\<lambda>w. w\<lparr>highest_queued_prio := fst (snd (util_scalar_conditional_write False False
                  MLAN_SCALAR_COND_GREATER_THAN (of_nat i) (of_nat i) (highest_queued_prio w)))\<rparr>) p) }"

text \<open>The priorities still to look at, highest first; the result is the TID and the node.\<close>

fun scan_prios :: "wmm_globals \<Rightarrow> nat list \<Rightarrow> mlan_private \<Rightarrow> ((nat \<times> nat) option \<times> mlan_private) option" where
  "scan_prios g [] p = Some (None, p)"
| "scan_prios g (i # is) p = do {
     tid \<leftarrow> arr_get (tos_to_tid g) (int i);
     if ras p tid = [] then scan_prios g is p
     else do {
       s \<leftarrow> rr_start (tid_tbl_ptr (wmm p) ! tid);
       case pick_ra (ras p tid) (length (ras p tid)) s of
         None \<Rightarrow> scan_prios g is p
       | Some n \<Rightarrow> map_option (\<lambda>p1. (Some (tid, n), p1)) (balance_prio g i p) } }"

definition prios_below :: "t_s32 \<Rightarrow> nat list" where
  "prios_below h = rev [0..<nat (sint h + 1)]"

definition read_highest_prio :: "mlan_private \<Rightarrow> t_s32" where
  "read_highest_prio p = fst (util_scalar_read False False (highest_queued_prio (wmm p)))"

definition may_send :: "mlan_private \<Rightarrow> bool" where
  "may_send p \<longleftrightarrow> \<not> (port_ctrl_mode p \<and> \<not> port_open p) \<and> \<not> priv_tx_pause p"

definition visit_priv :: "wmm_globals \<Rightarrow> mlan_private \<Rightarrow> ((nat \<times> nat) option \<times> mlan_private) option" where
  "visit_priv g p =
     (if \<not> may_send p then Some (None, p)
      else do {
        (r, p1) \<leftarrow> scan_prios g (prios_below (read_highest_prio p)) p;
        Some (case r of
            Some x \<Rightarrow> (r, p1)
          | None \<Rightarrow> (None, write_highest_prio (if read_tx_pkts_queued p1 \<noteq> 0 then HIGH_PRIO_TID else NO_PKT_PRIO_TID) p1)) })"

text \<open>The round over the interfaces of one priority; the cursor stays at an interface that has something to send.  The
  result adds the interface.\<close>

fun visit_bss :: "wmm_globals \<Rightarrow> nat \<Rightarrow> nat \<Rightarrow> mlan_device \<Rightarrow> ((nat \<times> nat \<times> nat) option \<times> mlan_device) option" where
  "visit_bss g j 0 d = Some (None, d)"
| "visit_bss g j (Suc n) d = do {
     let (l, cur) = bssprio_tbl d ! j;
     p \<leftarrow> the_priv (l ! cur) d;
     (r, p1) \<leftarrow> visit_priv g p;
     let d1 = upd_priv (l ! cur) (\<lambda>_. p1) d;
     case r of
       Some (tid, node) \<Rightarrow> Some (Some (l ! cur, tid, node), d1)
     | None \<Rightarrow> visit_bss g j n (d1\<lparr>bssprio_tbl := (bssprio_tbl d1)[j := (l, next_pos (length l) cur)]\<rparr>) }"

fun visit_prios :: "wmm_globals \<Rightarrow> nat list \<Rightarrow> mlan_device \<Rightarrow> ((nat \<times> nat \<times> nat) option \<times> mlan_device) option" where
  "visit_prios g [] d = Some (None, d)"
| "visit_prios g (j # js) d = do {
     (l, cur) \<leftarrow> arr_get (bssprio_tbl d) (int j);
     if l = [] then visit_prios g js d
     else do {
       (r, d1) \<leftarrow> visit_bss g j (length l)
                   (d\<lparr>bssprio_tbl := (bssprio_tbl d)[j := (l, if cur = length l then 0 else cur)]\<rparr>);
       case r of Some x \<Rightarrow> Some (r, d1) | None \<Rightarrow> visit_prios g js d1 } }"

definition wlan_wmm_get_highest_priolist_ptr :: "wmm_globals \<Rightarrow> mlan_device
    \<Rightarrow> ((nat \<times> nat \<times> nat) option \<times> mlan_device) option" where
  "wlan_wmm_get_highest_priolist_ptr g d = visit_prios g (rev [0..<length (dev_privs d)]) d"

subsection \<open>What is done for the packet\<close>

definition wlan_get_tid :: "raListTbl \<Rightarrow> nat" where
  "wlan_get_tid r = (case buf_head r of [] \<Rightarrow> 0 | b # _ \<Rightarrow> buf_priority b)"

text \<open>What the rest of the system answers while a packet is sent.\<close>

record outside =
  buf_base :: "mlan_buffer \<Rightarrow> nat"
  host_to_card :: card
  other_threads :: others
  prepare_cmd :: "host_cmd \<Rightarrow> mlan_status"
  addba_junk :: HostCmd_DS_11N_ADDBA_REQ
  new_stream :: "mlan_device \<Rightarrow> bool" \<comment> \<open>is there memory for a stream entry\<close>
  new_buffer :: "mlan_device \<Rightarrow> nat option \<times> t_u8 list" \<comment> \<open>a buffer for an aggregate\<close>
  send_mp_aggr :: "mlan_device \<Rightarrow> mlan_device" \<comment> \<open>\<^verbatim>\<open>wlan_send_mp_aggr_buf\<close> of the bus\<close>

definition aggregate_or_single :: "outside \<Rightarrow> bool \<Rightarrow> nat \<Rightarrow> ptr \<Rightarrow> nat \<Rightarrow> mlan_device \<Rightarrow> mlan_device option" where
  "aggregate_or_single w aggr k a ptrindex d = do {
     p \<leftarrow> the_priv k d;
     if aggr
     then wlan_11n_aggregate_pkt (fst (new_buffer w d)) (snd (new_buffer w d)) (host_to_card w) (other_threads w) k a
            (intf_hr_len p) ptrindex d
     else wlan_send_single_packet (buf_base w) (host_to_card w) (other_threads w) k a ptrindex d }"

text \<open>A stream for the packet's receiver, when one is due: the TID to ask for and the stream to give up.\<close>

definition setup_stream :: "outside \<Rightarrow> nat \<Rightarrow> raListTbl \<Rightarrow> int \<Rightarrow> mlan_device
    \<Rightarrow> ((int \<times> mac) option \<times> (int \<times> mac) option \<times> mlan_device) option" where
  "setup_stream w k r tid d = do {
     p \<leftarrow> the_priv k d;
     allowed \<leftarrow> wlan_is_ampdu_allowed (dev_adapter d) p r tid;
     if allowed \<and> packet_count r > ucast (ba_packet_threshold r)
     then let create = upd_priv k (wlan_11n_create_txbastream_tbl (new_stream w d) (ra r) tid BA_STREAM_SETUP_INPROGRESS);
              fresh = (wlan_11n_get_txbastream_tbl p tid (ra r) = None)
          in if wlan_is_bastream_avail (dev_adapter d) (dev_privs d)
             then Some (if fresh then (Some (tid, ra r), None, create d) else (None, None, d))
             else do {
               del \<leftarrow> wlan_find_stream_to_delete p tid;
               Some (None, del, if del \<noteq> None \<and> fresh then create d else d) }
     else Some (None, None, d) }"

definition on_priv :: "nat \<Rightarrow> (mlan_ctx \<Rightarrow> mlan_ctx option) \<Rightarrow> mlan_device \<Rightarrow> mlan_device option" where
  "on_priv k f d = do { c \<leftarrow> ctx_of k d; c1 \<leftarrow> f c; Some (with_ctx k c1 d) }"

text \<open>The commands that go out after the packet.\<close>

definition stream_commands :: "outside \<Rightarrow> nat \<Rightarrow> (int \<times> mac) option \<Rightarrow> (int \<times> mac) option \<Rightarrow> mlan_device \<Rightarrow> mlan_device option" where
  "stream_commands w k add del d = do {
     d1 \<leftarrow> (case add of
             Some (tid, addr) \<Rightarrow>
               if 0 \<le> tid \<and> tid < 8
               then on_priv k (\<lambda>c. map_option snd (wlan_send_addba (prepare_cmd w) (addba_junk w) tid addr c)) d
               else Some d
           | None \<Rightarrow> Some d);
     case del of
       Some (tid, addr) \<Rightarrow>
         if 0 \<le> tid \<and> tid < 8
         then on_priv k (\<lambda>c. Some (snd (wlan_send_delba (prepare_cmd w) False tid addr True c))) d1
         else Some d1
     | None \<Rightarrow> Some d1 }"

definition wlan_dequeue_tx_packet :: "outside \<Rightarrow> wmm_globals \<Rightarrow> mlan_device \<Rightarrow> (mlan_status \<times> mlan_device) option" where
  "wlan_dequeue_tx_packet w g d0 = do {
     (found, d) \<leftarrow> wlan_wmm_get_highest_priolist_ptr g d0;
     case found of
       None \<Rightarrow> Some (MLAN_STATUS_FAILURE, d)
     | Some (k, ptrindex, n) \<Rightarrow> do {
         p \<leftarrow> the_priv k d;
         let r0 = ras p ptrindex ! n;
         let tid = (if wlan_get_tid r0 \<ge> MAX_NUM_TID then wlan_wmm_downgrade_tid p (wlan_get_tid r0) else wlan_get_tid r0);
         if wlan_is_ptr_processed r0
         then map_option (Pair MLAN_STATUS_SUCCESS)
                (wlan_send_processed_packet (host_to_card w) (other_threads w) k (ra_addr r0) ptrindex d)
         else do {
           let r = (if del_ba_count r0 \<ge> DEL_BA_THRESHOLD then wlan_update_del_ba_count p r0 else r0);
           let d1 = upd_priv k (upd_ra ptrindex n (\<lambda>_. r)) d;
           let many = (wlan_num_pkts_in_txq r (unat (tx_buf_size (dev_adapter d))) \<ge> MIN_NUM_AMSDU);
           amsdu \<leftarrow> wlan_is_amsdu_allowed p r (int tid);
           if \<not> ra_is_11n_enabled r \<or> ra_ba_status r \<noteq> BA_STREAM_NOT_SETUP \<or> del_ba_count r \<ge> DEL_BA_THRESHOLD
              \<or> wps_session_enable p
           then map_option (Pair MLAN_STATUS_SUCCESS)
                  (aggregate_or_single w (ra_is_11n_enabled r \<and> ra_ba_status r \<noteq> BA_STREAM_NOT_SETUP
                      \<and> amsdu_in_ampdu r \<and> amsdu \<and> many) k (ra_addr r) ptrindex d1)
           else do {
             (add, del, d2) \<leftarrow> setup_stream w k r (int tid) d1;
             d3 \<leftarrow> aggregate_or_single w (amsdu \<and> many) k (ra_addr r) ptrindex d2;
             d4 \<leftarrow> stream_commands w k add del d3;
             Some (MLAN_STATUS_SUCCESS, d4) } } } }"

text \<open>The loop of the main process, at most \<open>fuel\<close> packets.\<close>

fun wlan_wmm_process_tx :: "nat \<Rightarrow> outside \<Rightarrow> wmm_globals \<Rightarrow> mlan_device \<Rightarrow> mlan_device option" where
  "wlan_wmm_process_tx 0 w g d = None"
| "wlan_wmm_process_tx (Suc fuel) w g d = do {
     (status, d1) \<leftarrow> wlan_dequeue_tx_packet w g d;
     if status \<noteq> MLAN_STATUS_SUCCESS then Some d1
     else if sdio_ireg (dev_adapter d1) AND UP_LD_CMD_PORT_HOST_INT_STATUS \<noteq> 0 then Some (send_mp_aggr w d1)
     else if \<not> data_sent (dev_adapter d1) \<and> \<not> tx_lock_flag (dev_adapter d1) \<and> \<not> wlan_wmm_lists_empty d1
     then wlan_wmm_process_tx fuel w g d1 else Some d1 }"

end
