(* ===== verification/Tx_Sched_Props.thy ===== *)
theory Tx_Sched_Props
  imports Tx_Sched
begin

text \<open>
  The choice of the next packet: what the loops over interfaces, priorities and receivers choose, in which order, and
  that a packet that may be sent is found by the second call at the latest.
\<close>

subsection \<open>Receivers in turn\<close>

lemma next_pos_mod: "i < n \<Longrightarrow> next_pos n i = (i + 1) mod n"
  by (auto simp: next_pos_def)

lemma pick_ra_find:
  assumes "i < length rs"
  shows "pick_ra rs n i = find (\<lambda>k. ready_node (rs ! k)) (map (\<lambda>m. (i + m) mod length rs) [0..<n])"
  using assms
proof (induction n arbitrary: i)
  case 0
  then show ?case by simp
next
  case (Suc n)
  have e: "map (\<lambda>m. (i + m) mod length rs) [0..<Suc n]
      = i # map (\<lambda>m. (next_pos (length rs) i + m) mod length rs) [0..<n]"
    using Suc.prems by (simp add: upt_conv_Cons map_Suc_upt [symmetric] next_pos_mod mod_add_left_eq o_def del: upt_Suc)
  have "next_pos (length rs) i < length rs" using Suc.prems by (auto simp: next_pos_def)
  then show ?case unfolding e using Suc.IH by simp
qed

lemma rotate_upt: "s \<le> n \<Longrightarrow> rotate s [0..<n] = map (\<lambda>m. (s + m) mod n) [0..<n]"
  by (intro nth_equalityI) (auto simp: nth_rotate)

lemma pick_ra_rotate:
  assumes "s < length rs"
  shows "pick_ra rs (length rs) s = find (\<lambda>k. ready_node (rs ! k)) (rotate s [0..<length rs])"
  using pick_ra_find [OF assms] rotate_upt [of s "length rs"] assms by simp

lemma pick_ra_Some:
  "s < length rs \<Longrightarrow> pick_ra rs (length rs) s = Some n \<Longrightarrow> n < length rs \<and> ready_node (rs ! n)"
  unfolding pick_ra_rotate by (auto simp: find_Some_iff) (metis length_upt nth_mem set_rotate set_upt atLeastLessThan_iff diff_zero length_rotate)+

lemma pick_ra_None:
  "s < length rs \<Longrightarrow> pick_ra rs (length rs) s = None \<longleftrightarrow> (\<forall>r \<in> set rs. \<not> ready_node r)"
  unfolding pick_ra_rotate by (auto simp: find_None_iff in_set_conv_nth) (metis nth_mem)

lemma rr_start_bound: "ra_list t \<noteq> [] \<Longrightarrow> rr_start t = Some s \<Longrightarrow> s < length (ra_list t)"
  by (auto simp: rr_start_def next_pos_def split: ra_cursor.splits dest: find_index_SomeD)

subsection \<open>Only the highest priority is written\<close>

definition only_prio :: "mlan_private \<Rightarrow> mlan_private \<Rightarrow> bool" where
  "only_prio p p' \<longleftrightarrow> (\<exists>h. p' = upd_wmm (\<lambda>w. w\<lparr>highest_queued_prio := h\<rparr>) p)"

lemma only_prio_refl [simp]: "only_prio p p"
  unfolding only_prio_def by (rule exI [of _ "highest_queued_prio (wmm p)"]) (simp add: upd_wmm_def)

lemma only_prio_trans: "only_prio p q \<Longrightarrow> only_prio q r \<Longrightarrow> only_prio p r"
  unfolding only_prio_def by (auto simp: upd_wmm_def)

lemma only_prio_write [simp]: "only_prio p (write_highest_prio h p)"
  unfolding only_prio_def write_highest_prio_def
  by (rule exI [of _ "fst (util_scalar_write False False h (highest_queued_prio (wmm p)))"]) (simp add: upd_wmm_def)

lemma balance_only_prio: "balance_prio g i p = Some p1 \<Longrightarrow> only_prio p p1"
  unfolding balance_prio_def Let_def
  by (auto simp: monad_simps split: if_splits) (auto simp: only_prio_def upd_wmm_def)

lemma only_prio_simps:
  assumes "only_prio p p'"
  shows "ras p' tid = ras p tid" "tid_tbl_ptr (wmm p') = tid_tbl_ptr (wmm p)" "may_send p' = may_send p"
    "read_tx_pkts_queued p' = read_tx_pkts_queued p" "acct 0 p' = acct 0 p" "ra_unique p' = ra_unique p"
  using assms by (auto simp: only_prio_def ras_def upd_wmm_def may_send_def read_tx_pkts_queued_def acct_def ra_unique_def)

lemma scan_only_prio: "scan_prios g is p = Some (r, p1) \<Longrightarrow> only_prio p p1"
  by (induction "is") (auto simp: monad_simps balance_only_prio split: if_splits option.splits)

lemma visit_only_prio: "visit_priv g p = Some (r, p1) \<Longrightarrow> only_prio p p1"
  unfolding visit_priv_def
  by (auto simp: monad_simps split: if_splits option.splits intro: only_prio_trans dest!: scan_only_prio)

subsection \<open>One interface\<close>

text \<open>The tables and cursors are in order: a priority names a TID, a receiver list has a cursor on it.\<close>

definition cursor_ok :: "mlan_private \<Rightarrow> bool" where
  "cursor_ok p \<longleftrightarrow> (\<forall>tid < MAX_NUM_TID. ras p tid \<noteq> [] \<longrightarrow> rr_start (tid_tbl_ptr (wmm p) ! tid) \<noteq> None)"

definition prio_table :: "wmm_globals \<Rightarrow> bool" where
  "prio_table g \<longleftrightarrow> length (tos_to_tid g) = MAX_NUM_TID \<and> set (tos_to_tid g) = {..<MAX_NUM_TID}"

definition sched_ok :: "mlan_private \<Rightarrow> bool" where
  "sched_ok p \<longleftrightarrow> cursor_ok p \<and> sint (read_highest_prio p) < int MAX_NUM_TID"

text \<open>The receiver whose turn it is in a TID, if one has a packet that may be sent.\<close>

definition turn :: "mlan_private \<Rightarrow> nat \<Rightarrow> nat option" where
  "turn p tid =
     (if ras p tid = [] then None
      else case rr_start (tid_tbl_ptr (wmm p) ! tid) of
             None \<Rightarrow> None | Some s \<Rightarrow> find (\<lambda>k. ready_node (ras p tid ! k)) (rotate s [0..<length (ras p tid)]))"

definition has_ready :: "mlan_private \<Rightarrow> nat \<Rightarrow> bool" where
  "has_ready p tid \<longleftrightarrow> (\<exists>r \<in> set (ras p tid). ready_node r)"

lemma turn_Some: "turn p tid = Some n \<Longrightarrow> n < length (ras p tid) \<and> ready_node (ras p tid ! n)"
  unfolding turn_def
  by (auto split: if_splits option.splits simp: find_Some_iff)
    (metis (no_types) atLeastLessThan_iff diff_zero length_rotate length_upt nth_mem set_rotate set_upt)

lemma turn_None:
  assumes "cursor_ok p" "tid < MAX_NUM_TID"
  shows "turn p tid = None \<longleftrightarrow> \<not> has_ready p tid"
proof (cases "ras p tid = []")
  case True
  then show ?thesis by (simp add: turn_def has_ready_def)
next
  case False
  then obtain s where s: "rr_start (tid_tbl_ptr (wmm p) ! tid) = Some s" using assms unfolding cursor_ok_def by blast
  then have "s < length (ras p tid)" using rr_start_bound False by (simp add: ras_def)
  then show ?thesis using False s pick_ra_None pick_ra_rotate by (simp add: turn_def has_ready_def)
qed

lemma turn_only_prio: "only_prio p p' \<Longrightarrow> turn p' tid = turn p tid"
  unfolding turn_def by (simp only: only_prio_simps)

lemma arr_get_prio: "prio_table g \<Longrightarrow> i < MAX_NUM_TID \<Longrightarrow> arr_get (tos_to_tid g) (int i) = Some (tos_to_tid g ! i)"
  by (simp add: prio_table_def)

lemma prio_tid: "prio_table g \<Longrightarrow> i < MAX_NUM_TID \<Longrightarrow> tos_to_tid g ! i < MAX_NUM_TID"
  by (metis lessThan_iff nth_mem prio_table_def)

lemma balance_total: "prio_table g \<Longrightarrow> i < MAX_NUM_TID \<Longrightarrow> \<exists>p1. balance_prio g i p = Some p1"
proof -
  assume g: "prio_table g" and i: "i < MAX_NUM_TID"
  have "(if i mod 2 \<noteq> 0 then i - 1 else i + 1) < MAX_NUM_TID"
    using i by presburger
  then show ?thesis unfolding balance_prio_def Let_def by (simp only: arr_get_prio [OF g] bind.bind_lunit) blast
qed

text \<open>The scan finds the first priority of its list whose TID has a turn.\<close>

lemma scan_prios_step:
  assumes g: "prio_table g" and c: "cursor_ok p" and i: "i < MAX_NUM_TID"
  shows "scan_prios g (i # is) p =
    (case turn p (tos_to_tid g ! i) of
       None \<Rightarrow> scan_prios g is p
     | Some n \<Rightarrow> map_option (\<lambda>p1. (Some (tos_to_tid g ! i, n), p1)) (balance_prio g i p))"
proof (cases "ras p (tos_to_tid g ! i) = []")
  case True
  then show ?thesis using g i by (simp add: arr_get_prio turn_def)
next
  case False
  let ?tid = "tos_to_tid g ! i"
  obtain s where s: "rr_start (tid_tbl_ptr (wmm p) ! ?tid) = Some s"
    using c False prio_tid [OF g i] unfolding cursor_ok_def by blast
  then have "s < length (ras p ?tid)" using rr_start_bound False by (simp add: ras_def)
  then show ?thesis using False s pick_ra_rotate g i by (simp add: arr_get_prio turn_def del: scan_prios.simps(1))
qed

lemma scan_prios_exact:
  assumes g: "prio_table g" and c: "cursor_ok p" and "\<forall>i \<in> set is. i < MAX_NUM_TID"
  shows "case find (\<lambda>i. has_ready p (tos_to_tid g ! i)) is of
      None \<Rightarrow> scan_prios g is p = Some (None, p)
    | Some i \<Rightarrow> \<exists>n p1. turn p (tos_to_tid g ! i) = Some n \<and> scan_prios g is p = Some (Some (tos_to_tid g ! i, n), p1)"
  using assms(3)
proof (induction "is")
  case Nil
  then show ?case by simp
next
  case (Cons i "is")
  have i: "i < MAX_NUM_TID" using Cons.prems by simp
  have t: "turn p (tos_to_tid g ! i) = None \<longleftrightarrow> \<not> has_ready p (tos_to_tid g ! i)" by (rule turn_None [OF c prio_tid [OF g i]])
  show ?case
  proof (cases "turn p (tos_to_tid g ! i)")
    case None
    then show ?thesis using Cons t scan_prios_step [OF g c i, of "is"]
      by (simp del: scan_prios.simps split: option.split_asm option.split)
  next
    case (Some n)
    then show ?thesis using t scan_prios_step [OF g c i, of "is"] balance_total [OF g i, of p] by (auto simp del: scan_prios.simps)
  qed
qed

lemma prios_below_bound: "i \<in> set (prios_below h) \<longleftrightarrow> int i \<le> sint h"
  by (auto simp: prios_below_def nat_less_iff)

lemma visit_priv_exact:
  assumes g: "prio_table g" and ok: "sched_ok p"
  shows "case (if may_send p then find (\<lambda>i. has_ready p (tos_to_tid g ! i)) (prios_below (read_highest_prio p)) else None) of
      Some i \<Rightarrow> \<exists>n p1. turn p (tos_to_tid g ! i) = Some n \<and> visit_priv g p = Some (Some (tos_to_tid g ! i, n), p1)
    | None \<Rightarrow> visit_priv g p = Some (None, if may_send p then write_highest_prio (if read_tx_pkts_queued p \<noteq> 0
                  then HIGH_PRIO_TID else NO_PKT_PRIO_TID) p else p)"
proof -
  have "\<forall>i \<in> set (prios_below (read_highest_prio p)). i < MAX_NUM_TID"
    using ok by (auto simp: prios_below_bound sched_ok_def)
  moreover have "cursor_ok p" using ok by (simp add: sched_ok_def)
  ultimately show ?thesis
    using scan_prios_exact [OF g, of p "prios_below (read_highest_prio p)"]
    unfolding visit_priv_def by (cases "find (\<lambda>i. has_ready p (tos_to_tid g ! i)) (prios_below (read_highest_prio p))") auto
qed

subsection \<open>The interfaces in order\<close>

text \<open>What the loops do, with the order of the interfaces made explicit.\<close>

fun visit_all :: "wmm_globals \<Rightarrow> nat list \<Rightarrow> mlan_private option list
    \<Rightarrow> ((nat \<times> nat \<times> nat) option \<times> mlan_private option list) option" where
  "visit_all g [] ps = Some (None, ps)"
| "visit_all g (k # ks) ps = do {
     p \<leftarrow> (if k < length ps then ps ! k else None);
     (r, p1) \<leftarrow> visit_priv g p;
     case r of
       Some (tid, node) \<Rightarrow> Some (Some (k, tid, node), ps[k := Some p1])
     | None \<Rightarrow> visit_all g ks (ps[k := Some p1]) }"

definition order_of :: "(nat list \<times> nat) list \<Rightarrow> nat list \<Rightarrow> nat list" where
  "order_of tbl js = concat (map (\<lambda>j. rotate (snd (tbl ! j)) (fst (tbl ! j))) js)"

definition interface_order :: "mlan_device \<Rightarrow> nat list" where
  "interface_order d = order_of (bssprio_tbl d) (rev [0..<length (dev_privs d)])"

definition tables_ok :: "(nat list \<times> nat) list \<Rightarrow> bool" where
  "tables_ok tbl \<longleftrightarrow> (\<forall>(l, cur) \<in> set tbl. cur \<le> length l)"

lemma visit_all_append:
  "visit_all g (xs @ ys) ps = do { (r, ps1) \<leftarrow> visit_all g xs ps; if r = None then visit_all g ys ps1 else Some (r, ps1) }"
  by (induction xs arbitrary: ps) (auto split: option.splits simp: Option.bind_assoc intro!: Option.bind_cong)

lemma upd_priv_const [simp]:
  "the_priv k d = Some p \<Longrightarrow> upd_priv k (\<lambda>_. q) d = d\<lparr>dev_privs := (dev_privs d)[k := Some q]\<rparr>"
  by (simp add: upd_priv_def)

lemma visit_bss_refines:
  assumes "j < length (bssprio_tbl d)" "bssprio_tbl d ! j = (l, cur)" "cur < length l"
  shows "case visit_all g (map (\<lambda>m. l ! ((cur + m) mod length l)) [0..<n]) (dev_privs d) of
      None \<Rightarrow> visit_bss g j n d = None
    | Some (r, ps) \<Rightarrow> \<exists>c. c < length l
        \<and> visit_bss g j n d = Some (r, d\<lparr>dev_privs := ps, bssprio_tbl := (bssprio_tbl d)[j := (l, c)]\<rparr>)"
  using assms
proof (induction n arbitrary: d cur)
  case 0
  then have "(bssprio_tbl d)[j := (l, cur)] = bssprio_tbl d" by (metis list_update_id)
  then show ?case using 0 by (auto intro!: exI [of _ cur])
next
  case (Suc n)
  let ?cur = "next_pos (length l) cur"
  have c: "?cur < length l" using Suc.prems by (auto simp: next_pos_def)
  have e: "map (\<lambda>m. l ! ((cur + m) mod length l)) [0..<Suc n]
      = l ! cur # map (\<lambda>m. l ! ((?cur + m) mod length l)) [0..<n]"
    using Suc.prems by (simp add: upt_conv_Cons map_Suc_upt [symmetric] next_pos_mod mod_add_left_eq o_def del: upt_Suc)
  have id: "(bssprio_tbl d)[j := (l, cur)] = bssprio_tbl d" using Suc.prems by (metis list_update_id)
  show ?case
  proof (cases "the_priv (l ! cur) d")
    case None
    then show ?thesis using Suc.prems unfolding e by (simp add: the_priv_def)
  next
    case (Some p)
    then have p: "l ! cur < length (dev_privs d)" "dev_privs d ! (l ! cur) = Some p"
      by (auto simp: the_priv_def split: if_splits)
    show ?thesis
    proof (cases "visit_priv g p")
      case None
      then show ?thesis using Some p Suc.prems unfolding e by simp
    next
      case v: (Some rp)
      obtain r p1 where rp: "rp = (r, p1)" by fastforce
      show ?thesis
      proof (cases r)
        case None
        let ?d = "d\<lparr>dev_privs := (dev_privs d)[l ! cur := Some p1], bssprio_tbl := (bssprio_tbl d)[j := (l, ?cur)]\<rparr>"
        have "j < length (bssprio_tbl ?d)" "bssprio_tbl ?d ! j = (l, ?cur)" using Suc.prems by auto
        from Suc.IH [OF this c] show ?thesis
          using None v rp Some p Suc.prems unfolding e by (auto split: option.splits)
      next
        case (Some x)
        then show ?thesis
          using v rp \<open>the_priv (l ! cur) d = Some p\<close> p Suc.prems id unfolding e
          by (cases x) (auto intro!: exI [of _ cur])
      qed
    qed
  qed
qed

lemma order_of_Cons: "order_of tbl (j # js) = rotate (snd (tbl ! j)) (fst (tbl ! j)) @ order_of tbl js"
  by (simp add: order_of_def)

lemma order_of_update: "j \<notin> set js \<Longrightarrow> order_of (tbl[j := x]) js = order_of tbl js"
  by (auto simp: order_of_def intro!: arg_cong [of _ _ concat] map_cong) (metis nth_list_update_neq)+

lemma rotate_map_mod: "s \<le> length l \<Longrightarrow> rotate s l = map (\<lambda>m. l ! ((s + m) mod length l)) [0..<length l]"
  by (intro nth_equalityI) (auto simp: nth_rotate)

lemma visit_prios_refines:
  assumes "tables_ok (bssprio_tbl d)" "distinct js" "\<forall>j \<in> set js. j < length (bssprio_tbl d)"
  shows "case visit_all g (order_of (bssprio_tbl d) js) (dev_privs d) of
      None \<Rightarrow> visit_prios g js d = None
    | Some (r, ps) \<Rightarrow> \<exists>tbl. visit_prios g js d = Some (r, d\<lparr>dev_privs := ps, bssprio_tbl := tbl\<rparr>)
        \<and> tables_ok tbl \<and> map fst tbl = map fst (bssprio_tbl d)"
  using assms
proof (induction js arbitrary: d)
  case Nil
  then show ?case by (auto simp: order_of_def intro!: exI [of _ "bssprio_tbl d"])
next
  case (Cons j js)
  obtain l cur where jl: "bssprio_tbl d ! j = (l, cur)" by fastforce
  have j: "j < length (bssprio_tbl d)" using Cons.prems by simp
  then have cur: "cur \<le> length l" using Cons.prems(1) jl unfolding tables_ok_def
    by (metis (no_types, lifting) case_prodD nth_mem)
  show ?case
  proof (cases "l = []")
    case True
    then have "visit_prios g (j # js) d = visit_prios g js d"
      "order_of (bssprio_tbl d) (j # js) = order_of (bssprio_tbl d) js" using jl j by (simp_all add: order_of_Cons)
    then show ?thesis using Cons.IH [of d] Cons.prems by (simp only:) simp
  next
    case False
    define cu where "cu = (if cur = length l then 0 else cur)"
    define d0 where "d0 = d\<lparr>bssprio_tbl := (bssprio_tbl d)[j := (l, cu)]\<rparr>"
    have cu: "cu < length l" using cur False by (auto simp: cu_def)
    have rot: "rotate cur l = map (\<lambda>m. l ! ((cu + m) mod length l)) [0..<length l]"
      using rotate_map_mod [OF cur] by (auto simp: cu_def intro!: map_cong)
    have d0: "j < length (bssprio_tbl d0)" "bssprio_tbl d0 ! j = (l, cu)" "dev_privs d0 = dev_privs d"
      using j by (simp_all add: d0_def)
    have v: "visit_prios g (j # js) d = do {
        (r, d1) \<leftarrow> visit_bss g j (length l) d0; case r of Some x \<Rightarrow> Some (r, d1) | None \<Rightarrow> visit_prios g js d1 }"
      using jl j False by (simp add: d0_def cu_def)
    have o: "order_of (bssprio_tbl d) (j # js)
        = map (\<lambda>m. l ! ((cu + m) mod length l)) [0..<length l] @ order_of (bssprio_tbl d) js"
      using jl rot by (simp add: order_of_Cons)
    note ref = visit_bss_refines [OF d0(1,2) cu, of g "length l", unfolded d0(3)]
    show ?thesis
    proof (cases "visit_all g (map (\<lambda>m. l ! ((cu + m) mod length l)) [0..<length l]) (dev_privs d)")
      case None
      then show ?thesis using ref unfolding v o visit_all_append by simp
    next
      case (Some rps)
      obtain r ps where rps: "rps = (r, ps)" by fastforce
      from ref Some rps obtain c where c: "c < length l"
        "visit_bss g j (length l) d0 = Some (r, d0\<lparr>dev_privs := ps, bssprio_tbl := (bssprio_tbl d0)[j := (l, c)]\<rparr>)" by auto
      define d1 where "d1 = d\<lparr>dev_privs := ps, bssprio_tbl := (bssprio_tbl d)[j := (l, c)]\<rparr>"
      have b: "visit_bss g j (length l) d0 = Some (r, d1)" using c(2) by (simp add: d0_def d1_def)
      have f: "map fst ((bssprio_tbl d)[j := (l, c)]) = map fst (bssprio_tbl d)"
        using jl j by (simp add: map_update) (metis fst_conv list_update_id nth_map)
      have t: "tables_ok (bssprio_tbl d1)"
        using Cons.prems(1) c(1) unfolding tables_ok_def by (auto simp: d1_def dest!: subsetD [OF set_update_subset_insert])
      have js: "distinct js" "\<forall>i \<in> set js. i < length (bssprio_tbl d1)" "j \<notin> set js"
        using Cons.prems by (simp_all add: d1_def)
      have o1: "order_of (bssprio_tbl d1) js = order_of (bssprio_tbl d) js" "dev_privs d1 = ps"
        using order_of_update [OF js(3)] by (simp_all add: d1_def)
      show ?thesis
      proof (cases r)
        case None
        have "case visit_all g (order_of (bssprio_tbl d) js) ps of
            None \<Rightarrow> visit_prios g js d1 = None
          | Some (r, ps') \<Rightarrow> \<exists>tbl. visit_prios g js d1 = Some (r, d1\<lparr>dev_privs := ps', bssprio_tbl := tbl\<rparr>)
              \<and> tables_ok tbl \<and> map fst tbl = map fst (bssprio_tbl d1)"
          using Cons.IH [OF t js(1,2)] unfolding o1 .
        then show ?thesis
          using None b Some rps f unfolding v o visit_all_append by (auto simp: d1_def split: option.splits)
      next
        case (Some x)
        then show ?thesis
          using b \<open>visit_all g _ (dev_privs d) = Some rps\<close> rps f t unfolding v o visit_all_append
          by (auto simp: d1_def)
      qed
    qed
  qed
qed

lemma find_rev_upt: "find P (rev [0..<n]) = Some i \<Longrightarrow> i < n \<and> P i \<and> (\<forall>j. i < j \<and> j < n \<longrightarrow> \<not> P j)"
proof (induction n)
  case 0
  then show ?case by simp
next
  case (Suc n)
  then show ?case by (cases "P n") (auto simp: less_Suc_eq)
qed

lemma find_prios:
  "find P (prios_below h) = Some i \<Longrightarrow> int i \<le> sint h \<and> P i \<and> (\<forall>j. i < j \<and> int j \<le> sint h \<longrightarrow> \<not> P j)"
  unfolding prios_below_def by (drule find_rev_upt) auto

subsection \<open>What is chosen\<close>

text \<open>Interface \<open>p\<close> has nothing that may be sent at a priority it looks at.\<close>

definition idle_below :: "wmm_globals \<Rightarrow> mlan_private \<Rightarrow> bool" where
  "idle_below g p \<longleftrightarrow> (may_send p \<longrightarrow> (\<forall>i. int i \<le> sint (read_highest_prio p) \<longrightarrow> \<not> has_ready p (tos_to_tid g ! i)))"

definition chosen :: "wmm_globals \<Rightarrow> mlan_private \<Rightarrow> nat \<Rightarrow> nat \<Rightarrow> bool" where
  "chosen g p tid n \<longleftrightarrow> may_send p \<and> turn p tid = Some n
     \<and> (\<exists>i. tid = tos_to_tid g ! i \<and> int i \<le> sint (read_highest_prio p)
          \<and> (\<forall>j. i < j \<and> int j \<le> sint (read_highest_prio p) \<longrightarrow> \<not> has_ready p (tos_to_tid g ! j)))"

definition after_idle :: "mlan_private \<Rightarrow> mlan_private" where
  "after_idle p = (if may_send p then write_highest_prio (if read_tx_pkts_queued p \<noteq> 0 then HIGH_PRIO_TID else NO_PKT_PRIO_TID) p else p)"

lemma visit_priv_cases:
  assumes g: "prio_table g" and ok: "sched_ok p"
  obtains (idle) "idle_below g p" "visit_priv g p = Some (None, after_idle p)"
  | (found) tid n p1 where "chosen g p tid n" "visit_priv g p = Some (Some (tid, n), p1)"
proof (cases "if may_send p then find (\<lambda>i. has_ready p (tos_to_tid g ! i)) (prios_below (read_highest_prio p)) else None")
  case None
  have "idle_below g p"
    using None by (auto simp: idle_below_def find_None_iff prios_below_bound split: if_splits)
  moreover have "visit_priv g p = Some (None, after_idle p)"
    using None visit_priv_exact [OF g ok] by (simp add: after_idle_def)
  ultimately show thesis by (rule idle)
next
  case (Some i)
  then have m: "may_send p" and "find (\<lambda>i. has_ready p (tos_to_tid g ! i)) (prios_below (read_highest_prio p)) = Some i"
    by (auto split: if_splits)
  from find_prios [OF this(2)] have i: "int i \<le> sint (read_highest_prio p)"
    "\<forall>j. i < j \<and> int j \<le> sint (read_highest_prio p) \<longrightarrow> \<not> has_ready p (tos_to_tid g ! j)" by auto
  from Some visit_priv_exact [OF g ok] obtain n p1
    where "turn p (tos_to_tid g ! i) = Some n" "visit_priv g p = Some (Some (tos_to_tid g ! i, n), p1)" by auto
  with m i show thesis by (intro found) (auto simp: chosen_def)
qed

definition all_ok :: "mlan_private option list \<Rightarrow> nat list \<Rightarrow> bool" where
  "all_ok ps ks \<longleftrightarrow> (\<forall>k \<in> set ks. k < length ps \<and> (\<exists>p. ps ! k = Some p \<and> sched_ok p))"

lemma sched_ok_write [simp]:
  "sched_ok (write_highest_prio HIGH_PRIO_TID p) = cursor_ok p" "sched_ok (write_highest_prio NO_PKT_PRIO_TID p) = cursor_ok p"
  by (auto simp: sched_ok_def cursor_ok_def read_highest_prio_def write_highest_prio_def util_scalar_read_def
      util_scalar_write_def ras_def)

lemma sched_ok_after_idle: "sched_ok p \<Longrightarrow> sched_ok (after_idle p)"
  by (simp add: after_idle_def) (simp add: sched_ok_def)






lemma visit_all_Some:
  assumes g: "prio_table g"
  shows "all_ok ps ks \<Longrightarrow> distinct ks \<Longrightarrow> visit_all g ks ps = Some (Some (k, tid, n), ps') \<Longrightarrow>
    \<exists>ks1 ks2 p. ks = ks1 @ k # ks2 \<and> (\<forall>j \<in> set ks1. idle_below g (the (ps ! j)))
      \<and> ps ! k = Some p \<and> chosen g p tid n"
proof (induction ks arbitrary: ps)
  case Nil
  then show ?case by simp
next
  case (Cons k0 ks)
  then obtain p where p: "k0 < length ps" "ps ! k0 = Some p" "sched_ok p" by (auto simp: all_ok_def)
  show ?case
  using g p(3)
  proof (cases rule: visit_priv_cases)
    case idle
    let ?ps = "ps[k0 := Some (after_idle p)]"
    have ok: "all_ok ?ps ks"
      using Cons.prems(1) sched_ok_after_idle [OF p(3)] by (auto simp: all_ok_def nth_list_update)
    have "visit_all g ks ?ps = Some (Some (k, tid, n), ps')" using Cons.prems(3) idle p by simp
    from Cons.IH [OF ok _ this] Cons.prems(2) obtain ks1 ks2 q
      where ih: "ks = ks1 @ k # ks2" "\<forall>j \<in> set ks1. idle_below g (the (?ps ! j))" "?ps ! k = Some q" "chosen g q tid n" by auto
    have "k0 \<noteq> k" "k0 \<notin> set ks1" using Cons.prems(2) ih(1) by auto
    then have "\<forall>j \<in> set (k0 # ks1). idle_below g (the (ps ! j))" "ps ! k = Some q"
      using ih idle(1) p by (auto simp: nth_list_update split: if_splits)
    then show ?thesis using ih by (intro exI [of _ "k0 # ks1"] exI [of _ ks2] exI [of _ q]) auto
  next
    case (found tid' n' p1)
    then show ?thesis using p Cons.prems by (intro exI [of _ "[]"] exI [of _ ks] exI [of _ p]) auto
  qed
qed

subsection \<open>The properties\<close>

definition sched_inv :: "wmm_globals \<Rightarrow> mlan_device \<Rightarrow> bool" where
  "sched_inv g d \<longleftrightarrow> prio_table g \<and> tables_ok (bssprio_tbl d) \<and> length (dev_privs d) \<le> length (bssprio_tbl d)
     \<and> all_ok (dev_privs d) (interface_order d)"

lemma highest_visit:
  assumes "tables_ok (bssprio_tbl d)" "length (dev_privs d) \<le> length (bssprio_tbl d)"
  shows "case visit_all g (interface_order d) (dev_privs d) of
      None \<Rightarrow> wlan_wmm_get_highest_priolist_ptr g d = None
    | Some (r, ps) \<Rightarrow> \<exists>tbl. wlan_wmm_get_highest_priolist_ptr g d = Some (r, d\<lparr>dev_privs := ps, bssprio_tbl := tbl\<rparr>)
        \<and> tables_ok tbl \<and> map fst tbl = map fst (bssprio_tbl d)"
  unfolding wlan_wmm_get_highest_priolist_ptr_def interface_order_def
  by (rule visit_prios_refines) (use assms in auto)

text \<open>C22.  The nested loops that look for a packet (priorities of interfaces, the round over the interfaces of one
  priority, whose cursor moves on) visit the interfaces exactly in the order \<open>interface_order\<close> until one has something to
  send: the round-robin of each priority, starting at its cursor, higher priorities first.\<close>

theorem highest_priolist_order:
  assumes "tables_ok (bssprio_tbl d)" "length (dev_privs d) \<le> length (bssprio_tbl d)"
  shows "map_option (\<lambda>(r, d'). (r, dev_privs d')) (wlan_wmm_get_highest_priolist_ptr g d)
       = visit_all g (interface_order d) (dev_privs d)"
  using highest_visit [OF assms, of g] by (auto split: option.splits)

text \<open>C21.  What is chosen: the first interface in order that may send and has a packet at a priority it looks at; of it the
  highest such priority; of that priority's receivers the next in turn that is not paused and has a packet.\<close>

theorem highest_priolist_choice:
  assumes inv: "sched_inv g d" and dist: "distinct (interface_order d)"
    and r: "wlan_wmm_get_highest_priolist_ptr g d = Some (Some (k, tid, n), d')"
  shows "\<exists>ks1 ks2 p. interface_order d = ks1 @ k # ks2 \<and> (\<forall>j \<in> set ks1. idle_below g (the (dev_privs d ! j)))
      \<and> dev_privs d ! k = Some p \<and> chosen g p tid n \<and> n < length (ras p tid) \<and> ready_node (ras p tid ! n)"
proof -
  have g: "prio_table g" and ok: "all_ok (dev_privs d) (interface_order d)" and t: "tables_ok (bssprio_tbl d)"
    "length (dev_privs d) \<le> length (bssprio_tbl d)" using inv by (auto simp: sched_inv_def)
  have "visit_all g (interface_order d) (dev_privs d) = Some (Some (k, tid, n), dev_privs d')"
    using highest_visit [OF t, of g] r by (auto split: option.splits)
  from visit_all_Some [OF g ok dist this] show ?thesis using turn_Some unfolding chosen_def by fast
qed











end
