(* ===== verification/Tx_Send_Props.thy ===== *)
theory Tx_Send_Props
  imports Tx_Sched_Props
begin

text \<open>
  What sending does to a packet and to the accounts of the queues: what becomes of one packet, that the counters stay right
  when nobody interferes, and the two races in which they do not.
\<close>

subsection \<open>The device\<close>

lemma device_simps [simp]:
  "dev_privs (demit cs d) = dev_privs d" "bssprio_tbl (demit cs d) = bssprio_tbl d"
  "dev_adapter (demit cs d) = dev_adapter d" "dev_calls (demit cs d) = dev_calls d @ cs"
  "dev_privs (upd_adapter f d) = dev_privs d" "bssprio_tbl (upd_adapter f d) = bssprio_tbl d"
  "dev_adapter (upd_adapter f d) = f (dev_adapter d)" "dev_calls (upd_adapter f d) = dev_calls d"
  "dev_privs (tx_failed d) = dev_privs d" "bssprio_tbl (tx_failed d) = bssprio_tbl d" "dev_calls (tx_failed d) = dev_calls d"
  by (simp_all add: demit_def upd_adapter_def tx_failed_def)

lemma the_priv_cong: "dev_privs d' = dev_privs d \<Longrightarrow> the_priv k d' = the_priv k d"
  by (simp add: the_priv_def)

lemma the_priv_Some: "the_priv k d = Some p \<longleftrightarrow> k < length (dev_privs d) \<and> dev_privs d ! k = Some p"
  by (auto simp: the_priv_def)

lemma upd_priv_simps [simp]:
  "bssprio_tbl (upd_priv k f d) = bssprio_tbl d" "dev_adapter (upd_priv k f d) = dev_adapter d"
  "dev_calls (upd_priv k f d) = dev_calls d"
  by (simp_all add: upd_priv_def split: option.split)

lemma the_upd_priv: "the_priv k d = Some p \<Longrightarrow> the_priv k (upd_priv k f d) = Some (f p)"
  unfolding upd_priv_def the_priv_def by (auto split: if_splits)

lemma dev_privs_upd: "the_priv k d = Some p \<Longrightarrow> dev_privs (upd_priv k f d) = (dev_privs d)[k := Some (f p)]"
  by (simp add: upd_priv_def)

lemma last_packet_frame [simp]:
  "dev_privs (snd (wlan_check_last_packet_indication d)) = dev_privs d"
  "bssprio_tbl (snd (wlan_check_last_packet_indication d)) = bssprio_tbl d"
  "dev_calls (snd (wlan_check_last_packet_indication d)) = dev_calls d"
  by (simp_all add: wlan_check_last_packet_indication_def Let_def)

lemma sta_txpd_frame:
  "wlan_ops_sta_process_txpd base p b d = Some (h, b1, d1)
    \<Longrightarrow> dev_privs d1 = dev_privs d \<and> bssprio_tbl d1 = bssprio_tbl d \<and> dev_calls d1 = dev_calls d"
  using last_packet_frame [of d]
  unfolding wlan_ops_sta_process_txpd_def Let_def
  by (auto simp: monad_simps split: if_splits prod.splits simp del: last_packet_frame)

lemma uap_txpd_frame: "wlan_ops_uap_process_txpd base p b d = Some (h, b1, d1) \<Longrightarrow> d1 = d"
  unfolding wlan_ops_uap_process_txpd_def Let_def by (auto simp: monad_simps split: if_splits)

text \<open>The descriptor functions as one, as \<^verbatim>\<open>wlan_process_tx\<close> calls them.\<close>

definition process_txpd :: "(mlan_buffer \<Rightarrow> nat) \<Rightarrow> mlan_private \<Rightarrow> mlan_buffer \<Rightarrow> mlan_device
    \<Rightarrow> (nat option \<times> mlan_buffer \<times> mlan_device) option" where
  "process_txpd base p b d = (if bss_role p = MLAN_BSS_ROLE_STA then wlan_ops_sta_process_txpd (base b) p b d
                        else wlan_ops_uap_process_txpd (base b) p b d)"

lemma process_txpd_frame:
  "process_txpd base p b d = Some (h, b1, d1)
    \<Longrightarrow> dev_privs d1 = dev_privs d \<and> bssprio_tbl d1 = bssprio_tbl d \<and> dev_calls d1 = dev_calls d"
  unfolding process_txpd_def using sta_txpd_frame uap_txpd_frame by (metis (no_types, lifting))

text \<open>The packet \<open>b0\<close> with its descriptor (at \<open>h\<close>, if it fits), what the card answers, and the calls made.\<close>

lemma process_tx_cases:
  assumes "wlan_process_tx base h2c k b next_len d = Some (st, b1, d1)"
  obtains p h b0 d0 where "the_priv k d = Some p" "process_txpd base p b d = Some (h, b0, d0)"
    "dev_privs d1 = dev_privs d" "bssprio_tbl d1 = bssprio_tbl d"
    "dev_calls d1 = dev_calls d @ (if h = None then [] else [Call_wlan_sdio_host_to_card b0 next_len])
       @ (if st \<in> {MLAN_STATUS_SUCCESS, MLAN_STATUS_FAILURE} then [Call_wlan_write_data_complete b1 st] else [])"
    "st \<noteq> MLAN_STATUS_RESOURCE \<Longrightarrow> b1 = b0" "\<exists>m. b1 = b0\<lparr>pbuf := m\<rparr>"
    "st = (if h = None then MLAN_STATUS_FAILURE else fst (h2c b0 (dev_adapter d0)))"
proof -
  from assms obtain p h b0 d0 where p: "the_priv k d = Some p" and t: "process_txpd base p b d = Some (h, b0, d0)"
    unfolding wlan_process_tx_def process_txpd_def by (auto simp: monad_simps)
  note f = process_txpd_frame [OF t]
  have self: "\<exists>m. b0 = b0\<lparr>pbuf := m\<rparr>" by (rule exI [of _ "pbuf b0"]) simp
  obtain ret ad where r: "h2c b0 (dev_adapter d0) = (ret, ad)" by fastforce
  have "dev_privs d1 = dev_privs d \<and> bssprio_tbl d1 = bssprio_tbl d
        \<and> dev_calls d1 = dev_calls d @ (if h = None then [] else [Call_wlan_sdio_host_to_card b0 next_len])
             @ (if st \<in> {MLAN_STATUS_SUCCESS, MLAN_STATUS_FAILURE} then [Call_wlan_write_data_complete b1 st] else [])
        \<and> (st \<noteq> MLAN_STATUS_RESOURCE \<longrightarrow> b1 = b0) \<and> (\<exists>m. b1 = b0\<lparr>pbuf := m\<rparr>)
        \<and> st = (if h = None then MLAN_STATUS_FAILURE else fst (h2c b0 (dev_adapter d0)))"
  proof (cases h)
    case None
    then show ?thesis
      using assms p f self unfolding wlan_process_tx_def by (auto simp: t [unfolded process_txpd_def])
  next
    case (Some hd)
    then show ?thesis
      using assms p f r self unfolding wlan_process_tx_def
      by (cases ret) (auto simp: t [unfolded process_txpd_def] monad_simps split: if_splits)
  qed
  with p t that show thesis by blast
qed

text \<open>What becomes of a packet that is sent: the interfaces are as before; if the descriptor did not fit, the packet
  never reaches the card and is completed as failed; otherwise it is handed to the card once, and by the card's answer it is
  completed with that status (success, failure), stays with the card (pending), or is the caller's again (resource) with
  only the flags of its descriptor cleared.\<close>

theorem process_tx_fate:
  assumes "wlan_process_tx base h2c k b next_len d = Some (st, b1, d1)"
  shows "dev_privs d1 = dev_privs d \<and> bssprio_tbl d1 = bssprio_tbl d
    \<and> (\<exists>p h b0 d0. the_priv k d = Some p
        \<and> (if bss_role p = MLAN_BSS_ROLE_STA then wlan_ops_sta_process_txpd (base b) p b d
           else wlan_ops_uap_process_txpd (base b) p b d) = Some (h, b0, d0)
        \<and> dev_calls d1 = dev_calls d @ (if h = None then [] else [Call_wlan_sdio_host_to_card b0 next_len])
             @ (if st \<in> {MLAN_STATUS_SUCCESS, MLAN_STATUS_FAILURE} then [Call_wlan_write_data_complete b1 st] else [])
        \<and> (st \<noteq> MLAN_STATUS_RESOURCE \<longrightarrow> b1 = b0) \<and> (\<exists>m. b1 = b0\<lparr>pbuf := m\<rparr>)
        \<and> st = (if h = None then MLAN_STATUS_FAILURE else fst (h2c b0 (dev_adapter d0))))"
  using process_tx_cases [OF assms] unfolding process_txpd_def by metis

subsection \<open>One packet and the accounts\<close>

lemma wmm_packets_out [simp]: "ras (upd_wmm (\<lambda>w. w\<lparr>packets_out := x w\<rparr>) p) tid = ras p tid"
  by (simp add: ras_def)

lemma ra_pos_Some: "ra_pos p tid a = Some n \<Longrightarrow> n < length (ras p tid) \<and> ra_addr (ras p tid ! n) = a"
  unfolding ra_pos_def using find_index_SomeD by fastforce

lemma take_head_ras:
  assumes "acct d p" "tid < MAX_NUM_TID"
  shows "ras (take_head tid n p) k = (if k = tid then (ras p tid)[n := (ras p tid ! n)\<lparr>buf_head := tl (buf_head (ras p tid ! n)),
      total_pkts := total_pkts (ras p tid ! n) - 1\<rparr>] else ras p k)"
  using acct_len [OF assms(1)] assms(2) by (auto simp: take_head_def dec_tx_pkts_queued_def ras_def upd_defs)

lemma acct_take_head:
  assumes a: "acct d p" and tid: "tid < MAX_NUM_TID" and n: "n < length (ras p tid)" and r: "ready_node (ras p tid ! n)"
  shows "acct d (take_head tid n p)"
proof -
  define r where "r = ras p tid ! n"
  define r' where "r' = r\<lparr>buf_head := tl (buf_head r), total_pkts := total_pkts r - 1\<rparr>"
  define t' where "t' = (tid_tbl_ptr (wmm p) ! tid)\<lparr>ra_list := (ras p tid)[n := r']\<rparr>"
  obtain b bs where b: "buf_head r = b # bs" using r unfolding r_def ready_node_def by (cases "buf_head (ras p tid ! n)") auto
  have ok: "node_ok r" using node_okD [OF a tid] n by (simp add: r_def)
  have ok': "node_ok r'" using ok node_cnt_pred(1) [OF ok b] b by (simp add: node_ok_def r'_def)
  have c: "node_cnt r' = node_cnt r - 1" using node_cnt_pred(2) [OF ok b] by (simp add: node_cnt_def r'_def)
  have tp: "\<not> tx_pause r'" "\<not> tx_pause r" using r by (simp_all add: r'_def r_def ready_node_def)
  have sums: "queued_sum (ra_list t') = queued_sum (ras p tid) + - 1"
    "paused_sum (ra_list t') = paused_sum (ras p tid) + 0" "ready_sum (ra_list t') = ready_sum (ras p tid) + - 1"
    using sums_update [OF n, of r'] c tp by (simp_all add: t'_def r_def)
  show ?thesis
    using sums node_ok_update [OF a tid ok']
    by (intro acct_diff [where t' = t' and dq = "- 1" and dp = 0 and dr = "- 1", OF a tid])
      (simp_all add: take_head_def dec_tx_pkts_queued_def upd_defs t'_def r'_def r_def ras_def)
qed

lemma put_back_ras:
  assumes "acct d p" "tid < MAX_NUM_TID"
  shows "ras (put_back tid n b p) k = (if k = tid then (ras p tid)[n := (ras p tid ! n)\<lparr>
      buf_head := b\<lparr>buf_flags := buf_flags b OR MLAN_BUF_FLAG_REQUEUED_PKT\<rparr> # buf_head (ras p tid ! n),
      total_pkts := total_pkts (ras p tid ! n) + 1\<rparr>] else ras p k)"
  using acct_len [OF assms(1)] assms(2) by (auto simp: put_back_def inc_tx_pkts_queued_def ras_def upd_defs)

text \<open>Putting a packet back adds one to what may be sent; for a node that is paused by now that is one too many.\<close>

lemma acct_put_back:
  assumes a: "acct d p" and tid: "tid < MAX_NUM_TID" and n: "n < length (ras p tid)"
    and room: "length (buf_head (ras p tid ! n)) < 65535"
  shows "\<not> tx_pause (ras p tid ! n) \<Longrightarrow> acct d (put_back tid n b p)"
    "tx_pause (ras p tid ! n) \<Longrightarrow> ready_sum (ras (put_back tid n b p) tid) = ready_sum (ras p tid)"
    "paused_sum (ras (put_back tid n b p) tid) = paused_sum (ras p tid) + (if tx_pause (ras p tid ! n) then 1 else 0)"
proof -
  define r where "r = ras p tid ! n"
  define r' where "r' = r\<lparr>buf_head := b\<lparr>buf_flags := buf_flags b OR MLAN_BUF_FLAG_REQUEUED_PKT\<rparr> # buf_head r,
      total_pkts := total_pkts r + 1\<rparr>"
  define t' where "t' = (tid_tbl_ptr (wmm p) ! tid)\<lparr>ra_list := (ras p tid)[n := r']\<rparr>"
  have ok: "node_ok r" using node_okD [OF a tid] n by (simp add: r_def)
  have ok': "node_ok r'" using ok room by (simp add: node_ok_def r'_def r_def)
  have c: "node_cnt r' = node_cnt r + 1"
    using ok room ucast_succ by (simp add: node_cnt_def r'_def node_ok_def r_def)
  have tp: "tx_pause r' = tx_pause r" by (simp add: r'_def)
  have sums: "queued_sum (ra_list t') = queued_sum (ras p tid) + 1"
    "paused_sum (ra_list t') = paused_sum (ras p tid) + (if tx_pause r then 1 else 0)"
    "ready_sum (ra_list t') = ready_sum (ras p tid) + (if tx_pause r then 0 else 1)"
    using sums_update [OF n, of r'] c tp by (simp_all add: t'_def r_def)
  have t: "ras (put_back tid n b p) tid = ra_list t'" using put_back_ras [OF a tid] by (simp add: t'_def r'_def r_def)
  show "acct d (put_back tid n b p)" if "\<not> tx_pause (ras p tid ! n)"
    using sums node_ok_update [OF a tid ok'] that
    by (intro acct_diff [where t' = t' and dq = 1 and dp = 0 and dr = 1, OF a tid])
      (simp_all add: put_back_def inc_tx_pkts_queued_def upd_defs t'_def r'_def r_def ras_def)
  show "ready_sum (ras (put_back tid n b p) tid) = ready_sum (ras p tid)" if "tx_pause (ras p tid ! n)"
    using sums that t by (simp add: r_def)
  show "paused_sum (ras (put_back tid n b p) tid) = paused_sum (ras p tid) + (if tx_pause (ras p tid ! n) then 1 else 0)"
    using sums t by (simp add: r_def)
qed

lemma count_out_ras: "length (tid_tbl_ptr (wmm p)) = MAX_NUM_TID \<Longrightarrow> tid < MAX_NUM_TID \<Longrightarrow> ras (count_out tid a p) k = ras p k"
  by (cases "k = tid") (auto simp: count_out_def ras_def upd_defs)

lemma acct_count_out: "acct d p \<Longrightarrow> tid < MAX_NUM_TID \<Longrightarrow> acct d (count_out tid a p)"
  using count_out_ras [of p tid a] by (simp add: acct_def) (simp add: count_out_def upd_defs)

lemma update_same_ra:
  "n < length rs \<Longrightarrow> ra r' = ra (rs ! n) \<Longrightarrow> map ra (rs[n := r']) = map ra rs"
  "n < length rs \<Longrightarrow> ra_addr r' = ra_addr (rs ! n) \<Longrightarrow> find_index (\<lambda>r. ra_addr r = a) (rs[n := r']) = find_index (\<lambda>r. ra_addr r = a) rs"
  by (auto simp: map_update find_index_update) (metis list_update_id map_update)

lemma next_bss_simps [simp]:
  "dev_privs (next_bss j d) = dev_privs d" "dev_calls (next_bss j d) = dev_calls d" "dev_adapter (next_bss j d) = dev_adapter d"
  by (simp_all add: next_bss_def split: prod.split)

lemma process_tx_privs: "wlan_process_tx base h2c k b l d = Some (st, b1, d1) \<Longrightarrow> dev_privs d1 = dev_privs d"
  by (erule process_tx_cases) simp

text \<open>C15.  Sending the packet at the head of a receiver that may send, undisturbed: all counters still agree with the queues,
  and of all queues only this one changed: the packet is gone, or, when the card had no room, it is back at the head and
  marked as prepared; only a packet that is gone lets the next receiver have its turn.\<close>

theorem send_single_keeps_accounts:
  assumes p: "the_priv k d = Some p" and inv: "wmm_inv p" and tid: "tid < MAX_NUM_TID"
    and n: "ra_pos p tid a = Some n" and r: "\<not> tx_pause (ras p tid ! n)" and b: "buf_head (ras p tid ! n) = b # bs"
    and sent: "wlan_process_tx base h2c k b (next_pkt_len bs) (upd_priv k (take_head tid n) d) = Some (st, b1, d1)"
  shows "\<exists>d' p'. wlan_send_single_packet base h2c (\<lambda>d. d) k a tid d = Some d' \<and> the_priv k d' = Some p' \<and> wmm_inv p'
    \<and> dev_calls d' = dev_calls d1
    \<and> (\<forall>i < MAX_NUM_TID. \<forall>j. queue_at p' i j = (if i = tid \<and> j = n
         then (if st = MLAN_STATUS_RESOURCE then [b1\<lparr>buf_flags := buf_flags b1 OR MLAN_BUF_FLAG_REQUEUED_PKT\<rparr>] else []) @ bs
         else queue_at p i j))
    \<and> ra_list_curr (tid_tbl_ptr (wmm p') ! tid)
        = (if st = MLAN_STATUS_RESOURCE then ra_list_curr (tid_tbl_ptr (wmm p) ! tid) else Ra_node a)"
proof -
  have a: "acct 0 p" and u: "ra_unique p" using inv by (simp_all add: wmm_inv_def)
  have nl: "n < length (ras p tid)" "ra_addr (ras p tid ! n) = a" using ra_pos_Some [OF n] by auto
  have rdy: "ready_node (ras p tid ! n)" using r b by (simp add: ready_node_def)
  define q where "q = take_head tid n p"
  have q: "acct 0 q" unfolding q_def by (rule acct_take_head [OF a tid nl(1) rdy])
  define hd' where "hd' = (ras p tid ! n)\<lparr>buf_head := bs, total_pkts := total_pkts (ras p tid ! n) - 1\<rparr>"
  have rq: "ras q i = (if i = tid then (ras p tid)[n := hd'] else ras p i)" for i
    using take_head_ras [OF a tid] b by (simp add: q_def hd'_def)
  have nq: "ra_pos q tid a = Some n" using n nl unfolding ra_pos_def rq by (simp add: update_same_ra hd'_def)
  have uq: "ra_unique q" using u nl tid unfolding ra_unique_def rq by (simp add: update_same_ra hd'_def)
  have d1: "the_priv k d1 = Some q"
    unfolding the_priv_cong [OF process_tx_privs [OF sent]] q_def by (rule the_upd_priv [OF p])
  have len: "length (tid_tbl_ptr (wmm p)) = MAX_NUM_TID" "length (tid_tbl_ptr (wmm q)) = MAX_NUM_TID"
    using acct_len a q by blast+
  have cur: "ra_list_curr (tid_tbl_ptr (wmm q) ! tid) = ra_list_curr (tid_tbl_ptr (wmm p) ! tid)"
    using len tid by (simp add: q_def take_head_def dec_tx_pkts_queued_def upd_defs)
  have lq: "length (buf_head (ras p tid ! n)) < 65536" using node_okD [OF a tid] nl(1) by (simp add: node_ok_def)
  show ?thesis
  proof (cases "st = MLAN_STATUS_RESOURCE")
    case True
    define p' where "p' = put_back tid n b1 q"
    have res: "wlan_send_single_packet base h2c (\<lambda>d. d) k a tid d = Some (upd_priv k (put_back tid n b1) d1)"
      using p n b sent d1 nq True by (simp add: wlan_send_single_packet_def)
    have room: "length (buf_head (ras q tid ! n)) < 65535" "\<not> tx_pause (ras q tid ! n)" "n < length (ras q tid)"
      using lq b r nl(1) by (simp_all add: rq hd'_def)
    have a': "acct 0 p'" unfolding p'_def by (rule acct_put_back(1) [OF q tid room(3,1,2)])
    have rp: "ras p' i = (if i = tid then (ras q tid)[n := (ras q tid ! n)\<lparr>
      buf_head := b1\<lparr>buf_flags := buf_flags b1 OR MLAN_BUF_FLAG_REQUEUED_PKT\<rparr> # buf_head (ras q tid ! n),
      total_pkts := total_pkts (ras q tid ! n) + 1\<rparr>] else ras q i)" for i
      unfolding p'_def by (rule put_back_ras [OF q tid])
    have "ra_unique p'" using uq room(3) tid unfolding ra_unique_def rp by (simp add: update_same_ra)
    moreover have "ra_list_curr (tid_tbl_ptr (wmm p') ! tid) = ra_list_curr (tid_tbl_ptr (wmm q) ! tid)"
      using len tid by (simp add: p'_def put_back_def inc_tx_pkts_queued_def upd_defs)
    moreover have "queue_at p' i j = (if i = tid \<and> j = n
         then b1\<lparr>buf_flags := buf_flags b1 OR MLAN_BUF_FLAG_REQUEUED_PKT\<rparr> # bs else queue_at p i j)" for i j
      using nl(1) unfolding queue_at_def rp rq by (auto simp: hd'_def nth_list_update)
    moreover have "the_priv k (upd_priv k (put_back tid n b1) d1) = Some p'"
      unfolding p'_def by (rule the_upd_priv [OF d1])
    ultimately show ?thesis
      using res a' True cur
      by (intro exI [of _ "upd_priv k (put_back tid n b1) d1"] exI [of _ p']) (simp add: wmm_inv_def)
  next
    case False
    define p' where "p' = count_out tid a q"
    have res: "wlan_send_single_packet base h2c (\<lambda>d. d) k a tid d = Some (next_bss (bss_priority p) (upd_priv k (count_out tid a) d1))"
      using p n b sent d1 nq False by (simp add: wlan_send_single_packet_def)
    have rp: "ras p' i = ras q i" for i unfolding p'_def by (rule count_out_ras [OF len(2) tid])
    have "acct 0 p'" unfolding p'_def by (rule acct_count_out [OF q tid])
    moreover have "ra_unique p'" using uq unfolding ra_unique_def rp .
    moreover have "ra_list_curr (tid_tbl_ptr (wmm p') ! tid) = Ra_node a"
      using len tid by (simp add: p'_def count_out_def upd_defs)
    moreover have "queue_at p' i j = (if i = tid \<and> j = n then bs else queue_at p i j)" for i j
      using nl(1) unfolding queue_at_def rp rq by (auto simp: hd'_def nth_list_update)
    moreover have "the_priv k (next_bss (bss_priority p) (upd_priv k (count_out tid a) d1)) = Some p'"
      unfolding the_priv_cong [OF next_bss_simps(1)] p'_def by (rule the_upd_priv [OF d1])
    ultimately show ?thesis
      using res False
      by (intro exI [of _ "next_bss (bss_priority p) (upd_priv k (count_out tid a) d1)"] exI [of _ p']) (simp add: wmm_inv_def)
  qed
qed

subsection \<open>Two races\<close>

text \<open>The lock is given up while the packet is sent.  If the receiver is paused meanwhile and the card has no room, the
  packet comes back to a paused queue, but it is counted as one that may be sent and not as paused: from then on the
  counter of what may be sent is one too high and the paused counter of the TID one too low.\<close>

theorem requeue_to_paused_receiver_miscounts:
  assumes p: "the_priv k d = Some p" and n: "ra_pos p tid a = Some n" and b: "buf_head (ras p tid ! n) = b # bs"
    and tid: "tid < MAX_NUM_TID"
    and sent: "wlan_process_tx base h2c k b (next_pkt_len bs) (upd_priv k (take_head tid n) d) = Some (MLAN_STATUS_RESOURCE, b1, d1)"
    and q: "the_priv k (env d1) = Some q" and inv: "wmm_inv q" and m: "ra_pos q tid a = Some m"
    and paused: "tx_pause (ras q tid ! m)" and room: "length (buf_head (ras q tid ! m)) < 65535"
  shows "\<exists>d' p'. wlan_send_single_packet base h2c env k a tid d = Some d' \<and> the_priv k d' = Some p'
    \<and> read_tx_pkts_queued p' = (\<Sum>i < MAX_NUM_TID. ready_sum (ras p' i)) + 1
    \<and> pkts_paused (wmm p') ! tid = paused_sum (ras p' tid) - 1"
proof -
  have a: "acct 0 q" using inv by (simp add: wmm_inv_def)
  have ml: "m < length (ras q tid)" using ra_pos_Some [OF m] by simp
  define p' where "p' = put_back tid m b1 q"
  have res: "wlan_send_single_packet base h2c env k a tid d = Some (upd_priv k (put_back tid m b1) (env d1))"
    using p n b sent q m by (simp add: wlan_send_single_packet_def)
  have p': "the_priv k (upd_priv k (put_back tid m b1) (env d1)) = Some p'" unfolding p'_def by (rule the_upd_priv [OF q])
  note pb = acct_put_back [OF a tid ml room, of b1]
  have rs: "ready_sum (ras p' i) = ready_sum (ras q i)" for i
    using pb(2) [OF paused] put_back_ras [OF a tid] by (cases "i = tid") (simp_all add: p'_def)
  have "read_tx_pkts_queued p' = read_tx_pkts_queued q + 1"
    by (simp add: p'_def put_back_def inc_tx_pkts_queued_def upd_defs)
  also have "read_tx_pkts_queued q = (\<Sum>i < MAX_NUM_TID. ready_sum (ras p' i))"
    unfolding rs using a by (simp only: acct_def read_tx_pkts_queued_def util_scalar_read_def fst_conv) simp
  finally have t: "read_tx_pkts_queued p' = (\<Sum>i < MAX_NUM_TID. ready_sum (ras p' i)) + 1" .
  have "pkts_paused (wmm p') ! tid = pkts_paused (wmm q) ! tid"
    by (simp add: p'_def put_back_def inc_tx_pkts_queued_def upd_defs)
  also have "\<dots> = paused_sum (ras p' tid) - 1"
    using pb(3) paused a tid by (simp add: p'_def acct_def)
  finally show ?thesis using res p' t by blast
qed

text \<open>A packet that was prepared before stays in the counters while it is sent.  If its receiver is removed meanwhile, the
  removal takes it out of the counters with the rest of the receiver's packets, and the sender takes it out again: the
  counters of what is queued and of what may be sent are one too low, below zero when nothing else is queued.\<close>

theorem processed_packet_of_removed_receiver_miscounts:
  assumes p: "the_priv k d = Some p" and n: "ra_pos p tid a = Some n" and b: "buf_head (ras p tid ! n) = b # bs"
    and tid: "tid < MAX_NUM_TID"
    and sent: "h2c b (dev_adapter d) = (ret, ad)" "ret \<noteq> MLAN_STATUS_RESOURCE"
    and d1: "d1 = demit [Call_wlan_sdio_host_to_card b (next_pkt_len bs)]
       ((upd_priv k (upd_ra tid n (\<lambda>r. r\<lparr>buf_head := bs\<rparr>)) d)\<lparr>dev_adapter := ad\<rparr>)"
    and q: "the_priv k (env d1) = Some q" and inv: "wmm_inv q" and m: "ra_pos q tid a = None"
  shows "\<exists>d' p'. wlan_send_processed_packet h2c env k a tid d = Some d' \<and> the_priv k d' = Some p'
    \<and> read_tx_pkts_queued p' = (\<Sum>i < MAX_NUM_TID. ready_sum (ras p' i)) - 1
    \<and> pkts_queued (wmm p') ! tid = queued_sum (ras p' tid) - 1"
proof -
  have a: "acct 0 q" using inv by (simp add: wmm_inv_def)
  define f where "f = (\<lambda>q. dec_tx_pkts_queued (add_queued tid (- 1) q))"
  define d3 where "d3 = (case ret of
                         MLAN_STATUS_FAILURE \<Rightarrow> demit [Call_wlan_write_data_complete b ret] (tx_failed (env d1))
                       | MLAN_STATUS_SUCCESS \<Rightarrow> demit [Call_wlan_write_data_complete b ret] (env d1)
                       | _ \<Rightarrow> env d1)"
  have res: "wlan_send_processed_packet h2c env k a tid d = Some (upd_priv k f (next_bss (bss_priority p) d3))"
    using p n b sent q m unfolding f_def d3_def d1 by (simp add: wlan_send_processed_packet_def Let_def)
  have "dev_privs (next_bss (bss_priority p) d3) = dev_privs (env d1)" by (simp add: d3_def split: mlan_status.split)
  then have "the_priv k (next_bss (bss_priority p) d3) = Some q" using q the_priv_cong by metis
  then have p': "the_priv k (upd_priv k f (next_bss (bss_priority p) d3)) = Some (f q)" by (rule the_upd_priv)
  have rs: "ras (f q) i = ras q i" for i by (simp add: f_def dec_tx_pkts_queued_def upd_defs ras_def)
  have "read_tx_pkts_queued (f q) = read_tx_pkts_queued q - 1"
    by (simp add: f_def dec_tx_pkts_queued_def upd_defs)
  also have "read_tx_pkts_queued q = (\<Sum>i < MAX_NUM_TID. ready_sum (ras (f q) i))"
    unfolding rs using a by (simp only: acct_def read_tx_pkts_queued_def util_scalar_read_def fst_conv) simp
  finally have t: "read_tx_pkts_queued (f q) = (\<Sum>i < MAX_NUM_TID. ready_sum (ras (f q) i)) - 1" .
  have "pkts_queued (wmm (f q)) ! tid = queued_sum (ras (f q) tid) - 1"
    using a tid unfolding rs by (simp add: f_def dec_tx_pkts_queued_def upd_defs acct_def)
  then show ?thesis using res p' t by blast
qed

end
