(* ===== verification/Tx_Path_Props.thy ===== *)
theory Tx_Path_Props
  imports Tx_Send_Props
begin

text \<open>
  The transmit descriptor in memory, and the queue of packets that bypass the WMM queues.
\<close>

subsection \<open>The descriptor\<close>

lemma txpd_bytes_length [simp]: "length (txpd_bytes t) = SIZEOF_TXPD"
  by (simp add: txpd_bytes_def)

lemma txpd_head_bounds:
  assumes "data_offset b \<ge> SIZEOF_TXPD + intf_hr_len p + DMA_ALIGNMENT"
  shows "txpd_head base p b + intf_hr_len p + SIZEOF_TXPD \<le> data_offset b"
    "(base + txpd_head base p b) mod DMA_ALIGNMENT = 0" "data_offset b < txpd_head base p b + intf_hr_len p + SIZEOF_TXPD + DMA_ALIGNMENT"
proof -
  define a where "a = base + data_offset b - SIZEOF_TXPD - intf_hr_len p"
  have m: "a mod DMA_ALIGNMENT < DMA_ALIGNMENT" by simp
  have a: "a \<ge> base + DMA_ALIGNMENT" using assms by (simp add: a_def)
  have h: "txpd_head base p b = a - a mod DMA_ALIGNMENT - base" by (simp add: txpd_head_def a_def Let_def)
  have h': "base + txpd_head base p b = a - a mod DMA_ALIGNMENT" using m a unfolding h by linarith
  show "txpd_head base p b + intf_hr_len p + SIZEOF_TXPD \<le> data_offset b"
    "data_offset b < txpd_head base p b + intf_hr_len p + SIZEOF_TXPD + DMA_ALIGNMENT"
    using h' m a assms unfolding a_def by linarith+
  show "(base + txpd_head base p b) mod DMA_ALIGNMENT = 0"
    unfolding h' by (simp add: minus_mod_eq_mult_div)
qed

lemma wr_keeps_tail: "wr mem off bs = Some mem' \<Longrightarrow> off + length bs \<le> n \<Longrightarrow> drop n mem' = drop n mem"
  by (auto simp: monad_simps)

lemma wr_in: "off + length bs \<le> length mem \<Longrightarrow> \<exists>mem'. wr mem off bs = Some mem'"
  by (simp add: wr_def)

text \<open>The fields at their places in the descriptor.\<close>

lemma txpd_field:
  assumes "wr mem off (txpd_bytes t) = Some mem'"
  shows "rd mem' (off + 2) 2 = Some (le16_bytes (tx_pkt_length t))" "rd mem' (off + 4) 2 = Some (le16_bytes (tx_pkt_offset t))"
    "rd mem' (off + 12) 2 = Some [txpd_priority t, txpd_flags t]"
proof -
  have m: "off + SIZEOF_TXPD \<le> length mem" "mem' = take off mem @ txpd_bytes t @ drop (off + SIZEOF_TXPD) mem"
    using assms by (simp_all add: wr_Some)
  have l: "length (take off mem) = off" using m(1) by simp
  show "rd mem' (off + 2) 2 = Some (le16_bytes (tx_pkt_length t))"
    "rd mem' (off + 4) 2 = Some (le16_bytes (tx_pkt_offset t))" "rd mem' (off + 12) 2 = Some [txpd_priority t, txpd_flags t]"
    using m(1) l unfolding m(2) rd_def
    by (simp_all add: txpd_bytes_def le16_bytes_def le32_bytes_def)
qed

lemma fill_txpd_length: "tx_pkt_length (fill_txpd ad p b raw f h) = of_nat (data_len b)"
  and fill_txpd_offset: "tx_pkt_offset (fill_txpd ad p b raw f h) = of_nat (data_offset b - (h + intf_hr_len p))"
  by (simp_all add: fill_txpd_def apply_tx_ctrl_def Let_def)

text \<open>What both kinds of interface do, apart from the flags and the adapter.\<close>

lemma process_txpd_layout:
  assumes t: "process_txpd base p b0 d = Some (Some h, b', d')" and raw: "strip_raw b0 = Some (b, raw)"
  shows "h = txpd_head (base b0) p b" "data_offset b \<ge> SIZEOF_TXPD + intf_hr_len p + DMA_ALIGNMENT"
    "\<exists>f. wr (pbuf b) (h + intf_hr_len p) (txpd_bytes (fill_txpd (dev_adapter d) p b raw f h)) = Some (pbuf b')"
    "b' = b\<lparr>pbuf := pbuf b', data_len := data_len b + data_offset b - h, data_offset := h\<rparr>"
  using t raw unfolding process_txpd_def wlan_ops_sta_process_txpd_def wlan_ops_uap_process_txpd_def Let_def
  by (auto split: if_splits prod.splits option.split_asm bind_splits)

text \<open>The descriptor of a packet that is accepted (on either kind of interface): the head lies on a 32-byte boundary, the
  descriptor lies between it and the packet without touching a byte of the packet, its length field is the packet's length
  and its offset field leads from the descriptor to the packet, and the buffer now begins at the head and still ends where it ended.\<close>

theorem txpd_in_place:
  assumes t: "(if bss_role p = MLAN_BSS_ROLE_STA then wlan_ops_sta_process_txpd (base b) p b d
               else wlan_ops_uap_process_txpd (base b) p b d) = Some (Some h, b', d')"
    and plain: "buf_type b \<noteq> MLAN_BUF_TYPE_RAW_DATA" and len: "data_len b < 65536" "data_offset b < 65536"
  shows "(base b + h) mod DMA_ALIGNMENT = 0 \<and> h + intf_hr_len p + SIZEOF_TXPD \<le> data_offset b
    \<and> length (pbuf b') = length (pbuf b) \<and> drop (data_offset b) (pbuf b') = drop (data_offset b) (pbuf b)
    \<and> take (h + intf_hr_len p) (pbuf b') = take (h + intf_hr_len p) (pbuf b)
    \<and> (\<exists>l ofs. rd (pbuf b') (h + intf_hr_len p + 2) 2 = Some l \<and> unat (of_le16 l) = data_len b
         \<and> rd (pbuf b') (h + intf_hr_len p + 4) 2 = Some ofs \<and> h + intf_hr_len p + unat (of_le16 ofs) = data_offset b)
    \<and> data_offset b' = h \<and> data_offset b' + data_len b' = data_offset b + data_len b"
proof -
  have raw: "strip_raw b = Some (b, None)" using plain by (simp add: strip_raw_def)
  note l = process_txpd_layout [OF t [folded process_txpd_def] raw]
  note bd = txpd_head_bounds [OF l(2), where base = "base b"]
  obtain f where w: "wr (pbuf b) (h + intf_hr_len p) (txpd_bytes (fill_txpd (dev_adapter d) p b None f h)) = Some (pbuf b')"
    using l(3) by blast
  have h: "h + intf_hr_len p + SIZEOF_TXPD \<le> data_offset b" using bd(1) l(1) by simp
  have u: "unat (of_nat n :: t_u16) = n" if "n < 65536" for n :: nat
    using that by (simp add: unsigned_of_nat take_bit_eq_mod)
  have fields: "rd (pbuf b') (h + intf_hr_len p + 2) 2 = Some (le16_bytes (of_nat (data_len b)))"
    "rd (pbuf b') (h + intf_hr_len p + 4) 2 = Some (le16_bytes (of_nat (data_offset b - (h + intf_hr_len p))))"
    using txpd_field(1,2) [OF w] by (simp_all add: fill_txpd_length fill_txpd_offset)
  have ofs: "h + intf_hr_len p + unat (of_le16 (le16_bytes (of_nat (data_offset b - (h + intf_hr_len p))))) = data_offset b"
    using u [of "data_offset b - (h + intf_hr_len p)"] h len(2) by (simp del: of_nat_diff)
  have "data_offset b' = h" "data_offset b' + data_len b' = data_offset b + data_len b"
    using h by (subst l(4), simp)+
  moreover have "drop (data_offset b) (pbuf b') = drop (data_offset b) (pbuf b)" using wr_keeps_tail [OF w] h by simp
  moreover have "take (h + intf_hr_len p) (pbuf b') = take (h + intf_hr_len p) (pbuf b)" using w by (auto simp: monad_simps)
  ultimately show ?thesis
    using bd(2) l(1) h wr_length [OF w] fields ofs u [OF len(1)] by (intro conjI exI) auto
qed

subsection \<open>The bypass queue\<close>

definition queued_bypass :: "mlan_private option \<Rightarrow> nat" where
  "queued_bypass q = (case q of None \<Rightarrow> 0 | Some p \<Rightarrow> length (bypass_txq p))"

definition bypass_ok :: "mlan_device \<Rightarrow> bool" where
  "bypass_ok d \<longleftrightarrow> bypass_pkt_count (dev_adapter d) = of_nat (sum_list (map queued_bypass (dev_privs d)))"

lemma sum_list_update_nat:
  fixes f :: "'a \<Rightarrow> nat"
  shows "i < length xs \<Longrightarrow> sum_list (map f (xs[i := v])) + f (xs ! i) = sum_list (map f xs) + f v"
  by (induction xs arbitrary: i) (auto split: nat.splits)

lemma bypass_moved:
  assumes "bypass_ok d" "the_priv k d = Some p" "dev_privs d' = (dev_privs d)[k := Some p']"
    "bypass_pkt_count (dev_adapter d') + of_nat (length (bypass_txq p))
       = bypass_pkt_count (dev_adapter d) + of_nat (length (bypass_txq p'))"
  shows "bypass_ok d'"
proof -
  have k: "k < length (dev_privs d)" "dev_privs d ! k = Some p" using assms(2) by (auto simp: the_priv_Some)
  have "sum_list (map queued_bypass (dev_privs d')) + length (bypass_txq p) = sum_list (map queued_bypass (dev_privs d)) + length (bypass_txq p')"
    unfolding assms(3) using sum_list_update_nat [OF k(1), of queued_bypass "Some p'"] k(2) by (simp add: queued_bypass_def)
  then have "(of_nat (sum_list (map queued_bypass (dev_privs d'))) :: t_u16) + of_nat (length (bypass_txq p))
      = of_nat (sum_list (map queued_bypass (dev_privs d))) + of_nat (length (bypass_txq p'))"
    by (metis of_nat_add)
  then show ?thesis using assms(1,4) unfolding bypass_ok_def by (metis add_right_cancel)
qed

lemma process_bypass_skip:
  "\<forall>i \<in> set js1. \<forall>p. the_priv i d = Some p \<longrightarrow> bypass_txq p = []
    \<Longrightarrow> process_bypass base h2c (js1 @ js2) d = process_bypass base h2c js2 d"
  by (induction js1) (auto split: option.split)

text \<open>Either nothing is queued, or the oldest packet of the first interface that has one is tried.\<close>

lemma process_bypass_cases:
  obtains (nothing) "\<forall>i \<in> set js. \<forall>p. the_priv i d = Some p \<longrightarrow> bypass_txq p = []" "process_bypass base h2c js d = Some d"
  | (first) j p b bs where "j \<in> set js" "the_priv j d = Some p" "bypass_txq p = b # bs"
      "process_bypass base h2c js d = do {
         (status, b1, d1) \<leftarrow> wlan_process_tx base h2c (buf_bss_index b) b 0 (upd_priv j (\<lambda>p. p\<lparr>bypass_txq := bs\<rparr>) d);
         Some (if status = MLAN_STATUS_RESOURCE
               then upd_priv j (\<lambda>p. p\<lparr>bypass_txq := b1 # bypass_txq p\<rparr>) d1
               else upd_adapter (\<lambda>a. a\<lparr>bypass_pkt_count := bypass_pkt_count a - 1\<rparr>) d1) }"
proof (cases "\<exists>j \<in> set js. \<exists>p. the_priv j d = Some p \<and> bypass_txq p \<noteq> []")
  case False
  then have e: "\<forall>i \<in> set js. \<forall>p. the_priv i d = Some p \<longrightarrow> bypass_txq p = []" by blast
  then have "process_bypass base h2c js d = Some d" using process_bypass_skip [of js d base h2c "[]"] by simp
  with e show thesis by (rule nothing)
next
  case True
  from split_list_first_prop [OF this] obtain js1 j js2 where js: "js = js1 @ j # js2"
    and j: "\<exists>p. the_priv j d = Some p \<and> bypass_txq p \<noteq> []"
    and pre: "\<forall>i \<in> set js1. \<not> (\<exists>p. the_priv i d = Some p \<and> bypass_txq p \<noteq> [])" by blast
  from j obtain p b bs where p: "the_priv j d = Some p" "bypass_txq p = b # bs" by (auto simp: neq_Nil_conv)
  have "process_bypass base h2c js d = process_bypass base h2c (j # js2) d"
    unfolding js using pre by (intro process_bypass_skip) blast
  with p js show thesis by (intro first [of j p b bs]) simp_all
qed

lemma last_packet_count:
  "bypass_pkt_count (dev_adapter (snd (wlan_check_last_packet_indication d))) = bypass_pkt_count (dev_adapter d)"
  by (simp add: wlan_check_last_packet_indication_def Let_def)

lemma txpd_bypass_count:
  "process_txpd base p b d = Some (h, b1, d1) \<Longrightarrow> bypass_pkt_count (dev_adapter d1) = bypass_pkt_count (dev_adapter d)"
  using last_packet_count [of d]
  unfolding process_txpd_def wlan_ops_sta_process_txpd_def wlan_ops_uap_process_txpd_def Let_def
  by (auto simp: monad_simps split: if_splits prod.splits)

lemma process_tx_bypass_count:
  assumes "wlan_process_tx base h2c k b l d = Some (st, b1, d1)" and card: "\<And>b ad. bypass_pkt_count (snd (h2c b ad)) = bypass_pkt_count ad"
  shows "bypass_pkt_count (dev_adapter d1) = bypass_pkt_count (dev_adapter d)"
proof -
  obtain p h b0 d0 where p: "the_priv k d = Some p" and t: "process_txpd base p b d = Some (h, b0, d0)"
    using assms(1) unfolding wlan_process_tx_def process_txpd_def by (auto simp: monad_simps)
  obtain ret ad where r: "h2c b0 (dev_adapter d0) = (ret, ad)" by fastforce
  have c: "bypass_pkt_count ad = bypass_pkt_count (dev_adapter d)"
    using card [of b0 "dev_adapter d0"] r txpd_bypass_count [OF t] by simp
  show ?thesis
    using assms(1) p txpd_bypass_count [OF t] c r unfolding wlan_process_tx_def
    by (cases h; cases ret) (auto simp: t [unfolded process_txpd_def] tx_failed_def monad_simps split: if_splits)
qed

text \<open>The counter of bypassed packets agrees with the queues of all interfaces: queueing a packet adds it, and sending --
  on every answer of the card -- keeps the agreement, as long as the bus itself leaves the counter alone.\<close>

theorem bypass_count_kept:
  assumes ok: "bypass_ok d" and card: "\<And>b ad. bypass_pkt_count (snd (h2c b ad)) = bypass_pkt_count ad"
  shows "(wlan_process_bypass_tx base h2c d = Some d' \<longrightarrow> bypass_ok d')
    \<and> (the_priv (buf_bss_index b) d \<noteq> None \<longrightarrow> bypass_ok (wlan_add_buf_bypass_txqueue b d))"
proof (rule conjI [rotated])
  show "the_priv (buf_bss_index b) d \<noteq> None \<longrightarrow> bypass_ok (wlan_add_buf_bypass_txqueue b d)"
  proof
    define b1 where "b1 = (if buf_type b \<noteq> MLAN_BUF_TYPE_RAW_DATA then b\<lparr>buf_type := MLAN_BUF_TYPE_DATA\<rparr> else b)"
    define d1 where "d1 = upd_adapter (\<lambda>a. a\<lparr>bypass_pkt_count := bypass_pkt_count a + 1\<rparr>) d"
    assume "the_priv (buf_bss_index b) d \<noteq> None"
    then obtain p where p: "the_priv (buf_bss_index b) d = Some p" by blast
    have e: "wlan_add_buf_bypass_txqueue b d = upd_priv (buf_bss_index b) (\<lambda>p. p\<lparr>bypass_txq := bypass_txq p @ [b1]\<rparr>) d1"
      by (simp add: wlan_add_buf_bypass_txqueue_def b1_def d1_def Let_def)
    have "the_priv (buf_bss_index b) d1 = Some p" using p the_priv_cong [of d1 d] by (simp add: d1_def)
    note f = dev_privs_upd [OF this, of "\<lambda>p. p\<lparr>bypass_txq := bypass_txq p @ [b1]\<rparr>"]
    show "bypass_ok (wlan_add_buf_bypass_txqueue b d)"
      unfolding e by (rule bypass_moved [OF ok p, where p' = "p\<lparr>bypass_txq := bypass_txq p @ [b1]\<rparr>"]) (simp_all add: f [unfolded d1_def] d1_def)
  qed
  show "wlan_process_bypass_tx base h2c d = Some d' \<longrightarrow> bypass_ok d'"
  proof
    assume r: "wlan_process_bypass_tx base h2c d = Some d'"
    show "bypass_ok d'"
    proof (cases rule: process_bypass_cases [of "[0..<length (dev_privs d)]" d base h2c])
      case nothing
      then show ?thesis using r ok by (simp add: wlan_process_bypass_tx_def)
    next
      case (first j p b bs)
      let ?d = "upd_priv j (\<lambda>p. p\<lparr>bypass_txq := bs\<rparr>) d"
      from r [unfolded wlan_process_bypass_tx_def first(4)] obtain st b1 d1 where tx: "wlan_process_tx base h2c (buf_bss_index b) b 0 ?d = Some (st, b1, d1)"
        and d': "d' = (if st = MLAN_STATUS_RESOURCE then upd_priv j (\<lambda>p. p\<lparr>bypass_txq := b1 # bypass_txq p\<rparr>) d1
               else upd_adapter (\<lambda>a. a\<lparr>bypass_pkt_count := bypass_pkt_count a - 1\<rparr>) d1)"
        by (auto simp: monad_simps)
      have c: "bypass_pkt_count (dev_adapter d1) = bypass_pkt_count (dev_adapter d)"
        using process_tx_bypass_count [OF tx card] by simp
      have dp: "dev_privs d1 = (dev_privs d)[j := Some (p\<lparr>bypass_txq := bs\<rparr>)]"
        using process_tx_privs [OF tx] dev_privs_upd [OF first(2)] by simp
      have j: "the_priv j d1 = Some (p\<lparr>bypass_txq := bs\<rparr>)"
        using the_priv_cong [OF process_tx_privs [OF tx]] the_upd_priv [OF first(2)] by simp
      show ?thesis
      proof (cases "st = MLAN_STATUS_RESOURCE")
        case True
        show ?thesis
          unfolding d' using True c dp dev_privs_upd [OF j, of "\<lambda>p. p\<lparr>bypass_txq := b1 # bypass_txq p\<rparr>"] first(3)
          by (intro bypass_moved [OF ok first(2), where p' = "p\<lparr>bypass_txq := b1 # bs\<rparr>"]) simp_all
      next
        case False
        show ?thesis
          unfolding d' using False c dp first(3)
          by (intro bypass_moved [OF ok first(2), where p' = "p\<lparr>bypass_txq := bs\<rparr>"]) simp_all
      qed
    qed
  qed
qed

lemma process_bypass_at:
  assumes "\<forall>i < j. \<forall>p. the_priv i d = Some p \<longrightarrow> bypass_txq p = []" "the_priv j d = Some p" "bypass_txq p = b # bs"
  shows "wlan_process_bypass_tx base h2c d = do {
         (status, b1, d1) \<leftarrow> wlan_process_tx base h2c (buf_bss_index b) b 0 (upd_priv j (\<lambda>p. p\<lparr>bypass_txq := bs\<rparr>) d);
         Some (if status = MLAN_STATUS_RESOURCE
               then upd_priv j (\<lambda>p. p\<lparr>bypass_txq := b1 # bypass_txq p\<rparr>) d1
               else upd_adapter (\<lambda>a. a\<lparr>bypass_pkt_count := bypass_pkt_count a - 1\<rparr>) d1) }"
proof -
  have j: "j < length (dev_privs d)" using assms(2) by (simp add: the_priv_Some)
  then have e: "[0..<length (dev_privs d)] = [0..<j] @ j # [Suc j..<length (dev_privs d)]"
    using upt_add_eq_append [of 0 j "length (dev_privs d) - j"] upt_conv_Cons [OF j] by simp
  have "wlan_process_bypass_tx base h2c d = process_bypass base h2c (j # [Suc j..<length (dev_privs d)]) d"
    unfolding wlan_process_bypass_tx_def e using assms(1) by (intro process_bypass_skip) auto
  then show ?thesis using assms(2,3) by simp
qed

lemma tx_refused_descriptor:
  assumes p: "the_priv k d = Some p" and small: "data_offset b < SIZEOF_TXPD + intf_hr_len p + DMA_ALIGNMENT"
    and plain: "buf_type b \<noteq> MLAN_BUF_TYPE_RAW_DATA"
  shows "wlan_process_tx base h2c k b l d
    = Some (MLAN_STATUS_FAILURE, b, demit [Call_wlan_write_data_complete b MLAN_STATUS_FAILURE] (tx_failed d))"
  using p small plain unfolding wlan_process_tx_def
  by (simp add: wlan_ops_sta_process_txpd_def wlan_ops_uap_process_txpd_def strip_raw_def)

text \<open>A bypassed packet for which the card has no room is lost: it goes back to its queue with the descriptor already in
  front of it, but, unlike a packet of the WMM queues, it is not marked as prepared.  With the usual headroom the next
  attempt finds no room for a second descriptor and gives the packet up, whatever the card would answer.\<close>

theorem bypass_requeue_lost:
  assumes first: "\<forall>i < j. \<forall>p. the_priv i d = Some p \<longrightarrow> bypass_txq p = []"
    and p: "the_priv j d = Some p" "bypass_txq p = b # bs" "buf_bss_index b = j"
    and plain: "buf_type b \<noteq> MLAN_BUF_TYPE_RAW_DATA"
    and headroom: "data_offset b < 2 * (SIZEOF_TXPD + intf_hr_len p) + DMA_ALIGNMENT"
    and tx: "wlan_process_tx base h2c j b 0 (upd_priv j (\<lambda>p. p\<lparr>bypass_txq := bs\<rparr>) d) = Some (MLAN_STATUS_RESOURCE, b1, d1)"
  shows "\<exists>d' d''. wlan_process_bypass_tx base h2c d = Some d' \<and> wlan_process_bypass_tx base h2c' d' = Some d''
    \<and> dev_calls d'' = dev_calls d' @ [Call_wlan_write_data_complete b1 MLAN_STATUS_FAILURE]
    \<and> (\<exists>q. the_priv j d'' = Some q \<and> bypass_txq q = bs)"
proof -
  let ?d = "upd_priv j (\<lambda>p. p\<lparr>bypass_txq := bs\<rparr>) d"
  define d' where "d' = upd_priv j (\<lambda>p. p\<lparr>bypass_txq := b1 # bypass_txq p\<rparr>) d1"
  have r1: "wlan_process_bypass_tx base h2c d = Some d'"
    unfolding process_bypass_at [OF first p(1,2)] using tx p(3) by (simp add: d'_def)
  have q: "the_priv j ?d = Some (p\<lparr>bypass_txq := bs\<rparr>)" by (rule the_upd_priv [OF p(1)])
  have d1: "dev_privs d1 = (dev_privs d)[j := Some (p\<lparr>bypass_txq := bs\<rparr>)]"
    using process_tx_privs [OF tx] dev_privs_upd [OF p(1)] by simp
  have q1: "the_priv j d1 = Some (p\<lparr>bypass_txq := bs\<rparr>)" using q the_priv_cong [OF process_tx_privs [OF tx]] by simp
  have q': "the_priv j d' = Some (p\<lparr>bypass_txq := b1 # bs\<rparr>)"
    unfolding d'_def using the_upd_priv [OF q1] by simp
  have first': "\<forall>i < j. \<forall>p. the_priv i d' = Some p \<longrightarrow> bypass_txq p = []"
    using first dev_privs_upd [OF q1] d1 unfolding d'_def by (auto simp: the_priv_def)
  from process_tx_cases [OF tx] obtain p0 h b0 d0 where t: "the_priv j ?d = Some p0" "process_txpd base p0 b ?d = Some (h, b0, d0)"
    "\<exists>m. b1 = b0\<lparr>pbuf := m\<rparr>" "MLAN_STATUS_RESOURCE = (if h = None then MLAN_STATUS_FAILURE else fst (h2c b0 (dev_adapter d0)))"
    by metis
  have p0: "p0 = p\<lparr>bypass_txq := bs\<rparr>" using t(1) q by simp
  obtain hd where h: "h = Some hd" using t(4) by (auto split: if_splits)
  have raw: "strip_raw b = Some (b, None)" using plain by (simp add: strip_raw_def)
  note l = process_txpd_layout [OF t(2) [unfolded h] raw]
  have hb: "hd + intf_hr_len p + SIZEOF_TXPD \<le> data_offset b"
    using txpd_head_bounds(1) [OF l(2), of "base b"] l(1) by (simp add: p0)
  have b1: "data_offset b1 = hd" "buf_type b1 = buf_type b" "buf_bss_index b1 = buf_bss_index b"
    using t(3) by (auto, (subst l(4), simp)+)
  have small: "data_offset b1 < SIZEOF_TXPD + intf_hr_len p + DMA_ALIGNMENT" using hb headroom unfolding b1(1) by simp
  define d2 where "d2 = upd_priv j (\<lambda>p. p\<lparr>bypass_txq := bs\<rparr>) d'"
  have q2: "the_priv j d2 = Some (p\<lparr>bypass_txq := bs\<rparr>)" unfolding d2_def using the_upd_priv [OF q'] by simp
  define d3 where "d3 = demit [Call_wlan_write_data_complete b1 MLAN_STATUS_FAILURE] (tx_failed d2)"
  have t2: "wlan_process_tx base h2c' j b1 0 d2 = Some (MLAN_STATUS_FAILURE, b1, d3)"
    unfolding d3_def by (rule tx_refused_descriptor [OF q2]) (use small b1 plain in simp_all)
  have "wlan_process_bypass_tx base h2c' d' = Some (upd_adapter (\<lambda>a. a\<lparr>bypass_pkt_count := bypass_pkt_count a - 1\<rparr>) d3)"
    using process_bypass_at [OF first' q', of b1 bs base h2c'] t2 b1(3) p(3) by (simp add: d2_def)
  moreover have "the_priv j (upd_adapter (\<lambda>a. a\<lparr>bypass_pkt_count := bypass_pkt_count a - 1\<rparr>) d3) = Some (p\<lparr>bypass_txq := bs\<rparr>)"
    using q2 the_priv_cong [of "upd_adapter (\<lambda>a. a\<lparr>bypass_pkt_count := bypass_pkt_count a - 1\<rparr>) d3" d2] by (simp add: d3_def)
  ultimately show ?thesis using r1 by (auto simp: d3_def d2_def)
qed

end
