(* ===== verification/Aggr_Props.thy ===== *)
theory Aggr_Props
  imports Tx_Path_Props Amsdu_Props
begin

text \<open>
  Aggregation: the frame the card gets is made of exactly the packets taken from the queue, it stays inside the limit,
  and the accounts of the queues stay right.
\<close>

text \<open>The bytes of a frame in the making, the packets in it and the pad still owed to the last one.\<close>

definition full_pads :: "(t_u8 list \<times> t_u8 list) list \<Rightarrow> bool" where
  "full_pads ms \<longleftrightarrow> (\<forall>(m, p) \<in> set ms. 14 \<le> length m \<and> length m < 4096 \<and> length p = amsdu_pad (length m + 8))"

definition frame_rep :: "t_u8 list \<Rightarrow> t_u8 list list \<Rightarrow> nat \<Rightarrow> bool" where
  "frame_rep F ms pad \<longleftrightarrow> ms = [] \<and> F = [] \<and> pad = 0
     \<or> (\<exists>xs m. ms = map fst xs @ [m] \<and> F = amsdu_frame xs @ amsdu_subframe m \<and> full_pads xs
          \<and> 14 \<le> length m \<and> length m < 4096 \<and> pad = amsdu_pad (length m + 8))"

lemma amsdu_frame_append: "amsdu_frame (xs @ ys) = amsdu_frame xs @ amsdu_frame ys"
  by (simp add: amsdu_frame_def)

lemma frame_rep_step:
  assumes "frame_rep F ms pad" "length q = pad" "14 \<le> length m" "length m < 4096"
  shows "frame_rep (F @ q @ amsdu_subframe m) (ms @ [m]) (amsdu_pad (length m + 8))"
proof (cases "ms = []")
  case True
  then have "F = []" "q = []" using assms by (auto simp: frame_rep_def)
  then show ?thesis using True assms unfolding frame_rep_def
    by (intro disjI2 exI [of _ "[]"] exI [of _ m]) (simp add: full_pads_def)
next
  case False
  then obtain xs m0 where x: "ms = map fst xs @ [m0]" "F = amsdu_frame xs @ amsdu_subframe m0" "full_pads xs"
    "14 \<le> length m0" "length m0 < 4096" "pad = amsdu_pad (length m0 + 8)"
    using assms(1) by (auto simp: frame_rep_def)
  then show ?thesis using assms(2-) unfolding frame_rep_def
    by (intro disjI2 exI [of _ "xs @ [(m0, q)]"] exI [of _ m]) (simp add: full_pads_def amsdu_frame_append)
qed

lemma padded_full:
  "full_pads xs \<Longrightarrow> 14 \<le> length m \<Longrightarrow> length m < 4096 \<Longrightarrow> padded (xs @ [(m, [])])"
  by (induction xs) (auto simp: full_pads_def)

lemma frame_rep_padded: "frame_rep F ms pad \<Longrightarrow> \<exists>xs. padded xs \<and> map fst xs = ms \<and> F = amsdu_frame xs"
  unfolding frame_rep_def
proof (elim disjE exE conjE)
  assume "ms = []" "F = []"
  then show ?thesis by (intro exI [of _ "[]"]) simp
next
  fix xs m
  assume "ms = map fst xs @ [m]" "F = amsdu_frame xs @ amsdu_subframe m" "full_pads xs" "14 \<le> length m" "length m < 4096"
  then show ?thesis by (intro exI [of _ "xs @ [(m, [])]"]) (simp add: padded_full amsdu_frame_append)
qed

lemma frame_rep_length: "frame_rep F ms pad \<Longrightarrow> pad < 4"
  using amsdu_pad_simps by (auto simp: frame_rep_def)

text \<open>A packet of a queue that the kernel handed over: inside its buffer, with an Ethernet header, of ordinary size.\<close>

definition eth_packet :: "mlan_buffer \<Rightarrow> bool" where
  "eth_packet b \<longleftrightarrow> 14 \<le> data_len b \<and> data_len b < 4096 \<and> data_offset b + data_len b \<le> length (pbuf b)"

lemma eth_payload: "eth_packet b \<Longrightarrow> length (payload_bytes b) = data_len b
    \<and> pbuf b = take (data_offset b) (pbuf b) @ payload_bytes b @ drop (data_offset b + data_len b) (pbuf b)
    \<and> length (take (data_offset b) (pbuf b)) = data_offset b"
  by (auto simp: eth_packet_def payload_bytes_def) (metis append_take_drop_id drop_drop add.commute)

lemma form_in_place:
  assumes b: "eth_packet b" and off: "length pre = off" and fits: "data_len b + 8 \<le> length rest"
  shows "wlan_11n_form_amsdu_pkt (pre @ rest) off (pbuf b) (data_offset b) (data_len b)
    = Some (pre @ amsdu_subframe (payload_bytes b) @ drop (data_len b + 8) rest,
        data_len b + 8 + amsdu_pad (data_len b + 8), amsdu_pad (data_len b + 8))"
proof -
  let ?m = "payload_bytes b" and ?old = "take (data_len b + 8) rest"
  note p = eth_payload [OF b]
  have l: "14 \<le> length ?m" "length ?old = length ?m + 8" using b fits p by (simp_all add: eth_packet_def)
  have r: "rest = ?old @ drop (data_len b + 8) rest" by simp
  have "wlan_11n_form_amsdu_pkt (pre @ ?old @ drop (data_len b + 8) rest) (length pre)
      (take (data_offset b) (pbuf b) @ ?m @ drop (data_offset b + data_len b) (pbuf b)) (length (take (data_offset b) (pbuf b))) (length ?m)
    = Some (pre @ amsdu_subframe ?m @ drop (data_len b + 8) rest, length ?m + 8 + amsdu_pad (length ?m + 8), amsdu_pad (length ?m + 8))"
    by (rule form_amsdu_pkt_exact [OF l])
  then show ?thesis using p off by simp
qed

subsection \<open>Taking packets\<close>

lemma counter_frame [simp]:
  "ras (p\<lparr>msdu_in_tx_amsdu_cnt := x\<rparr>) tid = ras p tid" "acct d (p\<lparr>msdu_in_tx_amsdu_cnt := x\<rparr>) = acct d p"
  "ra_unique (p\<lparr>msdu_in_tx_amsdu_cnt := x\<rparr>) = ra_unique p" "ra_pos (p\<lparr>msdu_in_tx_amsdu_cnt := x\<rparr>) tid a = ra_pos p tid a"
  "ras (p\<lparr>amsdu_tx_cnt := x\<rparr>) tid = ras p tid" "acct d (p\<lparr>amsdu_tx_cnt := x\<rparr>) = acct d p"
  "ra_unique (p\<lparr>amsdu_tx_cnt := x\<rparr>) = ra_unique p" "wmm (p\<lparr>amsdu_tx_cnt := x\<rparr>) = wmm p"
  by (simp_all add: ras_def acct_def ra_unique_def ra_pos_def)

text \<open>\<open>p'\<close> is \<open>p\<close> after packets left the queue of one receiver, of which \<open>bs\<close> are still there.\<close>

definition left_queue :: "nat \<Rightarrow> nat \<Rightarrow> ptr \<Rightarrow> mlan_buffer list \<Rightarrow> mlan_private \<Rightarrow> mlan_private \<Rightarrow> bool" where
  "left_queue tid n a bs p p' \<longleftrightarrow> wmm_inv p' \<and> n < length (ras p' tid) \<and> ra_pos p' tid a = Some n \<and> \<not> tx_pause (ras p' tid ! n)
     \<and> (\<forall>i < MAX_NUM_TID. \<forall>j. queue_at p' i j = (if i = tid \<and> j = n then bs else queue_at p i j))"

lemma left_queue_head:
  assumes "left_queue tid n a bs p q" "tid < MAX_NUM_TID"
  shows "buf_head (ras q tid ! n) = bs"
proof -
  have "queue_at q tid n = bs" "n < length (ras q tid)" using assms by (simp_all add: left_queue_def)
  then show ?thesis by (simp add: queue_at_def)
qed

lemma left_queue_step:
  assumes l: "left_queue tid n a (b # bs) p q" and tid: "tid < MAX_NUM_TID"
  shows "left_queue tid n a bs p (take_head tid n q)"
proof -
  have a: "acct 0 q" and u: "ra_unique q" and n: "n < length (ras q tid)" and pos: "ra_pos q tid a = Some n"
    and np: "\<not> tx_pause (ras q tid ! n)" using l by (auto simp: left_queue_def wmm_inv_def)
  have b: "buf_head (ras q tid ! n) = b # bs" by (rule left_queue_head [OF l tid])
  define r where "r = (ras q tid ! n)\<lparr>buf_head := bs, total_pkts := total_pkts (ras q tid ! n) - 1\<rparr>"
  have rs: "ras (take_head tid n q) i = (if i = tid then (ras q tid)[n := r] else ras q i)" for i
    using take_head_ras [OF a tid] b by (simp add: r_def)
  have "acct 0 (take_head tid n q)" by (rule acct_take_head [OF a tid n]) (simp add: ready_node_def np b)
  moreover have "ra_unique (take_head tid n q)" using u n tid unfolding ra_unique_def rs by (simp add: update_same_ra r_def)
  moreover have "ra_pos (take_head tid n q) tid a = Some n"
    using pos n unfolding ra_pos_def rs by (simp add: update_same_ra r_def)
  moreover have "queue_at (take_head tid n q) i j = (if i = tid \<and> j = n then bs else queue_at q i j)" for i j
    using n unfolding queue_at_def rs by (auto simp: r_def nth_list_update)
  ultimately show ?thesis
    using l n np unfolding left_queue_def rs by (auto simp: wmm_inv_def r_def)
qed

lemma left_queue_counter:
  "left_queue tid n a bs p (q\<lparr>msdu_in_tx_amsdu_cnt := x\<rparr>) = left_queue tid n a bs p q"
  by (simp add: left_queue_def wmm_inv_def queue_at_def)

abbreviation done_ok :: "mlan_buffer \<Rightarrow> moal_call" where
  "done_ok b \<equiv> Call_wlan_write_data_complete b MLAN_STATUS_SUCCESS"

text \<open>The loop takes packets in order as long as they fit, and what it writes is the frame of exactly these packets.\<close>

lemma aggregate_loop_exact:
  assumes tid: "tid < MAX_NUM_TID" and room: "max_size \<le> length mem" and mem: "mem = pre @ F @ rest" "length pre = headroom + 20"
    and F: "frame_rep F ms pad" and pkts: "\<forall>b \<in> set bs. eth_packet b"
    and d: "the_priv k d = Some q" "left_queue tid n a bs p q"
    and sz: "sz = 20 + length F + pad"
  shows "\<exists>bs1 bs2 F' rest' pad' d' q'. bs = bs1 @ bs2
    \<and> aggregate_loop (\<lambda>d. d) k a tid headroom max_size mem sz pad d = Some (True, pre @ F' @ rest', 20 + length F' + pad', pad', d')
    \<and> length (pre @ F' @ rest') = length mem \<and> frame_rep F' (ms @ map payload_bytes bs1) pad'
    \<and> the_priv k d' = Some q' \<and> left_queue tid n a bs2 p q' \<and> dev_calls d' = dev_calls d @ map done_ok bs1
    \<and> dev_adapter d' = dev_adapter d \<and> bssprio_tbl d' = bssprio_tbl d
    \<and> headroom + 20 + length F' \<le> max max_size (headroom + 20 + length F)
    \<and> (bs2 \<noteq> [] \<longrightarrow> max_size < 20 + length F' + pad' + data_len (hd bs2) + 8 + headroom)"
  using room mem F pkts d sz
proof (induction bs arbitrary: d q F rest ms pad mem sz)
  case Nil
  have h: "buf_head (ras q tid ! n) = []" using left_queue_head [OF Nil.prems(7) tid] .
  have pos: "ra_pos q tid a = Some n" using Nil.prems(7) by (simp add: left_queue_def)
  have "aggregate_loop (\<lambda>d. d) k a tid headroom max_size mem sz pad d = Some (True, mem, sz, pad, d)"
    using Nil.prems(6) h pos by (subst aggregate_loop.simps) simp
  then show ?case using Nil.prems
    by (intro exI [of _ "[]"] exI [of _ F] exI [of _ rest] exI [of _ pad] exI [of _ d] exI [of _ q]) simp
next
  case (Cons b bs)
  have h: "buf_head (ras q tid ! n) = b # bs" using left_queue_head [OF Cons.prems(7) tid] .
  have pos: "ra_pos q tid a = Some n" using Cons.prems(7) by (simp add: left_queue_def)
  have eb: "eth_packet b" using Cons.prems(5) by simp
  show ?case
  proof (cases "sz + (data_len b + LLC_SNAP_LEN) + headroom \<le> max_size")
    case False
    then have "aggregate_loop (\<lambda>d. d) k a tid headroom max_size mem sz pad d = Some (True, mem, sz, pad, d)"
      using Cons.prems(6) h pos by (subst aggregate_loop.simps) simp
    then show ?thesis using Cons.prems False
      by (intro exI [of _ "[]"] exI [of _ "b # bs"] exI [of _ F] exI [of _ rest] exI [of _ pad] exI [of _ d] exI [of _ q]) simp
  next
    case True
    let ?m = "payload_bytes b" and ?pad = "amsdu_pad (data_len b + 8)"
    have m: "length ?m = data_len b" "14 \<le> length ?m" "length ?m < 4096" using eth_payload [OF eb] eb by (auto simp: eth_packet_def)
    have len: "length mem = headroom + 20 + length F + length rest" using Cons.prems(2,3) by simp
    have space: "pad + data_len b + 8 \<le> length rest" using True Cons.prems(1,8) len by simp
    define q0 where "q0 = take pad rest"
    define rest1 where "rest1 = drop pad rest"
    have r: "rest = q0 @ rest1" "length q0 = pad" "data_len b + 8 \<le> length rest1" using space by (simp_all add: q0_def rest1_def)
    define F1 where "F1 = F @ q0 @ amsdu_subframe ?m"
    have l1: "length F1 = length F + pad + data_len b + 8" using m r by (simp add: F1_def)
    define mem1 where "mem1 = pre @ F1 @ drop (data_len b + 8) rest1"
    have form: "wlan_11n_form_amsdu_pkt mem (headroom + sz) (pbuf b) (data_offset b) (data_len b) = Some (mem1, data_len b + 8 + ?pad, ?pad)"
      using form_in_place [OF eb, of "pre @ F @ q0" "headroom + sz" rest1] Cons.prems(2,3,8) r by (simp add: mem1_def F1_def)
    define q1 where "q1 = take_head tid n q"
    define d1 where "d1 = demit [done_ok b] (upd_priv k (take_head tid n) d)"
    define q2 where "q2 = q1\<lparr>msdu_in_tx_amsdu_cnt := msdu_in_tx_amsdu_cnt q1 + 1\<rparr>"
    define d2 where "d2 = upd_priv k (\<lambda>q. q\<lparr>msdu_in_tx_amsdu_cnt := msdu_in_tx_amsdu_cnt q + 1\<rparr>) d1"
    have p1: "the_priv k d1 = Some q1"
      unfolding d1_def q1_def the_priv_cong [OF device_simps(1)] by (rule the_upd_priv [OF Cons.prems(6)])
    have p2: "the_priv k d2 = Some q2" unfolding d2_def q2_def by (rule the_upd_priv [OF p1])
    have lq1: "left_queue tid n a bs p q1" unfolding q1_def by (rule left_queue_step [OF Cons.prems(7) tid])
    have lq: "left_queue tid n a bs p q2" unfolding q2_def left_queue_counter by (rule lq1)
    have step: "aggregate_loop (\<lambda>d. d) k a tid headroom max_size mem sz pad d
        = aggregate_loop (\<lambda>d. d) k a tid headroom max_size mem1 (sz + (data_len b + 8 + ?pad)) ?pad d2"
      using Cons.prems(6) h pos True form p1 lq1 unfolding left_queue_def
      by (subst aggregate_loop.simps) (simp add: d1_def [symmetric] d2_def [symmetric])
    have fr: "frame_rep F1 (ms @ [?m]) ?pad"
      using frame_rep_step [OF Cons.prems(4) r(2) m(2,3)] m(1) by (simp add: F1_def)
    have l: "length mem1 = length mem" using wr_length len r l1 Cons.prems(3) space by (simp add: mem1_def)
    have ms1: "max_size \<le> length mem1" using l Cons.prems(1) by simp
    have "\<exists>bs1 bs2 F' rest' pad' d' q'. bs = bs1 @ bs2
      \<and> aggregate_loop (\<lambda>d. d) k a tid headroom max_size mem1 (sz + (data_len b + 8 + ?pad)) ?pad d2
          = Some (True, pre @ F' @ rest', 20 + length F' + pad', pad', d')
      \<and> length (pre @ F' @ rest') = length mem1 \<and> frame_rep F' ((ms @ [?m]) @ map payload_bytes bs1) pad'
      \<and> the_priv k d' = Some q' \<and> left_queue tid n a bs2 p q' \<and> dev_calls d' = dev_calls d2 @ map done_ok bs1
      \<and> dev_adapter d' = dev_adapter d2 \<and> bssprio_tbl d' = bssprio_tbl d2
      \<and> headroom + 20 + length F' \<le> max max_size (headroom + 20 + length F1)
      \<and> (bs2 \<noteq> [] \<longrightarrow> max_size < 20 + length F' + pad' + data_len (hd bs2) + 8 + headroom)"
      by (rule Cons.IH [OF ms1 mem1_def Cons.prems(3) fr _ p2 lq]) (use Cons.prems l1 in auto)
    then obtain bs1 bs2 F' rest' pad' d' q' where ih: "bs = bs1 @ bs2"
      "aggregate_loop (\<lambda>d. d) k a tid headroom max_size mem1 (sz + (data_len b + 8 + ?pad)) ?pad d2
          = Some (True, pre @ F' @ rest', 20 + length F' + pad', pad', d')"
      "length (pre @ F' @ rest') = length mem1" "frame_rep F' ((ms @ [?m]) @ map payload_bytes bs1) pad'"
      "the_priv k d' = Some q'" "left_queue tid n a bs2 p q'" "dev_calls d' = dev_calls d2 @ map done_ok bs1"
      "dev_adapter d' = dev_adapter d2" "bssprio_tbl d' = bssprio_tbl d2"
      "headroom + 20 + length F' \<le> max max_size (headroom + 20 + length F1)"
      "bs2 \<noteq> [] \<longrightarrow> max_size < 20 + length F' + pad' + data_len (hd bs2) + 8 + headroom" by blast
    have bound: "headroom + 20 + length F' \<le> max max_size (headroom + 20 + length F)"
      using ih(10) True Cons.prems(8) l1 by simp
    show ?thesis
      using ih bound l by (intro exI [of _ "b # bs1"] exI [of _ bs2] exI [of _ F'] exI [of _ rest'] exI [of _ pad'] exI [of _ d'] exI [of _ q'])
        (simp add: step d2_def d1_def)
  qed
qed

subsection \<open>The descriptor of the aggregate\<close>

lemma wr_prefix:
  assumes "wr (pre @ post) off bs = Some m" "off + length bs \<le> length pre"
  shows "\<exists>pre'. m = pre' @ post \<and> length pre' = length pre"
  using assms by (intro exI [of _ "take off pre @ bs @ drop (off + length bs) pre"]) (auto simp: monad_simps)

lemma update_pktlen_frame:
  assumes "length pre = headroom + 20"
  shows "\<exists>pre' d'. wlan_11n_update_pktlen_amsdu_txpd p headroom len (pre @ post) d = Some (pre' @ post, d') \<and> length pre' = headroom + 20
    \<and> dev_privs d' = dev_privs d \<and> dev_calls d' = dev_calls d"
proof -
  have "\<exists>m. wr (pre @ post) (headroom + 2) (le16_bytes (of_nat (len - SIZEOF_TXPD))) = Some m" by (rule wr_in) (use assms in simp)
  then obtain m1 where m1: "wr (pre @ post) (headroom + 2) (le16_bytes (of_nat (len - SIZEOF_TXPD))) = Some m1" ..
  from wr_prefix [OF this] assms obtain pre1 where p1: "m1 = pre1 @ post" "length pre1 = headroom + 20" by auto
  obtain f where f: "rd (pre1 @ post) (headroom + 13) 1 = Some f" using p1(2) by (simp add: rd_def)
  have "\<exists>m. wr (pre1 @ post) (headroom + 13) [hd f OR MRVDRV_TxPD_POWER_MGMT_LAST_PACKET] = Some m" by (rule wr_in) (use p1 in simp)
  then obtain m2 where m2: "wr (pre1 @ post) (headroom + 13) [hd f OR MRVDRV_TxPD_POWER_MGMT_LAST_PACKET] = Some m2" ..
  from wr_prefix [OF this] p1(2) obtain pre2 where p2: "m2 = pre2 @ post" "length pre2 = headroom + 20" by auto
  obtain l d1 where c: "wlan_check_last_packet_indication d = (l, d1)" by fastforce
  then have fr: "dev_privs d1 = dev_privs d" "dev_calls d1 = dev_calls d" using last_packet_frame [of d] by simp_all
  show ?thesis
    using m1 p1 f m2 p2 c fr unfolding wlan_11n_update_pktlen_amsdu_txpd_def by (auto simp: Let_def)
qed

lemma left_queue_put_back:
  assumes l: "left_queue tid n a bs p q" and tid: "tid < MAX_NUM_TID" and room: "length bs < 65535"
  shows "left_queue tid n a (b\<lparr>buf_flags := buf_flags b OR MLAN_BUF_FLAG_REQUEUED_PKT\<rparr> # bs) p (put_back tid n b q)"
proof -
  have a: "acct 0 q" and u: "ra_unique q" and n: "n < length (ras q tid)" and pos: "ra_pos q tid a = Some n"
    and np: "\<not> tx_pause (ras q tid ! n)" using l by (auto simp: left_queue_def wmm_inv_def)
  have h: "buf_head (ras q tid ! n) = bs" by (rule left_queue_head [OF l tid])
  define r where "r = (ras q tid ! n)\<lparr>buf_head := b\<lparr>buf_flags := buf_flags b OR MLAN_BUF_FLAG_REQUEUED_PKT\<rparr> # bs,
      total_pkts := total_pkts (ras q tid ! n) + 1\<rparr>"
  have rs: "ras (put_back tid n b q) i = (if i = tid then (ras q tid)[n := r] else ras q i)" for i
    using put_back_ras [OF a tid] h by (simp add: r_def)
  have "acct 0 (put_back tid n b q)" by (rule acct_put_back(1) [OF a tid n]) (use h room np in simp_all)
  moreover have "ra_unique (put_back tid n b q)" using u n tid unfolding ra_unique_def rs by (simp add: update_same_ra r_def)
  moreover have "ra_pos (put_back tid n b q) tid a = Some n"
    using pos n unfolding ra_pos_def rs by (simp add: update_same_ra r_def)
  moreover have "queue_at (put_back tid n b q) i j = (if i = tid \<and> j = n then buf_head r else queue_at q i j)" for i j
    using n unfolding queue_at_def rs by (auto simp: nth_list_update)
  ultimately show ?thesis
    using l n np unfolding left_queue_def rs by (auto simp: wmm_inv_def r_def)
qed

lemma left_queue_count_out:
  assumes l: "left_queue tid n a bs p q" and tid: "tid < MAX_NUM_TID"
  shows "left_queue tid n a bs p (count_out tid a q)"
proof -
  have "acct 0 q" using l by (simp add: left_queue_def wmm_inv_def)
  then have "ras (count_out tid a q) i = ras q i" "acct 0 (count_out tid a q)" for i
    using count_out_ras acct_len tid acct_count_out by auto
  moreover from this have "queue_at (count_out tid a q) i j = queue_at q i j" for i j by (simp add: queue_at_def)
  ultimately show ?thesis using l by (simp add: left_queue_def wmm_inv_def ra_unique_def ra_pos_def)
qed

lemma left_queue_amsdu_cnt: "left_queue tid n a bs p (q\<lparr>amsdu_tx_cnt := x\<rparr>) = left_queue tid n a bs p q"
  by (simp add: left_queue_def wmm_inv_def queue_at_def ra_pos_def)

text \<open>C8.  Aggregating undisturbed: the buffer that goes to the card is the descriptor followed by a well-formed A-MSDU of exactly
  the packets taken from the front of the queue, in their order, and never longer than the limit; every packet taken is
  completed once; all counters still agree with the queues, and no other queue changed.  When the card has no room the
  aggregate itself goes back to the head as one prepared packet.\<close>

theorem aggregate_pkt_exact:
  assumes p: "the_priv k d = Some p" and inv: "wmm_inv p" and tid: "tid < MAX_NUM_TID" and n: "ra_pos p tid a = Some n"
    and np: "\<not> tx_pause (ras p tid ! n)" and bs: "buf_head (ras p tid ! n) = bs" "bs \<noteq> []" "\<forall>b \<in> set bs. eth_packet b" "length bs < 65535"
    and fresh: "unat (tx_buf_size (dev_adapter d)) \<le> length fresh" "headroom + SIZEOF_TXPD \<le> length fresh"
    and card: "\<And>b ad. fst (h2c b ad) = st"
  shows "\<exists>d' p' bs1 bs2 aggr xs l m. bs = bs1 @ bs2
    \<and> wlan_11n_aggregate_pkt (Some addr) fresh h2c (\<lambda>d. d) k a headroom tid d = Some d'
    \<and> dev_calls d' = dev_calls d @ map done_ok bs1 @ [Call_wlan_sdio_host_to_card aggr l]
         @ (if st \<in> {MLAN_STATUS_SUCCESS, MLAN_STATUS_FAILURE} then [Call_wlan_write_data_complete aggr st] else [])
    \<and> drop (headroom + SIZEOF_TXPD) (payload_bytes aggr) = amsdu_frame xs \<and> padded xs \<and> map fst xs = map payload_bytes bs1
    \<and> length (payload_bytes aggr) \<le> max (min (unat (ra_max_amsdu (ras p tid ! n))) (unat (tx_buf_size (dev_adapter d)))) (headroom + SIZEOF_TXPD)
    \<and> the_priv k d' = Some p' \<and> wmm_inv p'
    \<and> (\<forall>i < MAX_NUM_TID. \<forall>j. queue_at p' i j = (if i = tid \<and> j = n
         then (if st = MLAN_STATUS_RESOURCE then [aggr\<lparr>pbuf := m, buf_flags := buf_flags aggr OR MLAN_BUF_FLAG_REQUEUED_PKT\<rparr>] else []) @ bs2
         else queue_at p i j))"
proof -
  define max_size where "max_size = min (unat (ra_max_amsdu (ras p tid ! n))) (unat (tx_buf_size (dev_adapter d)))"
  obtain b0 bt where b0: "bs = b0 # bt" using bs(2) by (cases bs) auto
  define aggr where "aggr = new_aggr_buffer addr b0"
  have nl: "n < length (ras p tid)" using ra_pos_Some [OF n] by simp
  have "\<exists>m. wr fresh headroom (txpd_bytes (amsdu_txpd (dev_adapter d) p aggr)) = Some m" by (rule wr_in) (use fresh in simp)
  then obtain mem0 where mem0: "wlan_11n_form_amsdu_txpd (dev_adapter d) p headroom aggr fresh = Some mem0"
    by (auto simp: wlan_11n_form_amsdu_txpd_def)
  then have l0: "length mem0 = length fresh" by (auto simp: wlan_11n_form_amsdu_txpd_def dest: wr_length)
  define pre where "pre = take (headroom + 20) mem0"
  define rest where "rest = drop (headroom + 20) mem0"
  have pr: "mem0 = pre @ [] @ rest" "length pre = headroom + 20" using l0 fresh by (simp_all add: pre_def rest_def)
  define d0 where "d0 = upd_priv k (\<lambda>q. q\<lparr>msdu_in_tx_amsdu_cnt := msdu_in_tx_amsdu_cnt q + 1\<rparr>) d"
  define q0 where "q0 = p\<lparr>msdu_in_tx_amsdu_cnt := msdu_in_tx_amsdu_cnt p + 1\<rparr>"
  have q0: "the_priv k d0 = Some q0" unfolding d0_def q0_def by (rule the_upd_priv [OF p])
  have lq0: "left_queue tid n a bs p q0"
    using inv nl n np bs(1) by (auto simp: q0_def left_queue_counter) (auto simp: left_queue_def queue_at_def)
  have F0: "frame_rep [] [] 0" by (simp add: frame_rep_def)
  have ms: "max_size \<le> length mem0" using l0 fresh by (simp add: max_size_def)
  have sz0: "20 = 20 + length ([] :: t_u8 list) + 0" by simp
  from aggregate_loop_exact [OF tid ms pr F0 bs(3) q0 lq0 sz0]
  obtain bs1 bs2 F rest' pad d1 q1 where L: "bs = bs1 @ bs2"
    "aggregate_loop (\<lambda>d. d) k a tid headroom max_size mem0 20 0 d0 = Some (True, pre @ F @ rest', 20 + length F + pad, pad, d1)"
    "frame_rep F ([] @ map payload_bytes bs1) pad" "the_priv k d1 = Some q1" "left_queue tid n a bs2 p q1"
    "dev_calls d1 = dev_calls d0 @ map done_ok bs1" "headroom + 20 + length F \<le> max max_size (headroom + 20 + length ([] :: t_u8 list))"
    by blast
  obtain xs where xs: "padded xs" "map fst xs = map payload_bytes bs1" "F = amsdu_frame xs" using frame_rep_padded [OF L(3)] by auto
  obtain pre2 d2 where u: "wlan_11n_update_pktlen_amsdu_txpd p headroom (20 + length F + pad - pad) (pre @ F @ rest') d1 = Some (pre2 @ F @ rest', d2)"
    "length pre2 = headroom + 20" "dev_privs d2 = dev_privs d1" "dev_calls d2 = dev_calls d1"
    using update_pktlen_frame [OF pr(2), of p _ "F @ rest'" d1] by blast
  define aggr1 where "aggr1 = aggr\<lparr>pbuf := pre2 @ F @ rest', data_offset := 0, data_len := 20 + length F + pad - pad + headroom\<rparr>"
  have ag1: "aggr\<lparr>pbuf := pre2 @ F @ rest', data_offset := 0, data_len := 20 + length F + headroom\<rparr> = aggr1"
    by (simp add: aggr1_def)
  obtain ad where ad: "h2c aggr1 (dev_adapter d2) = (st, ad)" using card by (metis prod.collapse)
  define l where "l = next_pkt_len (buf_head (ras q1 tid ! n))"
  define d3 where "d3 = demit [Call_wlan_sdio_host_to_card aggr1 l] (d2\<lparr>dev_adapter := ad\<rparr>)"
  have pos1: "ra_pos q1 tid a = Some n" using L(5) by (simp add: left_queue_def)
  have q3: "the_priv k d3 = Some q1" using L(4) u(3) the_priv_cong [of d3 d1] by (simp add: d3_def)
  have c3: "dev_calls d3 = dev_calls d @ map done_ok bs1 @ [Call_wlan_sdio_host_to_card aggr1 l]"
    using u(4) L(6) by (simp add: d3_def d0_def)
  have pb: "payload_bytes aggr1 = pre2 @ F" using u(2) by (simp add: payload_bytes_def aggr1_def)
  have frame: "drop (headroom + SIZEOF_TXPD) (payload_bytes aggr1) = amsdu_frame xs" "length (payload_bytes aggr1) \<le> max max_size (headroom + SIZEOF_TXPD)"
    using u(2) xs(3) L(7) by (simp_all add: pb)
  define step :: "mlan_private \<Rightarrow> mlan_private" where "step = (\<lambda>q. q\<lparr>amsdu_tx_cnt := amsdu_tx_cnt q + 1\<rparr>)"
  have lb2: "length bs2 < 65535" using bs(4) L(1) by simp
  note lq1 = L(5)
  have "\<exists>d' p' m. wlan_11n_aggregate_pkt (Some addr) fresh h2c (\<lambda>d. d) k a headroom tid d = Some d'
    \<and> dev_calls d' = dev_calls d3 @ (if st \<in> {MLAN_STATUS_SUCCESS, MLAN_STATUS_FAILURE} then [Call_wlan_write_data_complete aggr1 st] else [])
    \<and> the_priv k d' = Some p' \<and> left_queue tid n a ((if st = MLAN_STATUS_RESOURCE
        then [aggr1\<lparr>pbuf := m, buf_flags := buf_flags aggr1 OR MLAN_BUF_FLAG_REQUEUED_PKT\<rparr>] else []) @ bs2) p p'"
  proof (cases "st = MLAN_STATUS_RESOURCE")
    case True
    define unlock where "unlock = (bss_role p = MLAN_BSS_ROLE_STA \<and> pps_uapsd_mode (dev_adapter d3) \<noteq> 0 \<and> tx_lock_flag (dev_adapter d3))"
    have "\<exists>m. wr (pre2 @ F @ rest') (headroom + 13) [0] = Some m" by (rule wr_in) (use u(2) in simp)
    then obtain m3 where m3: "(if unlock then wr (pre2 @ F @ rest') (headroom + 13) [0] else Some (pre2 @ F @ rest')) = Some m3"
      by (cases unlock) auto
    define f where "f = (\<lambda>q. (put_back tid n (aggr1\<lparr>pbuf := m3\<rparr>) q)\<lparr>amsdu_tx_cnt := amsdu_tx_cnt q + 1\<rparr>)"
    define d4 where "d4 = (if unlock then upd_adapter (\<lambda>x. x\<lparr>tx_lock_flag := False\<rparr>) d3 else d3)"
    have res: "wlan_11n_aggregate_pkt (Some addr) fresh h2c (\<lambda>d. d) k a headroom tid d = Some (upd_priv k f d4)"
      unfolding wlan_11n_aggregate_pkt_def
      using p n bs(1) b0 L(1,2,4) u(1) pos1 ad q3 m3 True mem0
      by (simp add: Let_def aggr_def [symmetric] max_size_def [symmetric] d0_def [symmetric] ag1
          l_def [symmetric] d3_def [symmetric] unlock_def [symmetric] d4_def f_def [symmetric])
    have q4: "the_priv k d4 = Some q1" using q3 the_priv_cong [of d4 d3] by (simp add: d4_def)
    have "left_queue tid n a ([aggr1\<lparr>pbuf := m3, buf_flags := buf_flags aggr1 OR MLAN_BUF_FLAG_REQUEUED_PKT\<rparr>] @ bs2) p (f q1)"
      unfolding f_def left_queue_amsdu_cnt using left_queue_put_back [OF lq1 tid lb2, of "aggr1\<lparr>pbuf := m3\<rparr>"] by simp
    then show ?thesis using res the_upd_priv [OF q4, of f] True
      by (intro exI [of _ "upd_priv k f d4"] exI [of _ "f q1"] exI [of _ m3]) (simp add: d4_def)
  next
    case nr: False
    show ?thesis
    proof (cases "st = MLAN_STATUS_FAILURE")
      case True
      define d4 where "d4 = demit [Call_wlan_write_data_complete aggr1 st] (tx_failed d3)"
      have res: "wlan_11n_aggregate_pkt (Some addr) fresh h2c (\<lambda>d. d) k a headroom tid d = Some d4"
        unfolding wlan_11n_aggregate_pkt_def
        using p n bs(1) b0 L(1,2,4) u(1) pos1 ad q3 True mem0
        by (simp add: Let_def aggr_def [symmetric] max_size_def [symmetric] d0_def [symmetric] ag1
            l_def [symmetric] d3_def [symmetric] d4_def)
      have "the_priv k d4 = Some q1" using q3 the_priv_cong [of d4 d3] by (simp add: d4_def)
      then show ?thesis using res True lq1 by (intro exI [of _ d4] exI [of _ q1]) (simp add: d4_def)
    next
      case False
      define d4 where "d4 = (if st = MLAN_STATUS_SUCCESS then demit [Call_wlan_write_data_complete aggr1 st] d3 else d3)"
      define d5 where "d5 = next_bss (bss_priority p) (upd_priv k (count_out tid a) d4)"
      have res: "wlan_11n_aggregate_pkt (Some addr) fresh h2c (\<lambda>d. d) k a headroom tid d = Some (upd_priv k step d5)"
        unfolding wlan_11n_aggregate_pkt_def
        using p n bs(1) b0 L(1,2,4) u(1) pos1 ad q3 False nr mem0
        by (cases st) (simp_all add: Let_def aggr_def [symmetric] max_size_def [symmetric] d0_def [symmetric] ag1
            l_def [symmetric] d3_def [symmetric] d4_def d5_def step_def)
      have q4: "the_priv k d4 = Some q1" using q3 the_priv_cong [of d4 d3] by (simp add: d4_def)
      have q5: "the_priv k d5 = Some (count_out tid a q1)"
        unfolding d5_def the_priv_cong [OF next_bss_simps(1)] by (rule the_upd_priv [OF q4])
      have "left_queue tid n a bs2 p (step (count_out tid a q1))"
        unfolding step_def left_queue_amsdu_cnt by (rule left_queue_count_out [OF lq1 tid])
      then show ?thesis using res the_upd_priv [OF q5, of step] False nr
        by (intro exI [of _ "upd_priv k step d5"] exI [of _ "step (count_out tid a q1)"]) (cases st; simp add: d5_def d4_def)
    qed
  qed
  then obtain d' p' m where fin: "wlan_11n_aggregate_pkt (Some addr) fresh h2c (\<lambda>d. d) k a headroom tid d = Some d'"
    "dev_calls d' = dev_calls d3 @ (if st \<in> {MLAN_STATUS_SUCCESS, MLAN_STATUS_FAILURE} then [Call_wlan_write_data_complete aggr1 st] else [])"
    "the_priv k d' = Some p'" "left_queue tid n a ((if st = MLAN_STATUS_RESOURCE
        then [aggr1\<lparr>pbuf := m, buf_flags := buf_flags aggr1 OR MLAN_BUF_FLAG_REQUEUED_PKT\<rparr>] else []) @ bs2) p p'" by blast
  have q: "wmm_inv p'" "\<forall>i < MAX_NUM_TID. \<forall>j. queue_at p' i j = (if i = tid \<and> j = n
         then (if st = MLAN_STATUS_RESOURCE then [aggr1\<lparr>pbuf := m, buf_flags := buf_flags aggr1 OR MLAN_BUF_FLAG_REQUEUED_PKT\<rparr>] else []) @ bs2
         else queue_at p i j)" using fin(4) unfolding left_queue_def by blast+
  have calls: "dev_calls d' = dev_calls d @ map done_ok bs1 @ [Call_wlan_sdio_host_to_card aggr1 l]
         @ (if st \<in> {MLAN_STATUS_SUCCESS, MLAN_STATUS_FAILURE} then [Call_wlan_write_data_complete aggr1 st] else [])"
    using fin(2) c3 by simp
  show ?thesis
    using L(1) fin(1,3) calls frame xs(1,2) q unfolding max_size_def by blast
qed

end
