(* ===== verification/Send_Witness.thy ===== *)
theory Send_Witness
  imports Tx_Witness Aggr_Props
begin

text \<open>
  A device with one interface and two receivers, and the properties of \<^verbatim>\<open>Tx_Sched_Props\<close>, \<^verbatim>\<open>Tx_Send_Props\<close>,
  \<^verbatim>\<open>Tx_Path_Props\<close>, \<^verbatim>\<open>Aggr_Props\<close> and \<^verbatim>\<open>Amsdu_Props\<close> applied to it.
\<close>

subsection \<open>The device\<close>

text \<open>A packet of 15 bytes behind 64 bytes of headroom.\<close>

definition sample_msdu :: "t_u8 \<Rightarrow> mlan_buffer" where
  "sample_msdu x = (sample_buffer (unat x) 0 0)\<lparr>pbuf := replicate 64 0 @ peer @ peer2 @ [8, 0, x], data_offset := 64,
     data_len := 15, buf_type := MLAN_BUF_TYPE_DATA\<rparr>"

definition send_priv :: mlan_private where
  "send_priv = upd_ra 0 0 (\<lambda>r. r\<lparr>buf_head := [sample_msdu 1, sample_msdu 2], ra_max_amsdu := 2048\<rparr>) sample_queues"

definition send_device :: "mlan_private \<Rightarrow> mlan_device" where
  "send_device p = \<lparr>dev_adapter = sample_adapter, dev_privs = [Some p], bssprio_tbl = [([0], 0)], dev_calls = []\<rparr>"

definition card_says :: "mlan_status \<Rightarrow> card" where
  "card_says st b ad = (st, ad)"

lemma send_ras:
  "ras send_priv i = (if i = 0 then [(sample_node 100 peer False [sample_msdu 1, sample_msdu 2])\<lparr>ra_max_amsdu := 2048\<rparr>,
     sample_node 200 peer2 True [sample_buffer 3 0 0]] else ras sample_queues i)"
  by (cases "i = 0") (auto simp: send_priv_def upd_ra_def upd_tid_def upd_wmm_def ras_def sample_queues_def sample_node_def)

lemma send_priv_inv: "wmm_inv send_priv"
proof -
  have m: "map (\<lambda>r. (node_cnt r, tx_pause r, ra r)) (ras send_priv i) = map (\<lambda>r. (node_cnt r, tx_pause r, ra r)) (ras sample_queues i)" for i
    by (cases "i = 0") (simp_all add: send_ras sample_ras sample_node_def node_cnt_def)
  have m': "map node_cnt (ras send_priv i) = map node_cnt (ras sample_queues i)" "map ra (ras send_priv i) = map ra (ras sample_queues i)"
    "map (\<lambda>r. if tx_pause r then node_cnt r else 0) (ras send_priv i) = map (\<lambda>r. if tx_pause r then node_cnt r else 0) (ras sample_queues i)"
    "map (\<lambda>r. if tx_pause r then 0 else node_cnt r) (ras send_priv i) = map (\<lambda>r. if tx_pause r then 0 else node_cnt r) (ras sample_queues i)" for i
    by (cases "i = 0"; simp add: send_ras sample_ras sample_node_def node_cnt_def)+
  have ok: "\<forall>r \<in> set (ras send_priv i). node_ok r" if "i < MAX_NUM_TID" for i
    using that sample_queues_inv by (cases "i = 0") (auto simp: send_ras wmm_inv_def acct_def sample_node_def node_ok_def)
  have w: "pkts_queued (wmm send_priv) = pkts_queued (wmm sample_queues)" "pkts_paused (wmm send_priv) = pkts_paused (wmm sample_queues)"
    "tx_pkts_queued (wmm send_priv) = tx_pkts_queued (wmm sample_queues)" "length (tid_tbl_ptr (wmm send_priv)) = length (tid_tbl_ptr (wmm sample_queues))"
    by (simp_all add: send_priv_def upd_ra_def upd_tid_def upd_wmm_def)
  show ?thesis
    using sample_queues_inv ok unfolding wmm_inv_def acct_def ra_unique_def queued_sum_def paused_sum_def ready_sum_def w m' by simp
qed

lemma send_the_priv [simp]: "the_priv 0 (send_device p) = Some p" "dev_privs (send_device p) = [Some p]"
  "interface_order (send_device p) = [0]" "dev_calls (send_device p) = []" "dev_adapter (send_device p) = sample_adapter"
  by (simp_all add: send_device_def the_priv_def interface_order_def order_of_def)

lemma initial_prio_table: "prio_table initial_globals"
  unfolding prio_table_def by (simp add: initial_globals_def lessThan_nat_numeral lessThan_Suc) blast

lemma send_cursor: "cursor_ok send_priv"
  unfolding cursor_ok_def all8 by code_simp


subsection \<open>The choice\<close>

lemma highest_priolist_order_witness:
  "map_option (\<lambda>(r, d'). (r, dev_privs d')) (wlan_wmm_get_highest_priolist_ptr initial_globals (send_device send_priv))
     = visit_all initial_globals [0] [Some send_priv]"
  using highest_priolist_order [of "send_device send_priv" initial_globals] by (simp add: send_device_def tables_ok_def interface_order_def order_of_def)


text \<open>The same interface with its priority mark raised, so that the search finds TID 0 at priority 2.\<close>

definition marked_priv :: mlan_private where
  "marked_priv = write_highest_prio HIGH_PRIO_TID send_priv"

lemma marked_ras: "ras marked_priv i = ras send_priv i"
  by (simp add: marked_priv_def write_highest_prio_def ras_def)

lemma marked_sched_inv: "sched_inv initial_globals (send_device marked_priv)"
  using initial_prio_table send_cursor
  by (simp add: sched_inv_def tables_ok_def all_ok_def marked_priv_def) (simp add: send_device_def)

lemma highest_priolist_choice_witness:
  "\<exists>d'. wlan_wmm_get_highest_priolist_ptr initial_globals (send_device marked_priv) = Some (Some (0, 0, 0), d')
     \<and> chosen initial_globals marked_priv 0 0"
proof -
  have "map_option fst (wlan_wmm_get_highest_priolist_ptr initial_globals (send_device marked_priv)) = Some (Some (0, 0, 0))"
    by code_simp
  then obtain d' where d': "wlan_wmm_get_highest_priolist_ptr initial_globals (send_device marked_priv) = Some (Some (0, 0, 0), d')"
    by auto
  then show ?thesis using highest_priolist_choice [OF marked_sched_inv _ d'] by auto
qed

subsection \<open>One packet\<close>

lemma process_tx_fate_witness:
  "\<exists>b1 d1. wlan_process_tx (\<lambda>_. 0) (card_says MLAN_STATUS_SUCCESS) 0 (sample_msdu 1) 0 (send_device send_priv)
       = Some (MLAN_STATUS_SUCCESS, b1, d1)
     \<and> dev_calls d1 = [Call_wlan_sdio_host_to_card b1 0, Call_wlan_write_data_complete b1 MLAN_STATUS_SUCCESS]"
proof -
  have "map_option fst (wlan_process_tx (\<lambda>_. 0) (card_says MLAN_STATUS_SUCCESS) 0 (sample_msdu 1) 0 (send_device send_priv))
      = Some MLAN_STATUS_SUCCESS" by code_simp
  then obtain b1 d1 where r: "wlan_process_tx (\<lambda>_. 0) (card_says MLAN_STATUS_SUCCESS) 0 (sample_msdu 1) 0 (send_device send_priv)
      = Some (MLAN_STATUS_SUCCESS, b1, d1)" by auto
  from process_tx_fate [OF r] show ?thesis using r by (auto split: if_splits)
qed

lemma send_head:
  "ra_pos send_priv 0 100 = Some 0" "buf_head (ras send_priv 0 ! 0) = [sample_msdu 1, sample_msdu 2]" "\<not> tx_pause (ras send_priv 0 ! 0)"
  by (simp_all add: ra_pos_def send_ras sample_node_def)

lemma send_single_keeps_accounts_witness:
  "\<exists>d' p'. wlan_send_single_packet (\<lambda>_. 0) (card_says MLAN_STATUS_PENDING) (\<lambda>d. d) 0 100 0 (send_device send_priv) = Some d'
     \<and> the_priv 0 d' = Some p' \<and> wmm_inv p' \<and> queue_at p' 0 0 = [sample_msdu 2]"
proof -
  have "map_option fst (wlan_process_tx (\<lambda>_. 0) (card_says MLAN_STATUS_PENDING) 0 (sample_msdu 1) (next_pkt_len [sample_msdu 2])
      (upd_priv 0 (take_head 0 0) (send_device send_priv))) = Some MLAN_STATUS_PENDING" by code_simp
  then obtain b1 d1 where r: "wlan_process_tx (\<lambda>_. 0) (card_says MLAN_STATUS_PENDING) 0 (sample_msdu 1) (next_pkt_len [sample_msdu 2])
      (upd_priv 0 (take_head 0 0) (send_device send_priv)) = Some (MLAN_STATUS_PENDING, b1, d1)" by auto
  from send_single_keeps_accounts [OF send_the_priv(1) send_priv_inv _ send_head(1,3,2) r] show ?thesis by fastforce
qed

subsection \<open>The races\<close>

text \<open>Another thread pauses the receiver, or removes it, while its packet is with the card.\<close>

definition pausing :: others where
  "pausing = upd_priv 0 (\<lambda>p. snd (wlan_update_ralist_tx_pause peer True p))"

definition removing :: others where
  "removing = upd_priv 0 (\<lambda>p. priv (wlan_wmm_delete_peer_ralist peer \<lparr>adapter = sample_adapter, priv = p, calls = []\<rparr>))"

abbreviation paused_meanwhile :: mlan_private where
  "paused_meanwhile \<equiv> snd (wlan_update_ralist_tx_pause peer True (take_head 0 0 send_priv))"

lemma paused_values:
  "map (\<lambda>i. map (\<lambda>r. (ra r, length (buf_head r), total_pkts r, tx_pause r)) (ras paused_meanwhile i)) [0..<8]
     = [(peer, 1, 1, True), (peer2, 1, 1, True)] # replicate 7 [(peer, 0, 0, True), (peer2, 0, 0, True)]"
  "pkts_queued (wmm paused_meanwhile) = 2 # replicate 7 0" "pkts_paused (wmm paused_meanwhile) = 2 # replicate 7 0"
  "scalar_value (tx_pkts_queued (wmm paused_meanwhile)) = 0" "length (tid_tbl_ptr (wmm paused_meanwhile)) = 8"
  by code_simp+

abbreviation removed_meanwhile :: mlan_private where
  "removed_meanwhile \<equiv> priv (wlan_wmm_delete_peer_ralist peer \<lparr>adapter = sample_adapter,
     priv = upd_ra 0 0 (\<lambda>r. r\<lparr>buf_head := [sample_msdu 2]\<rparr>) send_priv, calls = []\<rparr>)"

lemma removed_values:
  "map (\<lambda>i. map (\<lambda>r. (ra r, length (buf_head r), total_pkts r, tx_pause r)) (ras removed_meanwhile i)) [0..<8]
     = [(peer2, 1, 1, True)] # replicate 7 [(peer2, 0, 0, True)]"
  "pkts_queued (wmm removed_meanwhile) = 1 # replicate 7 0" "pkts_paused (wmm removed_meanwhile) = 1 # replicate 7 0"
  "scalar_value (tx_pkts_queued (wmm removed_meanwhile)) = 0" "length (tid_tbl_ptr (wmm removed_meanwhile)) = 8"
  by code_simp+

text \<open>The invariant depends on these values only.\<close>

definition node_values :: "raListTbl \<Rightarrow> mac \<times> nat \<times> t_u16 \<times> bool" where
  "node_values r = (ra r, length (buf_head r), total_pkts r, tx_pause r)"

lemma wmm_inv_values:
  assumes "map (\<lambda>i. map node_values (ras p i)) [0..<8] = vs" "length (tid_tbl_ptr (wmm p)) = 8"
    "length (pkts_queued (wmm p)) = 8" "length (pkts_paused (wmm p)) = 8"
    "\<forall>i < 8. pkts_queued (wmm p) ! i = sum_list (map (\<lambda>(a, l, t, f). ucast t) (vs ! i))
       \<and> pkts_paused (wmm p) ! i = sum_list (map (\<lambda>(a, l, t, f). if f then ucast t else 0) (vs ! i))
       \<and> (\<forall>(a, l, t, f) \<in> set (vs ! i). l < 65536 \<and> t = of_nat l) \<and> distinct (map fst (vs ! i))"
    "scalar_value (tx_pkts_queued (wmm p)) = (\<Sum>i < 8. sum_list (map (\<lambda>(a, l, t, f). if f then 0 else ucast t) (vs ! i)))"
  shows "wmm_inv p"
proof -
  have v: "vs ! i = map node_values (ras p i)" if "i < 8" for i using assms(1) that by auto
  have "queued_sum (ras p i) = sum_list (map (\<lambda>(a, l, t, f). ucast t) (vs ! i))"
    "paused_sum (ras p i) = sum_list (map (\<lambda>(a, l, t, f). if f then ucast t else 0) (vs ! i))"
    "ready_sum (ras p i) = sum_list (map (\<lambda>(a, l, t, f). if f then 0 else ucast t) (vs ! i))"
    "(\<forall>r \<in> set (ras p i). node_ok r) = (\<forall>(a, l, t, f) \<in> set (vs ! i). l < 65536 \<and> t = of_nat l)"
    "map ra (ras p i) = map fst (vs ! i)" if "i < 8" for i
    unfolding v [OF that]
    by (simp_all add: queued_sum_def paused_sum_def ready_sum_def node_cnt_def [abs_def] node_values_def o_def node_ok_def cong: if_cong)
  then show ?thesis
    using assms(2-6) by (simp add: wmm_inv_def acct_def ra_unique_def)
qed

lemma paused_inv: "wmm_inv paused_meanwhile"
  by (rule wmm_inv_values [OF paused_values(1) [folded node_values_def]])
     (simp_all add: paused_values all8 sum8 upt8)

lemma removed_inv: "wmm_inv removed_meanwhile"
  by (rule wmm_inv_values [OF removed_values(1) [folded node_values_def]])
     (simp_all add: removed_values all8 sum8 upt8)

lemma requeue_to_paused_receiver_miscounts_witness:
  "\<exists>d' p'. wlan_send_single_packet (\<lambda>_. 0) (card_says MLAN_STATUS_RESOURCE) pausing 0 100 0 (send_device send_priv) = Some d'
     \<and> the_priv 0 d' = Some p' \<and> read_tx_pkts_queued p' = (\<Sum>i < MAX_NUM_TID. ready_sum (ras p' i)) + 1"
proof -
  have "map_option fst (wlan_process_tx (\<lambda>_. 0) (card_says MLAN_STATUS_RESOURCE) 0 (sample_msdu 1) (next_pkt_len [sample_msdu 2])
      (upd_priv 0 (take_head 0 0) (send_device send_priv))) = Some MLAN_STATUS_RESOURCE" by code_simp
  then obtain b1 d1 where r: "wlan_process_tx (\<lambda>_. 0) (card_says MLAN_STATUS_RESOURCE) 0 (sample_msdu 1) (next_pkt_len [sample_msdu 2])
      (upd_priv 0 (take_head 0 0) (send_device send_priv)) = Some (MLAN_STATUS_RESOURCE, b1, d1)" by auto
  let ?q = "snd (wlan_update_ralist_tx_pause peer True (take_head 0 0 send_priv))"
  have "the_priv 0 d1 = Some (take_head 0 0 send_priv)"
    unfolding the_priv_cong [OF process_tx_privs [OF r]] by (rule the_upd_priv) simp
  then have q: "the_priv 0 (pausing d1) = Some ?q" unfolding pausing_def by (rule the_upd_priv)
  have "ra_pos ?q 0 100 = Some 0" "tx_pause (ras ?q 0 ! 0)" "length (buf_head (ras ?q 0 ! 0)) = 1" by code_simp+
  then have "ra_pos ?q 0 100 = Some 0" "tx_pause (ras ?q 0 ! 0)" "length (buf_head (ras ?q 0 ! 0)) < 65535" by simp_all
  from requeue_to_paused_receiver_miscounts [where env = pausing, OF send_the_priv(1) send_head(1,2) _ r q paused_inv this] show ?thesis by auto
qed

lemma processed_packet_of_removed_receiver_miscounts_witness:
  "\<exists>d' p'. wlan_send_processed_packet (card_says MLAN_STATUS_SUCCESS) removing 0 100 0 (send_device send_priv) = Some d'
     \<and> the_priv 0 d' = Some p' \<and> pkts_queued (wmm p') ! 0 = queued_sum (ras p' 0) - 1"
proof -
  let ?d0 = "upd_priv 0 (upd_ra 0 0 (\<lambda>r. r\<lparr>buf_head := [sample_msdu 2]\<rparr>)) (send_device send_priv)"
  let ?d1 = "demit [Call_wlan_sdio_host_to_card (sample_msdu 1) (next_pkt_len [sample_msdu 2])] (?d0\<lparr>dev_adapter := sample_adapter\<rparr>)"
  let ?q = "priv (wlan_wmm_delete_peer_ralist peer \<lparr>adapter = sample_adapter,
     priv = upd_ra 0 0 (\<lambda>r. r\<lparr>buf_head := [sample_msdu 2]\<rparr>) send_priv, calls = []\<rparr>)"
  have "the_priv 0 ?d0 = Some (upd_ra 0 0 (\<lambda>r. r\<lparr>buf_head := [sample_msdu 2]\<rparr>) send_priv)" by (rule the_upd_priv) simp
  moreover have "the_priv 0 ?d1 = the_priv 0 ?d0" by (rule the_priv_cong) simp
  ultimately have "the_priv 0 ?d1 = Some (upd_ra 0 0 (\<lambda>r. r\<lparr>buf_head := [sample_msdu 2]\<rparr>) send_priv)" by simp
  then have q: "the_priv 0 (removing ?d1) = Some ?q" unfolding removing_def by (rule the_upd_priv)
  have m: "ra_pos ?q 0 100 = None" by code_simp
  have c: "card_says MLAN_STATUS_SUCCESS (sample_msdu 1) (dev_adapter (send_device send_priv)) = (MLAN_STATUS_SUCCESS, sample_adapter)"
    by (simp add: card_says_def)
  have "\<exists>d' p'. wlan_send_processed_packet (card_says MLAN_STATUS_SUCCESS) removing 0 100 0 (send_device send_priv) = Some d'
     \<and> the_priv 0 d' = Some p' \<and> read_tx_pkts_queued p' = (\<Sum>i < MAX_NUM_TID. ready_sum (ras p' i)) - 1
     \<and> pkts_queued (wmm p') ! 0 = queued_sum (ras p' 0) - 1"
    by (rule processed_packet_of_removed_receiver_miscounts [where h2c = "card_says MLAN_STATUS_SUCCESS" and env = removing
          and ?d1.0 = ?d1 and q = ?q and ret = MLAN_STATUS_SUCCESS and ad = sample_adapter])
       (rule send_the_priv(1) send_head(1,2) c q removed_inv m refl | simp)+
  then show ?thesis by blast
qed

subsection \<open>The descriptor and the bypass queue\<close>

lemma txpd_in_place_witness:
  "\<exists>h b' d'. wlan_ops_sta_process_txpd 0 send_priv (sample_msdu 1) (send_device send_priv) = Some (Some h, b', d')
     \<and> h mod DMA_ALIGNMENT = 0 \<and> drop 64 (pbuf b') = drop 64 (pbuf (sample_msdu 1))"
proof -
  have s: "map_option (\<lambda>(h, b', d'). h) (wlan_ops_sta_process_txpd 0 send_priv (sample_msdu 1) (send_device send_priv)) = Some (Some 32)"
    by code_simp
  then obtain b' d' where r: "wlan_ops_sta_process_txpd 0 send_priv (sample_msdu 1) (send_device send_priv) = Some (Some 32, b', d')" by auto
  have role: "bss_role send_priv = MLAN_BSS_ROLE_STA" "buf_type (sample_msdu 1) \<noteq> MLAN_BUF_TYPE_RAW_DATA"
    "data_len (sample_msdu 1) < 65536" "data_offset (sample_msdu 1) < 65536"
    by (simp_all add: send_priv_def sample_queues_def sample_private_def upd_ra_def upd_tid_def upd_wmm_def sample_msdu_def)
  then have "(if bss_role send_priv = MLAN_BSS_ROLE_STA then wlan_ops_sta_process_txpd ((\<lambda>_. 0) (sample_msdu 1)) send_priv (sample_msdu 1) (send_device send_priv)
               else wlan_ops_uap_process_txpd ((\<lambda>_. 0) (sample_msdu 1)) send_priv (sample_msdu 1) (send_device send_priv)) = Some (Some 32, b', d')"
    using r by simp
  from txpd_in_place [OF this role(2-4)] show ?thesis using r by (simp add: sample_msdu_def)
qed

definition bypass_priv :: mlan_private where
  "bypass_priv = sample_private\<lparr>bypass_txq := [sample_msdu 1]\<rparr>"

definition bypass_device :: mlan_device where
  "bypass_device = upd_adapter (\<lambda>a. a\<lparr>bypass_pkt_count := 1\<rparr>) (send_device bypass_priv)"

lemma bypass_the_priv: "the_priv 0 bypass_device = Some bypass_priv"
  by (simp add: bypass_device_def the_priv_def)

lemma bypass_count_kept_witness:
  "\<exists>d'. wlan_process_bypass_tx (\<lambda>_. 0) (card_says MLAN_STATUS_PENDING) bypass_device = Some d' \<and> bypass_ok d'"
proof -
  have "bypass_ok bypass_device"
    by (simp add: bypass_ok_def bypass_device_def queued_bypass_def bypass_priv_def)
  then have "wlan_process_bypass_tx (\<lambda>_. 0) (card_says MLAN_STATUS_PENDING) bypass_device = Some d' \<longrightarrow> bypass_ok d'" for d'
    using bypass_count_kept [of bypass_device "card_says MLAN_STATUS_PENDING" "\<lambda>_. 0" d' "sample_msdu 1"] by (simp add: card_says_def)
  moreover have "case wlan_process_bypass_tx (\<lambda>_. 0) (card_says MLAN_STATUS_PENDING) bypass_device of Some _ \<Rightarrow> True | None \<Rightarrow> False"
    by code_simp
  ultimately show ?thesis by (auto split: option.splits)
qed

lemma bypass_requeue_lost_witness:
  "\<exists>d' d'' b1. wlan_process_bypass_tx (\<lambda>_. 0) (card_says MLAN_STATUS_RESOURCE) bypass_device = Some d'
     \<and> wlan_process_bypass_tx (\<lambda>_. 0) (card_says MLAN_STATUS_SUCCESS) d' = Some d''
     \<and> dev_calls d'' = dev_calls d' @ [Call_wlan_write_data_complete b1 MLAN_STATUS_FAILURE]"
proof -
  have "map_option fst (wlan_process_tx (\<lambda>_. 0) (card_says MLAN_STATUS_RESOURCE) 0 (sample_msdu 1) 0
      (upd_priv 0 (\<lambda>p. p\<lparr>bypass_txq := []\<rparr>) bypass_device)) = Some MLAN_STATUS_RESOURCE" by code_simp
  then obtain b1 d1 where r: "wlan_process_tx (\<lambda>_. 0) (card_says MLAN_STATUS_RESOURCE) 0 (sample_msdu 1) 0
      (upd_priv 0 (\<lambda>p. p\<lparr>bypass_txq := []\<rparr>) bypass_device) = Some (MLAN_STATUS_RESOURCE, b1, d1)" by auto
  have b: "bypass_txq bypass_priv = [sample_msdu 1]" "buf_bss_index (sample_msdu 1) = 0" "buf_type (sample_msdu 1) \<noteq> MLAN_BUF_TYPE_RAW_DATA"
    "data_offset (sample_msdu 1) < 2 * (SIZEOF_TXPD + intf_hr_len bypass_priv) + DMA_ALIGNMENT" by code_simp+
  from bypass_requeue_lost [OF _ bypass_the_priv b r, of "card_says MLAN_STATUS_SUCCESS"] show ?thesis by auto
qed

subsection \<open>Aggregates\<close>

lemma aggregate_pkt_exact_witness:
  "\<exists>d' p' xs aggr. wlan_11n_aggregate_pkt (Some 500) (replicate 2048 0) (card_says MLAN_STATUS_PENDING) (\<lambda>d. d) 0 100 4 0 (send_device send_priv) = Some d'
     \<and> drop 24 (payload_bytes aggr) = amsdu_frame xs \<and> padded xs \<and> the_priv 0 d' = Some p' \<and> wmm_inv p'"
proof -
  have e: "\<forall>b \<in> set [sample_msdu 1, sample_msdu 2]. eth_packet b" by (simp add: eth_packet_def sample_msdu_def)
  have l: "unat (tx_buf_size (dev_adapter (send_device send_priv))) \<le> length (replicate 2048 (0 :: t_u8))"
    "4 + SIZEOF_TXPD \<le> length (replicate 2048 (0 :: t_u8))" by (simp_all add: sample_adapter_def)
  from aggregate_pkt_exact [OF send_the_priv(1) send_priv_inv _ send_head(1,3,2) _ e _ l, of "card_says MLAN_STATUS_PENDING" MLAN_STATUS_PENDING 500]
  show ?thesis by (auto simp: card_says_def)
qed

text \<open>Two packets in one frame, taken apart by the receiver.\<close>

definition sample_eth :: "t_u8 \<Rightarrow> t_u8 list" where
  "sample_eth x = peer @ peer2 @ [8, 0, x, x, x]"

definition sample_frame :: "(t_u8 list \<times> t_u8 list) list" where
  "sample_frame = [(sample_eth 1, [0, 0, 0]), (sample_eth 2, [])]"

lemma deaggregate_frame_roundtrip_witness:
  "\<exists>ret cs c'. wlan_11n_deaggregate_pkt Some (\<lambda>_. MLAN_STATUS_SUCCESS) (\<lambda>_. MLAN_STATUS_SUCCESS) (\<lambda>_. MLAN_STATUS_SUCCESS)
      ((sample_buffer 1 0 0)\<lparr>pbuf := amsdu_frame sample_frame, data_offset := 0, data_len := length (amsdu_frame sample_frame)\<rparr>) queue_ctx = Some (ret, c')
    \<and> msdus cs = [sample_eth 1, sample_eth 2]"
proof -
  have "padded sample_frame" "length (amsdu_frame sample_frame) \<le> MLAN_RX_DATA_BUF_SIZE" "map fst sample_frame = [sample_eth 1, sample_eth 2]"
    by code_simp+
  then show ?thesis
    using deaggregate_frame_roundtrip [of sample_frame Some "(sample_buffer 1 0 0)\<lparr>pbuf := amsdu_frame sample_frame, data_offset := 0,
        data_len := length (amsdu_frame sample_frame)\<rparr>" "[]" "[]" "\<lambda>_. MLAN_STATUS_SUCCESS" "\<lambda>_. MLAN_STATUS_SUCCESS" "\<lambda>_. MLAN_STATUS_SUCCESS" queue_ctx]
    by auto
qed

lemma deaggregate_length_check_overreads_witness:
  "wlan_11n_deaggregate_pkt Some (\<lambda>_. MLAN_STATUS_SUCCESS) (\<lambda>_. MLAN_STATUS_SUCCESS) (\<lambda>_. MLAN_STATUS_SUCCESS)
     ((sample_buffer 1 0 0)\<lparr>pbuf := replicate 12 0 @ [0, 22] @ replicate 8 1, data_offset := 0, data_len := 22\<rparr>) queue_ctx = None"
proof (rule deaggregate_length_check_overreads [where pre = "[]" and frame = "replicate 12 0 @ [0, 22] @ replicate 8 1"])
  show "take 2 (drop 12 (replicate 12 0 @ [0, 22] @ replicate 8 1)) = be16 (of_nat (length (replicate 12 (0::t_u8) @ [0, 22] @ replicate 8 1)))"
    "take 6 (drop 14 (replicate 12 0 @ [0, 22] @ replicate 8 1)) \<noteq> rfc1042_eth_hdr" by code_simp+
qed simp_all

end
