(* ===== verification/Cmd_State.thy ===== *)
theory Cmd_State
  imports Mlan_Prelude
begin

text \<open>
  The state of the command path (\<^verbatim>\<open>mlan_main.h\<close>, \<^verbatim>\<open>mlan_fw.h\<close>): the pool of command nodes with the three queues
  that hold them, the command that the firmware is working on, the pending requests of user space, and the
  fields of \<^verbatim>\<open>mlan_adapter\<close> that the command code reads and writes.

  A pointer to a command node is the index of the node in \<^verbatim>\<open>cmd_pool\<close>; a pointer to a request is a number in
  the store \<open>ioctls\<close>.  \<^verbatim>\<open>moal_ioctl_complete\<close> hands a request back to its owner, who frees it: the request leaves the
  store, and any later use of the pointer is undefined behaviour, the result \<open>None\<close>.  Outgoing calls are
  appended to \<open>cmd_log\<close>.
\<close>

subsection \<open>Constants\<close>

abbreviation MRVDRV_NUM_OF_CMD_BUFFER :: nat where "MRVDRV_NUM_OF_CMD_BUFFER \<equiv> 30"
abbreviation MRVDRV_SIZE_OF_CMD_BUFFER :: t_u16 where "MRVDRV_SIZE_OF_CMD_BUFFER \<equiv> 4096"
abbreviation DBG_CMD_NUM :: nat where "DBG_CMD_NUM \<equiv> 10"
abbreviation INTF_HEADER_LEN :: t_u32 where "INTF_HEADER_LEN \<equiv> 4"

abbreviation HostCmd_CMD_GET_HW_SPEC :: t_u16 where "HostCmd_CMD_GET_HW_SPEC \<equiv> 0x0003"
abbreviation HostCmd_CMD_802_11_SCAN :: t_u16 where "HostCmd_CMD_802_11_SCAN \<equiv> 0x0006"
abbreviation HostCmd_CMD_FUNC_INIT :: t_u16 where "HostCmd_CMD_FUNC_INIT \<equiv> 0x00a9"
abbreviation HostCmd_CMD_SOFT_RESET :: t_u16 where "HostCmd_CMD_SOFT_RESET \<equiv> 0x00d5"
abbreviation HostCmd_CMD_802_11_PS_MODE_ENH :: t_u16 where "HostCmd_CMD_802_11_PS_MODE_ENH \<equiv> 0x00e4"
abbreviation HostCmd_CMD_802_11_HS_CFG_ENH :: t_u16 where "HostCmd_CMD_802_11_HS_CFG_ENH \<equiv> 0x00e5"
abbreviation HostCmd_CMD_802_11_SCAN_EXT :: t_u16 where "HostCmd_CMD_802_11_SCAN_EXT \<equiv> 0x0107"
abbreviation HostCmd_CMD_FW_DUMP_EVENT :: t_u16 where "HostCmd_CMD_FW_DUMP_EVENT \<equiv> 0x0125"
abbreviation HostCmd_CMD_CHAN_REGION_CFG :: t_u16 where "HostCmd_CMD_CHAN_REGION_CFG \<equiv> 0x0242"
abbreviation HostCmd_CMD_CRYPTO :: t_u16 where "HostCmd_CMD_CRYPTO \<equiv> 0x025e"
abbreviation HostCmd_CMD_ID_MASK :: t_u16 where "HostCmd_CMD_ID_MASK \<equiv> 0x0fff"
abbreviation HostCmd_RET_BIT :: t_u16 where "HostCmd_RET_BIT \<equiv> 0x8000"
abbreviation HostCmd_ACT_GEN_SET :: t_u16 where "HostCmd_ACT_GEN_SET \<equiv> 1"
abbreviation DIS_AUTO_PS :: t_u16 where "DIS_AUTO_PS \<equiv> 0xfe"
abbreviation HS_ACTIVATE :: t_u16 where "HS_ACTIVATE \<equiv> 2"
abbreviation HOST_SLEEP_CFG_CANCEL :: t_u32 where "HOST_SLEEP_CFG_CANCEL \<equiv> 0xffffffff"

abbreviation CMD_F_HOSTCMD :: t_u32 where "CMD_F_HOSTCMD \<equiv> 1"
abbreviation CMD_F_CANCELED :: t_u32 where "CMD_F_CANCELED \<equiv> 2"
abbreviation CMD_F_SCAN :: t_u32 where "CMD_F_SCAN \<equiv> 4"

abbreviation MLAN_ERROR_NO_ERROR :: t_u32 where "MLAN_ERROR_NO_ERROR \<equiv> 0"
abbreviation MLAN_ERROR_FW_NOT_READY :: t_u32 where "MLAN_ERROR_FW_NOT_READY \<equiv> 1"
abbreviation MLAN_ERROR_FW_CMDRESP :: t_u32 where "MLAN_ERROR_FW_CMDRESP \<equiv> 3"
abbreviation MLAN_ERROR_CMD_TIMEOUT :: t_u32 where "MLAN_ERROR_CMD_TIMEOUT \<equiv> 0x80000005"
abbreviation MLAN_ERROR_CMD_DNLD_FAIL :: t_u32 where "MLAN_ERROR_CMD_DNLD_FAIL \<equiv> 0x80000006"
abbreviation MLAN_ERROR_CMD_CANCEL :: t_u32 where "MLAN_ERROR_CMD_CANCEL \<equiv> 0x80000007"
abbreviation MLAN_ERROR_CMD_RESP_FAIL :: t_u32 where "MLAN_ERROR_CMD_RESP_FAIL \<equiv> 0x80000008"
abbreviation MLAN_ERROR_CMD_SCAN_FAIL :: t_u32 where "MLAN_ERROR_CMD_SCAN_FAIL \<equiv> 0x8000000A"
abbreviation MLAN_ERROR_NO_MEM :: t_u32 where "MLAN_ERROR_NO_MEM \<equiv> 0x8000000F"

abbreviation MLAN_IOCTL_SCAN :: t_u32 where "MLAN_IOCTL_SCAN \<equiv> 0x00010000"

datatype WLAN_HARDWARE_STATUS =
    WlanHardwareStatusReady | WlanHardwareStatusGetHwSpec | WlanHardwareStatusGetHwSpecdone
  | WlanHardwareStatusInitializing | WlanHardwareStatusInitdone | WlanHardwareStatusReset
  | WlanHardwareStatusClosing | WlanHardwareStatusNotReady

datatype PS_STATE = PS_STATE_AWAKE | PS_STATE_PRE_SLEEP | PS_STATE_SLEEP_CFM | PS_STATE_SLEEP

datatype MLAN_EXT_SCAN_TYPE = EXT_SCAN_DEFAULT | EXT_SCAN_ENHANCE | EXT_SCAN_CANCEL

subsection \<open>Commands, nodes and requests\<close>

text \<open>
  The fields of a command or response that the command path itself reads: the header, the first 16 bits of the
  parameters (the action of the commands looked at), the conditions of a host sleep configuration and the scan
  type of an extended scan.
\<close>

record HostCmd_DS_COMMAND =
  hc_command :: t_u16
  hc_size :: t_u16
  hc_seq_num :: t_u16
  hc_result :: t_u16
  hc_action :: t_u16
  hc_conditions :: t_u32
  hc_ext_scan_type :: MLAN_EXT_SCAN_TYPE

definition zero_cmd :: HostCmd_DS_COMMAND where
  "zero_cmd = \<lparr>hc_command = 0, hc_size = 0, hc_seq_num = 0, hc_result = 0, hc_action = 0,
               hc_conditions = 0, hc_ext_scan_type = EXT_SCAN_DEFAULT\<rparr>"

text \<open>A response buffer: its identity, for the accounting of buffers, and the response in it.\<close>

record resp_buffer =
  rb_id :: nat
  rb_resp :: HostCmd_DS_COMMAND

record cmd_ctrl_node =
  cn_priv :: nat
  cmd_no :: t_u32
  cmd_flag :: t_u32
  cmdbuf :: HostCmd_DS_COMMAND
  cmdbuf_offset :: t_u32
  cmdbuf_len :: t_u32
  respbuf :: "resp_buffer option"
  pdata_buf :: "HostCmd_DS_COMMAND option"
  pioctl_buf :: "nat option"
  pmbuf :: bool

record mlan_ioctl_req =
  req_id :: t_u32
  req_bss_index :: nat
  status_code :: t_u32

record cmd_iface =
  if_bss_num :: t_u16
  if_bss_type :: t_u16
  if_bss_virtual :: bool

datatype cmd_event =
    MLAN_EVENT_ID_DRV_DBG_DUMP | MLAN_EVENT_ID_DRV_SCAN_REPORT | MLAN_EVENT_ID_DRV_DEFER_HANDLING
  | MLAN_EVENT_ID_DRV_HS_ACTIVATED | MLAN_EVENT_ID_DRV_HS_DEACTIVATED

datatype cmd_call =
    Ioctl_complete nat t_u32 mlan_status
  | Cmd_to_card nat HostCmd_DS_COMMAND
  | Start_cmd_timer
  | Stop_cmd_timer
  | Cmd_event nat cmd_event
  | Free_resp_buffer nat
  | Host_cmd_copied nat t_u16
  | Init_fw_complete
  | Update_rxreorder_tbl bool

subsection \<open>The command part of the adapter\<close>

record cmd_ctx =
  cmd_pool :: bool
  nodes :: "nat \<Rightarrow> cmd_ctrl_node"
  cmd_free_q :: "nat list"
  cmd_pending_q :: "nat list"
  scan_pending_q :: "nat list"
  curr_cmd :: "nat option"
  ioctls :: "nat \<Rightarrow> mlan_ioctl_req option"
  pscan_ioctl_req :: "nat option"
  pwarm_reset_ioctl_req :: "nat option"
  cmd_ifaces :: "cmd_iface option list"
  hw_status :: WLAN_HARDWARE_STATUS
  surprise_removed :: bool
  cmd_seq_num :: t_u16
  cmd_sent :: bool
  cmd_resp_received :: bool
  cmd_timer_is_set :: bool
  num_cmd_timeout :: t_u32
  last_init_cmd :: t_u16
  ps_state :: PS_STATE
  pm_wakeup_card_req :: bool
  pm_wakeup_fw_try :: bool
  is_hs_configured :: bool
  hs_activated :: bool
  hs_cfg_conditions :: t_u32
  scan_processing :: bool
  ext_scan :: bool
  ext_scan_enh :: bool
  ext_scan_type :: MLAN_EXT_SCAN_TYPE
  ext_scan_timeout :: bool
  last_cmd_index :: nat
  last_cmd_id :: "t_u16 list"
  last_cmd_act :: "t_u16 list"
  last_cmd_resp_index :: nat
  last_cmd_resp_id :: "t_u16 list"
  dbg_num_cmd_timeout :: t_u32
  num_no_cmd_node :: t_u16
  num_cmd_h2c_failure :: t_u32
  cmd_log :: "cmd_call list"

definition note_call :: "cmd_call \<Rightarrow> cmd_ctx \<Rightarrow> cmd_ctx" where
  "note_call c s = s\<lparr>cmd_log := cmd_log s @ [c]\<rparr>"

definition upd_node :: "nat \<Rightarrow> (cmd_ctrl_node \<Rightarrow> cmd_ctrl_node) \<Rightarrow> cmd_ctx \<Rightarrow> cmd_ctx" where
  "upd_node i f s = s\<lparr>nodes := (nodes s)(i := f (nodes s i))\<rparr>"

text \<open>Writing the status code of a request through its pointer: the request must not be freed.\<close>

definition set_status_code :: "nat \<Rightarrow> t_u32 \<Rightarrow> cmd_ctx \<Rightarrow> cmd_ctx option" where
  "set_status_code r c s =
     (case ioctls s r of
        None \<Rightarrow> None
      | Some q \<Rightarrow> Some (s\<lparr>ioctls := (ioctls s)(r \<mapsto> q\<lparr>status_code := c\<rparr>)\<rparr>))"

text \<open>Writing through a pointer that may be null, where the code tests it.\<close>

definition set_status_if :: "nat option \<Rightarrow> t_u32 \<Rightarrow> cmd_ctx \<Rightarrow> cmd_ctx option" where
  "set_status_if p c s = (case p of None \<Rightarrow> Some s | Some r \<Rightarrow> set_status_code r c s)"

definition moal_ioctl_complete :: "nat \<Rightarrow> mlan_status \<Rightarrow> cmd_ctx \<Rightarrow> cmd_ctx option" where
  "moal_ioctl_complete r st s =
     (case ioctls s r of
        None \<Rightarrow> None
      | Some q \<Rightarrow> Some (note_call (Ioctl_complete r (status_code q) st) (s\<lparr>ioctls := (ioctls s)(r := None)\<rparr>)))"

text \<open>\<^verbatim>\<open>pioctl_buf->status_code = code; moal_ioctl_complete(pioctl_buf, MLAN_STATUS_FAILURE)\<close>\<close>

definition fail_request :: "nat \<Rightarrow> t_u32 \<Rightarrow> cmd_ctx \<Rightarrow> cmd_ctx option" where
  "fail_request r c s = do { s1 \<leftarrow> set_status_code r c s; moal_ioctl_complete r MLAN_STATUS_FAILURE s1 }"

subsection \<open>Interfaces\<close>

text \<open>\<^verbatim>\<open>wlan_get_priv\<close> for any role, and the interface with a given number and type; at most 16 are looked at.\<close>

definition any_priv :: "cmd_ctx \<Rightarrow> nat option" where
  "any_priv s = find_index (\<lambda>p. p \<noteq> None) (take 16 (cmd_ifaces s))"

definition wlan_get_priv_by_id :: "t_u16 \<Rightarrow> t_u16 \<Rightarrow> cmd_ctx \<Rightarrow> nat option" where
  "wlan_get_priv_by_id num ty s =
     find_index (\<lambda>p. case p of None \<Rightarrow> False | Some i \<Rightarrow> if_bss_num i = num \<and> if_bss_type i = ty)
       (take 16 (cmd_ifaces s))"

definition iface_present :: "cmd_ctx \<Rightarrow> nat \<Rightarrow> bool" where
  "iface_present s b \<longleftrightarrow> b < length (cmd_ifaces s) \<and> cmd_ifaces s ! b \<noteq> None"

definition wlan_recv_event :: "nat option \<Rightarrow> cmd_event \<Rightarrow> cmd_ctx \<Rightarrow> cmd_ctx" where
  "wlan_recv_event p e s = (case p of None \<Rightarrow> s | Some i \<Rightarrow> note_call (Cmd_event i e) s)"

subsection \<open>Sequence numbers\<close>

text \<open>The number of a command carries the interface in its upper byte (\<^verbatim>\<open>mlan_fw.h\<close>).\<close>

definition HostCmd_SET_SEQ_NO_BSS_INFO :: "t_u16 \<Rightarrow> t_u16 \<Rightarrow> t_u16 \<Rightarrow> t_u16" where
  "HostCmd_SET_SEQ_NO_BSS_INFO sn num ty =
     (sn AND 0x00ff OR push_bit 8 (num AND 0x000f)) OR push_bit 12 (ty AND 0x000f)"

definition HostCmd_GET_SEQ_NO :: "t_u16 \<Rightarrow> t_u16" where
  "HostCmd_GET_SEQ_NO sn = sn AND 0x00ff"

definition HostCmd_GET_BSS_NO :: "t_u16 \<Rightarrow> t_u16" where
  "HostCmd_GET_BSS_NO sn = drop_bit 8 (sn AND 0x0f00)"

definition HostCmd_GET_BSS_TYPE :: "t_u16 \<Rightarrow> t_u16" where
  "HostCmd_GET_BSS_TYPE sn = drop_bit 12 (sn AND 0xf000)"

end
