(* ===== verification/Cmd_Queue.thy ===== *)
theory Cmd_Queue
  imports Cmd_State
begin

text \<open>
  The life of a command (\<^verbatim>\<open>mlan_cmdevt.c\<close>): a free node is taken and filled (\<open>wlan_prepare_cmd\<close>), waits in a queue, is
  sent to the card (\<open>wlan_exec_next_cmd\<close>) and stays the current command until its response has been handled
  (\<open>wlan_process_cmdresp\<close> in \<^verbatim>\<open>Cmd_Resp\<close>) or it is cancelled (\<^verbatim>\<open>Cmd_Cancel\<close>); then the node is free again.
  The code that fills in the parameters of one particular command (\<^verbatim>\<open>ops.prepare_cmd\<close>) is the argument \<open>enc\<close>, the answer
  of the bus the argument \<open>h2c\<close>.
\<close>

subsection \<open>Returning a node\<close>

definition wlan_clean_cmd_node :: "nat \<Rightarrow> cmd_ctx \<Rightarrow> cmd_ctx" where
  "wlan_clean_cmd_node i s =
     (let s1 = upd_node i (\<lambda>n. n\<lparr>cmd_no := 0, cmd_flag := 0, pioctl_buf := None, pdata_buf := None\<rparr>) s in
      case respbuf (nodes s1 i) of
        None \<Rightarrow> s1
      | Some b \<Rightarrow> upd_node i (\<lambda>n. n\<lparr>respbuf := None\<rparr>) (note_call (Free_resp_buffer (rb_id b)) s1))"

text \<open>The request of the node is completed, as a success exactly when its status code is clear.\<close>

definition complete_own :: "nat \<Rightarrow> cmd_ctx \<Rightarrow> cmd_ctx option" where
  "complete_own i s =
     (case pioctl_buf (nodes s i) of
        None \<Rightarrow> Some s
      | Some r \<Rightarrow>
          (case ioctls s r of
             None \<Rightarrow> None
           | Some q \<Rightarrow>
               moal_ioctl_complete r
                 (if status_code q \<noteq> MLAN_ERROR_NO_ERROR then MLAN_STATUS_FAILURE else MLAN_STATUS_SUCCESS) s))"

definition wlan_insert_cmd_to_free_q :: "nat option \<Rightarrow> cmd_ctx \<Rightarrow> cmd_ctx option" where
  "wlan_insert_cmd_to_free_q p s =
     (case p of
        None \<Rightarrow> Some s
      | Some i \<Rightarrow> do {
          s1 \<leftarrow> complete_own i s;
          let s2 = wlan_clean_cmd_node i s1;
          Some (s2\<lparr>cmd_free_q := cmd_free_q s2 @ [i]\<rparr>) })"

subsection \<open>Taking a node\<close>

definition wlan_get_cmd_node :: "cmd_ctx \<Rightarrow> nat option \<times> cmd_ctx" where
  "wlan_get_cmd_node s =
     (case cmd_free_q s of
        [] \<Rightarrow> (None, s)
      | i # q \<Rightarrow> (Some i, s\<lparr>cmd_free_q := q\<rparr>))"

text \<open>A node whose buffer was never allocated is dereferenced here.\<close>

definition wlan_init_cmd_node ::
  "nat \<Rightarrow> nat \<Rightarrow> t_u32 \<Rightarrow> nat option \<Rightarrow> HostCmd_DS_COMMAND option \<Rightarrow> cmd_ctx \<Rightarrow> cmd_ctx option" where
  "wlan_init_cmd_node bss i no pio pdata s =
     (if \<not> pmbuf (nodes s i) then None
      else Some (upd_node i (\<lambda>n. n\<lparr>cn_priv := bss, cmd_no := no, pioctl_buf := pio, pdata_buf := pdata,
                                  cmdbuf := zero_cmd, cmdbuf_offset := 0 + INTF_HEADER_LEN\<rparr>) s))"

subsection \<open>Queueing\<close>

definition wlan_queue_scan_cmd :: "nat \<Rightarrow> cmd_ctx \<Rightarrow> cmd_ctx" where
  "wlan_queue_scan_cmd i s =
     (let s1 = upd_node i (\<lambda>n. n\<lparr>cmd_flag := cmd_flag n OR CMD_F_SCAN\<rparr>) s in
      s1\<lparr>scan_pending_q := scan_pending_q s1 @ [i]\<rparr>)"

text \<open>A command that leaves power save overtakes the others while the card is not awake.\<close>

definition wlan_insert_cmd_to_pending_q :: "nat \<Rightarrow> bool \<Rightarrow> cmd_ctx \<Rightarrow> cmd_ctx" where
  "wlan_insert_cmd_to_pending_q i add_tail s =
     (let c = cmdbuf (nodes s i);
          tail = (if hc_command c = HostCmd_CMD_802_11_PS_MODE_ENH \<and> hc_action c = DIS_AUTO_PS
                     \<and> ps_state s \<noteq> PS_STATE_AWAKE then False else add_tail) in
      if tail then s\<lparr>cmd_pending_q := cmd_pending_q s @ [i]\<rparr>
      else s\<lparr>cmd_pending_q := i # cmd_pending_q s\<rparr>)"

subsection \<open>Debug reports\<close>

definition REASON_CODE_NO_CMD_NODE :: nat where "REASON_CODE_NO_CMD_NODE = 1"
definition REASON_CODE_CMD_TIMEOUT :: nat where "REASON_CODE_CMD_TIMEOUT = 2"
definition REASON_CODE_CMD_TO_CARD_FAILURE :: nat where "REASON_CODE_CMD_TO_CARD_FAILURE = 3"
definition REASON_CODE_EXT_SCAN_TIMEOUT :: nat where "REASON_CODE_EXT_SCAN_TIMEOUT = 4"

lemmas reason_codes = REASON_CODE_NO_CMD_NODE_def REASON_CODE_CMD_TIMEOUT_def
  REASON_CODE_CMD_TO_CARD_FAILURE_def REASON_CODE_EXT_SCAN_TIMEOUT_def

text \<open>Of the debug report only the counter and the event are kept; the rest prints.\<close>

definition wlan_dump_info :: "nat \<Rightarrow> cmd_ctx \<Rightarrow> cmd_ctx" where
  "wlan_dump_info reason s0 =
     (let s = (if reason = REASON_CODE_NO_CMD_NODE then s0\<lparr>num_no_cmd_node := num_no_cmd_node s0 + 1\<rparr> else s0) in
      if reason = REASON_CODE_NO_CMD_NODE \<and> num_no_cmd_node s > 1 then
        (if num_no_cmd_node s \<ge> 5 then wlan_recv_event (any_priv s) MLAN_EVENT_ID_DRV_DBG_DUMP s else s)
      else if reason \<noteq> REASON_CODE_CMD_TIMEOUT then
        (let p = (case curr_cmd s of None \<Rightarrow> None | Some i \<Rightarrow> Some (cn_priv (nodes s i))) in
         if num_no_cmd_node s \<ge> 5 \<or> (pm_wakeup_card_req s \<and> pm_wakeup_fw_try s)
            \<or> reason = REASON_CODE_EXT_SCAN_TIMEOUT then
           wlan_recv_event (case p of None \<Rightarrow> any_priv s | Some b \<Rightarrow> Some b) MLAN_EVENT_ID_DRV_DBG_DUMP s
         else s)
      else s)"

subsection \<open>Preparing a command\<close>

record cmd_request =
  rq_bss :: "nat option"
  rq_no :: t_u16
  rq_action :: t_u16
  rq_pioctl :: "nat option"
  rq_data :: "HostCmd_DS_COMMAND option"

text \<open>The two queues: which one, and at which end.\<close>

definition queue_prepared :: "cmd_request \<Rightarrow> nat \<Rightarrow> cmd_ctx \<Rightarrow> cmd_ctx" where
  "queue_prepared rq i s =
     (if rq_no rq = HostCmd_CMD_802_11_SCAN \<or> rq_no rq = HostCmd_CMD_802_11_SCAN_EXT then
        (if rq_no rq = HostCmd_CMD_802_11_SCAN_EXT \<and> ext_scan s \<and> ext_scan_enh s
            \<and> ext_scan_type s = EXT_SCAN_ENHANCE
         then wlan_insert_cmd_to_pending_q i False s
         else wlan_queue_scan_cmd i s)
      else if rq_no rq = HostCmd_CMD_802_11_HS_CFG_ENH \<and> rq_action rq = HostCmd_ACT_GEN_SET
              \<and> hs_cfg_conditions s = HOST_SLEEP_CFG_CANCEL
      then wlan_insert_cmd_to_pending_q i False s
      else wlan_insert_cmd_to_pending_q i True s)"

text \<open>Filling in the command: a command of its own encoder, or one given byte by byte.\<close>

definition encode_prepared ::
  "(HostCmd_DS_COMMAND \<Rightarrow> mlan_status \<times> HostCmd_DS_COMMAND) \<Rightarrow> cmd_request \<Rightarrow> nat \<Rightarrow> cmd_ctx
   \<Rightarrow> (mlan_status \<times> cmd_ctx) option" where
  "encode_prepared enc rq i s =
     (let c = (cmdbuf (nodes s i))\<lparr>hc_command := rq_no rq, hc_result := 0\<rparr> in
      if rq_no rq \<noteq> 0 then
        (let (ret, c') = enc c in Some (ret, upd_node i (\<lambda>n. n\<lparr>cmdbuf := c'\<rparr>) s))
      else
        (case rq_data rq of
           None \<Rightarrow> None
         | Some d \<Rightarrow>
             Some (MLAN_STATUS_SUCCESS,
                   upd_node i (\<lambda>n. n\<lparr>cmdbuf := d, cmd_flag := cmd_flag n OR CMD_F_HOSTCMD\<rparr>) s)))"

text \<open>The encoder failed: the request is told and the node goes back, without it.\<close>

definition abandon_node :: "cmd_request \<Rightarrow> nat \<Rightarrow> cmd_ctx \<Rightarrow> cmd_ctx option" where
  "abandon_node rq i s = do {
     s1 \<leftarrow> set_status_if (rq_pioctl rq) MLAN_ERROR_CMD_DNLD_FAIL (upd_node i (\<lambda>n. n\<lparr>pioctl_buf := None\<rparr>) s);
     wlan_insert_cmd_to_free_q (Some i) s1 }"

definition prepare_node ::
  "(HostCmd_DS_COMMAND \<Rightarrow> mlan_status \<times> HostCmd_DS_COMMAND) \<Rightarrow> cmd_request \<Rightarrow> nat \<Rightarrow> nat \<Rightarrow> cmd_ctx
   \<Rightarrow> (mlan_status \<times> cmd_ctx) option" where
  "prepare_node enc rq bss i s = do {
     s1 \<leftarrow> wlan_init_cmd_node bss i (ucast (rq_no rq)) (rq_pioctl rq) (rq_data rq) (s\<lparr>num_no_cmd_node := 0\<rparr>);
     (ret, s2) \<leftarrow> encode_prepared enc rq i s1;
     if ret \<noteq> MLAN_STATUS_SUCCESS then do {
       s3 \<leftarrow> abandon_node rq i s2;
       Some (MLAN_STATUS_FAILURE, s3) }
     else Some (MLAN_STATUS_SUCCESS, queue_prepared rq i s2) }"

definition wlan_prepare_cmd ::
  "(HostCmd_DS_COMMAND \<Rightarrow> mlan_status \<times> HostCmd_DS_COMMAND) \<Rightarrow> cmd_request \<Rightarrow> cmd_ctx
   \<Rightarrow> (mlan_status \<times> cmd_ctx) option" where
  "wlan_prepare_cmd enc rq s =
     (case rq_bss rq of
        None \<Rightarrow> Some (MLAN_STATUS_FAILURE, s)
      | Some bss \<Rightarrow>
          if \<not> iface_present s bss then Some (MLAN_STATUS_FAILURE, s)
          else if surprise_removed s \<or> (hw_status s = WlanHardwareStatusReset \<and> rq_no rq \<noteq> HostCmd_CMD_FUNC_INIT) then do {
            s1 \<leftarrow> set_status_if (rq_pioctl rq) MLAN_ERROR_FW_NOT_READY s;
            Some (MLAN_STATUS_FAILURE, s1) }
          else
            (case wlan_get_cmd_node s of
               (None, s1) \<Rightarrow> do {
                 s2 \<leftarrow> set_status_if (rq_pioctl rq) MLAN_ERROR_NO_MEM (wlan_dump_info REASON_CODE_NO_CMD_NODE s1);
                 Some (MLAN_STATUS_FAILURE, s2) }
             | (Some i, s1) \<Rightarrow> prepare_node enc rq bss i s1))"

subsection \<open>Sending a command\<close>

text \<open>\<^verbatim>\<open>wlan_sdio_host_to_card\<close> for a command: the flag \<^verbatim>\<open>cmd_sent\<close> stays set until the card has read it.\<close>

definition command_to_card :: "mlan_status \<Rightarrow> nat \<Rightarrow> cmd_ctx \<Rightarrow> cmd_ctx" where
  "command_to_card h2c i s =
     note_call (Cmd_to_card i (cmdbuf (nodes s i))) (s\<lparr>cmd_sent := h2c \<noteq> MLAN_STATUS_FAILURE\<rparr>)"

text \<open>The sequence number, the length and the debug record of the command about to be sent.\<close>

definition stamp_command :: "cmd_iface \<Rightarrow> nat \<Rightarrow> cmd_ctx \<Rightarrow> cmd_ctx" where
  "stamp_command ifc i s =
     (let sn = cmd_seq_num s + 1;
          s1 = upd_node i (\<lambda>n. n\<lparr>cmdbuf := (cmdbuf n)\<lparr>hc_seq_num :=
                                     HostCmd_SET_SEQ_NO_BSS_INFO sn (if_bss_num ifc) (if_bss_type ifc)\<rparr>,
                                cmd_no := ucast (hc_command (cmdbuf n)),
                                cmdbuf_len := ucast (hc_size (cmdbuf n))\<rparr>)
                 (s\<lparr>cmd_seq_num := sn\<rparr>);
          k = (last_cmd_index s + 1) mod DBG_CMD_NUM in
      s1\<lparr>curr_cmd := Some i, last_cmd_index := k,
         last_cmd_id := (last_cmd_id s)[k := hc_command (cmdbuf (nodes s i))],
         last_cmd_act := (last_cmd_act s)[k := hc_action (cmdbuf (nodes s i))]\<rparr>)"

definition wlan_dnld_cmd_to_fw :: "mlan_status \<Rightarrow> nat \<Rightarrow> cmd_ctx \<Rightarrow> (mlan_status \<times> cmd_ctx) option" where
  "wlan_dnld_cmd_to_fw h2c i s =
     (if hc_size (cmdbuf (nodes s i)) = 0 then do {
        s1 \<leftarrow> set_status_if (pioctl_buf (nodes s i)) MLAN_ERROR_CMD_DNLD_FAIL s;
        s2 \<leftarrow> wlan_insert_cmd_to_free_q (Some i) s1;
        Some (MLAN_STATUS_FAILURE, s2) }
      else
        (case arr_get (cmd_ifaces s) (int (cn_priv (nodes s i))) of
           Some (Some ifc) \<Rightarrow>
             (let code = hc_command (cmdbuf (nodes s i));
                  s1 = upd_node i (\<lambda>n. n\<lparr>cmdbuf_offset := cmdbuf_offset n - INTF_HEADER_LEN,
                                        cmdbuf_len := cmdbuf_len n + INTF_HEADER_LEN\<rparr>) (stamp_command ifc i s);
                  s2 = command_to_card h2c i s1 in
              if h2c = MLAN_STATUS_FAILURE then do {
                s3 \<leftarrow> set_status_if (pioctl_buf (nodes s2 i)) MLAN_ERROR_CMD_DNLD_FAIL s2;
                s4 \<leftarrow> wlan_insert_cmd_to_free_q (curr_cmd s3) s3;
                Some (MLAN_STATUS_FAILURE,
                      wlan_dump_info REASON_CODE_CMD_TO_CARD_FAILURE
                        (s4\<lparr>curr_cmd := None,
                            last_cmd_index := (if last_cmd_index s4 > 0 then last_cmd_index s4 - 1
                                               else DBG_CMD_NUM - 1),
                            num_cmd_h2c_failure := num_cmd_h2c_failure s4 + 1\<rparr>)) }
              else if code AND HostCmd_CMD_ID_MASK = HostCmd_CMD_FW_DUMP_EVENT
                      \<or> code AND HostCmd_CMD_ID_MASK = HostCmd_CMD_SOFT_RESET then
                (if pioctl_buf (nodes s2 i) = None then Some (h2c, s2)
                 else do {
                   s3 \<leftarrow> wlan_insert_cmd_to_free_q (curr_cmd s2) s2;
                   Some (h2c, s3\<lparr>curr_cmd := None\<rparr>) })
              else Some (MLAN_STATUS_SUCCESS, note_call Start_cmd_timer (s2\<lparr>cmd_timer_is_set := True\<rparr>)))
         | _ \<Rightarrow> None))"

definition wlan_host_sleep_activated_event :: "nat option \<Rightarrow> bool \<Rightarrow> cmd_ctx \<Rightarrow> cmd_ctx" where
  "wlan_host_sleep_activated_event p activated s =
     (case p of
        None \<Rightarrow> s
      | Some b \<Rightarrow>
          if activated then
            (if is_hs_configured s then
               wlan_recv_event p MLAN_EVENT_ID_DRV_HS_ACTIVATED
                 (note_call (Update_rxreorder_tbl True) (s\<lparr>hs_activated := True\<rparr>))
             else s)
          else wlan_recv_event p MLAN_EVENT_ID_DRV_HS_DEACTIVATED (s\<lparr>hs_activated := False\<rparr>))"

definition wlan_exec_next_cmd :: "mlan_status \<Rightarrow> cmd_ctx \<Rightarrow> (mlan_status \<times> cmd_ctx) option" where
  "wlan_exec_next_cmd h2c s =
     (if curr_cmd s \<noteq> None then Some (MLAN_STATUS_FAILURE, s)
      else
        (case cmd_pending_q s of
           [] \<Rightarrow> Some (MLAN_STATUS_SUCCESS, s)
         | i # q \<Rightarrow>
             if ps_state s \<noteq> PS_STATE_AWAKE then Some (MLAN_STATUS_SUCCESS, s)
             else do {
               (ret, s1) \<leftarrow> wlan_dnld_cmd_to_fw h2c i (s\<lparr>cmd_pending_q := q\<rparr>);
               Some (ret,
                 if any_priv s1 \<noteq> None \<and> hc_command (cmdbuf (nodes s1 i)) \<noteq> HostCmd_CMD_802_11_HS_CFG_ENH
                    \<and> hs_activated s1
                 then wlan_host_sleep_activated_event (any_priv s1) False (s1\<lparr>is_hs_configured := False\<rparr>)
                 else s1) }))"

definition wlan_is_cmd_pending :: "cmd_ctx \<Rightarrow> bool" where
  "wlan_is_cmd_pending s \<longleftrightarrow> cmd_pending_q s \<noteq> []"

subsection \<open>The pool\<close>

text \<open>The buffers of the nodes are allocated one after the other; the nodes are queued when all of them are there.\<close>

fun alloc_cmd_bufs :: "(nat \<Rightarrow> bool) \<Rightarrow> nat list \<Rightarrow> cmd_ctx \<Rightarrow> bool \<times> cmd_ctx" where
  "alloc_cmd_bufs alloc [] s = (True, s)"
| "alloc_cmd_bufs alloc (i # is) s =
     (if alloc i then alloc_cmd_bufs alloc is (upd_node i (\<lambda>n. n\<lparr>pmbuf := True\<rparr>) s) else (False, s))"

fun insert_free_all :: "nat list \<Rightarrow> cmd_ctx \<Rightarrow> cmd_ctx option" where
  "insert_free_all [] s = Some s"
| "insert_free_all (i # is) s = do { s1 \<leftarrow> wlan_insert_cmd_to_free_q (Some i) s; insert_free_all is s1 }"

definition zero_node :: cmd_ctrl_node where
  "zero_node = \<lparr>cn_priv = 0, cmd_no = 0, cmd_flag = 0, cmdbuf = zero_cmd, cmdbuf_offset = 0, cmdbuf_len = 0,
                respbuf = None, pdata_buf = None, pioctl_buf = None, pmbuf = False\<rparr>"

definition wlan_alloc_cmd_buffer :: "bool \<Rightarrow> (nat \<Rightarrow> bool) \<Rightarrow> cmd_ctx \<Rightarrow> (mlan_status \<times> cmd_ctx) option" where
  "wlan_alloc_cmd_buffer alloc_pool alloc s =
     (if \<not> alloc_pool then Some (MLAN_STATUS_FAILURE, s)
      else
        (case alloc_cmd_bufs alloc [0..<MRVDRV_NUM_OF_CMD_BUFFER] (s\<lparr>cmd_pool := True, nodes := (\<lambda>_. zero_node)\<rparr>) of
           (False, s1) \<Rightarrow> Some (MLAN_STATUS_FAILURE, s1)
         | (True, s1) \<Rightarrow> do {
             s2 \<leftarrow> insert_free_all [0..<MRVDRV_NUM_OF_CMD_BUFFER] s1;
             Some (MLAN_STATUS_SUCCESS, s2) }))"

end
