(* ===== verification/Cmd_Cancel.thy ===== *)
theory Cmd_Cancel
  imports Cmd_Queue
begin

text \<open>
  Taking commands back (\<^verbatim>\<open>mlan_cmdevt.c\<close>): flushing the scan queue and cancelling the commands of one request, of one
  interface, of the running scan, or all of them.  The loops of the code search the queue from its head
  again after every removal; each definition below does the same, and its termination is proved from the
  length of the queue.
\<close>

subsection \<open>What the operations on nodes leave alone\<close>

named_theorems cmd_frame "fields that the elementary operations of the command path do not touch"

lemma note_call_simps [simp]:
  "nodes (note_call c s) = nodes s" "cmd_free_q (note_call c s) = cmd_free_q s"
  "cmd_pending_q (note_call c s) = cmd_pending_q s" "scan_pending_q (note_call c s) = scan_pending_q s"
  "curr_cmd (note_call c s) = curr_cmd s" "ioctls (note_call c s) = ioctls s"
  "pscan_ioctl_req (note_call c s) = pscan_ioctl_req s" "cmd_ifaces (note_call c s) = cmd_ifaces s"
  "scan_processing (note_call c s) = scan_processing s" "ext_scan_type (note_call c s) = ext_scan_type s"
  "pwarm_reset_ioctl_req (note_call c s) = pwarm_reset_ioctl_req s" "hw_status (note_call c s) = hw_status s"
  "ps_state (note_call c s) = ps_state s" "cmd_log (note_call c s) = cmd_log s @ [c]"
  "cmd_timer_is_set (note_call c s) = cmd_timer_is_set s" "surprise_removed (note_call c s) = surprise_removed s"
  "num_no_cmd_node (note_call c s) = num_no_cmd_node s"
  by (simp_all add: note_call_def)

lemma upd_node_simps [simp]:
  "nodes (upd_node i f s) j = (if j = i then f (nodes s i) else nodes s j)" "cmd_free_q (upd_node i f s) = cmd_free_q s"
  "cmd_pending_q (upd_node i f s) = cmd_pending_q s" "scan_pending_q (upd_node i f s) = scan_pending_q s"
  "curr_cmd (upd_node i f s) = curr_cmd s" "ioctls (upd_node i f s) = ioctls s"
  "pscan_ioctl_req (upd_node i f s) = pscan_ioctl_req s" "cmd_ifaces (upd_node i f s) = cmd_ifaces s"
  "scan_processing (upd_node i f s) = scan_processing s" "ext_scan_type (upd_node i f s) = ext_scan_type s"
  "pwarm_reset_ioctl_req (upd_node i f s) = pwarm_reset_ioctl_req s" "hw_status (upd_node i f s) = hw_status s"
  "ps_state (upd_node i f s) = ps_state s" "cmd_log (upd_node i f s) = cmd_log s"
  "cmd_timer_is_set (upd_node i f s) = cmd_timer_is_set s" "surprise_removed (upd_node i f s) = surprise_removed s"
  "num_no_cmd_node (upd_node i f s) = num_no_cmd_node s"
  by (simp_all add: upd_node_def)

lemma clean_cmd_node_simps [simp]:
  "cmd_free_q (wlan_clean_cmd_node i s) = cmd_free_q s"
  "cmd_pending_q (wlan_clean_cmd_node i s) = cmd_pending_q s" "scan_pending_q (wlan_clean_cmd_node i s) = scan_pending_q s"
  "curr_cmd (wlan_clean_cmd_node i s) = curr_cmd s" "ioctls (wlan_clean_cmd_node i s) = ioctls s"
  "pscan_ioctl_req (wlan_clean_cmd_node i s) = pscan_ioctl_req s" "cmd_ifaces (wlan_clean_cmd_node i s) = cmd_ifaces s"
  by (simp_all add: wlan_clean_cmd_node_def Let_def split: option.splits)

lemma moal_ioctl_complete_Some:
  "moal_ioctl_complete r st s = Some s' \<longleftrightarrow>
     (\<exists>q. ioctls s r = Some q \<and>
          s' = note_call (Ioctl_complete r (status_code q) st) (s\<lparr>ioctls := (ioctls s)(r := None)\<rparr>))"
  by (auto simp: moal_ioctl_complete_def split: option.splits)

lemma insert_free_pending:
  assumes "wlan_insert_cmd_to_free_q p s = Some s'"
  shows "cmd_pending_q s' = cmd_pending_q s \<and> scan_pending_q s' = scan_pending_q s"
  using assms
  by (auto simp: wlan_insert_cmd_to_free_q_def complete_own_def moal_ioctl_complete_Some Let_def monad_simps
      split: option.splits)

lemma fail_request_pending:
  assumes "fail_request r c s = Some s'"
  shows "cmd_pending_q s' = cmd_pending_q s \<and> scan_pending_q s' = scan_pending_q s"
  using assms
  by (auto simp: fail_request_def set_status_code_def moal_ioctl_complete_Some monad_simps split: option.splits)

subsection \<open>The scan queue\<close>

function flush_scan_loop :: "cmd_ctx \<Rightarrow> cmd_ctx option" where
  "flush_scan_loop s =
     (case scan_pending_q s of
        [] \<Rightarrow> Some s
      | i # q \<Rightarrow> do {
          s1 \<leftarrow> wlan_insert_cmd_to_free_q (Some i)
                 (upd_node i (\<lambda>n. n\<lparr>pioctl_buf := None\<rparr>) (s\<lparr>scan_pending_q := q\<rparr>));
          flush_scan_loop s1 })"
  by pat_completeness auto
termination
  by (relation "measure (\<lambda>s. length (scan_pending_q s))") (auto dest: insert_free_pending)

definition wlan_flush_scan_queue :: "cmd_ctx \<Rightarrow> cmd_ctx option" where
  "wlan_flush_scan_queue s = do { s1 \<leftarrow> flush_scan_loop s; Some (s1\<lparr>scan_processing := False\<rparr>) }"

subsection \<open>Searching the queue of pending commands\<close>

definition wlan_get_pending_scan_cmd :: "cmd_ctx \<Rightarrow> nat option" where
  "wlan_get_pending_scan_cmd s = find (\<lambda>i. cmd_flag (nodes s i) AND CMD_F_SCAN \<noteq> 0) (cmd_pending_q s)"

definition wlan_get_pending_ioctl_cmd :: "nat \<Rightarrow> cmd_ctx \<Rightarrow> nat option" where
  "wlan_get_pending_ioctl_cmd r s = find (\<lambda>i. pioctl_buf (nodes s i) = Some r) (cmd_pending_q s)"

text \<open>The interface of a request is read through its pointer.\<close>

definition own_bss :: "nat \<Rightarrow> nat \<Rightarrow> cmd_ctx \<Rightarrow> bool" where
  "own_bss bss i s \<longleftrightarrow>
     (case pioctl_buf (nodes s i) of
        None \<Rightarrow> False
      | Some r \<Rightarrow> (case ioctls s r of None \<Rightarrow> False | Some q \<Rightarrow> req_bss_index q = bss))"

definition own_dead :: "nat \<Rightarrow> cmd_ctx \<Rightarrow> bool" where
  "own_dead i s \<longleftrightarrow> (case pioctl_buf (nodes s i) of None \<Rightarrow> False | Some r \<Rightarrow> ioctls s r = None)"

fun bss_pending_walk :: "nat \<Rightarrow> nat list \<Rightarrow> cmd_ctx \<Rightarrow> nat option option" where
  "bss_pending_walk bss [] s = Some None"
| "bss_pending_walk bss (i # is) s =
     (if own_dead i s then None
      else if own_bss bss i s then Some (Some i) else bss_pending_walk bss is s)"

definition wlan_get_bss_pending_ioctl_cmd :: "nat \<Rightarrow> cmd_ctx \<Rightarrow> nat option option" where
  "wlan_get_bss_pending_ioctl_cmd bss s = bss_pending_walk bss (cmd_pending_q s) s"

lemma bss_pending_walk_in: "bss_pending_walk bss is s = Some (Some i) \<Longrightarrow> i \<in> set is"
  by (induction "is") (auto split: if_splits)

lemma find_in: "find P xs = Some x \<Longrightarrow> x \<in> set xs"
  by (auto simp: find_Some_iff)

lemma remove1_shorter: "x \<in> set xs \<Longrightarrow> length (remove1 x xs) < length xs"
  using length_pos_if_in_set [of x xs] by (simp add: length_remove1)

subsection \<open>The request of the scan\<close>

text \<open>
  The first part of the cancel operations: the request of the running scan is completed as cancelled and the
  interface it names is remembered (\<^verbatim>\<open>pmadapter->priv[...]\<close>, outside of the array undefined).
\<close>

definition cancel_scan_request :: "cmd_ctx \<Rightarrow> (nat option \<times> cmd_ctx) option" where
  "cancel_scan_request s =
     (case pscan_ioctl_req s of
        None \<Rightarrow> Some (None, s)
      | Some r \<Rightarrow>
          (case ioctls s r of
             None \<Rightarrow> None
           | Some q \<Rightarrow> do {
               p \<leftarrow> arr_get (cmd_ifaces s) (int (req_bss_index q));
               s1 \<leftarrow> fail_request r MLAN_ERROR_CMD_CANCEL (s\<lparr>pscan_ioctl_req := None\<rparr>);
               Some (case p of None \<Rightarrow> None | Some _ \<Rightarrow> Some (req_bss_index q), s1) }))"

text \<open>The last part: an enhanced scan is stopped by another command, other scans by emptying the scan queue.\<close>

definition stop_scan ::
  "(HostCmd_DS_COMMAND \<Rightarrow> mlan_status \<times> HostCmd_DS_COMMAND) \<Rightarrow> nat option \<Rightarrow> nat option \<Rightarrow> cmd_ctx
   \<Rightarrow> (mlan_status \<times> cmd_ctx) option" where
  "stop_scan enc p pio s =
     (if scan_processing s \<and> ext_scan_type s = EXT_SCAN_ENHANCE then
        (case p of
           None \<Rightarrow> Some (MLAN_STATUS_SUCCESS, s)
         | Some b \<Rightarrow> do {
             (_, s1) \<leftarrow> wlan_prepare_cmd enc
                          \<lparr>rq_bss = Some b, rq_no = HostCmd_CMD_802_11_SCAN_EXT, rq_action = HostCmd_ACT_GEN_SET,
                           rq_pioctl = pio, rq_data = None\<rparr> s;
             Some (MLAN_STATUS_PENDING, wlan_recv_event (Some b) MLAN_EVENT_ID_DRV_DEFER_HANDLING s1) })
      else do { s1 \<leftarrow> wlan_flush_scan_queue s; Some (MLAN_STATUS_SUCCESS, s1) })"

subsection \<open>Cancelling a scan\<close>

function cancel_scan_loop :: "cmd_ctx \<Rightarrow> cmd_ctx option" where
  "cancel_scan_loop s =
     (case wlan_get_pending_scan_cmd s of
        None \<Rightarrow> Some s
      | Some i \<Rightarrow> do {
          s1 \<leftarrow> wlan_insert_cmd_to_free_q (Some i) (s\<lparr>cmd_pending_q := remove1 i (cmd_pending_q s)\<rparr>);
          cancel_scan_loop s1 })"
  by pat_completeness auto
termination
  by (relation "measure (\<lambda>s. length (cmd_pending_q s))")
     (auto simp: wlan_get_pending_scan_cmd_def remove1_shorter simp del: length_remove1
       dest!: insert_free_pending find_in)

definition mark_cancelled :: "nat \<Rightarrow> cmd_ctx \<Rightarrow> cmd_ctx" where
  "mark_cancelled i = upd_node i (\<lambda>n. n\<lparr>pioctl_buf := None, cmd_flag := cmd_flag n OR CMD_F_CANCELED\<rparr>)"

text \<open>The current command keeps its node until the card answers; only its request is completed.\<close>

definition cancel_curr_if :: "(mlan_ioctl_req \<Rightarrow> bool) \<Rightarrow> cmd_ctx \<Rightarrow> (mlan_ioctl_req option \<times> cmd_ctx) option" where
  "cancel_curr_if P s =
     (case curr_cmd s of
        None \<Rightarrow> Some (None, s)
      | Some i \<Rightarrow>
          (case pioctl_buf (nodes s i) of
             None \<Rightarrow> Some (None, s)
           | Some r \<Rightarrow>
               (case ioctls s r of
                  None \<Rightarrow> None
                | Some q \<Rightarrow>
                    if P q then do {
                      s1 \<leftarrow> fail_request r MLAN_ERROR_CMD_CANCEL (mark_cancelled i s);
                      Some (Some q, s1) }
                    else Some (None, s))))"

definition wlan_cancel_pending_scan_cmd ::
  "(HostCmd_DS_COMMAND \<Rightarrow> mlan_status \<times> HostCmd_DS_COMMAND) \<Rightarrow> nat \<Rightarrow> cmd_ctx
   \<Rightarrow> (mlan_status \<times> cmd_ctx) option" where
  "wlan_cancel_pending_scan_cmd enc r s = do {
     (p, s1) \<leftarrow> cancel_scan_request s;
     (_, s2) \<leftarrow> cancel_curr_if (\<lambda>q. req_id q = MLAN_IOCTL_SCAN) s1;
     s3 \<leftarrow> cancel_scan_loop s2;
     stop_scan enc p (Some r) s3 }"

subsection \<open>Cancelling everything\<close>

definition cancel_node :: "nat \<Rightarrow> cmd_ctx \<Rightarrow> cmd_ctx option" where
  "cancel_node i s = do {
     s1 \<leftarrow> (case pioctl_buf (nodes s i) of
              None \<Rightarrow> Some s
            | Some r \<Rightarrow> do {
                s' \<leftarrow> fail_request r MLAN_ERROR_CMD_CANCEL s;
                Some (upd_node i (\<lambda>n. n\<lparr>pioctl_buf := None\<rparr>) s') });
     wlan_insert_cmd_to_free_q (Some i) s1 }"

lemma cancel_node_pending:
  assumes "cancel_node i s = Some s'"
  shows "cmd_pending_q s' = cmd_pending_q s \<and> scan_pending_q s' = scan_pending_q s"
  using assms
  by (auto simp: cancel_node_def monad_simps split: option.splits dest!: insert_free_pending fail_request_pending)

function cancel_all_loop :: "cmd_ctx \<Rightarrow> cmd_ctx option" where
  "cancel_all_loop s =
     (case cmd_pending_q s of
        [] \<Rightarrow> Some s
      | i # q \<Rightarrow> do {
          s1 \<leftarrow> cancel_node i (s\<lparr>cmd_pending_q := q\<rparr>);
          cancel_all_loop s1 })"
  by pat_completeness auto
termination
  by (relation "measure (\<lambda>s. length (cmd_pending_q s))") (auto dest: cancel_node_pending)

definition wlan_cancel_all_pending_cmd ::
  "(HostCmd_DS_COMMAND \<Rightarrow> mlan_status \<times> HostCmd_DS_COMMAND) \<Rightarrow> cmd_ctx \<Rightarrow> cmd_ctx option" where
  "wlan_cancel_all_pending_cmd enc s = do {
     (p, s1) \<leftarrow> cancel_scan_request s;
     s2 \<leftarrow> (case curr_cmd s1 of None \<Rightarrow> Some s1 | Some i \<Rightarrow> cancel_node i (s1\<lparr>curr_cmd := None\<rparr>));
     s3 \<leftarrow> cancel_all_loop s2;
     (_, s4) \<leftarrow> stop_scan enc p None s3;
     Some s4 }"

subsection \<open>Cancelling the commands of an interface\<close>

text \<open>The flag of the result says whether a scan request was among those cancelled.\<close>

function cancel_bss_loop :: "nat \<Rightarrow> bool \<Rightarrow> cmd_ctx \<Rightarrow> (bool \<times> cmd_ctx) option" where
  "cancel_bss_loop bss flash s =
     (case wlan_get_bss_pending_ioctl_cmd bss s of
        None \<Rightarrow> None
      | Some None \<Rightarrow> Some (flash, s)
      | Some (Some i) \<Rightarrow>
          (case pioctl_buf (nodes s i) of
             None \<Rightarrow> None
           | Some r \<Rightarrow>
               (case ioctls s r of
                  None \<Rightarrow> None
                | Some q \<Rightarrow> do {
                    s1 \<leftarrow> fail_request r MLAN_ERROR_CMD_CANCEL
                           (upd_node i (\<lambda>n. n\<lparr>pioctl_buf := None\<rparr>)
                              (s\<lparr>cmd_pending_q := remove1 i (cmd_pending_q s)\<rparr>));
                    s2 \<leftarrow> wlan_insert_cmd_to_free_q (Some i) s1;
                    cancel_bss_loop bss (flash \<or> req_id q = MLAN_IOCTL_SCAN) s2 })))"
  by pat_completeness auto
termination
  by (relation "measure (\<lambda>(bss, flash, s). length (cmd_pending_q s))")
     (auto simp: wlan_get_bss_pending_ioctl_cmd_def remove1_shorter simp del: length_remove1
       dest!: insert_free_pending fail_request_pending bss_pending_walk_in)

definition wlan_cancel_bss_pending_cmd ::
  "(HostCmd_DS_COMMAND \<Rightarrow> mlan_status \<times> HostCmd_DS_COMMAND) \<Rightarrow> nat \<Rightarrow> cmd_ctx \<Rightarrow> cmd_ctx option" where
  "wlan_cancel_bss_pending_cmd enc bss s = do {
     mine \<leftarrow> (case pscan_ioctl_req s of
                None \<Rightarrow> Some False
              | Some r \<Rightarrow> (case ioctls s r of None \<Rightarrow> None | Some q \<Rightarrow> Some (req_bss_index q = bss)));
     (p, s1) \<leftarrow> (if mine then cancel_scan_request s else Some (None, s));
     (c, s2) \<leftarrow> cancel_curr_if (\<lambda>q. req_bss_index q = bss) s1;
     (flash, s3) \<leftarrow> cancel_bss_loop bss
                      (mine \<or> (case c of None \<Rightarrow> False | Some q \<Rightarrow> req_id q = MLAN_IOCTL_SCAN)) s2;
     if flash then do { (_, s4) \<leftarrow> stop_scan enc p None s3; Some s4 } else Some s3 }"

subsection \<open>Cancelling one request\<close>

function cancel_ioctl_loop :: "nat \<Rightarrow> bool \<Rightarrow> cmd_ctx \<Rightarrow> (bool \<times> cmd_ctx) option" where
  "cancel_ioctl_loop r found s =
     (case wlan_get_pending_ioctl_cmd r s of
        None \<Rightarrow> Some (found, s)
      | Some i \<Rightarrow> do {
          s1 \<leftarrow> wlan_insert_cmd_to_free_q (Some i)
                 (upd_node i (\<lambda>n. n\<lparr>pioctl_buf := None\<rparr>) (s\<lparr>cmd_pending_q := remove1 i (cmd_pending_q s)\<rparr>));
          cancel_ioctl_loop r True s1 })"
  by pat_completeness auto
termination
  by (relation "measure (\<lambda>(r, found, s). length (cmd_pending_q s))")
     (auto simp: wlan_get_pending_ioctl_cmd_def remove1_shorter simp del: length_remove1
       dest!: insert_free_pending find_in)

definition wlan_cancel_pending_ioctl ::
  "(HostCmd_DS_COMMAND \<Rightarrow> mlan_status \<times> HostCmd_DS_COMMAND) \<Rightarrow> nat \<Rightarrow> cmd_ctx \<Rightarrow> cmd_ctx option" where
  "wlan_cancel_pending_ioctl enc r s =
     (case ioctls s r of
        None \<Rightarrow> None
      | Some q \<Rightarrow> do {
          (p, find1, s1) \<leftarrow>
            (if pscan_ioctl_req s = Some r then do {
               x \<leftarrow> arr_get (cmd_ifaces s) (int (req_bss_index q));
               Some (case x of None \<Rightarrow> None | Some _ \<Rightarrow> Some (req_bss_index q), True, s\<lparr>pscan_ioctl_req := None\<rparr>) }
             else Some (None, False, s));
          let (find2, s2) =
            (case curr_cmd s1 of
               Some i \<Rightarrow> if pioctl_buf (nodes s1 i) = Some r then (True, mark_cancelled i s1) else (find1, s1)
             | None \<Rightarrow> (find1, s1));
          (find3, s3) \<leftarrow> cancel_ioctl_loop r find2 s2;
          (_, s4) \<leftarrow> (if req_id q = MLAN_IOCTL_SCAN then stop_scan enc p None s3
                      else Some (MLAN_STATUS_SUCCESS, s3));
          if find3 then fail_request r MLAN_ERROR_CMD_CANCEL s4 else Some s4 })"

end
