(* ===== verification/Cmd_Resp.thy ===== *)
theory Cmd_Resp
  imports Cmd_Cancel
begin

text \<open>
  The other end of a command (\<^verbatim>\<open>mlan_cmdevt.c\<close>, \<^verbatim>\<open>mlan_sta_cmdresp.c\<close>, \<^verbatim>\<open>mlan_scan.c\<close>, \<^verbatim>\<open>mlan_sdio.c\<close>): the response is
  attached to the current command, handled, and the node is released; scans, which are many commands for one
  request; the command timer.

  What a response handler does besides depends on the command.  The handlers of the other commands (\<^verbatim>\<open>wlan_ret_...\<close>) reach
  the command path only by preparing further commands without a request, by setting the status code of
  the request they answer and by naming the last command of the initialisation: such a handler is a list
  of \<open>resp_act\<close>, chosen by the fields of \<open>cmd_ops\<close> from the response and the state.
\<close>

type_synonym encoder = "HostCmd_DS_COMMAND \<Rightarrow> mlan_status \<times> HostCmd_DS_COMMAND"

datatype resp_act =
    Act_prepare encoder nat t_u16 t_u16
  | Act_host_cmd nat HostCmd_DS_COMMAND
  | Act_status t_u32
  | Act_last_init t_u16

text \<open>A group of channels of a scan: whether its total scan time is admissible, and the encoder of its command.\<close>

type_synonym scan_group = "bool \<times> encoder"

record cmd_ops =
  op_resp :: "t_u16 \<Rightarrow> HostCmd_DS_COMMAND \<Rightarrow> cmd_ctx \<Rightarrow> mlan_status \<times> resp_act list"
  op_error :: "HostCmd_DS_COMMAND \<Rightarrow> cmd_ctx \<Rightarrow> mlan_status \<times> resp_act list"
  op_scan_parse :: "HostCmd_DS_COMMAND \<Rightarrow> t_u32 option"
  op_rescan :: "nat \<Rightarrow> cmd_ctx \<Rightarrow> scan_group list option"
  op_init :: "nat \<Rightarrow> cmd_ctx \<Rightarrow> mlan_status \<times> resp_act list"

fun run_acts :: "nat option \<Rightarrow> resp_act list \<Rightarrow> cmd_ctx \<Rightarrow> cmd_ctx option" where
  "run_acts pio [] s = Some s"
| "run_acts pio (Act_prepare enc b no act # as) s =
     (if no = 0 then run_acts pio as s
      else do {
        (_, s1) \<leftarrow> wlan_prepare_cmd enc
                     \<lparr>rq_bss = Some b, rq_no = no, rq_action = act, rq_pioctl = None, rq_data = None\<rparr> s;
        run_acts pio as s1 })"
| "run_acts pio (Act_host_cmd b d # as) s = do {
     (_, s1) \<leftarrow> wlan_prepare_cmd (\<lambda>c. (MLAN_STATUS_SUCCESS, c))
                  \<lparr>rq_bss = Some b, rq_no = 0, rq_action = 0, rq_pioctl = None, rq_data = Some d\<rparr> s;
     run_acts pio as s1 }"
| "run_acts pio (Act_status c # as) s = do { s1 \<leftarrow> set_status_if pio c s; run_acts pio as s1 }"
| "run_acts pio (Act_last_init no # as) s = run_acts pio as (s\<lparr>last_init_cmd := no\<rparr>)"

definition run_handler :: "nat option \<Rightarrow> mlan_status \<times> resp_act list \<Rightarrow> cmd_ctx \<Rightarrow> (mlan_status \<times> cmd_ctx) option" where
  "run_handler pio h s = do { s1 \<leftarrow> run_acts pio (snd h) s; Some (fst h, s1) }"

subsection \<open>A response arrives from the card\<close>

text \<open>The case \<^verbatim>\<open>MLAN_TYPE_CMD\<close> of \<^verbatim>\<open>wlan_decode_rx_packet\<close>; without a current command the buffer is freed.\<close>

definition receive_cmd_response :: "resp_buffer \<Rightarrow> cmd_ctx \<Rightarrow> cmd_ctx" where
  "receive_cmd_response b s =
     (case curr_cmd s of
        None \<Rightarrow> note_call (Free_resp_buffer (rb_id b)) s
      | Some i \<Rightarrow> upd_node i (\<lambda>n. n\<lparr>respbuf := Some b\<rparr>) (s\<lparr>cmd_resp_received := True\<rparr>))"

subsection \<open>Scans\<close>

text \<open>The request of the scan is completed, with the status code given; the scan is over.\<close>

definition finish_scan_request :: "t_u32 \<Rightarrow> mlan_status \<Rightarrow> cmd_ctx \<Rightarrow> cmd_ctx option" where
  "finish_scan_request code st s =
     (let s1 = s\<lparr>scan_processing := False, pscan_ioctl_req := None\<rparr> in
      case pscan_ioctl_req s of
        None \<Rightarrow> Some s1
      | Some r \<Rightarrow> do { s2 \<leftarrow> set_status_code r code s1; moal_ioctl_complete r st s2 })"

definition abort_scan :: "t_u32 \<Rightarrow> cmd_ctx \<Rightarrow> cmd_ctx option" where
  "abort_scan code s = do {
     s1 \<leftarrow> wlan_flush_scan_queue s;
     finish_scan_request code MLAN_STATUS_FAILURE s1 }"

text \<open>The head of the scan queue becomes a pending command.\<close>

definition next_scan_command :: "cmd_ctx \<Rightarrow> cmd_ctx" where
  "next_scan_command s =
     (case scan_pending_q s of
        [] \<Rightarrow> s
      | i # q \<Rightarrow> wlan_insert_cmd_to_pending_q i True (s\<lparr>scan_pending_q := q\<rparr>))"

text \<open>
  Starting a scan: one command per group of channels.  A group is given by whether its total scan time is
  admissible and by the encoder of its command; an error leaves the commands queued so far where they are.
\<close>

fun wlan_scan_channel_list ::
  "nat \<Rightarrow> nat option \<Rightarrow> scan_group list \<Rightarrow> cmd_ctx
   \<Rightarrow> (mlan_status \<times> cmd_ctx) option" where
  "wlan_scan_channel_list b pio [] s = Some (MLAN_STATUS_SUCCESS, s)"
| "wlan_scan_channel_list b pio ((ok, enc) # gs) s =
     (if \<not> ok then do {
        s1 \<leftarrow> set_status_if pio MLAN_ERROR_CMD_SCAN_FAIL s; Some (MLAN_STATUS_FAILURE, s1) }
      else do {
        (ret, s1) \<leftarrow> wlan_prepare_cmd enc
                       \<lparr>rq_bss = Some b,
                        rq_no = (if ext_scan s then HostCmd_CMD_802_11_SCAN_EXT else HostCmd_CMD_802_11_SCAN),
                        rq_action = HostCmd_ACT_GEN_SET, rq_pioctl = None, rq_data = None\<rparr> s;
        if ret \<noteq> MLAN_STATUS_SUCCESS then Some (MLAN_STATUS_FAILURE, s1)
        else wlan_scan_channel_list b pio gs s1 })"

definition wlan_scan_networks ::
  "nat \<Rightarrow> nat option \<Rightarrow> scan_group list \<Rightarrow> cmd_ctx
   \<Rightarrow> (mlan_status \<times> cmd_ctx) option" where
  "wlan_scan_networks b pio gs s =
     (if gs = [] then do {
        s1 \<leftarrow> set_status_if pio MLAN_ERROR_CMD_SCAN_FAIL s; Some (MLAN_STATUS_FAILURE, s1) }
      else do {
        (ret, s1) \<leftarrow> wlan_scan_channel_list b pio gs s;
        if ret \<noteq> MLAN_STATUS_SUCCESS then Some (ret, s1)
        else if ext_scan s1 \<and> ext_scan_enh s1 \<and> ext_scan_type s1 = EXT_SCAN_ENHANCE then
          Some (MLAN_STATUS_SUCCESS, s1\<lparr>pscan_ioctl_req := pio, scan_processing := True\<rparr>)
        else if scan_pending_q s1 \<noteq> [] then
          Some (MLAN_STATUS_SUCCESS, next_scan_command (s1\<lparr>pscan_ioctl_req := pio, scan_processing := True\<rparr>))
        else Some (MLAN_STATUS_SUCCESS, s1) })"

text \<open>With the last command of a scan done, the scan may be repeated actively on channels scanned passively.\<close>

definition try_rescan :: "cmd_ops \<Rightarrow> nat \<Rightarrow> cmd_ctx \<Rightarrow> (bool \<times> cmd_ctx) option" where
  "try_rescan ops b s =
     (case pscan_ioctl_req s of
        None \<Rightarrow> Some (False, s)
      | Some r \<Rightarrow>
          (case op_rescan ops r s of
             None \<Rightarrow> Some (False, s)
           | Some gs \<Rightarrow> do {
               (ret, s1) \<leftarrow> wlan_scan_networks b (Some r) gs s;
               Some (ret = MLAN_STATUS_SUCCESS, s1) }))"

text \<open>The end of \<^verbatim>\<open>wlan_ret_802_11_scan\<close>: the next command of the scan, or the end of the scan.\<close>

definition wlan_ret_802_11_scan ::
  "cmd_ops \<Rightarrow> nat \<Rightarrow> HostCmd_DS_COMMAND \<Rightarrow> cmd_ctx \<Rightarrow> (mlan_status \<times> cmd_ctx) option" where
  "wlan_ret_802_11_scan ops b resp s =
     (case op_scan_parse ops resp of
        Some code \<Rightarrow> do { s1 \<leftarrow> abort_scan code s; Some (MLAN_STATUS_FAILURE, s1) }
      | None \<Rightarrow>
          if scan_pending_q s = [] then do {
            (again, s1) \<leftarrow> try_rescan ops b s;
            if again then Some (MLAN_STATUS_SUCCESS, s1)
            else do {
              s2 \<leftarrow> finish_scan_request MLAN_ERROR_NO_ERROR MLAN_STATUS_SUCCESS s1;
              Some (MLAN_STATUS_SUCCESS, wlan_recv_event (Some b) MLAN_EVENT_ID_DRV_SCAN_REPORT s2) } }
          else if hw_status s \<noteq> WlanHardwareStatusReady then do {
            s1 \<leftarrow> abort_scan MLAN_ERROR_FW_NOT_READY s; Some (MLAN_STATUS_FAILURE, s1) }
          else Some (MLAN_STATUS_SUCCESS, next_scan_command s))"

definition wlan_ret_802_11_scan_ext ::
  "HostCmd_DS_COMMAND \<Rightarrow> nat option \<Rightarrow> cmd_ctx \<Rightarrow> (mlan_status \<times> cmd_ctx) option" where
  "wlan_ret_802_11_scan_ext resp pio s =
     (case hc_ext_scan_type resp of
        EXT_SCAN_CANCEL \<Rightarrow>
          (let s1 = s\<lparr>scan_processing := False, ext_scan_type := EXT_SCAN_DEFAULT\<rparr> in
           case pio of
             None \<Rightarrow> Some (MLAN_STATUS_SUCCESS, s1)
           | Some r \<Rightarrow> do {
               s2 \<leftarrow> set_status_code r 0 s1;
               s3 \<leftarrow> moal_ioctl_complete r MLAN_STATUS_SUCCESS s2;
               Some (MLAN_STATUS_SUCCESS, s3) })
      | EXT_SCAN_ENHANCE \<Rightarrow> Some (MLAN_STATUS_SUCCESS, note_call Start_cmd_timer (s\<lparr>cmd_timer_is_set := True\<rparr>))
      | EXT_SCAN_DEFAULT \<Rightarrow> Some (MLAN_STATUS_SUCCESS, s))"

text \<open>The event that reports the results of an extended scan command.\<close>

definition wlan_handle_event_ext_scan_report :: "cmd_ops \<Rightarrow> nat \<Rightarrow> bool \<Rightarrow> cmd_ctx \<Rightarrow> cmd_ctx option" where
  "wlan_handle_event_ext_scan_report ops b more_event s =
     (if more_event \<or> ext_scan_type s = EXT_SCAN_ENHANCE then Some s
      else if scan_pending_q s = [] then do {
        (again, s1) \<leftarrow> try_rescan ops b s;
        if again then Some s1
        else do {
          s2 \<leftarrow> finish_scan_request MLAN_ERROR_NO_ERROR MLAN_STATUS_SUCCESS s1;
          Some (wlan_recv_event (Some b) MLAN_EVENT_ID_DRV_SCAN_REPORT s2) } }
      else if hw_status s \<noteq> WlanHardwareStatusReady then abort_scan MLAN_ERROR_FW_NOT_READY s
      else Some (next_scan_command s))"

text \<open>The event that ends an enhanced scan.\<close>

definition wlan_handle_event_ext_scan_status :: "cmd_ops \<Rightarrow> nat \<Rightarrow> cmd_ctx \<Rightarrow> cmd_ctx option" where
  "wlan_handle_event_ext_scan_status ops b s0 =
     (let s = (if curr_cmd s0 = None \<and> cmd_timer_is_set s0
               then note_call Stop_cmd_timer s0\<lparr>cmd_timer_is_set := False\<rparr> else s0) in
      do {
        (again, s1) \<leftarrow> try_rescan ops b s;
        if again then Some s1
        else do {
          s2 \<leftarrow> finish_scan_request MLAN_ERROR_NO_ERROR MLAN_STATUS_SUCCESS (s1\<lparr>ext_scan_type := EXT_SCAN_DEFAULT\<rparr>);
          Some (wlan_recv_event (Some b) MLAN_EVENT_ID_DRV_SCAN_REPORT s2) } })"

subsection \<open>Handling a response\<close>

definition wlan_ret_host_cmd :: "HostCmd_DS_COMMAND \<Rightarrow> nat option \<Rightarrow> cmd_ctx \<Rightarrow> cmd_ctx option" where
  "wlan_ret_host_cmd resp pio s =
     (case pio of
        None \<Rightarrow> Some s
      | Some r \<Rightarrow>
          if ioctls s r = None then None
          else Some (note_call (Host_cmd_copied r (min (hc_size resp) MRVDRV_SIZE_OF_CMD_BUFFER)) s))"

text \<open>Releasing the current command.\<close>

definition free_curr :: "cmd_ctx \<Rightarrow> cmd_ctx option" where
  "free_curr s = do {
     s1 \<leftarrow> wlan_insert_cmd_to_free_q (curr_cmd s) s;
     Some (s1\<lparr>curr_cmd := None\<rparr>) }"

definition wlan_ret_802_11_hs_cfg ::
  "nat \<Rightarrow> HostCmd_DS_COMMAND \<Rightarrow> nat option \<Rightarrow> cmd_ctx \<Rightarrow> (mlan_status \<times> cmd_ctx) option" where
  "wlan_ret_802_11_hs_cfg b resp pio s =
     (if hc_action resp = HS_ACTIVATE then do {
        s1 \<leftarrow> set_status_if pio MLAN_ERROR_NO_ERROR s;
        s2 \<leftarrow> free_curr s1;
        Some (MLAN_STATUS_SUCCESS, wlan_host_sleep_activated_event (Some b) True s2) }
      else if hc_conditions resp \<noteq> HOST_SLEEP_CFG_CANCEL then
        Some (MLAN_STATUS_SUCCESS, s\<lparr>is_hs_configured := True\<rparr>)
      else
        (let s1 = s\<lparr>is_hs_configured := False\<rparr> in
         Some (MLAN_STATUS_SUCCESS,
               if hs_activated s1 then wlan_host_sleep_activated_event (Some b) False s1 else s1)))"

text \<open>A command that the card refused.\<close>

definition wlan_process_cmdresp_error ::
  "cmd_ops \<Rightarrow> nat \<Rightarrow> HostCmd_DS_COMMAND \<Rightarrow> nat option \<Rightarrow> cmd_ctx \<Rightarrow> (mlan_status \<times> cmd_ctx) option" where
  "wlan_process_cmdresp_error ops b resp pio s = do {
     s1 \<leftarrow> set_status_if pio MLAN_ERROR_FW_CMDRESP s;
     (ret, s2) \<leftarrow>
       (if hc_command resp = HostCmd_CMD_802_11_SCAN_EXT \<or> hc_command resp = HostCmd_CMD_802_11_SCAN then do {
          s' \<leftarrow> abort_scan MLAN_ERROR_CMD_SCAN_FAIL s1;
          Some (MLAN_STATUS_FAILURE, wlan_recv_event (Some b) MLAN_EVENT_ID_DRV_SCAN_REPORT s') }
        else if hc_command resp = HostCmd_CMD_CHAN_REGION_CFG then Some (MLAN_STATUS_SUCCESS, s1)
        else run_handler pio (op_error ops resp s1) s1);
     s3 \<leftarrow> free_curr s2;
     Some (ret, s3) }"

text \<open>\<^verbatim>\<open>pmadapter->curr_cmd->pioctl_buf = MNULL\<close>\<close>

definition drop_curr_ioctl :: "cmd_ctx \<Rightarrow> cmd_ctx option" where
  "drop_curr_ioctl s =
     (case curr_cmd s of None \<Rightarrow> None | Some i \<Rightarrow> Some (upd_node i (\<lambda>n. n\<lparr>pioctl_buf := None\<rparr>) s))"

definition wlan_ops_sta_process_cmdresp ::
  "cmd_ops \<Rightarrow> nat \<Rightarrow> t_u16 \<Rightarrow> HostCmd_DS_COMMAND \<Rightarrow> nat option \<Rightarrow> cmd_ctx \<Rightarrow> (mlan_status \<times> cmd_ctx) option" where
  "wlan_ops_sta_process_cmdresp ops b no resp pio s =
     (if hc_result resp \<noteq> 0 then wlan_process_cmdresp_error ops b resp pio s
      else if no = HostCmd_CMD_802_11_SCAN then do {
        (ret, s1) \<leftarrow> wlan_ret_802_11_scan ops b resp s;
        s2 \<leftarrow> drop_curr_ioctl s1;
        Some (ret, s2) }
      else if no = HostCmd_CMD_802_11_SCAN_EXT then do {
        (ret, s1) \<leftarrow> wlan_ret_802_11_scan_ext resp pio s;
        s2 \<leftarrow> drop_curr_ioctl s1;
        Some (ret, s2) }
      else if no = HostCmd_CMD_802_11_HS_CFG_ENH then wlan_ret_802_11_hs_cfg b resp pio s
      else run_handler pio (op_resp ops no resp s) s)"

text \<open>The interface after the given one that needs initialising: present and not virtual.\<close>

definition next_real_iface :: "nat \<Rightarrow> cmd_ctx \<Rightarrow> nat option" where
  "next_real_iface b s =
     map_option (\<lambda>k. Suc b + k)
       (find_index (\<lambda>p. case p of None \<Rightarrow> False | Some i \<Rightarrow> \<not> if_bss_virtual i) (drop (Suc b) (cmd_ifaces s)))"

text \<open>The steps of the initialisation that follow a response.\<close>

definition after_response ::
  "cmd_ops \<Rightarrow> nat \<Rightarrow> t_u16 \<Rightarrow> mlan_status \<Rightarrow> cmd_ctx \<Rightarrow> (mlan_status \<times> cmd_ctx) option" where
  "after_response ops b no ret s =
     (if hw_status s = WlanHardwareStatusInitializing \<and> last_init_cmd s = no then
        (case next_real_iface b s of
           None \<Rightarrow>
             (case pwarm_reset_ioctl_req s of
                Some r \<Rightarrow> do {
                  s1 \<leftarrow> moal_ioctl_complete r MLAN_STATUS_SUCCESS (s\<lparr>hw_status := WlanHardwareStatusReady\<rparr>);
                  Some (ret, s1\<lparr>pwarm_reset_ioctl_req := None\<rparr>) }
              | None \<Rightarrow> Some (ret, s\<lparr>hw_status := WlanHardwareStatusInitdone\<rparr>))
         | Some b' \<Rightarrow> run_handler None (op_init ops b' s) s)
      else if hw_status s = WlanHardwareStatusGetHwSpec \<and> no = HostCmd_CMD_GET_HW_SPEC then
        Some (ret, s\<lparr>hw_status := WlanHardwareStatusGetHwSpecdone\<rparr>)
      else Some (ret, s))"

text \<open>The release of the node, with the status code its request ends with.\<close>

definition release_response :: "mlan_status \<Rightarrow> cmd_ctx \<Rightarrow> cmd_ctx option" where
  "release_response ret s =
     (case curr_cmd s of
        None \<Rightarrow> Some s
      | Some i \<Rightarrow> do {
          s1 \<leftarrow> (case pioctl_buf (nodes s i) of
                   None \<Rightarrow> Some s
                 | Some r \<Rightarrow>
                     (case ioctls s r of
                        None \<Rightarrow> None
                      | Some q \<Rightarrow>
                          if ret = MLAN_STATUS_SUCCESS then set_status_code r MLAN_ERROR_NO_ERROR s
                          else if ret = MLAN_STATUS_FAILURE \<and> status_code q = 0
                          then set_status_code r MLAN_ERROR_CMD_RESP_FAIL s
                          else Some s));
          wlan_insert_cmd_to_free_q (Some i) (s1\<lparr>curr_cmd := None\<rparr>) })"

text \<open>
  The part of \<^verbatim>\<open>wlan_process_cmdresp\<close> after the response has been matched and the command found not to be
  cancelled.  \<open>orig\<close> is the command field as received, \<open>pio\<close> the request as read at the start.
\<close>

definition handle_response ::
  "cmd_ops \<Rightarrow> HostCmd_DS_COMMAND \<Rightarrow> nat option \<Rightarrow> nat \<Rightarrow> cmd_ctx \<Rightarrow> (mlan_status \<times> cmd_ctx) option" where
  "handle_response ops resp0 pio i s = do {
     let host = cmd_flag (nodes s i) AND CMD_F_HOSTCMD \<noteq> 0;
     s1 \<leftarrow> (if host \<and> any_priv s \<noteq> None then wlan_ret_host_cmd resp0 pio s else Some s);
     let orig = hc_command resp0;
     let no = orig AND HostCmd_CMD_ID_MASK;
     let resp = resp0\<lparr>hc_command := no\<rparr>;
     let p = (case wlan_get_priv_by_id (HostCmd_GET_BSS_NO (hc_seq_num resp)) (HostCmd_GET_BSS_TYPE (hc_seq_num resp)) s1
              of Some b \<Rightarrow> Some b | None \<Rightarrow> any_priv s1);
     case p of
       None \<Rightarrow> Some (MLAN_STATUS_FAILURE, s1)
     | Some b \<Rightarrow> do {
         let k = (last_cmd_resp_index s1 + 1) mod DBG_CMD_NUM;
         let s2 = s1\<lparr>last_cmd_resp_index := k, last_cmd_resp_id := (last_cmd_resp_id s1)[k := orig]\<rparr>;
         if orig AND HostCmd_RET_BIT = 0 then do {
           s3 \<leftarrow> set_status_if pio MLAN_ERROR_FW_CMDRESP s2;
           s4 \<leftarrow> free_curr s3;
           Some (MLAN_STATUS_FAILURE, s4) }
         else do {
           (ret, s3) \<leftarrow>
             (if host then
                (let s' = upd_node i (\<lambda>n. n\<lparr>cmd_flag := cmd_flag n AND NOT CMD_F_HOSTCMD\<rparr>) s2 in
                 if hc_result resp = 0 \<and> no = HostCmd_CMD_802_11_HS_CFG_ENH
                 then wlan_ret_802_11_hs_cfg b resp pio s' else Some (MLAN_STATUS_SUCCESS, s'))
              else wlan_ops_sta_process_cmdresp ops b no resp pio s2);
           if (hw_status s3 = WlanHardwareStatusInitializing \<or> hw_status s3 = WlanHardwareStatusGetHwSpec)
              \<and> ret = MLAN_STATUS_FAILURE then
             (case pwarm_reset_ioctl_req s3 of
                Some r \<Rightarrow> do {
                  s4 \<leftarrow> fail_request r MLAN_ERROR_CMD_RESP_FAIL s3;
                  Some (ret, s4\<lparr>pwarm_reset_ioctl_req := None\<rparr>) }
              | None \<Rightarrow> Some (ret, note_call Init_fw_complete s3))
           else do {
             s4 \<leftarrow> release_response ret s3;
             after_response ops b no ret s4 } } } }"

text \<open>
  The whole function.  The request is read before the queue lock is taken; \<open>env\<close> is what other threads do to the
  command state until then.
\<close>

definition stop_command_timer :: "cmd_ctx \<Rightarrow> cmd_ctx" where
  "stop_command_timer s =
     (if cmd_timer_is_set s then note_call Stop_cmd_timer s\<lparr>cmd_timer_is_set := False, num_cmd_timeout := 0\<rparr>
      else s\<lparr>num_cmd_timeout := 0\<rparr>)"

definition wlan_process_cmdresp ::
  "cmd_ops \<Rightarrow> (cmd_ctx \<Rightarrow> cmd_ctx option) \<Rightarrow> cmd_ctx \<Rightarrow> (mlan_status \<times> cmd_ctx) option" where
  "wlan_process_cmdresp ops env s =
     (case curr_cmd s of
        None \<Rightarrow> Some (MLAN_STATUS_FAILURE, s)
      | Some c \<Rightarrow>
          (let pio = pioctl_buf (nodes s c) in
           case respbuf (nodes s c) of
             None \<Rightarrow> do {
               s1 \<leftarrow> set_status_if pio MLAN_ERROR_CMD_RESP_FAIL s; Some (MLAN_STATUS_FAILURE, s1) }
           | Some rb \<Rightarrow>
               (let resp = rb_resp rb in
                if cmd_no (nodes s c) \<noteq> ucast (hc_command resp AND HostCmd_CMD_ID_MASK)
                then Some (MLAN_STATUS_FAILURE, s)
                else do {
                  s1 \<leftarrow> env (stop_command_timer s);
                  case curr_cmd s1 of
                    None \<Rightarrow> None
                  | Some i \<Rightarrow>
                      if cmd_flag (nodes s1 i) AND CMD_F_CANCELED \<noteq> 0 then do {
                        s2 \<leftarrow> set_status_if pio MLAN_ERROR_CMD_CANCEL (s1\<lparr>curr_cmd := None\<rparr>);
                        s3 \<leftarrow> wlan_insert_cmd_to_free_q (Some i) s2;
                        Some (MLAN_STATUS_FAILURE, s3) }
                      else handle_response ops resp pio i s1 })))"

subsection \<open>The command timer\<close>

definition wlan_cmd_timeout_func :: "cmd_ctx \<Rightarrow> cmd_ctx option" where
  "wlan_cmd_timeout_func s0 =
     (let s = s0\<lparr>cmd_timer_is_set := False\<rparr> in
      case curr_cmd s of
        None \<Rightarrow>
          if ext_scan s \<and> ext_scan_enh s \<and> scan_processing s
          then Some (wlan_dump_info REASON_CODE_EXT_SCAN_TIMEOUT (s\<lparr>ext_scan_timeout := True\<rparr>))
          else Some s
      | Some i \<Rightarrow> do {
          s1 \<leftarrow> set_status_if (pioctl_buf (nodes s i)) MLAN_ERROR_CMD_TIMEOUT
                  (s\<lparr>num_cmd_timeout := num_cmd_timeout s + 1, dbg_num_cmd_timeout := dbg_num_cmd_timeout s + 1\<rparr>);
          let s2 = wlan_dump_info REASON_CODE_CMD_TIMEOUT s1;
          Some (if hw_status s2 = WlanHardwareStatusInitializing \<or> hw_status s2 = WlanHardwareStatusGetHwSpec
                then note_call Init_fw_complete s2
                else wlan_recv_event (Some (cn_priv (nodes s2 i))) MLAN_EVENT_ID_DRV_DBG_DUMP s2) })"

end
