(* ===== verification/Cmd_Inv.thy ===== *)
theory Cmd_Inv
  imports Cmd_Resp
begin

text \<open>
  The invariant of the command path, and the proof that every operation keeps it.  Each node of the pool is
  in exactly one place: the free queue, the pending queue, the scan queue, or current; free nodes are clean;
  each outstanding request is referred to from one place only and has not been completed.  An operation that has
  taken a node out of its queue holds it in its hand, the list \<open>h\<close> of the invariant.  Because using a completed
  request yields \<open>None\<close>, the statement that an operation returns \<open>Some\<close> says that it completes no request twice
  and touches none afterwards.
\<close>

subsection \<open>Total correctness of a step\<close>

definition okp :: "'a option \<Rightarrow> ('a \<Rightarrow> bool) \<Rightarrow> bool" where
  "okp m P \<longleftrightarrow> (case m of None \<Rightarrow> False | Some x \<Rightarrow> P x)"

lemma okp_Some [simp]: "okp (Some x) P = P x"
  by (simp add: okp_def)

lemma okp_None [simp]: "\<not> okp None P"
  by (simp add: okp_def)

lemma okp_bind [simp]: "okp (m \<bind> f) P = okp m (\<lambda>x. okp (f x) P)"
  by (cases m) simp_all

lemma okp_mono: "okp m P \<Longrightarrow> (\<And>x. P x \<Longrightarrow> Q x) \<Longrightarrow> okp m Q"
  by (cases m) simp_all

lemma okp_conj: "okp m P \<Longrightarrow> okp m Q \<Longrightarrow> okp m (\<lambda>x. P x \<and> Q x)"
  by (cases m) simp_all

lemma okpD: "okp m P \<Longrightarrow> \<exists>x. m = Some x \<and> P x"
  by (cases m) simp_all

lemma okpE: "okp m P \<Longrightarrow> m = Some x \<Longrightarrow> P x"
  by simp

subsection \<open>The invariant\<close>

definition curr_list :: "cmd_ctx \<Rightarrow> nat list" where
  "curr_list s = (case curr_cmd s of None \<Rightarrow> [] | Some i \<Rightarrow> [i])"

definition queued :: "cmd_ctx \<Rightarrow> nat list" where
  "queued s = cmd_pending_q s @ scan_pending_q s @ curr_list s"

definition pool_inv :: "nat list \<Rightarrow> cmd_ctx \<Rightarrow> bool" where
  "pool_inv h s \<longleftrightarrow> mset (h @ cmd_free_q s @ queued s) = mset [0..<MRVDRV_NUM_OF_CMD_BUFFER]"

definition clean_node :: "cmd_ctrl_node \<Rightarrow> bool" where
  "clean_node n \<longleftrightarrow> cmd_no n = 0 \<and> cmd_flag n = 0 \<and> pioctl_buf n = None \<and> pdata_buf n = None \<and> respbuf n = None"

definition node_inv :: "nat list \<Rightarrow> cmd_ctx \<Rightarrow> bool" where
  "node_inv h s \<longleftrightarrow>
     (\<forall>i < MRVDRV_NUM_OF_CMD_BUFFER. pmbuf (nodes s i)) \<and>
     (\<forall>i \<in> set (cmd_free_q s). clean_node (nodes s i)) \<and>
     (\<forall>i \<in> set (queued s). iface_present s (cn_priv (nodes s i)))"

text \<open>The requests referred to from a set of nodes, and from the two request pointers of the adapter.\<close>

definition node_refs :: "nat set \<Rightarrow> cmd_ctx \<Rightarrow> nat \<Rightarrow> bool" where
  "node_refs A s r \<longleftrightarrow> (\<exists>i \<in> A. pioctl_buf (nodes s i) = Some r)"

definition req_ok :: "nat set \<Rightarrow> cmd_ctx \<Rightarrow> bool" where
  "req_ok A s \<longleftrightarrow>
     (\<forall>r. node_refs A s r \<longrightarrow>
        ioctls s r \<noteq> None \<and> pscan_ioctl_req s \<noteq> Some r \<and> pwarm_reset_ioctl_req s \<noteq> Some r) \<and>
     (\<forall>i \<in> A. \<forall>j \<in> A. \<forall>r. pioctl_buf (nodes s i) = Some r \<longrightarrow> pioctl_buf (nodes s j) = Some r \<longrightarrow> i = j) \<and>
     (\<forall>r. pscan_ioctl_req s = Some r \<longrightarrow> ioctls s r \<noteq> None \<and> pwarm_reset_ioctl_req s \<noteq> Some r) \<and>
     (\<forall>r. pwarm_reset_ioctl_req s = Some r \<longrightarrow> ioctls s r \<noteq> None) \<and>
     (\<forall>r q. ioctls s r = Some q \<longrightarrow> req_bss_index q < length (cmd_ifaces s))"

definition req_inv :: "nat list \<Rightarrow> cmd_ctx \<Rightarrow> bool" where
  "req_inv h s \<longleftrightarrow> req_ok (set h \<union> set (queued s)) s"

definition cmd_inv :: "nat list \<Rightarrow> cmd_ctx \<Rightarrow> bool" where
  "cmd_inv h s \<longleftrightarrow> pool_inv h s \<and> node_inv h s \<and> req_inv h s"

lemmas cmd_inv_defs = cmd_inv_def pool_inv_def node_inv_def req_inv_def req_ok_def node_refs_def queued_def curr_list_def
  iface_present_def

lemma cmd_inv_fields [simp]:
  "cmd_inv h (note_call c s) = cmd_inv h s"
  "cmd_inv h (s\<lparr>scan_processing := b\<rparr>) = cmd_inv h s"
  "cmd_inv h (s\<lparr>hw_status := hw\<rparr>) = cmd_inv h s"
  "cmd_inv h (s\<lparr>num_no_cmd_node := w\<rparr>) = cmd_inv h s"
  "cmd_inv h (s\<lparr>cmd_sent := b\<rparr>) = cmd_inv h s"
  "cmd_inv h (s\<lparr>cmd_seq_num := w\<rparr>) = cmd_inv h s"
  "cmd_inv h (s\<lparr>cmd_resp_received := b\<rparr>) = cmd_inv h s"
  "cmd_inv h (s\<lparr>cmd_timer_is_set := b\<rparr>) = cmd_inv h s"
  "cmd_inv h (s\<lparr>num_cmd_timeout := v\<rparr>) = cmd_inv h s"
  "cmd_inv h (s\<lparr>dbg_num_cmd_timeout := v\<rparr>) = cmd_inv h s"
  "cmd_inv h (s\<lparr>num_cmd_h2c_failure := v\<rparr>) = cmd_inv h s"
  "cmd_inv h (s\<lparr>last_init_cmd := w\<rparr>) = cmd_inv h s"
  "cmd_inv h (s\<lparr>is_hs_configured := b\<rparr>) = cmd_inv h s"
  "cmd_inv h (s\<lparr>hs_activated := b\<rparr>) = cmd_inv h s"
  "cmd_inv h (s\<lparr>ext_scan_type := e\<rparr>) = cmd_inv h s"
  "cmd_inv h (s\<lparr>ext_scan_timeout := b\<rparr>) = cmd_inv h s"
  "cmd_inv h (s\<lparr>last_cmd_index := n\<rparr>) = cmd_inv h s"
  "cmd_inv h (s\<lparr>last_cmd_id := ws\<rparr>) = cmd_inv h s"
  "cmd_inv h (s\<lparr>last_cmd_act := ws\<rparr>) = cmd_inv h s"
  "cmd_inv h (s\<lparr>last_cmd_resp_index := n\<rparr>) = cmd_inv h s"
  "cmd_inv h (s\<lparr>last_cmd_resp_id := ws\<rparr>) = cmd_inv h s"
  by (simp_all add: cmd_inv_defs)

lemma cmd_inv_event [simp]:
  "cmd_inv h (wlan_recv_event p e s) = cmd_inv h s"
  by (simp add: wlan_recv_event_def split: option.split)

lemma cmd_inv_dump [simp]: "cmd_inv h (wlan_dump_info k s) = cmd_inv h s"
  by (simp add: wlan_dump_info_def Let_def)

lemma cmd_inv_host_sleep [simp]:
  "cmd_inv h (wlan_host_sleep_activated_event p b s) = cmd_inv h s"
  by (simp add: wlan_host_sleep_activated_event_def split: option.split)

lemma cmd_inv_distinct:
  assumes "cmd_inv h s"
  shows "distinct (h @ cmd_free_q s @ queued s)"
    and "set (h @ cmd_free_q s @ queued s) = {0..<MRVDRV_NUM_OF_CMD_BUFFER}"
proof -
  have m: "mset (h @ cmd_free_q s @ queued s) = mset [0..<MRVDRV_NUM_OF_CMD_BUFFER]"
    using assms by (simp add: cmd_inv_def pool_inv_def)
  show "distinct (h @ cmd_free_q s @ queued s)"
    using mset_eq_imp_distinct_iff [OF m] by simp
  show "set (h @ cmd_free_q s @ queued s) = {0..<MRVDRV_NUM_OF_CMD_BUFFER}"
    using mset_eq_setD [OF m] by simp
qed

lemma cmd_inv_hand: "cmd_inv (i # h) s \<Longrightarrow> i \<notin> set (cmd_free_q s) \<and> i \<notin> set (queued s) \<and> i \<notin> set h
    \<and> pmbuf (nodes s i)"
proof -
  assume a: "cmd_inv (i # h) s"
  then have "i < MRVDRV_NUM_OF_CMD_BUFFER" using cmd_inv_distinct(2) [OF a] by auto
  moreover have "\<forall>i < MRVDRV_NUM_OF_CMD_BUFFER. pmbuf (nodes s i)"
    using a by (simp add: cmd_inv_def node_inv_def)
  ultimately show ?thesis using cmd_inv_distinct(1) [OF a] by auto
qed

text \<open>A reference from a queued node or from a pointer is alive.\<close>

lemma cmd_inv_live:
  assumes "cmd_inv h s" and "i \<in> set h \<union> set (queued s)" and "pioctl_buf (nodes s i) = Some r"
  shows "ioctls s r \<noteq> None"
  using assms unfolding cmd_inv_def req_inv_def req_ok_def node_refs_def by blast

subsection \<open>Elementary steps\<close>

lemma req_ok_subset: "req_ok B s \<Longrightarrow> A \<subseteq> B \<Longrightarrow> req_ok A s"
  unfolding req_ok_def node_refs_def by blast

text \<open>Changing the request of one node of the set.\<close>

lemma req_ok_upd:
  assumes ok: "req_ok A s"
    and f: "pioctl_buf (f (nodes s i)) = pioctl_buf (nodes s i) \<or> pioctl_buf (f (nodes s i)) = None"
  shows "req_ok A (upd_node i f s)"
proof -
  have p: "pioctl_buf (nodes (upd_node i f s) j) = Some r \<Longrightarrow> pioctl_buf (nodes s j) = Some r" for j r
    using f by (auto split: if_splits)
  then have "node_refs A (upd_node i f s) r \<Longrightarrow> node_refs A s r" for r
    unfolding node_refs_def by blast
  with p ok show ?thesis unfolding req_ok_def upd_node_simps by blast
qed

text \<open>Taking nodes from one place to another leaves the set of nodes in use as it is.\<close>

lemma cmd_inv_moveI:
  assumes "cmd_inv h s"
    and "mset (h' @ cmd_free_q s' @ queued s') = mset (h @ cmd_free_q s @ queued s)"
    and "nodes s' = nodes s" "ioctls s' = ioctls s" "pscan_ioctl_req s' = pscan_ioctl_req s"
      "pwarm_reset_ioctl_req s' = pwarm_reset_ioctl_req s" "cmd_ifaces s' = cmd_ifaces s"
    and "set (cmd_free_q s') \<subseteq> set (cmd_free_q s) \<union> {i. clean_node (nodes s i)}"
    and "set (queued s') \<subseteq> set (queued s) \<union> {i. iface_present s (cn_priv (nodes s i))}"
    and sub: "set h' \<union> set (queued s') \<subseteq> set h \<union> set (queued s) \<union> {i. pioctl_buf (nodes s i) = None}"
  shows "cmd_inv h' s'"
proof -
  have "pool_inv h' s'" using assms(1,2) by (simp add: cmd_inv_def pool_inv_def)
  moreover have "node_inv h' s'"
    using assms(1,3,7-9) unfolding cmd_inv_def node_inv_def iface_present_def by auto
  moreover have "req_inv h' s'"
  proof -
    have ok: "req_ok (set h \<union> set (queued s)) s" using assms(1) by (simp add: cmd_inv_def req_inv_def)
    have p: "pioctl_buf (nodes s' i) = Some r \<Longrightarrow> i \<in> set h' \<union> set (queued s')
        \<Longrightarrow> pioctl_buf (nodes s i) = Some r \<and> i \<in> set h \<union> set (queued s)" for i r
      using sub assms(3) by auto
    then have "node_refs (set h' \<union> set (queued s')) s' r \<Longrightarrow> node_refs (set h \<union> set (queued s)) s r" for r
      unfolding node_refs_def by blast
    with p ok show ?thesis unfolding req_inv_def req_ok_def assms(4-7) by blast
  qed
  ultimately show ?thesis by (simp add: cmd_inv_def)
qed

text \<open>Changing a node that is not free: its request stays or goes, its interface stays.\<close>

lemma cmd_inv_upd_node:
  assumes inv: "cmd_inv h s" and i: "i \<notin> set (cmd_free_q s)"
    and f: "pmbuf (f (nodes s i))" "i \<in> set (queued s) \<longrightarrow> iface_present s (cn_priv (f (nodes s i)))"
      "pioctl_buf (f (nodes s i)) = pioctl_buf (nodes s i) \<or> pioctl_buf (f (nodes s i)) = None"
  shows "cmd_inv h (upd_node i f s)"
proof -
  have q: "queued (upd_node i f s) = queued s" by (simp add: queued_def curr_list_def)
  have "pool_inv h (upd_node i f s)" using inv by (simp add: cmd_inv_def pool_inv_def q)
  moreover have "node_inv h (upd_node i f s)"
    using inv i f(1,2) by (auto simp: cmd_inv_def node_inv_def q iface_present_def)
  moreover have "req_inv h (upd_node i f s)"
    using inv f(3) unfolding cmd_inv_def req_inv_def q by (intro req_ok_upd) simp_all
  ultimately show ?thesis by (simp add: cmd_inv_def)
qed

lemma cmd_inv_upd_hand:
  assumes "cmd_inv (i # h) s" and "pmbuf (nodes s i) \<Longrightarrow> pmbuf (f (nodes s i))"
    and "pioctl_buf (f (nodes s i)) = pioctl_buf (nodes s i) \<or> pioctl_buf (f (nodes s i)) = None"
  shows "cmd_inv (i # h) (upd_node i f s)"
  using assms cmd_inv_hand [OF assms(1)] by (intro cmd_inv_upd_node) auto

lemma cmd_inv_upd_queued:
  assumes "cmd_inv h s" and i: "i \<in> set (queued s)" and "pmbuf (nodes s i) \<Longrightarrow> pmbuf (f (nodes s i))"
    and "cn_priv (f (nodes s i)) = cn_priv (nodes s i)"
    and "pioctl_buf (f (nodes s i)) = pioctl_buf (nodes s i) \<or> pioctl_buf (f (nodes s i)) = None"
  shows "cmd_inv h (upd_node i f s)"
proof -
  have "i \<notin> set (cmd_free_q s)" using cmd_inv_distinct(1) [OF assms(1)] i by auto
  moreover have "i < MRVDRV_NUM_OF_CMD_BUFFER" using cmd_inv_distinct(2) [OF assms(1)] i by auto
  moreover have "\<forall>i < MRVDRV_NUM_OF_CMD_BUFFER. pmbuf (nodes s i)" "iface_present s (cn_priv (nodes s i))"
    using assms(1) i by (auto simp: cmd_inv_def node_inv_def)
  ultimately show ?thesis using assms by (intro cmd_inv_upd_node) auto
qed

text \<open>A fresh request is put into the node in hand.\<close>

definition unreferenced :: "nat list \<Rightarrow> cmd_ctx \<Rightarrow> nat option \<Rightarrow> bool" where
  "unreferenced h s p \<longleftrightarrow>
     (case p of None \<Rightarrow> True
      | Some r \<Rightarrow> ioctls s r \<noteq> None \<and> \<not> node_refs (set h \<union> set (queued s)) s r
                  \<and> pscan_ioctl_req s \<noteq> Some r \<and> pwarm_reset_ioctl_req s \<noteq> Some r)"

lemma cmd_inv_set_request:
  assumes inv: "cmd_inv (i # h) s" and "pmbuf (f (nodes s i))"
    and u: "unreferenced h s (pioctl_buf (f (nodes s i)))"
  shows "cmd_inv (i # h) (upd_node i f s)"
proof -
  have q: "queued (upd_node i f s) = queued s" by (simp add: queued_def curr_list_def)
  note hand = cmd_inv_hand [OF inv]
  have "pool_inv (i # h) (upd_node i f s)" using inv by (simp add: cmd_inv_def pool_inv_def q)
  moreover have "node_inv (i # h) (upd_node i f s)"
    using inv hand assms(2) by (auto simp: cmd_inv_def node_inv_def q iface_present_def)
  moreover have "req_inv (i # h) (upd_node i f s)"
  proof -
    have ok: "req_ok (set (i # h) \<union> set (queued s)) s" using inv by (simp add: cmd_inv_def req_inv_def)
    show ?thesis
    proof (cases "pioctl_buf (f (nodes s i))")
      case None
      then show ?thesis using ok unfolding req_inv_def q by (intro req_ok_upd) simp_all
    next
      case (Some r)
      have fresh: "ioctls s r \<noteq> None" "pscan_ioctl_req s \<noteq> Some r" "pwarm_reset_ioctl_req s \<noteq> Some r"
        "\<And>j. j \<in> set h \<union> set (queued s) \<Longrightarrow> pioctl_buf (nodes s j) \<noteq> Some r"
        using u Some by (auto simp: unreferenced_def node_refs_def)
      have n: "j \<noteq> i \<Longrightarrow> nodes (upd_node i f s) j = nodes s j" for j by simp
      have ni: "pioctl_buf (nodes (upd_node i f s) i) = Some r" using Some by simp
      show ?thesis unfolding req_inv_def req_ok_def node_refs_def q upd_node_simps(6,7,8,11)
        using ok fresh n ni unfolding req_ok_def node_refs_def
        by (smt (verit) Un_iff list.set_intros(1) option.inject set_ConsD)
    qed
  qed
  ultimately show ?thesis by (simp add: cmd_inv_def)
qed

text \<open>Moving nodes between the queues and the hand.\<close>

lemma free_no_request: "cmd_inv h s \<Longrightarrow> i \<in> set (cmd_free_q s) \<Longrightarrow> pioctl_buf (nodes s i) = None"
  by (auto simp: cmd_inv_def node_inv_def clean_node_def)

lemma cmd_inv_take_free:
  assumes "cmd_inv h s" and "cmd_free_q s = i # q"
  shows "cmd_inv (i # h) (s\<lparr>cmd_free_q := q\<rparr>)"
  using assms(1) by (rule cmd_inv_moveI) (use assms free_no_request in \<open>auto simp: queued_def curr_list_def\<close>)

lemma cmd_inv_put_free:
  assumes "cmd_inv (i # h) s" and "clean_node (nodes s i)"
  shows "cmd_inv h (s\<lparr>cmd_free_q := cmd_free_q s @ [i]\<rparr>)"
  using assms(1) by (rule cmd_inv_moveI) (use assms in \<open>auto simp: queued_def curr_list_def\<close>)

lemma cmd_inv_take_pending:
  assumes "cmd_inv h s" and "i \<in> set (cmd_pending_q s)"
  shows "cmd_inv (i # h) (s\<lparr>cmd_pending_q := remove1 i (cmd_pending_q s)\<rparr>)"
  using assms(1)
  by (rule cmd_inv_moveI)
     (use assms in \<open>auto simp: queued_def curr_list_def split: option.splits dest: notin_set_remove1\<close>)

lemma cmd_inv_pop_pending:
  "cmd_inv h s \<Longrightarrow> cmd_pending_q s = i # q \<Longrightarrow> cmd_inv (i # h) (s\<lparr>cmd_pending_q := q\<rparr>)"
  using cmd_inv_take_pending [of h s i] by simp

lemma cmd_inv_pop_scan:
  assumes "cmd_inv h s" and "scan_pending_q s = i # q"
  shows "cmd_inv (i # h) (s\<lparr>scan_pending_q := q\<rparr>)"
  using assms(1) by (rule cmd_inv_moveI) (use assms in \<open>auto simp: queued_def curr_list_def\<close>)

lemma cmd_inv_take_curr:
  assumes "cmd_inv h s" and "curr_cmd s = Some i"
  shows "cmd_inv (i # h) (s\<lparr>curr_cmd := None\<rparr>)"
  using assms(1) by (rule cmd_inv_moveI) (use assms in \<open>auto simp: queued_def curr_list_def\<close>)

lemma cmd_inv_put_curr:
  assumes "cmd_inv (i # h) s" and "curr_cmd s = None" and "iface_present s (cn_priv (nodes s i))"
  shows "cmd_inv h (s\<lparr>curr_cmd := Some i\<rparr>)"
  using assms(1) by (rule cmd_inv_moveI) (use assms in \<open>auto simp: queued_def curr_list_def\<close>)

lemma cmd_inv_put_pending:
  assumes "cmd_inv (i # h) s" and "iface_present s (cn_priv (nodes s i))"
  shows "cmd_inv h (wlan_insert_cmd_to_pending_q i tail s)"
  using assms(1)
  by (rule cmd_inv_moveI)
     (use assms in \<open>auto simp: wlan_insert_cmd_to_pending_q_def Let_def queued_def curr_list_def\<close>)

lemma cmd_inv_put_scan:
  assumes "cmd_inv (i # h) s" and "iface_present s (cn_priv (nodes s i))"
  shows "cmd_inv h (s\<lparr>scan_pending_q := scan_pending_q s @ [i]\<rparr>)"
  using assms(1) by (rule cmd_inv_moveI) (use assms in \<open>auto simp: queued_def curr_list_def\<close>)

text \<open>Requests.\<close>

lemma okp_set_status:
  assumes inv: "cmd_inv h s" and r: "ioctls s r \<noteq> None"
  shows "okp (set_status_code r c s) (cmd_inv h)"
proof -
  obtain q where q: "ioctls s r = Some q" using r by auto
  let ?s = "s\<lparr>ioctls := (ioctls s)(r \<mapsto> q\<lparr>status_code := c\<rparr>)\<rparr>"
  have "pool_inv h ?s" "node_inv h ?s"
    using inv by (simp_all add: cmd_inv_def pool_inv_def node_inv_def queued_def curr_list_def iface_present_def)
  moreover have "req_inv h ?s"
  proof -
    have qs: "queued ?s = queued s" by (simp add: queued_def curr_list_def)
    have refs: "node_refs A ?s = node_refs A s" for A by (simp add: node_refs_def fun_eq_iff)
    show ?thesis using inv q unfolding cmd_inv_def req_inv_def req_ok_def qs refs by auto
  qed
  ultimately show ?thesis by (simp add: set_status_code_def q cmd_inv_def)
qed

lemma okp_complete:
  assumes inv: "cmd_inv h s" and u: "unreferenced h s (Some r)"
  shows "okp (moal_ioctl_complete r st s) (cmd_inv h)"
proof -
  obtain q where q: "ioctls s r = Some q" using u by (auto simp: unreferenced_def)
  let ?s = "s\<lparr>ioctls := (ioctls s)(r := None)\<rparr>"
  have "pool_inv h ?s" "node_inv h ?s"
    using inv by (simp_all add: cmd_inv_def pool_inv_def node_inv_def queued_def curr_list_def iface_present_def)
  moreover have "req_inv h ?s"
  proof -
    have qs: "queued ?s = queued s" by (simp add: queued_def curr_list_def)
    have refs: "node_refs A ?s = node_refs A s" for A by (simp add: node_refs_def fun_eq_iff)
    show ?thesis
      using inv u unfolding cmd_inv_def req_inv_def req_ok_def qs refs unreferenced_def by auto
  qed
  ultimately have "cmd_inv h ?s" by (simp add: cmd_inv_def)
  then show ?thesis by (simp add: moal_ioctl_complete_def q)
qed

text \<open>What completing a request changes: the store of requests and the log.\<close>

definition only_requests :: "cmd_ctx \<Rightarrow> cmd_ctx \<Rightarrow> bool" where
  "only_requests s s' \<longleftrightarrow> s' = s\<lparr>ioctls := ioctls s', cmd_log := cmd_log s'\<rparr>"

lemma only_requests_refl [simp]: "only_requests s s"
  by (simp add: only_requests_def)

lemma only_requestsD:
  assumes "only_requests s s'"
  shows "nodes s' = nodes s" "cmd_free_q s' = cmd_free_q s" "cmd_pending_q s' = cmd_pending_q s"
    "scan_pending_q s' = scan_pending_q s" "curr_cmd s' = curr_cmd s" "cmd_ifaces s' = cmd_ifaces s"
    "pscan_ioctl_req s' = pscan_ioctl_req s" "pwarm_reset_ioctl_req s' = pwarm_reset_ioctl_req s"
    "queued s' = queued s"
proof -
  have e: "s' = s\<lparr>ioctls := ioctls s', cmd_log := cmd_log s'\<rparr>" using assms by (simp only: only_requests_def)
  show "nodes s' = nodes s" "cmd_free_q s' = cmd_free_q s" "cmd_pending_q s' = cmd_pending_q s"
    "scan_pending_q s' = scan_pending_q s" "curr_cmd s' = curr_cmd s" "cmd_ifaces s' = cmd_ifaces s"
    "pscan_ioctl_req s' = pscan_ioctl_req s" "pwarm_reset_ioctl_req s' = pwarm_reset_ioctl_req s"
    by (subst e, simp)+
  then show "queued s' = queued s" by (simp add: queued_def curr_list_def)
qed

lemma only_requests_trans: "only_requests s t \<Longrightarrow> only_requests t u \<Longrightarrow> only_requests s u"
  by (cases s, cases t, cases u) (simp add: only_requests_def)

lemma okp_set_status_only: "ioctls s r \<noteq> None \<Longrightarrow> okp (set_status_code r c s) (\<lambda>s'. only_requests s s' \<and> ioctls s' r \<noteq> None)"
  by (auto simp: set_status_code_def only_requests_def)

lemma okp_complete_only: "ioctls s r \<noteq> None \<Longrightarrow> okp (moal_ioctl_complete r st s) (only_requests s)"
  by (auto simp: moal_ioctl_complete_def only_requests_def note_call_def)

abbreviation drop_request :: "nat \<Rightarrow> cmd_ctx \<Rightarrow> cmd_ctx" where
  "drop_request i \<equiv> upd_node i (\<lambda>n. n\<lparr>pioctl_buf := None\<rparr>)"

lemma complete_upd_node:
  "moal_ioctl_complete r st (upd_node i f s) = map_option (upd_node i f) (moal_ioctl_complete r st s)"
  by (auto simp: moal_ioctl_complete_def upd_node_def note_call_def split: option.split)

lemma set_status_upd_node:
  "set_status_code r c (upd_node i f s) = map_option (upd_node i f) (set_status_code r c s)"
  by (auto simp: set_status_code_def upd_node_def split: option.split)

lemma okp_map_option [simp]: "okp (map_option f m) P = okp m (\<lambda>x. P (f x))"
  by (cases m) simp_all

text \<open>The request of a node in use, once the node no longer refers to it, is referred to from nowhere.\<close>

lemma own_unreferenced:
  assumes inv: "cmd_inv h s" and i: "i \<in> set h \<union> set (queued s)" and r: "pioctl_buf (nodes s i) = Some r"
  shows "unreferenced h (drop_request i s) (Some r)"
proof -
  have ok: "req_ok (set h \<union> set (queued s)) s" using inv by (simp add: cmd_inv_def req_inv_def)
  have ref: "node_refs (set h \<union> set (queued s)) s r" using i r by (auto simp: node_refs_def)
  have "\<not> node_refs (set h \<union> set (queued s)) (drop_request i s) r"
    using ok i r unfolding req_ok_def node_refs_def by (auto split: if_splits)
  moreover have "queued (drop_request i s) = queued s" by (simp add: queued_def curr_list_def)
  ultimately show ?thesis using ok ref unfolding unreferenced_def req_ok_def by simp
qed

lemma cmd_inv_drop_request:
  "cmd_inv h s \<Longrightarrow> i \<in> set h \<union> set (queued s) \<Longrightarrow> cmd_inv h (drop_request i s)"
proof -
  assume inv: "cmd_inv h s" and i: "i \<in> set h \<union> set (queued s)"
  have "i \<notin> set (cmd_free_q s)" "i < MRVDRV_NUM_OF_CMD_BUFFER"
    using cmd_inv_distinct [OF inv] i by auto
  then show ?thesis
    using inv by (intro cmd_inv_upd_node) (auto simp: cmd_inv_def node_inv_def)
qed

lemma okp_complete_own:
  assumes inv: "cmd_inv h s" and i: "i \<in> set h \<union> set (queued s)" and r: "pioctl_buf (nodes s i) = Some r"
  shows "okp (moal_ioctl_complete r st s) (\<lambda>s'. cmd_inv h (drop_request i s') \<and> only_requests s s')"
proof (rule okp_conj)
  have "okp (moal_ioctl_complete r st (drop_request i s)) (cmd_inv h)"
    by (rule okp_complete [OF cmd_inv_drop_request [OF inv i] own_unreferenced [OF inv i r]])
  then show "okp (moal_ioctl_complete r st s) (\<lambda>s'. cmd_inv h (drop_request i s'))"
    by (simp add: complete_upd_node)
qed (rule okp_complete_only [OF cmd_inv_live [OF inv i r]])

lemma okp_fail_own:
  assumes inv: "cmd_inv h s" and i: "i \<in> set h \<union> set (queued s)" and r: "pioctl_buf (nodes s i) = Some r"
  shows "okp (fail_request r c s) (\<lambda>s'. cmd_inv h (drop_request i s') \<and> only_requests s s')"
  unfolding fail_request_def okp_bind
proof (rule okp_mono [OF okp_conj [OF okp_set_status [OF inv cmd_inv_live [OF inv i r]]
      okp_set_status_only [OF cmd_inv_live [OF inv i r]]]])
  fix s1
  assume "cmd_inv h s1 \<and> only_requests s s1 \<and> ioctls s1 r \<noteq> None"
  then have 1: "cmd_inv h s1" "only_requests s s1" by auto
  have "i \<in> set h \<union> set (queued s1)" "pioctl_buf (nodes s1 i) = Some r"
    using i r by (simp_all add: only_requestsD [OF 1(2)])
  from okp_complete_own [OF 1(1) this]
  show "okp (moal_ioctl_complete r MLAN_STATUS_FAILURE s1) (\<lambda>s'. cmd_inv h (drop_request i s') \<and> only_requests s s')"
    by (rule okp_mono) (use 1(2) in \<open>blast intro: only_requests_trans\<close>)
qed

lemma okp_fail_request:
  assumes inv: "cmd_inv h s" and u: "unreferenced h s (Some r)"
  shows "okp (fail_request r c s) (\<lambda>s'. cmd_inv h s' \<and> only_requests s s')"
proof -
  have live: "ioctls s r \<noteq> None" using u by (simp add: unreferenced_def)
  show ?thesis
    unfolding fail_request_def okp_bind
  proof (rule okp_mono [OF okp_conj [OF okp_set_status [OF inv live] okp_set_status_only [OF live]]])
    fix s1
    assume "cmd_inv h s1 \<and> only_requests s s1 \<and> ioctls s1 r \<noteq> None"
    then have 1: "cmd_inv h s1" "only_requests s s1" "ioctls s1 r \<noteq> None" by auto
    have "unreferenced h s1 (Some r)"
      using u 1(3) by (simp add: unreferenced_def node_refs_def only_requestsD [OF 1(2)])
    from okp_conj [OF okp_complete [OF 1(1) this] okp_complete_only [OF 1(3)]]
    show "okp (moal_ioctl_complete r MLAN_STATUS_FAILURE s1) (\<lambda>s'. cmd_inv h s' \<and> only_requests s s')"
      by (rule okp_mono) (use 1(2) in \<open>blast intro: only_requests_trans\<close>)
  qed
qed

end
