(* ===== verification/Cmd_Steps.thy ===== *)
theory Cmd_Steps
  imports Cmd_Inv
begin

text \<open>
  Every operation of the command path keeps the invariant and returns: the operations on one node, preparing and
  sending a command, and the cancel operations.  The facts are stated with \<open>okp\<close> and compose along the code.
\<close>

subsection \<open>What an operation leaves alone\<close>

text \<open>Working on a node in hand: that node, the free queue, the requests and the log.\<close>

definition only_node :: "nat \<Rightarrow> cmd_ctx \<Rightarrow> cmd_ctx \<Rightarrow> bool" where
  "only_node i s s' \<longleftrightarrow>
     (\<exists>n q io l. s' = s\<lparr>nodes := (nodes s)(i := n), cmd_free_q := q, ioctls := io, cmd_log := l\<rparr>)"

lemma only_nodeD:
  assumes "only_node i s s'"
  shows "j \<noteq> i \<Longrightarrow> nodes s' j = nodes s j" "cmd_pending_q s' = cmd_pending_q s"
    "scan_pending_q s' = scan_pending_q s" "curr_cmd s' = curr_cmd s" "cmd_ifaces s' = cmd_ifaces s"
    "pscan_ioctl_req s' = pscan_ioctl_req s" "pwarm_reset_ioctl_req s' = pwarm_reset_ioctl_req s"
    "queued s' = queued s"
  using assms by (auto simp: only_node_def queued_def curr_list_def)

lemma only_node_trans: "only_node i s t \<Longrightarrow> only_node i t u \<Longrightarrow> only_node i s u"
  by (auto simp: only_node_def) ((rule exI)+, rule refl)

lemma only_nodeI: "s' = s\<lparr>nodes := (nodes s)(i := n), cmd_free_q := q, ioctls := io, cmd_log := l\<rparr> \<Longrightarrow> only_node i s s'"
  by (auto simp: only_node_def)

lemma only_node_requests: "only_requests s s' \<Longrightarrow> only_node i s s'"
  by (cases s, cases s')
     (auto simp: only_requests_def intro!: only_nodeI [where n = "nodes s i" and q = "cmd_free_q s" and
        io = "ioctls s'" and l = "cmd_log s'"])

lemma only_node_upd: "only_node i s (upd_node i f s)"
  by (rule only_nodeI [where n = "f (nodes s i)" and q = "cmd_free_q s" and io = "ioctls s" and l = "cmd_log s"])
     (cases s, simp add: upd_node_def)

lemma only_node_note: "only_node i s (note_call c s)"
  by (rule only_nodeI [where n = "nodes s i" and q = "cmd_free_q s" and io = "ioctls s" and l = "cmd_log s @ [c]"])
     (cases s, simp add: note_call_def)

lemma only_node_free: "only_node i s (s\<lparr>cmd_free_q := q\<rparr>)"
  by (rule only_nodeI [where n = "nodes s i" and q = q and io = "ioctls s" and l = "cmd_log s"]) (cases s, simp)

lemmas only_node_intros = only_node_requests only_node_upd only_node_note only_node_free

text \<open>The current command stays, with the request it belongs to.\<close>

definition keeps_curr :: "cmd_ctx \<Rightarrow> cmd_ctx \<Rightarrow> bool" where
  "keeps_curr s s' \<longleftrightarrow>
     curr_cmd s' = curr_cmd s \<and> cmd_ifaces s' = cmd_ifaces s \<and> pwarm_reset_ioctl_req s' = pwarm_reset_ioctl_req s \<and>
     (\<forall>c. curr_cmd s = Some c \<longrightarrow> pioctl_buf (nodes s' c) = pioctl_buf (nodes s c))"

lemma keeps_curr_refl [simp]: "keeps_curr s s"
  by (simp add: keeps_curr_def)

lemma keeps_curr_trans: "keeps_curr s t \<Longrightarrow> keeps_curr t u \<Longrightarrow> keeps_curr s u"
  by (simp add: keeps_curr_def)

lemma keeps_curr_node: "only_node i s s' \<Longrightarrow> curr_cmd s \<noteq> Some i \<Longrightarrow> keeps_curr s s'"
  unfolding keeps_curr_def using only_nodeD [of i s s'] by metis

lemma keeps_curr_requests: "only_requests s s' \<Longrightarrow> keeps_curr s s'"
  by (simp add: keeps_curr_def only_requestsD)

text \<open>Fields that \<open>keeps_curr\<close> does not look at.\<close>

lemma keeps_curr_fields [simp]:
  "keeps_curr s (note_call c t) = keeps_curr s t"
  "keeps_curr s (t\<lparr>scan_processing := b\<rparr>) = keeps_curr s t"
  "keeps_curr s (t\<lparr>pscan_ioctl_req := p\<rparr>) = keeps_curr s t"
  "keeps_curr s (t\<lparr>num_no_cmd_node := w\<rparr>) = keeps_curr s t"
  "keeps_curr s (t\<lparr>cmd_free_q := q\<rparr>) = keeps_curr s t"
  "keeps_curr s (t\<lparr>cmd_pending_q := q\<rparr>) = keeps_curr s t"
  "keeps_curr s (t\<lparr>scan_pending_q := q\<rparr>) = keeps_curr s t"
  "keeps_curr s (t\<lparr>ext_scan_type := ety\<rparr>) = keeps_curr s t"
  "keeps_curr s (t\<lparr>hw_status := hw\<rparr>) = keeps_curr s t"
  "keeps_curr s (t\<lparr>last_init_cmd := w\<rparr>) = keeps_curr s t"
  "keeps_curr s (t\<lparr>cmd_timer_is_set := b\<rparr>) = keeps_curr s t"
  "keeps_curr s (wlan_recv_event p ev t) = keeps_curr s t"
  "keeps_curr s (wlan_dump_info k t) = keeps_curr s t"
  by (simp_all add: keeps_curr_def note_call_def wlan_recv_event_def wlan_dump_info_def Let_def split: option.split)

lemma hand_not_curr: "cmd_inv (i # h) s \<Longrightarrow> curr_cmd s \<noteq> Some i"
  using cmd_inv_hand [of i h s] by (auto simp: queued_def curr_list_def)

subsection \<open>Releasing and filling a node\<close>

lemma clean_drop: "wlan_clean_cmd_node i (drop_request i s) = wlan_clean_cmd_node i s"
  by (auto simp: wlan_clean_cmd_node_def upd_node_def Let_def split: option.split)

lemma clean_only_node: "only_node i s (wlan_clean_cmd_node i s)"
proof -
  have "only_node i s (upd_node i (\<lambda>n. n\<lparr>cmd_no := 0, cmd_flag := 0, pioctl_buf := None, pdata_buf := None\<rparr>) s)"
    (is "only_node i s ?t") by (rule only_node_upd)
  then show ?thesis unfolding wlan_clean_cmd_node_def Let_def
    by (auto split: option.split intro!: only_node_trans [OF _ only_node_upd] only_node_trans [OF _ only_node_note])
qed

lemma cmd_inv_clean:
  assumes "cmd_inv (i # h) s"
  shows "cmd_inv (i # h) (wlan_clean_cmd_node i s)" and "clean_node (nodes (wlan_clean_cmd_node i s) i)"
proof -
  have "cmd_inv (i # h) (upd_node i (\<lambda>n. n\<lparr>cmd_no := 0, cmd_flag := 0, pioctl_buf := None, pdata_buf := None\<rparr>) s)"
    by (rule cmd_inv_upd_hand [OF assms]) simp_all
  then show "cmd_inv (i # h) (wlan_clean_cmd_node i s)"
    unfolding wlan_clean_cmd_node_def Let_def
    by (auto split: option.split intro!: cmd_inv_upd_hand)
  show "clean_node (nodes (wlan_clean_cmd_node i s) i)"
    by (auto simp: wlan_clean_cmd_node_def Let_def clean_node_def split: option.split)
qed

lemma okp_insert_free:
  assumes inv: "cmd_inv (i # h) s"
  shows "okp (wlan_insert_cmd_to_free_q (Some i) s)
           (\<lambda>s'. cmd_inv h s' \<and> only_node i s s' \<and> cmd_free_q s' = cmd_free_q s @ [i])"
proof -
  have own: "okp (complete_own i s) (\<lambda>s1. cmd_inv (i # h) (drop_request i s1) \<and> only_requests s s1)"
  proof (cases "pioctl_buf (nodes s i)")
    case None
    then show ?thesis using cmd_inv_drop_request [OF inv] by (simp add: complete_own_def)
  next
    case (Some r)
    then obtain q where "ioctls s r = Some q" using cmd_inv_live [OF inv, of i r] by auto
    then show ?thesis using Some okp_complete_own [OF inv _ Some] by (simp add: complete_own_def)
  qed
  have "okp (do { s1 \<leftarrow> complete_own i s; let s2 = wlan_clean_cmd_node i s1;
                  Some (s2\<lparr>cmd_free_q := cmd_free_q s2 @ [i]\<rparr>) })
          (\<lambda>s'. cmd_inv h s' \<and> only_node i s s' \<and> cmd_free_q s' = cmd_free_q s @ [i])"
    unfolding okp_bind
  proof (rule okp_mono [OF own])
    fix s1
    assume 1: "cmd_inv (i # h) (drop_request i s1) \<and> only_requests s s1"
    let ?s2 = "wlan_clean_cmd_node i s1"
    have "cmd_inv (i # h) ?s2" and "clean_node (nodes ?s2 i)"
      using cmd_inv_clean [of i h "drop_request i s1"] 1 by (simp_all add: clean_drop)
    then have "cmd_inv h (?s2\<lparr>cmd_free_q := cmd_free_q ?s2 @ [i]\<rparr>)" by (rule cmd_inv_put_free)
    moreover have "only_node i s (?s2\<lparr>cmd_free_q := cmd_free_q ?s2 @ [i]\<rparr>)"
      using 1 by (blast intro: only_node_trans only_node_intros clean_only_node)
    ultimately show "okp (let s2 = ?s2 in Some (s2\<lparr>cmd_free_q := cmd_free_q s2 @ [i]\<rparr>))
        (\<lambda>s'. cmd_inv h s' \<and> only_node i s s' \<and> cmd_free_q s' = cmd_free_q s @ [i])"
      using 1 by (simp add: Let_def only_requestsD)
  qed
  then show ?thesis by (simp only: wlan_insert_cmd_to_free_q_def option.case)
qed

text \<open>The frame with the node forgotten, as callers use it.\<close>

lemma okp_insert_free_keeps:
  assumes inv: "cmd_inv (i # h) s"
  shows "okp (wlan_insert_cmd_to_free_q (Some i) s) (\<lambda>s'. cmd_inv h s' \<and> keeps_curr s s')"
  by (rule okp_mono [OF okp_insert_free [OF inv]]) (use keeps_curr_node hand_not_curr [OF inv] in blast)

lemma unreferenced_take:
  assumes "cmd_inv (i # h) s" and "unreferenced h s p" and "pioctl_buf (nodes s i) = None"
  shows "unreferenced (i # h) s p"
  using assms by (auto simp: unreferenced_def node_refs_def split: option.splits)

lemma okp_set_status_if:
  assumes inv: "cmd_inv h s" and "\<And>r. p = Some r \<Longrightarrow> ioctls s r \<noteq> None"
  shows "okp (set_status_if p c s) (\<lambda>s'. cmd_inv h s' \<and> only_requests s s' \<and> (\<forall>r. ioctls s' r = None \<longleftrightarrow> ioctls s r = None))"
proof (cases p)
  case None
  then show ?thesis using inv by (simp add: set_status_if_def)
next
  case (Some r)
  then have live: "ioctls s r \<noteq> None" using assms(2) by simp
  have "okp (set_status_code r c s) (\<lambda>s'. \<forall>r. ioctls s' r = None \<longleftrightarrow> ioctls s r = None)"
    using live by (auto simp: set_status_code_def)
  moreover have "okp (set_status_code r c s) (only_requests s)"
    by (rule okp_mono [OF okp_set_status_only [OF live]]) simp
  ultimately show ?thesis
    unfolding set_status_if_def Some option.case by (intro okp_conj okp_set_status [OF inv live])
qed

subsection \<open>Preparing a command\<close>

lemma get_cmd_node_inv:
  assumes inv: "cmd_inv h s" and i: "wlan_get_cmd_node s = (Some i, s1)"
  shows "cmd_inv (i # h) s1" "pioctl_buf (nodes s1 i) = None" "keeps_curr s s1" "nodes s1 = nodes s"
    "ioctls s1 = ioctls s" "pscan_ioctl_req s1 = pscan_ioctl_req s" "queued s1 = queued s"
proof -
  obtain q where q: "cmd_free_q s = i # q" and s1: "s1 = s\<lparr>cmd_free_q := q\<rparr>"
    using i by (auto simp: wlan_get_cmd_node_def split: list.splits)
  show "cmd_inv (i # h) s1" using cmd_inv_take_free [OF inv q] s1 by simp
  show "pioctl_buf (nodes s1 i) = None" using free_no_request [OF inv, of i] q s1 by simp
  show "keeps_curr s s1" using s1 by simp
  show "nodes s1 = nodes s" "ioctls s1 = ioctls s" "pscan_ioctl_req s1 = pscan_ioctl_req s" "queued s1 = queued s"
    using s1 by (simp_all add: queued_def curr_list_def)
qed

lemma unreferenced_cong:
  assumes "unreferenced h s p" and "\<And>r. ioctls s' r = None \<longleftrightarrow> ioctls s r = None"
    and "queued s' = queued s" "pscan_ioctl_req s' = pscan_ioctl_req s"
    "pwarm_reset_ioctl_req s' = pwarm_reset_ioctl_req s"
    and "\<And>i. i \<in> set h \<union> set (queued s) \<Longrightarrow> pioctl_buf (nodes s' i) = pioctl_buf (nodes s i)"
  shows "unreferenced h s' p"
  using assms by (auto simp: unreferenced_def node_refs_def split: option.splits)

lemma queue_prepared_inv:
  assumes inv: "cmd_inv (i # h) s" and b: "iface_present s (cn_priv (nodes s i))"
  shows "cmd_inv h (queue_prepared rq i s)" and "keeps_curr s (queue_prepared rq i s)"
    and "pscan_ioctl_req (queue_prepared rq i s) = pscan_ioctl_req s"
proof -
  note nc = hand_not_curr [OF inv]
  have k: "keeps_curr s (wlan_insert_cmd_to_pending_q i tail s)" for tail
    by (simp add: wlan_insert_cmd_to_pending_q_def Let_def)
  let ?f = "\<lambda>n. n\<lparr>cmd_flag := cmd_flag n OR CMD_F_SCAN\<rparr>"
  have "cmd_inv (i # h) (upd_node i ?f s)" by (rule cmd_inv_upd_hand [OF inv]) simp_all
  moreover have "iface_present (upd_node i ?f s) (cn_priv (nodes (upd_node i ?f s) i))"
    using b by (simp add: iface_present_def)
  ultimately have scan: "cmd_inv h (wlan_queue_scan_cmd i s)"
    unfolding wlan_queue_scan_cmd_def Let_def by (rule cmd_inv_put_scan)
  have k2: "keeps_curr s (wlan_queue_scan_cmd i s)"
    unfolding wlan_queue_scan_cmd_def Let_def keeps_curr_fields
    by (rule keeps_curr_node [OF only_node_upd nc])
  show "cmd_inv h (queue_prepared rq i s)" "keeps_curr s (queue_prepared rq i s)"
    using cmd_inv_put_pending [OF inv b] scan k k2 by (simp_all add: queue_prepared_def)
  show "pscan_ioctl_req (queue_prepared rq i s) = pscan_ioctl_req s"
    by (simp add: queue_prepared_def wlan_insert_cmd_to_pending_q_def wlan_queue_scan_cmd_def Let_def)
qed

text \<open>The encoder writes the command and at most the flag.\<close>

lemma okp_encode:
  assumes inv: "cmd_inv (i # h) s" and d: "rq_no rq = 0 \<longrightarrow> rq_data rq \<noteq> None"
  shows "okp (encode_prepared enc rq i s)
           (\<lambda>(ret, s'). cmd_inv (i # h) s' \<and> only_node i s s' \<and> ioctls s' = ioctls s
              \<and> cn_priv (nodes s' i) = cn_priv (nodes s i) \<and> pioctl_buf (nodes s' i) = pioctl_buf (nodes s i))"
proof (cases "rq_no rq = 0")
  case True
  then obtain d where "rq_data rq = Some d" using d by auto
  then show ?thesis using True inv by (simp add: encode_prepared_def Let_def cmd_inv_upd_hand only_node_upd)
next
  case False
  then show ?thesis using inv
    by (simp add: encode_prepared_def Let_def cmd_inv_upd_hand only_node_upd split: prod.split)
qed

lemma okp_abandon:
  assumes inv: "cmd_inv (i # h) s" and live: "\<And>r. rq_pioctl rq = Some r \<Longrightarrow> ioctls s r \<noteq> None"
  shows "okp (abandon_node rq i s) (\<lambda>s'. cmd_inv h s' \<and> only_node i s s')"
  unfolding abandon_node_def okp_bind
proof (rule okp_mono)
  show "okp (set_status_if (rq_pioctl rq) MLAN_ERROR_CMD_DNLD_FAIL (drop_request i s))
      (\<lambda>s1. cmd_inv (i # h) s1 \<and> only_requests (drop_request i s) s1
            \<and> (\<forall>r. ioctls s1 r = None \<longleftrightarrow> ioctls (drop_request i s) r = None))"
    by (rule okp_set_status_if [OF cmd_inv_drop_request [OF inv]]) (use live in simp_all)
  fix s1
  assume 1: "cmd_inv (i # h) s1 \<and> only_requests (drop_request i s) s1
      \<and> (\<forall>r. ioctls s1 r = None \<longleftrightarrow> ioctls (drop_request i s) r = None)"
  then have "only_node i s s1" by (blast intro: only_node_trans only_node_intros)
  then show "okp (wlan_insert_cmd_to_free_q (Some i) s1) (\<lambda>s'. cmd_inv h s' \<and> only_node i s s')"
    using 1 by (intro okp_mono [OF okp_insert_free [of i h s1]]) (auto intro: only_node_trans)
qed

text \<open>What preparing a command guarantees, whatever comes of it.\<close>

definition prepared :: "nat list \<Rightarrow> cmd_ctx \<Rightarrow> mlan_status \<times> cmd_ctx \<Rightarrow> bool" where
  "prepared h s x \<longleftrightarrow> cmd_inv h (snd x) \<and> keeps_curr s (snd x) \<and> pscan_ioctl_req (snd x) = pscan_ioctl_req s"

lemma okp_prepare_node:
  assumes inv: "cmd_inv (i # h) s" and u: "unreferenced h s (rq_pioctl rq)" and b: "iface_present s bss"
    and d: "rq_no rq = 0 \<longrightarrow> rq_data rq \<noteq> None"
  shows "okp (prepare_node enc rq bss i s) (prepared h s)"
proof -
  let ?f = "\<lambda>n. n\<lparr>cn_priv := bss, cmd_no := ucast (rq_no rq), pioctl_buf := rq_pioctl rq, pdata_buf := rq_data rq,
                 cmdbuf := zero_cmd, cmdbuf_offset := 0 + INTF_HEADER_LEN\<rparr>"
  let ?s0 = "s\<lparr>num_no_cmd_node := 0\<rparr>"
  let ?s1 = "upd_node i ?f ?s0"
  have inv0: "cmd_inv (i # h) ?s0" using inv by simp
  have un: "unreferenced h ?s0 (rq_pioctl rq)"
    by (rule unreferenced_cong [OF u]) (simp_all add: queued_def curr_list_def)
  have init: "wlan_init_cmd_node bss i (ucast (rq_no rq)) (rq_pioctl rq) (rq_data rq) ?s0 = Some ?s1"
    using cmd_inv_hand [OF inv0] by (simp add: wlan_init_cmd_node_def)
  have inv1: "cmd_inv (i # h) ?s1"
    by (rule cmd_inv_set_request [OF inv0]) (use cmd_inv_hand [OF inv0] un in simp_all)
  have k1: "keeps_curr s ?s1"
    by (rule keeps_curr_trans [OF _ keeps_curr_node [OF only_node_upd]]) (use hand_not_curr [OF inv] in simp_all)
  have live: "\<And>r. rq_pioctl rq = Some r \<Longrightarrow> ioctls s r \<noteq> None" using u by (simp add: unreferenced_def)
  show ?thesis unfolding prepare_node_def init bind.bind_lunit okp_bind
  proof (rule okp_mono [OF okp_encode [OF inv1 d]])
    fix x :: "mlan_status \<times> cmd_ctx"
    obtain ret s2 where x: "x = (ret, s2)" by fastforce
    assume "case x of (ret, s') \<Rightarrow> cmd_inv (i # h) s' \<and> only_node i ?s1 s' \<and> ioctls s' = ioctls ?s1 \<and>
        cn_priv (nodes s' i) = cn_priv (nodes ?s1 i) \<and> pioctl_buf (nodes s' i) = pioctl_buf (nodes ?s1 i)"
    then have 2: "cmd_inv (i # h) s2" "only_node i ?s1 s2" "ioctls s2 = ioctls s" "cn_priv (nodes s2 i) = bss"
      using x by auto
    have k2: "keeps_curr s s2"
      using k1 keeps_curr_node [OF 2(2)] hand_not_curr [OF inv1] by (blast intro: keeps_curr_trans)
    have p2: "pscan_ioctl_req s2 = pscan_ioctl_req s" using only_nodeD(6) [OF 2(2)] by simp
    have b2: "iface_present s2 (cn_priv (nodes s2 i))"
      using b 2(4) k2 by (simp add: iface_present_def keeps_curr_def)
    have "okp (abandon_node rq i s2) (\<lambda>s'. cmd_inv h s' \<and> only_node i s2 s')"
      by (rule okp_abandon [OF 2(1)]) (use live 2(3) in simp)
    then have "okp (abandon_node rq i s2) (\<lambda>s'. prepared h s (MLAN_STATUS_FAILURE, s'))"
      by (rule okp_mono)
         (use k2 p2 hand_not_curr [OF 2(1)] in
            \<open>auto simp: prepared_def only_nodeD(6) intro: keeps_curr_trans keeps_curr_node\<close>)
    then show "okp (case x of (ret, s2) \<Rightarrow>
        if ret \<noteq> MLAN_STATUS_SUCCESS then do { s3 \<leftarrow> abandon_node rq i s2; Some (MLAN_STATUS_FAILURE, s3) }
        else Some (MLAN_STATUS_SUCCESS, queue_prepared rq i s2)) (prepared h s)"
      using queue_prepared_inv [OF 2(1) b2] k2 p2 x by (auto simp: prepared_def intro: keeps_curr_trans)
  qed
qed

lemma okp_status_then:
  assumes inv: "cmd_inv h s" and live: "\<And>r. p = Some r \<Longrightarrow> ioctls s r \<noteq> None"
  shows "okp (do { s1 \<leftarrow> set_status_if p c s; Some (ret, s1) }) (prepared h s)"
  unfolding okp_bind
  by (rule okp_mono [OF okp_set_status_if [OF inv live]])
     (auto simp: prepared_def keeps_curr_requests only_requestsD)

text \<open>A command for a request that nothing refers to yet can always be prepared or refused.\<close>

lemma okp_prepare:
  assumes inv: "cmd_inv h s" and u: "unreferenced h s (rq_pioctl rq)"
    and d: "rq_no rq = 0 \<longrightarrow> rq_data rq \<noteq> None"
  shows "okp (wlan_prepare_cmd enc rq s) (prepared h s)"
proof -
  have live: "\<And>r. rq_pioctl rq = Some r \<Longrightarrow> ioctls s r \<noteq> None"
    using u by (simp add: unreferenced_def)
  let ?t = "wlan_dump_info REASON_CODE_NO_CMD_NODE s"
  have t: "ioctls ?t = ioctls s" "pscan_ioctl_req ?t = pscan_ioctl_req s" "keeps_curr s ?t" "cmd_inv h ?t"
    using inv by (simp_all add: wlan_dump_info_def wlan_recv_event_def Let_def split: option.split)
  have none: "okp (do { s1 \<leftarrow> set_status_if (rq_pioctl rq) MLAN_ERROR_NO_MEM ?t; Some (MLAN_STATUS_FAILURE, s1) })
      (prepared h s)"
    by (rule okp_mono [OF okp_status_then [OF t(4)]])
       (use live t in \<open>auto simp: prepared_def intro: keeps_curr_trans [OF t(3)]\<close>)
  have some: "okp (prepare_node enc rq bss i s1) (prepared h s)"
    if g: "wlan_get_cmd_node s = (Some i, s1)" and b: "iface_present s bss" for i s1 bss
  proof -
    note i = get_cmd_node_inv [OF inv g]
    have "unreferenced h s1 (rq_pioctl rq)"
      by (rule unreferenced_cong [OF u]) (use i in \<open>auto simp: keeps_curr_def\<close>)
    moreover have "iface_present s1 bss" using b i(3) by (simp add: iface_present_def keeps_curr_def)
    ultimately have "okp (prepare_node enc rq bss i s1) (prepared h s1)" using i(1) d by (intro okp_prepare_node)
    then show ?thesis by (rule okp_mono) (use i in \<open>auto simp: prepared_def intro: keeps_curr_trans\<close>)
  qed
  have refuse: "prepared h s (MLAN_STATUS_FAILURE, s)" using inv by (simp add: prepared_def)
  show ?thesis
    unfolding wlan_prepare_cmd_def
    using refuse okp_status_then [OF inv live] none some
    by (auto simp: wlan_get_cmd_node_def split: option.split list.split simp del: okp_bind)
qed

subsection \<open>Sending a command\<close>

text \<open>The code frees the current node before it clears the pointer to it; the order does not matter.\<close>

lemma insert_free_curr:
  "wlan_insert_cmd_to_free_q p (s\<lparr>curr_cmd := c\<rparr>) = map_option (\<lambda>s'. s'\<lparr>curr_cmd := c\<rparr>) (wlan_insert_cmd_to_free_q p s)"
  by (auto simp: wlan_insert_cmd_to_free_q_def complete_own_def moal_ioctl_complete_def wlan_clean_cmd_node_def
      note_call_def upd_node_def Let_def split: option.split)

lemma okp_release_curr:
  assumes inv: "cmd_inv h s" and c: "curr_cmd s = Some i"
  shows "okp (wlan_insert_cmd_to_free_q (curr_cmd s) s)
           (\<lambda>s'. cmd_inv h (s'\<lparr>curr_cmd := None\<rparr>) \<and> only_node i s s' \<and> cmd_free_q s' = cmd_free_q s @ [i])"
proof -
  have "okp (wlan_insert_cmd_to_free_q (Some i) (s\<lparr>curr_cmd := None\<rparr>)) (\<lambda>s'. cmd_inv h s')"
    by (rule okp_mono [OF okp_insert_free [OF cmd_inv_take_curr [OF inv c]]]) simp
  moreover have "okp (wlan_insert_cmd_to_free_q (Some i) s) (\<lambda>s'. only_node i s s' \<and> cmd_free_q s' = cmd_free_q s @ [i])"
  proof -
    have "okp (complete_own i s) (only_requests s)"
    proof (cases "pioctl_buf (nodes s i)")
      case (Some r)
      then have "ioctls s r \<noteq> None"
        using cmd_inv_live [OF inv, of i r] c by (simp add: queued_def curr_list_def)
      then show ?thesis using Some okp_complete_only by (auto simp: complete_own_def)
    qed (simp add: complete_own_def)
    then show ?thesis unfolding wlan_insert_cmd_to_free_q_def option.case okp_bind
    proof (rule okp_mono)
      fix s1
      assume 1: "only_requests s s1"
      have "only_node i s ((wlan_clean_cmd_node i s1)\<lparr>cmd_free_q := q\<rparr>)" for q
        by (rule only_node_trans [OF only_node_requests [OF 1] only_node_trans [OF clean_only_node only_node_free]])
      then show "okp (let s2 = wlan_clean_cmd_node i s1 in Some (s2\<lparr>cmd_free_q := cmd_free_q s2 @ [i]\<rparr>))
          (\<lambda>s'. only_node i s s' \<and> cmd_free_q s' = cmd_free_q s @ [i])"
        using 1 by (simp add: Let_def only_requestsD)
    qed
  qed
  ultimately show ?thesis
    unfolding insert_free_curr okp_map_option c by (rule okp_conj)
qed

lemma iface_present_fields [simp]:
  "iface_present (upd_node i f s) = iface_present s" "iface_present (note_call c s) = iface_present s"
  "iface_present (s\<lparr>curr_cmd := x\<rparr>) = iface_present s" "iface_present (s\<lparr>cmd_pending_q := q\<rparr>) = iface_present s"
  by (simp_all add: iface_present_def fun_eq_iff)

lemma stamp_command_inv:
  assumes inv: "cmd_inv (i # h) s" and c: "curr_cmd s = None" and b: "iface_present s (cn_priv (nodes s i))"
  shows "cmd_inv h (stamp_command ifc i s)" "curr_cmd (stamp_command ifc i s) = Some i"
proof -
  let ?f = "\<lambda>n. n\<lparr>cmdbuf := (cmdbuf n)\<lparr>hc_seq_num :=
              HostCmd_SET_SEQ_NO_BSS_INFO (cmd_seq_num s + 1) (if_bss_num ifc) (if_bss_type ifc)\<rparr>,
            cmd_no := ucast (hc_command (cmdbuf n)), cmdbuf_len := ucast (hc_size (cmdbuf n))\<rparr>"
  have "cmd_inv (i # h) (upd_node i ?f (s\<lparr>cmd_seq_num := cmd_seq_num s + 1\<rparr>))"
    by (rule cmd_inv_upd_hand) (use inv in simp_all)
  then have "cmd_inv h ((upd_node i ?f (s\<lparr>cmd_seq_num := cmd_seq_num s + 1\<rparr>))\<lparr>curr_cmd := Some i\<rparr>)"
    by (rule cmd_inv_put_curr) (use b c in \<open>simp_all add: iface_present_def\<close>)
  then show "cmd_inv h (stamp_command ifc i s)" by (simp add: stamp_command_def Let_def)
  show "curr_cmd (stamp_command ifc i s) = Some i" by (simp add: stamp_command_def Let_def)
qed

text \<open>The command as it is given to the bus.\<close>

definition on_bus :: "mlan_status \<Rightarrow> cmd_iface \<Rightarrow> nat \<Rightarrow> cmd_ctx \<Rightarrow> cmd_ctx" where
  "on_bus h2c ifc i s =
     command_to_card h2c i
       (upd_node i (\<lambda>n. n\<lparr>cmdbuf_offset := cmdbuf_offset n - INTF_HEADER_LEN, cmdbuf_len := cmdbuf_len n + INTF_HEADER_LEN\<rparr>)
          (stamp_command ifc i s))"

lemma on_bus_inv:
  assumes "cmd_inv (i # h) s" and "curr_cmd s = None" and "iface_present s (cn_priv (nodes s i))"
  shows "cmd_inv h (on_bus h2c ifc i s)" "curr_cmd (on_bus h2c ifc i s) = Some i"
proof -
  note st = stamp_command_inv [OF assms]
  have "cmd_inv h (upd_node i (\<lambda>n. n\<lparr>cmdbuf_offset := cmdbuf_offset n - INTF_HEADER_LEN,
      cmdbuf_len := cmdbuf_len n + INTF_HEADER_LEN\<rparr>) (stamp_command ifc i s))"
    by (rule cmd_inv_upd_queued [OF st(1)]) (simp_all add: queued_def curr_list_def st(2))
  then show "cmd_inv h (on_bus h2c ifc i s)" "curr_cmd (on_bus h2c ifc i s) = Some i"
    using st(2) by (simp_all add: on_bus_def command_to_card_def)
qed

lemma okp_dnld:
  assumes inv: "cmd_inv (i # h) s" and c: "curr_cmd s = None" and b: "iface_present s (cn_priv (nodes s i))"
  shows "okp (wlan_dnld_cmd_to_fw h2c i s) (\<lambda>x. cmd_inv h (snd x))"
proof -
  have live: "\<And>r. pioctl_buf (nodes s i) = Some r \<Longrightarrow> ioctls s r \<noteq> None" using cmd_inv_live [OF inv, of i] by simp
  obtain ifc where ifc: "cn_priv (nodes s i) < length (cmd_ifaces s)" "cmd_ifaces s ! cn_priv (nodes s i) = Some ifc"
    using b by (auto simp: iface_present_def)
  let ?s2 = "on_bus h2c ifc i s"
  note bus = on_bus_inv [OF inv c b]
  have i2: "i \<in> set (queued ?s2)" using bus(2) by (simp add: queued_def curr_list_def)
  have live2: "\<And>r. pioctl_buf (nodes ?s2 i) = Some r \<Longrightarrow> ioctls ?s2 r \<noteq> None"
    using cmd_inv_live [OF bus(1), of i] i2 by blast
  have empty: "okp (do { s1 \<leftarrow> set_status_if (pioctl_buf (nodes s i)) MLAN_ERROR_CMD_DNLD_FAIL s;
        s2 \<leftarrow> wlan_insert_cmd_to_free_q (Some i) s1; Some (MLAN_STATUS_FAILURE, s2) }) (\<lambda>x. cmd_inv h (snd x))"
    unfolding okp_bind
  proof (rule okp_mono [OF okp_set_status_if [OF inv live]], assumption)
    fix s1
    assume "cmd_inv (i # h) s1 \<and> only_requests s s1 \<and> (\<forall>r. ioctls s1 r = None \<longleftrightarrow> ioctls s r = None)"
    then show "okp (wlan_insert_cmd_to_free_q (Some i) s1) (\<lambda>s2. okp (Some (MLAN_STATUS_FAILURE, s2)) (\<lambda>x. cmd_inv h (snd x)))"
      by (intro okp_mono [OF okp_insert_free [of i h s1]]) auto
  qed
  have failed: "okp (do { s3 \<leftarrow> set_status_if (pioctl_buf (nodes ?s2 i)) MLAN_ERROR_CMD_DNLD_FAIL ?s2;
        s4 \<leftarrow> wlan_insert_cmd_to_free_q (curr_cmd s3) s3;
        Some (MLAN_STATUS_FAILURE, wlan_dump_info REASON_CODE_CMD_TO_CARD_FAILURE
          (s4\<lparr>curr_cmd := None,
              last_cmd_index := (if last_cmd_index s4 > 0 then last_cmd_index s4 - 1 else DBG_CMD_NUM - 1),
              num_cmd_h2c_failure := num_cmd_h2c_failure s4 + 1\<rparr>)) }) (\<lambda>x. cmd_inv h (snd x))"
    unfolding okp_bind
  proof (rule okp_mono [OF okp_set_status_if [OF bus(1) live2]], assumption)
    fix s3
    assume 3: "cmd_inv h s3 \<and> only_requests ?s2 s3 \<and> (\<forall>r. ioctls s3 r = None \<longleftrightarrow> ioctls ?s2 r = None)"
    then have "curr_cmd s3 = Some i"
      using on_bus_inv(2) [OF inv c b, of h2c ifc] only_requestsD(5) [of ?s2 s3] by simp
    then show "okp (wlan_insert_cmd_to_free_q (curr_cmd s3) s3) (\<lambda>s4. okp (Some (MLAN_STATUS_FAILURE,
          wlan_dump_info REASON_CODE_CMD_TO_CARD_FAILURE (s4\<lparr>curr_cmd := None,
              last_cmd_index := (if last_cmd_index s4 > 0 then last_cmd_index s4 - 1 else DBG_CMD_NUM - 1),
              num_cmd_h2c_failure := num_cmd_h2c_failure s4 + 1\<rparr>))) (\<lambda>x. cmd_inv h (snd x)))"
      using 3 by (intro okp_mono [OF okp_release_curr [of h s3 i]]) auto
  qed
  have no_resp: "okp (do { s3 \<leftarrow> wlan_insert_cmd_to_free_q (curr_cmd ?s2) ?s2; Some (h2c, s3\<lparr>curr_cmd := None\<rparr>) })
      (\<lambda>x. cmd_inv h (snd x))"
    unfolding okp_bind by (rule okp_mono [OF okp_release_curr [OF bus]]) simp
  show ?thesis
    unfolding wlan_dnld_cmd_to_fw_def
    using ifc empty failed no_resp bus(1)
    by (auto simp: on_bus_def [symmetric] Let_def arr_get_def simp del: okp_bind)
qed

lemma okp_exec:
  assumes inv: "cmd_inv [] s"
  shows "okp (wlan_exec_next_cmd h2c s) (\<lambda>x. cmd_inv [] (snd x))"
proof (cases "curr_cmd s = None \<and> cmd_pending_q s \<noteq> [] \<and> ps_state s = PS_STATE_AWAKE")
  case False
  then show ?thesis using inv by (auto simp: wlan_exec_next_cmd_def split: list.split)
next
  case True
  then obtain i q where q: "cmd_pending_q s = i # q" by (cases "cmd_pending_q s") auto
  have "iface_present s (cn_priv (nodes s i))"
    using inv q by (auto simp: cmd_inv_def node_inv_def queued_def)
  then have "okp (wlan_dnld_cmd_to_fw h2c i (s\<lparr>cmd_pending_q := q\<rparr>)) (\<lambda>x. cmd_inv [] (snd x))"
    using True cmd_inv_pop_pending [OF inv q] by (intro okp_dnld) simp_all
  then show ?thesis
    unfolding wlan_exec_next_cmd_def using True q by simp (erule okp_mono, auto)
qed

end
