(* ===== verification/Cmd_Cancel_Inv.thy ===== *)
theory Cmd_Cancel_Inv
  imports Cmd_Steps
begin

text \<open>
  The cancel operations keep the invariant of the command path, and what they leave behind: no queued
  command of the cancelled request, interface or scan.
\<close>

subsection \<open>Flushing the scan queue\<close>

declare flush_scan_loop.simps [simp del]
declare cancel_scan_loop.simps [simp del]
declare cancel_all_loop.simps [simp del]
declare cancel_bss_loop.simps [simp del]
declare cancel_ioctl_loop.simps [simp del]

lemma hand_in: "i \<in> set (i # h) \<union> A"
  by simp

lemma keeps_curr_drop: "curr_cmd s \<noteq> Some i \<Longrightarrow> keeps_curr s (drop_request i s)"
  by (rule keeps_curr_node [OF only_node_upd])

text \<open>Dropping the request of a node in hand and freeing the node.\<close>

lemma okp_free_dropped:
  assumes inv: "cmd_inv (i # h) s"
  shows "okp (wlan_insert_cmd_to_free_q (Some i) (drop_request i s)) (\<lambda>s'. cmd_inv h s' \<and> only_node i s s')"
  by (rule okp_mono [OF okp_insert_free [OF cmd_inv_drop_request [OF inv hand_in]]])
     (auto intro: only_node_trans [OF only_node_upd])

lemma okp_flush_loop:
  "cmd_inv h s \<Longrightarrow>
   okp (flush_scan_loop s) (\<lambda>s'. cmd_inv h s' \<and> keeps_curr s s' \<and> pscan_ioctl_req s' = pscan_ioctl_req s
          \<and> scan_pending_q s' = [] \<and> cmd_pending_q s' = cmd_pending_q s)"
proof (induction s rule: flush_scan_loop.induct)
  case (1 s)
  show ?case
  proof (cases "scan_pending_q s")
    case Nil
    then show ?thesis using 1(2) by (simp add: flush_scan_loop.simps)
  next
    case (Cons i q)
    let ?s = "s\<lparr>scan_pending_q := q\<rparr>"
    have inv: "cmd_inv (i # h) ?s" by (rule cmd_inv_pop_scan [OF 1(2) Cons])
    obtain s1 where s1: "wlan_insert_cmd_to_free_q (Some i) (drop_request i ?s) = Some s1" "cmd_inv h s1" "only_node i ?s s1"
      using okpD [OF okp_free_dropped [OF inv]] by blast
    have k: "keeps_curr s s1"
      using keeps_curr_node [OF s1(3) hand_not_curr [OF inv]] by (rule keeps_curr_trans [rotated]) simp
    have "okp (flush_scan_loop s1) (\<lambda>s'. cmd_inv h s' \<and> keeps_curr s1 s' \<and> pscan_ioctl_req s' = pscan_ioctl_req s1
          \<and> scan_pending_q s' = [] \<and> cmd_pending_q s' = cmd_pending_q s1)"
      by (rule 1(1) [OF Cons s1(1) s1(2)])
    then have "okp (flush_scan_loop s1) (\<lambda>s'. cmd_inv h s' \<and> keeps_curr s s' \<and> pscan_ioctl_req s' = pscan_ioctl_req s
          \<and> scan_pending_q s' = [] \<and> cmd_pending_q s' = cmd_pending_q s)"
      by (rule okp_mono) (use k only_nodeD [OF s1(3)] in \<open>auto intro: keeps_curr_trans\<close>)
    then show ?thesis using Cons s1(1) by (simp add: flush_scan_loop.simps [of s])
  qed
qed

lemma okp_flush:
  assumes "cmd_inv h s"
  shows "okp (wlan_flush_scan_queue s)
           (\<lambda>s'. cmd_inv h s' \<and> keeps_curr s s' \<and> pscan_ioctl_req s' = pscan_ioctl_req s
                 \<and> scan_pending_q s' = [] \<and> cmd_pending_q s' = cmd_pending_q s \<and> \<not> scan_processing s')"
  unfolding wlan_flush_scan_queue_def okp_bind by (rule okp_mono [OF okp_flush_loop [OF assms]]) simp

subsection \<open>The request of the scan\<close>

lemma cmd_inv_clear_pscan: "cmd_inv h s \<Longrightarrow> cmd_inv h (s\<lparr>pscan_ioctl_req := None\<rparr>)"
  unfolding cmd_inv_def pool_inv_def node_inv_def req_inv_def req_ok_def node_refs_def queued_def curr_list_def
    iface_present_def by simp

lemma pscan_unreferenced:
  assumes "cmd_inv h s" and "pscan_ioctl_req s = Some r"
  shows "unreferenced h (s\<lparr>pscan_ioctl_req := None\<rparr>) (Some r)"
  using assms unfolding cmd_inv_def req_inv_def req_ok_def unreferenced_def node_refs_def queued_def curr_list_def
  by auto

lemma okp_cancel_scan_request:
  assumes inv: "cmd_inv h s"
  shows "okp (cancel_scan_request s)
           (\<lambda>(p, s'). cmd_inv h s' \<and> keeps_curr s s' \<and> pscan_ioctl_req s' = None
              \<and> nodes s' = nodes s \<and> queued s' = queued s \<and> cmd_pending_q s' = cmd_pending_q s)"
proof (cases "pscan_ioctl_req s")
  case None
  then show ?thesis using inv by (simp add: cancel_scan_request_def)
next
  case (Some r)
  obtain q where q: "ioctls s r = Some q" "req_bss_index q < length (cmd_ifaces s)"
    using inv Some unfolding cmd_inv_def req_inv_def req_ok_def by blast
  have "okp (fail_request r MLAN_ERROR_CMD_CANCEL (s\<lparr>pscan_ioctl_req := None\<rparr>))
      (\<lambda>s'. cmd_inv h s' \<and> only_requests (s\<lparr>pscan_ioctl_req := None\<rparr>) s')"
    by (rule okp_fail_request [OF cmd_inv_clear_pscan [OF inv] pscan_unreferenced [OF inv Some]])
  then show ?thesis
    unfolding cancel_scan_request_def Some option.case q(1) okp_bind
    by (simp add: arr_get_def q(2))
       (erule okp_mono, auto simp: only_requestsD keeps_curr_def queued_def curr_list_def)
qed

lemma okp_stop_scan:
  assumes inv: "cmd_inv h s" and u: "unreferenced h s pio"
  shows "okp (stop_scan enc p pio s) (\<lambda>x. cmd_inv h (snd x) \<and> keeps_curr s (snd x) \<and> pscan_ioctl_req (snd x) = pscan_ioctl_req s)"
proof -
  let ?Q = "\<lambda>x. cmd_inv h (snd x) \<and> keeps_curr s (snd x) \<and> pscan_ioctl_req (snd x) = pscan_ioctl_req s"
  have "okp (do { (_, s1) \<leftarrow> wlan_prepare_cmd enc \<lparr>rq_bss = Some b, rq_no = HostCmd_CMD_802_11_SCAN_EXT,
                      rq_action = HostCmd_ACT_GEN_SET, rq_pioctl = pio, rq_data = None\<rparr> s;
                  Some (MLAN_STATUS_PENDING, wlan_recv_event (Some b) MLAN_EVENT_ID_DRV_DEFER_HANDLING s1) }) ?Q" for b
    unfolding okp_bind
    by (rule okp_mono [OF okp_prepare [OF inv]])
       (use u in \<open>auto simp: prepared_def wlan_recv_event_def\<close>)
  moreover have "okp (do { s1 \<leftarrow> wlan_flush_scan_queue s; Some (MLAN_STATUS_SUCCESS, s1) }) ?Q"
    unfolding okp_bind by (rule okp_mono [OF okp_flush [OF inv]]) simp
  ultimately show ?thesis
    unfolding stop_scan_def using inv by (simp split: option.split del: okp_bind)
qed

subsection \<open>The current command\<close>

lemma curr_queued: "curr_cmd s = Some i \<Longrightarrow> i \<in> set (queued s)"
  by (simp add: queued_def curr_list_def)

lemma mark_cancelled_drop:
  "mark_cancelled i s = upd_node i (\<lambda>n. n\<lparr>cmd_flag := cmd_flag n OR CMD_F_CANCELED\<rparr>) (drop_request i s)"
  by (simp add: mark_cancelled_def upd_node_def)

lemma cmd_inv_mark_cancelled:
  assumes "cmd_inv h s" and "i \<in> set (queued s)"
  shows "cmd_inv h (mark_cancelled i s)"
  unfolding mark_cancelled_def by (rule cmd_inv_upd_queued [OF assms]) simp_all

lemma okp_cancel_curr:
  assumes inv: "cmd_inv h s"
  shows "okp (cancel_curr_if P s)
           (\<lambda>(c, s'). cmd_inv h s' \<and> curr_cmd s' = curr_cmd s \<and> cmd_ifaces s' = cmd_ifaces s
              \<and> pscan_ioctl_req s' = pscan_ioctl_req s \<and> cmd_pending_q s' = cmd_pending_q s \<and> queued s' = queued s)"
proof (cases "curr_cmd s")
  case None
  then show ?thesis using inv by (simp add: cancel_curr_if_def)
next
  case c: (Some i)
  show ?thesis
  proof (cases "pioctl_buf (nodes s i)")
    case None
    then show ?thesis using c inv by (simp add: cancel_curr_if_def)
  next
    case (Some r)
    note i = curr_queued [OF c]
    obtain q where q: "ioctls s r = Some q" using cmd_inv_live [OF inv, of i] i Some by auto
    have u: "unreferenced h (drop_request i s) (Some r)" by (rule own_unreferenced [OF inv _ Some]) (use i in simp)
    have "unreferenced h (mark_cancelled i s) (Some r)"
      by (rule unreferenced_cong [OF u]) (auto simp: mark_cancelled_def queued_def curr_list_def)
    from okp_fail_request [OF cmd_inv_mark_cancelled [OF inv i] this, of MLAN_ERROR_CMD_CANCEL]
    show ?thesis
      unfolding cancel_curr_if_def c Some option.case q using inv c
      by (auto elim!: okp_mono simp: only_requestsD mark_cancelled_def queued_def curr_list_def)
  qed
qed

subsection \<open>Cancelling a scan\<close>

lemma okp_cancel_scan_loop:
  "cmd_inv h s \<Longrightarrow> okp (cancel_scan_loop s) (\<lambda>s'. cmd_inv h s' \<and> keeps_curr s s' \<and> pscan_ioctl_req s' = pscan_ioctl_req s
     \<and> wlan_get_pending_scan_cmd s' = None)"
proof (induction s rule: cancel_scan_loop.induct)
  case (1 s)
  show ?case
  proof (cases "wlan_get_pending_scan_cmd s")
    case None
    then show ?thesis using 1(2) by (simp add: cancel_scan_loop.simps)
  next
    case (Some i)
    let ?s = "s\<lparr>cmd_pending_q := remove1 i (cmd_pending_q s)\<rparr>"
    have i: "i \<in> set (cmd_pending_q s)" using Some find_in by (fastforce simp: wlan_get_pending_scan_cmd_def)
    have inv: "cmd_inv (i # h) ?s" by (rule cmd_inv_take_pending [OF 1(2) i])
    obtain s1 where s1: "wlan_insert_cmd_to_free_q (Some i) ?s = Some s1" "cmd_inv h s1" "only_node i ?s s1"
      using okpD [OF okp_insert_free [OF inv]] by blast
    have "keeps_curr ?s s1" by (rule keeps_curr_node [OF s1(3) hand_not_curr [OF inv]])
    then have k: "keeps_curr s s1" by (rule keeps_curr_trans [rotated]) simp
    have "okp (cancel_scan_loop s1) (\<lambda>s'. cmd_inv h s' \<and> keeps_curr s s' \<and> pscan_ioctl_req s' = pscan_ioctl_req s
        \<and> wlan_get_pending_scan_cmd s' = None)"
      using 1(1) [OF Some s1(1,2)]
      by (rule okp_mono) (use k only_nodeD [OF s1(3)] in \<open>auto intro: keeps_curr_trans\<close>)
    then show ?thesis using Some s1(1) by (simp add: cancel_scan_loop.simps [of s])
  qed
qed

subsection \<open>Cancelling everything\<close>

lemma okp_cancel_node:
  assumes inv: "cmd_inv (i # h) s"
  shows "okp (cancel_node i s) (\<lambda>s'. cmd_inv h s' \<and> only_node i s s')"
proof (cases "pioctl_buf (nodes s i)")
  case None
  then show ?thesis using okp_insert_free [OF inv] by (simp add: cancel_node_def) (erule okp_mono, simp)
next
  case (Some r)
  show ?thesis
    unfolding cancel_node_def Some option.case okp_bind
  proof (rule okp_mono [OF okp_fail_own [OF inv hand_in Some]])
    fix s1
    assume 1: "cmd_inv (i # h) (drop_request i s1) \<and> only_requests s s1"
    then have "only_node i s (drop_request i s1)" by (blast intro: only_node_trans only_node_intros)
    then show "okp (Some (drop_request i s1)) (\<lambda>s2. okp (wlan_insert_cmd_to_free_q (Some i) s2)
        (\<lambda>s'. cmd_inv h s' \<and> only_node i s s'))"
      using okp_insert_free [of i h "drop_request i s1"] 1 by (auto elim!: okp_mono intro: only_node_trans)
  qed
qed

lemma okp_cancel_all_loop:
  "cmd_inv h s \<Longrightarrow> okp (cancel_all_loop s) (\<lambda>s'. cmd_inv h s' \<and> curr_cmd s' = curr_cmd s
     \<and> pscan_ioctl_req s' = pscan_ioctl_req s \<and> cmd_pending_q s' = [])"
proof (induction s rule: cancel_all_loop.induct)
  case (1 s)
  show ?case
  proof (cases "cmd_pending_q s")
    case Nil
    then show ?thesis using 1(2) by (simp add: cancel_all_loop.simps)
  next
    case (Cons i q)
    have inv: "cmd_inv (i # h) (s\<lparr>cmd_pending_q := q\<rparr>)" by (rule cmd_inv_pop_pending [OF 1(2) Cons])
    obtain s1 where s1: "cancel_node i (s\<lparr>cmd_pending_q := q\<rparr>) = Some s1" "cmd_inv h s1" "only_node i (s\<lparr>cmd_pending_q := q\<rparr>) s1"
      using okpD [OF okp_cancel_node [OF inv]] by blast
    have "okp (cancel_all_loop s1) (\<lambda>s'. cmd_inv h s' \<and> curr_cmd s' = curr_cmd s
        \<and> pscan_ioctl_req s' = pscan_ioctl_req s \<and> cmd_pending_q s' = [])"
      using 1(1) [OF Cons s1(1,2)] by (rule okp_mono) (use only_nodeD [OF s1(3)] in auto)
    then show ?thesis using Cons s1(1) by (simp add: cancel_all_loop.simps [of s])
  qed
qed

lemma unreferenced_None [simp]: "unreferenced h s None"
  by (simp add: unreferenced_def)

text \<open>After cancelling everything no command is pending or current.\<close>

lemma okp_cancel_all:
  assumes inv: "cmd_inv [] s"
  shows "okp (wlan_cancel_all_pending_cmd enc s) (\<lambda>s'. cmd_inv [] s' \<and> curr_cmd s' = None \<and> pscan_ioctl_req s' = None)"
  unfolding wlan_cancel_all_pending_cmd_def okp_bind
proof (rule okp_mono [OF okp_cancel_scan_request [OF inv]], clarsimp)
  fix p s1
  assume 1: "cmd_inv [] s1" "pscan_ioctl_req s1 = None"
  have "okp (case curr_cmd s1 of None \<Rightarrow> Some s1 | Some i \<Rightarrow> cancel_node i (s1\<lparr>curr_cmd := None\<rparr>))
      (\<lambda>s2. cmd_inv [] s2 \<and> curr_cmd s2 = None \<and> pscan_ioctl_req s2 = None)"
  proof (cases "curr_cmd s1")
    case None
    then show ?thesis using 1 by simp
  next
    case (Some i)
    from okp_cancel_node [OF cmd_inv_take_curr [OF 1(1) Some]]
    show ?thesis using Some 1(2) by (auto elim!: okp_mono simp: only_nodeD)
  qed
  then show "okp (case curr_cmd s1 of None \<Rightarrow> Some s1 | Some i \<Rightarrow> cancel_node i (s1\<lparr>curr_cmd := None\<rparr>))
      (\<lambda>s2. okp (cancel_all_loop s2) (\<lambda>s3. okp (stop_scan enc p None s3)
        (\<lambda>x. okp (case x of (_, s4) \<Rightarrow> Some s4) (\<lambda>s'. cmd_inv [] s' \<and> curr_cmd s' = None \<and> pscan_ioctl_req s' = None))))"
  proof (rule okp_mono)
    fix s2
    assume 2: "cmd_inv [] s2 \<and> curr_cmd s2 = None \<and> pscan_ioctl_req s2 = None"
    show "okp (cancel_all_loop s2) (\<lambda>s3. okp (stop_scan enc p None s3)
        (\<lambda>x. okp (case x of (_, s4) \<Rightarrow> Some s4) (\<lambda>s'. cmd_inv [] s' \<and> curr_cmd s' = None \<and> pscan_ioctl_req s' = None)))"
    proof (rule okp_mono [OF okp_cancel_all_loop])
      show "cmd_inv [] s2" using 2 by simp
      fix s3
      assume "cmd_inv [] s3 \<and> curr_cmd s3 = curr_cmd s2 \<and> pscan_ioctl_req s3 = pscan_ioctl_req s2 \<and> cmd_pending_q s3 = []"
      then show "okp (stop_scan enc p None s3)
        (\<lambda>x. okp (case x of (_, s4) \<Rightarrow> Some s4) (\<lambda>s'. cmd_inv [] s' \<and> curr_cmd s' = None \<and> pscan_ioctl_req s' = None))"
        using 2 by (intro okp_mono [OF okp_stop_scan [of "[]" s3 None enc p]]) (auto simp: keeps_curr_def)
    qed
  qed
qed

subsection \<open>Requests that nothing refers to\<close>

text \<open>An operation completes only requests that are referred to: the others stay alive and unreferenced.\<close>

lemma insert_free_unref:
  assumes "wlan_insert_cmd_to_free_q (Some i) s = Some s'" and u: "unreferenced (i # h) s (Some r)"
  shows "unreferenced h s' (Some r)"
proof -
  obtain s1 where s1: "complete_own i s = Some s1"
    and s': "s' = (wlan_clean_cmd_node i s1)\<lparr>cmd_free_q := cmd_free_q (wlan_clean_cmd_node i s1) @ [i]\<rparr>"
    using assms(1) by (auto simp: wlan_insert_cmd_to_free_q_def Let_def Option.bind_eq_Some_conv)
  have "unreferenced (i # h) s1 (Some r) \<and> nodes s1 = nodes s"
    using s1 u
    by (auto simp: complete_own_def moal_ioctl_complete_def unreferenced_def node_refs_def queued_def curr_list_def
        split: option.splits)
  moreover have "pioctl_buf (nodes (wlan_clean_cmd_node i s1) j) = (if j = i then None else pioctl_buf (nodes s1 j))" for j
    by (simp add: wlan_clean_cmd_node_def Let_def split: option.split)
  moreover have "pwarm_reset_ioctl_req (wlan_clean_cmd_node i s1) = pwarm_reset_ioctl_req s1"
    by (simp add: wlan_clean_cmd_node_def Let_def split: option.split)
  ultimately show ?thesis unfolding s'
    by (auto simp: unreferenced_def node_refs_def queued_def curr_list_def)
qed

text \<open>Moving a node to the hand, and dropping requests, create no reference.\<close>

lemma unref_subset:
  assumes "unreferenced h s (Some r)"
    and "set h' \<union> set (queued s') \<subseteq> set h \<union> set (queued s)"
    and "\<And>j. pioctl_buf (nodes s' j) = pioctl_buf (nodes s j) \<or> pioctl_buf (nodes s' j) = None"
    and "ioctls s' = ioctls s" "pwarm_reset_ioctl_req s' = pwarm_reset_ioctl_req s"
    and "pscan_ioctl_req s' = pscan_ioctl_req s \<or> pscan_ioctl_req s' = None"
  shows "unreferenced h' s' (Some r)"
proof -
  have "node_refs (set h' \<union> set (queued s')) s' r \<Longrightarrow> node_refs (set h \<union> set (queued s)) s r"
    using assms(2,3) unfolding node_refs_def by (metis UnE UnI1 UnI2 in_mono option.distinct(1))
  then show ?thesis using assms by (auto simp: unreferenced_def)
qed

lemma fail_request_unref:
  assumes "fail_request r' c s = Some s'" and "unreferenced h s (Some r)" and "r' \<noteq> r"
  shows "unreferenced h s' (Some r)"
  using assms
  by (auto simp: fail_request_def set_status_code_def moal_ioctl_complete_def unreferenced_def node_refs_def
      queued_def curr_list_def Option.bind_eq_Some_conv split: option.splits)

lemma cancel_scan_request_unref:
  assumes "cancel_scan_request s = Some (p, s')" and u: "unreferenced h s (Some r)"
  shows "unreferenced h s' (Some r)"
proof (cases "pscan_ioctl_req s")
  case None
  then show ?thesis using assms by (simp add: cancel_scan_request_def)
next
  case (Some r')
  then have f: "fail_request r' MLAN_ERROR_CMD_CANCEL (s\<lparr>pscan_ioctl_req := None\<rparr>) = Some s'"
    using assms(1) by (auto simp: cancel_scan_request_def Option.bind_eq_Some_conv split: option.splits)
  moreover have "r' \<noteq> r" using u Some by (simp add: unreferenced_def)
  moreover have "unreferenced h (s\<lparr>pscan_ioctl_req := None\<rparr>) (Some r)"
    by (rule unref_subset [OF u]) (simp_all add: queued_def curr_list_def)
  ultimately show ?thesis by (blast intro: fail_request_unref)
qed

lemma cancel_curr_unref:
  assumes "cancel_curr_if P s = Some (c, s')" and u: "unreferenced h s (Some r)"
  shows "unreferenced h s' (Some r)"
proof (cases "s' = s")
  case False
  then obtain i r' where i: "curr_cmd s = Some i" "pioctl_buf (nodes s i) = Some r'"
    and f: "fail_request r' MLAN_ERROR_CMD_CANCEL (mark_cancelled i s) = Some s'"
    using assms(1) by (auto simp: cancel_curr_if_def Option.bind_eq_Some_conv split: option.splits if_splits)
  have "r' \<noteq> r" using u i curr_queued [OF i(1)] by (auto simp: unreferenced_def node_refs_def)
  moreover have "unreferenced h (mark_cancelled i s) (Some r)"
    by (rule unref_subset [OF u]) (simp_all add: mark_cancelled_def queued_def curr_list_def)
  ultimately show ?thesis using f by (blast intro: fail_request_unref)
qed (use u in simp)

lemma cancel_scan_loop_unref:
  "cancel_scan_loop s = Some s' \<Longrightarrow> unreferenced [] s (Some r) \<Longrightarrow> unreferenced [] s' (Some r)"
proof (induction s rule: cancel_scan_loop.induct)
  case (1 s)
  show ?case
  proof (cases "wlan_get_pending_scan_cmd s")
    case None
    then show ?thesis using 1(2,3) by (simp add: cancel_scan_loop.simps [of s])
  next
    case (Some i)
    let ?s = "s\<lparr>cmd_pending_q := remove1 i (cmd_pending_q s)\<rparr>"
    have i: "i \<in> set (cmd_pending_q s)" using Some find_in by (fastforce simp: wlan_get_pending_scan_cmd_def)
    obtain s1 where s1: "wlan_insert_cmd_to_free_q (Some i) ?s = Some s1" "cancel_scan_loop s1 = Some s'"
      using 1(2) Some by (auto simp: cancel_scan_loop.simps [of s] Option.bind_eq_Some_conv)
    have "unreferenced [i] ?s (Some r)"
      by (rule unref_subset [OF 1(3)]) (use i in \<open>auto simp: queued_def curr_list_def dest: notin_set_remove1\<close>)
    then have "unreferenced [] s1 (Some r)" by (rule insert_free_unref [OF s1(1)])
    then show ?thesis by (rule 1(1) [OF Some s1])
  qed
qed

text \<open>Cancelling a scan on behalf of a request of its own.\<close>

lemma okp_cancel_scan:
  assumes inv: "cmd_inv [] s" and u: "unreferenced [] s (Some r)"
  shows "okp (wlan_cancel_pending_scan_cmd enc r s) (\<lambda>x. cmd_inv [] (snd x))"
proof -
  obtain p s1 where 1: "cancel_scan_request s = Some (p, s1)" "cmd_inv [] s1"
    using okpD [OF okp_cancel_scan_request [OF inv]] by auto
  obtain c s2 where 2: "cancel_curr_if (\<lambda>q. req_id q = MLAN_IOCTL_SCAN) s1 = Some (c, s2)" "cmd_inv [] s2"
    using okpD [OF okp_cancel_curr [OF 1(2)]] by fastforce
  obtain s3 where 3: "cancel_scan_loop s2 = Some s3" "cmd_inv [] s3"
    using okpD [OF okp_cancel_scan_loop [OF 2(2)]] by auto
  have "unreferenced [] s3 (Some r)"
    using cancel_scan_loop_unref [OF 3(1)] cancel_curr_unref [OF 2(1)] cancel_scan_request_unref [OF 1(1)] u by blast
  from okp_stop_scan [OF 3(2) this, of enc p]
  show ?thesis by (simp add: wlan_cancel_pending_scan_cmd_def 1(1) 2(1) 3(1)) (erule okp_mono, simp)
qed

subsection \<open>Cancelling one request\<close>

text \<open>A node is found by the request it carries: afterwards nothing refers to the request.\<close>

lemma okp_cancel_ioctl_loop:
  "cmd_inv [] s \<Longrightarrow> (found \<longrightarrow> unreferenced [] s (Some r)) \<Longrightarrow>
   okp (cancel_ioctl_loop r found s)
     (\<lambda>(found', s'). cmd_inv [] s' \<and> (found' \<longrightarrow> unreferenced [] s' (Some r)) \<and> wlan_get_pending_ioctl_cmd r s' = None)"
proof (induction r found s rule: cancel_ioctl_loop.induct)
  case (1 r found s)
  show ?case
  proof (cases "wlan_get_pending_ioctl_cmd r s")
    case None
    then show ?thesis using 1(2,3) by (simp add: cancel_ioctl_loop.simps)
  next
    case (Some i)
    let ?s = "s\<lparr>cmd_pending_q := remove1 i (cmd_pending_q s)\<rparr>"
    have i: "i \<in> set (cmd_pending_q s)" and r: "pioctl_buf (nodes s i) = Some r"
      using Some by (auto simp: wlan_get_pending_ioctl_cmd_def find_Some_iff)
    have inv: "cmd_inv [i] ?s" by (rule cmd_inv_take_pending [OF 1(2) i])
    obtain s1 where s1: "wlan_insert_cmd_to_free_q (Some i) (drop_request i ?s) = Some s1" "cmd_inv [] s1"
      using okpD [OF okp_free_dropped [OF inv]] by blast
    have "unreferenced [i] (drop_request i ?s) (Some r)"
      by (rule own_unreferenced [OF inv]) (use r in simp_all)
    then have "unreferenced [] s1 (Some r)" by (rule insert_free_unref [OF s1(1)])
    then have "okp (cancel_ioctl_loop r True s1)
        (\<lambda>(found', s'). cmd_inv [] s' \<and> (found' \<longrightarrow> unreferenced [] s' (Some r)) \<and> wlan_get_pending_ioctl_cmd r s' = None)"
      using 1(1) [OF Some s1(1,2)] by simp
    then show ?thesis using Some s1(1) by (simp add: cancel_ioctl_loop.simps [of r found s])
  qed
qed

lemma flush_loop_unref:
  "flush_scan_loop s = Some s' \<Longrightarrow> unreferenced [] s (Some r) \<Longrightarrow> unreferenced [] s' (Some r)"
proof (induction s rule: flush_scan_loop.induct)
  case (1 s)
  show ?case
  proof (cases "scan_pending_q s")
    case Nil
    then show ?thesis using 1(2,3) by (simp add: flush_scan_loop.simps [of s])
  next
    case (Cons i q)
    let ?s = "drop_request i (s\<lparr>scan_pending_q := q\<rparr>)"
    obtain s1 where s1: "wlan_insert_cmd_to_free_q (Some i) ?s = Some s1" "flush_scan_loop s1 = Some s'"
      using 1(2) Cons by (auto simp: flush_scan_loop.simps [of s] Option.bind_eq_Some_conv)
    have "unreferenced [i] ?s (Some r)"
      by (rule unref_subset [OF 1(3)]) (use Cons in \<open>auto simp: queued_def curr_list_def\<close>)
    then have "unreferenced [] s1 (Some r)" by (rule insert_free_unref [OF s1(1)])
    then show ?thesis by (rule 1(1) [OF Cons s1])
  qed
qed

lemma queue_prepared_unref:
  assumes "unreferenced (i # h) s (Some r)"
  shows "unreferenced h (queue_prepared rq i s) (Some r)"
  by (rule unref_subset [OF assms])
     (auto simp: queue_prepared_def wlan_insert_cmd_to_pending_q_def wlan_queue_scan_cmd_def Let_def queued_def curr_list_def)

lemma prepare_node_unref:
  assumes p: "prepare_node enc rq bss i s = Some (ret, s')" and n: "rq_pioctl rq = None"
    and u: "unreferenced (i # h) s (Some r)"
  shows "unreferenced h s' (Some r)"
proof -
  obtain s1 ret2 s2 where s1: "wlan_init_cmd_node bss i (ucast (rq_no rq)) None (rq_data rq) (s\<lparr>num_no_cmd_node := 0\<rparr>) = Some s1"
    and s2: "encode_prepared enc rq i s1 = Some (ret2, s2)"
    and s': "(if ret2 \<noteq> MLAN_STATUS_SUCCESS then do { s3 \<leftarrow> abandon_node rq i s2; Some (MLAN_STATUS_FAILURE, s3) }
              else Some (MLAN_STATUS_SUCCESS, queue_prepared rq i s2)) = Some (ret, s')"
    using p unfolding prepare_node_def n by (auto simp: Option.bind_eq_Some_conv)
  have "unreferenced (i # h) s1 (Some r)"
    by (rule unref_subset [OF u])
       (use s1 in \<open>auto simp: wlan_init_cmd_node_def queued_def curr_list_def split: if_splits\<close>)
  then have u2: "unreferenced (i # h) s2 (Some r)"
    by (rule unref_subset)
       (use s2 in \<open>auto simp: encode_prepared_def Let_def queued_def curr_list_def split: if_splits option.splits prod.splits\<close>)
  show ?thesis
  proof (cases "ret2 = MLAN_STATUS_SUCCESS")
    case True
    then show ?thesis using s' queue_prepared_unref [OF u2, of rq] by auto
  next
    case False
    then have "wlan_insert_cmd_to_free_q (Some i) (drop_request i s2) = Some s'"
      using s' by (simp add: abandon_node_def set_status_if_def n Option.bind_eq_Some_conv)
    moreover have "unreferenced (i # h) (drop_request i s2) (Some r)"
      by (rule unref_subset [OF u2]) (auto simp: queued_def curr_list_def)
    ultimately show ?thesis by (rule insert_free_unref)
  qed
qed

lemma prepare_unref:
  assumes inv: "cmd_inv h s" and p: "wlan_prepare_cmd enc rq s = Some (ret, s')" and n: "rq_pioctl rq = None"
    and u: "unreferenced h s (Some r)"
  shows "unreferenced h s' (Some r)"
proof -
  have dump: "unreferenced h (wlan_dump_info k s) (Some r)" for k
    by (rule unref_subset [OF u])
       (auto simp: wlan_dump_info_def wlan_recv_event_def Let_def queued_def curr_list_def note_call_def split: option.split)
  have take: "unreferenced (i # h) s1 (Some r)" if g: "wlan_get_cmd_node s = (Some i, s1)" for i s1
    using u get_cmd_node_inv [OF inv g] by (auto simp: unreferenced_def node_refs_def keeps_curr_def)
  from p consider "s' = s" | k where "s' = wlan_dump_info k s"
    | bss i s1 where "wlan_get_cmd_node s = (Some i, s1)" "prepare_node enc rq bss i s1 = Some (ret, s')"
    unfolding wlan_prepare_cmd_def
    by (auto simp: n set_status_if_def wlan_get_cmd_node_def split: option.splits if_splits list.splits)
  then show ?thesis
    using u dump take prepare_node_unref [OF _ n] by cases blast+
qed

lemma stop_scan_unref:
  assumes inv: "cmd_inv [] s" and p: "stop_scan enc p None s = Some (x, s')" and u: "unreferenced [] s (Some r)"
  shows "unreferenced [] s' (Some r)"
proof -
  have event: "unreferenced [] (wlan_recv_event b e t) (Some r) = unreferenced [] t (Some r)" for b e t
    by (simp add: unreferenced_def node_refs_def queued_def curr_list_def wlan_recv_event_def split: option.split)
  have flag: "unreferenced [] (t\<lparr>scan_processing := False\<rparr>) (Some r) = unreferenced [] t (Some r)" for t
    by (simp add: unreferenced_def node_refs_def queued_def curr_list_def)
  show ?thesis
    using p u
    by (auto simp: stop_scan_def wlan_flush_scan_queue_def Option.bind_eq_Some_conv event flag
        split: if_splits option.splits dest: prepare_unref [OF inv] flush_loop_unref)
qed

lemma clear_pscan_unref:
  assumes "cmd_inv [] s" and "pscan_ioctl_req s = Some r"
  shows "cmd_inv [] (s\<lparr>pscan_ioctl_req := None\<rparr>)" "unreferenced [] (s\<lparr>pscan_ioctl_req := None\<rparr>) (Some r)"
  using cmd_inv_clear_pscan [OF assms(1)] pscan_unreferenced [OF assms] by blast+

lemma mark_cancelled_unref:
  assumes "cmd_inv [] s" and c: "curr_cmd s = Some i" and r: "pioctl_buf (nodes s i) = Some r"
  shows "unreferenced [] (mark_cancelled i s) (Some r)"
proof -
  have "unreferenced [] (drop_request i s) (Some r)"
    by (rule own_unreferenced [OF assms(1) _ r]) (use curr_queued [OF c] in simp)
  then show ?thesis
    by (rule unreferenced_cong) (auto simp: mark_cancelled_def queued_def curr_list_def)
qed

text \<open>Cancelling a request that is alive: the invariant is kept, and no queued command carries it any more.\<close>

lemma okp_cancel_ioctl:
  assumes inv: "cmd_inv [] s" and r: "ioctls s r = Some q"
  shows "okp (wlan_cancel_pending_ioctl enc r s) (cmd_inv [])"
proof -
  have b: "req_bss_index q < length (cmd_ifaces s)"
    using inv r unfolding cmd_inv_def req_inv_def req_ok_def by blast
  obtain p f1 s1 where 1: "(if pscan_ioctl_req s = Some r then do {
               x \<leftarrow> arr_get (cmd_ifaces s) (int (req_bss_index q));
               Some (case x of None \<Rightarrow> None | Some _ \<Rightarrow> Some (req_bss_index q), True, s\<lparr>pscan_ioctl_req := None\<rparr>) }
             else Some (None, False, s)) = Some (p, f1, s1)"
    and i1: "cmd_inv [] s1" "f1 \<longrightarrow> unreferenced [] s1 (Some r)"
    using inv b clear_pscan_unref [OF inv] by (cases "pscan_ioctl_req s = Some r") (simp_all add: arr_get_def)
  obtain f2 s2 where 2: "(case curr_cmd s1 of
               Some i \<Rightarrow> if pioctl_buf (nodes s1 i) = Some r then (True, mark_cancelled i s1) else (f1, s1)
             | None \<Rightarrow> (f1, s1)) = (f2, s2)"
    and i2: "cmd_inv [] s2" "f2 \<longrightarrow> unreferenced [] s2 (Some r)"
  proof (cases "\<exists>i. curr_cmd s1 = Some i \<and> pioctl_buf (nodes s1 i) = Some r")
    case True
    then obtain i where i: "curr_cmd s1 = Some i" "pioctl_buf (nodes s1 i) = Some r" by blast
    show ?thesis
      by (rule that [of True "mark_cancelled i s1"])
         (use i mark_cancelled_unref [OF i1(1) i] cmd_inv_mark_cancelled [OF i1(1) curr_queued [OF i(1)]] in simp_all)
  next
    case False
    then show ?thesis using i1 by (intro that [of f1 s1]) (auto split: option.split)
  qed
  obtain f3 s3 where 3: "cancel_ioctl_loop r f2 s2 = Some (f3, s3)"
    and i3: "cmd_inv [] s3" "f3 \<longrightarrow> unreferenced [] s3 (Some r)"
    using okpD [OF okp_cancel_ioctl_loop [OF i2]] by auto
  obtain x s4 where 4: "(if req_id q = MLAN_IOCTL_SCAN then stop_scan enc p None s3
                      else Some (MLAN_STATUS_SUCCESS, s3)) = Some (x, s4)"
    and i4: "cmd_inv [] s4" "f3 \<longrightarrow> unreferenced [] s4 (Some r)"
    using okpD [OF okp_stop_scan [OF i3(1) unreferenced_None]] i3 stop_scan_unref [OF i3(1)]
    by (cases "req_id q = MLAN_IOCTL_SCAN") fastforce+
  have "okp (if f3 then fail_request r MLAN_ERROR_CMD_CANCEL s4 else Some s4) (cmd_inv [])"
    using i4 by (auto intro!: okp_mono [OF okp_fail_request])
  then show ?thesis
    unfolding wlan_cancel_pending_ioctl_def r option.case 1 bind.bind_lunit prod.case 2 Let_def 3 4 by simp
qed

subsection \<open>Cancelling the commands of an interface\<close>

lemma bss_walk_total:
  assumes "\<forall>i \<in> set is. \<not> own_dead i s"
  obtains (none) "bss_pending_walk bss is s = Some None" "\<forall>i \<in> set is. \<not> own_bss bss i s"
    | (found) i r q where "bss_pending_walk bss is s = Some (Some i)" "i \<in> set is"
        "pioctl_buf (nodes s i) = Some r" "ioctls s r = Some q" "req_bss_index q = bss"
proof -
  have "(bss_pending_walk bss is s = Some None \<and> (\<forall>i \<in> set is. \<not> own_bss bss i s)) \<or>
    (\<exists>i. bss_pending_walk bss is s = Some (Some i) \<and> i \<in> set is \<and> own_bss bss i s)"
    using assms by (induction "is") auto
  then show thesis using none found by (fastforce simp: own_bss_def split: option.splits)
qed

lemma pending_alive:
  assumes "cmd_inv h s" and "i \<in> set (cmd_pending_q s)"
  shows "\<not> own_dead i s"
  using cmd_inv_live [OF assms(1), of i] assms(2) by (auto simp: own_dead_def queued_def split: option.splits)

lemma okp_cancel_bss_loop:
  "cmd_inv [] s \<Longrightarrow> okp (cancel_bss_loop bss flash s)
     (\<lambda>(flash', s'). cmd_inv [] s' \<and> (\<forall>i \<in> set (cmd_pending_q s'). \<not> own_bss bss i s'))"
proof (induction bss flash s rule: cancel_bss_loop.induct)
  case (1 bss flash s)
  have alive: "\<forall>i \<in> set (cmd_pending_q s). \<not> own_dead i s" using pending_alive [OF 1(2)] by blast
  from alive show ?case
  proof (cases rule: bss_walk_total [where bss = bss])
    case none
    then show ?thesis
      using 1(2) by (simp add: cancel_bss_loop.simps wlan_get_bss_pending_ioctl_cmd_def)
  next
    case (found i r q)
    then have w: "wlan_get_bss_pending_ioctl_cmd bss s = Some (Some i)" by (simp add: wlan_get_bss_pending_ioctl_cmd_def)
    let ?s = "s\<lparr>cmd_pending_q := remove1 i (cmd_pending_q s)\<rparr>"
    have inv: "cmd_inv [i] ?s" by (rule cmd_inv_take_pending [OF 1(2) found(2)])
    have "unreferenced [i] (drop_request i ?s) (Some r)" by (rule own_unreferenced [OF inv]) (use found in simp_all)
    from okpD [OF okp_fail_request [OF cmd_inv_drop_request [OF inv hand_in] this]]
    obtain s1 where s1: "fail_request r MLAN_ERROR_CMD_CANCEL (drop_request i ?s) = Some s1" "cmd_inv [i] s1" by blast
    obtain s2 where s2: "wlan_insert_cmd_to_free_q (Some i) s1 = Some s2" "cmd_inv [] s2"
      using okpD [OF okp_insert_free [OF s1(2)]] by blast
    have "okp (cancel_bss_loop bss (flash \<or> req_id q = MLAN_IOCTL_SCAN) s2)
        (\<lambda>(flash', s'). cmd_inv [] s' \<and> (\<forall>i \<in> set (cmd_pending_q s'). \<not> own_bss bss i s'))"
      by (rule 1(1) [OF w _ found(3,4) s1(1) s2]) simp
    then show ?thesis
      by (simp add: cancel_bss_loop.simps [of bss flash s] w found(3,4) s1(1) s2(1))
  qed
qed

lemma okp_cancel_bss:
  assumes inv: "cmd_inv [] s"
  shows "okp (wlan_cancel_bss_pending_cmd enc bss s) (cmd_inv [])"
proof -
  have live: "\<And>r. pscan_ioctl_req s = Some r \<Longrightarrow> ioctls s r \<noteq> None"
    using inv unfolding cmd_inv_def req_inv_def req_ok_def by blast
  obtain mine where m: "(case pscan_ioctl_req s of None \<Rightarrow> Some False
              | Some r \<Rightarrow> (case ioctls s r of None \<Rightarrow> None | Some q \<Rightarrow> Some (req_bss_index q = bss))) = Some mine"
    using live by (cases "pscan_ioctl_req s") (auto split: option.splits)
  obtain p s1 where 1: "(if mine then cancel_scan_request s else Some (None, s)) = Some (p, s1)" "cmd_inv [] s1"
    using okpD [OF okp_cancel_scan_request [OF inv]] inv by (cases mine) auto
  obtain c s2 where 2: "cancel_curr_if (\<lambda>q. req_bss_index q = bss) s1 = Some (c, s2)" "cmd_inv [] s2"
    using okpD [OF okp_cancel_curr [OF 1(2)]] by fastforce
  obtain flash s3 where 3: "cancel_bss_loop bss (mine \<or> (case c of None \<Rightarrow> False | Some q \<Rightarrow> req_id q = MLAN_IOCTL_SCAN)) s2
      = Some (flash, s3)" "cmd_inv [] s3"
    using okpD [OF okp_cancel_bss_loop [OF 2(2)]] by fastforce
  have "okp (if flash then do { (_, s4) \<leftarrow> stop_scan enc p None s3; Some s4 } else Some s3) (cmd_inv [])"
    using 3(2) by (auto intro!: okp_mono [OF okp_stop_scan])
  then show ?thesis
    unfolding wlan_cancel_bss_pending_cmd_def m bind.bind_lunit 1(1) prod.case 2(1) 3(1) .
qed

end
