(* ===== verification/Cmd_Resp_Inv.thy ===== *)
theory Cmd_Resp_Inv
  imports Cmd_Cancel_Inv
begin

text \<open>
  The response side keeps the invariant of the command path: handlers, scans, the error path, the release of the
  node, the timer.  The state machine of the whole command path and its reachable states close the theory.
\<close>

subsection \<open>Handlers\<close>

text \<open>The request of the current command, as the response code carries it along.\<close>

definition curr_request :: "nat option \<Rightarrow> cmd_ctx \<Rightarrow> bool" where
  "curr_request pio s \<longleftrightarrow> (case curr_cmd s of None \<Rightarrow> False | Some c \<Rightarrow> pioctl_buf (nodes s c) = pio)"

lemma curr_request_keeps: "curr_request pio s \<Longrightarrow> keeps_curr s s' \<Longrightarrow> curr_request pio s'"
  by (auto simp: curr_request_def keeps_curr_def split: option.splits)

lemma curr_request_live:
  assumes "cmd_inv h s" and "curr_request pio s" and "pio = Some r"
  shows "ioctls s r \<noteq> None"
  using assms cmd_inv_live [OF assms(1)] by (auto simp: curr_request_def queued_def curr_list_def split: option.splits)

lemma okp_status_curr:
  assumes "cmd_inv h s" and "curr_request pio s"
  shows "okp (set_status_if pio c s) (\<lambda>s'. cmd_inv h s' \<and> curr_request pio s' \<and> only_requests s s')"
  by (rule okp_mono [OF okp_set_status_if [OF assms(1)]])
     (use assms curr_request_live [OF assms] in \<open>auto intro: curr_request_keeps keeps_curr_requests\<close>)

lemma okp_prepare_own:
  assumes "cmd_inv h s" and "rq_pioctl rq = None" and "rq_no rq = 0 \<longrightarrow> rq_data rq \<noteq> None"
  shows "okp (wlan_prepare_cmd enc rq s) (prepared h s)"
  using assms by (intro okp_prepare) simp_all

lemma prepared_fields: "prepared h s (ret, s') \<Longrightarrow> cmd_inv h s' \<and> keeps_curr s s' \<and> pscan_ioctl_req s' = pscan_ioctl_req s"
  by (simp add: prepared_def)

lemma cmd_inv_last_init: "cmd_inv h s \<Longrightarrow> cmd_inv h (s\<lparr>last_init_cmd := no\<rparr>)"
  by simp

lemma okp_run_acts:
  "cmd_inv h s \<Longrightarrow> pio = None \<or> curr_request pio s \<Longrightarrow>
   okp (run_acts pio as s) (\<lambda>s'. cmd_inv h s' \<and> keeps_curr s s')"
proof (induction pio "as" s rule: run_acts.induct)
  case (1 pio s)
  then show ?case by simp
next
  case (2 pio enc b no act "as" s)
  show ?case
  proof (cases "no = 0")
    case True
    then show ?thesis using 2 by simp
  next
    case False
    let ?rq = "\<lparr>rq_bss = Some b, rq_no = no, rq_action = act, rq_pioctl = None, rq_data = None\<rparr>"
    obtain ret s1 where s1: "wlan_prepare_cmd enc ?rq s = Some (ret, s1)" "prepared h s (ret, s1)"
      using okpD [OF okp_prepare_own [OF 2(3), of ?rq enc]] False by auto
    note f = prepared_fields [OF s1(2)]
    have "okp (run_acts pio as s1) (\<lambda>s'. cmd_inv h s' \<and> keeps_curr s1 s')"
      by (rule 2(2) [OF False s1(1) refl]) (use f 2(4) curr_request_keeps in auto)
    then show ?thesis using False s1(1) f by (auto elim!: okp_mono intro: keeps_curr_trans)
  qed
next
  case (3 pio b d "as" s)
  let ?rq = "\<lparr>rq_bss = Some b, rq_no = 0, rq_action = 0, rq_pioctl = None, rq_data = Some d\<rparr>"
  let ?enc = "\<lambda>c. (MLAN_STATUS_SUCCESS, c)"
  obtain ret s1 where s1: "wlan_prepare_cmd ?enc ?rq s = Some (ret, s1)" "prepared h s (ret, s1)"
    using okpD [OF okp_prepare_own [OF 3(2), of ?rq ?enc]] by auto
  note f = prepared_fields [OF s1(2)]
  have "okp (run_acts pio as s1) (\<lambda>s'. cmd_inv h s' \<and> keeps_curr s1 s')"
    by (rule 3(1) [OF s1(1) refl]) (use f 3(3) curr_request_keeps in auto)
  then show ?case using s1(1) f by (auto elim!: okp_mono intro: keeps_curr_trans)
next
  case (4 pio c "as" s)
  have "okp (set_status_if pio c s) (\<lambda>s'. cmd_inv h s' \<and> (pio = None \<or> curr_request pio s') \<and> keeps_curr s s')"
  proof (cases "pio = None")
    case True
    then show ?thesis using 4(2) by (simp add: set_status_if_def)
  next
    case False
    then show ?thesis using 4(2,3) by (auto intro!: okp_mono [OF okp_status_curr] keeps_curr_requests)
  qed
  then obtain s1 where s1: "set_status_if pio c s = Some s1" "cmd_inv h s1" "pio = None \<or> curr_request pio s1" "keeps_curr s s1"
    using okpD by blast
  have "okp (run_acts pio as s1) (\<lambda>s'. cmd_inv h s' \<and> keeps_curr s1 s')" by (rule 4(1) [OF s1(1-3)])
  then show ?case using s1 by (auto elim!: okp_mono intro: keeps_curr_trans)
next
  case (5 pio no "as" s)
  have "okp (run_acts pio as (s\<lparr>last_init_cmd := no\<rparr>)) (\<lambda>s'. cmd_inv h s' \<and> keeps_curr (s\<lparr>last_init_cmd := no\<rparr>) s')"
    by (rule 5(1)) (use 5(2,3) in \<open>auto simp: curr_request_def split: option.splits\<close>)
  then show ?case by (auto elim!: okp_mono simp: keeps_curr_def)
qed

lemma okp_run_handler:
  assumes "cmd_inv h s" and "pio = None \<or> curr_request pio s"
  shows "okp (run_handler pio a s) (\<lambda>x. cmd_inv h (snd x) \<and> keeps_curr s (snd x))"
  unfolding run_handler_def okp_bind by (rule okp_mono [OF okp_run_acts [OF assms]]) simp

subsection \<open>Scans\<close>

lemma okp_finish_scan:
  assumes inv: "cmd_inv h s"
  shows "okp (finish_scan_request c st s) (\<lambda>s'. cmd_inv h s' \<and> keeps_curr s s' \<and> pscan_ioctl_req s' = None)"
proof (cases "pscan_ioctl_req s")
  case None
  then show ?thesis
    using cmd_inv_clear_pscan [of h "s\<lparr>scan_processing := False\<rparr>"] inv by (simp add: finish_scan_request_def)
next
  case (Some r)
  let ?s = "s\<lparr>scan_processing := False, pscan_ioctl_req := None\<rparr>"
  have inv1: "cmd_inv h ?s" using cmd_inv_clear_pscan [of h "s\<lparr>scan_processing := False\<rparr>"] inv by simp
  have u: "unreferenced h ?s (Some r)"
    using pscan_unreferenced [of h "s\<lparr>scan_processing := False\<rparr>" r] inv Some by simp
  then have live: "ioctls ?s r \<noteq> None" by (simp add: unreferenced_def)
  have "okp (do { s2 \<leftarrow> set_status_code r c ?s; moal_ioctl_complete r st s2 })
      (\<lambda>s'. cmd_inv h s' \<and> only_requests ?s s')"
    unfolding okp_bind
  proof (rule okp_mono [OF okp_conj [OF okp_set_status [OF inv1 live] okp_set_status_only [OF live]]])
    fix s2
    assume 2: "cmd_inv h s2 \<and> only_requests ?s s2 \<and> ioctls s2 r \<noteq> None"
    then have o: "only_requests ?s s2" by simp
    have "unreferenced h s2 (Some r)"
      using u 2 by (simp add: unreferenced_def node_refs_def only_requestsD [OF o])
    with 2 have "okp (moal_ioctl_complete r st s2) (cmd_inv h)" by (intro okp_complete) simp_all
    moreover have "okp (moal_ioctl_complete r st s2) (only_requests s2)" using 2 by (intro okp_complete_only) simp
    ultimately have "okp (moal_ioctl_complete r st s2) (\<lambda>s'. cmd_inv h s' \<and> only_requests s2 s')" by (rule okp_conj)
    then show "okp (moal_ioctl_complete r st s2) (\<lambda>s'. cmd_inv h s' \<and> only_requests ?s s')"
      by (rule okp_mono) (use only_requests_trans [OF o] in blast)
  qed
  then show ?thesis
    unfolding finish_scan_request_def Let_def Some option.case
  proof (rule okp_mono)
    fix s'
    assume s': "cmd_inv h s' \<and> only_requests ?s s'"
    then have o: "only_requests ?s s'" by simp
    show "cmd_inv h s' \<and> keeps_curr s s' \<and> pscan_ioctl_req s' = None"
      using s' keeps_curr_requests [OF o] by (simp add: only_requestsD [OF o] keeps_curr_def)
  qed
qed

lemma okp_abort_scan:
  assumes "cmd_inv h s"
  shows "okp (abort_scan c s) (\<lambda>s'. cmd_inv h s' \<and> keeps_curr s s' \<and> pscan_ioctl_req s' = None)"
  unfolding abort_scan_def okp_bind
  by (rule okp_mono [OF okp_flush [OF assms]])
     (auto intro!: okp_mono [OF okp_finish_scan] intro: keeps_curr_trans)

lemma next_scan_inv:
  assumes inv: "cmd_inv h s"
  shows "cmd_inv h (next_scan_command s)" "keeps_curr s (next_scan_command s)"
proof -
  show "cmd_inv h (next_scan_command s)"
  proof (cases "scan_pending_q s")
    case Nil
    then show ?thesis using inv by (simp add: next_scan_command_def)
  next
    case (Cons i q)
    have "iface_present s (cn_priv (nodes s i))" using inv Cons by (auto simp: cmd_inv_def node_inv_def queued_def)
    then show ?thesis
      using cmd_inv_put_pending [OF cmd_inv_pop_scan [OF inv Cons]] Cons
      by (simp add: next_scan_command_def iface_present_def)
  qed
  show "keeps_curr s (next_scan_command s)"
    by (simp add: next_scan_command_def wlan_insert_cmd_to_pending_q_def Let_def split: list.split)
qed

lemma cmd_inv_set_pscan:
  assumes "cmd_inv [] s" and "unreferenced [] s p \<or> pscan_ioctl_req s = p"
  shows "cmd_inv [] (s\<lparr>pscan_ioctl_req := p\<rparr>)"
proof (cases "pscan_ioctl_req s = p")
  case True
  then have "s\<lparr>pscan_ioctl_req := p\<rparr> = s" by (cases s) simp
  then show ?thesis using assms by simp
next
  case False
  with assms have u: "unreferenced [] s p" by simp
  show ?thesis
  proof (cases p)
    case None
    then show ?thesis using cmd_inv_clear_pscan [OF assms(1)] by simp
  next
    case (Some r)
    have "req_ok (set (queued s)) s" using assms(1) by (simp add: cmd_inv_def req_inv_def)
    then have "req_ok (set (queued s)) (s\<lparr>pscan_ioctl_req := p\<rparr>)"
      using u unfolding req_ok_def node_refs_def unreferenced_def Some by auto
    then show ?thesis
      using assms(1) by (simp add: cmd_inv_def pool_inv_def node_inv_def req_inv_def queued_def curr_list_def iface_present_def)
  qed
qed

text \<open>The request of a scan: not referred to at all yet, or already the one of the running scan.\<close>

definition scan_request :: "nat option \<Rightarrow> cmd_ctx \<Rightarrow> bool" where
  "scan_request p s \<longleftrightarrow> unreferenced [] s p \<or> pscan_ioctl_req s = p"

lemma scan_request_live:
  assumes "cmd_inv [] s" and "scan_request p s" and "p = Some r"
  shows "ioctls s r \<noteq> None"
  using assms unfolding scan_request_def unreferenced_def cmd_inv_def req_inv_def req_ok_def by auto

lemma scan_request_prepare:
  assumes "cmd_inv [] s" and "wlan_prepare_cmd enc rq s = Some (ret, s')" and "rq_pioctl rq = None"
    and "scan_request p s" and "pscan_ioctl_req s' = pscan_ioctl_req s"
  shows "scan_request p s'"
  using assms prepare_unref [OF assms(1-3)] by (cases p) (auto simp: scan_request_def)

lemma okp_scan_list:
  "cmd_inv [] s \<Longrightarrow> scan_request p s \<Longrightarrow>
   okp (wlan_scan_channel_list b p gs s)
     (\<lambda>(ret, s'). cmd_inv [] s' \<and> keeps_curr s s' \<and> pscan_ioctl_req s' = pscan_ioctl_req s \<and> scan_request p s')"
proof (induction b p gs s rule: wlan_scan_channel_list.induct)
  case (1 b pio s)
  then show ?case by simp
next
  case (2 b pio ok enc gs s)
  show ?case
  proof (cases ok)
    case False
    have "okp (set_status_if pio MLAN_ERROR_CMD_SCAN_FAIL s)
        (\<lambda>s'. cmd_inv [] s' \<and> only_requests s s' \<and> (\<forall>r. ioctls s' r = None \<longleftrightarrow> ioctls s r = None))"
      by (rule okp_set_status_if [OF 2(2)]) (use scan_request_live [OF 2(2,3)] in blast)
    then obtain s1 where s1: "set_status_if pio MLAN_ERROR_CMD_SCAN_FAIL s = Some s1" "cmd_inv [] s1" "only_requests s s1"
        "\<forall>r. ioctls s1 r = None \<longleftrightarrow> ioctls s r = None" using okpD by blast
    have "scan_request pio s1"
      using 2(3) s1(4) unfolding scan_request_def
      by (auto simp: only_requestsD [OF s1(3)] intro: unreferenced_cong)
    then show ?thesis using False s1 by (simp add: keeps_curr_requests only_requestsD)
  next
    case True
    let ?rq = "\<lparr>rq_bss = Some b, rq_no = (if ext_scan s then HostCmd_CMD_802_11_SCAN_EXT else HostCmd_CMD_802_11_SCAN),
                rq_action = HostCmd_ACT_GEN_SET, rq_pioctl = None, rq_data = None\<rparr>"
    have "rq_no ?rq \<noteq> 0" by simp
    then have "okp (wlan_prepare_cmd enc ?rq s) (prepared [] s)"
      by (intro okp_prepare_own [OF 2(2)]) simp_all
    from okpD [OF this] obtain ret s1
      where s1: "wlan_prepare_cmd enc ?rq s = Some (ret, s1)" "prepared [] s (ret, s1)" by fastforce
    note f = prepared_fields [OF s1(2)]
    have r: "scan_request pio s1"
      by (rule scan_request_prepare [OF 2(2) s1(1)]) (use f 2(3) in simp_all)
    show ?thesis
    proof (cases "ret = MLAN_STATUS_SUCCESS")
      case False
      then show ?thesis using True s1(1) f r by simp
    next
      case ok: True
      have "okp (wlan_scan_channel_list b pio gs s1)
          (\<lambda>(ret, s'). cmd_inv [] s' \<and> keeps_curr s1 s' \<and> pscan_ioctl_req s' = pscan_ioctl_req s1 \<and> scan_request pio s')"
        by (rule 2(1) [OF _ s1(1) refl]) (use True ok f r in auto)
      then show ?thesis using True ok s1(1) f by (auto elim!: okp_mono intro: keeps_curr_trans)
    qed
  qed
qed

lemma okp_scan_networks:
  assumes inv: "cmd_inv [] s" and r: "scan_request p s"
  shows "okp (wlan_scan_networks b p gs s) (\<lambda>x. cmd_inv [] (snd x) \<and> keeps_curr s (snd x))"
proof (cases "gs = []")
  case True
  have "okp (set_status_if p MLAN_ERROR_CMD_SCAN_FAIL s)
      (\<lambda>s'. cmd_inv [] s' \<and> only_requests s s' \<and> (\<forall>r. ioctls s' r = None \<longleftrightarrow> ioctls s r = None))"
    by (rule okp_set_status_if [OF inv]) (use scan_request_live [OF inv r] in blast)
  then show ?thesis using True by (auto simp: wlan_scan_networks_def elim!: okp_mono intro: keeps_curr_requests)
next
  case False
  obtain ret s1 where s1: "wlan_scan_channel_list b p gs s = Some (ret, s1)" "cmd_inv [] s1" "keeps_curr s s1" "scan_request p s1"
    using okpD [OF okp_scan_list [OF inv r]] by fastforce
  have p1: "cmd_inv [] (s1\<lparr>pscan_ioctl_req := p, scan_processing := True\<rparr>)"
    using cmd_inv_set_pscan [OF s1(2)] s1(4) by (simp add: scan_request_def)
  have k1: "keeps_curr s (s1\<lparr>pscan_ioctl_req := p, scan_processing := True\<rparr>)" using s1(3) by simp
  show ?thesis
    using False s1(1-3) p1 k1 next_scan_inv(1) [OF p1] keeps_curr_trans [OF k1 next_scan_inv(2) [OF p1]]
    by (simp add: wlan_scan_networks_def)
qed

lemma okp_try_rescan:
  assumes "cmd_inv [] s"
  shows "okp (try_rescan ops b s) (\<lambda>x. cmd_inv [] (snd x) \<and> keeps_curr s (snd x))"
proof -
  have "okp (do { (ret, s1) \<leftarrow> wlan_scan_networks b (Some r) gs s; Some (ret = MLAN_STATUS_SUCCESS, s1) })
      (\<lambda>x. cmd_inv [] (snd x) \<and> keeps_curr s (snd x))" if "pscan_ioctl_req s = Some r" for r gs
    unfolding okp_bind
    by (rule okp_mono [OF okp_scan_networks [OF assms]]) (use that in \<open>auto simp: scan_request_def\<close>)
  then show ?thesis using assms unfolding try_rescan_def by (simp split: option.split del: okp_bind)
qed

text \<open>The end of a scan command, as the response and the report event share it.\<close>

lemma okp_scan_end:
  assumes inv: "cmd_inv [] s" and f: "\<And>t. cmd_inv [] t \<Longrightarrow> keeps_curr s t \<Longrightarrow> okp (f t) P"
  shows "okp (do { (again, s1) \<leftarrow> try_rescan ops b s;
                   if again then f s1
                   else do { s2 \<leftarrow> finish_scan_request c st s1;
                             f (wlan_recv_event (Some b) ev s2) } })
           P"
proof -
  obtain again s1 where s1: "try_rescan ops b s = Some (again, s1)" "cmd_inv [] s1" "keeps_curr s s1"
    using okpD [OF okp_try_rescan [OF inv]] by fastforce
  obtain s2 where s2: "finish_scan_request c st s1 = Some s2" "cmd_inv [] s2" "keeps_curr s1 s2"
    using okpD [OF okp_finish_scan [OF s1(2)]] by blast
  have "okp (f (wlan_recv_event (Some b) ev s2)) P"
    by (rule f) (use s2(2) keeps_curr_trans [OF s1(3) s2(3)] in simp_all)
  then show ?thesis using s1(1) s2(1) f [OF s1(2,3)] by simp
qed

lemma okp_ret_scan:
  assumes inv: "cmd_inv [] s"
  shows "okp (wlan_ret_802_11_scan ops b resp s) (\<lambda>x. cmd_inv [] (snd x) \<and> keeps_curr s (snd x))"
proof -
  have abort: "okp (do { s1 \<leftarrow> abort_scan c s; Some (MLAN_STATUS_FAILURE, s1) })
      (\<lambda>x. cmd_inv [] (snd x) \<and> keeps_curr s (snd x))" for c
    unfolding okp_bind by (rule okp_mono [OF okp_abort_scan [OF inv]]) simp
  have end_ok: "okp (do { (again, s1) \<leftarrow> try_rescan ops b s;
      if again then Some (MLAN_STATUS_SUCCESS, s1)
      else do { s2 \<leftarrow> finish_scan_request MLAN_ERROR_NO_ERROR MLAN_STATUS_SUCCESS s1;
                Some (MLAN_STATUS_SUCCESS, wlan_recv_event (Some b) MLAN_EVENT_ID_DRV_SCAN_REPORT s2) } })
      (\<lambda>x. cmd_inv [] (snd x) \<and> keeps_curr s (snd x))"
    by (rule okp_scan_end [OF inv, where f = "\<lambda>t. Some (MLAN_STATUS_SUCCESS, t)"]) simp
  show ?thesis
    unfolding wlan_ret_802_11_scan_def
    using abort end_ok next_scan_inv [OF inv] by (simp split: option.split del: okp_bind)
qed

lemma okp_scan_report:
  assumes inv: "cmd_inv [] s"
  shows "okp (wlan_handle_event_ext_scan_report ops b me s) (cmd_inv [])"
proof -
  have end_ok: "okp (do { (again, s1) \<leftarrow> try_rescan ops b s;
      if again then Some s1
      else do { s2 \<leftarrow> finish_scan_request MLAN_ERROR_NO_ERROR MLAN_STATUS_SUCCESS s1;
                Some (wlan_recv_event (Some b) MLAN_EVENT_ID_DRV_SCAN_REPORT s2) } }) (cmd_inv [])"
    by (rule okp_scan_end [OF inv, where f = Some]) simp
  show ?thesis
    unfolding wlan_handle_event_ext_scan_report_def
    using inv end_ok next_scan_inv(1) [OF inv] by (auto simp del: okp_bind intro: okp_mono [OF okp_abort_scan])
qed

lemma okp_scan_status:
  assumes inv: "cmd_inv [] s"
  shows "okp (wlan_handle_event_ext_scan_status ops b s) (cmd_inv [])"
proof -
  have main: "okp (do { (again, s1) \<leftarrow> try_rescan ops b t;
      if again then Some s1
      else do { s2 \<leftarrow> finish_scan_request MLAN_ERROR_NO_ERROR MLAN_STATUS_SUCCESS (s1\<lparr>ext_scan_type := EXT_SCAN_DEFAULT\<rparr>);
                Some (wlan_recv_event (Some b) MLAN_EVENT_ID_DRV_SCAN_REPORT s2) } }) (cmd_inv [])"
    if "cmd_inv [] t" for t
    unfolding okp_bind
    by (rule okp_mono [OF okp_try_rescan [OF that]]) (auto intro!: okp_mono [OF okp_finish_scan])
  then show ?thesis
    unfolding wlan_handle_event_ext_scan_status_def Let_def using inv by (simp del: okp_bind)
qed

subsection \<open>The handlers of a response\<close>

lemma okp_free_curr:
  assumes inv: "cmd_inv h s" and c: "curr_cmd s = Some i"
  shows "okp (free_curr s) (\<lambda>s'. cmd_inv h s' \<and> curr_cmd s' = None)"
  unfolding free_curr_def okp_bind by (rule okp_mono [OF okp_release_curr [OF inv c]]) simp

lemma curr_request_curr: "curr_request pio s \<Longrightarrow> \<exists>i. curr_cmd s = Some i"
  by (auto simp: curr_request_def split: option.splits)

lemma okp_free_curr_request:
  assumes "cmd_inv h s" and "curr_request pio s"
  shows "okp (free_curr s) (\<lambda>s'. cmd_inv h s' \<and> curr_cmd s' = None)"
  using curr_request_curr [OF assms(2)] okp_free_curr [OF assms(1)] by blast

lemma okp_hs_cfg:
  assumes inv: "cmd_inv [] s" and c: "curr_request pio s"
  shows "okp (wlan_ret_802_11_hs_cfg b resp pio s) (\<lambda>x. cmd_inv [] (snd x))"
proof -
  have "okp (do { s1 \<leftarrow> set_status_if pio MLAN_ERROR_NO_ERROR s; s2 \<leftarrow> free_curr s1;
      Some (MLAN_STATUS_SUCCESS, wlan_host_sleep_activated_event (Some b) True s2) }) (\<lambda>x. cmd_inv [] (snd x))"
    unfolding okp_bind
    by (rule okp_mono [OF okp_status_curr [OF inv c]]) (auto intro!: okp_mono [OF okp_free_curr_request])
  then show ?thesis using inv by (simp add: wlan_ret_802_11_hs_cfg_def Let_def del: okp_bind)
qed

lemma okp_cmdresp_error:
  assumes inv: "cmd_inv [] s" and c: "curr_request pio s"
  shows "okp (wlan_process_cmdresp_error ops b resp pio s) (\<lambda>x. cmd_inv [] (snd x))"
proof -
  obtain s1 where s1: "set_status_if pio MLAN_ERROR_FW_CMDRESP s = Some s1" "cmd_inv [] s1" "curr_request pio s1"
    using okpD [OF okp_status_curr [OF inv c]] by blast
  have "okp (if hc_command resp = HostCmd_CMD_802_11_SCAN_EXT \<or> hc_command resp = HostCmd_CMD_802_11_SCAN then do {
          s' \<leftarrow> abort_scan MLAN_ERROR_CMD_SCAN_FAIL s1;
          Some (MLAN_STATUS_FAILURE, wlan_recv_event (Some b) MLAN_EVENT_ID_DRV_SCAN_REPORT s') }
        else if hc_command resp = HostCmd_CMD_CHAN_REGION_CFG then Some (MLAN_STATUS_SUCCESS, s1)
        else run_handler pio (op_error ops resp s1) s1) (\<lambda>x. cmd_inv [] (snd x) \<and> keeps_curr s1 (snd x))"
    using s1 okp_run_handler [OF s1(2)] by (auto intro!: okp_mono [OF okp_abort_scan])
  from okpD [OF this] obtain ret s2 where s2: "(if hc_command resp = HostCmd_CMD_802_11_SCAN_EXT \<or> hc_command resp = HostCmd_CMD_802_11_SCAN then do {
          s' \<leftarrow> abort_scan MLAN_ERROR_CMD_SCAN_FAIL s1;
          Some (MLAN_STATUS_FAILURE, wlan_recv_event (Some b) MLAN_EVENT_ID_DRV_SCAN_REPORT s') }
        else if hc_command resp = HostCmd_CMD_CHAN_REGION_CFG then Some (MLAN_STATUS_SUCCESS, s1)
        else run_handler pio (op_error ops resp s1) s1) = Some (ret, s2)" "cmd_inv [] s2" "keeps_curr s1 s2" by fastforce
  have "curr_request pio s2" using curr_request_keeps [OF s1(3) s2(3)] .
  then show ?thesis
    unfolding wlan_process_cmdresp_error_def s1(1) bind.bind_lunit s2(1) prod.case okp_bind
    by (intro okp_mono [OF okp_free_curr_request [OF s2(2)]]) auto
qed

lemma cmd_inv_drop_curr:
  "cmd_inv [] s \<Longrightarrow> curr_cmd s = Some i \<Longrightarrow> cmd_inv [] (drop_request i s)"
  by (rule cmd_inv_drop_request) (simp_all add: curr_queued)

lemma okp_drop_curr:
  assumes "cmd_inv [] s" and "curr_cmd s \<noteq> None"
  shows "okp (drop_curr_ioctl s) (cmd_inv [])"
  using assms cmd_inv_drop_curr by (auto simp: drop_curr_ioctl_def)

text \<open>The response to the cancellation of an enhanced scan completes the request itself and then drops it.\<close>

lemma okp_scan_ext_drop:
  assumes inv: "cmd_inv [] s" and c: "curr_request pio s"
  shows "okp (do { (ret, s1) \<leftarrow> wlan_ret_802_11_scan_ext resp pio s; s2 \<leftarrow> drop_curr_ioctl s1; Some (ret, s2) })
           (\<lambda>x. cmd_inv [] (snd x))"
proof -
  obtain i where i: "curr_cmd s = Some i" "pioctl_buf (nodes s i) = pio"
    using c by (auto simp: curr_request_def split: option.splits)
  show ?thesis
  proof (cases "hc_ext_scan_type resp = EXT_SCAN_CANCEL \<and> pio \<noteq> None")
    case False
    then show ?thesis
      using inv i cmd_inv_drop_curr [OF inv i(1)]
      by (cases "hc_ext_scan_type resp")
         (auto simp: wlan_ret_802_11_scan_ext_def drop_curr_ioctl_def Let_def intro!: cmd_inv_drop_request curr_queued)
  next
    case True
    then obtain r where r: "pio = Some r" by auto
    let ?s = "s\<lparr>scan_processing := False, ext_scan_type := EXT_SCAN_DEFAULT\<rparr>"
    have inv1: "cmd_inv [] ?s" using inv by simp
    have i1: "i \<in> set [] \<union> set (queued ?s)" and r1: "pioctl_buf (nodes ?s i) = Some r"
      using i r by (simp_all add: queued_def curr_list_def)
    have live: "ioctls ?s r \<noteq> None" by (rule cmd_inv_live [OF inv1 i1 r1])
    have "okp (do { s2 \<leftarrow> set_status_code r 0 ?s; moal_ioctl_complete r MLAN_STATUS_SUCCESS s2 })
        (\<lambda>s'. cmd_inv [] (drop_request i s') \<and> curr_cmd s' = Some i)"
      unfolding okp_bind
    proof (rule okp_mono [OF okp_conj [OF okp_set_status [OF inv1 live] okp_set_status_only [OF live]]])
      fix s2
      assume 2: "cmd_inv [] s2 \<and> only_requests ?s s2 \<and> ioctls s2 r \<noteq> None"
      then have o: "only_requests ?s s2" by simp
      have "i \<in> set [] \<union> set (queued s2)" "pioctl_buf (nodes s2 i) = Some r"
        using i1 r1 by (simp_all add: only_requestsD [OF o])
      then have "okp (moal_ioctl_complete r MLAN_STATUS_SUCCESS s2) (\<lambda>s'. cmd_inv [] (drop_request i s') \<and> only_requests s2 s')"
        using 2 by (intro okp_complete_own) simp_all
      then show "okp (moal_ioctl_complete r MLAN_STATUS_SUCCESS s2) (\<lambda>s'. cmd_inv [] (drop_request i s') \<and> curr_cmd s' = Some i)"
        by (rule okp_mono) (use i(1) only_requestsD(5) [OF o] only_requestsD(5) in fastforce)
    qed
    from okpD [OF this] obtain s2 s3 where "set_status_code r 0 ?s = Some s2" "moal_ioctl_complete r MLAN_STATUS_SUCCESS s2 = Some s3"
      "cmd_inv [] (drop_request i s3)" "curr_cmd s3 = Some i" by (auto simp: Option.bind_eq_Some_conv)
    then show ?thesis using True r by (simp add: wlan_ret_802_11_scan_ext_def drop_curr_ioctl_def Let_def)
  qed
qed

lemma okp_sta_cmdresp:
  assumes inv: "cmd_inv [] s" and c: "curr_request pio s"
  shows "okp (wlan_ops_sta_process_cmdresp ops b no resp pio s) (\<lambda>x. cmd_inv [] (snd x))"
proof -
  have scan: "okp (do { (ret, s1) \<leftarrow> wlan_ret_802_11_scan ops b resp s; s2 \<leftarrow> drop_curr_ioctl s1; Some (ret, s2) })
      (\<lambda>x. cmd_inv [] (snd x))"
    unfolding okp_bind
    by (rule okp_mono [OF okp_ret_scan [OF inv]])
       (use curr_request_curr [OF c] in \<open>auto simp: keeps_curr_def intro!: okp_mono [OF okp_drop_curr]\<close>)
  have other: "okp (run_handler pio (op_resp ops no resp s) s) (\<lambda>x. cmd_inv [] (snd x))"
    by (rule okp_mono [OF okp_run_handler [OF inv]]) (use c in simp_all)
  show ?thesis
    unfolding wlan_ops_sta_process_cmdresp_def
    using okp_cmdresp_error [OF inv c] scan okp_scan_ext_drop [OF inv c] okp_hs_cfg [OF inv c] other
    by (simp del: okp_bind)
qed

text \<open>Whatever the handler left: the release of the current command and the steps of the initialisation.\<close>

lemma okp_release_response:
  assumes inv: "cmd_inv [] s"
  shows "okp (release_response ret s) (cmd_inv [])"
proof (cases "curr_cmd s")
  case None
  then show ?thesis using inv by (simp add: release_response_def)
next
  case (Some i)
  have set: "okp (case pioctl_buf (nodes s i) of
                   None \<Rightarrow> Some s
                 | Some r \<Rightarrow>
                     (case ioctls s r of
                        None \<Rightarrow> None
                      | Some q \<Rightarrow>
                          if ret = MLAN_STATUS_SUCCESS then set_status_code r MLAN_ERROR_NO_ERROR s
                          else if ret = MLAN_STATUS_FAILURE \<and> status_code q = 0
                          then set_status_code r MLAN_ERROR_CMD_RESP_FAIL s
                          else Some s)) (\<lambda>s1. cmd_inv [] s1 \<and> curr_cmd s1 = Some i)"
  proof (cases "pioctl_buf (nodes s i)")
    case None
    then show ?thesis using inv Some by simp
  next
    case r: (Some r)
    then have live: "ioctls s r \<noteq> None" using cmd_inv_live [OF inv, of i r] curr_queued [OF Some] by simp
    have "okp (set_status_code r c s) (\<lambda>s1. cmd_inv [] s1 \<and> curr_cmd s1 = Some i)" for c
      by (rule okp_mono [OF okp_conj [OF okp_set_status [OF inv live] okp_set_status_only [OF live]]])
         (use Some in \<open>auto simp: only_requestsD\<close>)
    then show ?thesis using r live inv Some by auto
  qed
  show ?thesis
    unfolding release_response_def Some option.case okp_bind
    by (rule okp_mono [OF set]) (use cmd_inv_take_curr in \<open>auto intro!: okp_mono [OF okp_insert_free]\<close>)
qed

lemma cmd_inv_clear_warm: "cmd_inv h s \<Longrightarrow> cmd_inv h (s\<lparr>pwarm_reset_ioctl_req := None\<rparr>)"
  unfolding cmd_inv_def pool_inv_def node_inv_def req_inv_def req_ok_def node_refs_def queued_def curr_list_def
    iface_present_def by simp

lemma complete_warm_field:
  "moal_ioctl_complete r st (s\<lparr>pwarm_reset_ioctl_req := p\<rparr>)
   = map_option (\<lambda>s'. s'\<lparr>pwarm_reset_ioctl_req := p\<rparr>) (moal_ioctl_complete r st s)"
  by (simp add: moal_ioctl_complete_def note_call_def split: option.split)

lemma fail_warm_field:
  "fail_request r c (s\<lparr>pwarm_reset_ioctl_req := p\<rparr>) = map_option (\<lambda>s'. s'\<lparr>pwarm_reset_ioctl_req := p\<rparr>) (fail_request r c s)"
  by (auto simp: fail_request_def set_status_code_def moal_ioctl_complete_def note_call_def split: option.split)

lemma warm_unreferenced:
  assumes "cmd_inv h s" and "pwarm_reset_ioctl_req s = Some r"
  shows "unreferenced h (s\<lparr>pwarm_reset_ioctl_req := None\<rparr>) (Some r)"
  using assms unfolding cmd_inv_def req_inv_def req_ok_def unreferenced_def node_refs_def queued_def curr_list_def
  by auto

lemma okp_complete_warm:
  assumes inv: "cmd_inv h s" and w: "pwarm_reset_ioctl_req s = Some r"
  shows "okp (moal_ioctl_complete r st s) (\<lambda>s'. cmd_inv h (s'\<lparr>pwarm_reset_ioctl_req := None\<rparr>))"
  using okp_complete [OF cmd_inv_clear_warm [OF inv] warm_unreferenced [OF inv w], of st]
  by (simp add: complete_warm_field)

lemma okp_fail_warm:
  assumes inv: "cmd_inv h s" and w: "pwarm_reset_ioctl_req s = Some r"
  shows "okp (fail_request r c s) (\<lambda>s'. cmd_inv h (s'\<lparr>pwarm_reset_ioctl_req := None\<rparr>))"
  using okp_fail_request [OF cmd_inv_clear_warm [OF inv] warm_unreferenced [OF inv w], of c]
  by (simp add: fail_warm_field) (erule okp_mono, simp)

lemma okp_after_response:
  assumes inv: "cmd_inv [] s"
  shows "okp (after_response ops b no ret s) (\<lambda>x. cmd_inv [] (snd x))"
proof -
  have warm: "okp (do { s1 \<leftarrow> moal_ioctl_complete r MLAN_STATUS_SUCCESS (s\<lparr>hw_status := WlanHardwareStatusReady\<rparr>);
      Some (ret, s1\<lparr>pwarm_reset_ioctl_req := None\<rparr>) }) (\<lambda>x. cmd_inv [] (snd x))"
    if "pwarm_reset_ioctl_req s = Some r" for r
    unfolding okp_bind by (rule okp_mono [OF okp_complete_warm]) (use inv that in simp_all)
  have "okp (run_handler None a s) (\<lambda>x. cmd_inv [] (snd x))" for a
    by (rule okp_mono [OF okp_run_handler [OF inv]]) simp_all
  then show ?thesis unfolding after_response_def using warm inv by (simp split: option.split del: okp_bind)
qed


subsection \<open>A whole response\<close>

lemma okp_if: "okp a P \<Longrightarrow> okp b P \<Longrightarrow> okp (if c then a else b) P"
  by simp

lemma okp_case: "okp a P \<Longrightarrow> (\<And>b. okp (f b) P) \<Longrightarrow> okp (case p of None \<Rightarrow> a | Some b \<Rightarrow> f b) P"
  by (cases p) simp_all

lemma cmd_inv_clear_flag:
  "cmd_inv h s \<Longrightarrow> i \<in> set (queued s) \<Longrightarrow> cmd_inv h (upd_node i (\<lambda>n. n\<lparr>cmd_flag := f n\<rparr>) s)"
  by (rule cmd_inv_upd_queued) simp_all

lemma curr_request_clear_flag:
  "curr_request pio s \<Longrightarrow> curr_request pio (upd_node i (\<lambda>n. n\<lparr>cmd_flag := f n\<rparr>) s)"
  by (auto simp: curr_request_def split: option.splits)

lemma okp_ret_host_cmd:
  assumes "cmd_inv h s" and "curr_request pio s"
  shows "okp (wlan_ret_host_cmd resp pio s) (\<lambda>s'. cmd_inv h s' \<and> curr_request pio s' \<and> curr_cmd s' = curr_cmd s)"
  using assms curr_request_live [OF assms]
  by (auto simp: wlan_ret_host_cmd_def curr_request_def split: option.splits)

text \<open>The part after the handler: a failure during initialisation, or the release of the command.\<close>

lemma okp_response_tail:
  assumes inv: "cmd_inv [] s"
  shows "okp (if (hw_status s = WlanHardwareStatusInitializing \<or> hw_status s = WlanHardwareStatusGetHwSpec)
              \<and> ret = MLAN_STATUS_FAILURE then
             (case pwarm_reset_ioctl_req s of
                Some r \<Rightarrow> do {
                  s4 \<leftarrow> fail_request r MLAN_ERROR_CMD_RESP_FAIL s;
                  Some (ret, s4\<lparr>pwarm_reset_ioctl_req := None\<rparr>) }
              | None \<Rightarrow> Some (ret, note_call Init_fw_complete s))
           else do {
             s4 \<leftarrow> release_response ret s;
             after_response ops b no ret s4 }) (\<lambda>x. cmd_inv [] (snd x))"
proof -
  have fail: "okp (do { s4 \<leftarrow> fail_request r MLAN_ERROR_CMD_RESP_FAIL s;
      Some (st, s4\<lparr>pwarm_reset_ioctl_req := None\<rparr>) }) (\<lambda>x. cmd_inv [] (snd x))"
    if "pwarm_reset_ioctl_req s = Some r" for r and st :: mlan_status
    unfolding okp_bind by (rule okp_mono [OF okp_fail_warm [OF inv that]]) simp
  have release: "okp (do { s4 \<leftarrow> release_response ret s; after_response ops b no ret s4 }) (\<lambda>x. cmd_inv [] (snd x))"
    unfolding okp_bind by (rule okp_mono [OF okp_release_response [OF inv]]) (rule okp_after_response)
  show ?thesis using fail release inv by (simp split: option.split del: okp_bind)
qed

lemma okp_handle_response:
  assumes inv: "cmd_inv [] s" and c: "curr_cmd s = Some i" and p: "pioctl_buf (nodes s i) = pio"
  shows "okp (handle_response ops resp pio i s) (\<lambda>x. cmd_inv [] (snd x))"
proof -
  have cr: "curr_request pio s" using c p by (simp add: curr_request_def)
  let ?host = "cmd_flag (nodes s i) AND CMD_F_HOSTCMD \<noteq> 0"
  have "okp (if ?host \<and> any_priv s \<noteq> None then wlan_ret_host_cmd resp pio s else Some s)
      (\<lambda>s1. cmd_inv [] s1 \<and> curr_request pio s1 \<and> curr_cmd s1 = curr_cmd s)"
    using okp_ret_host_cmd [OF inv cr] inv cr by simp
  from okpD [OF this] obtain s1
    where s1: "(if ?host \<and> any_priv s \<noteq> None then wlan_ret_host_cmd resp pio s else Some s) = Some s1"
      and inv1: "cmd_inv [] s1" and cr1: "curr_request pio s1" and c1: "curr_cmd s1 = Some i"
    using c by auto
  have refused: "okp (do { s3 \<leftarrow> set_status_if pio MLAN_ERROR_FW_CMDRESP t; s4 \<leftarrow> free_curr s3;
      Some (MLAN_STATUS_FAILURE, s4) }) (\<lambda>x. cmd_inv [] (snd x))"
    if t: "cmd_inv [] t" "curr_request pio t" for t
    unfolding okp_bind
    by (rule okp_mono [OF okp_status_curr [OF t]]) (auto intro!: okp_mono [OF okp_free_curr_request])
  have handled: "okp (do { (ret, s3) \<leftarrow>
             (if ?host then
                (let s' = upd_node i (\<lambda>n. n\<lparr>cmd_flag := cmd_flag n AND NOT CMD_F_HOSTCMD\<rparr>) t in
                 if hc_result r = 0 \<and> no = HostCmd_CMD_802_11_HS_CFG_ENH
                 then wlan_ret_802_11_hs_cfg b r pio s' else Some (MLAN_STATUS_SUCCESS, s'))
              else wlan_ops_sta_process_cmdresp ops b no r pio t);
           if (hw_status s3 = WlanHardwareStatusInitializing \<or> hw_status s3 = WlanHardwareStatusGetHwSpec)
              \<and> ret = MLAN_STATUS_FAILURE then
             (case pwarm_reset_ioctl_req s3 of
                Some r \<Rightarrow> do {
                  s4 \<leftarrow> fail_request r MLAN_ERROR_CMD_RESP_FAIL s3;
                  Some (ret, s4\<lparr>pwarm_reset_ioctl_req := None\<rparr>) }
              | None \<Rightarrow> Some (ret, note_call Init_fw_complete s3))
           else do {
             s4 \<leftarrow> release_response ret s3;
             after_response ops b no ret s4 } }) (\<lambda>x. cmd_inv [] (snd x))"
    if t: "cmd_inv [] t" "curr_request pio t" "curr_cmd t = Some i" for t r no b
  proof -
    let ?t = "upd_node i (\<lambda>n. n\<lparr>cmd_flag := cmd_flag n AND NOT CMD_F_HOSTCMD\<rparr>) t"
    have t': "cmd_inv [] ?t" "curr_request pio ?t"
      using cmd_inv_clear_flag [OF t(1) curr_queued [OF t(3)]] curr_request_clear_flag [OF t(2)] by simp_all
    have "okp (if ?host then
                (let s' = ?t in
                 if hc_result r = 0 \<and> no = HostCmd_CMD_802_11_HS_CFG_ENH
                 then wlan_ret_802_11_hs_cfg b r pio s' else Some (MLAN_STATUS_SUCCESS, s'))
              else wlan_ops_sta_process_cmdresp ops b no r pio t) (\<lambda>x. cmd_inv [] (snd x))"
      using okp_hs_cfg [OF t'] okp_sta_cmdresp [OF t(1,2)] t'(1) by (simp add: Let_def)
    then show ?thesis
      unfolding okp_bind by (rule okp_mono) (use okp_response_tail in \<open>simp add: split_beta del: okp_bind\<close>)
  qed
  have log: "cmd_inv [] (s1\<lparr>last_cmd_resp_index := k, last_cmd_resp_id := ws\<rparr>)"
    "curr_request pio (s1\<lparr>last_cmd_resp_index := k, last_cmd_resp_id := ws\<rparr>)"
    "curr_cmd (s1\<lparr>last_cmd_resp_index := k, last_cmd_resp_id := ws\<rparr>) = Some i" for k ws
    using inv1 cr1 c1 by (simp_all add: curr_request_def)
  show ?thesis
    unfolding handle_response_def Let_def s1 bind.bind_lunit
    by (rule okp_case, simp add: inv1, rule okp_if, rule refused [OF log(1,2)], rule handled [OF log, unfolded Let_def])
qed

subsection \<open>The entry points\<close>

lemma cmd_inv_stop_timer [simp]:
  "cmd_inv h (stop_command_timer s) = cmd_inv h s"
  "curr_cmd (stop_command_timer s) = curr_cmd s"
  "nodes (stop_command_timer s) = nodes s"
  by (simp_all add: stop_command_timer_def)

lemma okp_process_cmdresp:
  assumes inv: "cmd_inv [] s"
  shows "okp (wlan_process_cmdresp ops Some s) (\<lambda>x. cmd_inv [] (snd x))"
proof (cases "curr_cmd s")
  case None
  then show ?thesis using inv by (simp add: wlan_process_cmdresp_def)
next
  case (Some c)
  let ?pio = "pioctl_buf (nodes s c)"
  let ?s = "stop_command_timer s"
  have cr: "curr_request ?pio s" "curr_request ?pio ?s" using Some by (simp_all add: curr_request_def)
  have inv1: "cmd_inv [] ?s" "curr_cmd ?s = Some c" using inv Some by simp_all
  have no_buf: "okp (do { s1 \<leftarrow> set_status_if ?pio MLAN_ERROR_CMD_RESP_FAIL s; Some (MLAN_STATUS_FAILURE, s1) })
      (\<lambda>x. cmd_inv [] (snd x))"
    unfolding okp_bind by (rule okp_mono [OF okp_status_curr [OF inv cr(1)]]) simp
  have live: "ioctls (?s\<lparr>curr_cmd := None\<rparr>) r \<noteq> None" if "?pio = Some r" for r
    using curr_request_live [OF inv1(1) cr(2) that] by simp
  have cancelled: "okp (do { s2 \<leftarrow> set_status_if ?pio MLAN_ERROR_CMD_CANCEL (?s\<lparr>curr_cmd := None\<rparr>);
      s3 \<leftarrow> wlan_insert_cmd_to_free_q (Some c) s2; Some (MLAN_STATUS_FAILURE, s3) }) (\<lambda>x. cmd_inv [] (snd x))"
    unfolding okp_bind
    by (rule okp_mono [OF okp_set_status_if [OF cmd_inv_take_curr [OF inv1]]])
       (use live in \<open>auto intro!: okp_mono [OF okp_insert_free]\<close>)
  have handle: "okp (handle_response ops resp ?pio c ?s) (\<lambda>x. cmd_inv [] (snd x))" for resp
    by (rule okp_handle_response [OF inv1]) simp
  show ?thesis
    unfolding wlan_process_cmdresp_def Let_def Some option.case
    using no_buf cancelled handle inv inv1 by (simp split: option.split del: okp_bind)
qed

lemma okp_timeout:
  assumes inv: "cmd_inv [] s"
  shows "okp (wlan_cmd_timeout_func s) (cmd_inv [])"
proof (cases "curr_cmd s")
  case None
  then show ?thesis using inv by (simp add: wlan_cmd_timeout_func_def Let_def)
next
  case (Some i)
  let ?s = "s\<lparr>cmd_timer_is_set := False, num_cmd_timeout := num_cmd_timeout s + 1,
      dbg_num_cmd_timeout := dbg_num_cmd_timeout s + 1\<rparr>"
  have "okp (set_status_if (pioctl_buf (nodes s i)) MLAN_ERROR_CMD_TIMEOUT ?s) (\<lambda>s'. cmd_inv [] s')"
    by (rule okp_mono [OF okp_status_curr [of "[]"]]) (use inv Some in \<open>simp_all add: curr_request_def\<close>)
  then show ?thesis
    using Some by (auto simp: wlan_cmd_timeout_func_def Let_def elim!: okp_mono)
qed

lemma receive_inv:
  assumes inv: "cmd_inv [] s"
  shows "cmd_inv [] (receive_cmd_response b s)"
proof (cases "curr_cmd s")
  case None
  then show ?thesis using inv by (simp add: receive_cmd_response_def)
next
  case (Some i)
  have "cmd_inv [] (upd_node i (\<lambda>n. n\<lparr>respbuf := Some b\<rparr>) (s\<lparr>cmd_resp_received := True\<rparr>))"
    by (rule cmd_inv_upd_queued) (use inv curr_queued [OF Some] in \<open>simp_all add: queued_def curr_list_def\<close>)
  then show ?thesis using Some by (simp add: receive_cmd_response_def)
qed

end
