(* ===== verification/Cmd_Machine.thy ===== *)
theory Cmd_Machine
  imports Cmd_Resp_Inv
begin

text \<open>
  The command path as a state machine: the entry points of the driver, each with the condition under which its
  callers call it, and the states they reach from the allocation of the pool.  Every operation is defined in
  every reachable state, and every reachable state satisfies the invariant of \<^verbatim>\<open>Cmd_Inv\<close>.
\<close>

subsection \<open>The initial state\<close>

lemma alloc_cmd_bufs_True:
  "alloc_cmd_bufs alloc is s = (True, s') \<Longrightarrow>
     s' = s\<lparr>nodes := (\<lambda>i. if i \<in> set is then (nodes s i)\<lparr>pmbuf := True\<rparr> else nodes s i)\<rparr>"
proof (induction "is" arbitrary: s)
  case (Cons i "is")
  let ?n = "\<lambda>A s i. if i \<in> A then (nodes s i)\<lparr>pmbuf := True\<rparr> else nodes s i"
  let ?t = "upd_node i (\<lambda>n. n\<lparr>pmbuf := True\<rparr>) s"
  have "s' = ?t\<lparr>nodes := ?n (set is) ?t\<rparr>"
    using Cons.IH [of ?t] Cons.prems by (simp split: if_splits)
  moreover have "?n (set is) ?t = ?n (set (i # is)) s" by (simp add: fun_eq_iff)
  ultimately show ?case by (simp add: upd_node_def)
qed simp

lemma insert_free_clean:
  assumes "clean_node (nodes s i)"
  shows "wlan_insert_cmd_to_free_q (Some i) s = Some (s\<lparr>cmd_free_q := cmd_free_q s @ [i]\<rparr>)"
proof -
  have c: "pioctl_buf (nodes s i) = None" "respbuf (nodes s i) = None"
    "(nodes s i)\<lparr>cmd_no := 0, cmd_flag := 0, pioctl_buf := None, pdata_buf := None\<rparr> = nodes s i"
    using assms by (simp_all add: clean_node_def)
  then have u: "upd_node i (\<lambda>n. n\<lparr>cmd_no := 0, cmd_flag := 0, pioctl_buf := None, pdata_buf := None\<rparr>) s = s"
    unfolding upd_node_def c(3) by simp
  show ?thesis
    unfolding wlan_insert_cmd_to_free_q_def complete_own_def wlan_clean_cmd_node_def Let_def by (simp add: c u)
qed

lemma insert_free_all_clean:
  "\<forall>i \<in> set is. clean_node (nodes s i) \<Longrightarrow> insert_free_all is s = Some (s\<lparr>cmd_free_q := cmd_free_q s @ is\<rparr>)"
  by (induction "is" arbitrary: s) (simp_all add: insert_free_clean)

text \<open>An adapter that has just been created: nothing queued, no request pending.\<close>

definition blank_ctx :: "cmd_ctx \<Rightarrow> bool" where
  "blank_ctx s \<longleftrightarrow> cmd_free_q s = [] \<and> cmd_pending_q s = [] \<and> scan_pending_q s = [] \<and> curr_cmd s = None
     \<and> pscan_ioctl_req s = None \<and> pwarm_reset_ioctl_req s = None \<and> ioctls s = (\<lambda>_. None)"

lemma alloc_inv:
  assumes b: "blank_ctx s" and a: "wlan_alloc_cmd_buffer pool alloc s = Some (MLAN_STATUS_SUCCESS, s')"
  shows "cmd_inv [] s'"
proof -
  let ?s = "s\<lparr>cmd_pool := True, nodes := \<lambda>_. zero_node\<rparr>"
  let ?n = "\<lambda>i. if i \<in> set [0..<MRVDRV_NUM_OF_CMD_BUFFER] then zero_node\<lparr>pmbuf := True\<rparr> else zero_node"
  have clean: "clean_node (?n i)" for i by (simp add: clean_node_def zero_node_def)
  obtain s1 where s1: "alloc_cmd_bufs alloc [0..<MRVDRV_NUM_OF_CMD_BUFFER] ?s = (True, s1)"
    and s': "insert_free_all [0..<MRVDRV_NUM_OF_CMD_BUFFER] s1 = Some s'"
    using a by (auto simp: wlan_alloc_cmd_buffer_def monad_simps simp del: upt.simps upt_rec_numeral
        split: if_splits prod.splits bool.splits)
  have "(\<lambda>i. if i \<in> set [0..<MRVDRV_NUM_OF_CMD_BUFFER] then (nodes ?s i)\<lparr>pmbuf := True\<rparr> else nodes ?s i) = ?n"
    by (simp add: fun_eq_iff del: upt.simps upt_rec_numeral)
  then have n1: "s1 = ?s\<lparr>nodes := ?n\<rparr>"
    by (rule trans [OF alloc_cmd_bufs_True [OF s1] arg_cong [where f = "\<lambda>n. ?s\<lparr>nodes := n\<rparr>"]])
  have c: "clean_node (nodes s1 i)" for i using clean [of i] unfolding n1 by simp
  have "insert_free_all [0..<MRVDRV_NUM_OF_CMD_BUFFER] s1
      = Some (s1\<lparr>cmd_free_q := cmd_free_q s1 @ [0..<MRVDRV_NUM_OF_CMD_BUFFER]\<rparr>)"
    by (rule insert_free_all_clean) (use c in blast)
  then have "s' = s1\<lparr>cmd_free_q := cmd_free_q s1 @ [0..<MRVDRV_NUM_OF_CMD_BUFFER]\<rparr>"
    using s' by (simp del: upt.simps upt_rec_numeral)
  then have "s' = ?s\<lparr>nodes := ?n, cmd_free_q := [0..<MRVDRV_NUM_OF_CMD_BUFFER]\<rparr>"
    using n1 b by (simp add: blank_ctx_def del: upt.simps upt_rec_numeral)
  then show ?thesis
    using b clean
    by (auto simp: cmd_inv_defs blank_ctx_def zero_node_def clean_node_def simp del: upt.simps upt_rec_numeral)
qed

subsection \<open>The entry points\<close>

text \<open>Fields the rest of the driver writes: power save, host sleep, hardware status, the log and the debug counters.\<close>

definition same_commands :: "cmd_ctx \<Rightarrow> cmd_ctx \<Rightarrow> bool" where
  "same_commands s s' \<longleftrightarrow> nodes s' = nodes s \<and> cmd_free_q s' = cmd_free_q s \<and> cmd_pending_q s' = cmd_pending_q s
     \<and> scan_pending_q s' = scan_pending_q s \<and> curr_cmd s' = curr_cmd s \<and> ioctls s' = ioctls s
     \<and> pscan_ioctl_req s' = pscan_ioctl_req s \<and> pwarm_reset_ioctl_req s' = pwarm_reset_ioctl_req s
     \<and> cmd_ifaces s' = cmd_ifaces s"

datatype cmd_op =
    New_request nat mlan_ioctl_req
  | Return_request nat
  | Warm_reset nat
  | Set_status nat t_u32
  | Prepare encoder cmd_request
  | Exec_next mlan_status
  | Receive resp_buffer
  | Process_resp cmd_ops
  | Timeout
  | Scan nat "nat option" "scan_group list"
  | Scan_report cmd_ops nat bool
  | Scan_status cmd_ops nat
  | Cancel_ioctl encoder nat
  | Cancel_scan encoder nat
  | Cancel_all encoder
  | Cancel_bss encoder nat
  | Other "cmd_ctx \<Rightarrow> cmd_ctx"

fun allowed :: "cmd_op \<Rightarrow> cmd_ctx \<Rightarrow> bool" where
  "allowed (New_request r q) s \<longleftrightarrow> ioctls s r = None \<and> req_bss_index q < length (cmd_ifaces s)"
| "allowed (Return_request r) s \<longleftrightarrow> unreferenced [] s (Some r)"
| "allowed (Warm_reset r) s \<longleftrightarrow> unreferenced [] s (Some r) \<and> pwarm_reset_ioctl_req s = None"
| "allowed (Set_status r c) s \<longleftrightarrow> ioctls s r \<noteq> None"
| "allowed (Prepare enc rq) s \<longleftrightarrow> unreferenced [] s (rq_pioctl rq) \<and> (rq_no rq = 0 \<longrightarrow> rq_data rq \<noteq> None)"
| "allowed (Scan b p gs) s \<longleftrightarrow> unreferenced [] s p"
| "allowed (Cancel_ioctl enc r) s \<longleftrightarrow> ioctls s r \<noteq> None"
| "allowed (Cancel_scan enc r) s \<longleftrightarrow> unreferenced [] s (Some r)"
| "allowed (Other f) s \<longleftrightarrow> same_commands s (f s)"
| "allowed _ s \<longleftrightarrow> True"

fun run_op :: "cmd_op \<Rightarrow> cmd_ctx \<Rightarrow> cmd_ctx option" where
  "run_op (New_request r q) s = Some (s\<lparr>ioctls := (ioctls s)(r \<mapsto> q)\<rparr>)"
| "run_op (Return_request r) s = Some (s\<lparr>ioctls := (ioctls s)(r := None)\<rparr>)"
| "run_op (Warm_reset r) s = Some (s\<lparr>pwarm_reset_ioctl_req := Some r\<rparr>)"
| "run_op (Set_status r c) s = set_status_code r c s"
| "run_op (Prepare enc rq) s = map_option snd (wlan_prepare_cmd enc rq s)"
| "run_op (Exec_next h2c) s = map_option snd (wlan_exec_next_cmd h2c s)"
| "run_op (Receive b) s = Some (receive_cmd_response b s)"
| "run_op (Process_resp ops) s = map_option snd (wlan_process_cmdresp ops Some s)"
| "run_op Timeout s = wlan_cmd_timeout_func s"
| "run_op (Scan b p gs) s = map_option snd (wlan_scan_networks b p gs s)"
| "run_op (Scan_report ops b me) s = wlan_handle_event_ext_scan_report ops b me s"
| "run_op (Scan_status ops b) s = wlan_handle_event_ext_scan_status ops b s"
| "run_op (Cancel_ioctl enc r) s = wlan_cancel_pending_ioctl enc r s"
| "run_op (Cancel_scan enc r) s = map_option snd (wlan_cancel_pending_scan_cmd enc r s)"
| "run_op (Cancel_all enc) s = wlan_cancel_all_pending_cmd enc s"
| "run_op (Cancel_bss enc bss) s = wlan_cancel_bss_pending_cmd enc bss s"
| "run_op (Other f) s = Some (f s)"

inductive cmd_reachable :: "cmd_ctx \<Rightarrow> bool" where
  init: "blank_ctx s \<Longrightarrow> wlan_alloc_cmd_buffer pool alloc s = Some (MLAN_STATUS_SUCCESS, s') \<Longrightarrow> cmd_reachable s'"
| step: "cmd_reachable s \<Longrightarrow> allowed op s \<Longrightarrow> run_op op s = Some s' \<Longrightarrow> cmd_reachable s'"

inductive_cases cmd_reachable_cases: "cmd_reachable s"

subsection \<open>Every operation keeps the invariant\<close>

lemma cmd_inv_same: "cmd_inv h s \<Longrightarrow> same_commands s s' \<Longrightarrow> cmd_inv h s'"
  unfolding cmd_inv_defs same_commands_def by simp

lemma cmd_inv_new_request:
  assumes inv: "cmd_inv h s" and n: "ioctls s r = None" and b: "req_bss_index q < length (cmd_ifaces s)"
  shows "cmd_inv h (s\<lparr>ioctls := (ioctls s)(r \<mapsto> q)\<rparr>)"
proof -
  have "req_ok A s \<Longrightarrow> req_ok A (s\<lparr>ioctls := (ioctls s)(r \<mapsto> q)\<rparr>)" for A
    using b unfolding req_ok_def node_refs_def by auto
  then show ?thesis
    using inv by (simp add: cmd_inv_def pool_inv_def node_inv_def req_inv_def queued_def curr_list_def iface_present_def)
qed

lemma cmd_inv_return_request:
  assumes inv: "cmd_inv h s" and u: "unreferenced h s (Some r)"
  shows "cmd_inv h (s\<lparr>ioctls := (ioctls s)(r := None)\<rparr>)"
proof -
  have "req_ok (set h \<union> set (queued s)) s" using inv by (simp add: cmd_inv_def req_inv_def)
  then have "req_ok (set h \<union> set (queued s)) (s\<lparr>ioctls := (ioctls s)(r := None)\<rparr>)"
    using u unfolding req_ok_def node_refs_def unreferenced_def by auto
  then show ?thesis
    using inv by (simp add: cmd_inv_def pool_inv_def node_inv_def req_inv_def queued_def curr_list_def iface_present_def)
qed

lemma cmd_inv_warm_reset:
  assumes inv: "cmd_inv h s" and u: "unreferenced h s (Some r)"
  shows "cmd_inv h (s\<lparr>pwarm_reset_ioctl_req := Some r\<rparr>)"
proof -
  have "req_ok (set h \<union> set (queued s)) s" using inv by (simp add: cmd_inv_def req_inv_def)
  then have "req_ok (set h \<union> set (queued s)) (s\<lparr>pwarm_reset_ioctl_req := Some r\<rparr>)"
    using u unfolding req_ok_def node_refs_def unreferenced_def by auto
  then show ?thesis
    using inv by (simp add: cmd_inv_def pool_inv_def node_inv_def req_inv_def queued_def curr_list_def iface_present_def)
qed

lemma okp_snd [simp]: "okp (map_option snd m) P = okp m (\<lambda>x. P (snd x))"
  by (cases m) simp_all

lemma okp_run_op:
  assumes inv: "cmd_inv [] s" and a: "allowed op s"
  shows "okp (run_op op s) (cmd_inv [])"
proof (cases op)
  case (New_request r q)
  then show ?thesis using cmd_inv_new_request [OF inv] a by simp
next
  case (Return_request r)
  then show ?thesis using cmd_inv_return_request [OF inv] a by simp
next
  case (Warm_reset r)
  then show ?thesis using cmd_inv_warm_reset [OF inv] a by simp
next
  case (Set_status r c)
  then show ?thesis using okp_set_status [OF inv] a by simp
next
  case (Prepare enc rq)
  then show ?thesis using a okp_mono [OF okp_prepare [OF inv]] by (simp add: prepared_def)
next
  case (Exec_next h2c)
  then show ?thesis using okp_exec [OF inv] by simp
next
  case (Receive b)
  then show ?thesis using receive_inv [OF inv] by simp
next
  case (Process_resp ops)
  then show ?thesis using okp_process_cmdresp [OF inv] by simp
next
  case Timeout
  then show ?thesis using okp_timeout [OF inv] by simp
next
  case (Scan b p gs)
  then show ?thesis using a okp_mono [OF okp_scan_networks [OF inv]] by (simp add: scan_request_def)
next
  case (Scan_report ops b me)
  then show ?thesis using okp_scan_report [OF inv] by simp
next
  case (Scan_status ops b)
  then show ?thesis using okp_scan_status [OF inv] by simp
next
  case (Cancel_ioctl enc r)
  then show ?thesis using a okp_cancel_ioctl [OF inv] by auto
next
  case (Cancel_scan enc r)
  then show ?thesis using a okp_cancel_scan [OF inv] by simp
next
  case (Cancel_all enc)
  then show ?thesis using okp_mono [OF okp_cancel_all [OF inv]] by simp
next
  case (Cancel_bss enc bss)
  then show ?thesis using okp_cancel_bss [OF inv] by simp
next
  case (Other f)
  then show ?thesis using a cmd_inv_same [OF inv] by simp
qed

lemma reachable_cmd_inv: "cmd_reachable s \<Longrightarrow> cmd_inv [] s"
proof (induction rule: cmd_reachable.induct)
  case (init s pool alloc s')
  then show ?case by (rule alloc_inv)
next
  case (step s op s')
  then show ?case using okp_run_op [OF step.IH step.hyps(2)] by simp
qed

end
