(* ===== verification/Cmd_Effects.thy ===== *)
theory Cmd_Effects
  imports Cmd_Machine
begin

text \<open>
  What the cancel operations complete, exactly: the completions they report, in order, the requests that
  leave the store, and the commands that stay queued.
\<close>

subsection \<open>Completions\<close>

fun completion_of :: "cmd_call \<Rightarrow> (nat \<times> t_u32 \<times> mlan_status) option" where
  "completion_of (Ioctl_complete r c st) = Some (r, c, st)"
| "completion_of _ = None"

definition completions :: "cmd_ctx \<Rightarrow> (nat \<times> t_u32 \<times> mlan_status) list" where
  "completions s = List.map_filter completion_of (cmd_log s)"

lemma map_filter_append [simp]: "List.map_filter f (xs @ ys) = List.map_filter f xs @ List.map_filter f ys"
  by (simp add: List.map_filter_def)

lemma map_filter_nil [simp]: "List.map_filter f [] = []"
  by (simp add: List.map_filter_def)

lemma completions_note [simp]:
  "completions (note_call c s) = completions s @ (case completion_of c of None \<Rightarrow> [] | Some y \<Rightarrow> [y])"
  by (simp add: completions_def split: option.split)

lemma completions_cong: "cmd_log s' = cmd_log s \<Longrightarrow> completions s' = completions s"
  by (simp add: completions_def)

lemma completions_upd_node [simp]: "completions (upd_node i f s) = completions s"
  by (rule completions_cong) simp

lemma completions_clean [simp]: "completions (wlan_clean_cmd_node i s) = completions s"
  by (simp add: wlan_clean_cmd_node_def Let_def split: option.split)

lemma completions_event [simp]: "completions (wlan_recv_event p e s) = completions s"
  by (simp add: wlan_recv_event_def split: option.split)

lemma completions_fields [simp]:
  "completions (s\<lparr>cmd_free_q := q\<rparr>) = completions s" "completions (s\<lparr>cmd_pending_q := q\<rparr>) = completions s"
  "completions (s\<lparr>scan_pending_q := q\<rparr>) = completions s" "completions (s\<lparr>curr_cmd := p\<rparr>) = completions s"
  "completions (s\<lparr>pscan_ioctl_req := p\<rparr>) = completions s" "completions (s\<lparr>ioctls := io\<rparr>) = completions s"
  "completions (s\<lparr>scan_processing := b\<rparr>) = completions s" "completions (s\<lparr>num_no_cmd_node := w\<rparr>) = completions s"
  "completions (s\<lparr>ext_scan_type := et\<rparr>) = completions s"
  by (simp_all add: completions_def)

lemma completions_dump [simp]: "completions (wlan_dump_info k s) = completions s"
  by (simp add: wlan_dump_info_def Let_def)

text \<open>The two ways a request ends in the cancel operations.\<close>

lemma fail_request_eq:
  "fail_request r c s =
     (case ioctls s r of
        None \<Rightarrow> None
      | Some q \<Rightarrow> Some (note_call (Ioctl_complete r c MLAN_STATUS_FAILURE) (s\<lparr>ioctls := (ioctls s)(r := None)\<rparr>)))"
  by (simp add: fail_request_def set_status_code_def moal_ioctl_complete_def split: option.split)

lemma insert_free_no_request:
  assumes "pioctl_buf (nodes s i) = None"
  shows "wlan_insert_cmd_to_free_q (Some i) s
           = Some ((wlan_clean_cmd_node i s)\<lparr>cmd_free_q := cmd_free_q s @ [i]\<rparr>)"
  using assms by (simp add: wlan_insert_cmd_to_free_q_def complete_own_def Let_def)

lemma clean_other: "j \<noteq> i \<Longrightarrow> nodes (wlan_clean_cmd_node i s) j = nodes s j"
  by (simp add: wlan_clean_cmd_node_def Let_def split: option.split)

lemma clean_no_request: "pioctl_buf (nodes (wlan_clean_cmd_node i s) i) = None"
  by (simp add: wlan_clean_cmd_node_def Let_def split: option.split)

lemma clean_more [simp]:
  "scan_processing (wlan_clean_cmd_node i s) = scan_processing s"
  "ext_scan_type (wlan_clean_cmd_node i s) = ext_scan_type s"
  "ps_state (wlan_clean_cmd_node i s) = ps_state s"
  by (simp_all add: wlan_clean_cmd_node_def Let_def split: option.split)

text \<open>The requests of a list of nodes, and a store without them.\<close>

definition requests :: "cmd_ctx \<Rightarrow> nat list \<Rightarrow> nat list" where
  "requests s is = List.map_filter (\<lambda>i. pioctl_buf (nodes s i)) is"

definition without :: "nat list \<Rightarrow> (nat \<Rightarrow> mlan_ioctl_req option) \<Rightarrow> nat \<Rightarrow> mlan_ioctl_req option" where
  "without rs io r = (if r \<in> set rs then None else io r)"

abbreviation cancelled :: "nat list \<Rightarrow> (nat \<times> t_u32 \<times> mlan_status) list" where
  "cancelled rs \<equiv> map (\<lambda>r. (r, MLAN_ERROR_CMD_CANCEL, MLAN_STATUS_FAILURE)) rs"

lemma requests_simps [simp]:
  "requests s [] = []"
  "requests s (i # is) = (case pioctl_buf (nodes s i) of None \<Rightarrow> requests s is | Some r \<Rightarrow> r # requests s is)"
  "requests s (is @ js) = requests s is @ requests s js"
  by (simp_all add: requests_def map_filter_simps split: option.split)

lemma requests_cong: "(\<And>i. i \<in> set is \<Longrightarrow> pioctl_buf (nodes s i) = pioctl_buf (nodes t i)) \<Longrightarrow> requests s is = requests t is"
  by (induction "is") (simp_all split: option.split)

lemma without_simps [simp]: "without [] io = io" "without (r # rs) io = without rs (io(r := None))"
  "without (rs @ rs') io = without rs' (without rs io)"
  by (auto simp: without_def fun_eq_iff)

subsection \<open>Cancelling all commands\<close>

lemma cancel_node_exact:
  assumes "cancel_node i s = Some s'"
  shows "completions s' = completions s @ cancelled (requests s [i])" "ioctls s' = without (requests s [i]) (ioctls s)"
    "cmd_pending_q s' = cmd_pending_q s" "scan_pending_q s' = scan_pending_q s" "curr_cmd s' = curr_cmd s"
    "j \<noteq> i \<Longrightarrow> nodes s' j = nodes s j" "scan_processing s' = scan_processing s" "ext_scan_type s' = ext_scan_type s"
  using assms
  by (auto simp: cancel_node_def fail_request_eq insert_free_no_request clean_other split: option.splits)

lemma cancel_all_loop_exact:
  assumes "cancel_all_loop s = Some s'" and "distinct (cmd_pending_q s)"
  shows "completions s' = completions s @ cancelled (requests s (cmd_pending_q s))
       \<and> ioctls s' = without (requests s (cmd_pending_q s)) (ioctls s)
       \<and> cmd_pending_q s' = [] \<and> scan_pending_q s' = scan_pending_q s \<and> curr_cmd s' = curr_cmd s
       \<and> scan_processing s' = scan_processing s \<and> ext_scan_type s' = ext_scan_type s
       \<and> (\<forall>j. j \<notin> set (cmd_pending_q s) \<longrightarrow> nodes s' j = nodes s j)"
  using assms
proof (induction s rule: cancel_all_loop.induct)
  case (1 s)
  show ?case
  proof (cases "cmd_pending_q s")
    case Nil
    then have "s' = s" using 1(2) by (subst (asm) cancel_all_loop.simps) simp
    then show ?thesis using Nil by simp
  next
    case (Cons i q)
    then obtain s1 where s1: "cancel_node i (s\<lparr>cmd_pending_q := q\<rparr>) = Some s1" and l: "cancel_all_loop s1 = Some s'"
      using 1(2) by (subst (asm) cancel_all_loop.simps) (auto simp: monad_simps)
    note e = cancel_node_exact [OF s1]
    have d: "distinct (i # q)" using 1(3) Cons by simp
    then have "nodes s1 j = nodes s j" if "j \<in> set q" for j using e(6) [of j] that by auto
    then have r: "requests s1 q = requests s q" by (intro requests_cong) simp
    from 1(1) [OF Cons s1 l] d e show ?thesis
      by (simp add: Cons r split: option.split)
  qed
qed


subsection \<open>Stopping the scan\<close>

lemma flush_loop_exact:
  assumes "flush_scan_loop s = Some s'"
  shows "completions s' = completions s \<and> ioctls s' = ioctls s \<and> cmd_pending_q s' = cmd_pending_q s
       \<and> scan_pending_q s' = [] \<and> curr_cmd s' = curr_cmd s \<and> pscan_ioctl_req s' = pscan_ioctl_req s
       \<and> (\<forall>j. j \<notin> set (scan_pending_q s) \<longrightarrow> nodes s' j = nodes s j)"
  using assms
proof (induction s rule: flush_scan_loop.induct)
  case (1 s)
  show ?case
  proof (cases "scan_pending_q s")
    case Nil
    then have "s' = s" using 1(2) by (subst (asm) flush_scan_loop.simps) simp
    then show ?thesis using Nil by simp
  next
    case (Cons i q)
    let ?t = "upd_node i (\<lambda>n. n\<lparr>pioctl_buf := None\<rparr>) (s\<lparr>scan_pending_q := q\<rparr>)"
    obtain s1 where s1: "wlan_insert_cmd_to_free_q (Some i) ?t = Some s1" and l: "flush_scan_loop s1 = Some s'"
      using 1(2) Cons by (subst (asm) flush_scan_loop.simps) (auto simp: monad_simps)
    have e: "s1 = (wlan_clean_cmd_node i ?t)\<lparr>cmd_free_q := cmd_free_q s @ [i]\<rparr>"
      using s1 by (simp add: insert_free_no_request)
    from 1(1) [OF Cons s1 l] show ?thesis by (simp add: e Cons clean_other)
  qed
qed

lemma set_status_exact:
  assumes "set_status_if p c s = Some s'"
  shows "completions s' = completions s" "cmd_pending_q s' = cmd_pending_q s" "scan_pending_q s' = scan_pending_q s"
    "curr_cmd s' = curr_cmd s" "nodes s' = nodes s" "pscan_ioctl_req s' = pscan_ioctl_req s"
    "ioctls s' x = None \<longleftrightarrow> ioctls s x = None" "p = None \<Longrightarrow> s' = s"
  using assms by (auto simp: set_status_if_def set_status_code_def split: option.splits if_splits)

text \<open>Preparing a command reports no completion and leaves the commands that are queued where they are.\<close>

definition queues_into :: "nat option \<Rightarrow> cmd_ctx \<Rightarrow> cmd_ctx \<Rightarrow> bool" where
  "queues_into p s s' \<longleftrightarrow>
     completions s' = completions s \<and> curr_cmd s' = curr_cmd s \<and> pscan_ioctl_req s' = pscan_ioctl_req s
     \<and> (\<forall>x. ioctls s' x = None \<longleftrightarrow> ioctls s x = None)
     \<and> (p = None \<longrightarrow> ioctls s' = ioctls s)
     \<and> (\<forall>j. j \<notin> set (cmd_free_q s) \<longrightarrow> nodes s' j = nodes s j)
     \<and> (\<forall>j \<in> set (cmd_pending_q s') - set (cmd_pending_q s). j \<in> set (cmd_free_q s) \<and> pioctl_buf (nodes s' j) = p)"

lemma queue_prepared_queues:
  assumes "i \<notin> set (queued s)"
  shows "completions (queue_prepared rq i s) = completions s \<and> curr_cmd (queue_prepared rq i s) = curr_cmd s
       \<and> pscan_ioctl_req (queue_prepared rq i s) = pscan_ioctl_req s \<and> ioctls (queue_prepared rq i s) = ioctls s
       \<and> (\<forall>j. j \<noteq> i \<longrightarrow> nodes (queue_prepared rq i s) j = nodes s j)
       \<and> pioctl_buf (nodes (queue_prepared rq i s) i) = pioctl_buf (nodes s i)
       \<and> set (cmd_pending_q (queue_prepared rq i s)) \<subseteq> insert i (set (cmd_pending_q s))"
  using assms
  by (auto simp: queue_prepared_def wlan_insert_cmd_to_pending_q_def wlan_queue_scan_cmd_def Let_def queued_def curr_list_def)

lemma queued_more [simp]:
  "queued (note_call c s) = queued s" "queued (upd_node i f s) = queued s" "queued (wlan_clean_cmd_node i s) = queued s"
  "queued (s\<lparr>cmd_free_q := q\<rparr>) = queued s" "queued (s\<lparr>num_no_cmd_node := w\<rparr>) = queued s"
  by (simp_all add: queued_def curr_list_def)

lemma event_simps [simp]:
  "nodes (wlan_recv_event p e s) = nodes s" "cmd_free_q (wlan_recv_event p e s) = cmd_free_q s"
  "cmd_pending_q (wlan_recv_event p e s) = cmd_pending_q s" "scan_pending_q (wlan_recv_event p e s) = scan_pending_q s"
  "curr_cmd (wlan_recv_event p e s) = curr_cmd s" "ioctls (wlan_recv_event p e s) = ioctls s"
  "pscan_ioctl_req (wlan_recv_event p e s) = pscan_ioctl_req s" "queued (wlan_recv_event p e s) = queued s"
  "pwarm_reset_ioctl_req (wlan_recv_event p e s) = pwarm_reset_ioctl_req s"
  by (simp_all add: wlan_recv_event_def split: option.split)

lemma dump_simps [simp]:
  "nodes (wlan_dump_info k s) = nodes s" "cmd_free_q (wlan_dump_info k s) = cmd_free_q s"
  "cmd_pending_q (wlan_dump_info k s) = cmd_pending_q s" "scan_pending_q (wlan_dump_info k s) = scan_pending_q s"
  "curr_cmd (wlan_dump_info k s) = curr_cmd s" "ioctls (wlan_dump_info k s) = ioctls s"
  "pscan_ioctl_req (wlan_dump_info k s) = pscan_ioctl_req s" "queued (wlan_dump_info k s) = queued s"
  "pwarm_reset_ioctl_req (wlan_dump_info k s) = pwarm_reset_ioctl_req s"
  by (simp_all add: wlan_dump_info_def Let_def)

lemma set_status_queued: "set_status_if p c s = Some s' \<Longrightarrow> queued s' = queued s"
  using set_status_exact [of p c s s'] by (simp add: queued_def curr_list_def)

lemma encode_exact:
  assumes "encode_prepared enc rq i s = Some (ret, s')"
  shows "\<exists>f. s' = upd_node i f s \<and> pioctl_buf (f (nodes s i)) = pioctl_buf (nodes s i)"
  using assms by (force simp: encode_prepared_def Let_def split: if_splits prod.splits option.splits)

lemma prepare_node_queues:
  assumes p: "prepare_node enc rq bss i s = Some (ret, s')" and i: "i \<notin> set (queued s)"
  shows "completions s' = completions s \<and> curr_cmd s' = curr_cmd s \<and> pscan_ioctl_req s' = pscan_ioctl_req s
       \<and> (\<forall>x. ioctls s' x = None \<longleftrightarrow> ioctls s x = None) \<and> (rq_pioctl rq = None \<longrightarrow> ioctls s' = ioctls s)
       \<and> (\<forall>j. j \<noteq> i \<longrightarrow> nodes s' j = nodes s j)
       \<and> (\<forall>j \<in> set (cmd_pending_q s') - set (cmd_pending_q s). j = i \<and> pioctl_buf (nodes s' j) = rq_pioctl rq)"
proof -
  obtain f1 f2 ret2 where pio: "pioctl_buf (f2 (f1 (nodes s i))) = rq_pioctl rq"
    and cs: "(if ret2 \<noteq> MLAN_STATUS_SUCCESS
              then do { s3 \<leftarrow> abandon_node rq i (upd_node i f2 (upd_node i f1 (s\<lparr>num_no_cmd_node := 0\<rparr>)));
                        Some (MLAN_STATUS_FAILURE, s3) }
              else Some (MLAN_STATUS_SUCCESS,
                         queue_prepared rq i (upd_node i f2 (upd_node i f1 (s\<lparr>num_no_cmd_node := 0\<rparr>))))) = Some (ret, s')"
  proof -
    let ?f1 = "\<lambda>n. n\<lparr>cn_priv := bss, cmd_no := ucast (rq_no rq), pioctl_buf := rq_pioctl rq, pdata_buf := rq_data rq,
                  cmdbuf := zero_cmd, cmdbuf_offset := 0 + INTF_HEADER_LEN\<rparr>"
    let ?s1 = "upd_node i ?f1 (s\<lparr>num_no_cmd_node := 0\<rparr>)"
    have m: "pmbuf (nodes s i)" using p by (auto simp: prepare_node_def wlan_init_cmd_node_def split: if_splits)
    then obtain ret2 s2 where e: "encode_prepared enc rq i ?s1 = Some (ret2, s2)"
      and cs: "(if ret2 \<noteq> MLAN_STATUS_SUCCESS then do { s3 \<leftarrow> abandon_node rq i s2; Some (MLAN_STATUS_FAILURE, s3) }
                else Some (MLAN_STATUS_SUCCESS, queue_prepared rq i s2)) = Some (ret, s')"
      using p unfolding prepare_node_def wlan_init_cmd_node_def by (cases "encode_prepared enc rq i ?s1") auto
    obtain f2 where f2: "s2 = upd_node i f2 ?s1" "pioctl_buf (f2 (nodes ?s1 i)) = pioctl_buf (nodes ?s1 i)"
      using encode_exact [OF e] by blast
    show thesis by (rule that [of f2 ?f1 ret2]) (use f2(2) in simp, use cs [unfolded f2(1)] in blast)
  qed
  let ?t = "upd_node i f2 (upd_node i f1 (s\<lparr>num_no_cmd_node := 0\<rparr>))"
  show ?thesis
  proof (cases "ret2 = MLAN_STATUS_SUCCESS")
    case True
    then have "s' = queue_prepared rq i ?t" using cs by simp
    then show ?thesis using queue_prepared_queues [of i ?t rq] i pio by auto
  next
    case False
    then have "abandon_node rq i ?t = Some s'" using cs by (auto simp: monad_simps)
    then obtain s1 where s1: "set_status_if (rq_pioctl rq) MLAN_ERROR_CMD_DNLD_FAIL (upd_node i (\<lambda>n. n\<lparr>pioctl_buf := None\<rparr>) ?t) = Some s1"
      and s': "wlan_insert_cmd_to_free_q (Some i) s1 = Some s'" by (auto simp: abandon_node_def monad_simps)
    note e = set_status_exact [OF s1] set_status_queued [OF s1]
    have "s' = (wlan_clean_cmd_node i s1)\<lparr>cmd_free_q := cmd_free_q s1 @ [i]\<rparr>"
      using s' e(5) by (simp add: insert_free_no_request)
    then show ?thesis using e by (auto simp: clean_other)
  qed
qed

lemma prepare_queues:
  assumes inv: "cmd_inv [] s" and p: "wlan_prepare_cmd enc rq s = Some (ret, s')"
  shows "queues_into (rq_pioctl rq) s s'"
proof -
  have refl: "queues_into q s s" for q by (simp add: queues_into_def)
  have status: "queues_into q s t'" if "set_status_if q c t = Some t'" and "t = s \<or> t = wlan_dump_info k s" for q c t t' k
    using set_status_exact [OF that(1)] set_status_queued [OF that(1)] that(2) by (auto simp: queues_into_def)
  have node: "queues_into (rq_pioctl rq) s s'" if "cmd_free_q s = i # q" "prepare_node enc rq b i (s\<lparr>cmd_free_q := q\<rparr>) = Some (ret, s')" for i q b
  proof -
    have "i \<notin> set (queued s)" using cmd_inv_distinct(1) [OF inv] that(1) by auto
    then show ?thesis using prepare_node_queues [OF that(2)] that(1) by (auto simp: queues_into_def)
  qed
  consider "s' = s"
    | c where "set_status_if (rq_pioctl rq) c s = Some s'"
    | c k where "set_status_if (rq_pioctl rq) c (wlan_dump_info k s) = Some s'"
    | i q b where "cmd_free_q s = i # q" "prepare_node enc rq b i (s\<lparr>cmd_free_q := q\<rparr>) = Some (ret, s')"
    using p unfolding wlan_prepare_cmd_def wlan_get_cmd_node_def
    by (auto simp: monad_simps split: option.splits if_splits list.splits)
  then show ?thesis using refl status node by cases blast+
qed

abbreviation enhanced_scan :: "cmd_ctx \<Rightarrow> bool" where
  "enhanced_scan s \<equiv> scan_processing s \<and> ext_scan_type s = EXT_SCAN_ENHANCE"

lemma stop_scan_exact:
  assumes inv: "cmd_inv [] s" and p: "stop_scan enc b None s = Some (x, s')"
  shows "completions s' = completions s \<and> ioctls s' = ioctls s \<and> curr_cmd s' = curr_cmd s
       \<and> pscan_ioctl_req s' = pscan_ioctl_req s
       \<and> (\<forall>j \<in> set (cmd_pending_q s') - set (cmd_pending_q s). pioctl_buf (nodes s' j) = None)
       \<and> (\<forall>j \<in> set (cmd_pending_q s) \<union> set (curr_list s). nodes s' j = nodes s j)
       \<and> (\<not> enhanced_scan s \<longrightarrow> cmd_pending_q s' = cmd_pending_q s \<and> scan_pending_q s' = [] \<and> \<not> scan_processing s')"
proof -
  have d: "j \<in> set (cmd_pending_q s) \<union> set (curr_list s) \<Longrightarrow> j \<notin> set (scan_pending_q s) \<and> j \<notin> set (cmd_free_q s)" for j
    using cmd_inv_distinct(1) [OF inv] by (auto simp: queued_def)
  show ?thesis
  proof (cases "enhanced_scan s \<and> b \<noteq> None")
    case True
    then obtain b' where b: "b = Some b'" by auto
    obtain ret s1 where s1: "wlan_prepare_cmd enc \<lparr>rq_bss = Some b', rq_no = HostCmd_CMD_802_11_SCAN_EXT,
        rq_action = HostCmd_ACT_GEN_SET, rq_pioctl = None, rq_data = None\<rparr> s = Some (ret, s1)"
      and s': "s' = wlan_recv_event (Some b') MLAN_EVENT_ID_DRV_DEFER_HANDLING s1"
      using p True b by (auto simp: stop_scan_def monad_simps)
    have "set (cmd_pending_q s1) \<subseteq> set (queued s1)" by (auto simp: queued_def)
    then show ?thesis using prepare_queues [OF inv s1] True d by (auto simp: queues_into_def s')
  next
    case False
    show ?thesis
    proof (cases "enhanced_scan s")
      case True
      then show ?thesis using False p by (auto simp: stop_scan_def queued_def)
    next
      case False
      then obtain s1 where s1: "flush_scan_loop s = Some s1" and s': "s' = s1\<lparr>scan_processing := False\<rparr>"
        using p by (auto simp: stop_scan_def wlan_flush_scan_queue_def monad_simps split: if_splits)
      have "j \<in> set (cmd_pending_q s) \<Longrightarrow> j \<in> set (queued s)" for j by (simp add: queued_def)
      then show ?thesis using flush_loop_exact [OF s1] d by (auto simp: s')
    qed
  qed
qed

subsection \<open>The scan request and the current command\<close>

definition scan_req :: "cmd_ctx \<Rightarrow> nat list" where
  "scan_req s = (case pscan_ioctl_req s of None \<Rightarrow> [] | Some r \<Rightarrow> [r])"

lemma cancel_scan_request_exact:
  assumes "cancel_scan_request s = Some (p, s')"
  shows "completions s' = completions s @ cancelled (scan_req s)" "ioctls s' = without (scan_req s) (ioctls s)"
    "nodes s' = nodes s" "cmd_pending_q s' = cmd_pending_q s" "scan_pending_q s' = scan_pending_q s"
    "curr_cmd s' = curr_cmd s" "scan_processing s' = scan_processing s" "ext_scan_type s' = ext_scan_type s"
  using assms
  by (auto simp: cancel_scan_request_def scan_req_def fail_request_eq monad_simps split: option.splits)

lemma cancel_curr_exact:
  assumes "cancel_curr_if (\<lambda>q. req_bss_index q = bss) s = Some (c, s')"
  shows "completions s' = completions s @ cancelled (requests s (filter (\<lambda>i. own_bss bss i s) (curr_list s)))
       \<and> ioctls s' = without (requests s (filter (\<lambda>i. own_bss bss i s) (curr_list s))) (ioctls s)
       \<and> cmd_pending_q s' = cmd_pending_q s \<and> scan_pending_q s' = scan_pending_q s \<and> curr_cmd s' = curr_cmd s
       \<and> (\<forall>j. j \<notin> set (curr_list s) \<longrightarrow> nodes s' j = nodes s j)"
  using assms
  by (auto simp: cancel_curr_if_def curr_list_def own_bss_def mark_cancelled_def fail_request_eq monad_simps
      split: option.splits if_splits)

subsection \<open>Cancelling the commands of one request\<close>

lemma find_remove_filter:
  assumes "find P xs = Some i" and "distinct xs"
  shows "filter Q (remove1 i xs) = filter (\<lambda>j. Q j \<and> i \<noteq> j) xs" and "P i"
proof -
  show "P i" using assms(1) by (auto simp: find_Some_iff)
  show "filter Q (remove1 i xs) = filter (\<lambda>j. Q j \<and> i \<noteq> j) xs"
    using assms(2) by (simp add: distinct_remove1_removeAll removeAll_filter_not_eq conj_commute)
qed

lemma cancel_ioctl_loop_exact:
  assumes "cancel_ioctl_loop r found s = Some (found', s')" and "distinct (cmd_pending_q s)"
  shows "completions s' = completions s \<and> ioctls s' = ioctls s \<and> curr_cmd s' = curr_cmd s
       \<and> pscan_ioctl_req s' = pscan_ioctl_req s \<and> scan_pending_q s' = scan_pending_q s
       \<and> cmd_pending_q s' = filter (\<lambda>i. pioctl_buf (nodes s i) \<noteq> Some r) (cmd_pending_q s)
       \<and> (found' \<longleftrightarrow> found \<or> (\<exists>i \<in> set (cmd_pending_q s). pioctl_buf (nodes s i) = Some r))
       \<and> (\<forall>j. j \<notin> set (cmd_pending_q s) \<or> pioctl_buf (nodes s j) \<noteq> Some r \<longrightarrow> nodes s' j = nodes s j)"
  using assms
proof (induction r found s rule: cancel_ioctl_loop.induct)
  case (1 r found s)
  show ?case
  proof (cases "wlan_get_pending_ioctl_cmd r s")
    case None
    then have n: "\<forall>i \<in> set (cmd_pending_q s). pioctl_buf (nodes s i) \<noteq> Some r"
      by (auto simp: wlan_get_pending_ioctl_cmd_def find_None_iff)
    have "s' = s \<and> found' = found" using 1(2) None by (subst (asm) cancel_ioctl_loop.simps) simp
    then show ?thesis using n by (auto simp: filter_id_conv)
  next
    case (Some i)
    let ?t = "upd_node i (\<lambda>n. n\<lparr>pioctl_buf := None\<rparr>) (s\<lparr>cmd_pending_q := remove1 i (cmd_pending_q s)\<rparr>)"
    obtain s1 where s1: "wlan_insert_cmd_to_free_q (Some i) ?t = Some s1" and l: "cancel_ioctl_loop r True s1 = Some (found', s')"
      using 1(2) Some by (subst (asm) cancel_ioctl_loop.simps) (auto simp: monad_simps)
    have e: "s1 = (wlan_clean_cmd_node i ?t)\<lparr>cmd_free_q := cmd_free_q s @ [i]\<rparr>"
      using s1 by (simp add: insert_free_no_request)
    note f = find_remove_filter [OF Some [unfolded wlan_get_pending_ioctl_cmd_def] 1(3)]
    have i: "i \<in> set (cmd_pending_q s)" using Some by (auto simp: wlan_get_pending_ioctl_cmd_def dest: find_in)
    have n: "j \<noteq> i \<Longrightarrow> nodes s1 j = nodes s j" for j by (simp add: e clean_other)
    have "filter (\<lambda>j. pioctl_buf (nodes s1 j) \<noteq> Some r) (remove1 i (cmd_pending_q s))
        = filter (\<lambda>j. pioctl_buf (nodes s1 j) \<noteq> Some r \<and> i \<noteq> j) (cmd_pending_q s)" by (rule f(1))
    also have "\<dots> = filter (\<lambda>j. pioctl_buf (nodes s j) \<noteq> Some r) (cmd_pending_q s)"
      by (rule filter_cong [OF refl]) (use n f(2) in metis)
    finally have q: "filter (\<lambda>j. pioctl_buf (nodes s1 j) \<noteq> Some r) (cmd_pending_q s1)
        = filter (\<lambda>j. pioctl_buf (nodes s j) \<noteq> Some r) (cmd_pending_q s)" by (simp add: e)
    have d: "distinct (cmd_pending_q s1)" using 1(3) by (simp add: e)
    have "j \<notin> set (cmd_pending_q s1) \<or> pioctl_buf (nodes s1 j) \<noteq> Some r"
      if "j \<notin> set (cmd_pending_q s) \<or> pioctl_buf (nodes s j) \<noteq> Some r" for j
      using that n f(2) i by (cases "j = i") (auto simp: e dest: notin_set_remove1)
    moreover have "j \<noteq> i" if "j \<notin> set (cmd_pending_q s) \<or> pioctl_buf (nodes s j) \<noteq> Some r" for j
      using that i f(2) by auto
    ultimately show ?thesis
      using 1(1) [OF Some s1 l d] q i f(2) n by (auto simp: e)
  qed
qed

subsection \<open>Cancelling the commands of an interface\<close>

lemma own_bss_request: "own_bss bss i s \<Longrightarrow> \<exists>r q. pioctl_buf (nodes s i) = Some r \<and> ioctls s r = Some q \<and> req_bss_index q = bss"
  by (auto simp: own_bss_def split: option.splits)

lemma bss_walk_split:
  "bss_pending_walk bss is s = Some (Some i) \<Longrightarrow>
     \<exists>as bs. is = as @ i # bs \<and> own_bss bss i s \<and> (\<forall>j \<in> set as. \<not> own_bss bss j s)"
proof (induction "is")
  case (Cons j js)
  show ?case
  proof (cases "own_bss bss j s")
    case True
    then show ?thesis using Cons.prems by (auto split: if_splits intro: exI [of _ "[]"])
  next
    case False
    then obtain as bs where "js = as @ i # bs \<and> own_bss bss i s \<and> (\<forall>j \<in> set as. \<not> own_bss bss j s)"
      using Cons by (auto split: if_splits)
    then show ?thesis using False by (intro exI [of _ "j # as"] exI [of _ bs]) auto
  qed
qed simp

lemma bss_walk_none:
  "bss_pending_walk bss is s = Some None \<Longrightarrow> \<forall>j \<in> set is. \<not> own_bss bss j s"
  by (induction "is") (auto split: if_splits)

definition unshared :: "cmd_ctx \<Rightarrow> nat list \<Rightarrow> bool" where
  "unshared s is \<longleftrightarrow>
     (\<forall>i \<in> set is. \<forall>j \<in> set is. \<forall>r. pioctl_buf (nodes s i) = Some r \<longrightarrow> pioctl_buf (nodes s j) = Some r \<longrightarrow> i = j)"

lemma unsharedD: "unshared s is \<Longrightarrow> i \<in> set is \<Longrightarrow> j \<in> set is \<Longrightarrow> pioctl_buf (nodes s i) = Some r \<Longrightarrow>
    pioctl_buf (nodes s j) = Some r \<Longrightarrow> i = j"
  unfolding unshared_def by blast

lemma cancel_bss_loop_exact:
  assumes "cancel_bss_loop bss flash s = Some (flash', s')" and "distinct (cmd_pending_q s)"
    and "unshared s (cmd_pending_q s)"
  shows "completions s' = completions s @ cancelled (requests s (filter (\<lambda>i. own_bss bss i s) (cmd_pending_q s)))
       \<and> ioctls s' = without (requests s (filter (\<lambda>i. own_bss bss i s) (cmd_pending_q s))) (ioctls s)
       \<and> curr_cmd s' = curr_cmd s \<and> scan_pending_q s' = scan_pending_q s
       \<and> cmd_pending_q s' = filter (\<lambda>i. \<not> own_bss bss i s) (cmd_pending_q s)
       \<and> (\<forall>j. \<not> (j \<in> set (cmd_pending_q s) \<and> own_bss bss j s) \<longrightarrow> nodes s' j = nodes s j)"
  using assms
proof (induction bss flash s rule: cancel_bss_loop.induct)
  case (1 bss flash s)
  consider (none) "wlan_get_bss_pending_ioctl_cmd bss s = Some None"
    | (found) i where "wlan_get_bss_pending_ioctl_cmd bss s = Some (Some i)"
    using 1(2) by (subst (asm) cancel_bss_loop.simps) (auto split: option.splits)
  then show ?case
  proof cases
    case none
    then have n: "\<forall>j \<in> set (cmd_pending_q s). \<not> own_bss bss j s"
      unfolding wlan_get_bss_pending_ioctl_cmd_def by (rule bss_walk_none)
    have s': "s' = s" using 1(2) none by (subst (asm) cancel_bss_loop.simps) simp
    have "filter (\<lambda>i. own_bss bss i s) (cmd_pending_q s) = []" using n by (simp add: filter_empty_conv)
    then show ?thesis using n by (simp add: s' filter_id_conv)
  next
    case found
    obtain as bs where q: "cmd_pending_q s = as @ i # bs" and own: "own_bss bss i s" and before: "\<forall>j \<in> set as. \<not> own_bss bss j s"
      using found bss_walk_split unfolding wlan_get_bss_pending_ioctl_cmd_def by blast
    obtain r rq where r: "pioctl_buf (nodes s i) = Some r" "ioctls s r = Some rq" "req_bss_index rq = bss"
      using own_bss_request [OF own] by blast
    have rem: "remove1 i (cmd_pending_q s) = as @ bs" "i \<notin> set as" "i \<notin> set bs" using 1(3) q by (auto simp: remove1_append)
    let ?t = "upd_node i (\<lambda>n. n\<lparr>pioctl_buf := None\<rparr>) (s\<lparr>cmd_pending_q := remove1 i (cmd_pending_q s)\<rparr>)"
    obtain s1 s2 where s1: "fail_request r MLAN_ERROR_CMD_CANCEL ?t = Some s1"
      and s2: "wlan_insert_cmd_to_free_q (Some i) s1 = Some s2"
      and l: "cancel_bss_loop bss (flash \<or> req_id rq = MLAN_IOCTL_SCAN) s2 = Some (flash', s')"
      using 1(2) found r by (subst (asm) cancel_bss_loop.simps) (auto simp: monad_simps)
    have e1: "s1 = note_call (Ioctl_complete r MLAN_ERROR_CMD_CANCEL MLAN_STATUS_FAILURE) (?t\<lparr>ioctls := (ioctls s)(r := None)\<rparr>)"
      using s1 r by (simp add: fail_request_eq)
    have e2: "s2 = (wlan_clean_cmd_node i s1)\<lparr>cmd_free_q := cmd_free_q s @ [i]\<rparr>"
      using s2 by (simp add: e1 insert_free_no_request)
    have n: "j \<noteq> i \<Longrightarrow> nodes s2 j = nodes s j" for j by (simp add: e1 e2 clean_other)
    have p2: "cmd_pending_q s2 = as @ bs" by (simp add: e1 e2 rem)
    have io: "ioctls s2 = (ioctls s)(r := None)" by (simp add: e1 e2)
    have own2: "own_bss bss j s2 = own_bss bss j s" if "j \<in> set (as @ bs)" for j
    proof -
      have "j \<noteq> i" using that rem by auto
      moreover have "pioctl_buf (nodes s j) \<noteq> Some r"
        using unsharedD [OF 1(4), of i j r] that q r(1) \<open>j \<noteq> i\<close> by auto
      ultimately show ?thesis by (auto simp: own_bss_def n io split: option.split)
    qed
    have as: "filter (\<lambda>j. own_bss bss j s) as = []" using before by (simp add: filter_empty_conv)
    have "filter (\<lambda>j. own_bss bss j s2) (cmd_pending_q s2) = filter (\<lambda>j. own_bss bss j s) (as @ bs)"
      unfolding p2 by (rule filter_cong; use own2 in simp)
    then have f: "filter (\<lambda>j. own_bss bss j s2) (cmd_pending_q s2) = filter (\<lambda>j. own_bss bss j s) bs"
      "filter (\<lambda>j. own_bss bss j s) (cmd_pending_q s) = i # filter (\<lambda>j. own_bss bss j s) bs"
      using as own q by simp_all
    have "filter (\<lambda>j. \<not> own_bss bss j s2) (cmd_pending_q s2) = filter (\<lambda>j. \<not> own_bss bss j s) (as @ bs)"
      unfolding p2 by (rule filter_cong; use own2 in simp)
    then have g: "filter (\<lambda>j. \<not> own_bss bss j s2) (cmd_pending_q s2) = filter (\<lambda>j. \<not> own_bss bss j s) (cmd_pending_q s)"
      using own q by simp
    have "nodes s2 j = nodes s j" if "j \<in> set bs" for j using n [of j] that rem(3) by auto
    then have rq: "requests s2 (filter (\<lambda>j. own_bss bss j s) bs) = requests s (filter (\<lambda>j. own_bss bss j s) bs)"
      by (intro requests_cong) simp
    have c2: "completions s2 = completions s @ [(r, MLAN_ERROR_CMD_CANCEL, MLAN_STATUS_FAILURE)]"
      "curr_cmd s2 = curr_cmd s" "scan_pending_q s2 = scan_pending_q s" by (simp_all add: e1 e2)
    have nodes: "nodes s2 j = nodes s j \<and> \<not> (j \<in> set (cmd_pending_q s2) \<and> own_bss bss j s2)"
      if "\<not> (j \<in> set (cmd_pending_q s) \<and> own_bss bss j s)" for j
      using that n [of j] own own2 q p2 by auto
    have d2: "distinct (cmd_pending_q s2)" using 1(3) by (simp add: p2 q)
    have u2: "unshared s2 (cmd_pending_q s2)"
      unfolding unshared_def
    proof (intro ballI allI impI)
      fix a b r'
      assume a: "a \<in> set (cmd_pending_q s2)" "b \<in> set (cmd_pending_q s2)"
        "pioctl_buf (nodes s2 a) = Some r'" "pioctl_buf (nodes s2 b) = Some r'"
      then have "a \<noteq> i" "b \<noteq> i" using p2 rem by auto
      then show "a = b" using a n unsharedD [OF 1(4), of a b r'] p2 q by auto
    qed
    note IH = 1(1) [OF found refl r(1,2) s1 s2 l d2 u2, unfolded f(1) rq g c2 io]
    have "completions s' = completions s @ cancelled (requests s (filter (\<lambda>i. own_bss bss i s) (cmd_pending_q s)))"
      unfolding f(2) using IH r(1) by simp
    moreover have "ioctls s' = without (requests s (filter (\<lambda>i. own_bss bss i s) (cmd_pending_q s))) (ioctls s)"
      unfolding f(2) requests_simps r(1) option.case without_simps using IH by blast
    moreover have "nodes s' j = nodes s j" if "\<not> (j \<in> set (cmd_pending_q s) \<and> own_bss bss j s)" for j
      using IH nodes [OF that] by simp
    ultimately show ?thesis using IH by blast
  qed
qed

end
