(* ===== verification/Cmd_Props.thy ===== *)
theory Cmd_Props
  imports Cmd_Effects
begin

text \<open>
  Properties of the command path: no operation gets stuck, nodes and requests are accounted for, commands are
  sent one at a time and in order, a response finds its interface, what happens when the pool is empty, when a command
  has no response, when the timer runs out, and when a request is cancelled.
\<close>

subsection \<open>Every reachable state\<close>

lemma set_requests: "set (requests s is) = {r. \<exists>i \<in> set is. pioctl_buf (nodes s i) = Some r}"
  by (induction "is") (auto split: option.splits)

lemma distinct_requests: "distinct is \<Longrightarrow> unshared s is \<Longrightarrow> distinct (requests s is)"
proof (induction "is")
  case (Cons i "is")
  have "unshared s is" using Cons.prems by (simp add: unshared_def)
  moreover have "r \<notin> set (requests s is)" if "pioctl_buf (nodes s i) = Some r" for r
    using unsharedD [OF Cons.prems(2), of i _ r] that Cons.prems(1) by (auto simp: set_requests)
  ultimately show ?case using Cons by (auto split: option.split)
qed simp

text \<open>C5. In every reachable state every entry point is defined: no request is completed twice or written to after
  its completion, no null pointer and no unallocated buffer is followed, and the loops end.\<close>

theorem command_path_never_stuck:
  assumes "cmd_reachable s" and "allowed op s"
  shows "\<exists>s'. run_op op s = Some s' \<and> cmd_reachable s'"
  using okpD [OF okp_run_op [OF reachable_cmd_inv [OF assms(1)] assms(2)]] cmd_reachable.step [OF assms] by blast

text \<open>C13. In every reachable state each of the 30 nodes is in exactly one place: free, pending, waiting for a scan,
  or current.  Free nodes carry no request and no buffer, and two nodes in use never share a request, which is still
  outstanding.\<close>

theorem command_nodes_accounted:
  assumes "cmd_reachable s"
  shows "distinct (cmd_free_q s @ cmd_pending_q s @ scan_pending_q s @ curr_list s)
       \<and> set (cmd_free_q s @ cmd_pending_q s @ scan_pending_q s @ curr_list s) = {0..<MRVDRV_NUM_OF_CMD_BUFFER}
       \<and> list_all (\<lambda>i. clean_node (nodes s i)) (cmd_free_q s)
       \<and> distinct (requests s (queued s)) \<and> list_all (\<lambda>r. ioctls s r \<noteq> None) (requests s (queued s))"
proof -
  note inv = reachable_cmd_inv [OF assms]
  have clean: "list_all (\<lambda>i. clean_node (nodes s i)) (cmd_free_q s)"
    using inv by (simp add: cmd_inv_def node_inv_def list_all_iff)
  have d: "distinct (queued s)" using cmd_inv_distinct(1) [OF inv] by simp
  have u: "unshared s (queued s)"
    using inv unfolding cmd_inv_def req_inv_def req_ok_def unshared_def by simp
  have "distinct (requests s (queued s))" by (rule distinct_requests [OF d u])
  moreover have "list_all (\<lambda>r. ioctls s r \<noteq> None) (requests s (queued s))"
    using cmd_inv_live [OF inv] by (auto simp: list_all_iff set_requests)
  ultimately show ?thesis
    using cmd_inv_distinct [OF inv] clean by (simp add: queued_def)
qed

subsection \<open>Sequence numbers\<close>

text \<open>The masks of the sequence number as masks of a width.\<close>

lemma seq_masks: "(0x00ff :: t_u16) = mask 8" "(0x000f :: t_u16) = mask 4" "(0x0f00 :: t_u16) = push_bit 8 (mask 4)"
  "(0xf000 :: t_u16) = push_bit 12 (mask 4)"
  by (simp_all add: mask_eq_exp_minus_1 push_bit_eq_mult)

lemma low4: "take_bit 4 (w :: t_u16) = w" if "w < 16"
  using that by (simp add: word_unat_eq_iff unsigned_take_bit_eq take_bit_nat_eq_self word_less_nat_alt)

lemma seq_fields:
  fixes num ty :: t_u16
  assumes "num < 16" and "ty < 16"
  shows "HostCmd_GET_SEQ_NO (HostCmd_SET_SEQ_NO_BSS_INFO sn num ty) = sn AND 0xff"
    and "HostCmd_GET_BSS_NO (HostCmd_SET_SEQ_NO_BSS_INFO sn num ty) = num"
    and "HostCmd_GET_BSS_TYPE (HostCmd_SET_SEQ_NO_BSS_INFO sn num ty) = ty"
proof -
  have "HostCmd_GET_BSS_NO (HostCmd_SET_SEQ_NO_BSS_INFO sn num ty) = take_bit 4 num"
    "HostCmd_GET_BSS_TYPE (HostCmd_SET_SEQ_NO_BSS_INFO sn num ty) = take_bit 4 ty"
    unfolding HostCmd_GET_BSS_NO_def HostCmd_GET_BSS_TYPE_def HostCmd_SET_SEQ_NO_BSS_INFO_def seq_masks
    by (rule bit_word_eqI; auto simp: bit_simps)+
  then show "HostCmd_GET_BSS_NO (HostCmd_SET_SEQ_NO_BSS_INFO sn num ty) = num"
    "HostCmd_GET_BSS_TYPE (HostCmd_SET_SEQ_NO_BSS_INFO sn num ty) = ty"
    using low4 assms by simp_all
  show "HostCmd_GET_SEQ_NO (HostCmd_SET_SEQ_NO_BSS_INFO sn num ty) = sn AND 0xff"
    unfolding HostCmd_GET_SEQ_NO_def HostCmd_SET_SEQ_NO_BSS_INFO_def seq_masks
    by (rule bit_word_eqI) (auto simp: bit_simps)
qed

lemma find_index_SomeI:
  "k < length xs \<Longrightarrow> P (xs ! k) \<Longrightarrow> \<forall>j < k. \<not> P (xs ! j) \<Longrightarrow> find_index P xs = Some k"
proof (induction xs arbitrary: k)
  case (Cons x xs)
  show ?case
  proof (cases k)
    case 0
    then show ?thesis using Cons.prems by simp
  next
    case (Suc m)
    then have "\<not> P x" "\<forall>j < m. \<not> P (xs ! j)" using Cons.prems(3) by force+
    then show ?thesis using Suc Cons.IH [of m] Cons.prems(1,2) by simp
  qed
qed simp

text \<open>A sequence number given to a command of an interface leads its response back to that interface: the number
  within the interface is kept, and the first interface with its number and type is found.\<close>

theorem response_finds_interface:
  assumes "k < length (cmd_ifaces s)" and "k < 16" and "cmd_ifaces s ! k = Some ifc"
    and "if_bss_num ifc < 16" and "if_bss_type ifc < 16"
    and "\<forall>j < k. \<forall>i. cmd_ifaces s ! j = Some i \<longrightarrow> (if_bss_num i, if_bss_type i) \<noteq> (if_bss_num ifc, if_bss_type ifc)"
  shows "let sn' = HostCmd_SET_SEQ_NO_BSS_INFO sn (if_bss_num ifc) (if_bss_type ifc) in
         HostCmd_GET_SEQ_NO sn' = sn AND 0xff \<and>
         wlan_get_priv_by_id (HostCmd_GET_BSS_NO sn') (HostCmd_GET_BSS_TYPE sn') s = Some k"
proof -
  have "find_index (\<lambda>p. case p of None \<Rightarrow> False | Some i \<Rightarrow> if_bss_num i = if_bss_num ifc \<and> if_bss_type i = if_bss_type ifc)
      (take 16 (cmd_ifaces s)) = Some k"
    using assms by (intro find_index_SomeI) (auto split: option.split)
  then show ?thesis using seq_fields [OF assms(4,5)] by (simp add: Let_def wlan_get_priv_by_id_def)
qed

subsection \<open>Cancelling\<close>

text \<open>C20. Cancelling all commands completes, as cancelled and in this order, the request of the scan, of the
  current command and of the pending commands, each once and no other, and leaves no current command, whether a scan runs
  or not.  Unless an enhanced scan runs, no command is queued and all nodes are free afterwards; during an enhanced scan
  the code does not flush the scan queue and prepares a further command that stops the scan, so that the theorem makes no
  such statement for it.\<close>

theorem cancel_all_exact:
  assumes "cmd_reachable s"
  shows "\<exists>s'. wlan_cancel_all_pending_cmd enc s = Some s'
       \<and> completions s' = completions s @ cancelled (scan_req s @ requests s (curr_list s @ cmd_pending_q s))
       \<and> ioctls s' = without (scan_req s @ requests s (curr_list s @ cmd_pending_q s)) (ioctls s)
       \<and> curr_cmd s' = None \<and> pscan_ioctl_req s' = None
       \<and> (\<not> enhanced_scan s \<longrightarrow> queued s' = [] \<and> set (cmd_free_q s') = {0..<MRVDRV_NUM_OF_CMD_BUFFER})"
proof -
  note inv = reachable_cmd_inv [OF assms(1)]
  obtain p s1 where 1: "cancel_scan_request s = Some (p, s1)" "cmd_inv [] s1"
    using okpD [OF okp_cancel_scan_request [OF inv]] by auto
  note e1 = cancel_scan_request_exact [OF 1(1)]
  have d1: "distinct (curr_list s1 @ cmd_pending_q s1)"
    using cmd_inv_distinct(1) [OF 1(2)] by (auto simp: queued_def)
  have "okp (case curr_cmd s1 of None \<Rightarrow> Some s1 | Some i \<Rightarrow> cancel_node i (s1\<lparr>curr_cmd := None\<rparr>)) (cmd_inv [])"
    using 1(2) okp_mono [OF okp_cancel_node [OF cmd_inv_take_curr [OF 1(2)]]] by (auto split: option.split)
  from okpD [OF this] obtain s2
    where 2: "(case curr_cmd s1 of None \<Rightarrow> Some s1 | Some i \<Rightarrow> cancel_node i (s1\<lparr>curr_cmd := None\<rparr>)) = Some s2" "cmd_inv [] s2"
    by auto
  have e2: "completions s2 = completions s1 @ cancelled (requests s1 (curr_list s1))
      \<and> ioctls s2 = without (requests s1 (curr_list s1)) (ioctls s1)
      \<and> cmd_pending_q s2 = cmd_pending_q s1 \<and> curr_cmd s2 = None
      \<and> scan_processing s2 = scan_processing s1 \<and> ext_scan_type s2 = ext_scan_type s1
      \<and> (\<forall>j. j \<notin> set (curr_list s1) \<longrightarrow> nodes s2 j = nodes s1 j)"
  proof (cases "curr_cmd s1")
    case None
    then show ?thesis using 2(1) by (simp add: curr_list_def)
  next
    case (Some i)
    then have "cancel_node i (s1\<lparr>curr_cmd := None\<rparr>) = Some s2" using 2(1) by simp
    note e = cancel_node_exact [OF this]
    show ?thesis using Some e by (simp add: curr_list_def split: option.split)
  qed
  have "nodes s2 j = nodes s1 j" if "j \<in> set (cmd_pending_q s1)" for j using e2 d1 that by auto
  then have r2: "requests s2 (cmd_pending_q s1) = requests s1 (cmd_pending_q s1)" by (intro requests_cong) simp
  have r1: "requests s1 is = requests s is" "curr_list s1 = curr_list s" for "is"
    using e1 by (simp_all add: requests_def curr_list_def)
  obtain s3 where 3: "cancel_all_loop s2 = Some s3" "cmd_inv [] s3"
    using okpD [OF okp_cancel_all_loop [OF 2(2)]] by blast
  have "distinct (cmd_pending_q s2)" using d1 e2 by simp
  note e3 = cancel_all_loop_exact [OF 3(1) this]
  obtain x s4 where 4: "stop_scan enc p None s3 = Some (x, s4)" "cmd_inv [] s4"
    using okpD [OF okp_stop_scan [OF 3(2) unreferenced_None, of enc p]] by auto
  note e4 = stop_scan_exact [OF 3(2) 4(1)]
  have run: "wlan_cancel_all_pending_cmd enc s = Some s4"
    by (simp add: wlan_cancel_all_pending_cmd_def 1 2 3 4)
  have q: "queued s4 = []" if "\<not> enhanced_scan s"
  proof -
    have "\<not> enhanced_scan s3" using that e1 e2 e3 by simp
    then show ?thesis using e2 e3 e4 by (simp add: queued_def curr_list_def)
  qed
  have "curr_cmd s4 = None" using e2 e3 e4 by simp
  moreover have "pscan_ioctl_req s4 = None" using okp_cancel_all [OF inv, of enc] run by simp
  moreover have "set (cmd_free_q s4) = {0..<MRVDRV_NUM_OF_CMD_BUFFER}" if "\<not> enhanced_scan s"
    using cmd_inv_distinct(2) [OF 4(2)] q [OF that] by simp
  moreover have "completions s4 = completions s @ cancelled (scan_req s @ requests s (curr_list s @ cmd_pending_q s))"
    using e1 e2 e3 e4 r2 r1 by simp
  moreover have "ioctls s4 = without (scan_req s @ requests s (curr_list s @ cmd_pending_q s)) (ioctls s)"
    using e1 e2 e3 e4 r2 r1 by simp
  ultimately show ?thesis using run q by blast
qed

lemma own_bss_cong:
  "pioctl_buf (nodes t i) = pioctl_buf (nodes s i) \<Longrightarrow> (\<And>r. pioctl_buf (nodes s i) = Some r \<Longrightarrow> ioctls t r = ioctls s r)
   \<Longrightarrow> own_bss bss i t = own_bss bss i s"
  by (simp add: own_bss_def split: option.split)

lemma queued_unshared: "cmd_inv h s \<Longrightarrow> unshared s (queued s)"
  unfolding cmd_inv_def req_inv_def req_ok_def unshared_def by auto

lemma scan_req_not_queued: "cmd_inv h s \<Longrightarrow> i \<in> set (queued s) \<Longrightarrow> pioctl_buf (nodes s i) = Some r \<Longrightarrow> r \<notin> set (scan_req s)"
  unfolding cmd_inv_def req_inv_def req_ok_def node_refs_def scan_req_def by (auto split: option.splits)

text \<open>C32. Cancelling the commands of an interface completes, as cancelled and in this order, the request of the
  scan if it is the interface's, that of the current command and those of the pending commands that belong to the
  interface, each once and no other; the current command keeps its node, no pending one of the interface is left.\<close>

theorem cancel_bss_exact:
  assumes "cmd_reachable s"
  shows "\<exists>s'. wlan_cancel_bss_pending_cmd enc bss s = Some s'
       \<and> (let own = filter (\<lambda>r. map_option req_bss_index (ioctls s r) = Some bss) (scan_req s)
                     @ requests s (filter (\<lambda>i. own_bss bss i s) (curr_list s @ cmd_pending_q s)) in
          completions s' = completions s @ cancelled own \<and> ioctls s' = without own (ioctls s))
       \<and> curr_cmd s' = curr_cmd s \<and> filter (\<lambda>i. own_bss bss i s') (cmd_pending_q s') = []"
proof -
  note inv = reachable_cmd_inv [OF assms]
  let ?sc = "filter (\<lambda>r. map_option req_bss_index (ioctls s r) = Some bss) (scan_req s)"
  have live: "\<And>r. pscan_ioctl_req s = Some r \<Longrightarrow> ioctls s r \<noteq> None"
    using inv unfolding cmd_inv_def req_inv_def req_ok_def by blast
  obtain mine where m: "(case pscan_ioctl_req s of None \<Rightarrow> Some False
              | Some r \<Rightarrow> (case ioctls s r of None \<Rightarrow> None | Some q \<Rightarrow> Some (req_bss_index q = bss))) = Some mine"
    and sc: "?sc = (if mine then scan_req s else [])"
  proof (cases "pscan_ioctl_req s")
    case None
    then show ?thesis using that [of False] by (simp add: scan_req_def)
  next
    case (Some r)
    then obtain q where "ioctls s r = Some q" using live by auto
    then show ?thesis using that [of "req_bss_index q = bss"] Some by (simp add: scan_req_def)
  qed
  obtain p s1 where 1: "(if mine then cancel_scan_request s else Some (None, s)) = Some (p, s1)" "cmd_inv [] s1"
    using okpD [OF okp_cancel_scan_request [OF inv]] inv by (cases mine) auto
  have e1: "completions s1 = completions s @ cancelled ?sc \<and> ioctls s1 = without ?sc (ioctls s) \<and> nodes s1 = nodes s
      \<and> cmd_pending_q s1 = cmd_pending_q s \<and> curr_cmd s1 = curr_cmd s"
    using 1(1) unfolding sc by (cases mine) (auto dest: cancel_scan_request_exact)
  obtain c s2 where 2: "cancel_curr_if (\<lambda>q. req_bss_index q = bss) s1 = Some (c, s2)" "cmd_inv [] s2"
    using okpD [OF okp_cancel_curr [OF 1(2)]] by fastforce
  note e2 = cancel_curr_exact [OF 2(1)]
  have d2: "distinct (cmd_pending_q s2)" using cmd_inv_distinct(1) [OF 2(2)] by (simp add: queued_def)
  have u2: "unshared s2 (cmd_pending_q s2)"
    using 2(2) unfolding cmd_inv_def req_inv_def req_ok_def unshared_def queued_def by auto
  let ?f = "mine \<or> (case c of None \<Rightarrow> False | Some q \<Rightarrow> req_id q = MLAN_IOCTL_SCAN)"
  obtain fl s3 where 3: "cancel_bss_loop bss ?f s2 = Some (fl, s3)" "cmd_inv [] s3"
    using okpD [OF okp_cancel_bss_loop [OF 2(2)]] by fastforce
  note e3 = cancel_bss_loop_exact [OF 3(1) d2 u2]
  obtain s4 where 4: "(if fl then do { (_, s4) \<leftarrow> stop_scan enc p None s3; Some s4 } else Some s3) = Some s4"
    and e4: "completions s4 = completions s3" "ioctls s4 = ioctls s3" "curr_cmd s4 = curr_cmd s3"
      "\<forall>j \<in> set (cmd_pending_q s4) - set (cmd_pending_q s3). pioctl_buf (nodes s4 j) = None"
      "\<forall>j \<in> set (cmd_pending_q s3). nodes s4 j = nodes s3 j"
  proof (cases fl)
    case True
    obtain x s4 where s4: "stop_scan enc p None s3 = Some (x, s4)"
      using okpD [OF okp_stop_scan [OF 3(2) unreferenced_None, of enc p]] by auto
    show ?thesis by (rule that [of s4]) (use True s4 stop_scan_exact [OF 3(2) s4] in simp_all)
  next
    case False
    then show ?thesis using that [of s3] by simp
  qed
  have run: "wlan_cancel_bss_pending_cmd enc bss s = Some s4"
    unfolding wlan_cancel_bss_pending_cmd_def m bind.bind_lunit 1 prod.case 2 3 4 ..
  have c1: "curr_list s1 = curr_list s" using e1 by (simp add: curr_list_def)
  have in_q: "i \<in> set (curr_list s @ cmd_pending_q s) \<Longrightarrow> i \<in> set (queued s)" for i by (auto simp: queued_def)
  have o1: "own_bss bss i s1 = own_bss bss i s" if "i \<in> set (curr_list s @ cmd_pending_q s)" for i
    by (rule own_bss_cong)
       (use e1 scan_req_not_queued [OF inv in_q [OF that]] in \<open>auto simp: without_def\<close>)
  let ?own1 = "requests s (filter (\<lambda>i. own_bss bss i s) (curr_list s))"
  have r1: "requests s1 (filter (\<lambda>i. own_bss bss i s1) (curr_list s1)) = ?own1"
    using e1 o1 by (auto simp: c1 curr_list_def requests_def split: option.split)
  have n2: "nodes s2 i = nodes s i" if "i \<in> set (cmd_pending_q s)" for i
  proof -
    have "i \<notin> set (curr_list s)" using that cmd_inv_distinct(1) [OF inv] by (auto simp: queued_def)
    then show ?thesis using e2 e1 c1 by simp
  qed
  have o2: "own_bss bss i s2 = own_bss bss i s" if i: "i \<in> set (cmd_pending_q s)" for i
  proof -
    have "own_bss bss i s2 = own_bss bss i s1"
    proof (rule own_bss_cong)
      show "pioctl_buf (nodes s2 i) = pioctl_buf (nodes s1 i)" using n2 [OF i] e1 by simp
      fix r
      assume r: "pioctl_buf (nodes s1 i) = Some r"
      have "r \<notin> set ?own1"
      proof
        assume "r \<in> set ?own1"
        then obtain j where j: "j \<in> set (curr_list s)" "pioctl_buf (nodes s j) = Some r" by (auto simp: set_requests)
        have "i = j" using unsharedD [OF queued_unshared [OF inv], of i j r] i j r e1 by (simp add: queued_def)
        then show False using i j cmd_inv_distinct(1) [OF inv] by (auto simp: queued_def)
      qed
      then show "ioctls s2 r = ioctls s1 r" using e2 unfolding r1 by (simp add: without_def)
    qed
    then show ?thesis using o1 i by simp
  qed
  have p2: "cmd_pending_q s2 = cmd_pending_q s" using e1 e2 by simp
  have f2: "filter (\<lambda>i. own_bss bss i s2) (cmd_pending_q s) = filter (\<lambda>i. own_bss bss i s) (cmd_pending_q s)"
    by (rule filter_cong) (use o2 in simp_all)
  have r2: "requests s2 (filter (\<lambda>i. own_bss bss i s) (cmd_pending_q s)) = requests s (filter (\<lambda>i. own_bss bss i s) (cmd_pending_q s))"
    by (rule requests_cong) (use n2 in simp)
  let ?own = "?sc @ requests s (filter (\<lambda>i. own_bss bss i s) (curr_list s @ cmd_pending_q s))"
  have "completions s4 = completions s @ cancelled ?own"
    using e1 e2 e3 e4(1) by (simp add: p2 f2 r1 r2)
  moreover have "ioctls s4 = without ?own (ioctls s)"
    using e1 e2 e3 e4(2) by (simp add: p2 f2 r1 r2)
  moreover have "curr_cmd s4 = curr_cmd s" using e1 e2 e3 e4(3) by simp
  moreover have "filter (\<lambda>i. own_bss bss i s4) (cmd_pending_q s4) = []"
  proof -
    have "\<not> own_bss bss j s4" if j: "j \<in> set (cmd_pending_q s4)" for j
    proof (cases "j \<in> set (cmd_pending_q s3)")
      case True
      then have "j \<in> set (cmd_pending_q s)" "\<not> own_bss bss j s" using e3 o2 by (auto simp: p2)
      then have n: "nodes s4 j = nodes s2 j" "own_bss bss j s2 = False" using True e3 e4(5) o2 by auto
      show ?thesis
        using n(2) e3 e4(2) by (auto simp: own_bss_def n(1) without_def split: option.splits if_splits)
    next
      case False
      then show ?thesis using e4(4) j by (simp add: own_bss_def)
    qed
    then show ?thesis by (simp add: filter_empty_conv)
  qed
  ultimately show ?thesis using run by (simp add: Let_def)
qed

text \<open>Cancelling one request: the part before the request is completed.\<close>

definition has_request :: "nat \<Rightarrow> cmd_ctx \<Rightarrow> bool" where
  "has_request r s \<longleftrightarrow> r \<in> set (scan_req s @ requests s (curr_list s @ cmd_pending_q s))"

lemma has_request_iff:
  "has_request r s \<longleftrightarrow> pscan_ioctl_req s = Some r
     \<or> (case curr_cmd s of None \<Rightarrow> False | Some i \<Rightarrow> pioctl_buf (nodes s i) = Some r)
     \<or> (\<exists>i \<in> set (cmd_pending_q s). pioctl_buf (nodes s i) = Some r)"
  by (auto simp: has_request_def scan_req_def curr_list_def set_requests split: option.splits)

lemma cancelled_flag: "((w :: t_u32) OR CMD_F_CANCELED) AND CMD_F_CANCELED \<noteq> 0"
proof
  assume z: "(w OR CMD_F_CANCELED) AND CMD_F_CANCELED = 0"
  have "bit ((w OR CMD_F_CANCELED) AND CMD_F_CANCELED) 1" by (simp add: bit_simps)
  then show False unfolding z by simp
qed

lemma cancel_ioctl_steps:
  assumes inv: "cmd_inv [] s" and r: "ioctls s r = Some q"
  obtains s4 where "wlan_cancel_pending_ioctl enc r s
        = (if has_request r s then fail_request r MLAN_ERROR_CMD_CANCEL s4 else Some s4)"
    "completions s4 = completions s" "ioctls s4 = ioctls s" "curr_cmd s4 = curr_cmd s" "\<not> has_request r s4"
    "\<forall>i. curr_cmd s = Some i \<longrightarrow> pioctl_buf (nodes s i) = Some r \<longrightarrow> cmd_flag (nodes s4 i) AND CMD_F_CANCELED \<noteq> 0"
    "req_id q \<noteq> MLAN_IOCTL_SCAN \<longrightarrow> cmd_pending_q s4 = filter (\<lambda>i. pioctl_buf (nodes s i) \<noteq> Some r) (cmd_pending_q s)"
proof -
  have b: "req_bss_index q < length (cmd_ifaces s)"
    using inv r unfolding cmd_inv_def req_inv_def req_ok_def by blast
  let ?s1 = "if pscan_ioctl_req s = Some r then s\<lparr>pscan_ioctl_req := None\<rparr> else s"
  let ?f1 = "pscan_ioctl_req s = Some r"
  obtain p where 1: "(if pscan_ioctl_req s = Some r then do {
               x \<leftarrow> arr_get (cmd_ifaces s) (int (req_bss_index q));
               Some (case x of None \<Rightarrow> None | Some _ \<Rightarrow> Some (req_bss_index q), True, s\<lparr>pscan_ioctl_req := None\<rparr>) }
             else Some (None, False, s)) = Some (p, ?f1, ?s1)"
    using b by (cases ?f1) (simp_all add: arr_get_def)
  let ?cr = "case curr_cmd s of None \<Rightarrow> False | Some i \<Rightarrow> pioctl_buf (nodes s i) = Some r"
  define s2 where "s2 = (case curr_cmd s of None \<Rightarrow> ?s1 | Some i \<Rightarrow> if pioctl_buf (nodes s i) = Some r then mark_cancelled i ?s1 else ?s1)"
  have 2: "(case curr_cmd ?s1 of
               Some i \<Rightarrow> if pioctl_buf (nodes ?s1 i) = Some r then (True, mark_cancelled i ?s1) else (?f1, ?s1)
             | None \<Rightarrow> (?f1, ?s1)) = (?f1 \<or> ?cr, s2)"
    by (auto simp: s2_def split: option.split)
  have i1: "cmd_inv [] ?s1" using cmd_inv_clear_pscan [OF inv] inv by simp
  have i2: "cmd_inv [] s2"
    using i1 cmd_inv_mark_cancelled [OF i1] curr_queued [of ?s1] by (auto simp: s2_def split: option.split)
  have e2: "completions s2 = completions s" "ioctls s2 = ioctls s" "curr_cmd s2 = curr_cmd s" "cmd_pending_q s2 = cmd_pending_q s"
    "pscan_ioctl_req s2 = pscan_ioctl_req ?s1" "\<And>j. curr_cmd s \<noteq> Some j \<Longrightarrow> nodes s2 j = nodes s j"
    by (auto simp: s2_def mark_cancelled_def split: option.split)
  have c2: "pioctl_buf (nodes s2 i) \<noteq> Some r" if "curr_cmd s = Some i" for i
    using that by (auto simp: s2_def mark_cancelled_def split: if_splits)
  have fl: "cmd_flag (nodes s2 i) AND CMD_F_CANCELED \<noteq> 0" if "curr_cmd s = Some i" "pioctl_buf (nodes s i) = Some r" for i
    using that by (simp add: s2_def mark_cancelled_def cancelled_flag)
  have u2: "?f1 \<or> ?cr \<longrightarrow> unreferenced [] s2 (Some r)"
  proof (cases ?cr)
    case True
    then obtain i where i: "curr_cmd s = Some i" "pioctl_buf (nodes s i) = Some r" by (auto split: option.splits)
    then have "s2 = mark_cancelled i ?s1" "curr_cmd ?s1 = Some i" "pioctl_buf (nodes ?s1 i) = Some r"
      by (simp_all add: s2_def)
    then show ?thesis using mark_cancelled_unref [OF i1] by simp
  next
    case False
    then have "s2 = ?s1" by (auto simp: s2_def split: option.splits)
    then show ?thesis using False clear_pscan_unref(2) [OF inv] by simp
  qed
  obtain f3 s3 where 3: "cancel_ioctl_loop r (?f1 \<or> ?cr) s2 = Some (f3, s3)" "cmd_inv [] s3"
    using okpD [OF okp_cancel_ioctl_loop [OF i2 u2]] by auto
  have d2: "distinct (cmd_pending_q s2)" using cmd_inv_distinct(1) [OF i2] by (simp add: queued_def)
  note e3 = cancel_ioctl_loop_exact [OF 3(1) d2]
  have n2: "nodes s2 i = nodes s i" if "i \<in> set (cmd_pending_q s)" for i
    by (rule e2(6)) (use that cmd_inv_distinct(1) [OF inv] in \<open>auto simp: queued_def curr_list_def\<close>)
  have f3: "f3 = has_request r s" using e3 e2(4) n2 unfolding has_request_iff by auto
  have fq: "filter (\<lambda>i. pioctl_buf (nodes s2 i) \<noteq> Some r) (cmd_pending_q s) = filter (\<lambda>i. pioctl_buf (nodes s i) \<noteq> Some r) (cmd_pending_q s)"
    by (rule filter_cong) (use n2 in simp_all)
  have n3: "nodes s3 i = nodes s2 i" if "curr_cmd s = Some i" for i
  proof -
    have "i \<notin> set (cmd_pending_q s2)" using that cmd_inv_distinct(1) [OF inv] e2(4) by (auto simp: queued_def curr_list_def)
    then show ?thesis using e3 by simp
  qed
  obtain x s4 where 4: "(if req_id q = MLAN_IOCTL_SCAN then stop_scan enc p None s3
                      else Some (MLAN_STATUS_SUCCESS, s3)) = Some (x, s4)"
    and e4: "completions s4 = completions s3" "ioctls s4 = ioctls s3" "curr_cmd s4 = curr_cmd s3"
      "pscan_ioctl_req s4 = pscan_ioctl_req s3"
      "\<forall>j \<in> set (cmd_pending_q s4) - set (cmd_pending_q s3). pioctl_buf (nodes s4 j) = None"
      "\<forall>j \<in> set (cmd_pending_q s3) \<union> set (curr_list s3). nodes s4 j = nodes s3 j"
      "req_id q \<noteq> MLAN_IOCTL_SCAN \<Longrightarrow> s4 = s3"
  proof (cases "req_id q = MLAN_IOCTL_SCAN")
    case True
    obtain x s4 where s4: "stop_scan enc p None s3 = Some (x, s4)"
      using okpD [OF okp_stop_scan [OF 3(2) unreferenced_None, of enc p]] by auto
    show ?thesis by (rule that [of x s4]) (use True s4 stop_scan_exact [OF 3(2) s4] in simp_all)
  next
    case False
    then show ?thesis using that [of MLAN_STATUS_SUCCESS s3] by simp
  qed
  have n4: "nodes s4 i = nodes s2 i" if "curr_cmd s = Some i" for i
    using that e4(6) e3 e2(3) n3 [OF that] by (simp add: curr_list_def)
  have nh: "\<not> has_request r s4"
  proof -
    have "pscan_ioctl_req s4 \<noteq> Some r" using e4(4) e3 e2(5) by auto
    moreover have "pioctl_buf (nodes s4 i) \<noteq> Some r" if "curr_cmd s4 = Some i" for i
      using that n4 c2 e4(3) e3 e2(3) by simp
    moreover have "pioctl_buf (nodes s4 i) \<noteq> Some r" if "i \<in> set (cmd_pending_q s4)" for i
    proof (cases "i \<in> set (cmd_pending_q s3)")
      case True
      then have "nodes s4 i = nodes s3 i" "nodes s3 i = nodes s2 i" "pioctl_buf (nodes s2 i) \<noteq> Some r"
        using e4(6) e3 by auto
      then show ?thesis by simp
    next
      case False
      then show ?thesis using that e4(5) by simp
    qed
    ultimately show ?thesis by (auto simp: has_request_iff split: option.splits)
  qed
  have run: "wlan_cancel_pending_ioctl enc r s
      = (if has_request r s then fail_request r MLAN_ERROR_CMD_CANCEL s4 else Some s4)"
    unfolding wlan_cancel_pending_ioctl_def r option.case 1 bind.bind_lunit prod.case 2 Let_def 3(1) 4 f3 ..
  show thesis
    by (rule that [OF run _ _ _ nh]) (use e4 e3 e2 fq n4 fl in simp_all)
qed

text \<open>C19. Cancelling a request completes it once, as cancelled, exactly if it is the request of the scan, of the
  current command or of a pending command; nothing else is completed and no command carries the request afterwards.
  The current command keeps its node, and if it is not a scan, the other pending commands stay in order.\<close>

theorem cancel_ioctl_exact:
  assumes "cmd_reachable s" and "ioctls s r = Some q"
  shows "\<exists>s'. wlan_cancel_pending_ioctl enc r s = Some s'
       \<and> completions s' = completions s @ (if has_request r s then cancelled [r] else [])
       \<and> ioctls s' = (if has_request r s then (ioctls s)(r := None) else ioctls s)
       \<and> \<not> has_request r s' \<and> curr_cmd s' = curr_cmd s
       \<and> (req_id q \<noteq> MLAN_IOCTL_SCAN \<longrightarrow>
            cmd_pending_q s' = filter (\<lambda>i. pioctl_buf (nodes s i) \<noteq> Some r) (cmd_pending_q s))"
proof -
  obtain s4 where s4: "wlan_cancel_pending_ioctl enc r s
        = (if has_request r s then fail_request r MLAN_ERROR_CMD_CANCEL s4 else Some s4)"
    "completions s4 = completions s" "ioctls s4 = ioctls s" "curr_cmd s4 = curr_cmd s" "\<not> has_request r s4"
    "req_id q \<noteq> MLAN_IOCTL_SCAN \<longrightarrow> cmd_pending_q s4 = filter (\<lambda>i. pioctl_buf (nodes s i) \<noteq> Some r) (cmd_pending_q s)"
    by (rule cancel_ioctl_steps [OF reachable_cmd_inv [OF assms(1)] assms(2), of enc]) (rule that)
  show ?thesis
  proof (cases "has_request r s")
    case True
    let ?s = "note_call (Ioctl_complete r MLAN_ERROR_CMD_CANCEL MLAN_STATUS_FAILURE) (s4\<lparr>ioctls := (ioctls s)(r := None)\<rparr>)"
    have "fail_request r MLAN_ERROR_CMD_CANCEL s4 = Some ?s" using s4(3) assms(2) by (simp add: fail_request_eq)
    moreover have "\<not> has_request r ?s" using s4(5) by (simp add: has_request_iff split: option.splits)
    ultimately show ?thesis using True s4 by simp
  next
    case False
    then show ?thesis using s4 by simp
  qed
qed

text \<open>C33. If a request is cancelled while the response to its command is being matched, after the request has been read
  and before the queue lock is taken, the response code writes a status to the completed request.\<close>

theorem response_cancel_race:
  assumes "cmd_reachable s" and "curr_cmd s = Some i" and "pioctl_buf (nodes s i) = Some r"
    and "respbuf (nodes s i) = Some b" and "cmd_no (nodes s i) = ucast (hc_command (rb_resp b) AND HostCmd_CMD_ID_MASK)"
  shows "wlan_process_cmdresp ops (wlan_cancel_pending_ioctl enc r) s = None"
proof -
  let ?s = "stop_command_timer s"
  note inv = reachable_cmd_inv [OF assms(1)]
  have inv1: "cmd_inv [] ?s" using inv by simp
  have cur: "curr_cmd ?s = Some i" "pioctl_buf (nodes ?s i) = Some r" using assms(2,3) by simp_all
  obtain q where q: "ioctls ?s r = Some q"
    using cmd_inv_live [OF inv1, of i r] curr_queued [OF cur(1)] cur(2) by auto
  have has: "has_request r ?s" using cur by (simp add: has_request_iff)
  obtain s4 where s4: "wlan_cancel_pending_ioctl enc r ?s = fail_request r MLAN_ERROR_CMD_CANCEL s4"
    "ioctls s4 = ioctls ?s" "curr_cmd s4 = Some i" "cmd_flag (nodes s4 i) AND CMD_F_CANCELED \<noteq> 0"
    by (rule cancel_ioctl_steps [OF inv1 q, of enc]) (use has cur in auto)
  let ?t = "note_call (Ioctl_complete r MLAN_ERROR_CMD_CANCEL MLAN_STATUS_FAILURE) (s4\<lparr>ioctls := (ioctls ?s)(r := None)\<rparr>)"
  have "wlan_cancel_pending_ioctl enc r ?s = Some ?t" using s4(1,2) q by (simp add: fail_request_eq)
  then show ?thesis
    using assms(2-5) s4(3,4)
    by (simp add: wlan_process_cmdresp_def Let_def set_status_if_def set_status_code_def)
qed

text \<open>If an enhanced scan is cancelled while no command node is free, the caller is told that its request is
  pending although no command carries it: the request is neither refused nor ever completed.\<close>

theorem cancel_scan_pending_forever:
  assumes "cmd_reachable s" and "enhanced_scan s" and "curr_cmd s = None" and "cmd_free_q s = []"
    and "wlan_get_pending_scan_cmd s = None" and "pscan_ioctl_req s = Some r0" and "ioctls s r0 = Some q0"
    and "iface_present s (req_bss_index q0)" and "\<not> surprise_removed s" and "hw_status s \<noteq> WlanHardwareStatusReset"
    and "unreferenced [] s (Some r)"
  shows "\<exists>s'. wlan_cancel_pending_scan_cmd enc r s = Some (MLAN_STATUS_PENDING, s')
       \<and> completions s' = completions s @ cancelled [r0]
       \<and> ioctls s' r \<noteq> None \<and> unreferenced [] s' (Some r)"
proof -
  let ?s1 = "note_call (Ioctl_complete r0 MLAN_ERROR_CMD_CANCEL MLAN_STATUS_FAILURE)
      (s\<lparr>pscan_ioctl_req := None, ioctls := (ioctls s)(r0 := None)\<rparr>)"
  have r: "r \<noteq> r0" "ioctls s r \<noteq> None" using assms(6,11) by (auto simp: unreferenced_def)
  have "fail_request r0 MLAN_ERROR_CMD_CANCEL (s\<lparr>pscan_ioctl_req := None\<rparr>) = Some ?s1"
    using assms(7) by (simp add: fail_request_eq)
  then have 1: "cancel_scan_request s = Some (Some (req_bss_index q0), ?s1)"
    using assms(6-8) by (auto simp: cancel_scan_request_def iface_present_def arr_get_def)
  have 2: "cancel_curr_if P ?s1 = Some (None, ?s1)" for P using assms(3) by (simp add: cancel_curr_if_def)
  have "wlan_get_pending_scan_cmd ?s1 = None" using assms(5) by (simp add: wlan_get_pending_scan_cmd_def)
  then have 3: "cancel_scan_loop ?s1 = Some ?s1" by (subst cancel_scan_loop.simps) simp
  let ?d = "wlan_dump_info REASON_CODE_NO_CMD_NODE ?s1"
  have dl: "ioctls ?d r = ioctls s r" using r by simp
  then obtain q where q: "ioctls ?d r = Some q" using r by auto
  let ?s2 = "?d\<lparr>ioctls := (ioctls ?d)(r \<mapsto> q\<lparr>status_code := MLAN_ERROR_NO_MEM\<rparr>)\<rparr>"
  have "wlan_prepare_cmd enc \<lparr>rq_bss = Some (req_bss_index q0), rq_no = HostCmd_CMD_802_11_SCAN_EXT,
      rq_action = HostCmd_ACT_GEN_SET, rq_pioctl = Some r, rq_data = None\<rparr> ?s1 = Some (MLAN_STATUS_FAILURE, ?s2)"
    using assms(4,8-10) q
    by (simp add: wlan_prepare_cmd_def wlan_get_cmd_node_def set_status_if_def set_status_code_def iface_present_def)
  then have 4: "stop_scan enc (Some (req_bss_index q0)) (Some r) ?s1
      = Some (MLAN_STATUS_PENDING, wlan_recv_event (Some (req_bss_index q0)) MLAN_EVENT_ID_DRV_DEFER_HANDLING ?s2)"
    using assms(2) by (simp add: stop_scan_def)
  let ?s3 = "wlan_recv_event (Some (req_bss_index q0)) MLAN_EVENT_ID_DRV_DEFER_HANDLING ?s2"
  have "wlan_cancel_pending_scan_cmd enc r s = Some (MLAN_STATUS_PENDING, ?s3)"
    unfolding wlan_cancel_pending_scan_cmd_def 1 bind.bind_lunit prod.case 2 3 4 ..
  moreover have "completions ?s3 = completions s @ cancelled [r0]" by simp
  moreover have "ioctls ?s3 r \<noteq> None" by simp
  moreover have "unreferenced [] ?s3 (Some r)"
    using assms(11) by (simp add: unreferenced_def node_refs_def queued_def curr_list_def)
  ultimately show ?thesis by blast
qed

end
