(* ===== verification/Cmd_Life.thy ===== *)
theory Cmd_Life
  imports Cmd_Effects
begin

text \<open>
  The life of a command from its preparation to the completion of its request, and where it goes wrong: the empty pool,
  the commands without a response, the command timer, a scan for which there are not enough nodes.
\<close>

subsection \<open>Sending\<close>

fun command_of :: "cmd_call \<Rightarrow> (nat \<times> HostCmd_DS_COMMAND) option" where
  "command_of (Cmd_to_card i c) = Some (i, c)"
| "command_of _ = None"

definition sent :: "cmd_ctx \<Rightarrow> (nat \<times> HostCmd_DS_COMMAND) list" where
  "sent s = List.map_filter command_of (cmd_log s)"

lemma sent_cong: "cmd_log s' = cmd_log s \<Longrightarrow> sent s' = sent s"
  by (simp add: sent_def)

lemma sent_note [simp]: "sent (note_call c s) = sent s @ (case command_of c of None \<Rightarrow> [] | Some y \<Rightarrow> [y])"
  by (simp add: sent_def split: option.split)

lemma sent_upd_node [simp]: "sent (upd_node i f s) = sent s"
  by (rule sent_cong) simp

lemma sent_event [simp]: "sent (wlan_recv_event p e s) = sent s"
  by (simp add: wlan_recv_event_def split: option.split)

lemma sent_fields [simp]:
  "sent (s\<lparr>cmd_free_q := q\<rparr>) = sent s" "sent (s\<lparr>cmd_pending_q := q\<rparr>) = sent s" "sent (s\<lparr>curr_cmd := p\<rparr>) = sent s"
  "sent (s\<lparr>num_no_cmd_node := w\<rparr>) = sent s" "sent (s\<lparr>is_hs_configured := b\<rparr>) = sent s"
  "sent (s\<lparr>hs_activated := b\<rparr>) = sent s" "sent (s\<lparr>cmd_timer_is_set := b\<rparr>) = sent s" "sent (s\<lparr>ioctls := io\<rparr>) = sent s"
  "sent (s\<lparr>last_cmd_index := n\<rparr>) = sent s" "sent (s\<lparr>num_cmd_h2c_failure := v\<rparr>) = sent s" "sent (s\<lparr>cmd_seq_num := w\<rparr>) = sent s"
  "sent (s\<lparr>num_cmd_timeout := v\<rparr>) = sent s" "sent (s\<lparr>dbg_num_cmd_timeout := v\<rparr>) = sent s"
  "sent (s\<lparr>ext_scan_timeout := b\<rparr>) = sent s" "sent (s\<lparr>scan_pending_q := q\<rparr>) = sent s" "sent (s\<lparr>cmd_sent := b\<rparr>) = sent s"
  "sent (s\<lparr>last_cmd_id := l\<rparr>) = sent s" "sent (s\<lparr>last_cmd_act := l\<rparr>) = sent s"
  by (simp_all add: sent_def)

lemma sent_dump [simp]: "sent (wlan_dump_info k s) = sent s"
  by (simp add: wlan_dump_info_def Let_def)

lemma sent_clean [simp]: "sent (wlan_clean_cmd_node i s) = sent s"
  by (simp add: wlan_clean_cmd_node_def Let_def split: option.split)

text \<open>The command with the number it is sent with.\<close>

definition numbered :: "cmd_ctx \<Rightarrow> nat \<Rightarrow> HostCmd_DS_COMMAND" where
  "numbered s i =
     (case arr_get (cmd_ifaces s) (int (cn_priv (nodes s i))) of
        Some (Some ifc) \<Rightarrow> (cmdbuf (nodes s i))\<lparr>hc_seq_num :=
            HostCmd_SET_SEQ_NO_BSS_INFO (cmd_seq_num s + 1) (if_bss_num ifc) (if_bss_type ifc)\<rparr>
      | _ \<Rightarrow> cmdbuf (nodes s i))"

lemma numbered_pending [simp]: "numbered (s\<lparr>cmd_pending_q := q\<rparr>) i = numbered s i"
  by (simp add: numbered_def split: option.split)

text \<open>Neither a status code nor the release of a node sends a command or changes a queue of commands.\<close>

lemma insert_free_frame:
  "wlan_insert_cmd_to_free_q p s = Some s' \<Longrightarrow>
     sent s' = sent s \<and> cmd_pending_q s' = cmd_pending_q s \<and> curr_cmd s' = curr_cmd s"
  by (auto simp: wlan_insert_cmd_to_free_q_def complete_own_def moal_ioctl_complete_def Let_def monad_simps split: option.splits)

lemma status_frame:
  "set_status_if p c s = Some s' \<Longrightarrow>
     sent s' = sent s \<and> cmd_pending_q s' = cmd_pending_q s \<and> curr_cmd s' = curr_cmd s \<and> nodes s' = nodes s"
  by (auto simp: set_status_if_def set_status_code_def split: option.splits)

lemma dnld_sends:
  assumes "wlan_dnld_cmd_to_fw h2c i s = Some (ret, s')"
  shows "sent s' = sent s @ (if hc_size (cmdbuf (nodes s i)) = 0 then [] else [(i, numbered s i)])
       \<and> cmd_pending_q s' = cmd_pending_q s"
proof (cases "hc_size (cmdbuf (nodes s i)) = 0")
  case True
  then show ?thesis using assms
    by (auto simp: wlan_dnld_cmd_to_fw_def monad_simps dest!: insert_free_frame status_frame)
next
  case False
  then obtain ifc where ifc: "arr_get (cmd_ifaces s) (int (cn_priv (nodes s i))) = Some (Some ifc)"
    using assms by (auto simp: wlan_dnld_cmd_to_fw_def split: option.splits)
  let ?t = "command_to_card h2c i (upd_node i (\<lambda>n. n\<lparr>cmdbuf_offset := cmdbuf_offset n - INTF_HEADER_LEN,
                                        cmdbuf_len := cmdbuf_len n + INTF_HEADER_LEN\<rparr>) (stamp_command ifc i s))"
  have t: "sent ?t = sent s @ [(i, numbered s i)]" "cmd_pending_q ?t = cmd_pending_q s"
    by (simp_all add: command_to_card_def stamp_command_def numbered_def ifc Let_def upd_node_def note_call_def sent_def)
  show ?thesis
    using assms False t
    by (auto simp: wlan_dnld_cmd_to_fw_def ifc Let_def monad_simps split: if_splits
        dest!: insert_free_frame status_frame)
qed


lemma host_sleep_frame [simp]:
  "sent (wlan_host_sleep_activated_event p b s) = sent s"
  "cmd_pending_q (wlan_host_sleep_activated_event p b s) = cmd_pending_q s"
  by (auto simp: wlan_host_sleep_activated_event_def split: option.split)

text \<open>C18. One call sends at most one command, and only if none is outstanding and the card is awake: the head of the
  queue of pending commands, unless it is empty or malformed, with the next sequence number and the number and
  type of its interface.\<close>

theorem exec_next_sends_head:
  assumes "wlan_exec_next_cmd h2c s = Some (ret, s')"
  shows "if curr_cmd s = None \<and> ps_state s = PS_STATE_AWAKE \<and> cmd_pending_q s \<noteq> []
         then cmd_pending_q s' = tl (cmd_pending_q s)
            \<and> sent s' = sent s @ (let i = hd (cmd_pending_q s) in
                if hc_size (cmdbuf (nodes s i)) = 0 then [] else [(i, numbered s i)])
         else s' = s"
proof (cases "curr_cmd s = None \<and> ps_state s = PS_STATE_AWAKE \<and> cmd_pending_q s \<noteq> []")
  case True
  then obtain i q where q: "cmd_pending_q s = i # q" by (cases "cmd_pending_q s") auto
  obtain s1 where s1: "wlan_dnld_cmd_to_fw h2c i (s\<lparr>cmd_pending_q := q\<rparr>) = Some (ret, s1)"
    and s': "s' = (if any_priv s1 \<noteq> None \<and> hc_command (cmdbuf (nodes s1 i)) \<noteq> HostCmd_CMD_802_11_HS_CFG_ENH
                    \<and> hs_activated s1
                 then wlan_host_sleep_activated_event (any_priv s1) False (s1\<lparr>is_hs_configured := False\<rparr>)
                 else s1)"
    using assms True q by (auto simp: wlan_exec_next_cmd_def monad_simps simp del: not_None_eq)
  have "sent s1 = sent s @ (if hc_size (cmdbuf (nodes s i)) = 0 then [] else [(i, numbered s i)]) \<and> cmd_pending_q s1 = q"
    using dnld_sends [OF s1] by simp
  then show ?thesis using True q by (simp add: s' Let_def)
next
  case False
  then show ?thesis using assms by (auto simp: wlan_exec_next_cmd_def split: list.splits if_splits)
qed

subsection \<open>Preparing\<close>

text \<open>The node of a command that has been prepared with success.\<close>

definition filled :: "cmd_request \<Rightarrow> nat \<Rightarrow> HostCmd_DS_COMMAND \<Rightarrow> cmd_ctrl_node \<Rightarrow> cmd_ctrl_node" where
  "filled rq b c n = n\<lparr>cn_priv := b, cmd_no := ucast (rq_no rq), pioctl_buf := rq_pioctl rq, pdata_buf := rq_data rq,
                       cmdbuf_offset := INTF_HEADER_LEN, cmdbuf := c\<rparr>"

lemma prepare_success:
  assumes "cmd_free_q s = i # q" and "pmbuf (nodes s i)" and "rq_bss rq = Some b" and "iface_present s b"
    and "\<not> surprise_removed s" and "hw_status s \<noteq> WlanHardwareStatusReset" and "rq_no rq \<noteq> 0"
    and "enc (zero_cmd\<lparr>hc_command := rq_no rq\<rparr>) = (MLAN_STATUS_SUCCESS, c)"
  shows "wlan_prepare_cmd enc rq s
           = Some (MLAN_STATUS_SUCCESS,
                   queue_prepared rq i (upd_node i (filled rq b c) (s\<lparr>cmd_free_q := q, num_no_cmd_node := 0\<rparr>)))"
proof -
  have z: "zero_cmd\<lparr>hc_command := rq_no rq, hc_result := 0\<rparr> = zero_cmd\<lparr>hc_command := rq_no rq\<rparr>"
    by (simp add: zero_cmd_def)
  have u: "upd_node i f (upd_node i g t) = upd_node i (\<lambda>n. f (g n)) t" for f g t
    by (simp add: upd_node_def)
  show ?thesis
    using assms
    by (simp add: wlan_prepare_cmd_def wlan_get_cmd_node_def prepare_node_def wlan_init_cmd_node_def
        encode_prepared_def z u filled_def [abs_def])
qed

text \<open>Without a free node a command is refused: its request is told so but stays with the caller, nothing is
  queued, sent or completed.\<close>

theorem prepare_without_node:
  assumes "cmd_reachable s" and "cmd_free_q s = []" and "rq_bss rq = Some b" and "iface_present s b"
    and "\<not> surprise_removed s" and "hw_status s \<noteq> WlanHardwareStatusReset" and "unreferenced [] s (rq_pioctl rq)"
  shows "\<exists>s'. wlan_prepare_cmd enc rq s = Some (MLAN_STATUS_FAILURE, s')
       \<and> queued s' = queued s \<and> nodes s' = nodes s \<and> sent s' = sent s \<and> completions s' = completions s
       \<and> (case rq_pioctl rq of
            None \<Rightarrow> ioctls s' = ioctls s
          | Some r \<Rightarrow> ioctls s' = (ioctls s)(r := map_option (\<lambda>q. q\<lparr>status_code := MLAN_ERROR_NO_MEM\<rparr>) (ioctls s r)))"
proof -
  let ?s = "wlan_dump_info REASON_CODE_NO_CMD_NODE s"
  have "okp (set_status_if (rq_pioctl rq) MLAN_ERROR_NO_MEM ?s) (\<lambda>_. True)"
    using assms(7) by (auto simp: set_status_if_def set_status_code_def unreferenced_def split: option.split)
  from okpD [OF this] obtain s' where s': "set_status_if (rq_pioctl rq) MLAN_ERROR_NO_MEM ?s = Some s'" by auto
  then have "wlan_prepare_cmd enc rq s = Some (MLAN_STATUS_FAILURE, s')"
    using assms by (simp add: wlan_prepare_cmd_def wlan_get_cmd_node_def)
  moreover have "queued s' = queued s" using set_status_queued [OF s'] by simp
  ultimately show ?thesis
    using s' set_status_exact [OF s'] status_frame [OF s']
    by (auto simp: set_status_if_def set_status_code_def split: option.splits)
qed

text \<open>A scan with more groups of channels than free nodes.\<close>

definition scan_frame :: "cmd_ctx \<Rightarrow> cmd_ctx \<Rightarrow> bool" where
  "scan_frame s s' \<longleftrightarrow> cmd_pending_q s' = cmd_pending_q s \<and> curr_cmd s' = curr_cmd s \<and> ioctls s' = ioctls s
     \<and> cmd_ifaces s' = cmd_ifaces s \<and> surprise_removed s' = surprise_removed s \<and> hw_status s' = hw_status s
     \<and> (\<forall>j. j \<notin> set (cmd_free_q s) \<longrightarrow> nodes s' j = nodes s j)"

lemma scan_frame_trans:
  "scan_frame s t \<Longrightarrow> scan_frame t u \<Longrightarrow> set (cmd_free_q t) \<subseteq> set (cmd_free_q s) \<Longrightarrow> scan_frame s u"
  unfolding scan_frame_def by auto

lemma scan_list_exhausted:
  assumes "cmd_inv [] s" and "iface_present s b" and "\<not> surprise_removed s" and "hw_status s \<noteq> WlanHardwareStatusReset"
    and "ext_scan_type s \<noteq> EXT_SCAN_ENHANCE" and "\<forall>(ok, enc) \<in> set gs. ok \<and> (\<forall>c. fst (enc c) = MLAN_STATUS_SUCCESS)"
    and "length (cmd_free_q s) < length gs"
  shows "\<exists>s'. wlan_scan_channel_list b pio gs s = Some (MLAN_STATUS_FAILURE, s')
       \<and> cmd_free_q s' = [] \<and> scan_pending_q s' = scan_pending_q s @ cmd_free_q s
       \<and> pscan_ioctl_req s' = pscan_ioctl_req s \<and> scan_processing s' = scan_processing s
       \<and> scan_frame s s'"
  using assms
proof (induction gs arbitrary: s)
  case (Cons g gs)
  obtain ok enc where g: "g = (ok, enc)" by (cases g)
  let ?no = "if ext_scan s then HostCmd_CMD_802_11_SCAN_EXT else HostCmd_CMD_802_11_SCAN"
  let ?rq = "\<lparr>rq_bss = Some b, rq_no = ?no, rq_action = HostCmd_ACT_GEN_SET, rq_pioctl = None, rq_data = None\<rparr>"
  have no: "?no \<noteq> 0" "?no = HostCmd_CMD_802_11_SCAN \<or> ?no = HostCmd_CMD_802_11_SCAN_EXT" by simp_all
  have ok: ok using Cons.prems(6) g by simp
  show ?case
  proof (cases "cmd_free_q s")
    case Nil
    let ?s = "wlan_dump_info REASON_CODE_NO_CMD_NODE s"
    have "wlan_prepare_cmd enc ?rq s = Some (MLAN_STATUS_FAILURE, ?s)"
      using Cons.prems Nil by (simp add: wlan_prepare_cmd_def wlan_get_cmd_node_def set_status_if_def)
    then show ?thesis using ok g Nil
      by (simp add: scan_frame_def) (simp add: wlan_dump_info_def wlan_recv_event_def Let_def split: option.split)
  next
    case c: (Cons i q)
    have pm: "pmbuf (nodes s i)"
    proof -
      have "i < MRVDRV_NUM_OF_CMD_BUFFER" using cmd_inv_distinct(2) [OF Cons.prems(1)] c by auto
      then show ?thesis using Cons.prems(1) by (simp add: cmd_inv_def node_inv_def)
    qed
    obtain cb where cb: "enc (zero_cmd\<lparr>hc_command := ?no\<rparr>) = (MLAN_STATUS_SUCCESS, cb)"
    proof -
      have "fst (enc c) = MLAN_STATUS_SUCCESS" for c using Cons.prems(6) g by simp
      then show thesis using that [of "snd (enc (zero_cmd\<lparr>hc_command := ?no\<rparr>))"] by (metis prod.collapse)
    qed
    let ?s1 = "queue_prepared ?rq i (upd_node i (filled ?rq b cb) (s\<lparr>cmd_free_q := q, num_no_cmd_node := 0\<rparr>))"
    have p: "wlan_prepare_cmd enc ?rq s = Some (MLAN_STATUS_SUCCESS, ?s1)"
      by (rule prepare_success) (use c pm Cons.prems cb no in simp_all)
    have "okp (wlan_prepare_cmd enc ?rq s) (prepared [] s)"
      by (rule okp_prepare_own [OF Cons.prems(1)]) (use no in simp_all)
    then have inv1: "cmd_inv [] ?s1" unfolding p by (simp add: prepared_def)
    have e: "cmd_free_q ?s1 = q" "scan_pending_q ?s1 = scan_pending_q s @ [i]" "pscan_ioctl_req ?s1 = pscan_ioctl_req s"
      "scan_processing ?s1 = scan_processing s" "surprise_removed ?s1 = surprise_removed s" "hw_status ?s1 = hw_status s"
      "ext_scan_type ?s1 = ext_scan_type s" "cmd_ifaces ?s1 = cmd_ifaces s"
      using no Cons.prems(5) by (auto simp: queue_prepared_def wlan_queue_scan_cmd_def Let_def upd_node_def)
    have fr: "scan_frame s ?s1"
      using no Cons.prems(5) c by (auto simp: scan_frame_def queue_prepared_def wlan_queue_scan_cmd_def Let_def upd_node_def)
    have "\<exists>s'. wlan_scan_channel_list b pio gs ?s1 = Some (MLAN_STATUS_FAILURE, s')
       \<and> cmd_free_q s' = [] \<and> scan_pending_q s' = scan_pending_q ?s1 @ cmd_free_q ?s1
       \<and> pscan_ioctl_req s' = pscan_ioctl_req ?s1 \<and> scan_processing s' = scan_processing ?s1
       \<and> scan_frame ?s1 s'"
      by (rule Cons.IH [OF inv1]) (use Cons.prems e c in \<open>simp_all add: iface_present_def\<close>)
    then obtain s' where s': "wlan_scan_channel_list b pio gs ?s1 = Some (MLAN_STATUS_FAILURE, s')"
      "cmd_free_q s' = []" "scan_pending_q s' = scan_pending_q s @ i # q" "pscan_ioctl_req s' = pscan_ioctl_req s"
      "scan_processing s' = scan_processing s" "scan_frame ?s1 s'" using e by auto
    have "scan_frame s s'" by (rule scan_frame_trans [OF fr s'(6)]) (use e c in auto)
    then show ?thesis using ok g p c s' by simp
  qed
qed simp

text \<open>A scan that needs more commands than there are free nodes fails and leaves the commands it has prepared in the
  queue of the scan: all nodes are taken, no scan is running that would send or flush them, and the next command of
  anybody is refused.\<close>

theorem failed_scan_takes_all_nodes:
  assumes "cmd_reachable s" and "iface_present s b" and "\<not> surprise_removed s" and "hw_status s \<noteq> WlanHardwareStatusReset"
    and "ext_scan_type s \<noteq> EXT_SCAN_ENHANCE" and "\<forall>(ok, enc) \<in> set gs. ok \<and> (\<forall>c. fst (enc c) = MLAN_STATUS_SUCCESS)"
    and "length (cmd_free_q s) < length gs"
  shows "\<exists>s'. wlan_scan_networks b pio gs s = Some (MLAN_STATUS_FAILURE, s')
       \<and> cmd_free_q s' = [] \<and> scan_pending_q s' = scan_pending_q s @ cmd_free_q s
       \<and> pscan_ioctl_req s' = pscan_ioctl_req s \<and> scan_processing s' = scan_processing s"
proof -
  have "gs \<noteq> []" using assms(7) by auto
  then show ?thesis
    using scan_list_exhausted [OF reachable_cmd_inv [OF assms(1)] assms(2-7), of pio]
    by (auto simp: wlan_scan_networks_def)
qed

subsection \<open>Commands without a response, and the timer\<close>

text \<open>The command as it is on the bus: current, numbered, its length with the header of the interface.\<close>

lemma on_bus_fields:
  "curr_cmd (on_bus h2c ifc i s) = Some i" "cmd_pending_q (on_bus h2c ifc i s) = cmd_pending_q s"
  "cmd_timer_is_set (on_bus h2c ifc i s) = cmd_timer_is_set s" "hs_activated (on_bus h2c ifc i s) = hs_activated s"
  "pioctl_buf (nodes (on_bus h2c ifc i s) i) = pioctl_buf (nodes s i)" "ps_state (on_bus h2c ifc i s) = ps_state s"
  "ioctls (on_bus h2c ifc i s) = ioctls s" "completions (on_bus h2c ifc i s) = completions s"
  by (simp_all add: on_bus_def command_to_card_def stamp_command_def Let_def upd_node_def note_call_def completions_def)

lemma dnld_no_response:
  assumes "arr_get (cmd_ifaces s) (int (cn_priv (nodes s i))) = Some (Some ifc)" and "hc_size (cmdbuf (nodes s i)) \<noteq> 0"
    and "h2c \<noteq> MLAN_STATUS_FAILURE" and "pioctl_buf (nodes s i) = None"
    and "hc_command (cmdbuf (nodes s i)) AND HostCmd_CMD_ID_MASK \<in> {HostCmd_CMD_FW_DUMP_EVENT, HostCmd_CMD_SOFT_RESET}"
  shows "wlan_dnld_cmd_to_fw h2c i s = Some (h2c, on_bus h2c ifc i s)"
proof -
  have "pioctl_buf (nodes (on_bus h2c ifc i s) i) = None" using assms(4) by (simp add: on_bus_fields)
  then show ?thesis using assms by (auto simp: wlan_dnld_cmd_to_fw_def on_bus_def Let_def)
qed

text \<open>C34. A firmware dump or soft reset without a request has no response, and its node is not released: it stays the
  current command, no timer is started for it, and no command is sent any more.\<close>

theorem reset_command_blocks:
  assumes "curr_cmd s = None" and "ps_state s = PS_STATE_AWAKE" and "cmd_pending_q s = i # q" and "\<not> hs_activated s"
    and "arr_get (cmd_ifaces s) (int (cn_priv (nodes s i))) = Some (Some ifc)" and "hc_size (cmdbuf (nodes s i)) \<noteq> 0"
    and "h2c \<noteq> MLAN_STATUS_FAILURE" and "pioctl_buf (nodes s i) = None"
    and "hc_command (cmdbuf (nodes s i)) AND HostCmd_CMD_ID_MASK \<in> {HostCmd_CMD_FW_DUMP_EVENT, HostCmd_CMD_SOFT_RESET}"
  shows "\<exists>s'. wlan_exec_next_cmd h2c s = Some (h2c, s') \<and> curr_cmd s' = Some i \<and> cmd_timer_is_set s' = cmd_timer_is_set s
       \<and> (\<forall>h. wlan_exec_next_cmd h s' = Some (MLAN_STATUS_FAILURE, s'))
       \<and> (\<exists>s''. wlan_cmd_timeout_func s' = Some s'' \<and> curr_cmd s'' = Some i)"
proof -
  let ?s = "s\<lparr>cmd_pending_q := q\<rparr>"
  let ?t = "on_bus h2c ifc i ?s"
  have "wlan_dnld_cmd_to_fw h2c i ?s = Some (h2c, ?t)" by (rule dnld_no_response) (use assms in simp_all)
  then have "wlan_exec_next_cmd h2c s = Some (h2c, ?t)"
    using assms(1-4) by (simp add: wlan_exec_next_cmd_def on_bus_fields)
  moreover have "wlan_exec_next_cmd h ?t = Some (MLAN_STATUS_FAILURE, ?t)" for h
    by (simp add: wlan_exec_next_cmd_def on_bus_fields)
  moreover have "\<exists>s''. wlan_cmd_timeout_func ?t = Some s'' \<and> curr_cmd s'' = Some i"
    using assms(8) by (simp add: wlan_cmd_timeout_func_def Let_def on_bus_fields set_status_if_def)
  ultimately show ?thesis using assms(1) by (auto simp: on_bus_fields)
qed

text \<open>When the timer of a command runs out, its request is given the status of a timeout, but nothing is sent again,
  completed or released: the command stays current and the queues stay as they are.\<close>

theorem timeout_does_not_resend:
  assumes "cmd_reachable s" and "curr_cmd s = Some i"
  shows "\<exists>s'. wlan_cmd_timeout_func s = Some s' \<and> sent s' = sent s \<and> completions s' = completions s
       \<and> curr_cmd s' = Some i \<and> queued s' = queued s \<and> \<not> cmd_timer_is_set s'
       \<and> (case pioctl_buf (nodes s i) of
            None \<Rightarrow> ioctls s' = ioctls s
          | Some r \<Rightarrow> ioctls s' = (ioctls s)(r := map_option (\<lambda>q. q\<lparr>status_code := MLAN_ERROR_CMD_TIMEOUT\<rparr>) (ioctls s r)))"
proof -
  let ?s = "s\<lparr>cmd_timer_is_set := False, num_cmd_timeout := num_cmd_timeout s + 1,
      dbg_num_cmd_timeout := dbg_num_cmd_timeout s + 1\<rparr>"
  have "okp (set_status_if (pioctl_buf (nodes s i)) MLAN_ERROR_CMD_TIMEOUT ?s) (\<lambda>_. True)"
    using cmd_inv_live [OF reachable_cmd_inv [OF assms(1)], of i] curr_queued [OF assms(2)]
    by (auto simp: set_status_if_def set_status_code_def split: option.split)
  from okpD [OF this] obtain s1 where s1: "set_status_if (pioctl_buf (nodes s i)) MLAN_ERROR_CMD_TIMEOUT ?s = Some s1" by auto
  let ?t = "wlan_dump_info REASON_CODE_CMD_TIMEOUT s1"
  let ?u = "if hw_status ?t = WlanHardwareStatusInitializing \<or> hw_status ?t = WlanHardwareStatusGetHwSpec
            then note_call Init_fw_complete ?t
            else wlan_recv_event (Some (cn_priv (nodes ?t i))) MLAN_EVENT_ID_DRV_DBG_DUMP ?t"
  have "wlan_cmd_timeout_func s = Some ?u" using s1 assms(2) by (simp add: wlan_cmd_timeout_func_def Let_def)
  moreover have "sent s1 = sent s" "completions s1 = completions s" "curr_cmd s1 = Some i" "queued s1 = queued s"
    "\<not> cmd_timer_is_set s1"
    using s1 assms(2)
    by (auto simp: set_status_if_def set_status_code_def sent_def completions_def queued_def curr_list_def split: option.splits)
  moreover have "ioctls s1 = (case pioctl_buf (nodes s i) of None \<Rightarrow> ioctls s
      | Some r \<Rightarrow> (ioctls s)(r := map_option (\<lambda>q. q\<lparr>status_code := MLAN_ERROR_CMD_TIMEOUT\<rparr>) (ioctls s r)))"
    using s1 by (auto simp: set_status_if_def set_status_code_def split: option.splits)
  moreover have "\<not> cmd_timer_is_set ?t = (\<not> cmd_timer_is_set s1)"
    by (simp add: wlan_dump_info_def wlan_recv_event_def Let_def split: option.split)
  ultimately show ?thesis by (auto simp: wlan_recv_event_def split: option.split)
qed

subsection \<open>The response\<close>

lemma event_hw [simp]: "hw_status (wlan_recv_event p e s) = hw_status s"
  by (simp add: wlan_recv_event_def split: option.split)

lemma dump_hw [simp]: "hw_status (wlan_dump_info k s) = hw_status s"
  by (simp add: wlan_dump_info_def Let_def)

lemma clean_hw [simp]: "hw_status (wlan_clean_cmd_node i s) = hw_status s"
  by (simp add: wlan_clean_cmd_node_def Let_def split: option.split)

lemma status_hw: "set_status_if p c s = Some s' \<Longrightarrow> hw_status s' = hw_status s"
  by (auto simp: set_status_if_def set_status_code_def split: option.splits)

lemma insert_free_hw: "wlan_insert_cmd_to_free_q p s = Some s' \<Longrightarrow> hw_status s' = hw_status s"
  by (auto simp: wlan_insert_cmd_to_free_q_def complete_own_def moal_ioctl_complete_def Let_def monad_simps split: option.splits)

lemma prepare_hw: "wlan_prepare_cmd enc rq s = Some (ret, s') \<Longrightarrow> hw_status s' = hw_status s"
proof -
  have q: "hw_status (queue_prepared rq i t) = hw_status t" for i t
    by (simp add: queue_prepared_def wlan_insert_cmd_to_pending_q_def wlan_queue_scan_cmd_def Let_def)
  have n: "hw_status t' = hw_status t" if p: "prepare_node enc rq b i t = Some (ret, t')" for b i t t'
  proof -
    obtain s1 ret2 s2 where s1: "wlan_init_cmd_node b i (ucast (rq_no rq)) (rq_pioctl rq) (rq_data rq) (t\<lparr>num_no_cmd_node := 0\<rparr>) = Some s1"
      and s2: "encode_prepared enc rq i s1 = Some (ret2, s2)"
      and t': "(if ret2 \<noteq> MLAN_STATUS_SUCCESS then do { s3 \<leftarrow> abandon_node rq i s2; Some (MLAN_STATUS_FAILURE, s3) }
                else Some (MLAN_STATUS_SUCCESS, queue_prepared rq i s2)) = Some (ret, t')"
      using p unfolding prepare_node_def by (auto simp: monad_simps)
    have 1: "hw_status s1 = hw_status t" using s1 by (auto simp: wlan_init_cmd_node_def split: if_splits)
    have 2: "hw_status s2 = hw_status s1" using encode_exact [OF s2] by auto
    have 3: "hw_status s3 = hw_status s2" if "abandon_node rq i s2 = Some s3" for s3
      using that by (auto simp: abandon_node_def monad_simps dest!: status_hw insert_free_hw)
    show ?thesis using t' 1 2 3 q by (auto simp: monad_simps split: if_splits)
  qed
  assume "wlan_prepare_cmd enc rq s = Some (ret, s')"
  then show ?thesis
    by (auto simp: wlan_prepare_cmd_def wlan_get_cmd_node_def monad_simps split: option.splits if_splits list.splits
        dest!: status_hw n)
qed

text \<open>A handler neither completes a request nor creates one.\<close>

definition handler_frame :: "cmd_ctx \<Rightarrow> cmd_ctx \<Rightarrow> bool" where
  "handler_frame s s' \<longleftrightarrow> completions s' = completions s \<and> (\<forall>x. ioctls s' x = None \<longleftrightarrow> ioctls s x = None)
     \<and> hw_status s' = hw_status s"

lemma handler_frame_trans: "handler_frame s t \<Longrightarrow> handler_frame t u \<Longrightarrow> handler_frame s u"
  by (simp add: handler_frame_def)

lemma prepare_handler_frame:
  assumes "cmd_inv [] s" and "wlan_prepare_cmd enc rq s = Some (ret, s1)"
  shows "handler_frame s s1"
  using prepare_queues [OF assms] prepare_hw [OF assms(2)] by (auto simp: queues_into_def handler_frame_def)

lemma prepare_own_inv:
  assumes "cmd_inv h s" and "wlan_prepare_cmd enc rq s = Some (ret, s1)" and "rq_pioctl rq = None"
    and "rq_no rq = 0 \<longrightarrow> rq_data rq \<noteq> None"
  shows "cmd_inv h s1"
  using okp_prepare_own [OF assms(1,3,4), of enc] assms(2) by (simp add: prepared_def)

lemma run_acts_frame:
  "run_acts pio as s = Some s' \<Longrightarrow> cmd_inv [] s \<Longrightarrow> pio = None \<or> curr_request pio s \<Longrightarrow> handler_frame s s'"
proof (induction pio "as" s rule: run_acts.induct)
  case (1 pio s)
  then show ?case by (simp add: handler_frame_def)
next
  case (2 pio enc b no act "as" s)
  show ?case
  proof (cases "no = 0")
    case True
    then show ?thesis using 2 by simp
  next
    case False
    let ?rq = "\<lparr>rq_bss = Some b, rq_no = no, rq_action = act, rq_pioctl = None, rq_data = None\<rparr>"
    obtain ret s1 where s1: "wlan_prepare_cmd enc ?rq s = Some (ret, s1)" and l: "run_acts pio as s1 = Some s'"
      using 2(3) False by (auto simp: monad_simps)
    have "okp (wlan_prepare_cmd enc ?rq s) (prepared [] s)" by (rule okp_prepare_own [OF 2(4)]) (use False in simp_all)
    then have f: "cmd_inv [] s1 \<and> keeps_curr s s1" using s1 prepared_fields by simp
    have "handler_frame s1 s'" by (rule 2(2) [OF False s1 refl l]) (use f 2(5) curr_request_keeps in auto)
    then show ?thesis using prepare_handler_frame [OF 2(4) s1] handler_frame_trans by blast
  qed
next
  case (3 pio b d "as" s)
  let ?rq = "\<lparr>rq_bss = Some b, rq_no = 0, rq_action = 0, rq_pioctl = None, rq_data = Some d\<rparr>"
  let ?enc = "\<lambda>c. (MLAN_STATUS_SUCCESS, c)"
  obtain ret s1 where s1: "wlan_prepare_cmd ?enc ?rq s = Some (ret, s1)" and l: "run_acts pio as s1 = Some s'"
    using 3(2) by (auto simp: monad_simps)
  have "okp (wlan_prepare_cmd ?enc ?rq s) (prepared [] s)" by (rule okp_prepare_own [OF 3(3)]) simp_all
  then have f: "cmd_inv [] s1 \<and> keeps_curr s s1" using s1 prepared_fields by simp
  have "handler_frame s1 s'" by (rule 3(1) [OF s1 refl l]) (use f 3(4) curr_request_keeps in auto)
  then show ?case using prepare_handler_frame [OF 3(3) s1] handler_frame_trans by blast
next
  case (4 pio c "as" s)
  obtain s1 where s1: "set_status_if pio c s = Some s1" and l: "run_acts pio as s1 = Some s'"
    using 4(2) by (auto simp: monad_simps)
  have f: "handler_frame s s1"
    using set_status_exact [OF s1] status_hw [OF s1] by (simp add: handler_frame_def)
  have "cmd_inv [] s1 \<and> (pio = None \<or> curr_request pio s1)"
  proof (cases "pio = None")
    case True
    then show ?thesis using s1 4(3) by (simp add: set_status_if_def)
  next
    case False
    then show ?thesis using okp_status_curr [OF 4(3), of pio c] 4(4) s1 by auto
  qed
  then have "handler_frame s1 s'" by (intro 4(1) [OF s1 l]) simp_all
  then show ?case using f handler_frame_trans by blast
next
  case (5 pio no "as" s)
  have "handler_frame (s\<lparr>last_init_cmd := no\<rparr>) s'"
    by (rule 5(1)) (use 5(2-4) in \<open>auto simp: curr_request_def split: option.splits\<close>)
  then show ?case by (simp add: handler_frame_def completions_def)
qed

text \<open>The release of the node completes its request.\<close>

lemma release_completes:
  assumes "curr_cmd s = Some i" and "pioctl_buf (nodes s i) = Some r" and "ioctls s r = Some q"
    and "ret = MLAN_STATUS_SUCCESS \<or> ret = MLAN_STATUS_FAILURE"
  shows "\<exists>s'. release_response ret s = Some s' \<and> ioctls s' = (ioctls s)(r := None) \<and> curr_cmd s' = None
       \<and> cmd_free_q s' = cmd_free_q s @ [i] \<and> hw_status s' = hw_status s
       \<and> completions s' = completions s @ [if ret = MLAN_STATUS_SUCCESS then (r, MLAN_ERROR_NO_ERROR, MLAN_STATUS_SUCCESS)
            else (r, if status_code q = 0 then MLAN_ERROR_CMD_RESP_FAIL else status_code q, MLAN_STATUS_FAILURE)]"
proof -
  let ?c = "if ret = MLAN_STATUS_SUCCESS then MLAN_ERROR_NO_ERROR
            else if status_code q = 0 then MLAN_ERROR_CMD_RESP_FAIL else status_code q"
  let ?s = "s\<lparr>ioctls := (ioctls s)(r \<mapsto> q\<lparr>status_code := ?c\<rparr>)\<rparr>"
  have id: "s\<lparr>ioctls := (ioctls s)(r \<mapsto> q\<lparr>status_code := status_code q\<rparr>)\<rparr> = s"
    using assms(3) by (simp add: fun_upd_idem)
  have "release_response ret s = wlan_insert_cmd_to_free_q (Some i) (?s\<lparr>curr_cmd := None\<rparr>)"
    using assms id by (auto simp: release_response_def set_status_code_def)
  also have "\<dots> = Some (let t = wlan_clean_cmd_node i (note_call (Ioctl_complete r ?c
        (if ?c \<noteq> 0 then MLAN_STATUS_FAILURE else MLAN_STATUS_SUCCESS))
        (?s\<lparr>curr_cmd := None, ioctls := (ioctls s)(r := None)\<rparr>)) in t\<lparr>cmd_free_q := cmd_free_q s @ [i]\<rparr>)"
    using assms(2) by (simp add: wlan_insert_cmd_to_free_q_def complete_own_def moal_ioctl_complete_def Let_def)
  finally show ?thesis using assms(4) by (auto simp: Let_def)
qed

text \<open>C9. The ordinary response.  The current command, which has a request, was neither cancelled nor sent as a raw host command;
  it is none of SCAN, SCAN_EXT and HS_CFG_ENH, whose responses have a life of their own; there is an interface; the hardware
  is past its initialisation (during which the failure of a response takes another path, which releases no node); and the
  response is well-formed: it carries the return bit, the number of the command and the result 0.  Then it completes the
  request exactly once, with the status that the handler of the response returns (for whatever state) and a status code that is clear exactly
  if the handler succeeded, and releases the node, whatever further commands the handler prepares.\<close>

theorem response_completes_request:
  fixes b :: resp_buffer
  defines "no \<equiv> hc_command (rb_resp b) AND HostCmd_CMD_ID_MASK"
  assumes "cmd_reachable s" and "curr_cmd s = Some i" and "pioctl_buf (nodes s i) = Some r" and "respbuf (nodes s i) = Some b"
    and "cmd_no (nodes s i) = ucast no" and "cmd_flag (nodes s i) AND CMD_F_CANCELED = 0"
    and "cmd_flag (nodes s i) AND CMD_F_HOSTCMD = 0"
    and "hc_command (rb_resp b) AND HostCmd_RET_BIT \<noteq> 0" and "hc_result (rb_resp b) = 0"
    and "no \<notin> {HostCmd_CMD_802_11_SCAN, HostCmd_CMD_802_11_SCAN_EXT, HostCmd_CMD_802_11_HS_CFG_ENH}"
    and "hw_status s \<notin> {WlanHardwareStatusInitializing, WlanHardwareStatusGetHwSpec}" and "any_priv s \<noteq> None"
    and "\<forall>t. fst (op_resp ops no ((rb_resp b)\<lparr>hc_command := no\<rparr>) t) = ret"
    and "ret = MLAN_STATUS_SUCCESS \<or> ret = MLAN_STATUS_FAILURE"
  shows "\<exists>s' c. wlan_process_cmdresp ops Some s = Some (ret, s') \<and> completions s' = completions s @ [(r, c, ret)]
       \<and> (c = MLAN_ERROR_NO_ERROR \<longleftrightarrow> ret = MLAN_STATUS_SUCCESS) \<and> ioctls s' r = None
       \<and> curr_cmd s' = None \<and> i \<in> set (cmd_free_q s')"
proof -
  let ?resp = "(rb_resp b)\<lparr>hc_command := no\<rparr>"
  let ?s = "stop_command_timer s"
  have st: "any_priv ?s \<noteq> None" "ioctls ?s = ioctls s" "hw_status ?s = hw_status s" "completions ?s = completions s"
    using assms(13) by (simp_all add: stop_command_timer_def note_call_def any_priv_def completions_def)
  obtain bss where bss: "(case wlan_get_priv_by_id (HostCmd_GET_BSS_NO (hc_seq_num ?resp)) (HostCmd_GET_BSS_TYPE (hc_seq_num ?resp)) ?s
              of Some b \<Rightarrow> Some b | None \<Rightarrow> any_priv ?s) = Some bss"
    using st(1) by (cases "wlan_get_priv_by_id (HostCmd_GET_BSS_NO (hc_seq_num ?resp)) (HostCmd_GET_BSS_TYPE (hc_seq_num ?resp)) ?s") auto
  let ?k = "(last_cmd_resp_index ?s + 1) mod DBG_CMD_NUM"
  let ?t = "?s\<lparr>last_cmd_resp_index := ?k, last_cmd_resp_id := (last_cmd_resp_id ?s)[?k := hc_command (rb_resp b)]\<rparr>"
  have inv: "cmd_inv [] ?t" using reachable_cmd_inv [OF assms(2)] by simp
  have cr: "curr_request (Some r) ?t" using assms(3,4) by (simp add: curr_request_def)
  let ?acts = "snd (op_resp ops no ?resp ?t)"
  obtain s3 where s3: "run_acts (Some r) ?acts ?t = Some s3" and k: "cmd_inv [] s3" "keeps_curr ?t s3"
    using okpD [OF okp_run_acts [OF inv, of "Some r" ?acts]] cr by auto
  have f: "handler_frame ?t s3" by (rule run_acts_frame [OF s3 inv]) (use cr in simp)
  have h: "run_handler (Some r) (op_resp ops no ?resp ?t) ?t = Some (ret, s3)"
    using s3 assms(14) by (simp add: run_handler_def)
  have c3: "curr_cmd s3 = Some i" "pioctl_buf (nodes s3 i) = Some r" "hw_status s3 \<notin> {WlanHardwareStatusInitializing, WlanHardwareStatusGetHwSpec}"
    using k(2) f assms(3,4,12) st(3) by (simp_all add: keeps_curr_def handler_frame_def)
  obtain q where q: "ioctls s3 r = Some q" using cmd_inv_live [OF k(1), of i r] curr_queued [OF c3(1)] c3(2) by auto
  obtain s4 where s4: "release_response ret s3 = Some s4" "ioctls s4 = (ioctls s3)(r := None)" "curr_cmd s4 = None"
      "cmd_free_q s4 = cmd_free_q s3 @ [i]" "hw_status s4 = hw_status s3"
      "completions s4 = completions s3 @ [if ret = MLAN_STATUS_SUCCESS then (r, MLAN_ERROR_NO_ERROR, MLAN_STATUS_SUCCESS)
            else (r, if status_code q = 0 then MLAN_ERROR_CMD_RESP_FAIL else status_code q, MLAN_STATUS_FAILURE)]"
    using release_completes [OF c3(1,2) q assms(15)] by blast
  have "handle_response ops (rb_resp b) (Some r) i ?s = Some (ret, s4)"
    using assms(7-11) bss h s4(1) c3(3) s4(5)
    by (simp add: handle_response_def Let_def no_def wlan_ops_sta_process_cmdresp_def after_response_def)
  then have "wlan_process_cmdresp ops Some s = Some (ret, s4)"
    using assms(3-7) by (simp add: wlan_process_cmdresp_def Let_def no_def)
  moreover have "completions s3 = completions s" using f st(4) by (simp add: handler_frame_def completions_def)
  ultimately show ?thesis using s4 assms(15) by (auto split: if_splits)
qed

end
