(* ===== verification/Cmd_Witness.thy ===== *)
theory Cmd_Witness
  imports Cmd_Props Cmd_Life
begin

text \<open>
  The properties of the command path at concrete states, reached from the allocation of the pool: one interface, a
  request, a command prepared for it, sent and answered.
\<close>

subsection \<open>Concrete states\<close>

lemma alloc_cmd_bufs_all: "\<exists>s'. alloc_cmd_bufs (\<lambda>_. True) is s = (True, s')"
  by (induction "is" arbitrary: s) simp_all

definition sample_iface :: cmd_iface where
  "sample_iface = \<lparr>if_bss_num = 1, if_bss_type = 2, if_bss_virtual = False\<rparr>"

definition blank_sample :: cmd_ctx where
  "blank_sample = \<lparr>cmd_pool = False, nodes = (\<lambda>_. zero_node), cmd_free_q = [], cmd_pending_q = [], scan_pending_q = [],
     curr_cmd = None, ioctls = (\<lambda>_. None), pscan_ioctl_req = None, pwarm_reset_ioctl_req = None,
     cmd_ifaces = [Some sample_iface], hw_status = WlanHardwareStatusReady, surprise_removed = False, cmd_seq_num = 0xff,
     cmd_sent = False, cmd_resp_received = False, cmd_timer_is_set = False, num_cmd_timeout = 0, last_init_cmd = 0,
     ps_state = PS_STATE_AWAKE, pm_wakeup_card_req = False, pm_wakeup_fw_try = False, is_hs_configured = False,
     hs_activated = False, hs_cfg_conditions = 0, scan_processing = False, ext_scan = False, ext_scan_enh = False,
     ext_scan_type = EXT_SCAN_DEFAULT, ext_scan_timeout = False, last_cmd_index = 0, last_cmd_id = replicate 10 0,
     last_cmd_act = replicate 10 0, last_cmd_resp_index = 0, last_cmd_resp_id = replicate 10 0,
     dbg_num_cmd_timeout = 0, num_no_cmd_node = 0, num_cmd_h2c_failure = 0, cmd_log = []\<rparr>"

text \<open>The pool after its allocation.\<close>

definition pool_nodes :: "nat \<Rightarrow> cmd_ctrl_node" where
  "pool_nodes i = (if i < MRVDRV_NUM_OF_CMD_BUFFER then zero_node\<lparr>pmbuf := True\<rparr> else zero_node)"

definition boot :: cmd_ctx where
  "boot = blank_sample\<lparr>cmd_pool := True, nodes := pool_nodes, cmd_free_q := [0..<MRVDRV_NUM_OF_CMD_BUFFER]\<rparr>"

lemma reachable_boot: "cmd_reachable boot"
proof (rule cmd_reachable.init)
  show "blank_ctx blank_sample" by (simp add: blank_ctx_def blank_sample_def)
  let ?s = "blank_sample\<lparr>cmd_pool := True, nodes := \<lambda>_. zero_node\<rparr>"
  obtain s1 where s1: "alloc_cmd_bufs (\<lambda>_. True) [0..<MRVDRV_NUM_OF_CMD_BUFFER] ?s = (True, s1)"
    using alloc_cmd_bufs_all by blast
  have n: "(\<lambda>i. if i \<in> set [0..<MRVDRV_NUM_OF_CMD_BUFFER] then (nodes ?s i)\<lparr>pmbuf := True\<rparr> else nodes ?s i) = pool_nodes"
    by (simp add: fun_eq_iff pool_nodes_def del: upt.simps upt_rec_numeral)
  have e: "s1 = ?s\<lparr>nodes := pool_nodes\<rparr>"
    by (rule trans [OF alloc_cmd_bufs_True [OF s1] arg_cong [where f = "\<lambda>n. ?s\<lparr>nodes := n\<rparr>", OF n]])
  have "insert_free_all [0..<MRVDRV_NUM_OF_CMD_BUFFER] s1
      = Some (s1\<lparr>cmd_free_q := cmd_free_q s1 @ [0..<MRVDRV_NUM_OF_CMD_BUFFER]\<rparr>)"
    by (rule insert_free_all_clean) (simp add: e pool_nodes_def clean_node_def zero_node_def del: upt.simps upt_rec_numeral)
  then have "insert_free_all [0..<MRVDRV_NUM_OF_CMD_BUFFER] s1 = Some boot"
    by (simp add: e boot_def blank_sample_def del: upt.simps upt_rec_numeral)
  then show "wlan_alloc_cmd_buffer True (\<lambda>_. True) blank_sample = Some (MLAN_STATUS_SUCCESS, boot)"
    using s1 by (simp add: wlan_alloc_cmd_buffer_def del: upt.simps upt_rec_numeral)
qed

text \<open>A request for interface 0, a command that answers it, and its encoder.\<close>

definition sample_req :: mlan_ioctl_req where
  "sample_req = \<lparr>req_id = 0x20000, req_bss_index = 0, status_code = 0\<rparr>"

definition sample_enc :: encoder where
  "sample_enc c = (MLAN_STATUS_SUCCESS, c\<lparr>hc_size := 12\<rparr>)"

abbreviation sample_rq :: cmd_request where
  "sample_rq \<equiv> \<lparr>rq_bss = Some 0, rq_no = 0x28, rq_action = 0, rq_pioctl = Some 7, rq_data = None\<rparr>"

definition asked :: cmd_ctx where
  "asked = boot\<lparr>ioctls := [7 \<mapsto> sample_req]\<rparr>"

definition sample_cmd :: HostCmd_DS_COMMAND where
  "sample_cmd = zero_cmd\<lparr>hc_command := 0x28, hc_size := 12\<rparr>"

definition queued_up :: cmd_ctx where
  "queued_up = upd_node 0 (filled sample_rq 0 sample_cmd)
     (asked\<lparr>cmd_free_q := [1..<MRVDRV_NUM_OF_CMD_BUFFER], cmd_pending_q := [0]\<rparr>)"

lemma boot_simps [simp]:
  "cmd_free_q boot = [0..<30]" "cmd_pending_q boot = []" "scan_pending_q boot = []" "curr_cmd boot = None"
  "ioctls boot = (\<lambda>_. None)" "pscan_ioctl_req boot = None" "pwarm_reset_ioctl_req boot = None" "cmd_ifaces boot = [Some sample_iface]"
  "hw_status boot = WlanHardwareStatusReady" "\<not> surprise_removed boot" "ps_state boot = PS_STATE_AWAKE" "nodes boot = pool_nodes"
  "cmd_seq_num boot = 0xff" "\<not> hs_activated boot" "ext_scan_type boot = EXT_SCAN_DEFAULT" "\<not> scan_processing boot"
  "cmd_log boot = []" "\<not> ext_scan boot" "num_no_cmd_node boot = 0"
  by (simp_all add: boot_def blank_sample_def del: upt.simps upt_rec_numeral)

lemma reachable_asked: "cmd_reachable asked"
  by (rule cmd_reachable.step [OF reachable_boot, of "New_request 7 sample_req"])
     (simp_all add: asked_def sample_req_def del: upt.simps upt_rec_numeral)

lemma upt30: "[0..<30] = 0 # [1..<30]"
  by (simp add: upt_conv_Cons del: upt_rec_numeral)

lemma prepare_asked: "wlan_prepare_cmd sample_enc sample_rq asked = Some (MLAN_STATUS_SUCCESS, queued_up)"
proof -
  have "wlan_prepare_cmd sample_enc sample_rq asked
      = Some (MLAN_STATUS_SUCCESS, queue_prepared sample_rq 0
          (upd_node 0 (filled sample_rq 0 sample_cmd) (asked\<lparr>cmd_free_q := [1..<30], num_no_cmd_node := 0\<rparr>)))"
    by (rule prepare_success)
       (simp_all add: asked_def upt30 pool_nodes_def iface_present_def sample_enc_def sample_cmd_def del: upt.simps upt_rec_numeral)
  also have "asked\<lparr>cmd_free_q := [1..<30], num_no_cmd_node := 0\<rparr> = asked\<lparr>cmd_free_q := [1..<30]\<rparr>"
    by (simp add: asked_def boot_def blank_sample_def del: upt.simps upt_rec_numeral)
  also have "queue_prepared sample_rq 0 (upd_node 0 (filled sample_rq 0 sample_cmd) (asked\<lparr>cmd_free_q := [1..<30]\<rparr>)) = queued_up"
    by (simp add: queue_prepared_def wlan_insert_cmd_to_pending_q_def filled_def sample_cmd_def zero_cmd_def Let_def
        queued_up_def upd_node_def asked_def del: upt.simps upt_rec_numeral)
  finally show ?thesis .
qed

lemma reachable_queued_up: "cmd_reachable queued_up"
proof (rule cmd_reachable.step [OF reachable_asked])
  show "allowed (Prepare sample_enc sample_rq) asked"
    by (simp add: unreferenced_def node_refs_def queued_def curr_list_def asked_def)
  show "run_op (Prepare sample_enc sample_rq) asked = Some queued_up" by (simp add: prepare_asked)
qed

lemma queued_up_simps [simp]:
  "cmd_free_q queued_up = [1..<30]" "cmd_pending_q queued_up = [0]" "scan_pending_q queued_up = []" "curr_cmd queued_up = None"
  "ioctls queued_up = [7 \<mapsto> sample_req]" "pscan_ioctl_req queued_up = None" "cmd_ifaces queued_up = [Some sample_iface]"
  "hw_status queued_up = WlanHardwareStatusReady" "ps_state queued_up = PS_STATE_AWAKE" "cmd_log queued_up = []"
  "nodes queued_up 0 = filled sample_rq 0 sample_cmd (zero_node\<lparr>pmbuf := True\<rparr>)" "\<not> hs_activated queued_up"
  "cmd_seq_num queued_up = 0xff" "\<not> scan_processing queued_up" "ext_scan_type queued_up = EXT_SCAN_DEFAULT"
  by (simp_all add: queued_up_def asked_def upd_node_def pool_nodes_def del: upt.simps upt_rec_numeral)

text \<open>The command on the bus, and its response.\<close>

definition outstanding :: cmd_ctx where
  "outstanding = note_call Start_cmd_timer
     (on_bus MLAN_STATUS_PENDING sample_iface 0 (queued_up\<lparr>cmd_pending_q := []\<rparr>)\<lparr>cmd_timer_is_set := True\<rparr>)"

lemma exec_queued_up: "wlan_exec_next_cmd MLAN_STATUS_PENDING queued_up = Some (MLAN_STATUS_SUCCESS, outstanding)"
proof -
  let ?s = "queued_up\<lparr>cmd_pending_q := []\<rparr>"
  have "wlan_dnld_cmd_to_fw MLAN_STATUS_PENDING 0 ?s = Some (MLAN_STATUS_SUCCESS, outstanding)"
    by (simp add: wlan_dnld_cmd_to_fw_def filled_def sample_cmd_def arr_get_def outstanding_def on_bus_def Let_def)
  moreover have "\<not> hs_activated outstanding" by (simp add: outstanding_def note_call_def on_bus_fields)
  ultimately show ?thesis by (simp add: wlan_exec_next_cmd_def)
qed

lemma reachable_outstanding: "cmd_reachable outstanding"
  by (rule cmd_reachable.step [OF reachable_queued_up, of "Exec_next MLAN_STATUS_PENDING"]) (simp_all add: exec_queued_up)

definition sample_resp :: resp_buffer where
  "sample_resp = \<lparr>rb_id = 3, rb_resp = sample_cmd\<lparr>hc_command := 0x8028, hc_seq_num := 0x2100\<rparr>\<rparr>"

definition answered :: cmd_ctx where
  "answered = receive_cmd_response sample_resp outstanding"

lemma reachable_answered: "cmd_reachable answered"
  by (rule cmd_reachable.step [OF reachable_outstanding, of "Receive sample_resp"]) (simp_all add: answered_def)

lemma outstanding_simps [simp]:
  "curr_cmd outstanding = Some 0" "pioctl_buf (nodes outstanding 0) = Some 7" "ioctls outstanding = [7 \<mapsto> sample_req]"
  "cmd_no (nodes outstanding 0) = 0x28" "cmd_flag (nodes outstanding 0) = 0" "hw_status outstanding = WlanHardwareStatusReady"
  "cmd_ifaces outstanding = [Some sample_iface]" "cmd_pending_q outstanding = []" "scan_pending_q outstanding = []"
  "completions outstanding = []"
  by (simp_all add: outstanding_def on_bus_fields)
     (simp_all add: on_bus_def command_to_card_def stamp_command_def upd_node_def filled_def sample_cmd_def zero_node_def
        note_call_def Let_def completions_def)

lemma answered_simps [simp]:
  "curr_cmd answered = Some 0" "pioctl_buf (nodes answered 0) = Some 7" "ioctls answered = [7 \<mapsto> sample_req]"
  "cmd_no (nodes answered 0) = 0x28" "cmd_flag (nodes answered 0) = 0" "hw_status answered = WlanHardwareStatusReady"
  "cmd_ifaces answered = [Some sample_iface]" "respbuf (nodes answered 0) = Some sample_resp" "completions answered = []"
  by (simp_all add: answered_def receive_cmd_response_def upd_node_def completions_def)
     (simp_all add: completions_def [symmetric])

subsection \<open>The properties at these states\<close>

lemma command_path_never_stuck_witness:
  "\<exists>s'. run_op (Cancel_bss sample_enc 0) answered = Some s' \<and> cmd_reachable s'"
  by (rule command_path_never_stuck [OF reachable_answered]) simp

lemma command_nodes_accounted_witness:
  "distinct (requests queued_up (queued queued_up)) \<and> requests queued_up (queued queued_up) = [7]"
  using command_nodes_accounted [OF reachable_queued_up] by (simp add: queued_def curr_list_def filled_def)

lemma response_finds_interface_witness:
  "wlan_get_priv_by_id (HostCmd_GET_BSS_NO 0x2100) (HostCmd_GET_BSS_TYPE 0x2100) boot = Some 0"
proof -
  have "HostCmd_SET_SEQ_NO_BSS_INFO 0x100 1 2 = 0x2100" by (simp add: HostCmd_SET_SEQ_NO_BSS_INFO_def)
  then show ?thesis
    using response_finds_interface [of 0 boot sample_iface "0x100"] by (simp add: sample_iface_def Let_def)
qed

lemma cancel_all_exact_witness:
  "\<exists>s'. wlan_cancel_all_pending_cmd sample_enc queued_up = Some s'
     \<and> completions s' = [(7, MLAN_ERROR_CMD_CANCEL, MLAN_STATUS_FAILURE)] \<and> queued s' = []"
proof -
  have "completions queued_up = []" by (simp add: completions_def)
  then show ?thesis
    using cancel_all_exact [OF reachable_queued_up, of sample_enc] by (auto simp: scan_req_def curr_list_def filled_def)
qed

lemma cancel_bss_exact_witness:
  "\<exists>s'. wlan_cancel_bss_pending_cmd sample_enc 0 answered = Some s'
     \<and> completions s' = [(7, MLAN_ERROR_CMD_CANCEL, MLAN_STATUS_FAILURE)] \<and> curr_cmd s' = Some 0"
proof -
  have "scan_req answered = []" "cmd_pending_q answered = []"
    by (simp_all add: scan_req_def answered_def receive_cmd_response_def outstanding_def on_bus_fields)
       (simp_all add: on_bus_def command_to_card_def stamp_command_def upd_node_def Let_def note_call_def)
  then show ?thesis
    using cancel_bss_exact [OF reachable_answered, of sample_enc 0]
    by (auto simp: Let_def curr_list_def own_bss_def sample_req_def)
qed

lemma cancel_ioctl_exact_witness:
  "\<exists>s'. wlan_cancel_pending_ioctl sample_enc 7 queued_up = Some s'
     \<and> completions s' = [(7, MLAN_ERROR_CMD_CANCEL, MLAN_STATUS_FAILURE)] \<and> ioctls s' 7 = None \<and> cmd_pending_q s' = []"
proof -
  have "has_request 7 queued_up" by (simp add: has_request_iff filled_def)
  moreover have "completions queued_up = []" by (simp add: completions_def)
  ultimately show ?thesis
    using cancel_ioctl_exact [OF reachable_queued_up, of 7 sample_req sample_enc] by (auto simp: sample_req_def filled_def)
qed

definition sample_ops :: cmd_ops where
  "sample_ops = \<lparr>op_resp = (\<lambda>no resp s. (MLAN_STATUS_SUCCESS, [Act_status 5, Act_prepare sample_enc 0 0x6d 0])),
     op_error = (\<lambda>resp s. (MLAN_STATUS_FAILURE, [])), op_scan_parse = (\<lambda>resp. None), op_rescan = (\<lambda>r s. None),
     op_init = (\<lambda>b s. (MLAN_STATUS_SUCCESS, []))\<rparr>"

lemma response_cancel_race_witness:
  "wlan_process_cmdresp sample_ops (wlan_cancel_pending_ioctl sample_enc 7) answered = None"
  using response_cancel_race [OF reachable_answered, of 0 7 sample_resp sample_ops sample_enc] by (simp add: sample_resp_def)

lemma exec_next_sends_head_witness:
  "sent outstanding = [(0, sample_cmd\<lparr>hc_seq_num := 0x2100\<rparr>)] \<and> cmd_pending_q outstanding = []"
proof -
  have "HostCmd_SET_SEQ_NO_BSS_INFO 0x100 1 2 = 0x2100" by (simp add: HostCmd_SET_SEQ_NO_BSS_INFO_def)
  then show ?thesis
    using exec_next_sends_head [OF exec_queued_up]
    by (simp add: Let_def sent_def numbered_def filled_def sample_cmd_def arr_get_def sample_iface_def)
qed

lemma timeout_does_not_resend_witness:
  "\<exists>s'. wlan_cmd_timeout_func outstanding = Some s' \<and> sent s' = sent outstanding
     \<and> ioctls s' = [7 \<mapsto> sample_req\<lparr>status_code := MLAN_ERROR_CMD_TIMEOUT\<rparr>]"
  using timeout_does_not_resend [OF reachable_outstanding, of 0] by auto

lemma response_completes_request_witness:
  "\<exists>s'. wlan_process_cmdresp sample_ops Some answered = Some (MLAN_STATUS_SUCCESS, s')
     \<and> completions s' = [(7, MLAN_ERROR_NO_ERROR, MLAN_STATUS_SUCCESS)] \<and> curr_cmd s' = None"
  using response_completes_request [OF reachable_answered, of 0 7 sample_resp sample_ops MLAN_STATUS_SUCCESS]
  by (auto simp: sample_resp_def sample_cmd_def zero_cmd_def any_priv_def sample_ops_def)

text \<open>A soft reset that nobody asked for.\<close>

definition resetting :: cmd_ctx where
  "resetting = upd_node 0 (\<lambda>n. n\<lparr>cmdbuf := zero_cmd\<lparr>hc_command := HostCmd_CMD_SOFT_RESET, hc_size := 8\<rparr>\<rparr>) (boot\<lparr>cmd_pending_q := [0]\<rparr>)"

lemma reset_command_blocks_witness:
  "\<exists>s'. wlan_exec_next_cmd MLAN_STATUS_PENDING resetting = Some (MLAN_STATUS_PENDING, s') \<and> curr_cmd s' = Some 0
     \<and> (\<forall>h. wlan_exec_next_cmd h s' = Some (MLAN_STATUS_FAILURE, s'))"
proof -
  have "curr_cmd resetting = None" "ps_state resetting = PS_STATE_AWAKE" "cmd_pending_q resetting = [0]" "\<not> hs_activated resetting"
    "arr_get (cmd_ifaces resetting) (int (cn_priv (nodes resetting 0))) = Some (Some sample_iface)"
    "hc_size (cmdbuf (nodes resetting 0)) \<noteq> 0" "pioctl_buf (nodes resetting 0) = None"
    "hc_command (cmdbuf (nodes resetting 0)) AND HostCmd_CMD_ID_MASK \<in> {HostCmd_CMD_FW_DUMP_EVENT, HostCmd_CMD_SOFT_RESET}"
    by (simp_all add: resetting_def upd_node_def pool_nodes_def zero_node_def arr_get_def zero_cmd_def del: upt.simps upt_rec_numeral)
  from reset_command_blocks [OF this(1-6) _ this(7,8), of MLAN_STATUS_PENDING] show ?thesis by auto
qed

text \<open>A scan of more groups than nodes.\<close>

definition many_groups :: "scan_group list" where
  "many_groups = replicate 31 (True, sample_enc)"

lemma many_groups_ok: "\<forall>(ok, enc) \<in> set many_groups. ok \<and> (\<forall>c. fst (enc c) = MLAN_STATUS_SUCCESS)" "length many_groups = 31"
  by (simp_all add: many_groups_def sample_enc_def)

lemma failed_scan_takes_all_nodes_witness:
  "\<exists>s'. wlan_scan_networks 0 None many_groups boot = Some (MLAN_STATUS_FAILURE, s') \<and> cmd_free_q s' = []
     \<and> length (scan_pending_q s') = 30"
proof -
  have "iface_present boot 0" by (simp add: iface_present_def)
  from failed_scan_takes_all_nodes [OF reachable_boot this _ _ _ many_groups_ok(1), of None] many_groups_ok(2)
  show ?thesis by (auto simp del: upt.simps upt_rec_numeral)
qed

text \<open>States without a free node: after a scan that failed for want of nodes.\<close>

lemma exhausted:
  assumes "cmd_reachable s" and "cmd_ifaces s = [Some sample_iface]" and "\<not> surprise_removed s"
    and "hw_status s \<noteq> WlanHardwareStatusReset" and "ext_scan_type s \<noteq> EXT_SCAN_ENHANCE" and "length (cmd_free_q s) < 31"
  obtains s' where "cmd_reachable s'" "cmd_free_q s' = []" "pscan_ioctl_req s' = pscan_ioctl_req s"
    "scan_processing s' = scan_processing s" "scan_frame s s'"
proof -
  have "iface_present s 0" using assms(2) by (simp add: iface_present_def)
  from scan_list_exhausted [OF reachable_cmd_inv [OF assms(1)] this assms(3-5) many_groups_ok(1), of None] assms(6) many_groups_ok(2)
  obtain s' where l: "wlan_scan_channel_list 0 None many_groups s = Some (MLAN_STATUS_FAILURE, s')"
    and s': "cmd_free_q s' = []" "pscan_ioctl_req s' = pscan_ioctl_req s" "scan_processing s' = scan_processing s" "scan_frame s s'"
    by auto
  have "many_groups \<noteq> []" using many_groups_ok(2) by auto
  then have "run_op (Scan 0 None many_groups) s = Some s'" using l by (simp add: wlan_scan_networks_def)
  then have "cmd_reachable s'" using cmd_reachable.step [OF assms(1), of "Scan 0 None many_groups"] by simp
  then show thesis using that s' by blast
qed

lemma new_request:
  assumes "cmd_reachable s" and "ioctls s r = None" and "cmd_ifaces s = [Some sample_iface]"
  shows "cmd_reachable (s\<lparr>ioctls := (ioctls s)(r \<mapsto> sample_req)\<rparr>)"
    and "unreferenced [] (s\<lparr>ioctls := (ioctls s)(r \<mapsto> sample_req)\<rparr>) (Some r)"
proof -
  show "cmd_reachable (s\<lparr>ioctls := (ioctls s)(r \<mapsto> sample_req)\<rparr>)"
    by (rule cmd_reachable.step [OF assms(1), of "New_request r sample_req"]) (use assms in \<open>simp_all add: sample_req_def\<close>)
  have "req_ok (set (queued s)) s" using reachable_cmd_inv [OF assms(1)] by (simp add: cmd_inv_def req_inv_def)
  then show "unreferenced [] (s\<lparr>ioctls := (ioctls s)(r \<mapsto> sample_req)\<rparr>) (Some r)"
    using assms(2) unfolding req_ok_def unreferenced_def node_refs_def by (auto simp: queued_def curr_list_def)
qed

lemma prepare_without_node_witness:
  "\<exists>s s'. cmd_reachable s \<and> wlan_prepare_cmd sample_enc sample_rq s = Some (MLAN_STATUS_FAILURE, s') \<and> queued s' = queued s
     \<and> map_option status_code (ioctls s' 7) = Some MLAN_ERROR_NO_MEM"
proof -
  obtain s where s: "cmd_reachable s" "cmd_free_q s = []" "scan_frame boot s"
    by (rule exhausted [OF reachable_boot]) (simp_all del: upt.simps upt_rec_numeral)
  have f: "cmd_ifaces s = [Some sample_iface]" "\<not> surprise_removed s" "hw_status s \<noteq> WlanHardwareStatusReset" "ioctls s 7 = None"
    using s(3) by (simp_all add: scan_frame_def)
  let ?s = "s\<lparr>ioctls := (ioctls s)(7 \<mapsto> sample_req)\<rparr>"
  note n = new_request [OF s(1) f(4,1)]
  have "iface_present ?s 0" using f by (simp add: iface_present_def)
  then show ?thesis
    using prepare_without_node [OF n(1) _ _ _ _ _ , of sample_rq 0 sample_enc] n s(2) f by auto
qed

text \<open>An enhanced scan is running, and another one has used up the nodes.\<close>

definition enhanced :: "cmd_ctx \<Rightarrow> cmd_ctx" where
  "enhanced s = s\<lparr>ext_scan := True, ext_scan_enh := True, ext_scan_type := EXT_SCAN_ENHANCE\<rparr>"

lemma reachable_other: "cmd_reachable s \<Longrightarrow> same_commands s (f s) \<Longrightarrow> cmd_reachable (f s)"
  using cmd_reachable.step [of s "Other f"] by simp

lemma cancel_scan_pending_forever_witness:
  "\<exists>s s'. cmd_reachable s \<and> wlan_cancel_pending_scan_cmd sample_enc 2 s = Some (MLAN_STATUS_PENDING, s')
     \<and> ioctls s' 2 \<noteq> None \<and> unreferenced [] s' (Some 2)"
proof -
  let ?r = "boot\<lparr>ioctls := (ioctls boot)(1 \<mapsto> sample_req)\<rparr>"
  have r: "cmd_reachable ?r" "unreferenced [] ?r (Some 1)"
    using new_request [OF reachable_boot, of 1] by simp_all
  let ?e = "enhanced ?r"
  have e: "cmd_reachable ?e" by (rule reachable_other [OF r(1)]) (simp add: enhanced_def same_commands_def)
  let ?rq = "\<lparr>rq_bss = Some 0, rq_no = HostCmd_CMD_802_11_SCAN_EXT, rq_action = HostCmd_ACT_GEN_SET, rq_pioctl = None, rq_data = None\<rparr>"
  let ?c = "zero_cmd\<lparr>hc_command := HostCmd_CMD_802_11_SCAN_EXT, hc_size := 12\<rparr>"
  let ?p = "queue_prepared ?rq 0 (upd_node 0 (filled ?rq 0 ?c) (?e\<lparr>cmd_free_q := [1..<30], num_no_cmd_node := 0\<rparr>))"
  have "wlan_prepare_cmd sample_enc ?rq ?e = Some (MLAN_STATUS_SUCCESS, ?p)"
    by (rule prepare_success)
       (simp_all add: enhanced_def upt30 pool_nodes_def iface_present_def sample_enc_def del: upt.simps upt_rec_numeral)
  moreover have "ext_scan ?e" by (simp add: enhanced_def)
  ultimately have l: "wlan_scan_channel_list 0 (Some 1) [(True, sample_enc)] ?e = Some (MLAN_STATUS_SUCCESS, ?p)" by simp
  have pf: "cmd_free_q ?p = [1..<30]" "cmd_pending_q ?p = [0]" "curr_cmd ?p = None" "ext_scan_type ?p = EXT_SCAN_ENHANCE"
    "ext_scan ?p" "ext_scan_enh ?p" "ioctls ?p = [1 \<mapsto> sample_req]" "cmd_ifaces ?p = [Some sample_iface]" "\<not> surprise_removed ?p"
    "hw_status ?p = WlanHardwareStatusReady" "cmd_flag (nodes ?p 0) = 0"
    by (simp_all add: queue_prepared_def wlan_insert_cmd_to_pending_q_def Let_def upd_node_def filled_def enhanced_def
        pool_nodes_def zero_node_def zero_cmd_def del: upt.simps upt_rec_numeral)
  let ?q = "?p\<lparr>pscan_ioctl_req := Some 1, scan_processing := True\<rparr>"
  have "run_op (Scan 0 (Some 1) [(True, sample_enc)]) ?e = Some ?q"
    using l pf(4-6) by (simp add: wlan_scan_networks_def del: wlan_scan_channel_list.simps)
  moreover have "allowed (Scan 0 (Some 1) [(True, sample_enc)]) ?e"
    using r(2) by (simp add: unreferenced_def node_refs_def enhanced_def queued_def curr_list_def)
  ultimately have q: "cmd_reachable ?q" using cmd_reachable.step [OF e] by blast
  let ?d = "?q\<lparr>ext_scan_type := EXT_SCAN_DEFAULT\<rparr>"
  have d: "cmd_reachable ?d"
    using reachable_other [OF q, of "\<lambda>s. s\<lparr>ext_scan_type := EXT_SCAN_DEFAULT\<rparr>"] by (simp add: same_commands_def)
  obtain t where t: "cmd_reachable t" "cmd_free_q t = []" "pscan_ioctl_req t = pscan_ioctl_req ?d"
    "scan_processing t = scan_processing ?d" "scan_frame ?d t"
    by (rule exhausted [OF d]) (use pf in simp_all)
  let ?t = "enhanced t"
  have tr: "cmd_reachable ?t" by (rule reachable_other [OF t(1)]) (simp add: enhanced_def same_commands_def)
  have tf: "cmd_pending_q t = [0]" "curr_cmd t = None" "ioctls t = [1 \<mapsto> sample_req]" "cmd_ifaces t = [Some sample_iface]"
    "\<not> surprise_removed t" "hw_status t = WlanHardwareStatusReady" "cmd_flag (nodes t 0) = 0"
    using t(5) pf by (simp_all add: scan_frame_def)
  let ?u = "?t\<lparr>ioctls := (ioctls ?t)(2 \<mapsto> sample_req)\<rparr>"
  have u: "cmd_reachable ?u" "unreferenced [] ?u (Some 2)"
    using new_request [OF tr, of 2] tf by (simp_all add: enhanced_def)
  have "\<exists>s'. wlan_cancel_pending_scan_cmd sample_enc 2 ?u = Some (MLAN_STATUS_PENDING, s')
       \<and> completions s' = completions ?u @ cancelled [1] \<and> ioctls s' 2 \<noteq> None \<and> unreferenced [] s' (Some 2)"
    by (rule cancel_scan_pending_forever [OF u(1), of 1 sample_req 2 sample_enc])
       (use u(2) t tf in \<open>simp_all add: enhanced_def wlan_get_pending_scan_cmd_def iface_present_def sample_req_def\<close>)
  then show ?thesis using u(1) by blast
qed

end
