(* ===== verification/Sdio_State.thy ===== *)
theory Sdio_State
  imports Byte_Mem Util_List
begin

text \<open>
  The state of the bus layer (\<^verbatim>\<open>mlan_sdio.c\<close>, \<^verbatim>\<open>mlan_sdio.h\<close>, \<^verbatim>\<open>mlan_main.h\<close>) and one transfer over the bus
  (\<^verbatim>\<open>moal_sdio_mmc.c\<close>).  The card has up to 32 data ports; a bit map each for reading and writing says which of
  them are ready, and both sides take the ports in turn.  Packets of consecutive ports are moved in one transfer:
  either through an aggregation buffer, or, when there is none, as a list of the packets (scatter and gather).

  The kernel's bus driver is the parameter \<open>bus\<close>: its answer to a transfer may depend on everything that happened on
  the bus before.  Every access is recorded in \<open>xfers\<close>, every call out of the layer in \<open>up_calls\<close>.
  A pointer to a buffer is the buffer with its identity \<open>sb_id\<close>.  The debug copy \<^verbatim>\<open>mpa_buf\<close>, allocated only in debug
  builds on request, is absent.
\<close>

subsection \<open>Taking a sequence of operations apart\<close>

lemma bindE:
  assumes "Option.bind m f = Some r"
  obtains x where "m = Some x" "f x = Some r"
  using assms by (cases m) auto

lemma bind2E:
  assumes "Option.bind m (\<lambda>(a, b). f a b) = Some r"
  obtains a b where "m = Some (a, b)" "f a b = Some r"
  using assms by (cases m) auto

lemma bind3E:
  assumes "Option.bind m (\<lambda>(a, b, c). f a b c) = Some r"
  obtains a b c where "m = Some (a, b, c)" "f a b c = Some r"
  using assms by (cases m) auto

lemma bind4E:
  assumes "Option.bind m (\<lambda>(a, b, c, d). f a b c d) = Some r"
  obtains a b c d where "m = Some (a, b, c, d)" "f a b c d = Some r"
  using assms by (cases m) auto

lemmas runE = bind4E bind3E bind2E bindE

subsection \<open>Constants\<close>

abbreviation (input) MAX_PORT :: nat where "MAX_PORT \<equiv> 32"
abbreviation (input) MAX_MP_REGS :: nat where "MAX_MP_REGS \<equiv> 196"
abbreviation (input) SDIO_MP_AGGR_DEF_PKT_LIMIT :: nat where "SDIO_MP_AGGR_DEF_PKT_LIMIT \<equiv> 16"
abbreviation (input) SDIO_MP_DBG_NUM :: nat where "SDIO_MP_DBG_NUM \<equiv> 10"
abbreviation (input) MAX_WRITE_IOMEM_RETRY :: nat where "MAX_WRITE_IOMEM_RETRY \<equiv> 2"
abbreviation (input) MLAN_SDIO_BLOCK_SIZE :: nat where "MLAN_SDIO_BLOCK_SIZE \<equiv> 256"
abbreviation (input) SDIO_CMD53_MAX_SIZE :: t_u32 where "SDIO_CMD53_MAX_SIZE \<equiv> 65280"
abbreviation (input) SDIO_MP_RX_AGGR_DEF_BUF_SIZE :: t_u32 where "SDIO_MP_RX_AGGR_DEF_BUF_SIZE \<equiv> 65280"
abbreviation (input) ALLOC_BUF_SIZE :: nat where "ALLOC_BUF_SIZE \<equiv> 4352"
abbreviation (input) SIZE_OF_CMD_BUFFER :: t_u32 where "SIZE_OF_CMD_BUFFER \<equiv> 4096"
abbreviation (input) WLAN_UPLD_SIZE :: t_u32 where "WLAN_UPLD_SIZE \<equiv> 4096"
abbreviation (input) MAX_EVENT_SIZE :: t_u32 where "MAX_EVENT_SIZE \<equiv> 2048"
abbreviation (input) ETH_RX_PACKET_BUFFER_SIZE :: nat where "ETH_RX_PACKET_BUFFER_SIZE \<equiv> 1818"
abbreviation (input) RX_HEADER_LEN :: nat where "RX_HEADER_LEN \<equiv> 64"
abbreviation (input) INTF_HDR :: t_u32 where "INTF_HDR \<equiv> 4"
abbreviation (input) MLAN_EVENT_HEADER_LEN :: t_u32 where "MLAN_EVENT_HEADER_LEN \<equiv> 8"

abbreviation (input) MLAN_TYPE_DATA :: t_u32 where "MLAN_TYPE_DATA \<equiv> 0"
abbreviation (input) MLAN_TYPE_CMD :: t_u32 where "MLAN_TYPE_CMD \<equiv> 1"
abbreviation (input) MLAN_TYPE_EVENT :: t_u32 where "MLAN_TYPE_EVENT \<equiv> 3"
abbreviation (input) MLAN_TYPE_DIAG :: t_u32 where "MLAN_TYPE_DIAG \<equiv> 6"
abbreviation (input) MLAN_TYPE_SPA_DATA :: t_u32 where "MLAN_TYPE_SPA_DATA \<equiv> 10"
abbreviation (input) BUF_TYPE_SPA_DATA :: nat where "BUF_TYPE_SPA_DATA \<equiv> 5"

abbreviation (input) MLAN_ERROR_DATA_TX_FAIL :: t_u32 where "MLAN_ERROR_DATA_TX_FAIL \<equiv> 4"
abbreviation (input) MLAN_ERROR_DATA_RX_FAIL :: t_u32 where "MLAN_ERROR_DATA_RX_FAIL \<equiv> 5"
abbreviation (input) MLAN_ERROR_PKT_SIZE_INVALID :: t_u32 where "MLAN_ERROR_PKT_SIZE_INVALID \<equiv> 0x80000001"

abbreviation (input) HOST_TO_CARD_EVENT_REG :: t_u32 where "HOST_TO_CARD_EVENT_REG \<equiv> 0"
abbreviation (input) HOST_TERM_CMD53 :: t_u32 where "HOST_TERM_CMD53 \<equiv> 4"
abbreviation (input) HOST_INT_STATUS_REG :: nat where "HOST_INT_STATUS_REG \<equiv> 0x0C"
abbreviation (input) RD_BITMAP_L :: nat where "RD_BITMAP_L \<equiv> 0x10"
abbreviation (input) WR_BITMAP_L :: nat where "WR_BITMAP_L \<equiv> 0x14"
abbreviation (input) RD_LEN_P0_L :: nat where "RD_LEN_P0_L \<equiv> 0x18"
abbreviation (input) CMD_RD_LEN_0 :: nat where "CMD_RD_LEN_0 \<equiv> 0xC0"
abbreviation (input) CMD_PORT_SLCT :: t_u32 where "CMD_PORT_SLCT \<equiv> 0x8000"
abbreviation (input) SDIO_MPA_ADDR_BASE :: t_u32 where "SDIO_MPA_ADDR_BASE \<equiv> 0x1000"
abbreviation (input) DATA_PORT_MASK :: t_u32 where "DATA_PORT_MASK \<equiv> 0xffffffff"
abbreviation (input) MLAN_SDIO_IO_PORT_MASK :: t_u32 where "MLAN_SDIO_IO_PORT_MASK \<equiv> 0xfffff"
abbreviation (input) MLAN_SDIO_BYTE_MODE_MASK :: t_u32 where "MLAN_SDIO_BYTE_MODE_MASK \<equiv> 0x80000000"
abbreviation (input) UP_LD_HOST_INT_STATUS :: t_u8 where "UP_LD_HOST_INT_STATUS \<equiv> 1"
abbreviation (input) DN_LD_HOST_INT_STATUS :: t_u8 where "DN_LD_HOST_INT_STATUS \<equiv> 2"
abbreviation (input) UP_LD_CMD_PORT_HOST_INT_STATUS :: t_u8 where "UP_LD_CMD_PORT_HOST_INT_STATUS \<equiv> 0x40"
abbreviation (input) DN_LD_CMD_PORT_HOST_INT_STATUS :: t_u8 where "DN_LD_CMD_PORT_HOST_INT_STATUS \<equiv> 0x80"

datatype sd_ps_state = SD_AWAKE | SD_PRE_SLEEP | SD_SLEEP_CFM | SD_SLEEP

subsection \<open>Buffers, accesses and calls\<close>

record sdio_buffer =
  sb_id :: nat
  pbuf :: "t_u8 list"
  data_offset :: nat
  data_len :: t_u32
  status_code :: t_u32
  buf_type :: nat

text \<open>What the bus driver is handed: one buffer, or an empty head with a list of buffers linked to it.\<close>

datatype io_buf = Flat sdio_buffer | Linked t_u32 "sdio_buffer list"

datatype xfer =
    Sdio_write t_u32 "t_u8 list"
  | Sdio_read t_u32 nat
  | Write_reg t_u32 t_u32
  | Read_reg t_u32

datatype up_call =
    Write_data_complete sdio_buffer mlan_status
  | Handle_rx_packet sdio_buffer
  | Free_buffer sdio_buffer
  | Handle_diag_rx_packet sdio_buffer
  | Host_sleep_activated

record sdio_env =
  bus :: "xfer list \<Rightarrow> mlan_status \<times> t_u8 list"
  reg_value :: "xfer list \<Rightarrow> t_u32"
  alloc :: "nat \<Rightarrow> nat option" \<comment> \<open>the n-th allocation: none, or the distance of its address from the next aligned one\<close>

record sdio_mpa_tx =
  tx_buf :: "t_u8 list option"
  tx_buf_len :: t_u32
  tx_pkt_cnt :: nat
  tx_ports :: t_u32
  tx_start_port :: nat
  tx_enabled :: bool
  tx_buf_size :: t_u32
  tx_pkt_aggr_limit :: nat
  mp_wr_info :: "t_u16 list"
  tx_mbuf_arr :: "sdio_buffer option list"

record sdio_mpa_rx =
  rx_aggr_buf :: "t_u8 list option"
  rx_buf_len :: t_u32
  rx_pkt_cnt :: nat
  rx_ports :: t_u32
  rx_start_port :: nat
  rx_mbuf_arr :: "sdio_buffer option list"
  rx_len_arr :: "t_u32 list"
  rx_enabled :: bool
  rx_buf_size :: t_u32
  rx_pkt_aggr_limit :: nat

text \<open>The last ten writes to data ports, kept for the debug dump.\<close>

record mp_write_log =
  last_mp_wr_bitmap :: "t_u32 list"
  last_mp_wr_ports :: "t_u32 list"
  last_mp_wr_len :: "t_u32 list"
  last_mp_wr_info :: "t_u16 list"
  last_curr_wr_port :: "nat list"
  last_mp_index :: nat

record sdio_dbg =
  mp_update :: "t_u32 list"
  mp_invalid_update :: t_u32
  mpa_tx_count :: "t_u32 list"
  mpa_rx_count :: "t_u32 list"
  mpa_sent_last_pkt :: t_u32
  mpa_sent_no_ports :: t_u32
  last_recv_wr_bitmap :: t_u32
  num_int_read_failure :: t_u32
  last_int_status :: t_u32
  num_of_irq :: t_u32
  num_cmdevt_card_to_host_failure :: t_u32
  num_rx_card_to_host_failure :: t_u32
  num_alloc_buffer_failure :: t_u32
  num_pkt_dropped :: t_u32
  diag_num_error :: t_u32

record sdio_ctx =
  ioport :: t_u32
  mp_rd_bitmap :: t_u32
  mp_wr_bitmap :: t_u32
  mp_end_port :: nat
  mp_data_port_mask :: t_u32
  curr_rd_port :: nat
  curr_wr_port :: nat
  mp_regs :: "t_u8 list"
  rx_buf :: "t_u8 list"
  sdio_ireg :: t_u8
  mpa_tx :: sdio_mpa_tx
  mpa_rx :: sdio_mpa_rx
  wr_log :: mp_write_log
  sd_dbg :: sdio_dbg
  dev_tx_buf_size :: t_u16
  max_segs :: nat
  max_seg_size :: t_u32
  max_sp_tx_size :: t_u16
  max_sp_rx_size :: t_u16
  sdio_rx_aggr_enable :: bool
  sdio_rx_block_size :: nat
  enable_net_mon :: bool
  diag_enabled :: bool
  data_sent :: bool
  cmd_sent :: bool
  data_received :: bool
  cmd_resp_received :: bool
  event_received :: bool
  upld_len :: t_u32
  upld_buf :: "t_u8 list"
  event_cause :: t_u32
  event_body :: "t_u8 list"
  pmlan_buffer_event :: "sdio_buffer option"
  sd_curr_cmd :: bool
  sd_respbuf :: "sdio_buffer option"
  rx_work_flag :: bool
  rx_pkts_queued :: t_u16
  rx_data_queue :: "sdio_buffer list"
  sd_ps_state :: sd_ps_state
  sd_wakeup_card_req :: bool
  sd_wakeup_fw_try :: bool
  sd_uapsd_mode :: bool
  sd_hs_configured :: bool
  allocs :: nat
  xfers :: "xfer list"
  up_calls :: "up_call list"

definition call_up :: "up_call list \<Rightarrow> sdio_ctx \<Rightarrow> sdio_ctx" where
  "call_up cs s = s\<lparr>up_calls := up_calls s @ cs\<rparr>"

definition note_xfer :: "xfer \<Rightarrow> sdio_ctx \<Rightarrow> sdio_ctx" where
  "note_xfer x s = s\<lparr>xfers := xfers s @ [x]\<rparr>"

text \<open>\<^verbatim>\<open>1 << p\<close> is defined for the 32 bits of an \<^verbatim>\<open>int\<close>.\<close>

definition shl1 :: "nat \<Rightarrow> t_u32 option" where
  "shl1 p = (if p < 32 then Some (push_bit p 1) else None)"

subsection \<open>One transfer\<close>

text \<open>The bytes that go over the bus in block mode or, for the registers, in byte mode.\<close>

definition transfer_len :: "t_u32 \<Rightarrow> t_u32 \<Rightarrow> nat" where
  "transfer_len port len =
     (if port AND MLAN_SDIO_BYTE_MODE_MASK \<noteq> 0 then unat len
      else unat len div MLAN_SDIO_BLOCK_SIZE * MLAN_SDIO_BLOCK_SIZE)"

definition gather :: "sdio_buffer list \<Rightarrow> t_u8 list option" where
  "gather bs = map_option concat (those (map (\<lambda>b. rd (pbuf b) (data_offset b) (unat (data_len b))) bs))"

fun scatter :: "t_u8 list \<Rightarrow> sdio_buffer list \<Rightarrow> sdio_buffer list option" where
  "scatter bytes [] = Some []"
| "scatter bytes (b # bs) = do {
     mem \<leftarrow> wr (pbuf b) (data_offset b) (take (unat (data_len b)) bytes);
     rest \<leftarrow> scatter (drop (unat (data_len b)) bytes) bs;
     Some (b\<lparr>pbuf := mem\<rparr> # rest) }"

text \<open>What the bus delivers, cut or filled up to the length asked for.\<close>

definition delivered :: "nat \<Rightarrow> t_u8 list \<Rightarrow> t_u8 list" where
  "delivered n bytes = take n (bytes @ replicate n 0)"

definition woal_write_data_sync :: "sdio_env \<Rightarrow> io_buf \<Rightarrow> t_u32 \<Rightarrow> sdio_ctx \<Rightarrow> (mlan_status \<times> sdio_ctx) option" where
  "woal_write_data_sync e io port s =
     (case io of
        Flat b \<Rightarrow> do {
          bytes \<leftarrow> rd (pbuf b) (data_offset b) (transfer_len port (data_len b));
          let s1 = note_xfer (Sdio_write (port AND MLAN_SDIO_IO_PORT_MASK) bytes) s;
          Some (fst (bus e (xfers s1)), s1) }
      | Linked len bs \<Rightarrow>
          if length bs \<le> 1 then None
          else if length bs > SDIO_MP_AGGR_DEF_PKT_LIMIT then Some (MLAN_STATUS_FAILURE, s)
          else do {
            bytes \<leftarrow> gather bs;
            let s1 = note_xfer (Sdio_write (port AND MLAN_SDIO_IO_PORT_MASK) (take (transfer_len 0 len) bytes)) s;
            Some (fst (bus e (xfers s1)), s1) })"

definition woal_read_data_sync :: "sdio_env \<Rightarrow> io_buf \<Rightarrow> t_u32 \<Rightarrow> sdio_ctx \<Rightarrow> (mlan_status \<times> io_buf \<times> sdio_ctx) option" where
  "woal_read_data_sync e io port s =
     (case io of
        Flat b \<Rightarrow> do {
          let n = transfer_len port (data_len b);
          let s1 = note_xfer (Sdio_read (port AND MLAN_SDIO_IO_PORT_MASK) n) s;
          let (st, bytes) = bus e (xfers s1);
          mem \<leftarrow> wr (pbuf b) (data_offset b) (delivered n bytes);
          Some (st, Flat (if st = MLAN_STATUS_SUCCESS then b\<lparr>pbuf := mem\<rparr> else b), s1) }
      | Linked len bs \<Rightarrow>
          if length bs \<le> 1 then None
          else if length bs > SDIO_MP_AGGR_DEF_PKT_LIMIT then Some (MLAN_STATUS_FAILURE, io, s)
          else do {
            let n = transfer_len 0 len;
            let s1 = note_xfer (Sdio_read (port AND MLAN_SDIO_IO_PORT_MASK) n) s;
            let (st, bytes) = bus e (xfers s1);
            bs' \<leftarrow> scatter (delivered n bytes) bs;
            Some (st, Linked len (if st = MLAN_STATUS_SUCCESS then bs' else bs), s1) })"

definition set_io_status :: "t_u32 \<Rightarrow> io_buf \<Rightarrow> io_buf" where
  "set_io_status c io = (case io of Flat b \<Rightarrow> Flat (b\<lparr>status_code := c\<rparr>) | Linked len bs \<Rightarrow> io)"

text \<open>After a failed transfer the card is told to abandon it.\<close>

definition terminate_cmd53 :: "sdio_ctx \<Rightarrow> sdio_ctx" where
  "terminate_cmd53 = note_xfer (Write_reg HOST_TO_CARD_EVENT_REG HOST_TERM_CMD53)"

text \<open>The loop of \<^verbatim>\<open>wlan_write_data_sync\<close>, with the number of attempts still allowed after this one.\<close>

fun write_tries :: "sdio_env \<Rightarrow> io_buf \<Rightarrow> t_u32 \<Rightarrow> nat \<Rightarrow> sdio_ctx \<Rightarrow> (mlan_status \<times> sdio_ctx) option" where
  "write_tries e io port n s = do {
     (st, s1) \<leftarrow> woal_write_data_sync e io port s;
     if st = MLAN_STATUS_SUCCESS then Some (MLAN_STATUS_SUCCESS, s1)
     else (case n of
             0 \<Rightarrow> Some (MLAN_STATUS_FAILURE, terminate_cmd53 s1)
           | Suc m \<Rightarrow> write_tries e io port m (terminate_cmd53 s1)) }"

definition wlan_write_data_sync :: "sdio_env \<Rightarrow> io_buf \<Rightarrow> t_u32 \<Rightarrow> sdio_ctx \<Rightarrow> (mlan_status \<times> io_buf \<times> sdio_ctx) option" where
  "wlan_write_data_sync e io port s = do {
     (st, s1) \<leftarrow> write_tries e io port MAX_WRITE_IOMEM_RETRY s;
     Some (st, if st = MLAN_STATUS_FAILURE then set_io_status MLAN_ERROR_DATA_TX_FAIL io else io, s1) }"

text \<open>
  The loop of the two functions that read.  An answer that is neither success nor failure ends it, and the caller
  goes on with what was read; the flag says that the loop was left with the attempts used up.
\<close>

fun read_tries :: "sdio_env \<Rightarrow> io_buf \<Rightarrow> t_u32 \<Rightarrow> nat \<Rightarrow> sdio_ctx \<Rightarrow> (mlan_status \<times> bool \<times> io_buf \<times> sdio_ctx) option" where
  "read_tries e io port n s = do {
     (st, io1, s1) \<leftarrow> woal_read_data_sync e io port s;
     if st = MLAN_STATUS_SUCCESS then Some (st, False, io1, s1)
     else (case n of
             0 \<Rightarrow> Some (MLAN_STATUS_FAILURE, True, io1, terminate_cmd53 s1)
           | Suc m \<Rightarrow> if st = MLAN_STATUS_FAILURE then read_tries e io1 port m (terminate_cmd53 s1)
                     else Some (st, False, io1, terminate_cmd53 s1)) }"

declare write_tries.simps [simp del] read_tries.simps [simp del]

subsection \<open>Allocating a buffer\<close>

text \<open>The two ways of \<^verbatim>\<open>wlan_alloc_mlan_buffer\<close>: as ordinary memory, without head room, or as a socket buffer.\<close>

datatype alloc_flag = MOAL_MALLOC_BUFFER | MOAL_ALLOC_MLAN_BUFFER

definition wlan_alloc_mlan_buffer :: "sdio_env \<Rightarrow> t_u32 \<Rightarrow> nat \<Rightarrow> alloc_flag \<Rightarrow> sdio_ctx \<Rightarrow> sdio_buffer option \<times> sdio_ctx" where
  "wlan_alloc_mlan_buffer e len head_room flag s =
     (let n = (len + 255) div 256 * 256;
          s1 = s\<lparr>allocs := allocs s + 1\<rparr>;
          mk = (\<lambda>n_bytes off. \<lparr>sb_id = allocs s, pbuf = replicate n_bytes 0, data_offset = off, data_len = n,
                 status_code = 0, buf_type = 0\<rparr>)
      in case alloc e (allocs s) of
           None \<Rightarrow> (None, s1)
         | Some a \<Rightarrow>
             (case flag of
                MOAL_MALLOC_BUFFER \<Rightarrow> (Some (mk (unat n + (32 - a mod 32)) 0), s1)
              | MOAL_ALLOC_MLAN_BUFFER \<Rightarrow> (Some (mk (unat n + 32 + head_room) (head_room + a mod 32)), s1)))"

end
