(* ===== verification/Sdio_Tx.thy ===== *)
theory Sdio_Tx
  imports Sdio_State
begin

text \<open>
  Sending over the bus (\<^verbatim>\<open>mlan_sdio.c\<close>): the next port to write to, collecting packets of consecutive ports, the
  transfer of what was collected, commands; and the settings that this depends on: the answer of the card that
  gives the number of ports, the request of user space that changes limits and buffers, and allocating and freeing
  the aggregation buffers.
\<close>

subsection \<open>Ports\<close>

definition port_free :: "sdio_ctx \<Rightarrow> bool option" where
  "port_free s = map_option (\<lambda>m. mp_wr_bitmap s AND m \<noteq> 0) (shl1 (curr_wr_port s))"

definition wlan_get_wr_port_data :: "sdio_ctx \<Rightarrow> (mlan_status \<times> nat \<times> sdio_ctx) option" where
  "wlan_get_wr_port_data s =
     (if mp_wr_bitmap s AND mp_data_port_mask s = 0 then Some (MLAN_STATUS_RESOURCE, 0, s\<lparr>data_sent := True\<rparr>)
      else do {
        m \<leftarrow> shl1 (curr_wr_port s);
        if mp_wr_bitmap s AND m \<noteq> 0
        then let port = curr_wr_port s; next = (port + 1) mod 256
             in Some (MLAN_STATUS_SUCCESS, port,
                  s\<lparr>mp_wr_bitmap := mp_wr_bitmap s AND NOT m, curr_wr_port := (if next = mp_end_port s then 0 else next)\<rparr>)
        else Some (MLAN_STATUS_RESOURCE, 0, s\<lparr>data_sent := True\<rparr>) })"

subsection \<open>The collected packets\<close>

definition MP_TX_AGGR_BUF_HAS_ROOM :: "sdio_ctx \<Rightarrow> t_u32 \<Rightarrow> bool" where
  "MP_TX_AGGR_BUF_HAS_ROOM s len \<longleftrightarrow> tx_buf_len (mpa_tx s) + len \<le> tx_buf_size (mpa_tx s)"

text \<open>What both kinds of collecting note about a packet.\<close>

definition mp_tx_put_common :: "sdio_buffer \<Rightarrow> nat \<Rightarrow> sdio_mpa_tx \<Rightarrow> sdio_mpa_tx option" where
  "mp_tx_put_common b port t = do {
     h \<leftarrow> rd (pbuf b) (data_offset b) 2;
     info \<leftarrow> arr_set (mp_wr_info t) (int (tx_pkt_cnt t)) (of_le16 h);
     m \<leftarrow> shl1 port;
     Some (t\<lparr>tx_buf_len := tx_buf_len t + data_len b, mp_wr_info := info,
             tx_start_port := (if tx_pkt_cnt t = 0 then port else tx_start_port t),
             tx_ports := tx_ports t OR m, tx_pkt_cnt := tx_pkt_cnt t + 1\<rparr>) }"

definition MP_TX_AGGR_BUF_PUT :: "sdio_buffer \<Rightarrow> nat \<Rightarrow> sdio_mpa_tx \<Rightarrow> sdio_mpa_tx option" where
  "MP_TX_AGGR_BUF_PUT b port t = do {
     buf \<leftarrow> tx_buf t;
     bytes \<leftarrow> rd (pbuf b) (data_offset b) (unat (data_len b));
     buf' \<leftarrow> wr buf (unat (tx_buf_len t)) bytes;
     mp_tx_put_common b port (t\<lparr>tx_buf := Some buf'\<rparr>) }"

definition MP_TX_AGGR_BUF_PUT_SG :: "sdio_buffer \<Rightarrow> nat \<Rightarrow> sdio_mpa_tx \<Rightarrow> sdio_mpa_tx option" where
  "MP_TX_AGGR_BUF_PUT_SG b port t = do {
     arr \<leftarrow> arr_set (tx_mbuf_arr t) (int (tx_pkt_cnt t)) (Some b);
     mp_tx_put_common b port (t\<lparr>tx_mbuf_arr := arr\<rparr>) }"

definition MP_TX_AGGR_BUF_RESET :: "sdio_mpa_tx \<Rightarrow> sdio_mpa_tx" where
  "MP_TX_AGGR_BUF_RESET t = t\<lparr>mp_wr_info := replicate SDIO_MP_AGGR_DEF_PKT_LIMIT 0, tx_pkt_cnt := 0, tx_buf_len := 0,
     tx_ports := 0, tx_start_port := 0\<rparr>"

subsection \<open>Writing\<close>

text \<open>The record of a write in the ring for the debug dump.\<close>

definition note_mp_write :: "t_u32 \<Rightarrow> t_u32 \<Rightarrow> t_u16 list \<Rightarrow> sdio_ctx \<Rightarrow> sdio_ctx option" where
  "note_mp_write port len info s = do {
     let l = wr_log s;
     let i = last_mp_index l;
     bm \<leftarrow> arr_set (last_mp_wr_bitmap l) (int i) (mp_wr_bitmap s);
     ps \<leftarrow> arr_set (last_mp_wr_ports l) (int i) port;
     ls \<leftarrow> arr_set (last_mp_wr_len l) (int i) len;
     cp \<leftarrow> arr_set (last_curr_wr_port l) (int i) (curr_wr_port s);
     let off = i * SDIO_MP_AGGR_DEF_PKT_LIMIT;
     inf \<leftarrow> (if off + length info \<le> length (last_mp_wr_info l)
            then Some (take off (last_mp_wr_info l) @ info @ drop (off + length info) (last_mp_wr_info l)) else None);
     Some (s\<lparr>wr_log := \<lparr>last_mp_wr_bitmap = bm, last_mp_wr_ports = ps, last_mp_wr_len = ls, last_mp_wr_info = inf,
               last_curr_wr_port = cp, last_mp_index = (if i + 1 \<ge> SDIO_MP_DBG_NUM then 0 else i + 1)\<rparr>\<rparr>) }"

definition count_tx :: "nat \<Rightarrow> sdio_ctx \<Rightarrow> sdio_ctx option" where
  "count_tx i s = do {
     v \<leftarrow> arr_get (mpa_tx_count (sd_dbg s)) (int i);
     cs \<leftarrow> arr_set (mpa_tx_count (sd_dbg s)) (int i) (v + 1);
     Some (s\<lparr>sd_dbg := (sd_dbg s)\<lparr>mpa_tx_count := cs\<rparr>\<rparr>) }"

definition count_no_port :: "bool \<Rightarrow> sdio_ctx \<Rightarrow> sdio_ctx option" where
  "count_no_port cond s = do {
     free \<leftarrow> port_free s;
     Some (if \<not> free \<and> cond then s\<lparr>sd_dbg := (sd_dbg s)\<lparr>mpa_sent_no_ports := mpa_sent_no_ports (sd_dbg s) + 1\<rparr>\<rparr> else s) }"

definition mpa_address :: "sdio_ctx \<Rightarrow> t_u32 \<Rightarrow> nat \<Rightarrow> t_u32" where
  "mpa_address s ports start =
     (ioport s OR SDIO_MPA_ADDR_BASE OR push_bit 8 (bitcount ports - 1)) + of_nat start"

definition wlan_send_mp_aggr_buf :: "sdio_env \<Rightarrow> sdio_ctx \<Rightarrow> (mlan_status \<times> sdio_ctx) option" where
  "wlan_send_mp_aggr_buf e s =
     (let t = mpa_tx s; n = tx_pkt_cnt t
      in if n = 0 then Some (MLAN_STATUS_SUCCESS, s)
         else do {
           held \<leftarrow> (if tx_buf t = None then if n \<le> length (tx_mbuf_arr t) then those (take n (tx_mbuf_arr t)) else None
                   else Some []);
           let port = (if n = 1 then ioport s + of_nat (tx_start_port t) else mpa_address s (tx_ports t) (tx_start_port t));
           let io = (case tx_buf t of
                 Some buf \<Rightarrow> Flat \<lparr>sb_id = 0, pbuf = buf, data_offset = 0, data_len = tx_buf_len t, status_code = 0, buf_type = 0\<rparr>
               | None \<Rightarrow> if n = 1 then Flat (hd held) else Linked (tx_buf_len t) held);
           (ret, io1, s1) \<leftarrow> wlan_write_data_sync e io port s;
           let sent = (case io1 of Flat b \<Rightarrow> if tx_buf t = None then [b] else [] | Linked len bs \<Rightarrow> bs);
           let s2 = call_up (map (\<lambda>b. Write_data_complete b MLAN_STATUS_SUCCESS) sent) s1;
           s3 \<leftarrow> count_no_port (n < SDIO_MP_AGGR_DEF_PKT_LIMIT) s2;
           s4 \<leftarrow> count_tx (n - 1) s3;
           s5 \<leftarrow> note_mp_write port (tx_buf_len t) (mp_wr_info t) s4;
           Some (ret, s5\<lparr>mpa_tx := MP_TX_AGGR_BUF_RESET (mpa_tx s5)\<rparr>) })"

text \<open>
  What to do with the current packet: send what was collected, send the packet on its own, collect it before
  or after that.  \<open>room\<close> and \<open>room_next\<close> say whether the packet, and the packet with the next one, still fits.
\<close>

record aggr_flags =
  f_send_aggr_buf :: bool
  f_send_cur_buf :: bool
  f_precopy_cur_buf :: bool
  f_postcopy_cur_buf :: bool

definition mp_aggr_flags :: "bool \<Rightarrow> bool \<Rightarrow> bool \<Rightarrow> bool \<Rightarrow> bool \<Rightarrow> aggr_flags" where
  "mp_aggr_flags more_pkts in_progress room room_next free =
     (let none = \<lparr>f_send_aggr_buf = False, f_send_cur_buf = False, f_precopy_cur_buf = False, f_postcopy_cur_buf = False\<rparr>
      in if more_pkts
         then if in_progress
              then if room
                   then none\<lparr>f_precopy_cur_buf := True, f_send_aggr_buf := (\<not> free \<or> \<not> room_next)\<rparr>
                   else if \<not> free then none\<lparr>f_send_aggr_buf := True, f_send_cur_buf := True\<rparr>
                        else none\<lparr>f_send_aggr_buf := True, f_postcopy_cur_buf := True\<rparr>
              else if room \<and> free then none\<lparr>f_precopy_cur_buf := True\<rparr> else none\<lparr>f_send_cur_buf := True\<rparr>
         else if in_progress
              then if room then none\<lparr>f_send_aggr_buf := True, f_precopy_cur_buf := True\<rparr>
                   else none\<lparr>f_send_aggr_buf := True, f_send_cur_buf := True\<rparr>
              else none\<lparr>f_send_cur_buf := True\<rparr>)"

definition collect_tx :: "sdio_buffer \<Rightarrow> nat \<Rightarrow> sdio_ctx \<Rightarrow> sdio_ctx option" where
  "collect_tx b port s = do {
     t \<leftarrow> (if tx_buf (mpa_tx s) = None then MP_TX_AGGR_BUF_PUT_SG b port (mpa_tx s) else MP_TX_AGGR_BUF_PUT b port (mpa_tx s));
     Some (s\<lparr>mpa_tx := t\<rparr>) }"

text \<open>Sending the current packet on its own.\<close>

definition send_single :: "sdio_env \<Rightarrow> sdio_buffer \<Rightarrow> nat \<Rightarrow> sdio_ctx \<Rightarrow> (mlan_status \<times> sdio_buffer \<times> sdio_ctx) option" where
  "send_single e b port s = do {
     (ret, io1, s1) \<leftarrow> wlan_write_data_sync e (Flat b) (ioport s + of_nat port) s;
     let b1 = (case io1 of Flat b' \<Rightarrow> b' | Linked len bs \<Rightarrow> b);
     s2 \<leftarrow> count_no_port True s1;
     h \<leftarrow> rd (pbuf b) (data_offset b) 2;
     s3 \<leftarrow> note_mp_write (ioport s + of_nat port) (data_len b) (of_le16 h # replicate (SDIO_MP_AGGR_DEF_PKT_LIMIT - 1) 0) s2;
     s4 \<leftarrow> count_tx 0 s3;
     Some (ret, b1, s4) }"

definition wlan_host_to_card_mp_aggr :: "sdio_env \<Rightarrow> sdio_buffer \<Rightarrow> nat \<Rightarrow> t_u32 \<Rightarrow> sdio_ctx
    \<Rightarrow> (mlan_status \<times> sdio_buffer \<times> sdio_ctx) option" where
  "wlan_host_to_card_mp_aggr e b port next_pkt_len s =
     (if \<not> tx_enabled (mpa_tx s) then send_single e b port s
      else do {
        free \<leftarrow> port_free s;
        let f = mp_aggr_flags (next_pkt_len \<noteq> 0) (tx_pkt_cnt (mpa_tx s) > 0) (MP_TX_AGGR_BUF_HAS_ROOM s (data_len b))
                  (MP_TX_AGGR_BUF_HAS_ROOM s (data_len b + next_pkt_len)) free;
        let s0 = (if next_pkt_len \<noteq> 0 then s
                  else s\<lparr>sd_dbg := (sd_dbg s)\<lparr>mpa_sent_last_pkt := mpa_sent_last_pkt (sd_dbg s) + 1\<rparr>\<rparr>);
        s1 \<leftarrow> (if f_precopy_cur_buf f then collect_tx b port s0 else Some s0);
        let send = (f_send_aggr_buf f \<or> f_precopy_cur_buf f \<and> tx_pkt_cnt (mpa_tx s1) = tx_pkt_aggr_limit (mpa_tx s1));
        let sg = tx_buf (mpa_tx s) = None;
        (ret1, s2) \<leftarrow> (if send then wlan_send_mp_aggr_buf e s1 else Some (MLAN_STATUS_SUCCESS, s1));
        (ret2, b2, s3) \<leftarrow> (if f_send_cur_buf f then send_single e b port s2 else Some (ret1, b, s2));
        s4 \<leftarrow> (if f_postcopy_cur_buf f then collect_tx b port s3 else Some s3);
        Some (if sg \<and> (f_precopy_cur_buf f \<or> f_postcopy_cur_buf f) then MLAN_STATUS_PENDING else ret2, b2, s4) })"

definition sdio_blocks :: "t_u32 \<Rightarrow> t_u32" where
  "sdio_blocks len = (len + 256 - 1) div 256"

text \<open>The interface header: the length, rounded up to blocks if that fits, and the type.\<close>

definition put_intf_header :: "sdio_ctx \<Rightarrow> t_u32 \<Rightarrow> sdio_buffer \<Rightarrow> sdio_buffer option" where
  "put_intf_header s type b =
     (let rounded = 256 * sdio_blocks (data_len b);
          max_size = (if type = MLAN_TYPE_CMD then SIZE_OF_CMD_BUFFER else ucast (dev_tx_buf_size s));
          len = (if rounded \<le> max_size then rounded else data_len b)
      in do {
        mem \<leftarrow> wr (pbuf b) (data_offset b) (le16_bytes (ucast len) @ le16_bytes (ucast type));
        Some (b\<lparr>pbuf := mem\<rparr>) })"

text \<open>\<open>next_pkt_len\<close> is none when the caller passes no parameters.\<close>

definition wlan_sdio_host_to_card :: "sdio_env \<Rightarrow> t_u32 \<Rightarrow> sdio_buffer \<Rightarrow> t_u32 option \<Rightarrow> sdio_ctx
    \<Rightarrow> (mlan_status \<times> sdio_buffer \<times> sdio_ctx) option" where
  "wlan_sdio_host_to_card e type b0 next_pkt_len s = do {
     b \<leftarrow> put_intf_header s type b0;
     let rounded = sdio_blocks (data_len b0) * 256;
     if type = MLAN_TYPE_DATA \<or> type = MLAN_TYPE_DIAG
     then do {
       (st, port, s1) \<leftarrow> wlan_get_wr_port_data s;
       if st \<noteq> MLAN_STATUS_SUCCESS then Some (st, b, s1)
       else do {
         (ret, b2, s2) \<leftarrow> wlan_host_to_card_mp_aggr e (b\<lparr>data_len := rounded\<rparr>) port
                           (case next_pkt_len of None \<Rightarrow> 0 | Some n \<Rightarrow> n) s1;
         if ret = MLAN_STATUS_FAILURE
         then Some (ret, b2, if type = MLAN_TYPE_DATA then s2\<lparr>data_sent := False\<rparr> else s2)
         else do { free \<leftarrow> port_free s2; Some (ret, b2, s2\<lparr>data_sent := \<not> free\<rparr>) } } }
     else do {
       (ret, io, s1) \<leftarrow> wlan_write_data_sync e (Flat (b\<lparr>data_len := rounded\<rparr>)) (ioport s OR CMD_PORT_SLCT) (s\<lparr>cmd_sent := True\<rparr>);
       let b2 = (case io of Flat b' \<Rightarrow> b' | Linked len bs \<Rightarrow> b);
       Some (ret, b2, if ret = MLAN_STATUS_FAILURE \<and> type = MLAN_TYPE_CMD then s1\<lparr>cmd_sent := False\<rparr> else s1) } }"

subsection \<open>Settings\<close>

text \<open>Clearing the bits of the ports the card does not have; none is cleared when it claims more than 32.\<close>

fun clear_port_bits :: "nat \<Rightarrow> t_u32 \<Rightarrow> t_u32" where
  "clear_port_bits 0 m = m"
| "clear_port_bits (Suc n) m = clear_port_bits n m AND NOT (push_bit (MAX_PORT - Suc n) 1)"

text \<open>The answer to \<^verbatim>\<open>HostCmd_CMD_RECONFIGURE_TX_BUFF\<close>.\<close>

definition reconfigure_tx_buff :: "t_u16 \<Rightarrow> t_u16 \<Rightarrow> sdio_ctx \<Rightarrow> sdio_ctx" where
  "reconfigure_tx_buff buff_size end_port s =
     s\<lparr>dev_tx_buf_size := buff_size div 256 * 256, mp_end_port := unat end_port,
       mp_data_port_mask := clear_port_bits (MAX_PORT - unat end_port) DATA_PORT_MASK, curr_wr_port := 0,
       mpa_tx := (mpa_tx s)\<lparr>tx_pkt_aggr_limit := min SDIO_MP_AGGR_DEF_PKT_LIMIT (unat end_port div 2)\<rparr>\<rparr>"

text \<open>The settings of the bus layer at start.\<close>

definition init_sdio_ports :: "bool \<Rightarrow> bool \<Rightarrow> sdio_ctx \<Rightarrow> sdio_ctx" where
  "init_sdio_ports tx_cfg rx_cfg s =
     s\<lparr>cmd_sent := False, data_sent := True, mp_rd_bitmap := 0, mp_wr_bitmap := 0, curr_rd_port := 0, curr_wr_port := 0,
       mp_data_port_mask := DATA_PORT_MASK,
       sd_dbg := (sd_dbg s)\<lparr>mp_invalid_update := 0, mp_update := replicate 32 0\<rparr>,
       mpa_tx := (mpa_tx s)\<lparr>tx_buf_len := 0, tx_pkt_cnt := 0, tx_start_port := 0, tx_enabled := tx_cfg,
                   tx_pkt_aggr_limit := SDIO_MP_AGGR_DEF_PKT_LIMIT\<rparr>,
       mpa_rx := (mpa_rx s)\<lparr>rx_buf_len := 0, rx_pkt_cnt := 0, rx_start_port := 0, rx_enabled := rx_cfg,
                   rx_pkt_aggr_limit := SDIO_MP_AGGR_DEF_PKT_LIMIT\<rparr>,
       rx_pkts_queued := 0, cmd_resp_received := False, event_received := False, data_received := False\<rparr>"

text \<open>Allocated buffers are aligned; their contents do not matter.\<close>

definition wlan_free_sdio_mpa_buffers :: "sdio_ctx \<Rightarrow> sdio_ctx" where
  "wlan_free_sdio_mpa_buffers s =
     (let s1 = (if tx_buf (mpa_tx s) = None then s else s\<lparr>mpa_tx := (mpa_tx s)\<lparr>tx_buf := None, tx_buf_size := 0\<rparr>\<rparr>)
      in if rx_aggr_buf (mpa_rx s1) = None then s1
         else s1\<lparr>mpa_rx := (mpa_rx s1)\<lparr>rx_aggr_buf := None, rx_buf_size := 0\<rparr>\<rparr>)"

definition needs_buffer :: "t_u16 \<Rightarrow> sdio_ctx \<Rightarrow> bool" where
  "needs_buffer sp_size s \<longleftrightarrow> max_segs s < SDIO_MP_AGGR_DEF_PKT_LIMIT \<or> max_seg_size s < ucast sp_size"

text \<open>A buffer of the size asked for plus what aligning leaves of the 32 extra bytes; none when the allocation fails.\<close>

definition mpa_buffer :: "sdio_env \<Rightarrow> t_u32 \<Rightarrow> sdio_ctx \<Rightarrow> t_u8 list option \<times> sdio_ctx" where
  "mpa_buffer e sz s =
     (map_option (\<lambda>a. replicate (unat sz + (32 - a mod 32)) 0) (alloc e (allocs s)), s\<lparr>allocs := allocs s + 1\<rparr>)"

definition alloc_rx_mpa :: "sdio_env \<Rightarrow> t_u32 \<Rightarrow> sdio_ctx \<Rightarrow> mlan_status \<times> sdio_ctx" where
  "alloc_rx_mpa e sz s =
     (if needs_buffer (max_sp_rx_size s) s
      then case mpa_buffer e sz s of
             (None, s1) \<Rightarrow> (MLAN_STATUS_FAILURE, s1)
           | (Some buf, s1) \<Rightarrow> (MLAN_STATUS_SUCCESS, s1\<lparr>mpa_rx := (mpa_rx s1)\<lparr>rx_aggr_buf := Some buf, rx_buf_size := sz\<rparr>\<rparr>)
      else (MLAN_STATUS_SUCCESS, s\<lparr>mpa_rx := (mpa_rx s)\<lparr>rx_aggr_buf := None, rx_buf_size := sz\<rparr>\<rparr>))"

definition alloc_tx_mpa :: "sdio_env \<Rightarrow> t_u32 \<Rightarrow> sdio_ctx \<Rightarrow> mlan_status \<times> sdio_ctx" where
  "alloc_tx_mpa e sz s =
     (if needs_buffer (max_sp_tx_size s) s
      then case mpa_buffer e sz s of
             (None, s1) \<Rightarrow> (MLAN_STATUS_FAILURE, s1)
           | (Some buf, s1) \<Rightarrow> (MLAN_STATUS_SUCCESS, s1\<lparr>mpa_tx := (mpa_tx s1)\<lparr>tx_buf := Some buf, tx_buf_size := sz\<rparr>\<rparr>)
      else (MLAN_STATUS_SUCCESS, s\<lparr>mpa_tx := (mpa_tx s)\<lparr>tx_buf := None, tx_buf_size := sz\<rparr>\<rparr>))"

definition wlan_alloc_sdio_mpa_buffers :: "sdio_env \<Rightarrow> t_u32 \<Rightarrow> t_u32 \<Rightarrow> sdio_ctx \<Rightarrow> mlan_status \<times> sdio_ctx" where
  "wlan_alloc_sdio_mpa_buffers e tx_size rx_size s =
     (let (st1, s1) = alloc_tx_mpa e tx_size s;
          (st2, s2) = (if st1 = MLAN_STATUS_SUCCESS then alloc_rx_mpa e rx_size s1 else (st1, s1))
      in (st2, if st2 = MLAN_STATUS_SUCCESS then s2 else wlan_free_sdio_mpa_buffers s2))"

definition wlan_re_alloc_sdio_rx_mpa_buffer :: "sdio_env \<Rightarrow> sdio_ctx \<Rightarrow> mlan_status \<times> sdio_ctx" where
  "wlan_re_alloc_sdio_rx_mpa_buffer e s =
     (let s1 = (if rx_aggr_buf (mpa_rx s) = None then s
                else s\<lparr>mpa_rx := (mpa_rx s)\<lparr>rx_aggr_buf := None, rx_buf_size := 0\<rparr>\<rparr>);
          sz = (if sdio_rx_aggr_enable s1 then max SDIO_MP_RX_AGGR_DEF_BUF_SIZE SDIO_CMD53_MAX_SIZE
                  else SDIO_MP_RX_AGGR_DEF_BUF_SIZE)
      in alloc_rx_mpa e sz s1)"

text \<open>The answer to the configuration of single-port aggregation.\<close>

definition wlan_ret_sdio_rx_aggr_cfg :: "sdio_env \<Rightarrow> bool \<Rightarrow> t_u16 \<Rightarrow> sdio_ctx \<Rightarrow> sdio_ctx" where
  "wlan_ret_sdio_rx_aggr_cfg e enable block_size s =
     (let s1 = s\<lparr>sdio_rx_aggr_enable := (enable \<and> block_size \<noteq> 0), sdio_rx_block_size := unat block_size\<rparr>
      in if sdio_rx_aggr_enable s1
         then snd (wlan_re_alloc_sdio_rx_mpa_buffer e (s1\<lparr>max_sp_rx_size := ucast SDIO_CMD53_MAX_SIZE\<rparr>))
         else s1)"

record mpa_ctrl =
  mc_tx_enable :: t_u16
  mc_rx_enable :: t_u16
  mc_tx_buf_size :: t_u16
  mc_rx_buf_size :: t_u16
  mc_tx_max_ports :: t_u16
  mc_rx_max_ports :: t_u16

datatype mpa_ctrl_error = MPA_IOCTL_INVALID | MPA_INVALID_PARAMETER | MPA_NO_MEM

text \<open>The request of user space, to set (the first argument) or to read the settings.\<close>

definition wlan_misc_ioctl_sdio_mpa_ctrl :: "sdio_env \<Rightarrow> bool \<Rightarrow> bool \<Rightarrow> mpa_ctrl \<Rightarrow> sdio_ctx \<Rightarrow> (mpa_ctrl_error + mpa_ctrl) \<times> sdio_ctx" where
  "wlan_misc_ioctl_sdio_mpa_ctrl e is_set media_connected c s =
     (if \<not> is_set
      then (Inr \<lparr>mc_tx_enable = of_bool (tx_enabled (mpa_tx s)), mc_rx_enable = of_bool (rx_enabled (mpa_rx s)),
              mc_tx_buf_size = ucast (tx_buf_size (mpa_tx s)), mc_rx_buf_size = ucast (rx_buf_size (mpa_rx s)),
              mc_tx_max_ports = of_nat (tx_pkt_aggr_limit (mpa_tx s)), mc_rx_max_ports = of_nat (rx_pkt_aggr_limit (mpa_rx s))\<rparr>, s)
      else if media_connected then (Inl MPA_IOCTL_INVALID, s)
      else if mc_tx_enable c > 1 \<or> mc_rx_enable c > 1 \<or> mc_tx_max_ports c > of_nat SDIO_MP_AGGR_DEF_PKT_LIMIT
              \<or> mc_rx_max_ports c > of_nat SDIO_MP_AGGR_DEF_PKT_LIMIT
      then (Inl MPA_INVALID_PARAMETER, s)
      else
        let (st, s1) =
              (if mc_tx_buf_size c \<noteq> 0 \<or> mc_rx_buf_size c \<noteq> 0
               then let f = wlan_free_sdio_mpa_buffers s;
                        tx = (if mc_tx_buf_size c > 0 then ucast (mc_tx_buf_size c) else tx_buf_size (mpa_tx f));
                        rx = (if mc_rx_buf_size c > 0 then ucast (mc_rx_buf_size c) else rx_buf_size (mpa_rx f));
                        f1 = f\<lparr>mpa_tx := (mpa_tx f)\<lparr>tx_buf_size := tx\<rparr>, mpa_rx := (mpa_rx f)\<lparr>rx_buf_size := rx\<rparr>\<rparr>
                    in wlan_alloc_sdio_mpa_buffers e tx rx f1
               else (MLAN_STATUS_SUCCESS, s))
        in if st \<noteq> MLAN_STATUS_SUCCESS then (Inl MPA_NO_MEM, s1)
           else (Inr c, s1\<lparr>
             mpa_tx := (mpa_tx s1)\<lparr>tx_pkt_aggr_limit := (if mc_tx_max_ports c > 0 then unat (mc_tx_max_ports c)
                                    else tx_pkt_aggr_limit (mpa_tx s1)), tx_enabled := (mc_tx_enable c \<noteq> 0)\<rparr>,
             mpa_rx := (mpa_rx s1)\<lparr>rx_pkt_aggr_limit := (if mc_rx_max_ports c > 0 then unat (mc_rx_max_ports c)
                                    else rx_pkt_aggr_limit (mpa_rx s1)), rx_enabled := (mc_rx_enable c \<noteq> 0)\<rparr>\<rparr>))"

end
