(* ===== verification/Sdio_Rx.thy ===== *)
theory Sdio_Rx
  imports Sdio_State
begin

text \<open>
  Receiving over the bus (\<^verbatim>\<open>mlan_sdio.c\<close>): one transfer, taking apart a frame of several packets for one port, handing
  a buffer to the part of the driver its type names, receiving several ports in one transfer, and the handling of
  the interrupt status.  Diagnostic packets go to \<^verbatim>\<open>mlan_diag.c\<close>, a call here; \<^verbatim>\<open>upld_len\<close>, which that code changes
  as well, is written before every use.
\<close>

subsection \<open>One transfer\<close>

definition wlan_get_rd_port :: "sdio_ctx \<Rightarrow> (mlan_status \<times> nat \<times> sdio_ctx) option" where
  "wlan_get_rd_port s =
     (if mp_rd_bitmap s AND DATA_PORT_MASK = 0 then Some (MLAN_STATUS_FAILURE, 0, s)
      else do {
        m \<leftarrow> shl1 (curr_rd_port s);
        if mp_rd_bitmap s AND m \<noteq> 0
        then let port = curr_rd_port s; next = (port + 1) mod 256
             in Some (MLAN_STATUS_SUCCESS, port,
                  s\<lparr>mp_rd_bitmap := mp_rd_bitmap s AND NOT m, curr_rd_port := (if next = MAX_PORT then 0 else next)\<rparr>)
        else Some (MLAN_STATUS_FAILURE, 0, s) })"

definition io_single :: "sdio_buffer \<Rightarrow> io_buf \<Rightarrow> sdio_buffer" where
  "io_single b io = (case io of Flat b' \<Rightarrow> b' | Linked len bs \<Rightarrow> b)"

text \<open>The results: the status, the type of the packet (0 where the code has not set it) and the buffer; the length is \<^verbatim>\<open>upld_len\<close>.\<close>

definition wlan_sdio_card_to_host :: "sdio_env \<Rightarrow> sdio_buffer \<Rightarrow> t_u32 \<Rightarrow> t_u32 \<Rightarrow> sdio_ctx
    \<Rightarrow> (mlan_status \<times> t_u32 \<times> sdio_buffer \<times> sdio_ctx) option" where
  "wlan_sdio_card_to_host e b npayload port s = do {
     (st, gave_up, io, s1) \<leftarrow> read_tries e (Flat b) port MAX_WRITE_IOMEM_RETRY s;
     let b1 = io_single b io;
     if gave_up then Some (MLAN_STATUS_FAILURE, 0, b1\<lparr>status_code := MLAN_ERROR_DATA_RX_FAIL\<rparr>, s1)
     else do {
       h \<leftarrow> rd (pbuf b1) (data_offset b1) 2;
       let nb = (ucast (of_le16 h) :: t_u32);
       let s2 = s1\<lparr>upld_len := nb\<rparr>;
       if nb > npayload then Some (MLAN_STATUS_FAILURE, 0, b1\<lparr>status_code := MLAN_ERROR_PKT_SIZE_INVALID\<rparr>, s2)
       else do { t \<leftarrow> rd (pbuf b1) (data_offset b1 + 2) 2; Some (st, ucast (of_le16 t), b1, s2) } } }"

subsection \<open>Several packets in a frame for one port\<close>

text \<open>One round: stop, or the number of bytes the packet took.\<close>

definition spa_step :: "sdio_env \<Rightarrow> t_u8 list \<Rightarrow> nat \<Rightarrow> int \<Rightarrow> sdio_ctx \<Rightarrow> (nat option \<times> sdio_ctx) option" where
  "spa_step e buf pos todo s = do {
     bn \<leftarrow> rd buf (pos + 15) 1;
     let block_size = (sdio_rx_block_size s * unat (hd bn)) mod 65536;
     if int block_size > todo then Some (None, s)
     else do {
       h \<leftarrow> rd buf (pos + 28) 2;
       let pkt_len = (ucast (of_le16 h) :: t_u32);
       if unat pkt_len + 28 > block_size then Some (None, s)
       else (case wlan_alloc_mlan_buffer e (pkt_len - INTF_HDR) RX_HEADER_LEN MOAL_ALLOC_MLAN_BUFFER s of
               (None, s1) \<Rightarrow> Some (None, s1)
             | (Some b, s1) \<Rightarrow> do {
                 bytes \<leftarrow> rd buf (pos + 32) (unat (pkt_len - INTF_HDR));
                 mem \<leftarrow> wr (pbuf b) (data_offset b) bytes;
                 Some (Some block_size,
                   call_up [Handle_rx_packet (b\<lparr>pbuf := mem, data_len := pkt_len - INTF_HDR\<rparr>)] s1) }) } }"

lemma spa_step_progress: "spa_step e buf pos todo s = Some (Some k, s') \<Longrightarrow> 0 < k \<and> int k \<le> todo"
  by (auto simp: spa_step_def Let_def monad_simps split: if_splits option.splits prod.splits)

function spa_loop :: "sdio_env \<Rightarrow> t_u8 list \<Rightarrow> nat \<Rightarrow> int \<Rightarrow> sdio_ctx \<Rightarrow> sdio_ctx option" where
  "spa_loop e buf pos todo s =
     (if todo < 32 then Some s
      else case spa_step e buf pos todo s of
             None \<Rightarrow> None
           | Some (None, s1) \<Rightarrow> Some s1
           | Some (Some k, s1) \<Rightarrow>
               if todo - int k < int (sdio_rx_block_size s1) then Some s1
               else spa_loop e buf (pos + k) (todo - int k) s1)"
  by pat_completeness auto
termination
  by (relation "measure (\<lambda>(e, buf, pos, todo, s). nat todo)") (auto dest: spa_step_progress)

declare spa_loop.simps [simp del]

definition wlan_decode_spa_buffer :: "sdio_env \<Rightarrow> t_u8 list \<Rightarrow> nat \<Rightarrow> t_u32 \<Rightarrow> sdio_ctx \<Rightarrow> sdio_ctx option" where
  "wlan_decode_spa_buffer e buf pos len s =
     (if sint len < int (sdio_rx_block_size s) then Some s else spa_loop e buf pos (sint len) s)"

definition wlan_sdio_deaggr_rx_pkt :: "sdio_env \<Rightarrow> sdio_buffer \<Rightarrow> sdio_ctx \<Rightarrow> sdio_ctx option" where
  "wlan_sdio_deaggr_rx_pkt e b s =
     (if buf_type b = BUF_TYPE_SPA_DATA
      then map_option (call_up [Free_buffer b]) (wlan_decode_spa_buffer e (pbuf b) (data_offset b) (data_len b) s)
      else Some (call_up [Handle_rx_packet b] s))"

subsection \<open>Dispatch of a received buffer\<close>

abbreviation (input) PS_MODE_ENH :: t_u16 where "PS_MODE_ENH \<equiv> 0x00e4"

text \<open>The response to a sleep confirmation, at an offset of the buffer; its header is rewritten in place.\<close>

definition wlan_process_sleep_confirm_resp :: "sdio_buffer \<Rightarrow> nat \<Rightarrow> t_u32 \<Rightarrow> sdio_ctx \<Rightarrow> (sdio_buffer \<times> sdio_ctx) option" where
  "wlan_process_sleep_confirm_resp b off len s =
     (if len = 0 then Some (b, s)
      else do {
        result \<leftarrow> rd (pbuf b) (off + 6) 2;
        cmd \<leftarrow> rd (pbuf b) off 2;
        sn \<leftarrow> rd (pbuf b) (off + 4) 2;
        mem1 \<leftarrow> wr (pbuf b) (off + 4) (le16_bytes (of_le16 sn AND 0x00ff));
        mem2 \<leftarrow> wr mem1 off (le16_bytes (of_le16 cmd AND 0x0fff));
        let b1 = b\<lparr>pbuf := mem2\<rparr>;
        if of_le16 cmd AND 0x0fff \<noteq> PS_MODE_ENH then Some (b1, s)
        else if of_le16 result \<noteq> 0 then Some (b1, s\<lparr>sd_wakeup_card_req := False, sd_ps_state := SD_AWAKE\<rparr>)
        else Some (b1, (if sd_hs_configured s then call_up [Host_sleep_activated] s else s)
                         \<lparr>sd_wakeup_card_req := True, sd_ps_state := SD_SLEEP\<rparr>) })"

definition enqueue_rx :: "sdio_buffer \<Rightarrow> sdio_ctx \<Rightarrow> sdio_ctx" where
  "enqueue_rx b s = s\<lparr>rx_data_queue := rx_data_queue s @ [b], rx_pkts_queued := rx_pkts_queued s + 1\<rparr>"

text \<open>A command response that no command waits for.\<close>

definition decode_stray_cmd :: "sdio_buffer \<Rightarrow> sdio_ctx \<Rightarrow> sdio_ctx option" where
  "decode_stray_cmd b s = do {
     (b1, s1) \<leftarrow> (if sd_ps_state s = SD_SLEEP_CFM
                then wlan_process_sleep_confirm_resp b (data_offset b + 4) (upld_len s - INTF_HDR) s else Some (b, s));
     let len = upld_len s1 - INTF_HDR;
     bytes \<leftarrow> rd (pbuf b1) (data_offset b1 + 4) (unat (min SIZE_OF_CMD_BUFFER (len - INTF_HDR)));
     ub \<leftarrow> wr (upld_buf s1) 0 bytes;
     Some (call_up [Free_buffer b1] (s1\<lparr>upld_len := len, upld_buf := ub\<rparr>)) }"

definition wlan_decode_rx_packet :: "sdio_env \<Rightarrow> sdio_buffer \<Rightarrow> t_u32 \<Rightarrow> sdio_ctx \<Rightarrow> sdio_ctx option" where
  "wlan_decode_rx_packet e b type s =
     (if type = MLAN_TYPE_SPA_DATA
      then let b1 = b\<lparr>data_len := upld_len s\<rparr>
           in map_option (\<lambda>s'. s'\<lparr>data_received := True\<rparr>)
                (if rx_work_flag s then Some (enqueue_rx (b1\<lparr>buf_type := BUF_TYPE_SPA_DATA\<rparr>) s)
                 else map_option (call_up [Free_buffer b1])
                        (wlan_decode_spa_buffer e (pbuf b1) (data_offset b1) (data_len b1) s))
      else if type = MLAN_TYPE_DATA
      then if upld_len s > data_len b then Some (call_up [Free_buffer b] s)
           else let b1 = b\<lparr>data_len := upld_len s - INTF_HDR, data_offset := data_offset b + 4\<rparr>
                in Some ((if rx_work_flag s then enqueue_rx b1 s else call_up [Handle_rx_packet b1] s)\<lparr>data_received := True\<rparr>)
      else if type = MLAN_TYPE_CMD
      then if \<not> sd_curr_cmd s then decode_stray_cmd b s
           else let len = upld_len s - INTF_HDR
                in Some (s\<lparr>cmd_resp_received := True, upld_len := len,
                     sd_respbuf := Some (b\<lparr>data_len := len, data_offset := data_offset b + 4\<rparr>)\<rparr>)
      else if type = MLAN_TYPE_EVENT
      then do {
        ev \<leftarrow> rd (pbuf b) (data_offset b + 4) 4;
        body \<leftarrow> (if upld_len s > MLAN_EVENT_HEADER_LEN \<and> upld_len s - MLAN_EVENT_HEADER_LEN < MAX_EVENT_SIZE
                then do { bytes \<leftarrow> rd (pbuf b) (data_offset b + 8) (unat (upld_len s - MLAN_EVENT_HEADER_LEN));
                          wr (event_body s) 0 bytes }
                else Some (event_body s));
        Some (s\<lparr>event_cause := of_le32 ev, event_body := body, event_received := True,
                pmlan_buffer_event := Some (b\<lparr>data_len := upld_len s - INTF_HDR, data_offset := data_offset b + 4\<rparr>)\<rparr>) }
      else if type = MLAN_TYPE_DIAG then Some (call_up [Handle_diag_rx_packet (b\<lparr>data_len := upld_len s\<rparr>)] s)
      else Some (call_up [Free_buffer b] s))"

subsection \<open>Receiving several ports in one transfer\<close>

definition data_port_type :: "t_u32 \<Rightarrow> bool" where
  "data_port_type type \<longleftrightarrow> type \<in> {MLAN_TYPE_DATA, MLAN_TYPE_SPA_DATA, MLAN_TYPE_DIAG}"

definition MP_RX_AGGR_BUF_HAS_ROOM :: "sdio_ctx \<Rightarrow> t_u32 \<Rightarrow> bool" where
  "MP_RX_AGGR_BUF_HAS_ROOM s len \<longleftrightarrow> rx_buf_len (mpa_rx s) + len \<le> rx_buf_size (mpa_rx s)"

definition MP_RX_AGGR_PORT_LIMIT_REACHED :: "sdio_ctx \<Rightarrow> bool" where
  "MP_RX_AGGR_PORT_LIMIT_REACHED s =
     (let c = int (curr_rd_port s); start = int (rx_start_port (mpa_rx s)); half = int (mp_end_port s div 2)
      in c < start \<and> (32 - start) + c \<ge> half \<or> c - start \<ge> half)"

definition MP_RX_AGGR_SETUP :: "sdio_buffer \<Rightarrow> nat \<Rightarrow> t_u16 \<Rightarrow> sdio_ctx \<Rightarrow> sdio_ctx option" where
  "MP_RX_AGGR_SETUP b port rx_len s = do {
     let r = mpa_rx s;
     m \<leftarrow> shl1 port;
     arr \<leftarrow> arr_set (rx_mbuf_arr r) (int (rx_pkt_cnt r)) (Some b);
     lens \<leftarrow> arr_set (rx_len_arr r) (int (rx_pkt_cnt r)) (ucast rx_len);
     Some (s\<lparr>mpa_rx := r\<lparr>rx_buf_len := rx_buf_len r + ucast rx_len, rx_start_port := (if rx_pkt_cnt r = 0 then port else rx_start_port r),
                rx_ports := rx_ports r OR m, rx_mbuf_arr := arr, rx_len_arr := lens, rx_pkt_cnt := rx_pkt_cnt r + 1\<rparr>\<rparr>) }"

definition MP_RX_AGGR_BUF_RESET :: "sdio_ctx \<Rightarrow> sdio_ctx" where
  "MP_RX_AGGR_BUF_RESET s =
     s\<lparr>mpa_rx := (mpa_rx s)\<lparr>rx_pkt_cnt := 0, rx_buf_len := 0, rx_ports := 0, rx_start_port := 0\<rparr>\<rparr>"

definition count_rx :: "nat \<Rightarrow> sdio_ctx \<Rightarrow> sdio_ctx option" where
  "count_rx i s = do {
     v \<leftarrow> arr_get (mpa_rx_count (sd_dbg s)) (int i);
     cs \<leftarrow> arr_set (mpa_rx_count (sd_dbg s)) (int i) (v + 1);
     Some (s\<lparr>sd_dbg := (sd_dbg s)\<lparr>mpa_rx_count := cs\<rparr>\<rparr>) }"

text \<open>Reading one packet from a data port, which must be of a type for data ports, and passing it on.\<close>

definition receive_data :: "sdio_env \<Rightarrow> sdio_buffer \<Rightarrow> nat \<Rightarrow> t_u16 \<Rightarrow> sdio_ctx \<Rightarrow> (mlan_status \<times> sdio_buffer \<times> sdio_ctx) option" where
  "receive_data e b port rx_len s = do {
     (st, type, b1, s1) \<leftarrow> wlan_sdio_card_to_host e b (ucast rx_len) (ioport s + of_nat port) s;
     if st \<noteq> MLAN_STATUS_SUCCESS then Some (MLAN_STATUS_FAILURE, b1, s1)
     else if \<not> data_port_type type then Some (MLAN_STATUS_FAILURE, b1\<lparr>status_code := MLAN_ERROR_DATA_RX_FAIL\<rparr>, s1)
     else do {
       s2 \<leftarrow> count_rx 0 s1;
       s3 \<leftarrow> wlan_decode_rx_packet e b1 type s2;
       Some (MLAN_STATUS_SUCCESS, b1, s3) } }"

definition wlan_receive_single_packet :: "sdio_env \<Rightarrow> sdio_ctx \<Rightarrow> (mlan_status \<times> sdio_ctx) option" where
  "wlan_receive_single_packet e s = do {
     q \<leftarrow> arr_get (rx_mbuf_arr (mpa_rx s)) 0;
     b \<leftarrow> q;
     len \<leftarrow> arr_get (rx_len_arr (mpa_rx s)) 0;
     (ret, b1, s1) \<leftarrow> receive_data e b (rx_start_port (mpa_rx s)) (ucast len) s;
     Some (ret, MP_RX_AGGR_BUF_RESET (if ret = MLAN_STATUS_SUCCESS then s1 else call_up [Free_buffer b1] s1)) }"

text \<open>Without an aggregation buffer the packets are where they belong already.\<close>

fun deaggr_linked :: "sdio_env \<Rightarrow> sdio_buffer list \<Rightarrow> sdio_ctx \<Rightarrow> sdio_ctx option" where
  "deaggr_linked e [] s = Some s"
| "deaggr_linked e (b # bs) s = do {
     h \<leftarrow> rd (pbuf b) (data_offset b) 2;
     t \<leftarrow> rd (pbuf b) (data_offset b + 2) 2;
     s1 \<leftarrow> wlan_decode_rx_packet e b (ucast (of_le16 t)) (s\<lparr>upld_len := ucast (of_le16 h)\<rparr>);
     deaggr_linked e bs s1 }"

text \<open>Otherwise each packet is copied out of the buffer, if its header names a type for data ports and a length that fits.\<close>

definition deaggr_one :: "sdio_env \<Rightarrow> t_u8 list \<Rightarrow> nat \<Rightarrow> sdio_buffer \<Rightarrow> t_u32 \<Rightarrow> sdio_ctx \<Rightarrow> sdio_ctx option" where
  "deaggr_one e buf pos b max_len s = do {
     h \<leftarrow> rd buf pos 2;
     t \<leftarrow> rd buf (pos + 2) 2;
     let pkt_len = (ucast (of_le16 h) :: t_u32);
     if data_port_type (ucast (of_le16 t)) \<and> pkt_len \<le> max_len
     then do {
       bytes \<leftarrow> rd buf pos (unat pkt_len);
       mem \<leftarrow> wr (pbuf b) (data_offset b) bytes;
       wlan_decode_rx_packet e (b\<lparr>pbuf := mem\<rparr>) (ucast (of_le16 t)) (s\<lparr>upld_len := pkt_len\<rparr>) }
     else Some (call_up [Free_buffer b] s) }"

fun deaggr_flat :: "sdio_env \<Rightarrow> t_u8 list \<Rightarrow> nat \<Rightarrow> (sdio_buffer \<times> t_u32) list \<Rightarrow> sdio_ctx \<Rightarrow> sdio_ctx option" where
  "deaggr_flat e buf pos [] s = Some s"
| "deaggr_flat e buf pos ((b, max_len) # bs) s = do {
     s1 \<leftarrow> deaggr_one e buf pos b max_len s;
     deaggr_flat e buf (pos + unat max_len) bs s1 }"

definition rx_held :: "sdio_mpa_rx \<Rightarrow> sdio_buffer list option" where
  "rx_held r = (if rx_pkt_cnt r \<le> length (rx_mbuf_arr r) then those (take (rx_pkt_cnt r) (rx_mbuf_arr r)) else None)"

definition wlan_receive_mp_aggr_buf :: "sdio_env \<Rightarrow> sdio_ctx \<Rightarrow> (mlan_status \<times> sdio_ctx) option" where
  "wlan_receive_mp_aggr_buf e s =
     (let r = mpa_rx s; n = rx_pkt_cnt r
      in if n = 1 then wlan_receive_single_packet e s
         else do {
           bs \<leftarrow> rx_held r;
           lens \<leftarrow> (if n \<le> length (rx_len_arr r) then Some (take n (rx_len_arr r)) else None);
           let port = (ioport s OR 0x1000 OR push_bit 8 (bitcount (rx_ports r) - 1)) + of_nat (rx_start_port r);
           let linked = map (\<lambda>(b, len). b\<lparr>data_len := len\<rparr>) (zip bs lens);
           let io = (case rx_aggr_buf r of
                 None \<Rightarrow> Linked (rx_buf_len r) linked
               | Some buf \<Rightarrow> Flat \<lparr>sb_id = 0, pbuf = buf, data_offset = 0, data_len = rx_buf_len r, status_code = 0, buf_type = 0\<rparr>);
           (st, gave_up, io1, s1) \<leftarrow> read_tries e io port MAX_WRITE_IOMEM_RETRY s;
           let s2 = (case io1 of
                 Linked len bs1 \<Rightarrow> s1\<lparr>mpa_rx := r\<lparr>rx_mbuf_arr := map Some bs1 @ drop n (rx_mbuf_arr r)\<rparr>\<rparr>
               | Flat b \<Rightarrow> s1\<lparr>mpa_rx := r\<lparr>rx_aggr_buf := Some (pbuf b)\<rparr>\<rparr>);
           if gave_up then Some (MLAN_STATUS_FAILURE, s2)
           else do {
             s3 \<leftarrow> (case io1 of
                   Linked len bs1 \<Rightarrow> deaggr_linked e bs1 s2
                 | Flat b \<Rightarrow> deaggr_flat e (pbuf b) 0 (zip bs lens) s2);
             s4 \<leftarrow> count_rx (n - 1) s3;
             Some (st, MP_RX_AGGR_BUF_RESET s4) } })"

record rx_flags =
  f_do_rx_aggr :: bool
  f_do_rx_cur :: bool
  f_aggr_cur :: bool
  f_post_aggr_cur :: bool

definition mp_rx_flags :: "bool \<Rightarrow> bool \<Rightarrow> bool \<Rightarrow> rx_flags" where
  "mp_rx_flags more_ports in_progress room =
     (let none = \<lparr>f_do_rx_aggr = False, f_do_rx_cur = False, f_aggr_cur = False, f_post_aggr_cur = False\<rparr>
      in if more_ports
         then if in_progress \<and> \<not> room then none\<lparr>f_do_rx_aggr := True, f_post_aggr_cur := True\<rparr> else none\<lparr>f_aggr_cur := True\<rparr>
         else if in_progress
              then if room then none\<lparr>f_do_rx_aggr := True, f_aggr_cur := True\<rparr>
                   else none\<lparr>f_do_rx_aggr := True, f_do_rx_cur := True\<rparr>
              else none\<lparr>f_do_rx_cur := True\<rparr>)"

text \<open>The end of the function after a failure.\<close>

definition rx_cleanup :: "bool \<Rightarrow> sdio_buffer \<Rightarrow> sdio_ctx \<Rightarrow> sdio_ctx option" where
  "rx_cleanup cur b s = do {
     bs \<leftarrow> rx_held (mpa_rx s);
     let s1 = (if rx_pkt_cnt (mpa_rx s) > 0 then MP_RX_AGGR_BUF_RESET (call_up (map Free_buffer bs) s) else s);
     Some (if cur then call_up [Free_buffer b] s1 else s1) }"

definition wlan_sdio_card_to_host_mp_aggr :: "sdio_env \<Rightarrow> sdio_buffer \<Rightarrow> nat \<Rightarrow> t_u16 \<Rightarrow> sdio_ctx
    \<Rightarrow> (mlan_status \<times> sdio_ctx) option" where
  "wlan_sdio_card_to_host_mp_aggr e b port rx_len s = do {
     let f = (if rx_enabled (mpa_rx s)
              then mp_rx_flags (mp_rd_bitmap s AND DATA_PORT_MASK \<noteq> 0) (rx_pkt_cnt (mpa_rx s) > 0)
                     (MP_RX_AGGR_BUF_HAS_ROOM s (ucast rx_len))
              else \<lparr>f_do_rx_aggr = False, f_do_rx_cur = True, f_aggr_cur = False, f_post_aggr_cur = False\<rparr>);
     s1 \<leftarrow> (if f_aggr_cur f then MP_RX_AGGR_SETUP b port rx_len s else Some s);
     let now = (f_do_rx_aggr f \<or> f_aggr_cur f
                  \<and> (rx_pkt_cnt (mpa_rx s1) = rx_pkt_aggr_limit (mpa_rx s1) \<or> MP_RX_AGGR_PORT_LIMIT_REACHED s1));
     (st1, s2) \<leftarrow> (if now then wlan_receive_mp_aggr_buf e s1 else Some (MLAN_STATUS_SUCCESS, s1));
     if st1 \<noteq> MLAN_STATUS_SUCCESS
     then map_option (Pair MLAN_STATUS_FAILURE) (rx_cleanup (f_do_rx_cur f) b s2)
     else do {
       (st2, b1, s3) \<leftarrow> (if f_do_rx_cur f then receive_data e b port rx_len s2 else Some (MLAN_STATUS_SUCCESS, b, s2));
       if st2 \<noteq> MLAN_STATUS_SUCCESS
       then map_option (Pair MLAN_STATUS_FAILURE) (rx_cleanup (f_do_rx_cur f) b1 s3)
       else map_option (Pair MLAN_STATUS_SUCCESS) (if f_post_aggr_cur f then MP_RX_AGGR_SETUP b port rx_len s3 else Some s3) } }"

text \<open>Reading a packet for which there is no buffer.  A type that was not read is 0, the type of data packets.\<close>

definition wlan_sdio_card_to_host_recovery :: "sdio_env \<Rightarrow> nat \<Rightarrow> t_u16 \<Rightarrow> sdio_ctx \<Rightarrow> (mlan_status \<times> sdio_ctx) option" where
  "wlan_sdio_card_to_host_recovery e port rx_len s = do {
     (st0, s1) \<leftarrow> (if rx_pkt_cnt (mpa_rx s) > 0 then wlan_receive_mp_aggr_buf e s else Some (MLAN_STATUS_SUCCESS, s));
     let b = \<lparr>sb_id = 0, pbuf = rx_buf s1, data_offset = 0, data_len = ucast rx_len, status_code = 0, buf_type = 0\<rparr>;
     (st, type, b1, s2) \<leftarrow> wlan_sdio_card_to_host e b (ucast rx_len) (ioport s1 + of_nat port) s1;
     let s3 = s2\<lparr>rx_buf := pbuf b1\<rparr>;
     if type = MLAN_TYPE_DATA
     then Some (MLAN_STATUS_SUCCESS, s3\<lparr>sd_dbg := (sd_dbg s3)\<lparr>num_pkt_dropped := num_pkt_dropped (sd_dbg s3) + 1\<rparr>\<rparr>)
     else if type = MLAN_TYPE_SPA_DATA
     then do {
       s4 \<leftarrow> wlan_decode_spa_buffer e (rx_buf s3) 0 (upld_len s3) s3;
       Some (MLAN_STATUS_SUCCESS, s4\<lparr>data_received := True\<rparr>) }
     else Some (MLAN_STATUS_FAILURE, s3) }"

end
