(* ===== verification/Sdio_Int.thy ===== *)
theory Sdio_Int
  imports Sdio_Rx
begin

text \<open>
  The interrupt of the card (\<^verbatim>\<open>mlan_sdio.c\<close>): reading the registers, and handling what they report.  The loop
  over the ports that are ready for reading ends because each round takes a bit out of the bit map; that the
  round leaves the bit map alone otherwise is proved first.
\<close>

subsection \<open>What receiving leaves alone\<close>

definition rx_core where
  "rx_core s = (mp_rd_bitmap s, curr_rd_port s, mp_regs s, ioport s, mp_end_port s, mp_wr_bitmap s, curr_wr_port s, mpa_tx s,
     mp_data_port_mask s, data_sent s, cmd_sent s, rx_work_flag s, sdio_rx_block_size s, enable_net_mon s)"

lemma rx_core_updates [simp]:
  "rx_core (note_xfer x s) = rx_core s" "rx_core (terminate_cmd53 s) = rx_core s"
  "rx_core (call_up cs s) = rx_core s" "rx_core (enqueue_rx b s) = rx_core s"
  "rx_core (MP_RX_AGGR_BUF_RESET s) = rx_core s" "rx_core (s\<lparr>upld_len := n\<rparr>) = rx_core s"
  "rx_core (s\<lparr>data_received := d\<rparr>) = rx_core s" "rx_core (s\<lparr>mpa_rx := r\<rparr>) = rx_core s"
  "rx_core (s\<lparr>sd_dbg := dd\<rparr>) = rx_core s" "rx_core (s\<lparr>rx_buf := rb\<rparr>) = rx_core s"
  "rx_core (s\<lparr>allocs := k\<rparr>) = rx_core s" "rx_core (s\<lparr>upld_buf := ub\<rparr>) = rx_core s"
  "rx_core (s\<lparr>sd_wakeup_card_req := w\<rparr>) = rx_core s" "rx_core (s\<lparr>sd_ps_state := p\<rparr>) = rx_core s"
  "rx_core (s\<lparr>cmd_resp_received := d\<rparr>) = rx_core s" "rx_core (s\<lparr>sd_respbuf := q\<rparr>) = rx_core s"
  "rx_core (s\<lparr>event_cause := ec\<rparr>) = rx_core s" "rx_core (s\<lparr>event_body := eb\<rparr>) = rx_core s"
  "rx_core (s\<lparr>event_received := d\<rparr>) = rx_core s" "rx_core (s\<lparr>pmlan_buffer_event := q\<rparr>) = rx_core s"
  by (simp_all add: rx_core_def note_xfer_def terminate_cmd53_def call_up_def enqueue_rx_def MP_RX_AGGR_BUF_RESET_def)

lemma woal_read_data_sync_frame: "woal_read_data_sync e io port s = Some (st, io', s') \<Longrightarrow> rx_core s' = rx_core s"
  by (auto simp: woal_read_data_sync_def Let_def monad_simps split: io_buf.splits if_splits prod.splits)

lemma read_tries_frame: "read_tries e io port n s = Some (st, g, io', s') \<Longrightarrow> rx_core s' = rx_core s"
proof (induction n arbitrary: io s)
  case 0
  then show ?case
    by (subst (asm) read_tries.simps) (auto simp: monad_simps dest: woal_read_data_sync_frame split: if_splits)
next
  case (Suc n)
  from Suc.prems show ?case
    by (subst (asm) read_tries.simps)
      (auto simp: monad_simps split: if_splits dest!: Suc.IH woal_read_data_sync_frame)
qed

lemma card_to_host_frame: "wlan_sdio_card_to_host e b n port s = Some (st, t, b', s') \<Longrightarrow> rx_core s' = rx_core s"
  unfolding wlan_sdio_card_to_host_def Let_def
  by (auto elim!: runE dest!: read_tries_frame split: if_splits)

lemma alloc_frame: "wlan_alloc_mlan_buffer e len h f s = (b, s') \<Longrightarrow> rx_core s' = rx_core s"
  by (auto simp: wlan_alloc_mlan_buffer_def Let_def split: option.splits alloc_flag.splits)

lemma spa_step_frame: "spa_step e buf pos todo s = Some (k, s') \<Longrightarrow> rx_core s' = rx_core s"
  unfolding spa_step_def Let_def
  by (auto elim!: runE dest!: alloc_frame split: if_splits option.splits prod.splits)

lemma spa_loop_frame: "spa_loop e buf pos todo s = Some s' \<Longrightarrow> rx_core s' = rx_core s"
proof (induction e buf pos todo s rule: spa_loop.induct)
  case (1 e buf pos todo s)
  show ?case
  proof (cases "todo < 32")
    case True
    then show ?thesis using 1(2) by (simp add: spa_loop.simps)
  next
    case False
    with 1(2) obtain k s1 where st: "spa_step e buf pos todo s = Some (k, s1)"
      by (cases "spa_step e buf pos todo s") (auto simp: spa_loop.simps [of e buf pos todo])
    note f = spa_step_frame [OF st]
    show ?thesis
    proof (cases k)
      case None
      then show ?thesis using 1(2) False st f by (simp add: spa_loop.simps [of e buf pos todo])
    next
      case (Some n)
      show ?thesis
      proof (cases "todo - int n < int (sdio_rx_block_size s1)")
        case True
        then show ?thesis using 1(2) False st f Some by (simp add: spa_loop.simps [of e buf pos todo])
      next
        case go: False
        have "spa_loop e buf (pos + n) (todo - int n) s1 = Some s'"
          using 1(2) False st Some go by (simp add: spa_loop.simps [of e buf pos todo])
        from 1(1) [OF False st refl Some go this] f show ?thesis by simp
      qed
    qed
  qed
qed

lemma decode_spa_frame: "wlan_decode_spa_buffer e buf pos len s = Some s' \<Longrightarrow> rx_core s' = rx_core s"
  by (auto simp: wlan_decode_spa_buffer_def dest: spa_loop_frame split: if_splits)

lemma sleep_confirm_frame: "wlan_process_sleep_confirm_resp b off len s = Some (b', s') \<Longrightarrow> rx_core s' = rx_core s"
  unfolding wlan_process_sleep_confirm_resp_def Let_def
  by (simp add: monad_simps split: if_splits) (auto simp: rx_core_def call_up_def)

lemma decode_stray_frame: "decode_stray_cmd b s = Some s' \<Longrightarrow> rx_core s' = rx_core s"
  by (auto simp: decode_stray_cmd_def Let_def monad_simps split: if_splits dest!: sleep_confirm_frame)

lemma decode_rx_packet_frame: "wlan_decode_rx_packet e b t s = Some s' \<Longrightarrow> rx_core s' = rx_core s"
  unfolding wlan_decode_rx_packet_def
  by (auto simp: Let_def monad_simps split: if_splits dest!: decode_spa_frame decode_stray_frame)

lemma count_rx_frame: "count_rx i s = Some s' \<Longrightarrow> rx_core s' = rx_core s"
  by (auto simp: count_rx_def monad_simps)

lemma receive_data_frame: "receive_data e b port len s = Some (st, b', s') \<Longrightarrow> rx_core s' = rx_core s"
  by (auto simp: receive_data_def monad_simps split: if_splits
      dest!: card_to_host_frame count_rx_frame decode_rx_packet_frame)

lemma receive_single_frame: "wlan_receive_single_packet e s = Some (st, s') \<Longrightarrow> rx_core s' = rx_core s"
  by (auto simp: wlan_receive_single_packet_def monad_simps dest!: receive_data_frame)

lemma deaggr_linked_frame: "deaggr_linked e bs s = Some s' \<Longrightarrow> rx_core s' = rx_core s"
proof (induction bs arbitrary: s)
  case (Cons b bs)
  from Cons.prems show ?case
    by (auto simp: monad_simps dest!: decode_rx_packet_frame Cons.IH)
qed simp

lemma deaggr_one_frame: "deaggr_one e buf pos b n s = Some s' \<Longrightarrow> rx_core s' = rx_core s"
  by (auto simp: deaggr_one_def Let_def monad_simps split: if_splits dest!: decode_rx_packet_frame)

lemma deaggr_flat_frame: "deaggr_flat e buf pos bs s = Some s' \<Longrightarrow> rx_core s' = rx_core s"
proof (induction bs arbitrary: pos s)
  case (Cons q bs)
  obtain b n where q: "q = (b, n)" by fastforce
  with Cons.prems obtain s1 where "deaggr_one e buf pos b n s = Some s1" "deaggr_flat e buf (pos + unat n) bs s1 = Some s'"
    by (auto simp: monad_simps)
  then show ?case using Cons.IH [of "pos + unat n" s1] deaggr_one_frame [of e buf pos b n s s1] by simp
qed simp

lemma receive_mp_frame: "wlan_receive_mp_aggr_buf e s = Some (st, s') \<Longrightarrow> rx_core s' = rx_core s"
  unfolding wlan_receive_mp_aggr_buf_def Let_def
  by (cases "rx_pkt_cnt (mpa_rx s) = 1")
     (auto elim!: runE split: if_splits io_buf.splits
       dest!: receive_single_frame read_tries_frame deaggr_linked_frame deaggr_flat_frame count_rx_frame)

lemma rx_setup_frame: "MP_RX_AGGR_SETUP b port len s = Some s' \<Longrightarrow> rx_core s' = rx_core s"
  by (auto simp: MP_RX_AGGR_SETUP_def Let_def monad_simps)

lemma rx_cleanup_frame: "rx_cleanup c b s = Some s' \<Longrightarrow> rx_core s' = rx_core s"
  by (auto simp: rx_cleanup_def Let_def monad_simps split: if_splits)

lemma card_to_host_mp_frame: "wlan_sdio_card_to_host_mp_aggr e b port len s = Some (st, s') \<Longrightarrow> rx_core s' = rx_core s"
  unfolding wlan_sdio_card_to_host_mp_aggr_def Let_def
  apply (elim runE)
  apply (split if_split_asm)
  by (auto elim!: runE split: if_splits
      dest!: rx_setup_frame receive_mp_frame receive_data_frame rx_cleanup_frame)

lemma recovery_frame: "wlan_sdio_card_to_host_recovery e port len s = Some (st, s') \<Longrightarrow> rx_core s' = rx_core s"
  unfolding wlan_sdio_card_to_host_recovery_def Let_def
  by (auto elim!: runE split: if_splits dest!: receive_mp_frame card_to_host_frame decode_spa_frame)

subsection \<open>Reading the registers\<close>

definition wlan_interrupt :: "sdio_env \<Rightarrow> sdio_ctx \<Rightarrow> sdio_ctx option" where
  "wlan_interrupt e s = do {
     (st, io, s1) \<leftarrow> woal_read_data_sync e
       (Flat \<lparr>sb_id = 0, pbuf = mp_regs s, data_offset = 0, data_len = of_nat MAX_MP_REGS, status_code = 0, buf_type = 0\<rparr>)
       MLAN_SDIO_BYTE_MODE_MASK s;
     let s2 = (case io of Flat b \<Rightarrow> s1\<lparr>mp_regs := pbuf b\<rparr> | Linked len bs \<Rightarrow> s1);
     if st \<noteq> MLAN_STATUS_SUCCESS
     then Some (s2\<lparr>sd_dbg := (sd_dbg s2)\<lparr>num_int_read_failure := num_int_read_failure (sd_dbg s2) + 1\<rparr>\<rparr>)
     else do {
       ireg \<leftarrow> arr_get (mp_regs s2) (int HOST_INT_STATUS_REG);
       let s3 = s2\<lparr>sd_dbg := (sd_dbg s2)\<lparr>last_int_status := ucast (sdio_ireg s2 OR ireg)\<rparr>\<rparr>;
       if ireg = 0 then Some s3
       else let s4 = s3\<lparr>sd_dbg := (sd_dbg s3)\<lparr>num_of_irq := num_of_irq (sd_dbg s3) + 1\<rparr>, sdio_ireg := sdio_ireg s3 OR ireg\<rparr>
            in Some (if \<not> sd_uapsd_mode s4 \<and> sd_ps_state s4 = SD_SLEEP
                     then s4\<lparr>sd_wakeup_fw_try := False, sd_ps_state := SD_AWAKE, sd_wakeup_card_req := False\<rparr> else s4) } }"

text \<open>Two and four consecutive registers, the lowest byte first.\<close>

definition reg16 :: "nat \<Rightarrow> sdio_ctx \<Rightarrow> t_u16 option" where
  "reg16 i s = do {
     l \<leftarrow> arr_get (mp_regs s) (int i);
     u \<leftarrow> arr_get (mp_regs s) (int i + 1);
     Some (push_bit 8 (ucast u) OR ucast l) }"

definition reg32 :: "nat \<Rightarrow> sdio_ctx \<Rightarrow> t_u32 option" where
  "reg32 i s = do {
     l \<leftarrow> reg16 i s;
     u \<leftarrow> reg16 (i + 2) s;
     Some (push_bit 16 (ucast u) OR ucast l) }"

subsection \<open>Handling the interrupt status\<close>

text \<open>How a part ends: go on, leave the function, or leave it after telling the card to abandon the transfer.\<close>

datatype int_end = Int_go_on | Int_fail | Int_term

definition count_up :: "(sdio_dbg \<Rightarrow> sdio_dbg) \<Rightarrow> sdio_ctx \<Rightarrow> sdio_ctx" where
  "count_up f s = s\<lparr>sd_dbg := f (sd_dbg s)\<rparr>"

text \<open>Data and a sleep confirmation may arrive together: the data must then not wake the driver.\<close>

definition forget_data_if_asleep :: "sd_ps_state \<Rightarrow> sdio_ctx \<Rightarrow> sdio_ctx" where
  "forget_data_if_asleep ps0 s = (if ps0 = SD_SLEEP_CFM \<and> sd_ps_state s = SD_SLEEP then s\<lparr>data_received := False\<rparr> else s)"

definition int_cmd_upload :: "sdio_env \<Rightarrow> sd_ps_state \<Rightarrow> sdio_ctx \<Rightarrow> (int_end \<times> sdio_ctx) option" where
  "int_cmd_upload e ps0 s = do {
     len \<leftarrow> reg16 CMD_RD_LEN_0 s;
     let blocks = (unat len + MLAN_SDIO_BLOCK_SIZE - 1) div MLAN_SDIO_BLOCK_SIZE;
     if len \<le> 4 \<or> blocks * MLAN_SDIO_BLOCK_SIZE > ALLOC_BUF_SIZE then Some (Int_fail, s)
     else do {
       let rx_len = (of_nat (blocks * MLAN_SDIO_BLOCK_SIZE) :: t_u16);
       (case wlan_alloc_mlan_buffer e (ucast rx_len) 0 MOAL_MALLOC_BUFFER s of
          (None, s1) \<Rightarrow> Some (Int_fail, s1)
        | (Some b, s1) \<Rightarrow> do {
            (st, type, b1, s2) \<leftarrow> wlan_sdio_card_to_host e b (ucast rx_len) (ioport s1 OR CMD_PORT_SLCT) s1;
            if st \<noteq> MLAN_STATUS_SUCCESS
            then Some (Int_term, call_up [Free_buffer b1] (count_up (\<lambda>d. d\<lparr>
                   num_cmdevt_card_to_host_failure := num_cmdevt_card_to_host_failure d + 1,
                   diag_num_error := (if diag_enabled s2 then diag_num_error d + 1 else diag_num_error d)\<rparr>) s2))
            else do {
              s3 \<leftarrow> wlan_decode_rx_packet e b1 type s2;
              Some (Int_go_on, forget_data_if_asleep ps0 s3) } }) } }"

definition count_update :: "nat \<Rightarrow> sdio_ctx \<Rightarrow> sdio_ctx option" where
  "count_update bits s =
     (if bits = 0 then Some s
      else do {
        v \<leftarrow> arr_get (mp_update (sd_dbg s)) (int bits - 1);
        us \<leftarrow> arr_set (mp_update (sd_dbg s)) (int bits - 1) (v + 1);
        Some (count_up (\<lambda>d. d\<lparr>mp_update := (if v + 1 = 0xffffffff then replicate (length us) 0 else us)\<rparr>) s) })"

definition int_download :: "sdio_ctx \<Rightarrow> sdio_ctx option" where
  "int_download s = do {
     let s1 = (if mp_wr_bitmap s AND mp_data_port_mask s \<noteq> 0
               then count_up (\<lambda>d. d\<lparr>mp_invalid_update := mp_invalid_update d + 1\<rparr>) s else s);
     bm \<leftarrow> reg32 WR_BITMAP_L s1;
     s2 \<leftarrow> count_update (unat (bitcount (bm AND mp_data_port_mask s1))) (s1\<lparr>mp_wr_bitmap := bm\<rparr>);
     let s3 = count_up (\<lambda>d. d\<lparr>last_recv_wr_bitmap := bm\<rparr>) s2;
     m \<leftarrow> (if data_sent s3 then shl1 (curr_wr_port s3) else Some 0);
     Some (if data_sent s3 \<and> bm AND m \<noteq> 0 then s3\<lparr>data_sent := False\<rparr> else s3) }"

datatype rx_round = Rx_more | Rx_end | Rx_fail | Rx_term

text \<open>One round of the loop over the ports.\<close>

definition rx_port_round :: "sdio_env \<Rightarrow> nat \<Rightarrow> sdio_ctx \<Rightarrow> (rx_round \<times> sdio_ctx) option" where
  "rx_port_round e port s = do {
     len \<leftarrow> reg16 (RD_LEN_P0_L + 2 * port) s;
     let blocks = (unat len + MLAN_SDIO_BLOCK_SIZE - 1) div MLAN_SDIO_BLOCK_SIZE;
     if len \<le> 4 \<or> blocks * MLAN_SDIO_BLOCK_SIZE > unat (rx_buf_size (mpa_rx s)) then Some (Rx_fail, s)
     else do {
       let rx_len = (of_nat (blocks * MLAN_SDIO_BLOCK_SIZE) :: t_u16);
       (case (if unat rx_len > ETH_RX_PACKET_BUFFER_SIZE \<and> \<not> enable_net_mon s
              then wlan_alloc_mlan_buffer e (ucast rx_len) 0 MOAL_MALLOC_BUFFER s
              else wlan_alloc_mlan_buffer e (ucast rx_len) RX_HEADER_LEN MOAL_ALLOC_MLAN_BUFFER s) of
          (None, s1) \<Rightarrow> do {
            (st, s2) \<leftarrow> wlan_sdio_card_to_host_recovery e port rx_len
              (count_up (\<lambda>d. d\<lparr>num_alloc_buffer_failure := num_alloc_buffer_failure d + 1\<rparr>) s1);
            Some (if st = MLAN_STATUS_SUCCESS then Rx_more else Rx_fail, s2) }
        | (Some b, s1) \<Rightarrow> do {
            (st, s2) \<leftarrow> wlan_sdio_card_to_host_mp_aggr e b port rx_len s1;
            Some (if st = MLAN_STATUS_SUCCESS then (Rx_more, s2)
                  else (Rx_term, count_up (\<lambda>d. d\<lparr>num_rx_card_to_host_failure := num_rx_card_to_host_failure d + 1\<rparr>) s2)) }) } }"

lemma count_up_core [simp]: "rx_core (count_up f s) = rx_core s"
  by (simp add: count_up_def)

lemma rx_port_round_frame: "rx_port_round e port s = Some (r, s') \<Longrightarrow> rx_core s' = rx_core s"
  unfolding rx_port_round_def Let_def
  by (auto elim!: runE dest!: alloc_frame recovery_frame card_to_host_mp_frame split: if_splits option.splits prod.splits)

definition rx_port_step :: "sdio_env \<Rightarrow> sdio_ctx \<Rightarrow> (rx_round \<times> sdio_ctx) option" where
  "rx_port_step e s = do {
     (st, port, s1) \<leftarrow> wlan_get_rd_port s;
     if st \<noteq> MLAN_STATUS_SUCCESS then Some (Rx_end, s1) else rx_port_round e port s1 }"

lemma clear_bit_less:
  fixes w m :: "'a::len word"
  assumes "w AND m \<noteq> 0"
  shows "unat (w AND NOT m) < unat w"
proof -
  have "w AND NOT m \<le> w" by (simp add: word_and_le2)
  moreover have "w AND NOT m \<noteq> w"
  proof
    assume w: "w AND NOT m = w"
    have "(w AND NOT m) AND m = 0" by (rule bit_word_eqI) (auto simp: bit_simps)
    then show False using assms unfolding w by simp
  qed
  ultimately show ?thesis by (simp add: word_less_nat_alt [symmetric])
qed

lemma rx_port_step_less:
  assumes "rx_port_step e s = Some (Rx_more, s')"
  shows "unat (mp_rd_bitmap s') < unat (mp_rd_bitmap s)"
proof -
  obtain port s1 where g: "wlan_get_rd_port s = Some (MLAN_STATUS_SUCCESS, port, s1)" and r: "rx_port_round e port s1 = Some (Rx_more, s')"
    using assms by (auto simp: rx_port_step_def elim!: runE split: if_splits)
  have "mp_rd_bitmap s' = mp_rd_bitmap s1" using rx_port_round_frame [OF r] by (simp add: rx_core_def)
  then show ?thesis using g by (auto simp: wlan_get_rd_port_def Let_def monad_simps clear_bit_less split: if_splits)
qed

function rx_port_loop :: "sdio_env \<Rightarrow> sdio_ctx \<Rightarrow> (int_end \<times> sdio_ctx) option" where
  "rx_port_loop e s =
     (case rx_port_step e s of
        None \<Rightarrow> None
      | Some (Rx_more, s1) \<Rightarrow> rx_port_loop e s1
      | Some (Rx_end, s1) \<Rightarrow> Some (Int_go_on, s1)
      | Some (Rx_fail, s1) \<Rightarrow> Some (Int_fail, s1)
      | Some (Rx_term, s1) \<Rightarrow> Some (Int_term, s1))"
  by pat_completeness auto
termination
  by (relation "measure (\<lambda>(e, s). unat (mp_rd_bitmap s))") (auto dest: rx_port_step_less)

declare rx_port_loop.simps [simp del]

definition int_upload :: "sdio_env \<Rightarrow> sd_ps_state \<Rightarrow> sdio_ctx \<Rightarrow> (int_end \<times> sdio_ctx) option" where
  "int_upload e ps0 s = do {
     bm \<leftarrow> reg32 RD_BITMAP_L s;
     (r, s1) \<leftarrow> rx_port_loop e (s\<lparr>mp_rd_bitmap := bm\<rparr>);
     Some (r, if r = Int_go_on then forget_data_if_asleep ps0 s1 else s1) }"

definition term_cmd53 :: "sdio_env \<Rightarrow> sdio_ctx \<Rightarrow> sdio_ctx" where
  "term_cmd53 e s =
     (let s1 = note_xfer (Read_reg HOST_TO_CARD_EVENT_REG) s; cr = reg_value e (xfers s1)
      in note_xfer (Read_reg HOST_TO_CARD_EVENT_REG)
           (note_xfer (Write_reg HOST_TO_CARD_EVENT_REG (cr OR HOST_TERM_CMD53)) s1))"

definition int_leave :: "sdio_env \<Rightarrow> int_end \<Rightarrow> sdio_ctx \<Rightarrow> mlan_status \<times> sdio_ctx" where
  "int_leave e r s = (case r of Int_go_on \<Rightarrow> (MLAN_STATUS_SUCCESS, s) | Int_fail \<Rightarrow> (MLAN_STATUS_FAILURE, s)
     | Int_term \<Rightarrow> (MLAN_STATUS_FAILURE, term_cmd53 e s))"

definition wlan_process_int_status :: "sdio_env \<Rightarrow> sdio_ctx \<Rightarrow> (mlan_status \<times> sdio_ctx) option" where
  "wlan_process_int_status e s =
     (let ireg = sdio_ireg s; ps0 = sd_ps_state s; s0 = s\<lparr>sdio_ireg := 0\<rparr>
      in if ireg = 0 then Some (MLAN_STATUS_SUCCESS, s0)
         else do {
           let s1 = (if ireg AND DN_LD_CMD_PORT_HOST_INT_STATUS \<noteq> 0 then s0\<lparr>cmd_sent := False\<rparr> else s0);
           (r2, s2) \<leftarrow> (if ireg AND UP_LD_CMD_PORT_HOST_INT_STATUS \<noteq> 0 then int_cmd_upload e ps0 s1 else Some (Int_go_on, s1));
           if r2 \<noteq> Int_go_on then Some (int_leave e r2 s2)
           else do {
             s3 \<leftarrow> (if ireg AND DN_LD_HOST_INT_STATUS \<noteq> 0 then int_download s2 else Some s2);
             (r4, s4) \<leftarrow> (if ireg AND UP_LD_HOST_INT_STATUS \<noteq> 0 then int_upload e ps0 s3 else Some (Int_go_on, s3));
             Some (int_leave e r4 s4) } })"

end
