(* ===== verification/Sdio_Tx_Inv.thy ===== *)
theory Sdio_Tx_Inv
  imports Sdio_Tx
begin

text \<open>
  The invariant of the sending side and its preservation: the collected packets lie one after the other in the
  aggregation buffer, or in the first slots of the array; they hold consecutive ports; and while something is
  collected the next port is free, so that it never waits for the card.
\<close>

subsection \<open>Writing, attempt by attempt\<close>

text \<open>The bytes a write moves, and the bytes all writes so far have moved.\<close>

definition io_payload :: "t_u32 \<Rightarrow> io_buf \<Rightarrow> t_u8 list option" where
  "io_payload port io =
     (case io of
        Flat b \<Rightarrow> rd (pbuf b) (data_offset b) (transfer_len port (data_len b))
      | Linked len bs \<Rightarrow> if 1 < length bs \<and> length bs \<le> 16 then map_option (take (transfer_len 0 len)) (gather bs) else None)"

definition bus_ok :: "sdio_env \<Rightarrow> bool" where
  "bus_ok e \<longleftrightarrow> (\<forall>x. fst (bus e x) = MLAN_STATUS_SUCCESS)"

definition bus_dead :: "sdio_env \<Rightarrow> bool" where
  "bus_dead e \<longleftrightarrow> (\<forall>x. fst (bus e x) = MLAN_STATUS_FAILURE)"

definition set_xfers :: "xfer list \<Rightarrow> sdio_ctx \<Rightarrow> sdio_ctx" where
  "set_xfers xs s = s\<lparr>xfers := xs\<rparr>"

lemma woal_write_payload:
  assumes "io_payload port io = Some bytes"
  shows "woal_write_data_sync e io port s =
     (let x = Sdio_write (port AND 0xfffff) bytes in Some (fst (bus e (xfers s @ [x])), set_xfers (xfers s @ [x]) s))"
proof (cases io)
  case (Flat b)
  then show ?thesis using assms
    by (simp add: io_payload_def woal_write_data_sync_def note_xfer_def set_xfers_def Let_def del: rd_Some)
next
  case (Linked len bs)
  with assms obtain g where "gather bs = Some g" "1 < length bs" "length bs \<le> 16" "bytes = take (transfer_len 0 len) g"
    by (auto simp: io_payload_def split: if_splits)
  then show ?thesis using Linked
    by (simp add: woal_write_data_sync_def note_xfer_def set_xfers_def Let_def)
qed

lemma write_tries_outcome:
  assumes "io_payload port io = Some bytes"
  shows "\<exists>st xs. write_tries e io port n s = Some (st, set_xfers (xfers s @ xs) s)
     \<and> st \<in> {MLAN_STATUS_SUCCESS, MLAN_STATUS_FAILURE}
     \<and> (bus_ok e \<longrightarrow> st = MLAN_STATUS_SUCCESS \<and> xs = [Sdio_write (port AND 0xfffff) bytes])
     \<and> (bus_dead e \<longrightarrow> st = MLAN_STATUS_FAILURE)"
proof (induction n arbitrary: s)
  case 0
  let ?x = "Sdio_write (port AND 0xfffff) bytes"
  show ?case
  proof (cases "fst (bus e (xfers s @ [?x])) = MLAN_STATUS_SUCCESS")
    case True
    then have "write_tries e io port 0 s = Some (MLAN_STATUS_SUCCESS, set_xfers (xfers s @ [?x]) s)"
      by (subst write_tries.simps) (simp add: woal_write_payload [OF assms] Let_def)
    moreover have "\<not> bus_dead e" using True unfolding bus_dead_def by (metis mlan_status.distinct(1))
    ultimately show ?thesis by (intro exI [of _ MLAN_STATUS_SUCCESS] exI [of _ "[?x]"]) simp
  next
    case False
    then have "write_tries e io port 0 s = Some (MLAN_STATUS_FAILURE, set_xfers (xfers s @ [?x, Write_reg 0 4]) s)"
      by (subst write_tries.simps)
        (simp add: woal_write_payload [OF assms] Let_def terminate_cmd53_def note_xfer_def set_xfers_def)
    moreover have "\<not> bus_ok e" using False by (auto simp: bus_ok_def)
    ultimately show ?thesis by (intro exI [of _ MLAN_STATUS_FAILURE] exI [of _ "[?x, Write_reg 0 4]"]) simp
  qed
next
  case (Suc n)
  let ?x = "Sdio_write (port AND 0xfffff) bytes"
  show ?case
  proof (cases "fst (bus e (xfers s @ [?x])) = MLAN_STATUS_SUCCESS")
    case True
    then have "write_tries e io port (Suc n) s = Some (MLAN_STATUS_SUCCESS, set_xfers (xfers s @ [?x]) s)"
      by (subst write_tries.simps) (simp add: woal_write_payload [OF assms] Let_def)
    moreover have "\<not> bus_dead e" using True unfolding bus_dead_def by (metis mlan_status.distinct(1))
    ultimately show ?thesis by (intro exI [of _ MLAN_STATUS_SUCCESS] exI [of _ "[?x]"]) simp
  next
    case False
    let ?s = "set_xfers (xfers s @ [?x, Write_reg 0 4]) s"
    have "write_tries e io port (Suc n) s = write_tries e io port n ?s"
      using False
      by (subst write_tries.simps) (simp add: woal_write_payload [OF assms] Let_def terminate_cmd53_def note_xfer_def set_xfers_def)
    moreover have "\<not> bus_ok e" using False by (auto simp: bus_ok_def)
    ultimately show ?thesis using Suc.IH [of ?s] by (auto simp: set_xfers_def)
  qed
qed

lemma write_data_outcome:
  assumes "io_payload port io = Some bytes"
  obtains st xs where
    "wlan_write_data_sync e io port s = Some (st, if st = MLAN_STATUS_FAILURE then set_io_status 4 io else io, set_xfers (xfers s @ xs) s)"
    "st \<in> {MLAN_STATUS_SUCCESS, MLAN_STATUS_FAILURE}"
    "bus_ok e \<longrightarrow> st = MLAN_STATUS_SUCCESS \<and> xs = [Sdio_write (port AND 0xfffff) bytes]"
    "bus_dead e \<longrightarrow> st = MLAN_STATUS_FAILURE"
proof -
  obtain st xs where "write_tries e io port 2 s = Some (st, set_xfers (xfers s @ xs) s)"
     "st \<in> {MLAN_STATUS_SUCCESS, MLAN_STATUS_FAILURE}"
     "bus_ok e \<longrightarrow> st = MLAN_STATUS_SUCCESS \<and> xs = [Sdio_write (port AND 0xfffff) bytes]"
     "bus_dead e \<longrightarrow> st = MLAN_STATUS_FAILURE"
    using write_tries_outcome [OF assms, of e 2 s] by blast
  then show thesis by (intro that [of st xs]) (auto simp: wlan_write_data_sync_def)
qed

lemma set_xfers_simps [simp]:
  "xfers (set_xfers xs s) = xs" "set_xfers ys (set_xfers xs s) = set_xfers ys s"
  "mpa_tx (set_xfers xs s) = mpa_tx s" "mp_wr_bitmap (set_xfers xs s) = mp_wr_bitmap s"
  "curr_wr_port (set_xfers xs s) = curr_wr_port s" "sd_dbg (set_xfers xs s) = sd_dbg s" "wr_log (set_xfers xs s) = wr_log s"
  "ioport (set_xfers xs s) = ioport s" "mp_end_port (set_xfers xs s) = mp_end_port s" "up_calls (set_xfers xs s) = up_calls s"
  "mp_data_port_mask (set_xfers xs s) = mp_data_port_mask s" "dev_tx_buf_size (set_xfers xs s) = dev_tx_buf_size s"
  by (simp_all add: set_xfers_def)

subsection \<open>Data and ports\<close>

definition buf_data :: "sdio_buffer \<Rightarrow> t_u8 list" where
  "buf_data b = take (unat (data_len b)) (drop (data_offset b) (pbuf b))"

text \<open>A packet as it is handed to the bus: whole blocks that lie inside its memory.\<close>

definition block_buf :: "sdio_buffer \<Rightarrow> bool" where
  "block_buf b \<longleftrightarrow> 0 < unat (data_len b) \<and> 256 dvd unat (data_len b) \<and> data_offset b + unat (data_len b) \<le> length (pbuf b)"

definition held_tx :: "sdio_ctx \<Rightarrow> sdio_buffer list" where
  "held_tx s = (if tx_buf (mpa_tx s) = None then map the (take (tx_pkt_cnt (mpa_tx s)) (tx_mbuf_arr (mpa_tx s))) else [])"

definition tx_pending :: "sdio_ctx \<Rightarrow> t_u8 list" where
  "tx_pending s =
     (case tx_buf (mpa_tx s) of
        Some buf \<Rightarrow> take (unat (tx_buf_len (mpa_tx s))) buf
      | None \<Rightarrow> concat (map buf_data (held_tx s)))"

definition written :: "xfer list \<Rightarrow> t_u8 list" where
  "written xs = concat (map (\<lambda>x. case x of Sdio_write p bs \<Rightarrow> bs | _ \<Rightarrow> []) xs)"

lemma written_simps [simp]:
  "written (xs @ ys) = written xs @ written ys" "written [] = []" "written [Sdio_write p bs] = bs"
  by (simp_all add: written_def)

text \<open>The ports of \<open>n\<close> packets from a start port, around the end.\<close>

definition port_run :: "nat \<Rightarrow> nat \<Rightarrow> nat \<Rightarrow> nat set" where
  "port_run start n k = (\<lambda>i. (start + i) mod k) ` {..<n}"

definition port_set :: "t_u32 \<Rightarrow> nat set" where
  "port_set w = {p. bit w p}"

lemma port_set_lt: "p \<in> port_set w \<Longrightarrow> p < 32"
  by (auto simp: port_set_def dest: bit_imp_le_length)

lemma port_set_or_shl1: "shl1 p = Some m \<Longrightarrow> port_set (w OR m) = insert p (port_set w)"
  by (auto simp: shl1_def port_set_def bit_simps split: if_splits)

lemma port_run_Suc: "port_run start (Suc n) k = insert ((start + n) mod k) (port_run start n k)"
  by (auto simp: port_run_def lessThan_Suc)

lemma mod_run_inj:
  assumes "(start + i) mod k = (start + j) mod k" "i < k" "j < (k::nat)"
  shows "i = j"
proof -
  have aux: "i = j" if "i \<le> j" "(start + j) mod k = (start + i) mod k" "j < k" for i j
  proof -
    have "k dvd (start + j) - (start + i)" using that by (subst mod_eq_dvd_iff_nat [symmetric]) simp_all
    then have "k dvd j - i" by simp
    then show "i = j" using that nat_dvd_not_less [of "j - i" k] by (cases "j - i = 0") auto
  qed
  show ?thesis using aux [of i j] aux [of j i] assms by (cases "i \<le> j") simp_all
qed

lemma card_port_run: "n \<le> k \<Longrightarrow> card (port_run start n k) = n"
  unfolding port_run_def by (subst card_image) (auto intro!: inj_onI dest: mod_run_inj)

lemma bitcount_card: "bitcount w = of_nat (card (port_set w))"
proof -
  have "popcount w = card {i \<in> {0..<32}. bit w i}"
    by (simp add: popcount_def sum.If_cases of_bool_def Int_def)
  also have "{i \<in> {0..<32}. bit w i} = port_set w" using port_set_lt [of _ w] by (auto simp: port_set_def)
  finally show ?thesis by (simp add: bitcount_def bitcount_loop_correct)
qed

subsection \<open>The invariant\<close>

definition tx_env where
  "tx_env s = (ioport s, mp_wr_bitmap s, curr_wr_port s, mp_end_port s, mp_data_port_mask s, dev_tx_buf_size s,
     tx_enabled (mpa_tx s), tx_buf_size (mpa_tx s), tx_pkt_aggr_limit (mpa_tx s), tx_buf (mpa_tx s) = None)"

definition logs_ok :: "sdio_ctx \<Rightarrow> bool" where
  "logs_ok s \<longleftrightarrow> length (mp_wr_info (mpa_tx s)) = 16 \<and> length (tx_mbuf_arr (mpa_tx s)) = 16 \<and> length (mpa_tx_count (sd_dbg s)) = 16
     \<and> (let l = wr_log s in length (last_mp_wr_bitmap l) = 10 \<and> length (last_mp_wr_ports l) = 10 \<and> length (last_mp_wr_len l) = 10
          \<and> length (last_curr_wr_port l) = 10 \<and> length (last_mp_wr_info l) = 160 \<and> last_mp_index l < 10)"

definition tx_data_ok :: "sdio_ctx \<Rightarrow> bool" where
  "tx_data_ok s \<longleftrightarrow>
     (let t = mpa_tx s
      in unat (tx_buf_size t) < 2 ^ 31 \<and> unat (tx_buf_len t) \<le> unat (tx_buf_size t) \<and> 256 dvd unat (tx_buf_len t)
         \<and> (case tx_buf t of
               Some buf \<Rightarrow> unat (tx_buf_size t) \<le> length buf
             | None \<Rightarrow> take (tx_pkt_cnt t) (tx_mbuf_arr t) = map Some (held_tx s)
                 \<and> (\<forall>b \<in> set (held_tx s). block_buf b)
                 \<and> unat (tx_buf_len t) = sum_list (map (\<lambda>b. unat (data_len b)) (held_tx s)))
         \<and> (tx_pkt_cnt t = 0 \<longrightarrow> tx_buf_len t = 0))"

text \<open>\<open>p\<close> is the port the next collected packet will have.\<close>

definition tx_ports_ok :: "nat \<Rightarrow> sdio_ctx \<Rightarrow> bool" where
  "tx_ports_ok p s \<longleftrightarrow>
     (let t = mpa_tx s
      in port_set (tx_ports t) = port_run (tx_start_port t) (tx_pkt_cnt t) (mp_end_port s)
         \<and> (tx_pkt_cnt t > 0 \<longrightarrow> tx_start_port t < mp_end_port s \<and> p = (tx_start_port t + tx_pkt_cnt t) mod mp_end_port s)
         \<and> tx_pkt_cnt t \<le> mp_end_port s)"

definition tx_core :: "nat \<Rightarrow> sdio_ctx \<Rightarrow> bool" where
  "tx_core p s \<longleftrightarrow> logs_ok s \<and> tx_data_ok s \<and> tx_ports_ok p s \<and> ioport s = 0x10000 \<and> 0 < mp_end_port s \<and> mp_end_port s \<le> 32
     \<and> p < mp_end_port s \<and> curr_wr_port s < mp_end_port s \<and> tx_pkt_cnt (mpa_tx s) \<le> 16"

definition tx_inv :: "sdio_ctx \<Rightarrow> bool" where
  "tx_inv s \<longleftrightarrow> tx_core (curr_wr_port s) s \<and> 2 \<le> tx_pkt_aggr_limit (mpa_tx s) \<and> tx_pkt_aggr_limit (mpa_tx s) \<le> 16
     \<and> tx_pkt_aggr_limit (mpa_tx s) \<le> mp_end_port s \<and> tx_pkt_cnt (mpa_tx s) < tx_pkt_aggr_limit (mpa_tx s)
     \<and> (tx_pkt_cnt (mpa_tx s) > 0 \<longrightarrow> bit (mp_wr_bitmap s) (curr_wr_port s) \<and> tx_enabled (mpa_tx s))"

subsection \<open>Collecting a packet\<close>

lemma unat_add_small: "unat (a::t_u32) < 2 ^ 31 \<Longrightarrow> unat b < 2 ^ 31 \<Longrightarrow> unat (a + b) = unat a + unat b"
  by (simp add: unat_word_ariths)

lemma room_nat:
  assumes "MP_TX_AGGR_BUF_HAS_ROOM s len" "tx_data_ok s" "unat len < 2 ^ 31"
  shows "unat (tx_buf_len (mpa_tx s)) + unat len \<le> unat (tx_buf_size (mpa_tx s))"
    and "unat (tx_buf_len (mpa_tx s) + len) = unat (tx_buf_len (mpa_tx s)) + unat len"
  using assms by (auto simp: MP_TX_AGGR_BUF_HAS_ROOM_def tx_data_ok_def Let_def word_le_nat_alt unat_add_small)

lemma block_buf_ge: "block_buf b \<Longrightarrow> 256 \<le> unat (data_len b)"
  by (auto simp: block_buf_def dest: dvd_imp_le)

lemma block_buf_rd: "block_buf b \<Longrightarrow> rd (pbuf b) (data_offset b) (unat (data_len b)) = Some (buf_data b)"
  by (simp add: block_buf_def rd_def buf_data_def)

lemma block_buf_rd2: "block_buf b \<Longrightarrow> \<exists>h. rd (pbuf b) (data_offset b) 2 = Some h"
  using block_buf_ge [of b] by (auto simp: block_buf_def rd_def)

lemma length_buf_data [simp]: "block_buf b \<Longrightarrow> length (buf_data b) = unat (data_len b)"
  by (auto simp: buf_data_def block_buf_def)

lemma put_common_ok:
  assumes "block_buf b" "length (mp_wr_info t) = 16" "tx_pkt_cnt t < 16" "p < 32"
  obtains info m where "shl1 p = Some m" "length info = 16"
    "mp_tx_put_common b p t = Some (t\<lparr>tx_buf_len := tx_buf_len t + data_len b, mp_wr_info := info,
             tx_start_port := (if tx_pkt_cnt t = 0 then p else tx_start_port t),
             tx_ports := tx_ports t OR m, tx_pkt_cnt := tx_pkt_cnt t + 1\<rparr>)"
proof -
  obtain h where "rd (pbuf b) (data_offset b) 2 = Some h" using block_buf_rd2 [OF assms(1)] by auto
  moreover obtain m where "shl1 p = Some m" using assms(4) by (simp add: shl1_def)
  ultimately show thesis
    using assms by (intro that [of m "(mp_wr_info t)[tx_pkt_cnt t := of_le16 h]"]) (simp_all add: mp_tx_put_common_def del: rd_Some)
qed

lemma tx_ports_put:
  assumes "tx_ports_ok p s" "shl1 p = Some m" "p < mp_end_port s" "tx_pkt_cnt (mpa_tx s) < mp_end_port s"
    and "mp_end_port s' = mp_end_port s" "tx_ports (mpa_tx s') = tx_ports (mpa_tx s) OR m"
    "tx_pkt_cnt (mpa_tx s') = tx_pkt_cnt (mpa_tx s) + 1"
    "tx_start_port (mpa_tx s') = (if tx_pkt_cnt (mpa_tx s) = 0 then p else tx_start_port (mpa_tx s))"
  shows "tx_ports_ok ((p + 1) mod mp_end_port s) s'"
proof (cases "tx_pkt_cnt (mpa_tx s) = 0")
  case True
  then show ?thesis using assms
    by (simp add: tx_ports_ok_def Let_def port_set_or_shl1) (simp add: port_run_def lessThan_Suc)
next
  case False
  then have "p = (tx_start_port (mpa_tx s) + tx_pkt_cnt (mpa_tx s)) mod mp_end_port s" "tx_start_port (mpa_tx s) < mp_end_port s"
    using assms(1) by (simp_all add: tx_ports_ok_def Let_def)
  then show ?thesis using assms False
    by (simp add: tx_ports_ok_def Let_def port_set_or_shl1 port_run_Suc mod_Suc_eq)
qed

definition collected :: "sdio_ctx \<Rightarrow> sdio_buffer \<Rightarrow> sdio_ctx \<Rightarrow> bool" where
  "collected s b s' \<longleftrightarrow> tx_env s' = tx_env s \<and> xfers s' = xfers s \<and> up_calls s' = up_calls s
     \<and> tx_pkt_cnt (mpa_tx s') = tx_pkt_cnt (mpa_tx s) + 1 \<and> tx_pending s' = tx_pending s @ buf_data b
     \<and> held_tx s' = (if tx_buf (mpa_tx s) = None then held_tx s @ [b] else [])"

lemma collect_tx_sg:
  assumes c: "tx_core p s" and b: "block_buf b" and n: "tx_pkt_cnt (mpa_tx s) < 16" "tx_pkt_cnt (mpa_tx s) < mp_end_port s"
    and room: "MP_TX_AGGR_BUF_HAS_ROOM s (data_len b)" "unat (data_len b) < 2 ^ 31" and sg: "tx_buf (mpa_tx s) = None"
  shows "\<exists>s'. collect_tx b p s = Some s' \<and> tx_core ((p + 1) mod mp_end_port s) s' \<and> collected s b s'"
proof -
  define t where "t = (mpa_tx s)\<lparr>tx_mbuf_arr := (tx_mbuf_arr (mpa_tx s))[tx_pkt_cnt (mpa_tx s) := Some b]\<rparr>"
  have lo: "length (mp_wr_info t) = 16" "tx_pkt_cnt t < 16" "p < 32" "length (tx_mbuf_arr (mpa_tx s)) = 16"
    using c n by (auto simp: t_def tx_core_def logs_ok_def)
  obtain info m where m: "shl1 p = Some m" "length info = 16" and put: "mp_tx_put_common b p t =
      Some (t\<lparr>tx_buf_len := tx_buf_len t + data_len b, mp_wr_info := info,
             tx_start_port := (if tx_pkt_cnt t = 0 then p else tx_start_port t),
             tx_ports := tx_ports t OR m, tx_pkt_cnt := tx_pkt_cnt t + 1\<rparr>)" (is "_ = Some ?t")
    by (rule put_common_ok [OF b lo(1-3)])
  let ?s = "s\<lparr>mpa_tx := ?t\<rparr>"
  have run: "collect_tx b p s = Some ?s"
    using lo n sg put by (simp add: collect_tx_def MP_TX_AGGR_BUF_PUT_SG_def t_def)
  have d1: "tx_data_ok s" using c by (simp add: tx_core_def)
  then have "take (tx_pkt_cnt (mpa_tx s)) (tx_mbuf_arr (mpa_tx s)) = map Some (held_tx s)"
    using sg by (simp add: tx_data_ok_def Let_def)
  note d = d1 this
  have tk: "take (Suc (tx_pkt_cnt (mpa_tx s))) ((tx_mbuf_arr (mpa_tx s))[tx_pkt_cnt (mpa_tx s) := Some b]) = map Some (held_tx s @ [b])"
    using n lo d(2) by (simp add: take_Suc_conv_app_nth)
  have held: "held_tx ?s = held_tx s @ [b]"
    using sg tk by (simp add: held_tx_def t_def comp_def)
  note r = room_nat [OF room(1) d(1) room(2)]
  have dv: "256 dvd unat (tx_buf_len (mpa_tx s) + data_len b)"
    using d1 b r(2) by (simp add: tx_data_ok_def Let_def block_buf_def dvd_add del: dvd_add_left_iff dvd_add_right_iff)
  have data: "tx_data_ok ?s"
    using d r b sg tk dv unfolding tx_data_ok_def Let_def held
    by (simp add: t_def block_buf_def)
  have ports: "tx_ports_ok ((p + 1) mod mp_end_port s) ?s"
    by (rule tx_ports_put [of p s m]) (use c m n in \<open>simp_all add: tx_core_def t_def\<close>)
  have "tx_core ((p + 1) mod mp_end_port s) ?s"
    using c n m data ports unfolding tx_core_def by (simp add: logs_ok_def t_def)
  moreover have "collected s b ?s"
    using held sg unfolding collected_def by (simp add: tx_env_def tx_pending_def t_def)
  ultimately show ?thesis using run by blast
qed

lemma collect_tx_flat:
  assumes c: "tx_core p s" and b: "block_buf b" and n: "tx_pkt_cnt (mpa_tx s) < 16" "tx_pkt_cnt (mpa_tx s) < mp_end_port s"
    and room: "MP_TX_AGGR_BUF_HAS_ROOM s (data_len b)" "unat (data_len b) < 2 ^ 31" and buf: "tx_buf (mpa_tx s) = Some buf"
  shows "\<exists>s'. collect_tx b p s = Some s' \<and> tx_core ((p + 1) mod mp_end_port s) s' \<and> collected s b s'"
proof -
  have d: "tx_data_ok s" "unat (tx_buf_size (mpa_tx s)) \<le> length buf" using c buf by (auto simp: tx_core_def tx_data_ok_def Let_def)
  note r = room_nat [OF room(1) d(1) room(2)]
  define buf' where "buf' = take (unat (tx_buf_len (mpa_tx s))) buf @ buf_data b
    @ drop (unat (tx_buf_len (mpa_tx s)) + unat (data_len b)) buf"
  have w: "wr buf (unat (tx_buf_len (mpa_tx s))) (buf_data b) = Some buf'" and lb: "length buf' = length buf"
    and tk: "take (unat (tx_buf_len (mpa_tx s)) + unat (data_len b)) buf' = take (unat (tx_buf_len (mpa_tx s))) buf @ buf_data b"
    using d r b by (simp_all add: wr_def buf'_def)
  define t where "t = (mpa_tx s)\<lparr>tx_buf := Some buf'\<rparr>"
  have lo: "length (mp_wr_info t) = 16" "tx_pkt_cnt t < 16" "p < 32"
    using c n by (auto simp: t_def tx_core_def logs_ok_def)
  obtain info m where m: "shl1 p = Some m" "length info = 16" and put: "mp_tx_put_common b p t =
      Some (t\<lparr>tx_buf_len := tx_buf_len t + data_len b, mp_wr_info := info,
             tx_start_port := (if tx_pkt_cnt t = 0 then p else tx_start_port t),
             tx_ports := tx_ports t OR m, tx_pkt_cnt := tx_pkt_cnt t + 1\<rparr>)" (is "_ = Some ?t")
    by (rule put_common_ok [OF b lo])
  let ?s = "s\<lparr>mpa_tx := ?t\<rparr>"
  have run: "collect_tx b p s = Some ?s"
    using put w block_buf_rd [OF b] by (simp add: collect_tx_def MP_TX_AGGR_BUF_PUT_def buf t_def del: rd_Some wr_Some)
  have data: "tx_data_ok ?s"
    using d r b buf lb unfolding tx_data_ok_def Let_def by (simp add: t_def block_buf_def)
  have ports: "tx_ports_ok ((p + 1) mod mp_end_port s) ?s"
    by (rule tx_ports_put [of p s m]) (use c m n in \<open>simp_all add: tx_core_def t_def\<close>)
  have "tx_core ((p + 1) mod mp_end_port s) ?s"
    using c n m data ports unfolding tx_core_def by (simp add: logs_ok_def t_def)
  moreover have "collected s b ?s"
    using buf r tk unfolding collected_def by (simp add: tx_env_def tx_pending_def t_def held_tx_def)
  ultimately show ?thesis using run by blast
qed

lemma collect_tx_ok:
  assumes "tx_core p s" "block_buf b" "tx_pkt_cnt (mpa_tx s) < 16" "tx_pkt_cnt (mpa_tx s) < mp_end_port s"
    and "MP_TX_AGGR_BUF_HAS_ROOM s (data_len b)" "unat (data_len b) < 2 ^ 31"
  obtains s' where "collect_tx b p s = Some s'" "tx_core ((p + 1) mod mp_end_port s) s'" "collected s b s'"
  using collect_tx_sg [OF assms] collect_tx_flat [OF assms] by (cases "tx_buf (mpa_tx s)") blast+

subsection \<open>Sending what was collected\<close>

text \<open>The counters and the debug ring never get in the way.\<close>

definition dbg_only :: "sdio_ctx \<Rightarrow> sdio_ctx \<Rightarrow> bool" where
  "dbg_only s s' \<longleftrightarrow> (\<exists>d l. s' = s\<lparr>sd_dbg := d, wr_log := l\<rparr>) \<and> (logs_ok s \<longrightarrow> logs_ok s')"

lemma dbg_onlyI: "s' = s\<lparr>sd_dbg := d, wr_log := l\<rparr> \<Longrightarrow> (logs_ok s \<Longrightarrow> logs_ok s') \<Longrightarrow> dbg_only s s'"
  by (auto simp only: dbg_only_def)

lemma dbg_only_trans:
  assumes "dbg_only s s1" "dbg_only s1 s2"
  shows "dbg_only s s2"
proof -
  obtain d l where "s1 = s\<lparr>sd_dbg := d, wr_log := l\<rparr>" using assms(1) unfolding dbg_only_def by blast
  moreover obtain d' l' where "s2 = s1\<lparr>sd_dbg := d', wr_log := l'\<rparr>" using assms(2) unfolding dbg_only_def by blast
  ultimately have "s2 = s\<lparr>sd_dbg := d', wr_log := l'\<rparr>" by simp
  then show ?thesis by (rule dbg_onlyI) (use assms in \<open>auto simp only: dbg_only_def\<close>)
qed

lemma dbg_only_fields:
  assumes "dbg_only s s'"
  shows "mpa_tx s' = mpa_tx s" "xfers s' = xfers s" "up_calls s' = up_calls s" "ioport s' = ioport s" "mp_end_port s' = mp_end_port s"
    "mp_wr_bitmap s' = mp_wr_bitmap s" "curr_wr_port s' = curr_wr_port s" "mp_data_port_mask s' = mp_data_port_mask s"
    "dev_tx_buf_size s' = dev_tx_buf_size s" "logs_ok s \<Longrightarrow> logs_ok s'"
  using assms by (auto simp: dbg_only_def)

lemma count_no_port_ok: "curr_wr_port s < 32 \<Longrightarrow> \<exists>s'. count_no_port c s = Some s' \<and> dbg_only s s'"
  by (simp add: count_no_port_def port_free_def shl1_def)
     (intro conjI impI dbg_onlyI [where s = s and l = "wr_log s"] dbg_onlyI [where s = s and d = "sd_dbg s" and l = "wr_log s"]; simp add: logs_ok_def)

lemma count_tx_ok:
  assumes "logs_ok s" "i < 16"
  shows "\<exists>s'. count_tx i s = Some s' \<and> dbg_only s s'"
proof -
  let ?d = "(sd_dbg s)\<lparr>mpa_tx_count := (mpa_tx_count (sd_dbg s))[i := mpa_tx_count (sd_dbg s) ! i + 1]\<rparr>"
  have "count_tx i s = Some (s\<lparr>sd_dbg := ?d\<rparr>)" using assms by (simp add: count_tx_def logs_ok_def)
  moreover have "dbg_only s (s\<lparr>sd_dbg := ?d\<rparr>)" by (rule dbg_onlyI [where d = ?d and l = "wr_log s"]) (simp_all add: logs_ok_def)
  ultimately show ?thesis by blast
qed

lemma note_mp_write_ok:
  assumes "logs_ok s" "length info = 16"
  shows "\<exists>s'. note_mp_write port len info s = Some s' \<and> dbg_only s s'"
proof -
  let ?i = "last_mp_index (wr_log s)"
  have i: "?i < 10" "?i * 16 + 16 \<le> 160" using assms(1) by (simp_all add: logs_ok_def Let_def)
  define l where "l = \<lparr>last_mp_wr_bitmap = (last_mp_wr_bitmap (wr_log s))[?i := mp_wr_bitmap s],
     last_mp_wr_ports = (last_mp_wr_ports (wr_log s))[?i := port], last_mp_wr_len = (last_mp_wr_len (wr_log s))[?i := len],
     last_mp_wr_info = take (?i * 16) (last_mp_wr_info (wr_log s)) @ info @ drop (?i * 16 + length info) (last_mp_wr_info (wr_log s)),
     last_curr_wr_port = (last_curr_wr_port (wr_log s))[?i := curr_wr_port s], last_mp_index = (if ?i + 1 \<ge> 10 then 0 else ?i + 1)\<rparr>"
  have "note_mp_write port len info s = Some (s\<lparr>wr_log := l\<rparr>)"
    using assms i by (simp add: note_mp_write_def logs_ok_def Let_def l_def)
  moreover have "dbg_only s (s\<lparr>wr_log := l\<rparr>)"
    by (rule dbg_onlyI [where d = "sd_dbg s" and l = l]) (use i assms in \<open>simp_all add: logs_ok_def Let_def l_def\<close>)
  ultimately show ?thesis by blast
qed

text \<open>Addresses.  One packet goes to the address of its port; several go to the address that names the first
  port and the number of packets.\<close>

definition tx_address :: "nat \<Rightarrow> nat \<Rightarrow> nat" where
  "tx_address n start = (if n = 1 then 0x10000 + start else 0x11000 + 256 * (n - 1) + start)"

lemma small_word:
  assumes "n < 2 ^ 20"
  shows "(of_nat n :: t_u32) AND 0x80000000 = 0" "(of_nat n :: t_u32) AND 0xfffff = of_nat n"
proof -
  have u: "unat (of_nat n :: t_u32) = n" using assms by (simp add: unat_of_nat take_bit_nat_eq_self)
  have "bit (of_nat n :: t_u32) 31 = bit (unat (of_nat n :: t_u32)) 31"
    by (simp add: bit_unsigned_iff del: unsigned_of_nat)
  then have *: "\<not> bit (of_nat n :: t_u32) 31"
    unfolding u using assms by (simp only: bit_iff_odd) simp
  show "(of_nat n :: t_u32) AND 0x80000000 = 0"
    using * and_exp_eq_0_iff_not_bit [of "of_nat n :: t_u32" 31] by simp
  have "(of_nat n :: t_u32) AND 0xfffff = take_bit 20 (of_nat n)"
    by (simp add: take_bit_eq_mask mask_numeral)
  also have "\<dots> = of_nat n" using assms u by (metis take_bit_of_nat take_bit_nat_eq_self)
  finally show "(of_nat n :: t_u32) AND 0xfffff = of_nat n" .
qed

lemma mpa_base: "k < 16 \<Longrightarrow> (0x10000 OR 0x1000 OR push_bit 8 (of_nat k) :: t_u32) = of_nat (0x11000 + 256 * k)"
proof -
  assume "k < 16"
  then have "k = 0 \<or> k = 1 \<or> k = 2 \<or> k = 3 \<or> k = 4 \<or> k = 5 \<or> k = 6 \<or> k = 7 \<or> k = 8 \<or> k = 9 \<or> k = 10 \<or> k = 11
    \<or> k = 12 \<or> k = 13 \<or> k = 14 \<or> k = 15" by presburger
  then show ?thesis by (elim disjE) simp_all
qed

lemma mpa_address_eq:
  assumes "tx_core p s" "0 < tx_pkt_cnt (mpa_tx s)"
  shows "mpa_address s (tx_ports (mpa_tx s)) (tx_start_port (mpa_tx s)) = of_nat (0x11000 + 256 * (tx_pkt_cnt (mpa_tx s) - 1) + tx_start_port (mpa_tx s))"
proof -
  have n: "tx_pkt_cnt (mpa_tx s) \<le> 16" "ioport s = 0x10000" using assms by (auto simp: tx_core_def)
  have "card (port_set (tx_ports (mpa_tx s))) = tx_pkt_cnt (mpa_tx s)"
    using assms by (auto simp: tx_core_def tx_ports_ok_def Let_def card_port_run)
  then have "bitcount (tx_ports (mpa_tx s)) - 1 = of_nat (tx_pkt_cnt (mpa_tx s) - 1)"
    using assms(2) by (simp add: bitcount_card of_nat_diff)
  then show ?thesis
    using n mpa_base [of "tx_pkt_cnt (mpa_tx s) - 1"] assms(2) by (simp add: mpa_address_def)
qed

definition wrote :: "sdio_env \<Rightarrow> nat \<Rightarrow> t_u8 list \<Rightarrow> mlan_status \<Rightarrow> sdio_ctx \<Rightarrow> sdio_ctx \<Rightarrow> bool" where
  "wrote e addr bytes ret s s' \<longleftrightarrow> ret \<in> {MLAN_STATUS_SUCCESS, MLAN_STATUS_FAILURE}
     \<and> (\<exists>xs. xfers s' = xfers s @ xs \<and> (bus_ok e \<longrightarrow> ret = MLAN_STATUS_SUCCESS \<and> xs = [Sdio_write (of_nat addr) bytes]))
     \<and> (bus_dead e \<longrightarrow> ret = MLAN_STATUS_FAILURE)"

lemma transfer_len_block:
  assumes "port AND 0x80000000 = 0" "256 dvd unat len"
  shows "transfer_len port len = unat len"
  using assms by (simp add: transfer_len_def)

lemma gather_held: "\<forall>b \<in> set bs. block_buf b \<Longrightarrow> gather bs = Some (concat (map buf_data bs))"
proof (induction bs)
  case (Cons b bs)
  then have "gather bs = Some (concat (map buf_data bs))" by simp
  then obtain ys where "those (map (\<lambda>b. rd (pbuf b) (data_offset b) (unat (data_len b))) bs) = Some ys" "concat ys = concat (map buf_data bs)"
    by (auto simp: gather_def)
  then show ?case using Cons.prems block_buf_rd [of b] by (simp add: gather_def del: rd_Some)
qed (simp add: gather_def)

text \<open>The address, the buffer and the bytes of one transfer of the collected packets.\<close>

definition agg_port :: "sdio_ctx \<Rightarrow> t_u32" where
  "agg_port s = (let t = mpa_tx s in if tx_pkt_cnt t = 1 then ioport s + of_nat (tx_start_port t)
     else mpa_address s (tx_ports t) (tx_start_port t))"

definition agg_io :: "sdio_ctx \<Rightarrow> io_buf" where
  "agg_io s = (case tx_buf (mpa_tx s) of
       Some buf \<Rightarrow> Flat \<lparr>sb_id = 0, pbuf = buf, data_offset = 0, data_len = tx_buf_len (mpa_tx s), status_code = 0, buf_type = 0\<rparr>
     | None \<Rightarrow> if tx_pkt_cnt (mpa_tx s) = 1 then Flat (hd (held_tx s)) else Linked (tx_buf_len (mpa_tx s)) (held_tx s))"

lemma agg_port_eq:
  assumes "tx_core p s" "0 < tx_pkt_cnt (mpa_tx s)"
  shows "agg_port s = of_nat (tx_address (tx_pkt_cnt (mpa_tx s)) (tx_start_port (mpa_tx s)))"
    and "tx_address (tx_pkt_cnt (mpa_tx s)) (tx_start_port (mpa_tx s)) < 2 ^ 20"
  using assms mpa_address_eq [OF assms] by (auto simp: agg_port_def tx_address_def Let_def tx_core_def tx_ports_ok_def)

lemma held_tx_length:
  assumes "tx_core p s" "tx_buf (mpa_tx s) = None"
  shows "length (held_tx s) = tx_pkt_cnt (mpa_tx s)" "take (tx_pkt_cnt (mpa_tx s)) (tx_mbuf_arr (mpa_tx s)) = map Some (held_tx s)"
    "\<forall>b \<in> set (held_tx s). block_buf b" "unat (tx_buf_len (mpa_tx s)) = sum_list (map (\<lambda>b. unat (data_len b)) (held_tx s))"
  using assms by (simp_all add: tx_core_def tx_data_ok_def logs_ok_def held_tx_def Let_def)

lemma length_concat_data: "\<forall>b \<in> set bs. block_buf b \<Longrightarrow> length (concat (map buf_data bs)) = sum_list (map (\<lambda>b. unat (data_len b)) bs)"
  by (induction bs) simp_all

lemma agg_payload:
  assumes c: "tx_core p s" and n: "0 < tx_pkt_cnt (mpa_tx s)"
  shows "io_payload (agg_port s) (agg_io s) = Some (tx_pending s)"
proof -
  have dv: "256 dvd unat (tx_buf_len (mpa_tx s))" and n16: "tx_pkt_cnt (mpa_tx s) \<le> 16"
    using c by (auto simp: tx_core_def tx_data_ok_def Let_def)
  have bm: "agg_port s AND 0x80000000 = 0" unfolding agg_port_eq [OF c n] using agg_port_eq(2) [OF c n] by (rule small_word)
  show ?thesis
  proof (cases "tx_buf (mpa_tx s)")
    case (Some buf)
    then have "unat (tx_buf_len (mpa_tx s)) \<le> length buf" using c by (auto simp: tx_core_def tx_data_ok_def Let_def)
    then show ?thesis
      using Some transfer_len_block [OF bm dv] by (simp add: agg_io_def io_payload_def tx_pending_def rd_def)
  next
    case None
    note h = held_tx_length [OF c None]
    show ?thesis
    proof (cases "tx_pkt_cnt (mpa_tx s) = 1")
      case True
      then obtain b where b: "held_tx s = [b]" using h(1) by (cases "held_tx s") auto
      then have "block_buf b" using h(3) by simp
      then have "io_payload (agg_port s) (Flat b) = Some (buf_data b)"
        using transfer_len_block [OF bm, of "data_len b"] block_buf_rd [of b]
        by (simp add: io_payload_def block_buf_def del: rd_Some)
      then show ?thesis using None True b by (simp add: agg_io_def tx_pending_def)
    next
      case False
      then have "transfer_len 0 (tx_buf_len (mpa_tx s)) = length (concat (map buf_data (held_tx s)))"
        using transfer_len_block [of 0, OF _ dv] h(4) length_concat_data [OF h(3)] by simp
      then show ?thesis
        using None False n n16 h(1) gather_held [OF h(3)] by (simp add: agg_io_def tx_pending_def io_payload_def)
    qed
  qed
qed

lemma those_Somes: "those (map Some xs) = Some xs"
  by (induction xs) simp_all

text \<open>The function in these terms.\<close>

lemma send_mp_steps:
  assumes c: "tx_core p s" and n: "0 < tx_pkt_cnt (mpa_tx s)"
  shows "wlan_send_mp_aggr_buf e s =
     Option.bind (wlan_write_data_sync e (agg_io s) (agg_port s) s) (\<lambda>(ret, io1, s1).
     Option.bind (count_no_port (tx_pkt_cnt (mpa_tx s) < 16) (call_up (map (\<lambda>b. Write_data_complete b MLAN_STATUS_SUCCESS)
         (case io1 of Flat b \<Rightarrow> if tx_buf (mpa_tx s) = None then [b] else [] | Linked len bs \<Rightarrow> bs)) s1)) (\<lambda>s3.
     Option.bind (count_tx (tx_pkt_cnt (mpa_tx s) - 1) s3) (\<lambda>s4.
     Option.bind (note_mp_write (agg_port s) (tx_buf_len (mpa_tx s)) (mp_wr_info (mpa_tx s)) s4) (\<lambda>s5.
     Some (ret, s5\<lparr>mpa_tx := MP_TX_AGGR_BUF_RESET (mpa_tx s5)\<rparr>)))))"
proof (cases "tx_buf (mpa_tx s)")
  case (Some buf)
  then show ?thesis using n by (simp add: wlan_send_mp_aggr_buf_def Let_def agg_io_def agg_port_def)
next
  case None
  have "tx_pkt_cnt (mpa_tx s) \<le> length (tx_mbuf_arr (mpa_tx s))" using c by (auto simp: tx_core_def logs_ok_def)
  then show ?thesis
    using None n held_tx_length(2) [OF c None] by (simp add: wlan_send_mp_aggr_buf_def Let_def agg_io_def agg_port_def those_Somes)
qed

definition flushed :: "sdio_env \<Rightarrow> mlan_status \<Rightarrow> sdio_ctx \<Rightarrow> sdio_ctx \<Rightarrow> bool" where
  "flushed e ret s s' \<longleftrightarrow> wrote e (tx_address (tx_pkt_cnt (mpa_tx s)) (tx_start_port (mpa_tx s))) (tx_pending s) ret s s'
     \<and> tx_env s' = tx_env s \<and> tx_pkt_cnt (mpa_tx s') = 0 \<and> (\<forall>q < mp_end_port s. tx_core q s') \<and> tx_pending s' = []
     \<and> (\<exists>bs. up_calls s' = up_calls s @ map (\<lambda>b. Write_data_complete b MLAN_STATUS_SUCCESS) bs \<and> map sb_id bs = map sb_id (held_tx s))"

lemma send_mp_ok:
  assumes c: "tx_core p s" and n: "0 < tx_pkt_cnt (mpa_tx s)"
  obtains ret s' where "wlan_send_mp_aggr_buf e s = Some (ret, s')" "flushed e ret s s'"
proof -
  have lo: "logs_ok s" "length (mp_wr_info (mpa_tx s)) = 16" "curr_wr_port s < 32" "tx_pkt_cnt (mpa_tx s) - 1 < 16" "mp_end_port s \<le> 32"
    using c by (auto simp: tx_core_def logs_ok_def)
  note a = agg_port_eq [OF c n]
  obtain ret xs where w: "wlan_write_data_sync e (agg_io s) (agg_port s) s =
       Some (ret, if ret = MLAN_STATUS_FAILURE then set_io_status 4 (agg_io s) else agg_io s, set_xfers (xfers s @ xs) s)" (is "_ = Some (_, ?io, ?s1)")
    and r: "ret \<in> {MLAN_STATUS_SUCCESS, MLAN_STATUS_FAILURE}"
      "bus_ok e \<longrightarrow> ret = MLAN_STATUS_SUCCESS \<and> xs = [Sdio_write (agg_port s AND 0xfffff) (tx_pending s)]" "bus_dead e \<longrightarrow> ret = MLAN_STATUS_FAILURE"
    by (rule write_data_outcome [OF agg_payload [OF c n]])
  let ?bs = "case ?io of Flat b \<Rightarrow> if tx_buf (mpa_tx s) = None then [b] else [] | Linked len bs \<Rightarrow> bs"
  let ?s2 = "call_up (map (\<lambda>b. Write_data_complete b MLAN_STATUS_SUCCESS) ?bs) ?s1"
  have l2: "logs_ok ?s2" "curr_wr_port ?s2 < 32" using lo by (simp_all add: call_up_def logs_ok_def Let_def)
  obtain s3 where 3: "count_no_port (tx_pkt_cnt (mpa_tx s) < 16) ?s2 = Some s3" "dbg_only ?s2 s3" using count_no_port_ok [OF l2(2)] by blast
  obtain s4 where 4: "count_tx (tx_pkt_cnt (mpa_tx s) - 1) s3 = Some s4" "dbg_only s3 s4"
    using count_tx_ok [OF dbg_only_fields(10) [OF 3(2) l2(1)] lo(4)] by blast
  note d4 = dbg_only_trans [OF 3(2) 4(2)]
  obtain s5 where 5: "note_mp_write (agg_port s) (tx_buf_len (mpa_tx s)) (mp_wr_info (mpa_tx s)) s4 = Some s5" "dbg_only s4 s5"
    using note_mp_write_ok [OF dbg_only_fields(10) [OF d4 l2(1)] lo(2)] by blast
  note d = dbg_only_trans [OF d4 5(2)]
  note f = dbg_only_fields [OF d]
  let ?s' = "s5\<lparr>mpa_tx := MP_TX_AGGR_BUF_RESET (mpa_tx s5)\<rparr>"
  have run: "wlan_send_mp_aggr_buf e s = Some (ret, ?s')"
    unfolding send_mp_steps [OF c n] w using 3(1) 4(1) 5(1) by simp
  have wr: "wrote e (tx_address (tx_pkt_cnt (mpa_tx s)) (tx_start_port (mpa_tx s))) (tx_pending s) ret s ?s'"
    using r f a(1) small_word(2) [OF a(2)] by (auto simp: wrote_def call_up_def)
  have env: "tx_env ?s' = tx_env s" using f by (simp add: tx_env_def call_up_def MP_TX_AGGR_BUF_RESET_def)
  have core: "tx_core q ?s'" if q: "q < mp_end_port s" for q
  proof -
    have "logs_ok ?s'" using f(10) [OF l2(1)] by (simp add: logs_ok_def MP_TX_AGGR_BUF_RESET_def)
    moreover have "tx_data_ok ?s'"
      using c f by (auto simp: tx_core_def tx_data_ok_def Let_def call_up_def MP_TX_AGGR_BUF_RESET_def held_tx_def split: option.splits)
    moreover have "tx_ports_ok q ?s'"
      using f by (simp add: tx_ports_ok_def Let_def MP_TX_AGGR_BUF_RESET_def port_run_def port_set_def)
    ultimately show ?thesis using c f q by (auto simp: tx_core_def call_up_def MP_TX_AGGR_BUF_RESET_def)
  qed
  have ids: "map sb_id ?bs = map sb_id (held_tx s)"
  proof (cases "tx_buf (mpa_tx s)")
    case (Some buf)
    then show ?thesis by (simp add: agg_io_def held_tx_def set_io_status_def)
  next
    case None
    then show ?thesis
      using held_tx_length(1) [OF c None] n by (cases "held_tx s") (auto simp: agg_io_def set_io_status_def)
  qed
  have cnt: "tx_pkt_cnt (mpa_tx ?s') = 0" "tx_pending ?s' = []"
    using f by (auto simp: MP_TX_AGGR_BUF_RESET_def tx_pending_def held_tx_def split: option.splits)
  have "up_calls ?s' = up_calls s @ map (\<lambda>b. Write_data_complete b MLAN_STATUS_SUCCESS) ?bs"
    using f by (simp add: call_up_def)
  then have "flushed e ret s ?s'" unfolding flushed_def using wr env core cnt ids by blast
  then show thesis using run that by blast
qed

subsection \<open>Sending one packet on its own\<close>

definition quiet :: "sdio_ctx \<Rightarrow> sdio_ctx \<Rightarrow> bool" where
  "quiet s s' \<longleftrightarrow> mpa_tx s' = mpa_tx s \<and> tx_env s' = tx_env s \<and> up_calls s' = up_calls s \<and> (logs_ok s \<longrightarrow> logs_ok s')"

lemma quiet_core:
  assumes "quiet s s'"
  shows "tx_core q s \<Longrightarrow> tx_core q s'" "tx_pending s' = tx_pending s" "held_tx s' = held_tx s"
proof -
  have f: "mpa_tx s' = mpa_tx s" "ioport s' = ioport s" "mp_end_port s' = mp_end_port s" "curr_wr_port s' = curr_wr_port s" "logs_ok s \<Longrightarrow> logs_ok s'"
    using assms by (auto simp: quiet_def tx_env_def)
  show h: "held_tx s' = held_tx s" using f by (simp add: held_tx_def)
  then show "tx_pending s' = tx_pending s" using f by (simp add: tx_pending_def split: option.split)
  have "tx_data_ok s' = tx_data_ok s" unfolding tx_data_ok_def h f ..
  moreover have "tx_ports_ok q s' = tx_ports_ok q s" by (simp add: tx_ports_ok_def f)
  ultimately show "tx_core q s \<Longrightarrow> tx_core q s'" using f by (simp add: tx_core_def)
qed

lemma send_single_ok:
  assumes b: "block_buf b" and lo: "logs_ok s" "curr_wr_port s < 32" "ioport s = 0x10000" "port < 32"
  obtains ret b' s' where "send_single e b port s = Some (ret, b', s')" "wrote e (0x10000 + port) (buf_data b) ret s s'" "quiet s s'"
    "sb_id b' = sb_id b"
proof -
  have a: "ioport s + of_nat port = of_nat (0x10000 + port)" "0x10000 + port < 2 ^ 20" using lo by simp_all
  have dv: "256 dvd unat (data_len b)" using b by (simp add: block_buf_def)
  have pay: "io_payload (ioport s + of_nat port) (Flat b) = Some (buf_data b)"
    unfolding a(1) using transfer_len_block [OF small_word(1) [OF a(2)] dv] block_buf_rd [OF b]
    by (simp add: io_payload_def del: rd_Some)
  obtain ret xs where w: "wlan_write_data_sync e (Flat b) (ioport s + of_nat port) s =
       Some (ret, if ret = MLAN_STATUS_FAILURE then set_io_status 4 (Flat b) else Flat b, set_xfers (xfers s @ xs) s)" (is "_ = Some (_, ?io, ?s1)")
    and r: "ret \<in> {MLAN_STATUS_SUCCESS, MLAN_STATUS_FAILURE}"
      "bus_ok e \<longrightarrow> ret = MLAN_STATUS_SUCCESS \<and> xs = [Sdio_write ((ioport s + of_nat port) AND 0xfffff) (buf_data b)]" "bus_dead e \<longrightarrow> ret = MLAN_STATUS_FAILURE"
    by (rule write_data_outcome [OF pay])
  have l1: "logs_ok ?s1" "curr_wr_port ?s1 < 32" using lo by (simp_all add: logs_ok_def Let_def)
  obtain s2 where 2: "count_no_port True ?s1 = Some s2" "dbg_only ?s1 s2" using count_no_port_ok [OF l1(2)] by blast
  obtain h where h: "rd (pbuf b) (data_offset b) 2 = Some h" using block_buf_rd2 [OF b] by blast
  let ?info = "of_le16 h # replicate 15 0"
  obtain s3 where 3: "note_mp_write (ioport s + of_nat port) (data_len b) ?info s2 = Some s3" "dbg_only s2 s3"
    using note_mp_write_ok [OF dbg_only_fields(10) [OF 2(2) l1(1)], of ?info] by auto
  note d3 = dbg_only_trans [OF 2(2) 3(2)]
  obtain s4 where 4: "count_tx 0 s3 = Some s4" "dbg_only s3 s4"
    using count_tx_ok [OF dbg_only_fields(10) [OF d3 l1(1)], of 0] by auto
  note d = dbg_only_trans [OF d3 4(2)]
  note f = dbg_only_fields [OF d]
  let ?b = "case ?io of Flat b' \<Rightarrow> b' | Linked len bs \<Rightarrow> b"
  have run: "send_single e b port s = Some (ret, ?b, s4)"
    unfolding send_single_def w using 2(1) 3(1) 4(1) h by (simp del: rd_Some)
  have wr: "wrote e (0x10000 + port) (buf_data b) ret s s4"
    using r f small_word(2) [OF a(2)] unfolding a(1) by (auto simp: wrote_def)
  have q: "quiet s s4" using f l1(1) by (simp add: quiet_def tx_env_def)
  have "sb_id ?b = sb_id b" by (simp add: set_io_status_def)
  then show thesis using that run wr q by blast
qed

subsection \<open>One packet\<close>

lemma tx_envD:
  assumes "tx_env s' = tx_env s"
  shows "ioport s' = ioport s" "mp_wr_bitmap s' = mp_wr_bitmap s" "curr_wr_port s' = curr_wr_port s" "mp_end_port s' = mp_end_port s"
    "tx_enabled (mpa_tx s') = tx_enabled (mpa_tx s)" "tx_buf_size (mpa_tx s') = tx_buf_size (mpa_tx s)"
    "tx_pkt_aggr_limit (mpa_tx s') = tx_pkt_aggr_limit (mpa_tx s)" "(tx_buf (mpa_tx s') = None) = (tx_buf (mpa_tx s) = None)"
  using assms by (simp_all add: tx_env_def)

lemma mpa_tx_cong:
  assumes "mpa_tx s' = mpa_tx s"
  shows "held_tx s' = held_tx s" "tx_pending s' = tx_pending s" "tx_data_ok s' = tx_data_ok s"
proof -
  show h: "held_tx s' = held_tx s" using assms by (simp add: held_tx_def)
  show "tx_pending s' = tx_pending s" unfolding tx_pending_def h assms ..
  show "tx_data_ok s' = tx_data_ok s" unfolding tx_data_ok_def h assms ..
qed

lemma port_free_bit: "curr_wr_port s < 32 \<Longrightarrow> port_free s = Some (bit (mp_wr_bitmap s) (curr_wr_port s))"
  by (simp add: port_free_def shl1_def and_exp_eq_0_iff_not_bit)

lemma tx_core_empty:
  assumes "tx_core p s" "tx_pkt_cnt (mpa_tx s) = 0" "q < mp_end_port s"
  shows "tx_core q s"
  using assms by (auto simp: tx_core_def tx_ports_ok_def Let_def)

end
