(* ===== verification/Sdio_Tx_Props.thy ===== *)
theory Sdio_Tx_Props
  imports Sdio_Tx_Inv
begin

text \<open>
  Properties of the sending side.  They hold for every behaviour of the bus, unless a property says otherwise.
\<close>

subsection \<open>Collecting or sending one packet\<close>

text \<open>What handing over a packet achieves: \<open>more\<close> says that another one follows.\<close>

definition handed_over :: "sdio_env \<Rightarrow> bool \<Rightarrow> mlan_status \<Rightarrow> sdio_buffer \<Rightarrow> sdio_ctx \<Rightarrow> sdio_ctx \<Rightarrow> bool" where
  "handed_over e more_pkts ret b s s' \<longleftrightarrow> tx_env s' = tx_env s \<and> tx_core (curr_wr_port s) s'
     \<and> tx_pkt_cnt (mpa_tx s') < tx_pkt_aggr_limit (mpa_tx s')
     \<and> (tx_pkt_cnt (mpa_tx s') > 0 \<longrightarrow> bit (mp_wr_bitmap s) (curr_wr_port s) \<and> more_pkts \<and> tx_enabled (mpa_tx s))
     \<and> ret \<in> {MLAN_STATUS_SUCCESS, MLAN_STATUS_FAILURE, MLAN_STATUS_PENDING}
     \<and> (bus_ok e \<longrightarrow> ret \<noteq> MLAN_STATUS_FAILURE \<and> (\<exists>xs. xfers s' = xfers s @ xs \<and> written xs @ tx_pending s' = tx_pending s @ buf_data b))"

text \<open>The packet has just been given its port, the next one after those of the collected packets.\<close>

definition in_turn :: "nat \<Rightarrow> sdio_buffer \<Rightarrow> sdio_ctx \<Rightarrow> bool" where
  "in_turn port b s \<longleftrightarrow> tx_core port s \<and> block_buf b \<and> unat (data_len b) \<le> unat (tx_buf_size (mpa_tx s))
     \<and> 2 \<le> tx_pkt_aggr_limit (mpa_tx s) \<and> tx_pkt_aggr_limit (mpa_tx s) \<le> 16 \<and> tx_pkt_aggr_limit (mpa_tx s) \<le> mp_end_port s
     \<and> tx_pkt_cnt (mpa_tx s) < tx_pkt_aggr_limit (mpa_tx s) \<and> curr_wr_port s = (port + 1) mod mp_end_port s
     \<and> (tx_pkt_cnt (mpa_tx s) > 0 \<longrightarrow> tx_enabled (mpa_tx s))"

lemma in_turnD:
  assumes "in_turn port b s"
  shows "tx_core port s" "block_buf b" "unat (data_len b) \<le> unat (tx_buf_size (mpa_tx s))" "curr_wr_port s < mp_end_port s"
    "curr_wr_port s < 32" "mp_end_port s \<le> 32" "ioport s = 0x10000" "logs_ok s" "unat (data_len b) < 2 ^ 31" "port < 32"
    "tx_pkt_cnt (mpa_tx s) < tx_pkt_aggr_limit (mpa_tx s)" "2 \<le> tx_pkt_aggr_limit (mpa_tx s)"
  using assms by (auto simp: in_turn_def tx_core_def tx_data_ok_def Let_def)

lemma in_turn_collect:
  assumes t: "in_turn port b s" and room: "MP_TX_AGGR_BUF_HAS_ROOM s (data_len b)"
  obtains s' where "collect_tx b port s = Some s'" "tx_core (curr_wr_port s) s'" "collected s b s'"
proof -
  note f = in_turnD [OF t]
  have "tx_pkt_cnt (mpa_tx s) < 16" "tx_pkt_cnt (mpa_tx s) < mp_end_port s" using t by (simp_all add: in_turn_def)
  from collect_tx_ok [OF f(1,2) this room f(9)] obtain s' where
    "collect_tx b port s = Some s'" "tx_core ((port + 1) mod mp_end_port s) s'" "collected s b s'" .
  then show thesis using that t by (simp add: in_turn_def)
qed

text \<open>With nothing collected the packet fits.\<close>

lemma room_if_empty:
  assumes "tx_core p s" "tx_pkt_cnt (mpa_tx s) = 0" "unat len \<le> unat (tx_buf_size (mpa_tx s))"
  shows "MP_TX_AGGR_BUF_HAS_ROOM s len"
proof -
  have "tx_buf_len (mpa_tx s) = 0" using assms by (simp add: tx_core_def tx_data_ok_def Let_def)
  then show ?thesis using assms(3) by (simp add: MP_TX_AGGR_BUF_HAS_ROOM_def word_le_nat_alt)
qed

text \<open>Collected and kept; collected and sent; sent alone after what was collected; collected after that.\<close>

lemma kept:
  assumes t: "in_turn port b s" and c: "collected s b s1" "tx_core (curr_wr_port s) s1"
    and k: "tx_pkt_cnt (mpa_tx s) + 1 \<noteq> tx_pkt_aggr_limit (mpa_tx s)" "bit (mp_wr_bitmap s) (curr_wr_port s)" m "tx_enabled (mpa_tx s)"
    "ret \<in> {MLAN_STATUS_SUCCESS, MLAN_STATUS_PENDING}"
  shows "handed_over e m ret b s s1"
proof -
  have env: "tx_env s1 = tx_env s" using c by (simp add: collected_def)
  note v = tx_envD [OF env] and f = in_turnD [OF t]
  have x: "written [] @ tx_pending s1 = tx_pending s @ buf_data b" "xfers s1 = xfers s @ []" using c by (simp_all add: collected_def)
  show ?thesis unfolding handed_over_def
    using c env k f(11) v by (auto simp: collected_def intro!: exI [of _ "[]"])
qed

lemma collected_sent:
  assumes t: "in_turn port b s" and c: "collected s b s1" "tx_core (curr_wr_port s) s1" and fl: "flushed e ret s1 s2"
    and r: "ret' = ret \<or> ret' = MLAN_STATUS_PENDING"
  shows "handed_over e m ret' b s s2"
proof -
  have env: "tx_env s2 = tx_env s" "tx_env s1 = tx_env s" using c fl by (simp_all add: collected_def flushed_def)
  note v = tx_envD [OF env(1)] and v1 = tx_envD [OF env(2)] and f = in_turnD [OF t]
  have n: "tx_pkt_cnt (mpa_tx s2) = 0" "tx_pending s2 = []" "tx_core (curr_wr_port s) s2"
    using fl f(4) v1 by (auto simp: flushed_def)
  have rs: "ret' \<in> {MLAN_STATUS_SUCCESS, MLAN_STATUS_FAILURE, MLAN_STATUS_PENDING}" using fl r by (auto simp: flushed_def wrote_def)
  have "bus_ok e \<longrightarrow> ret' \<noteq> MLAN_STATUS_FAILURE \<and> (\<exists>xs. xfers s2 = xfers s @ xs \<and> written xs @ tx_pending s2 = tx_pending s @ buf_data b)"
  proof
    assume "bus_ok e"
    then obtain a where "ret = MLAN_STATUS_SUCCESS" "xfers s2 = xfers s1 @ [Sdio_write a (tx_pending s1)]"
      using fl unfolding flushed_def wrote_def by blast
    then show "ret' \<noteq> MLAN_STATUS_FAILURE \<and> (\<exists>xs. xfers s2 = xfers s @ xs \<and> written xs @ tx_pending s2 = tx_pending s @ buf_data b)"
      using r c n by (auto simp: collected_def)
  qed
  then show ?thesis unfolding handed_over_def using env n f v rs by simp
qed

lemma pending_empty: "tx_core p s \<Longrightarrow> tx_pkt_cnt (mpa_tx s) = 0 \<Longrightarrow> tx_pending s = []"
  by (auto simp: tx_pending_def held_tx_def tx_core_def tx_data_ok_def Let_def split: option.splits)

text \<open>Flushing when something is collected; nothing happens otherwise.\<close>

lemma flush_ok:
  assumes t: "in_turn port b s"
  obtains ret s' where "wlan_send_mp_aggr_buf e s = Some (ret, s')" "tx_env s' = tx_env s" "tx_pkt_cnt (mpa_tx s') = 0"
    "\<forall>q < mp_end_port s. tx_core q s'" "tx_pending s' = []" "ret \<in> {MLAN_STATUS_SUCCESS, MLAN_STATUS_FAILURE}"
    "bus_ok e \<longrightarrow> ret = MLAN_STATUS_SUCCESS \<and> (\<exists>xs. xfers s' = xfers s @ xs \<and> written xs = tx_pending s)"
proof (cases "tx_pkt_cnt (mpa_tx s) = 0")
  case True
  note c = in_turnD(1) [OF t] and p = pending_empty [OF in_turnD(1) [OF t] True]
  have "wlan_send_mp_aggr_buf e s = Some (MLAN_STATUS_SUCCESS, s)" using True by (simp add: wlan_send_mp_aggr_buf_def)
  then show thesis by (rule that) (use True p tx_core_empty [OF c True] in auto)
next
  case False
  from send_mp_ok [OF in_turnD(1) [OF t], of e] False obtain ret s' where r: "wlan_send_mp_aggr_buf e s = Some (ret, s')" and f: "flushed e ret s s'"
    by blast
  show thesis by (rule that [OF r]) (use f in \<open>auto simp: flushed_def wrote_def\<close>)
qed

lemma flushed_then_single:
  assumes t: "in_turn port b s"
  obtains ret1 s1 ret b' s' where "wlan_send_mp_aggr_buf e s = Some (ret1, s1)" "send_single e b port s1 = Some (ret, b', s')"
    "handed_over e m ret b s s'" "sb_id b' = sb_id b"
proof -
  note f = in_turnD [OF t]
  from flush_ok [OF t] obtain ret1 s1 where 1: "wlan_send_mp_aggr_buf e s = Some (ret1, s1)" "tx_env s1 = tx_env s" "tx_pkt_cnt (mpa_tx s1) = 0"
    "\<forall>q < mp_end_port s. tx_core q s1" "tx_pending s1 = []" "ret1 \<in> {MLAN_STATUS_SUCCESS, MLAN_STATUS_FAILURE}"
    "bus_ok e \<longrightarrow> ret1 = MLAN_STATUS_SUCCESS \<and> (\<exists>xs. xfers s1 = xfers s @ xs \<and> written xs = tx_pending s)" .
  note v = tx_envD [OF 1(2)]
  have l1: "logs_ok s1" "curr_wr_port s1 < 32" "ioport s1 = 0x10000" using 1(4) f v by (auto simp: tx_core_def)
  obtain ret b' s' where 2: "send_single e b port s1 = Some (ret, b', s')" "wrote e (0x10000 + port) (buf_data b) ret s1 s'" "quiet s1 s'" "sb_id b' = sb_id b"
    by (rule send_single_ok [OF f(2) l1 f(10)])
  note q = quiet_core [OF 2(3)]
  have "bus_ok e \<longrightarrow> ret \<noteq> MLAN_STATUS_FAILURE \<and> (\<exists>xs. xfers s' = xfers s @ xs \<and> written xs @ tx_pending s' = tx_pending s @ buf_data b)"
  proof
    assume ok: "bus_ok e"
    then obtain xs where "xfers s1 = xfers s @ xs" "written xs = tx_pending s" using 1(7) by auto
    moreover obtain a where "xfers s' = xfers s1 @ [Sdio_write a (buf_data b)]" "ret = MLAN_STATUS_SUCCESS"
      using ok 2(2) by (auto simp: wrote_def)
    ultimately show "ret \<noteq> MLAN_STATUS_FAILURE \<and> (\<exists>xs. xfers s' = xfers s @ xs \<and> written xs @ tx_pending s' = tx_pending s @ buf_data b)"
      using q(2) 1(5) by (intro conjI exI [of _ "xs @ [Sdio_write a (buf_data b)]"]) auto
  qed
  moreover have "tx_env s' = tx_env s" "tx_pkt_cnt (mpa_tx s') = 0" "tx_pkt_aggr_limit (mpa_tx s') = tx_pkt_aggr_limit (mpa_tx s)"
    using 2(3) 1(2,3) v by (simp_all add: quiet_def)
  moreover have rs: "ret \<in> {MLAN_STATUS_SUCCESS, MLAN_STATUS_FAILURE, MLAN_STATUS_PENDING}" using 2(2) by (auto simp: wrote_def)
  moreover have "tx_core (curr_wr_port s) s'" using q(1) 1(4) f(4) by simp
  ultimately have "handed_over e m ret b s s'" unfolding handed_over_def using f rs by simp
  then show thesis using that 1(1) 2(1,4) by blast
qed

lemma flushed_then_collected:
  assumes t: "in_turn port b s" and m: m "bit (mp_wr_bitmap s) (curr_wr_port s)" "tx_enabled (mpa_tx s)"
  obtains ret1 s1 s' where "wlan_send_mp_aggr_buf e s = Some (ret1, s1)" "collect_tx b port s1 = Some s'"
    "\<forall>ret. ret = ret1 \<or> ret = MLAN_STATUS_PENDING \<longrightarrow> handed_over e m ret b s s'"
proof -
  note f = in_turnD [OF t]
  from flush_ok [OF t] obtain ret1 s1 where 1: "wlan_send_mp_aggr_buf e s = Some (ret1, s1)" "tx_env s1 = tx_env s" "tx_pkt_cnt (mpa_tx s1) = 0"
    "\<forall>q < mp_end_port s. tx_core q s1" "tx_pending s1 = []" "ret1 \<in> {MLAN_STATUS_SUCCESS, MLAN_STATUS_FAILURE}"
    "bus_ok e \<longrightarrow> ret1 = MLAN_STATUS_SUCCESS \<and> (\<exists>xs. xfers s1 = xfers s @ xs \<and> written xs = tx_pending s)" .
  note v = tx_envD [OF 1(2)]
  have p: "port < mp_end_port s" using f(1) by (simp add: tx_core_def)
  have t1: "in_turn port b s1" using t 1(3,4) v p by (simp add: in_turn_def)
  obtain s' where 2: "collect_tx b port s1 = Some s'" "tx_core (curr_wr_port s1) s'" "collected s1 b s'"
    by (rule in_turn_collect [OF t1 room_if_empty [OF in_turnD(1) [OF t1] 1(3)]]) (use f v in simp)
  have "handed_over e m ret b s s'" if r: "ret = ret1 \<or> ret = MLAN_STATUS_PENDING" for ret
  proof -
    have x: "bus_ok e \<longrightarrow> ret \<noteq> MLAN_STATUS_FAILURE \<and> (\<exists>xs. xfers s' = xfers s @ xs \<and> written xs @ tx_pending s' = tx_pending s @ buf_data b)"
      using 1(5,7) 2(3) r by (auto simp: collected_def)
    have e: "tx_env s' = tx_env s" using 1(2) 2(3) by (simp add: collected_def)
    have n: "tx_pkt_cnt (mpa_tx s') = 1" using 1(3) 2(3) by (simp add: collected_def)
    show ?thesis unfolding handed_over_def using x e n 2(2) v m f(12) tx_envD [OF e] r 1(6) by auto
  qed
  then show thesis using that 1(1) 2(1) by blast
qed

lemma handed_over_cong:
  assumes "tx_env s0 = tx_env s" "xfers s0 = xfers s" "tx_pending s0 = tx_pending s"
  shows "handed_over e m ret b s0 s' = handed_over e m ret b s s'"
  using assms tx_envD [OF assms(1)] by (simp add: handed_over_def)

lemma mp_ok:
  assumes t: "in_turn port b s"
  shows "\<exists>ret b' s'. wlan_host_to_card_mp_aggr e b port next s = Some (ret, b', s') \<and> handed_over e (next \<noteq> 0) ret b s s' \<and> sb_id b' = sb_id b"
proof (cases "tx_enabled (mpa_tx s)")
  case False
  then have n: "tx_pkt_cnt (mpa_tx s) = 0" using t by (auto simp: in_turn_def)
  from flushed_then_single [OF t, of e "next \<noteq> 0"] obtain ret1 s1 ret b' s' where
    1: "wlan_send_mp_aggr_buf e s = Some (ret1, s1)" "send_single e b port s1 = Some (ret, b', s')"
       "handed_over e (next \<noteq> 0) ret b s s'" "sb_id b' = sb_id b" .
  have "s1 = s" using 1(1) n by (simp add: wlan_send_mp_aggr_buf_def)
  then show ?thesis using False 1 by (simp add: wlan_host_to_card_mp_aggr_def)
next
  case en: True
  define s0 where "s0 = (if next \<noteq> 0 then s else s\<lparr>sd_dbg := (sd_dbg s)\<lparr>mpa_sent_last_pkt := mpa_sent_last_pkt (sd_dbg s) + 1\<rparr>\<rparr>)"
  have q: "quiet s s0" "xfers s0 = xfers s" by (simp_all add: s0_def quiet_def tx_env_def logs_ok_def)
  have m0: "mpa_tx s0 = mpa_tx s" "tx_env s0 = tx_env s" "tx_pending s0 = tx_pending s" using q quiet_core [OF q(1)] by (simp_all add: quiet_def)
  note v0 = tx_envD [OF m0(2)]
  have t0: "in_turn port b s0" using t quiet_core(1) [OF q(1)] m0 v0 by (simp add: in_turn_def)
  have ho: "handed_over e (next \<noteq> 0) r b s0 s' \<Longrightarrow> handed_over e (next \<noteq> 0) r b s s'" for r s'
    using handed_over_cong [OF m0(2) q(2) m0(3)] by simp
  have room0: "MP_TX_AGGR_BUF_HAS_ROOM s0 l = MP_TX_AGGR_BUF_HAS_ROOM s l" for l by (simp add: MP_TX_AGGR_BUF_HAS_ROOM_def m0)
  define free where "free = bit (mp_wr_bitmap s) (curr_wr_port s)"
  have free: "port_free s = Some free" using in_turnD(5) [OF t] by (simp add: port_free_bit free_def)
  define f where "f = mp_aggr_flags (next \<noteq> 0) (tx_pkt_cnt (mpa_tx s) > 0) (MP_TX_AGGR_BUF_HAS_ROOM s (data_len b))
                  (MP_TX_AGGR_BUF_HAS_ROOM s (data_len b + next)) free"
  have run: "wlan_host_to_card_mp_aggr e b port next s =
     Option.bind (if f_precopy_cur_buf f then collect_tx b port s0 else Some s0) (\<lambda>s1.
     Option.bind (if f_send_aggr_buf f \<or> f_precopy_cur_buf f \<and> tx_pkt_cnt (mpa_tx s1) = tx_pkt_aggr_limit (mpa_tx s1)
                  then wlan_send_mp_aggr_buf e s1 else Some (MLAN_STATUS_SUCCESS, s1)) (\<lambda>(ret1, s2).
     Option.bind (if f_send_cur_buf f then send_single e b port s2 else Some (ret1, b, s2)) (\<lambda>(ret2, b2, s3).
     Option.bind (if f_postcopy_cur_buf f then collect_tx b port s3 else Some s3) (\<lambda>s4.
     Some (if tx_buf (mpa_tx s) = None \<and> (f_precopy_cur_buf f \<or> f_postcopy_cur_buf f) then MLAN_STATUS_PENDING else ret2, b2, s4)))))"
    using en free by (simp add: wlan_host_to_card_mp_aggr_def Let_def f_def s0_def)
  consider (pre) "f_precopy_cur_buf f" "\<not> f_send_cur_buf f" "\<not> f_postcopy_cur_buf f" "MP_TX_AGGR_BUF_HAS_ROOM s (data_len b)"
        "f_send_aggr_buf f \<or> next \<noteq> 0 \<and> free"
    | (single) "\<not> f_precopy_cur_buf f" "f_send_cur_buf f" "\<not> f_postcopy_cur_buf f" "f_send_aggr_buf f \<or> tx_pkt_cnt (mpa_tx s) = 0"
    | (post) "\<not> f_precopy_cur_buf f" "\<not> f_send_cur_buf f" "f_postcopy_cur_buf f" "f_send_aggr_buf f" "next \<noteq> 0" free
    unfolding f_def mp_aggr_flags_def Let_def
    by (cases "next = 0"; cases "tx_pkt_cnt (mpa_tx s) = 0"; cases "MP_TX_AGGR_BUF_HAS_ROOM s (data_len b)"; cases free) simp_all
  then show ?thesis
  proof cases
    case pre
    obtain s1 where 1: "collect_tx b port s0 = Some s1" "tx_core (curr_wr_port s0) s1" "collected s0 b s1"
      by (rule in_turn_collect [OF t0]) (use pre(4) room0 in simp)
    have n1: "tx_pkt_cnt (mpa_tx s1) = tx_pkt_cnt (mpa_tx s0) + 1" "tx_env s1 = tx_env s0" using 1(3) by (simp_all add: collected_def)
    note v1 = tx_envD [OF n1(2)]
    show ?thesis
    proof (cases "f_send_aggr_buf f \<or> tx_pkt_cnt (mpa_tx s1) = tx_pkt_aggr_limit (mpa_tx s1)")
      case True
      obtain ret s2 where 2: "wlan_send_mp_aggr_buf e s1 = Some (ret, s2)" "flushed e ret s1 s2"
        by (rule send_mp_ok [OF 1(2), of e]) (use n1 in simp)
      have "handed_over e (next \<noteq> 0) (if tx_buf (mpa_tx s) = None then MLAN_STATUS_PENDING else ret) b s s2"
        by (rule ho, rule collected_sent [OF t0 1(3,2) 2(2)]) simp
      then show ?thesis unfolding run using pre(1-3) 1(1) 2(1) True by auto
    next
      case False
      have "handed_over e (next \<noteq> 0) (if tx_buf (mpa_tx s) = None then MLAN_STATUS_PENDING else MLAN_STATUS_SUCCESS) b s s1"
        by (rule ho, rule kept [OF t0 1(3,2)]) (use False pre(5) n1 v1 v0 en free_def in auto)
      then show ?thesis unfolding run using pre(1-3) 1(1) False by auto
    qed
  next
    case single
    from flushed_then_single [OF t0, of e "next \<noteq> 0"] obtain ret1 s1 ret b' s' where
      1: "wlan_send_mp_aggr_buf e s0 = Some (ret1, s1)" "send_single e b port s1 = Some (ret, b', s')"
         "handed_over e (next \<noteq> 0) ret b s0 s'" "sb_id b' = sb_id b" .
    have "(if f_send_aggr_buf f then wlan_send_mp_aggr_buf e s0 else Some (MLAN_STATUS_SUCCESS, s0)) = Some (ret1, s1)"
      using 1(1) single(4) by (auto simp: wlan_send_mp_aggr_buf_def m0)
    then show ?thesis unfolding run using single(1-3) 1(2,4) ho [OF 1(3)] by simp
  next
    case post
    have m: "next \<noteq> 0" "bit (mp_wr_bitmap s0) (curr_wr_port s0)" "tx_enabled (mpa_tx s0)"
      using post(5,6) en m0(1) v0 by (simp_all add: free_def)
    obtain ret1 s1 s' where
      1: "wlan_send_mp_aggr_buf e s0 = Some (ret1, s1)" "collect_tx b port s1 = Some s'"
         "\<forall>ret. ret = ret1 \<or> ret = MLAN_STATUS_PENDING \<longrightarrow> handed_over e (next \<noteq> 0) ret b s0 s'"
      by (rule flushed_then_collected [OF t0, where m = "next \<noteq> 0" and e = e, OF m])
    have "handed_over e (next \<noteq> 0) (if tx_buf (mpa_tx s) = None then MLAN_STATUS_PENDING else ret1) b s s'"
      by (rule ho, rule 1(3) [rule_format]) simp
    then show ?thesis unfolding run using post(1-4) 1(1,2) by auto
  qed
qed

subsection \<open>The entry point\<close>

text \<open>A packet as the driver hands it over: it has data, the memory behind it reaches to the end of its last block,
  and that fits into the aggregation buffer.\<close>

definition round256 :: "nat \<Rightarrow> nat" where
  "round256 n = (n + 255) div 256 * 256"

definition packet_ok :: "sdio_ctx \<Rightarrow> sdio_buffer \<Rightarrow> bool" where
  "packet_ok s b \<longleftrightarrow> 0 < unat (data_len b) \<and> round256 (unat (data_len b)) \<le> unat (tx_buf_size (mpa_tx s))
     \<and> data_offset b + round256 (unat (data_len b)) \<le> length (pbuf b)"

lemma round256_word:
  assumes "round256 (unat (n::t_u32)) < 2 ^ 31"
  shows "unat (sdio_blocks n * 256) = round256 (unat n)" "sdio_blocks n * 256 = 256 * sdio_blocks n"
proof -
  have "unat n \<le> round256 (unat n)" unfolding round256_def by linarith
  then have n: "unat n < 2 ^ 31" using assms by simp
  have "unat (n + 256 - 1) = unat n + 255"
  proof -
    have "n + 256 - 1 = n + 255" by simp
    then show ?thesis using n by (simp add: unat_word_ariths)
  qed
  then have "unat (sdio_blocks n) = (unat n + 255) div 256" by (simp add: sdio_blocks_def unat_div)
  then show "unat (sdio_blocks n * 256) = round256 (unat n)"
    using assms by (simp add: unat_word_ariths round256_def)
  show "sdio_blocks n * 256 = 256 * sdio_blocks n" by simp
qed

lemma round256_pos: "0 < n \<Longrightarrow> 0 < round256 n" "256 dvd round256 n" "0 < n \<Longrightarrow> 4 \<le> round256 n"
  unfolding round256_def by auto

text \<open>The packet with its interface header, as it goes over the bus.\<close>

definition on_wire :: "sdio_ctx \<Rightarrow> t_u32 \<Rightarrow> sdio_buffer \<Rightarrow> t_u8 list" where
  "on_wire s type b =
     (let n = round256 (unat (data_len b));
          len = (if n \<le> unat (if type = MLAN_TYPE_CMD then 4096 else ucast (dev_tx_buf_size s) :: t_u32) then n else unat (data_len b))
      in le16_bytes (of_nat len) @ le16_bytes (ucast type) @ drop 4 (take n (drop (data_offset b) (pbuf b))))"

lemma put_intf_header_ok:
  assumes "packet_ok s b" "tx_data_ok s"
  obtains b' where "put_intf_header s type b = Some b'" "sb_id b' = sb_id b" "data_offset b' = data_offset b"
    "length (pbuf b') = length (pbuf b)" "data_len b' = data_len b"
    "buf_data (b'\<lparr>data_len := sdio_blocks (data_len b) * 256\<rparr>) = on_wire s type b"
    "block_buf (b'\<lparr>data_len := sdio_blocks (data_len b) * 256\<rparr>)"
proof -
  let ?n = "round256 (unat (data_len b))"
  have n: "0 < unat (data_len b)" "data_offset b + ?n \<le> length (pbuf b)" "?n < 2 ^ 31"
    using assms by (auto simp: packet_ok_def tx_data_ok_def Let_def)
  note r = round256_word [OF n(3)] and p = round256_pos [of "unat (data_len b)"]
  define len where "len = (if 256 * sdio_blocks (data_len b) \<le> (if type = MLAN_TYPE_CMD then 4096 else ucast (dev_tx_buf_size s))
      then 256 * sdio_blocks (data_len b) else data_len b)"
  define hdr where "hdr = le16_bytes (ucast len) @ le16_bytes (ucast type)"
  have h4: "length hdr = 4" by (simp add: hdr_def)
  define mem where "mem = take (data_offset b) (pbuf b) @ hdr @ drop (data_offset b + 4) (pbuf b)"
  have w: "wr (pbuf b) (data_offset b) hdr = Some mem" using n p by (simp add: wr_def h4 mem_def)
  have run: "put_intf_header s type b = Some (b\<lparr>pbuf := mem\<rparr>)"
    using w by (simp add: put_intf_header_def Let_def hdr_def len_def)
  have un: "(ucast x :: t_u16) = of_nat (unat x)" for x :: t_u32 by simp
  have "unat len = (if ?n \<le> unat (if type = MLAN_TYPE_CMD then 4096 else ucast (dev_tx_buf_size s) :: t_u32) then ?n else unat (data_len b))"
    using r by (simp add: len_def word_le_nat_alt)
  then have ul: "(ucast len :: t_u16) = of_nat (if ?n \<le> unat (if type = MLAN_TYPE_CMD then 4096 else ucast (dev_tx_buf_size s) :: t_u32) then ?n else unat (data_len b))"
    using un [of len] by simp
  have "take ?n (drop (data_offset b) mem) = hdr @ take (?n - 4) (drop (data_offset b + 4) (pbuf b))"
    using n p h4 by (simp add: mem_def)
  also have "take (?n - 4) (drop (data_offset b + 4) (pbuf b)) = drop 4 (take ?n (drop (data_offset b) (pbuf b)))"
    by (simp add: drop_take add.commute)
  finally have d: "take ?n (drop (data_offset b) mem) = on_wire s type b"
    by (simp add: on_wire_def Let_def hdr_def ul)
  have lm: "length mem = length (pbuf b)" using n p h4 by (simp add: mem_def)
  show thesis
    by (rule that [OF run]) (use d lm n p r(1) in \<open>simp_all add: buf_data_def block_buf_def\<close>)
qed

lemma wr_port_cases:
  assumes "tx_inv s"
  obtains (none) "wlan_get_wr_port_data s = Some (MLAN_STATUS_RESOURCE, 0, s\<lparr>data_sent := True\<rparr>)"
      "\<not> (bit (mp_wr_bitmap s) (curr_wr_port s) \<and> bit (mp_data_port_mask s) (curr_wr_port s))"
  | (port) s1 where "wlan_get_wr_port_data s = Some (MLAN_STATUS_SUCCESS, curr_wr_port s, s1)"
      "bit (mp_wr_bitmap s) (curr_wr_port s)" "mp_wr_bitmap s1 = unset_bit (curr_wr_port s) (mp_wr_bitmap s)"
      "curr_wr_port s1 = (curr_wr_port s + 1) mod mp_end_port s" "mpa_tx s1 = mpa_tx s" "mp_end_port s1 = mp_end_port s"
      "tx_core (curr_wr_port s) s1" "tx_pending s1 = tx_pending s" "xfers s1 = xfers s" "up_calls s1 = up_calls s"
      "dev_tx_buf_size s1 = dev_tx_buf_size s" "mp_data_port_mask s1 = mp_data_port_mask s"
proof (cases "mp_wr_bitmap s AND mp_data_port_mask s = 0 \<or> \<not> bit (mp_wr_bitmap s) (curr_wr_port s)")
  case True
  have "curr_wr_port s < 32" using assms by (simp add: tx_inv_def tx_core_def)
  moreover have "bit (mp_wr_bitmap s AND mp_data_port_mask s) (curr_wr_port s) =
      (bit (mp_wr_bitmap s) (curr_wr_port s) \<and> bit (mp_data_port_mask s) (curr_wr_port s))" by (simp add: bit_and_iff)
  ultimately show thesis using True by (intro none) (auto simp: wlan_get_wr_port_data_def shl1_def and_exp_eq_0_iff_not_bit)
next
  case False
  have c: "tx_core (curr_wr_port s) s" "curr_wr_port s < mp_end_port s" "mp_end_port s \<le> 32"
    using assms by (simp_all add: tx_inv_def tx_core_def)
  let ?s = "s\<lparr>mp_wr_bitmap := mp_wr_bitmap s AND NOT (push_bit (curr_wr_port s) 1),
    curr_wr_port := (if (curr_wr_port s + 1) mod 256 = mp_end_port s then 0 else (curr_wr_port s + 1) mod 256)\<rparr>"
  have cur: "curr_wr_port ?s = (curr_wr_port s + 1) mod mp_end_port s" using c by auto
  have run: "wlan_get_wr_port_data s = Some (MLAN_STATUS_SUCCESS, curr_wr_port s, ?s)"
    using False c by (simp add: wlan_get_wr_port_data_def shl1_def and_exp_eq_0_iff_not_bit Let_def)
  have same: "held_tx ?s = held_tx s" "tx_pending ?s = tx_pending s" "tx_data_ok ?s = tx_data_ok s" by (rule mpa_tx_cong; simp)+
  have "curr_wr_port ?s < mp_end_port s" unfolding cur using c by simp
  then have core: "tx_core (curr_wr_port s) ?s" using c(1) same(3) by (simp add: tx_core_def logs_ok_def tx_ports_ok_def)
  show thesis using False by (intro port [OF run _ _ cur _ _ core same(2)]) (simp_all add: unset_bit_eq_and_not)
qed

text \<open>What handing over packets does not change.\<close>

definition tx_settings where
  "tx_settings s = (ioport s, mp_end_port s, mp_data_port_mask s, dev_tx_buf_size s, tx_enabled (mpa_tx s), tx_buf_size (mpa_tx s), tx_pkt_aggr_limit (mpa_tx s))"

text \<open>Handing over one data packet.\<close>

definition sent_data :: "sdio_env \<Rightarrow> sdio_buffer \<Rightarrow> t_u32 \<Rightarrow> mlan_status \<Rightarrow> sdio_ctx \<Rightarrow> sdio_ctx \<Rightarrow> bool" where
  "sent_data e b next_len ret s s' \<longleftrightarrow> tx_inv s' \<and> tx_settings s' = tx_settings s
     \<and> (if ret = MLAN_STATUS_RESOURCE
        then s' = s\<lparr>data_sent := True\<rparr> \<and> (bit (mp_data_port_mask s) (curr_wr_port s) \<longrightarrow> tx_pending s = [])
        else bit (mp_wr_bitmap s) (curr_wr_port s) \<and> mp_wr_bitmap s' = unset_bit (curr_wr_port s) (mp_wr_bitmap s)
          \<and> curr_wr_port s' = (curr_wr_port s + 1) mod mp_end_port s
          \<and> data_sent s' = (ret \<noteq> MLAN_STATUS_FAILURE \<and> \<not> bit (mp_wr_bitmap s') (curr_wr_port s'))
          \<and> (next_len = 0 \<longrightarrow> tx_pending s' = [])
          \<and> (bus_ok e \<longrightarrow> ret \<noteq> MLAN_STATUS_FAILURE \<and> (\<exists>xs. xfers s' = xfers s @ xs
               \<and> written xs @ tx_pending s' = tx_pending s @ on_wire s MLAN_TYPE_DATA b)))"

lemma handed_over_sent:
  assumes inv: "tx_inv s" and pk: "packet_ok s b"
  shows "\<exists>ret b' s'. wlan_sdio_host_to_card e MLAN_TYPE_DATA b np s = Some (ret, b', s')
     \<and> sent_data e b (case np of None \<Rightarrow> 0 | Some n \<Rightarrow> n) ret s s' \<and> sb_id b' = sb_id b"
proof -
  have d: "tx_data_ok s" using inv by (simp add: tx_inv_def tx_core_def)
  obtain bh where h: "put_intf_header s MLAN_TYPE_DATA b = Some bh" "sb_id bh = sb_id b" "data_offset bh = data_offset b"
    "length (pbuf bh) = length (pbuf b)" "data_len bh = data_len b"
    "buf_data (bh\<lparr>data_len := sdio_blocks (data_len b) * 256\<rparr>) = on_wire s MLAN_TYPE_DATA b"
    "block_buf (bh\<lparr>data_len := sdio_blocks (data_len b) * 256\<rparr>)"
    by (rule put_intf_header_ok [OF pk d])
  let ?b = "bh\<lparr>data_len := sdio_blocks (data_len b) * 256\<rparr>"
  let ?n = "case np of None \<Rightarrow> 0 | Some n \<Rightarrow> n"
  have fit: "unat (data_len ?b) \<le> unat (tx_buf_size (mpa_tx s))"
    using pk d round256_word(1) [of "data_len b"] by (simp add: packet_ok_def tx_data_ok_def Let_def)
  from inv show ?thesis
  proof (cases rule: wr_port_cases)
    case none
    have "tx_inv (s\<lparr>data_sent := True\<rparr>)"
      using inv mpa_tx_cong(3) [of "s\<lparr>data_sent := True\<rparr>" s] by (simp add: tx_inv_def tx_core_def logs_ok_def tx_ports_ok_def)
    moreover have "bit (mp_data_port_mask s) (curr_wr_port s) \<longrightarrow> tx_pending s = []"
      using inv none(2) pending_empty [of "curr_wr_port s" s] by (auto simp: tx_inv_def)
    moreover have "tx_settings (s\<lparr>data_sent := True\<rparr>) = tx_settings s" by (simp add: tx_settings_def)
    ultimately show ?thesis using none h by (simp add: wlan_sdio_host_to_card_def sent_data_def)
  next
    case (port s1)
    have t: "in_turn (curr_wr_port s) ?b s1"
      using port h(7) fit inv by (simp add: in_turn_def tx_inv_def)
    from mp_ok [OF t, of e ?n] obtain ret b2 s2 where 2: "wlan_host_to_card_mp_aggr e ?b (curr_wr_port s) ?n s1 = Some (ret, b2, s2)"
      "handed_over e (?n \<noteq> 0) ret ?b s1 s2" "sb_id b2 = sb_id ?b" by blast
    have env: "tx_env s2 = tx_env s1" using 2(2) by (simp add: handed_over_def)
    note v = tx_envD [OF env]
    have cur: "curr_wr_port s2 < 32" using 2(2) v by (simp add: handed_over_def tx_core_def)
    define s' where "s' = s2\<lparr>data_sent := (ret \<noteq> MLAN_STATUS_FAILURE \<and> \<not> bit (mp_wr_bitmap s2) (curr_wr_port s2))\<rparr>"
    have run: "wlan_sdio_host_to_card e MLAN_TYPE_DATA b np s = Some (ret, b2, s')"
      using port(1) h(1,5) 2(1) port_free_bit [OF cur] by (auto simp: wlan_sdio_host_to_card_def s'_def)
    have same: "held_tx s' = held_tx s2" "tx_pending s' = tx_pending s2" "tx_data_ok s' = tx_data_ok s2"
      by (rule mpa_tx_cong; simp add: s'_def)+
    have core: "tx_core (curr_wr_port s1) s'"
      using 2(2) same(3) unfolding handed_over_def tx_core_def by (simp add: s'_def logs_ok_def tx_ports_ok_def)
    have i: "tx_inv s'"
      using core 2(2) v inv port by (simp add: tx_inv_def handed_over_def s'_def)
    have nr: "ret \<noteq> MLAN_STATUS_RESOURCE" using 2(2) by (auto simp: handed_over_def)
    have "tx_core (curr_wr_port s1) s2" using 2(2) by (simp add: handed_over_def)
    then have e: "?n = 0 \<longrightarrow> tx_pending s2 = []" using 2(2) by (auto simp: handed_over_def intro: pending_empty)
    have io: "ioport s1 = ioport s" using inv port by (simp add: tx_inv_def tx_core_def)
    have "sent_data e b ?n ret s s'"
      unfolding sent_data_def same using nr i env port v 2(2) h(6) e io by (simp add: s'_def handed_over_def tx_settings_def tx_env_def)
    then show ?thesis using run h(2) 2(3) by auto
  qed
qed

end
