(* ===== verification/Sdio_Props.thy ===== *)
theory Sdio_Props
  imports Sdio_Tx_Props
begin

text \<open>
  What the bus layer promises when it sends: the packets of a burst go out once and in the order in which they were
  handed over; what a burst may assume of a single packet, for every behaviour of the bus; and the two places where
  the status that is reported is not what happened to the packet.
\<close>

subsection \<open>Bursts\<close>







text \<open>All the ports that exist may be used for data.\<close>

definition ports_usable :: "sdio_ctx \<Rightarrow> bool" where
  "ports_usable s \<longleftrightarrow> (\<forall>p < mp_end_port s. bit (mp_data_port_mask s) p)"






lemma flushed_inv:
  assumes "tx_inv s" "flushed e ret s s'"
  shows "tx_inv s'"
proof -
  have "curr_wr_port s < mp_end_port s" using assms(1) by (simp add: tx_inv_def tx_core_def)
  moreover have "tx_env s' = tx_env s" using assms(2) by (simp add: flushed_def)
  ultimately show ?thesis using assms tx_envD [of s' s] by (auto simp: tx_inv_def flushed_def)
qed

lemma collected_written:
  assumes "tx_inv s" "0 < tx_pkt_cnt (mpa_tx s)" "bus_ok e"
  shows "\<exists>s'. wlan_send_mp_aggr_buf e s = Some (MLAN_STATUS_SUCCESS, s') \<and> tx_inv s' \<and> tx_pending s' = []
    \<and> xfers s' = xfers s @ [Sdio_write (of_nat (tx_address (tx_pkt_cnt (mpa_tx s)) (tx_start_port (mpa_tx s)))) (tx_pending s)]"
proof -
  have c: "tx_core (curr_wr_port s) s" using assms(1) by (simp add: tx_inv_def)
  obtain ret s' where r: "wlan_send_mp_aggr_buf e s = Some (ret, s')" "flushed e ret s s'" by (rule send_mp_ok [OF c assms(2)])
  then have "ret = MLAN_STATUS_SUCCESS" "tx_pending s' = []"
    "xfers s' = xfers s @ [Sdio_write (of_nat (tx_address (tx_pkt_cnt (mpa_tx s)) (tx_start_port (mpa_tx s)))) (tx_pending s)]"
    using assms(3) by (auto simp: flushed_def wrote_def)
  then show ?thesis using r flushed_inv [OF assms(1) r(2)] by blast
qed


text \<open>C12. On a bus that works, the packets collected go out in one write, to the address of their port when it is one and
  otherwise to the address that names their number and the first port; nothing stays collected.\<close>

theorem collected_packets_one_write:
  assumes "tx_inv s" "0 < tx_pkt_cnt (mpa_tx s)" "bus_ok e"
  shows "\<exists>s'. wlan_send_mp_aggr_buf e s = Some (MLAN_STATUS_SUCCESS, s') \<and> tx_inv s' \<and> tx_pending s' = []
    \<and> xfers s' = xfers s @ [Sdio_write (of_nat (tx_address (tx_pkt_cnt (mpa_tx s)) (tx_start_port (mpa_tx s)))) (tx_pending s)]"
  using assms by (rule collected_written)

text \<open>C36. Without an aggregation buffer the packets collected are reported as sent whatever happens: when every transfer
  fails, the function returns failure, but each of them is completed with the status for success.\<close>

theorem lost_packets_reported_sent:
  assumes "tx_inv s" "0 < tx_pkt_cnt (mpa_tx s)" "tx_buf (mpa_tx s) = None" "bus_dead e"
  shows "\<exists>s' bs. wlan_send_mp_aggr_buf e s = Some (MLAN_STATUS_FAILURE, s') \<and> tx_pending s' = []
    \<and> up_calls s' = up_calls s @ map (\<lambda>b. Write_data_complete b MLAN_STATUS_SUCCESS) bs
    \<and> map sb_id bs = map sb_id (held_tx s) \<and> length bs = tx_pkt_cnt (mpa_tx s)"
proof -
  have c: "tx_core (curr_wr_port s) s" using assms(1) by (simp add: tx_inv_def)
  obtain ret s' where r: "wlan_send_mp_aggr_buf e s = Some (ret, s')" "flushed e ret s s'" by (rule send_mp_ok [OF c assms(2)])
  then obtain bs where bs: "up_calls s' = up_calls s @ map (\<lambda>b. Write_data_complete b MLAN_STATUS_SUCCESS) bs"
    "map sb_id bs = map sb_id (held_tx s)" by (auto simp: flushed_def)
  have "length bs = tx_pkt_cnt (mpa_tx s)" using bs(2) held_tx_length(1) [OF c assms(3)] by (metis length_map)
  moreover have "ret = MLAN_STATUS_FAILURE" "tx_pending s' = []" using r(2) assms(4) by (auto simp: flushed_def wrote_def)
  ultimately show ?thesis using r(1) bs by blast
qed



subsection \<open>Settings\<close>

lemma clear_port_bits_bit:
  "n \<le> 32 \<Longrightarrow> bit (clear_port_bits n m) p \<longleftrightarrow> bit m p \<and> p < 32 - n"
proof (induction n)
  case 0
  then show ?case by (auto dest: bit_imp_le_length)
next
  case (Suc n)
  have "bit (push_bit (32 - Suc n) (1 :: t_u32)) p \<longleftrightarrow> p = 32 - Suc n" using Suc.prems by (auto simp: bit_simps)
  then have "bit (clear_port_bits (Suc n) m) p \<longleftrightarrow> bit (clear_port_bits n m) p \<and> p \<noteq> 32 - Suc n"
    by (auto simp: bit_simps dest: bit_imp_le_length)
  moreover have "(p < 32 - Suc n) = (p < 32 - n \<and> p \<noteq> 32 - Suc n)" using Suc.prems by auto
  ultimately show ?case using Suc by simp
qed

text \<open>C35. The answer of the card to the configuration of its buffers, with four to thirty-two ports, establishes the
  invariant when nothing is collected: exactly the ports of the card may be used, and at most half of them, but no more
  than the arrays hold, are collected.\<close>

theorem reconfigure_establishes_invariant:
  assumes "logs_ok s" "ioport s = 0x10000" "tx_pkt_cnt (mpa_tx s) = 0" "tx_buf_len (mpa_tx s) = 0" "tx_ports (mpa_tx s) = 0"
    and "unat (tx_buf_size (mpa_tx s)) < 2 ^ 31" "\<forall>buf. tx_buf (mpa_tx s) = Some buf \<longrightarrow> unat (tx_buf_size (mpa_tx s)) \<le> length buf"
    and "4 \<le> unat end_port" "unat end_port \<le> 32"
  shows "tx_inv (reconfigure_tx_buff buf_size end_port s) \<and> ports_usable (reconfigure_tx_buff buf_size end_port s)
    \<and> port_set (mp_data_port_mask (reconfigure_tx_buff buf_size end_port s)) = {..<unat end_port}"
proof -
  let ?s = "reconfigure_tx_buff buf_size end_port s"
  have one: "(0xffffffff :: t_u32) = - 1" by simp
  have full: "bit (0xffffffff :: t_u32) p \<longleftrightarrow> p < 32" for p
    unfolding one by (simp only: bit_minus_1_iff possible_bit_word) simp
  have mk: "mp_data_port_mask ?s = clear_port_bits (32 - unat end_port) 0xffffffff" by (simp add: reconfigure_tx_buff_def)
  have m: "bit (mp_data_port_mask ?s) p \<longleftrightarrow> p < unat end_port" for p
    unfolding mk clear_port_bits_bit [OF diff_le_self] full using assms(9) by linarith
  have h: "held_tx ?s = []" using assms(3) by (simp add: held_tx_def reconfigure_tx_buff_def)
  have d: "tx_data_ok ?s"
    unfolding tx_data_ok_def h using assms(3-7) by (simp add: reconfigure_tx_buff_def Let_def split: option.split)
  have p: "tx_ports_ok 0 ?s"
    using assms(3,5) by (simp add: tx_ports_ok_def reconfigure_tx_buff_def port_set_def port_run_def)
  have l: "logs_ok ?s" using assms(1) by (simp add: logs_ok_def reconfigure_tx_buff_def)
  have f: "curr_wr_port ?s = 0" "ioport ?s = 0x10000" "mp_end_port ?s = unat end_port" "tx_pkt_cnt (mpa_tx ?s) = 0"
    "tx_pkt_aggr_limit (mpa_tx ?s) = min 16 (unat end_port div 2)"
    using assms(2,3) by (simp_all add: reconfigure_tx_buff_def)
  have "2 \<le> unat end_port div 2" "unat end_port div 2 \<le> 16" using assms(8,9) by linarith+
  then have "tx_inv ?s" unfolding tx_inv_def tx_core_def f using assms(8,9) d p l by simp
  then show ?thesis using m by (simp add: ports_usable_def port_set_def f lessThan_def)
qed

lemma alloc_rx_mpa_ok: "\<forall>i. alloc e i \<noteq> None \<Longrightarrow> \<exists>s'. alloc_rx_mpa e sz s = (MLAN_STATUS_SUCCESS, s') \<and> mpa_tx s' = mpa_tx s"
proof -
  assume "\<forall>i. alloc e i \<noteq> None"
  then obtain a where "alloc e (allocs s) = Some a" by blast
  then show ?thesis by (simp add: alloc_rx_mpa_def mpa_buffer_def)
qed

lemma alloc_tx_mpa_ok:
  "\<forall>i. alloc e i \<noteq> None \<Longrightarrow> \<exists>s'. alloc_tx_mpa e sz s = (MLAN_STATUS_SUCCESS, s') \<and> tx_buf_size (mpa_tx s') = sz
     \<and> tx_buf_len (mpa_tx s') = tx_buf_len (mpa_tx s)"
proof -
  assume "\<forall>i. alloc e i \<noteq> None"
  then obtain a where "alloc e (allocs s) = Some a" by blast
  then show ?thesis by (simp add: alloc_tx_mpa_def mpa_buffer_def)
qed

text \<open>C40. A request that changes only the size of the receive buffer, while both sides have aggregation buffers, also sets
  the size of the send buffer to 0: from then on no packet fits into it.\<close>

theorem mpa_ctrl_rx_size_only_zeroes_tx:
  assumes "tx_buf (mpa_tx s) \<noteq> None" "tx_buf_len (mpa_tx s) = 0" "\<forall>i. alloc e i \<noteq> None"
    and "mc_tx_buf_size c = 0" "mc_rx_buf_size c \<noteq> 0" "mc_tx_enable c \<le> 1" "mc_rx_enable c \<le> 1"
    "mc_tx_max_ports c \<le> 16" "mc_rx_max_ports c \<le> 16"
  shows "\<exists>s'. wlan_misc_ioctl_sdio_mpa_ctrl e True False c s = (Inr c, s') \<and> tx_buf_size (mpa_tx s') = 0
    \<and> (\<forall>len. MP_TX_AGGR_BUF_HAS_ROOM s' len \<longleftrightarrow> len = 0)"
proof -
  let ?f = "wlan_free_sdio_mpa_buffers s"
  let ?f1 = "?f\<lparr>mpa_rx := (mpa_rx ?f)\<lparr>rx_buf_size := ucast (mc_rx_buf_size c)\<rparr>\<rparr>"
  have f: "tx_buf_size (mpa_tx ?f) = 0" "tx_buf_len (mpa_tx ?f) = 0"
    using assms(1,2) by (auto simp: wlan_free_sdio_mpa_buffers_def Let_def)
  obtain s1 where 1: "alloc_tx_mpa e 0 ?f1 = (MLAN_STATUS_SUCCESS, s1)" "tx_buf_size (mpa_tx s1) = 0" "tx_buf_len (mpa_tx s1) = 0"
    using alloc_tx_mpa_ok [OF assms(3), of 0 ?f1] f by auto
  obtain s2 where 2: "alloc_rx_mpa e (ucast (mc_rx_buf_size c)) s1 = (MLAN_STATUS_SUCCESS, s2)" "mpa_tx s2 = mpa_tx s1"
    using alloc_rx_mpa_ok [OF assms(3)] by blast
  have "wlan_alloc_sdio_mpa_buffers e 0 (ucast (mc_rx_buf_size c)) ?f1 = (MLAN_STATUS_SUCCESS, s2)"
    using 1(1) 2(1) by (simp add: wlan_alloc_sdio_mpa_buffers_def)
  then show ?thesis
    using assms(4-9) f 1(2,3) 2(2)
    by (simp add: wlan_misc_ioctl_sdio_mpa_ctrl_def MP_TX_AGGR_BUF_HAS_ROOM_def word_gt_0 linorder_not_less)
qed

end
