(* ===== verification/Sdio_Rx_Props.thy ===== *)
theory Sdio_Rx_Props
  imports Sdio_Int Sdio_Tx_Inv
begin

text \<open>
  Properties of the receiving side, when received packets are queued for the receive work and the ports are read into
  an aggregation buffer: handling the interrupt stays inside all buffers and arrays, whatever the card delivers and
  whichever transfers fail.
\<close>

subsection \<open>The invariant\<close>

text \<open>A buffer that waits for the packet of a port, with the number of bytes that will be read.\<close>

definition slot_ok :: "sdio_buffer option \<Rightarrow> t_u32 \<Rightarrow> bool" where
  "slot_ok q len \<longleftrightarrow> (\<exists>b. q = Some b \<and> data_len b = len \<and> 256 \<le> unat len \<and> 256 dvd unat len
     \<and> data_offset b + unat len \<le> length (pbuf b))"

definition rx_ok :: "sdio_ctx \<Rightarrow> bool" where
  "rx_ok s \<longleftrightarrow> rx_work_flag s \<and> length (mpa_rx_count (sd_dbg s)) = 16
     \<and> (let r = mpa_rx s; n = rx_pkt_cnt r
        in (\<exists>buf. rx_aggr_buf r = Some buf \<and> unat (rx_buf_size r) \<le> length buf) \<and> unat (rx_buf_size r) < 65536
           \<and> length (rx_mbuf_arr r) = 16 \<and> length (rx_len_arr r) = 16 \<and> n \<le> 16
           \<and> list_all2 slot_ok (take n (rx_mbuf_arr r)) (take n (rx_len_arr r))
           \<and> unat (rx_buf_len r) = sum_list (map unat (take n (rx_len_arr r))) \<and> unat (rx_buf_len r) \<le> unat (rx_buf_size r)
           \<and> 2 \<le> rx_pkt_aggr_limit r \<and> rx_pkt_aggr_limit r \<le> 16)"

definition rx_side_inv :: "sdio_ctx \<Rightarrow> bool" where
  "rx_side_inv s \<longleftrightarrow> rx_ok s \<and> rx_pkt_cnt (mpa_rx s) < rx_pkt_aggr_limit (mpa_rx s)"

text \<open>What \<open>rx_ok\<close> depends on.\<close>

definition rx_side where
  "rx_side s = (mpa_rx s, length (mpa_rx_count (sd_dbg s)), rx_work_flag s)"

lemma rx_side_ok: "rx_side s' = rx_side s \<Longrightarrow> rx_ok s' = rx_ok s" "rx_side s' = rx_side s \<Longrightarrow> mpa_rx s' = mpa_rx s"
  "rx_side s' = rx_side s \<Longrightarrow> rx_work_flag s' = rx_work_flag s"
  "rx_side s' = rx_side s \<Longrightarrow> length (mpa_rx_count (sd_dbg s')) = length (mpa_rx_count (sd_dbg s))"
  by (simp_all add: rx_side_def rx_ok_def)

lemma rx_side_updates [simp]:
  "rx_side (note_xfer x s) = rx_side s" "rx_side (terminate_cmd53 s) = rx_side s" "rx_side (call_up cs s) = rx_side s"
  "rx_side (enqueue_rx b s) = rx_side s" "rx_side (s\<lparr>upld_len := n\<rparr>) = rx_side s" "rx_side (s\<lparr>data_received := d\<rparr>) = rx_side s"
  "rx_side (s\<lparr>allocs := k\<rparr>) = rx_side s"
  by (simp_all add: rx_side_def note_xfer_def terminate_cmd53_def call_up_def enqueue_rx_def)

subsection \<open>Reading into one buffer\<close>

definition same_shape :: "sdio_buffer \<Rightarrow> sdio_buffer \<Rightarrow> bool" where
  "same_shape b b' \<longleftrightarrow> sb_id b' = sb_id b \<and> data_offset b' = data_offset b \<and> data_len b' = data_len b \<and> length (pbuf b') = length (pbuf b)"

definition has_room :: "sdio_buffer \<Rightarrow> bool" where
  "has_room b \<longleftrightarrow> data_offset b + unat (data_len b) \<le> length (pbuf b)"

lemma transfer_len_le: "transfer_len port len \<le> unat len"
  by (simp add: transfer_len_def)

lemma same_shape_refl [simp]: "same_shape b b"
  by (simp add: same_shape_def)

lemma same_shape_trans: "same_shape a b \<Longrightarrow> same_shape b c \<Longrightarrow> same_shape a c"
  by (simp add: same_shape_def)

lemma same_shape_room: "same_shape b b' \<Longrightarrow> has_room b' = has_room b"
  by (simp add: same_shape_def has_room_def)

lemma woal_read_flat:
  assumes "has_room b"
  shows "\<exists>st b'. woal_read_data_sync e (Flat b) port s = Some (st, Flat b', note_xfer (Sdio_read (port AND 0xfffff) (transfer_len port (data_len b))) s)
    \<and> same_shape b b'"
proof -
  let ?n = "transfer_len port (data_len b)"
  let ?s = "note_xfer (Sdio_read (port AND 0xfffff) ?n) s"
  obtain st bytes where bus: "bus e (xfers ?s) = (st, bytes)" by fastforce
  have "data_offset b + length (delivered ?n bytes) \<le> length (pbuf b)"
    using assms transfer_len_le [of port "data_len b"] by (simp add: has_room_def delivered_def)
  then obtain mem where mem: "wr (pbuf b) (data_offset b) (delivered ?n bytes) = Some mem" by (simp add: wr_def)
  then have "woal_read_data_sync e (Flat b) port s = Some (st, Flat (if st = MLAN_STATUS_SUCCESS then b\<lparr>pbuf := mem\<rparr> else b), ?s)"
    using bus by (simp add: woal_read_data_sync_def Let_def del: wr_Some)
  moreover have "same_shape b (b\<lparr>pbuf := mem\<rparr>)" using wr_length [OF mem] by (simp add: same_shape_def)
  ultimately show ?thesis
    by (intro exI [of _ st] exI [of _ "if st = MLAN_STATUS_SUCCESS then b\<lparr>pbuf := mem\<rparr> else b"]) simp
qed

lemma read_tries_flat:
  assumes "has_room b"
  shows "\<exists>st g b' s'. read_tries e (Flat b) port n s = Some (st, g, Flat b', s') \<and> same_shape b b' \<and> rx_side s' = rx_side s"
  using assms
proof (induction n arbitrary: b s)
  case 0
  from woal_read_flat [OF 0, of e port s] obtain st b' where
    "woal_read_data_sync e (Flat b) port s = Some (st, Flat b', note_xfer (Sdio_read (port AND 0xfffff) (transfer_len port (data_len b))) s)" "same_shape b b'"
    by blast
  then show ?case by (subst read_tries.simps) auto
next
  case (Suc n)
  let ?s = "note_xfer (Sdio_read (port AND 0xfffff) (transfer_len port (data_len b))) s"
  from woal_read_flat [OF Suc.prems, of e port s] obtain st b' where 1: "woal_read_data_sync e (Flat b) port s = Some (st, Flat b', ?s)" "same_shape b b'" by blast
  then have "has_room b'" using Suc.prems same_shape_room by blast
  from Suc.IH [OF this, of "terminate_cmd53 ?s"] obtain st2 g b2 s2 where
    "read_tries e (Flat b') port n (terminate_cmd53 ?s) = Some (st2, g, Flat b2, s2)" "same_shape b' b2" "rx_side s2 = rx_side s"
    by auto
  then show ?case using 1 same_shape_trans [of b b' b2] by (subst read_tries.simps) auto
qed

lemma card_to_host_ok:
  assumes "has_room b" "4 \<le> unat (data_len b)"
  shows "\<exists>st t b' s'. wlan_sdio_card_to_host e b n port s = Some (st, t, b', s') \<and> same_shape b b' \<and> rx_side s' = rx_side s"
proof -
  from read_tries_flat [OF assms(1), of e port 2 s] obtain st g b1 s1 where
    1: "read_tries e (Flat b) port 2 s = Some (st, g, Flat b1, s1)" "same_shape b b1" "rx_side s1 = rx_side s" by blast
  have "data_offset b1 + 4 \<le> length (pbuf b1)" using assms 1(2) by (simp add: same_shape_def has_room_def)
  then obtain h t where "rd (pbuf b1) (data_offset b1) 2 = Some h" "rd (pbuf b1) (data_offset b1 + 2) 2 = Some t" by (simp add: rd_def)
  then show ?thesis using 1 by (auto simp: wlan_sdio_card_to_host_def io_single_def same_shape_def Let_def simp del: rd_Some)
qed

subsection \<open>Passing on\<close>

lemma decode_data_ok:
  assumes "rx_work_flag s" "data_port_type t"
  shows "\<exists>s'. wlan_decode_rx_packet e b t s = Some s' \<and> rx_side s' = rx_side s"
  using assms by (auto simp: data_port_type_def wlan_decode_rx_packet_def Let_def)

lemma count_rx_ok:
  assumes "length (mpa_rx_count (sd_dbg s)) = 16" "i < 16"
  shows "\<exists>s'. count_rx i s = Some s' \<and> rx_side s' = rx_side s"
  using assms by (simp add: count_rx_def rx_side_def)

lemma receive_data_ok:
  assumes "has_room b" "4 \<le> unat (data_len b)" "rx_work_flag s" "length (mpa_rx_count (sd_dbg s)) = 16"
  shows "\<exists>st b' s'. receive_data e b port len s = Some (st, b', s') \<and> sb_id b' = sb_id b \<and> rx_side s' = rx_side s"
proof -
  from card_to_host_ok [OF assms(1,2), of e "ucast len" "ioport s + of_nat port" s] obtain st t b1 s1 where
    1: "wlan_sdio_card_to_host e b (ucast len) (ioport s + of_nat port) s = Some (st, t, b1, s1)" "same_shape b b1" "rx_side s1 = rx_side s" by blast
  show ?thesis
  proof (cases "st = MLAN_STATUS_SUCCESS \<and> data_port_type t")
    case False
    then show ?thesis using 1 by (auto simp: receive_data_def same_shape_def)
  next
    case True
    obtain s2 where 2: "count_rx 0 s1 = Some s2" "rx_side s2 = rx_side s1"
      using count_rx_ok [of s1 0] assms(4) rx_side_ok(4) [OF 1(3)] by auto
    obtain s3 where 3: "wlan_decode_rx_packet e b1 t s2 = Some s3" "rx_side s3 = rx_side s2"
      using decode_data_ok [of s2 t e b1] True assms(3) rx_side_ok(3) [OF 2(2)] rx_side_ok(3) [OF 1(3)] by auto
    show ?thesis using True 1 2 3 by (simp add: receive_data_def same_shape_def)
  qed
qed

subsection \<open>Taking the packets out of the aggregation buffer\<close>

lemma deaggr_one_ok:
  assumes "rx_work_flag s" "has_room b" "data_len b = n" "4 \<le> unat n" "pos + unat n \<le> length buf"
  shows "\<exists>s'. deaggr_one e buf pos b n s = Some s' \<and> rx_side s' = rx_side s"
proof -
  obtain h t where ht: "rd buf pos 2 = Some h" "rd buf (pos + 2) 2 = Some t" using assms(4,5) by (simp add: rd_def)
  let ?len = "ucast (of_le16 h) :: t_u32"
  show ?thesis
  proof (cases "data_port_type (ucast (of_le16 t)) \<and> ?len \<le> n")
    case False
    then show ?thesis using ht by (auto simp: deaggr_one_def Let_def simp del: rd_Some)
  next
    case True
    then have l: "unat ?len \<le> unat n" by (simp only: word_le_nat_alt)
    then obtain bytes where b: "rd buf pos (unat ?len) = Some bytes" using assms(5) by (simp add: rd_def)
    have "length bytes = unat ?len" using rd_length [OF b] .
    then obtain mem where m: "wr (pbuf b) (data_offset b) bytes = Some mem" using l assms(2,3) by (simp add: wr_def has_room_def)
    obtain s' where "wlan_decode_rx_packet e (b\<lparr>pbuf := mem\<rparr>) (ucast (of_le16 t)) (s\<lparr>upld_len := ?len\<rparr>) = Some s'"
        "rx_side s' = rx_side s"
      using decode_data_ok [of "s\<lparr>upld_len := ?len\<rparr>" "ucast (of_le16 t)" e "b\<lparr>pbuf := mem\<rparr>"] assms(1) True by auto
    then show ?thesis using ht True b m by (simp add: deaggr_one_def Let_def del: rd_Some wr_Some)
  qed
qed

lemma deaggr_flat_ok:
  assumes "rx_work_flag s" "\<forall>(b, n) \<in> set bs. has_room b \<and> data_len b = n \<and> 4 \<le> unat n"
    "pos + sum_list (map (unat \<circ> snd) bs) \<le> length buf"
  shows "\<exists>s'. deaggr_flat e buf pos bs s = Some s' \<and> rx_side s' = rx_side s"
  using assms
proof (induction bs arbitrary: pos s)
  case (Cons q bs)
  obtain b n where q: "q = (b, n)" by fastforce
  obtain s1 where 1: "deaggr_one e buf pos b n s = Some s1" "rx_side s1 = rx_side s"
    using deaggr_one_ok [of s b n pos buf e] Cons.prems by (auto simp: q)
  have "\<exists>s'. deaggr_flat e buf (pos + unat n) bs s1 = Some s' \<and> rx_side s' = rx_side s1"
    by (rule Cons.IH) (use Cons.prems rx_side_ok(3) [OF 1(2)] in \<open>auto simp: q\<close>)
  then show ?case using 1 by (auto simp: q)
qed simp

text \<open>The buffers that wait, and what the invariant says of them.\<close>

lemma rx_ok_held:
  assumes "rx_ok s"
  obtains bs where "rx_held (mpa_rx s) = Some bs" "length bs = rx_pkt_cnt (mpa_rx s)"
    "take (rx_pkt_cnt (mpa_rx s)) (rx_mbuf_arr (mpa_rx s)) = map Some bs"
    "map data_len bs = take (rx_pkt_cnt (mpa_rx s)) (rx_len_arr (mpa_rx s))"
    "\<forall>b \<in> set bs. has_room b \<and> 256 \<le> unat (data_len b) \<and> 256 dvd unat (data_len b)"
proof -
  let ?r = "mpa_rx s" let ?n = "rx_pkt_cnt ?r"
  have all: "list_all2 slot_ok (take ?n (rx_mbuf_arr ?r)) (take ?n (rx_len_arr ?r))" and n: "?n \<le> length (rx_mbuf_arr ?r)"
    using assms by (auto simp: rx_ok_def Let_def)
  have "\<exists>bs. qs = map Some bs \<and> map data_len bs = ls \<and> (\<forall>b \<in> set bs. has_room b \<and> 256 \<le> unat (data_len b) \<and> 256 dvd unat (data_len b))"
    if "list_all2 slot_ok qs ls" for qs ls
    using that
  proof (induction qs ls rule: list_all2_induct)
    case (Cons q qs l ls)
    then obtain bs b where "qs = map Some bs" "map data_len bs = ls" "q = Some b" "data_len b = l" "has_room b"
      "256 \<le> unat (data_len b)" "256 dvd unat (data_len b)"
      "\<forall>b \<in> set bs. has_room b \<and> 256 \<le> unat (data_len b) \<and> 256 dvd unat (data_len b)"
      by (auto simp: slot_ok_def has_room_def)
    then show ?case by (intro exI [of _ "b # bs"]) simp
  qed simp
  from this [OF all] obtain bs where bs: "take ?n (rx_mbuf_arr ?r) = map Some bs" "map data_len bs = take ?n (rx_len_arr ?r)"
    "\<forall>b \<in> set bs. has_room b \<and> 256 \<le> unat (data_len b) \<and> 256 dvd unat (data_len b)" by blast
  have "rx_held ?r = Some bs" using n bs(1) those_Somes [of bs] by (simp add: rx_held_def)
  moreover have "length bs = ?n" using arg_cong [OF bs(1), of length] n by simp
  ultimately show thesis using that bs by blast
qed

lemma reset_ok:
  assumes "rx_ok s"
  shows "rx_ok (MP_RX_AGGR_BUF_RESET s)" "rx_pkt_cnt (mpa_rx (MP_RX_AGGR_BUF_RESET s)) = 0"
    "rx_pkt_aggr_limit (mpa_rx (MP_RX_AGGR_BUF_RESET s)) = rx_pkt_aggr_limit (mpa_rx s)"
    "rx_buf_size (mpa_rx (MP_RX_AGGR_BUF_RESET s)) = rx_buf_size (mpa_rx s)"
  using assms by (simp_all add: rx_ok_def MP_RX_AGGR_BUF_RESET_def Let_def)

text \<open>What a function that receives leaves: the settings, and no more packets that wait than before.\<close>

definition rx_left :: "sdio_ctx \<Rightarrow> sdio_ctx \<Rightarrow> bool" where
  "rx_left s s' \<longleftrightarrow> rx_ok s' \<and> rx_pkt_aggr_limit (mpa_rx s') = rx_pkt_aggr_limit (mpa_rx s) \<and> rx_buf_size (mpa_rx s') = rx_buf_size (mpa_rx s)"

lemma receive_single_ok:
  assumes ok: "rx_ok s" and n: "rx_pkt_cnt (mpa_rx s) = 1"
  shows "\<exists>st s'. wlan_receive_single_packet e s = Some (st, s') \<and> rx_left s s' \<and> rx_pkt_cnt (mpa_rx s') = 0"
proof -
  obtain bs where bs: "length bs = rx_pkt_cnt (mpa_rx s)" "take (rx_pkt_cnt (mpa_rx s)) (rx_mbuf_arr (mpa_rx s)) = map Some bs"
    "\<forall>b \<in> set bs. has_room b \<and> 256 \<le> unat (data_len b) \<and> 256 dvd unat (data_len b)" by (rule rx_ok_held [OF ok])
  then obtain b where b: "bs = [b]" using n by (cases bs) auto
  have l: "length (rx_mbuf_arr (mpa_rx s)) = 16" "length (rx_len_arr (mpa_rx s)) = 16" "rx_work_flag s" "length (mpa_rx_count (sd_dbg s)) = 16"
    using ok by (auto simp: rx_ok_def Let_def)
  have q: "arr_get (rx_mbuf_arr (mpa_rx s)) 0 = Some (Some b)"
    using bs(2) b n l(1) by (cases "rx_mbuf_arr (mpa_rx s)") auto
  obtain len where len: "arr_get (rx_len_arr (mpa_rx s)) 0 = Some len" using l(2) by simp
  obtain st b1 s1 where 1: "receive_data e b (rx_start_port (mpa_rx s)) (ucast len) s = Some (st, b1, s1)" "rx_side s1 = rx_side s"
    using receive_data_ok [of b s e "rx_start_port (mpa_rx s)" "ucast len"] bs(3) b l(3,4) by auto
  let ?s = "if st = MLAN_STATUS_SUCCESS then s1 else call_up [Free_buffer b1] s1"
  have side: "rx_side ?s = rx_side s" using 1(2) by simp
  then have "rx_ok ?s" using rx_side_ok(1) ok by blast
  note r = reset_ok [OF this]
  have "wlan_receive_single_packet e s = Some (st, MP_RX_AGGR_BUF_RESET ?s)"
    using q len 1(1) by (simp add: wlan_receive_single_packet_def)
  moreover have "rx_left s (MP_RX_AGGR_BUF_RESET ?s)" using r rx_side_ok(2) [OF side] by (simp add: rx_left_def)
  ultimately show ?thesis using r(2) by blast
qed

lemma zip_data_len: "map data_len bs = ls \<Longrightarrow> zip bs ls = map (\<lambda>b. (b, data_len b)) bs"
  by (induction bs arbitrary: ls) auto

lemma receive_mp_ok:
  assumes ok: "rx_ok s" and n: "0 < rx_pkt_cnt (mpa_rx s)"
  shows "\<exists>st s'. wlan_receive_mp_aggr_buf e s = Some (st, s') \<and> rx_left s s' \<and> (st = MLAN_STATUS_SUCCESS \<longrightarrow> rx_pkt_cnt (mpa_rx s') = 0)"
proof (cases "rx_pkt_cnt (mpa_rx s) = 1")
  case True
  then show ?thesis using receive_single_ok [OF ok True, of e] by (auto simp: wlan_receive_mp_aggr_buf_def Let_def)
next
  case False
  let ?r = "mpa_rx s" let ?n = "rx_pkt_cnt ?r"
  obtain bs where bs: "rx_held ?r = Some bs" "length bs = ?n" "map data_len bs = take ?n (rx_len_arr ?r)"
    "\<forall>b \<in> set bs. has_room b \<and> 256 \<le> unat (data_len b) \<and> 256 dvd unat (data_len b)" by (rule rx_ok_held [OF ok])
  obtain buf where buf: "rx_aggr_buf ?r = Some buf" "unat (rx_buf_size ?r) \<le> length buf" "?n \<le> 16" "length (rx_len_arr ?r) = 16"
    "unat (rx_buf_len ?r) = sum_list (map unat (take ?n (rx_len_arr ?r)))" "unat (rx_buf_len ?r) \<le> unat (rx_buf_size ?r)"
    "rx_work_flag s" "length (mpa_rx_count (sd_dbg s)) = 16"
    using ok by (auto simp: rx_ok_def Let_def)
  let ?b = "\<lparr>sb_id = 0, pbuf = buf, data_offset = 0, data_len = rx_buf_len ?r, status_code = 0, buf_type = 0\<rparr>"
  let ?port = "(ioport s OR 0x1000 OR push_bit 8 (bitcount (rx_ports ?r) - 1)) + of_nat (rx_start_port ?r)"
  have "has_room ?b" using buf by (simp add: has_room_def)
  from read_tries_flat [OF this, of e ?port 2 s] obtain st g b1 s1 where
    1: "read_tries e (Flat ?b) ?port 2 s = Some (st, g, Flat b1, s1)" "same_shape ?b b1" "rx_side s1 = rx_side s" by blast
  let ?s2 = "s1\<lparr>mpa_rx := ?r\<lparr>rx_aggr_buf := Some (pbuf b1)\<rparr>\<rparr>"
  have l1: "length (pbuf b1) = length buf" using 1(2) by (simp add: same_shape_def)
  have ok2: "rx_ok ?s2" using ok buf l1 rx_side_ok(3,4) [OF 1(3)] by (auto simp: rx_ok_def Let_def)
  have left2: "rx_left s ?s2" using ok2 by (simp add: rx_left_def)
  show ?thesis
  proof (cases g)
    case True
    have "wlan_receive_mp_aggr_buf e s = Some (MLAN_STATUS_FAILURE, ?s2)"
      using False True bs(1) buf 1(1) by (simp add: wlan_receive_mp_aggr_buf_def Let_def)
    then show ?thesis using left2 by auto
  next
    case go: False
    let ?z = "zip bs (take ?n (rx_len_arr ?r))"
    have z: "\<forall>(b, n) \<in> set ?z. has_room b \<and> data_len b = n \<and> 4 \<le> unat n"
      unfolding zip_data_len [OF bs(3)] using bs(4) by fastforce
    have "map (unat \<circ> snd) ?z = map unat (take ?n (rx_len_arr ?r))"
      unfolding zip_data_len [OF bs(3)] by (simp flip: bs(3))
    then have len: "0 + sum_list (map (unat \<circ> snd) ?z) \<le> length (pbuf b1)" using buf(2,5,6) l1 by simp
    have w: "rx_work_flag ?s2" using ok2 by (simp add: rx_ok_def)
    obtain s3 where 3: "deaggr_flat e (pbuf b1) 0 ?z ?s2 = Some s3" "rx_side s3 = rx_side ?s2"
      using deaggr_flat_ok [OF w z len, of e] by blast
    have c3: "length (mpa_rx_count (sd_dbg s3)) = 16" using rx_side_ok(4) [OF 3(2)] ok2 by (simp add: rx_ok_def)
    have "?n - 1 < 16" using buf(3) by arith
    then obtain s4 where 4: "count_rx (?n - 1) s3 = Some s4" "rx_side s4 = rx_side s3" using count_rx_ok [OF c3] by blast
    have side: "rx_side s4 = rx_side ?s2" using 3 4 by simp
    then have ok4: "rx_ok s4" using ok2 rx_side_ok(1) by blast
    have "wlan_receive_mp_aggr_buf e s = Some (st, MP_RX_AGGR_BUF_RESET s4)"
      using False go bs(1) buf 1(1) 3(1) 4(1) by (simp add: wlan_receive_mp_aggr_buf_def Let_def)
    moreover have "rx_left s (MP_RX_AGGR_BUF_RESET s4)" using reset_ok [OF ok4] rx_side_ok(2) [OF side] by (simp add: rx_left_def)
    ultimately show ?thesis using reset_ok(2) [OF ok4] by blast
  qed
qed

lemma unat_up: "unat (ucast (w :: t_u16) :: t_u32) = unat w"
proof -
  have "unat w < 2 ^ 32" using unsigned_less [where 'a = nat, of w] by simp
  then show ?thesis by (simp add: unsigned_ucast_eq take_bit_nat_eq_self)
qed

text \<open>A new buffer for the packet of a port, as the loop over the ports makes it.\<close>

definition fresh_for :: "t_u16 \<Rightarrow> sdio_buffer \<Rightarrow> bool" where
  "fresh_for len b \<longleftrightarrow> has_room b \<and> data_len b = ucast len \<and> 256 \<le> unat len \<and> 256 dvd unat len"

lemma setup_ok:
  assumes ok: "rx_ok s" and b: "fresh_for len b" and p: "port < 32" and n: "rx_pkt_cnt (mpa_rx s) < 16"
    and room: "unat (rx_buf_len (mpa_rx s)) + unat len \<le> unat (rx_buf_size (mpa_rx s))"
  shows "\<exists>s'. MP_RX_AGGR_SETUP b port len s = Some s' \<and> rx_left s s' \<and> rx_pkt_cnt (mpa_rx s') = rx_pkt_cnt (mpa_rx s) + 1
    \<and> rx_buf_len (mpa_rx s') = rx_buf_len (mpa_rx s) + ucast len"
proof -
  let ?r = "mpa_rx s" let ?n = "rx_pkt_cnt ?r"
  have l: "length (rx_mbuf_arr ?r) = 16" "length (rx_len_arr ?r) = 16"
    "list_all2 slot_ok (take ?n (rx_mbuf_arr ?r)) (take ?n (rx_len_arr ?r))"
    "unat (rx_buf_len ?r) = sum_list (map unat (take ?n (rx_len_arr ?r)))" "unat (rx_buf_size ?r) < 65536"
    using ok by (auto simp: rx_ok_def Let_def)
  obtain m where m: "shl1 port = Some m" using p by (simp add: shl1_def)
  let ?r' = "?r\<lparr>rx_buf_len := rx_buf_len ?r + ucast len, rx_start_port := (if ?n = 0 then port else rx_start_port ?r),
     rx_ports := rx_ports ?r OR m, rx_mbuf_arr := (rx_mbuf_arr ?r)[?n := Some b], rx_len_arr := (rx_len_arr ?r)[?n := ucast len],
     rx_pkt_cnt := ?n + 1\<rparr>"
  have run: "MP_RX_AGGR_SETUP b port len s = Some (s\<lparr>mpa_rx := ?r'\<rparr>)" using m n l by (simp add: MP_RX_AGGR_SETUP_def Let_def)
  have u: "unat (rx_buf_len ?r + ucast len) = unat (rx_buf_len ?r) + unat len"
    using room l(5) by (subst unat_add_small) (simp_all add: unat_up)
  have s1: "slot_ok (Some b) (ucast len)" using b by (auto simp: slot_ok_def fresh_for_def has_room_def unat_up)
  have ts: "take (Suc ?n) ((rx_mbuf_arr ?r)[?n := Some b]) = take ?n (rx_mbuf_arr ?r) @ [Some b]"
    "take (Suc ?n) ((rx_len_arr ?r)[?n := ucast len]) = take ?n (rx_len_arr ?r) @ [ucast len]"
    using l n by (simp_all add: take_Suc_conv_app_nth)
  have "list_all2 slot_ok (take (Suc ?n) ((rx_mbuf_arr ?r)[?n := Some b])) (take (Suc ?n) ((rx_len_arr ?r)[?n := ucast len]))"
    unfolding ts using l(3) s1 by (simp add: list_all2_appendI)
  moreover have "unat (rx_buf_len ?r + ucast len) = sum_list (map unat (take (Suc ?n) ((rx_len_arr ?r)[?n := ucast len])))"
    unfolding ts u using l(4) by (simp add: unat_up)
  ultimately have "rx_ok (s\<lparr>mpa_rx := ?r'\<rparr>)" using ok n room u by (simp add: rx_ok_def Let_def)
  then show ?thesis using run by (simp add: rx_left_def)
qed

lemma cleanup_ok:
  assumes "rx_ok s"
  shows "\<exists>s'. rx_cleanup c b s = Some s' \<and> rx_left s s' \<and> rx_pkt_cnt (mpa_rx s') = 0"
proof -
  obtain bs where bs: "rx_held (mpa_rx s) = Some bs" by (rule rx_ok_held [OF assms])
  let ?s = "if rx_pkt_cnt (mpa_rx s) > 0 then MP_RX_AGGR_BUF_RESET (call_up (map Free_buffer bs) s) else s"
  let ?t = "if c then call_up [Free_buffer b] ?s else ?s"
  have side: "rx_side (call_up (map Free_buffer bs) s) = rx_side s" by simp
  note r = reset_ok [OF rx_side_ok(1) [OF side, THEN iffD2, OF assms]]
  have "rx_left s ?s" "rx_pkt_cnt (mpa_rx ?s) = 0"
    using r assms rx_side_ok(2) [OF side] by (auto simp: rx_left_def)
  moreover have t: "rx_side ?t = rx_side ?s" by simp
  ultimately have "rx_left s ?t" "rx_pkt_cnt (mpa_rx ?t) = 0"
    using rx_side_ok(1,2) [OF t] by (simp_all add: rx_left_def)
  then show ?thesis using bs by (auto simp: rx_cleanup_def Let_def)
qed

subsection \<open>One port\<close>

lemma rx_left_trans: "rx_left s s1 \<Longrightarrow> rx_left s1 s2 \<Longrightarrow> rx_left s s2"
  by (simp add: rx_left_def)

lemma rx_left_refl: "rx_ok s \<Longrightarrow> rx_left s s"
  by (simp add: rx_left_def)

text \<open>The packet of a port: collected, read with those collected, or read alone.\<close>

lemma rx_room_nat:
  assumes "MP_RX_AGGR_BUF_HAS_ROOM s (ucast (len :: t_u16))" "rx_ok s"
  shows "unat (rx_buf_len (mpa_rx s)) + unat len \<le> unat (rx_buf_size (mpa_rx s))"
proof -
  have l: "unat (rx_buf_len (mpa_rx s)) < 65536" "unat len < 65536"
    using assms(2) unsigned_less [where 'a = nat, of len] by (auto simp: rx_ok_def Let_def)
  have "unat (rx_buf_len (mpa_rx s) + ucast len) = unat (rx_buf_len (mpa_rx s)) + unat len"
    using l by (subst unat_add_small) (simp_all add: unat_up)
  then show ?thesis using assms(1) by (simp add: MP_RX_AGGR_BUF_HAS_ROOM_def word_le_nat_alt)
qed

lemma rx_empty: "rx_ok s \<Longrightarrow> rx_pkt_cnt (mpa_rx s) = 0 \<Longrightarrow> rx_buf_len (mpa_rx s) = 0"
  by (simp add: rx_ok_def Let_def unat_eq_0)

lemma mp_rx_ok:
  assumes inv: "rx_side_inv s" and b: "fresh_for len b" and p: "port < 32" and fit: "unat len \<le> unat (rx_buf_size (mpa_rx s))"
  shows "\<exists>st s'. wlan_sdio_card_to_host_mp_aggr e b port len s = Some (st, s') \<and> rx_side_inv s'
    \<and> rx_buf_size (mpa_rx s') = rx_buf_size (mpa_rx s)"
proof -
  define f where "f = (if rx_enabled (mpa_rx s)
      then mp_rx_flags (mp_rd_bitmap s AND DATA_PORT_MASK \<noteq> 0) (rx_pkt_cnt (mpa_rx s) > 0) (MP_RX_AGGR_BUF_HAS_ROOM s (ucast len))
      else \<lparr>f_do_rx_aggr = False, f_do_rx_cur = True, f_aggr_cur = False, f_post_aggr_cur = False\<rparr>)"
  have ok: "rx_ok s" and lim: "2 \<le> rx_pkt_aggr_limit (mpa_rx s)" "rx_pkt_aggr_limit (mpa_rx s) \<le> 16"
      "rx_pkt_cnt (mpa_rx s) < rx_pkt_aggr_limit (mpa_rx s)"
    using inv by (auto simp: rx_side_inv_def rx_ok_def Let_def)
  have aggr: "unat (rx_buf_len (mpa_rx s)) + unat len \<le> unat (rx_buf_size (mpa_rx s))" "\<not> f_post_aggr_cur f" if "f_aggr_cur f"
    using that fit rx_empty [OF ok] rx_room_nat [of s len, OF _ ok]
    by (auto simp: f_def mp_rx_flags_def Let_def split: if_splits)
  have excl: "f_do_rx_aggr f" "\<not> f_aggr_cur f" "rx_pkt_cnt (mpa_rx s) > 0" if "f_post_aggr_cur f"
    using that by (auto simp: f_def mp_rx_flags_def Let_def split: if_splits)
  obtain s1 where 1: "(if f_aggr_cur f then MP_RX_AGGR_SETUP b port len s else Some s) = Some s1" "rx_left s s1"
    "f_aggr_cur f \<longrightarrow> rx_pkt_cnt (mpa_rx s1) = rx_pkt_cnt (mpa_rx s) + 1" "\<not> f_aggr_cur f \<longrightarrow> s1 = s"
  proof (cases "f_aggr_cur f")
    case True
    then show thesis using setup_ok [OF ok b p _ aggr(1) [OF True]] lim that by auto
  qed (use that rx_left_refl [OF ok] in auto)
  define now where "now = (f_do_rx_aggr f \<or> f_aggr_cur f
      \<and> (rx_pkt_cnt (mpa_rx s1) = rx_pkt_aggr_limit (mpa_rx s1) \<or> MP_RX_AGGR_PORT_LIMIT_REACHED s1))"
  have ok1: "rx_ok s1" using 1(2) by (simp add: rx_left_def)
  have cnt: "f_do_rx_aggr f \<longrightarrow> 0 < rx_pkt_cnt (mpa_rx s)"
    by (simp add: f_def mp_rx_flags_def Let_def)
  obtain st1 s2 where 2: "(if now then wlan_receive_mp_aggr_buf e s1 else Some (MLAN_STATUS_SUCCESS, s1)) = Some (st1, s2)" "rx_left s s2"
    "st1 = MLAN_STATUS_SUCCESS \<longrightarrow> rx_pkt_cnt (mpa_rx s2) < rx_pkt_aggr_limit (mpa_rx s2) \<and> (f_post_aggr_cur f \<longrightarrow> rx_pkt_cnt (mpa_rx s2) = 0)"
  proof (cases now)
    case True
    have "0 < rx_pkt_cnt (mpa_rx s1)" using True 1(3,4) cnt by (auto simp: now_def)
    then show thesis using receive_mp_ok [OF ok1, of e] that True 1(2) lim by (fastforce simp: rx_left_def)
  next
    case False
    then have post: "\<not> f_post_aggr_cur f" using excl(1) by (auto simp: now_def)
    have "rx_pkt_cnt (mpa_rx s1) < rx_pkt_aggr_limit (mpa_rx s1)"
      using False 1(2-4) lim by (cases "f_aggr_cur f") (auto simp: now_def rx_left_def)
    then show thesis using that [of MLAN_STATUS_SUCCESS s1] 1(2) post False by simp
  qed
  have run: "wlan_sdio_card_to_host_mp_aggr e b port len s =
    (if st1 \<noteq> MLAN_STATUS_SUCCESS then map_option (Pair MLAN_STATUS_FAILURE) (rx_cleanup (f_do_rx_cur f) b s2)
     else Option.bind (if f_do_rx_cur f then receive_data e b port len s2 else Some (MLAN_STATUS_SUCCESS, b, s2)) (\<lambda>(st2, b1, s3).
       if st2 \<noteq> MLAN_STATUS_SUCCESS then map_option (Pair MLAN_STATUS_FAILURE) (rx_cleanup (f_do_rx_cur f) b1 s3)
       else map_option (Pair MLAN_STATUS_SUCCESS) (if f_post_aggr_cur f then MP_RX_AGGR_SETUP b port len s3 else Some s3)))"
    unfolding wlan_sdio_card_to_host_mp_aggr_def f_def [symmetric] Let_def 1(1) by (simp add: now_def [symmetric] 2(1))
  have ok2: "rx_ok s2" using 2(2) by (simp add: rx_left_def)
  have failed: "\<exists>s'. rx_cleanup c b' t = Some s' \<and> rx_side_inv s' \<and> rx_buf_size (mpa_rx s') = rx_buf_size (mpa_rx s)" if "rx_left s t" for c b' t
    using cleanup_ok [of t c b'] that lim by (auto simp: rx_left_def rx_side_inv_def)
  show ?thesis
  proof (cases "st1 = MLAN_STATUS_SUCCESS")
    case False
    then show ?thesis unfolding run using failed [OF 2(2)] by auto
  next
    case True
    have n2: "rx_pkt_cnt (mpa_rx s2) < rx_pkt_aggr_limit (mpa_rx s2)" "f_post_aggr_cur f \<longrightarrow> rx_pkt_cnt (mpa_rx s2) = 0" using 2(3) True by auto
    have hb: "has_room b" "4 \<le> unat (data_len b)" using b by (simp_all add: fresh_for_def unat_up)
    obtain st2 b1 s3 where 3: "(if f_do_rx_cur f then receive_data e b port len s2 else Some (MLAN_STATUS_SUCCESS, b, s2)) = Some (st2, b1, s3)"
      "rx_side s3 = rx_side s2"
    proof (cases "f_do_rx_cur f")
      case True
      then show thesis using receive_data_ok [OF hb, of s2 e port len] ok2 that by (auto simp: rx_ok_def)
    qed (use that in auto)
    have l3: "rx_left s s3" using 2(2) rx_side_ok(1,2) [OF 3(2)] by (simp add: rx_left_def)
    have n3: "rx_pkt_cnt (mpa_rx s3) < rx_pkt_aggr_limit (mpa_rx s3)" "f_post_aggr_cur f \<longrightarrow> rx_pkt_cnt (mpa_rx s3) = 0"
      using n2 rx_side_ok(2) [OF 3(2)] by simp_all
    have ok3: "rx_ok s3" using l3 by (simp add: rx_left_def)
    show ?thesis
    proof (cases "st2 = MLAN_STATUS_SUCCESS")
      case False
      then show ?thesis unfolding run using True 3(1) failed [OF l3] by auto
    next
      case st2: True
      show ?thesis
      proof (cases "f_post_aggr_cur f")
        case False
        then show ?thesis unfolding run using True st2 3(1) n3 l3 ok3 by (simp add: rx_side_inv_def rx_left_def)
      next
        case post: True
        have "unat (rx_buf_len (mpa_rx s3)) + unat len \<le> unat (rx_buf_size (mpa_rx s3))"
          using rx_empty [OF ok3] n3(2) post fit l3 by (simp add: rx_left_def)
        then obtain s4 where "MP_RX_AGGR_SETUP b port len s3 = Some s4" "rx_left s3 s4" "rx_pkt_cnt (mpa_rx s4) = 1"
          using setup_ok [OF ok3 b p] n3(2) post by fastforce
        then show ?thesis unfolding run using True st2 3(1) post l3 lim by (auto simp: rx_side_inv_def rx_left_def)
      qed
    qed
  qed
qed

subsection \<open>The loop over the ports\<close>

lemma reg16_ok: "length (mp_regs s) = 196 \<Longrightarrow> i < 195 \<Longrightarrow> \<exists>w. reg16 i s = Some w"
  by (simp add: reg16_def)

lemma alloc_fresh:
  assumes "\<forall>i. alloc e i \<noteq> None" "256 \<le> unat len" "256 dvd unat len"
  shows "\<exists>b s'. wlan_alloc_mlan_buffer e (ucast (len :: t_u16)) hr fl s = (Some b, s') \<and> fresh_for len b \<and> rx_side s' = rx_side s"
proof -
  obtain a where a: "alloc e (allocs s) = Some a" using assms(1) by blast
  have lt: "unat len < 65536" using unsigned_less [where 'a = nat, of len] by simp
  have "unat (ucast len + 255 :: t_u32) = unat len + 255" using lt by (subst unat_add_small) (simp_all add: unat_up)
  then have d: "unat ((ucast len + 255) div 256 :: t_u32) = (unat len + 255) div 256" by (simp add: unat_div)
  obtain k where k: "unat len = 256 * k" using assms(3) by blast
  then have "(unat len + 255) div 256 * 256 = unat len" by simp
  then have "unat ((ucast len + 255) div 256 * 256 :: t_u32) = unat len"
    using d lt by (simp add: unat_word_ariths)
  then have n: "(ucast len + 255) div 256 * 256 = (ucast len :: t_u32)" by (simp add: word_unat_eq_iff unat_up)
  have "a mod 32 < 32" by simp
  then show ?thesis
    using a assms(2,3) n by (cases fl) (simp_all add: wlan_alloc_mlan_buffer_def Let_def fresh_for_def has_room_def unat_up)
qed

lemma rx_round_ok:
  assumes inv: "rx_side_inv s" and regs: "length (mp_regs s) = 196" and p: "port < 32" and al: "\<forall>i. alloc e i \<noteq> None"
  shows "\<exists>r s'. rx_port_round e port s = Some (r, s') \<and> rx_side_inv s'"
proof -
  obtain len where len: "reg16 (0x18 + 2 * port) s = Some len" using reg16_ok [OF regs, of "0x18 + 2 * port"] p by auto
  define n where "n = (unat len + 256 - 1) div 256 * 256"
  show ?thesis
  proof (cases "len \<le> 4 \<or> n > unat (rx_buf_size (mpa_rx s))")
    case True
    then show ?thesis using len inv by (simp add: rx_port_round_def Let_def n_def)
  next
    case False
    define rl where "rl = (of_nat n :: t_u16)"
    have "n < 65536" using False inv by (auto simp: rx_side_inv_def rx_ok_def Let_def)
    then have u: "unat rl = n" by (simp add: rl_def unat_of_nat take_bit_nat_eq_self)
    have "4 < unat len" using False by (simp add: word_le_nat_alt)
    then have "256 \<le> n" by (simp add: n_def) 
    then have n: "256 \<le> unat rl" "256 dvd unat rl" unfolding u by (simp_all add: n_def)
    obtain b s1 where 1: "(if unat rl > 1818 \<and> \<not> enable_net_mon s then wlan_alloc_mlan_buffer e (ucast rl) 0 MOAL_MALLOC_BUFFER s
          else wlan_alloc_mlan_buffer e (ucast rl) 64 MOAL_ALLOC_MLAN_BUFFER s) = (Some b, s1)" "fresh_for rl b" "rx_side s1 = rx_side s"
      using that alloc_fresh [OF al n, of 0 MOAL_MALLOC_BUFFER s] alloc_fresh [OF al n, of 64 MOAL_ALLOC_MLAN_BUFFER s]
      by (cases "unat rl > 1818 \<and> \<not> enable_net_mon s") auto
    have i1: "rx_side_inv s1" using inv rx_side_ok(1,2) [OF 1(3)] by (simp add: rx_side_inv_def)
    have "unat rl \<le> unat (rx_buf_size (mpa_rx s1))" using False u rx_side_ok(2) [OF 1(3)] by simp
    from mp_rx_ok [OF i1 1(2) p this, of e] obtain st s2 where
      2: "wlan_sdio_card_to_host_mp_aggr e b port rl s1 = Some (st, s2)" "rx_side_inv s2" by blast
    have fin: "rx_side_inv (count_up f s2)" if "length (mpa_rx_count (f (sd_dbg s2))) = length (mpa_rx_count (sd_dbg s2))" for f
      using 2(2) that by (simp add: rx_side_inv_def rx_ok_def count_up_def)
    have "rx_port_round e port s = Some (if st = MLAN_STATUS_SUCCESS then (Rx_more, s2)
        else (Rx_term, count_up (\<lambda>d. d\<lparr>num_rx_card_to_host_failure := num_rx_card_to_host_failure d + 1\<rparr>) s2))"
      unfolding rx_port_round_def len Option.bind.simps Let_def n_def [symmetric] rl_def [symmetric]
      using False 1(1) 2(1) by simp
    then show ?thesis using 2(2) fin by auto
  qed
qed

text \<open>What holds before each round.\<close>

definition rx_ready :: "sdio_ctx \<Rightarrow> bool" where
  "rx_ready s \<longleftrightarrow> rx_side_inv s \<and> length (mp_regs s) = 196 \<and> curr_rd_port s < 32"

lemma rx_step_ok:
  assumes rd: "rx_ready s" and al: "\<forall>i. alloc e i \<noteq> None"
  shows "\<exists>r s'. rx_port_step e s = Some (r, s') \<and> rx_ready s'"
proof -
  have c: "rx_side_inv s" "length (mp_regs s) = 196" "curr_rd_port s < 32" using rd by (simp_all add: rx_ready_def)
  have one: "(0xffffffff :: t_u32) = - 1" by simp
  have all: "mp_rd_bitmap s AND 0xffffffff = mp_rd_bitmap s" unfolding one by simp
  obtain st port s1 where g: "wlan_get_rd_port s = Some (st, port, s1)" "rx_ready s1" "port < 32"
  proof (cases "mp_rd_bitmap s \<noteq> 0 \<and> bit (mp_rd_bitmap s) (curr_rd_port s)")
    case True
    let ?s = "s\<lparr>mp_rd_bitmap := mp_rd_bitmap s AND NOT (push_bit (curr_rd_port s) 1),
      curr_rd_port := (if (curr_rd_port s + 1) mod 256 = 32 then 0 else (curr_rd_port s + 1) mod 256)\<rparr>"
    have "wlan_get_rd_port s = Some (MLAN_STATUS_SUCCESS, curr_rd_port s, ?s)"
      using True c(3) by (simp add: wlan_get_rd_port_def all shl1_def and_exp_eq_0_iff_not_bit Let_def)
    moreover have "rx_ready ?s" using c by (auto simp: rx_ready_def rx_side_inv_def rx_ok_def)
    ultimately show thesis using that c(3) by blast
  next
    case False
    then have "wlan_get_rd_port s = Some (MLAN_STATUS_FAILURE, 0, s)"
      using c(3) by (auto simp: wlan_get_rd_port_def all shl1_def and_exp_eq_0_iff_not_bit)
    then show thesis using that rd by simp
  qed
  show ?thesis
  proof (cases "st = MLAN_STATUS_SUCCESS")
    case False
    then show ?thesis using g by (simp add: rx_port_step_def)
  next
    case True
    have c1: "rx_side_inv s1" "length (mp_regs s1) = 196" "curr_rd_port s1 < 32" using g(2) by (simp_all add: rx_ready_def)
    obtain r s' where r: "rx_port_round e port s1 = Some (r, s')" "rx_side_inv s'" using rx_round_ok [OF c1(1,2) g(3) al] by blast
    have "rx_core s' = rx_core s1" using rx_port_round_frame [OF r(1)] .
    then have "rx_ready s'" using r(2) c1 by (simp add: rx_ready_def rx_core_def)
    then show ?thesis using g(1) r(1) True by (simp add: rx_port_step_def)
  qed
qed

lemma rx_loop_ok:
  assumes "rx_ready s" "\<forall>i. alloc e i \<noteq> None"
  shows "\<exists>r s'. rx_port_loop e s = Some (r, s') \<and> rx_ready s'"
  using assms
proof (induction e s rule: rx_port_loop.induct)
  case (1 e s)
  obtain r s1 where st: "rx_port_step e s = Some (r, s1)" "rx_ready s1" using rx_step_ok [OF 1(2,3)] by blast
  show ?case
  proof (cases r)
    case Rx_more
    then show ?thesis using 1(1) [OF st(1) refl Rx_more st(2) 1(3)] st(1) by (simp add: rx_port_loop.simps [of e s])
  qed (use st in \<open>simp_all add: rx_port_loop.simps [of e s]\<close>)
qed

text \<open>The rest of the handling: what the card reports of its ports for sending.\<close>

definition int_ready :: "sdio_ctx \<Rightarrow> bool" where
  "int_ready s \<longleftrightarrow> rx_ready s \<and> length (mp_update (sd_dbg s)) = 32 \<and> curr_wr_port s < 32"

lemma reg32_ok: "length (mp_regs s) = 196 \<Longrightarrow> i < 193 \<Longrightarrow> \<exists>w. reg32 i s = Some w"
  using reg16_ok [of s i] reg16_ok [of s "i + 2"] by (auto simp: reg32_def)

lemma bitcount_le: "unat (bitcount w) \<le> 32"
proof -
  have "port_set w \<subseteq> {..<32}" using port_set_lt by blast
  then have "card (port_set w) \<le> 32" using card_mono [of "{..<32 :: nat}" "port_set w"] by simp
  then show ?thesis by (simp add: bitcount_card unat_of_nat take_bit_nat_eq_self)
qed

lemma count_update_ok:
  assumes "k \<le> 32" "length (mp_update (sd_dbg s)) = 32"
  shows "\<exists>s'. count_update k s = Some s' \<and> rx_side s' = rx_side s \<and> mp_regs s' = mp_regs s
    \<and> curr_rd_port s' = curr_rd_port s \<and> curr_wr_port s' = curr_wr_port s"
proof (cases k)
  case 0
  then show ?thesis by (simp add: count_update_def)
next
  case (Suc n)
  then have "int k - 1 = int n" "n < length (mp_update (sd_dbg s))" using assms by auto
  then show ?thesis using Suc by (simp add: count_update_def Let_def count_up_def rx_side_def)
qed

lemma int_download_ok:
  assumes "int_ready s"
  shows "\<exists>s'. int_download s = Some s' \<and> rx_ready s'"
proof -
  let ?s1 = "if mp_wr_bitmap s AND mp_data_port_mask s \<noteq> 0
     then count_up (\<lambda>d. d\<lparr>mp_invalid_update := mp_invalid_update d + 1\<rparr>) s else s"
  have ready: "rx_ready t" if "rx_side t = rx_side s" "mp_regs t = mp_regs s" "curr_rd_port t = curr_rd_port s" for t
    using assms rx_side_ok(1,2) [OF that(1)] that(2,3) by (simp add: int_ready_def rx_ready_def rx_side_inv_def)
  have "length (mp_regs ?s1) = 196" using assms by (simp add: int_ready_def rx_ready_def count_up_def)
  then obtain bm where bm: "reg32 0x14 ?s1 = Some bm" using reg32_ok [of ?s1 "0x14"] by auto
  let ?k = "unat (bitcount (bm AND mp_data_port_mask ?s1))" let ?s = "?s1\<lparr>mp_wr_bitmap := bm\<rparr>"
  have f: "rx_side ?s = rx_side s" "mp_regs ?s = mp_regs s" "curr_rd_port ?s = curr_rd_port s" "curr_wr_port ?s = curr_wr_port s"
    "length (mp_update (sd_dbg ?s)) = 32"
    using assms by (simp_all add: rx_side_def count_up_def int_ready_def)
  obtain s2 where 2: "count_update ?k ?s = Some s2" "rx_side s2 = rx_side s" "mp_regs s2 = mp_regs s"
    "curr_rd_port s2 = curr_rd_port s" "curr_wr_port s2 = curr_wr_port s"
    using that count_update_ok [OF bitcount_le [of "bm AND mp_data_port_mask ?s1"] f(5)] unfolding f(1-4) by blast
  let ?s3 = "count_up (\<lambda>d. d\<lparr>last_recv_wr_bitmap := bm\<rparr>) s2"
  have f3: "rx_side ?s3 = rx_side s" "mp_regs ?s3 = mp_regs s" "curr_rd_port ?s3 = curr_rd_port s" "curr_wr_port ?s3 = curr_wr_port s"
    using 2 by (simp_all add: rx_side_def count_up_def)
  obtain m where m: "(if data_sent ?s3 then shl1 (curr_wr_port ?s3) else Some 0) = Some m"
    using that assms f3(4) by (cases "data_sent ?s3") (simp_all add: int_ready_def shl1_def)
  let ?s4 = "if data_sent ?s3 \<and> bm AND m \<noteq> 0 then ?s3\<lparr>data_sent := False\<rparr> else ?s3"
  have run: "int_download s = Some ?s4"
    unfolding int_download_def Let_def using bm 2(1) m by simp
  have "rx_side ?s4 = rx_side s" "mp_regs ?s4 = mp_regs s" "curr_rd_port ?s4 = curr_rd_port s"
    using f3 by (simp_all add: rx_side_def)
  then have "rx_ready ?s4" by (rule ready)
  then show ?thesis using run by blast
qed

text \<open>C6. With receive work and an aggregation buffer, and while allocations succeed, handling an interrupt without a command
  response ends, reads and writes only inside the buffers and arrays and keeps the invariant of the receiving side, whatever
  the registers and the packets contain, whichever transfers fail, and whatever waits from earlier interrupts.\<close>

theorem rx_interrupt_safe:
  assumes "int_ready s" "sdio_ireg s AND UP_LD_CMD_PORT_HOST_INT_STATUS = 0" "\<forall>i. alloc e i \<noteq> None"
  shows "\<exists>st s'. wlan_process_int_status e s = Some (st, s') \<and> rx_ready s'"
proof -
  let ?s0 = "s\<lparr>sdio_ireg := 0\<rparr>"
  let ?s1 = "if sdio_ireg s AND DN_LD_CMD_PORT_HOST_INT_STATUS \<noteq> 0 then ?s0\<lparr>cmd_sent := False\<rparr> else ?s0"
  have upd: "rx_ready t" if "rx_ready s'" "rx_side t = rx_side s'" "mp_regs t = mp_regs s'" "curr_rd_port t = curr_rd_port s'" for t s'
    using that(1) rx_side_ok(1,2) [OF that(2)] that(3,4) by (simp add: rx_ready_def rx_side_inv_def)
  have r: "int_ready ?s1" using assms(1) by (auto simp: int_ready_def rx_ready_def rx_side_inv_def rx_ok_def)
  show ?thesis
  proof (cases "sdio_ireg s = 0")
    case True
    have "rx_ready ?s0" using assms(1) by (simp add: int_ready_def rx_ready_def rx_side_inv_def rx_ok_def)
    then show ?thesis using True by (simp add: wlan_process_int_status_def Let_def)
  next
    case False
    obtain s3 where 3: "(if sdio_ireg s AND DN_LD_HOST_INT_STATUS \<noteq> 0 then int_download ?s1 else Some ?s1) = Some s3" "rx_ready s3"
      using int_download_ok [OF r] r by (cases "sdio_ireg s AND DN_LD_HOST_INT_STATUS \<noteq> 0") (auto simp: int_ready_def)
    obtain r4 s4 where 4: "(if sdio_ireg s AND UP_LD_HOST_INT_STATUS \<noteq> 0 then int_upload e (sd_ps_state s) s3 else Some (Int_go_on, s3))
        = Some (r4, s4)" "rx_ready s4"
    proof (cases "sdio_ireg s AND UP_LD_HOST_INT_STATUS \<noteq> 0")
      case True
      obtain bm where bm: "reg32 0x10 s3 = Some bm" using reg32_ok [of s3 "0x10"] 3(2) by (auto simp: rx_ready_def)
      have "rx_ready (s3\<lparr>mp_rd_bitmap := bm\<rparr>)" using 3(2) by (rule upd) (simp_all add: rx_side_def)
      from rx_loop_ok [OF this assms(3)] obtain q t where t: "rx_port_loop e (s3\<lparr>mp_rd_bitmap := bm\<rparr>) = Some (q, t)" "rx_ready t" by blast
      let ?t = "if q = Int_go_on then forget_data_if_asleep (sd_ps_state s) t else t"
      have "rx_ready ?t" using t(2) by (rule upd) (simp_all add: rx_side_def forget_data_if_asleep_def)
      then show thesis using that True bm t(1) by (simp add: int_upload_def)
    qed (use that 3(2) in auto)
    have fin: "rx_ready (snd (int_leave e r4 s4))"
      using 4(2) by (rule upd) (auto simp: int_leave_def term_cmd53_def Let_def note_xfer_def rx_side_def split: int_end.split)
    have "wlan_process_int_status e s = Some (int_leave e r4 s4)"
      using False assms(2) 3(1) 4(1) by (simp add: wlan_process_int_status_def Let_def)
    then show ?thesis using fin by (cases "int_leave e r4 s4") auto
  qed
qed

end
