(* ===== verification/Sdio_Rx_Data.thy ===== *)
theory Sdio_Rx_Data
  imports Sdio_Rx_Props
begin

text \<open>
  What receiving delivers: the packets of a frame for one port come out as they were put in; and a packet that is lost
  when reading those that were collected before it fails.
\<close>

subsection \<open>Frames of several packets\<close>

text \<open>One unit of a frame, with its payload: whole blocks, the number of them in byte 15, the length of the packet with its
  header in front of the type at 28, the payload at 32.  The other bytes do not matter.\<close>

definition spa_unit :: "nat \<Rightarrow> t_u8 list \<Rightarrow> t_u8 list \<Rightarrow> bool" where
  "spa_unit block u p \<longleftrightarrow> length u = block * unat (u ! 15) \<and> length u < 65536 \<and> 32 + length p \<le> length u
     \<and> take 2 (drop 28 u) = le16_bytes (of_nat (length p + 4)) \<and> take (length p) (drop 32 u) = p"

lemma rd_within:
  "i + n \<le> length u \<Longrightarrow> rd (pre @ u @ rest) (length pre + i) n = Some (take n (drop i u))"
  by (simp add: rd_def)

lemma small16: "n < 65536 \<Longrightarrow> unat (of_nat n :: t_u16) = n" "n < 65536 \<Longrightarrow> (ucast (of_nat n :: t_u16) :: t_u32) = of_nat n"
proof -
  assume n: "n < 65536"
  show u: "unat (of_nat n :: t_u16) = n" using n by (simp add: unat_of_nat take_bit_nat_eq_self)
  have "unat (of_nat n :: t_u32) = n" using n by (simp add: unat_of_nat take_bit_nat_eq_self)
  then show "(ucast (of_nat n :: t_u16) :: t_u32) = of_nat n" using u by (simp add: word_unat_eq_iff unat_up)
qed

lemma alloc_payload:
  assumes "\<forall>i. alloc e i \<noteq> None" "length p < 65536"
  shows "\<exists>b s' mem. wlan_alloc_mlan_buffer e (of_nat (length p)) 64 MOAL_ALLOC_MLAN_BUFFER s = (Some b, s')
    \<and> wr (pbuf b) (data_offset b) p = Some mem \<and> buf_data (b\<lparr>pbuf := mem, data_len := of_nat (length p)\<rparr>) = p
    \<and> up_calls s' = up_calls s \<and> sdio_rx_block_size s' = sdio_rx_block_size s"
proof -
  obtain a where a: "alloc e (allocs s) = Some a" using assms(1) by blast
  have l: "unat (of_nat (length p) :: t_u32) = length p" using assms(2) by (simp add: unat_of_nat take_bit_nat_eq_self)
  have "unat (of_nat (length p) + 255 :: t_u32) = length p + 255" using l assms(2) by (subst unat_add_small) simp_all
  then have "unat ((of_nat (length p) + 255) div 256 :: t_u32) = (length p + 255) div 256" by (simp add: unat_div)
  moreover have "(length p + 255) div 256 * 256 < 2 ^ 32"
  proof -
    have "(length p + 255) div 256 * 256 \<le> length p + 255" by (rule div_times_less_eq_dividend)
    then show ?thesis using assms(2) by simp
  qed
  ultimately have n: "unat ((of_nat (length p) + 255) div 256 * 256 :: t_u32) = (length p + 255) div 256 * 256"
    by (simp add: unat_word_ariths)
  let ?n = "(of_nat (length p) + 255) div 256 * 256 :: t_u32"
  have le: "length p \<le> unat ?n" unfolding n by linarith
  define off where "off = 64 + a mod 32"
  have off: "off < 96" by (simp add: off_def)
  let ?mem0 = "replicate (unat ?n + 32 + 64) (0 :: t_u8)"
  let ?b = "\<lparr>sb_id = allocs s, pbuf = ?mem0, data_offset = off, data_len = ?n, status_code = 0, buf_type = 0\<rparr>"
  have "off + length p \<le> length ?mem0" using le off by simp
  then obtain mem where mem: "wr ?mem0 off p = Some mem" by (simp add: wr_def)
  then have "take (length p) (drop off mem) = p" by (auto simp: wr_def split: if_splits)
  then have "buf_data (?b\<lparr>pbuf := mem, data_len := of_nat (length p)\<rparr>) = p" using l by (simp add: buf_data_def)
  moreover have "wlan_alloc_mlan_buffer e (of_nat (length p)) 64 MOAL_ALLOC_MLAN_BUFFER s = (Some ?b, s\<lparr>allocs := allocs s + 1\<rparr>)"
    using a by (simp add: wlan_alloc_mlan_buffer_def Let_def off_def)
  ultimately show ?thesis using mem by (intro exI [of _ ?b] exI [of _ "s\<lparr>allocs := allocs s + 1\<rparr>"] exI [of _ mem]) simp
qed

lemma spa_step_unit:
  assumes u: "spa_unit (sdio_rx_block_size s) u p" and todo: "int (length u) \<le> todo" and al: "\<forall>i. alloc e i \<noteq> None"
  shows "\<exists>b s'. spa_step e (pre @ u @ rest) (length pre) todo s = Some (Some (length u), s') \<and> buf_data b = p
    \<and> up_calls s' = up_calls s @ [Handle_rx_packet b] \<and> sdio_rx_block_size s' = sdio_rx_block_size s"
proof -
  have l: "32 + length p \<le> length u" "length p + 4 < 65536" "length p < 65536" using u by (auto simp: spa_unit_def)
  have r15: "rd (pre @ u @ rest) (length pre + 15) 1 = Some [u ! 15]"
    using l rd_within [of 15 1 u pre rest] by (simp add: take_Suc_conv_app_nth)
  have bs: "(sdio_rx_block_size s * unat (u ! 15)) mod 65536 = length u" using u by (simp add: spa_unit_def)
  have r28: "rd (pre @ u @ rest) (length pre + 28) 2 = Some (le16_bytes (of_nat (length p + 4)))"
    using l u rd_within [of 28 2 u pre rest] by (simp add: spa_unit_def)
  have r32: "rd (pre @ u @ rest) (length pre + 32) (length p) = Some p"
    using l u rd_within [of 32 "length p" u pre rest] by (simp add: spa_unit_def)
  have len: "(ucast (of_nat (length p + 4) :: t_u16) :: t_u32) = of_nat (length p + 4)" by (rule small16(2) [OF l(2)])
  have un: "unat (of_nat (length p + 4) :: t_u32) = length p + 4" using l by (simp add: unat_of_nat take_bit_nat_eq_self del: of_nat_add)
  have sub: "(of_nat (length p + 4) :: t_u32) - 4 = of_nat (length p)" by simp
  have ul: "unat (of_nat (length p) :: t_u32) = length p" using l by (simp add: unat_of_nat take_bit_nat_eq_self)
  obtain b s1 mem where al1: "wlan_alloc_mlan_buffer e (of_nat (length p)) 64 MOAL_ALLOC_MLAN_BUFFER s = (Some b, s1)"
    "wr (pbuf b) (data_offset b) p = Some mem" "buf_data (b\<lparr>pbuf := mem, data_len := of_nat (length p)\<rparr>) = p"
    "up_calls s1 = up_calls s" "sdio_rx_block_size s1 = sdio_rx_block_size s"
    using alloc_payload [OF al l(3), of s] by blast
  let ?b = "b\<lparr>pbuf := mem, data_len := of_nat (length p)\<rparr>"
  have "spa_step e (pre @ u @ rest) (length pre) todo s = Some (Some (length u), call_up [Handle_rx_packet ?b] s1)"
    unfolding spa_step_def r15 r28 Option.bind.simps Let_def of_le16_le16 len un sub list.sel bs
    using todo l al1(1,2) r32 ul by (simp del: of_nat_add rd_Some wr_Some)
  then show ?thesis using al1(3-5) by (intro exI [of _ ?b]) (simp add: call_up_def)
qed

text \<open>The payloads of the packets handed on.\<close>

lemma spa_loop_units:
  assumes "list_all2 (spa_unit (sdio_rx_block_size s)) us ps" "us \<noteq> []" "0 < sdio_rx_block_size s" "\<forall>i. alloc e i \<noteq> None"
  shows "\<exists>bs s'. spa_loop e (pre @ concat us @ post) (length pre) (int (length (concat us))) s = Some s' \<and> map buf_data bs = ps
    \<and> up_calls s' = up_calls s @ map Handle_rx_packet bs"
  using assms
proof (induction us arbitrary: pre ps s)
  case (Cons u us)
  obtain p qs where ps: "ps = p # qs" "spa_unit (sdio_rx_block_size s) u p" "list_all2 (spa_unit (sdio_rx_block_size s)) us qs"
    using Cons.prems(1) by (auto simp: list_all2_Cons1)
  let ?todo = "int (length (concat (u # us)))"
  obtain b s1 where 1: "spa_step e (pre @ u @ concat us @ post) (length pre) ?todo s = Some (Some (length u), s1)" "buf_data b = p"
    "up_calls s1 = up_calls s @ [Handle_rx_packet b]" "sdio_rx_block_size s1 = sdio_rx_block_size s"
    using spa_step_unit [OF ps(2) _ Cons.prems(4), of ?todo pre "concat us @ post"] by auto
  have u32: "32 \<le> length u" using ps(2) by (simp add: spa_unit_def)
  have left: "?todo - int (length u) = int (length (concat us))" by simp
  show ?case
  proof (cases us)
    case Nil
    have "spa_loop e (pre @ concat (u # us) @ post) (length pre) ?todo s = Some s1"
      using 1(1,4) u32 Cons.prems(3) Nil by (subst spa_loop.simps) simp
    then show ?thesis using 1 ps(1,3) Nil by (intro exI [of _ "[b]"]) simp
  next
    case (Cons v vs)
    then obtain q where "spa_unit (sdio_rx_block_size s) v q" using ps(3) by (auto simp: list_all2_Cons1)
    then have v: "32 \<le> length v" "length v = sdio_rx_block_size s * unat (v ! 15)" by (simp_all add: spa_unit_def)
    then have "0 < unat (v ! 15)" by (cases "unat (v ! 15)") auto
    then have "sdio_rx_block_size s \<le> length v" unfolding v(2) by simp
    then have big: "\<not> int (length (concat us)) < int (sdio_rx_block_size s1)" using Cons 1(4) by simp
    obtain bs s' where 2: "spa_loop e ((pre @ u) @ concat us @ post) (length (pre @ u)) (int (length (concat us))) s1 = Some s'"
      "map buf_data bs = qs" "up_calls s' = up_calls s1 @ map Handle_rx_packet bs"
      using Cons.IH [of s1 qs "pre @ u"] Cons.prems(3,4) ps(3) 1(4) \<open>us = v # vs\<close> by auto
    have "spa_loop e (pre @ concat (u # us) @ post) (length pre) ?todo s = Some s'"
      using 1(1) 2(1) u32 big left by (subst spa_loop.simps) simp
    then show ?thesis using 1 2 ps(1) by (intro exI [of _ "b # bs"]) simp
  qed
qed simp

text \<open>C17. A frame of units, whatever stands around it in memory, is taken apart into exactly the packets it was made of, in
  order, each handed on in a buffer of its own, while allocations succeed.\<close>

theorem spa_frame_taken_apart:
  assumes units: "list_all2 (spa_unit (sdio_rx_block_size s)) us ps" and bs: "0 < sdio_rx_block_size s" and al: "\<forall>i. alloc e i \<noteq> None"
    and len: "unat len = length (concat us)" "unat len < 2 ^ 31"
  shows "\<exists>bs s'. wlan_decode_spa_buffer e (pre @ concat us @ post) (length pre) len s = Some s' \<and> map buf_data bs = ps
    \<and> up_calls s' = up_calls s @ map Handle_rx_packet bs"
proof -
  have u: "uint len = int (unat len)" by simp
  have "int (unat len) < int (2 ^ 31)" using len(2) by (simp only: of_nat_less_iff)
  then have hi: "uint len < 2 ^ 31" by simp
  have lo: "- (2 ^ 31) \<le> uint len" by (rule order_trans [of _ 0]) simp_all
  have "sint len = uint len"
    unfolding sint_uint by (rule signed_take_bit_int_eq_self) (use lo hi in simp_all)
  then have sl: "sint len = int (length (concat us))" unfolding u len(1) .
  show ?thesis
  proof (cases us)
    case Nil
    then show ?thesis using units bs sl by (auto simp: wlan_decode_spa_buffer_def)
  next
    case (Cons u vs)
    then obtain p where "spa_unit (sdio_rx_block_size s) u p" using units by (auto simp: list_all2_Cons1)
    then have u: "32 \<le> length u" "length u = sdio_rx_block_size s * unat (u ! 15)" by (simp_all add: spa_unit_def)
    then have "0 < unat (u ! 15)" by (cases "unat (u ! 15)") auto
    then have "sdio_rx_block_size s \<le> length u" unfolding u(2) by simp
    then have "\<not> sint len < int (sdio_rx_block_size s)" unfolding sl Cons by simp
    then show ?thesis using spa_loop_units [OF units _ bs al, of pre post] Cons by (simp add: wlan_decode_spa_buffer_def sl)
  qed
qed

subsection \<open>A lost packet\<close>

lemma woal_read_dead:
  assumes "bus_dead e" "woal_read_data_sync e (Flat b) port s = Some (st, io, s')"
  shows "st = MLAN_STATUS_FAILURE"
proof -
  let ?s = "note_xfer (Sdio_read (port AND 0xfffff) (transfer_len port (data_len b))) s"
  obtain st' bytes where bus: "bus e (xfers ?s) = (st', bytes)" by fastforce
  then have "st' = MLAN_STATUS_FAILURE" using assms(1) unfolding bus_dead_def by (metis fst_conv)
  then show ?thesis using assms(2) bus by (auto simp: woal_read_data_sync_def Let_def elim!: runE simp del: wr_Some)
qed

lemma read_tries_dead:
  assumes "bus_dead e" "has_room b"
  shows "\<exists>b' xs. read_tries e (Flat b) port n s = Some (MLAN_STATUS_FAILURE, True, Flat b', set_xfers xs s) \<and> same_shape b b'"
  using assms(2)
proof (induction n arbitrary: b s)
  case 0
  let ?s = "note_xfer (Sdio_read (port AND 0xfffff) (transfer_len port (data_len b))) s"
  from woal_read_flat [OF 0, of e port s] obtain st b' where w: "woal_read_data_sync e (Flat b) port s = Some (st, Flat b', ?s)" "same_shape b b'" by blast
  have "st = MLAN_STATUS_FAILURE" by (rule woal_read_dead [OF assms(1) w(1)])
  then have "read_tries e (Flat b) port 0 s = Some (MLAN_STATUS_FAILURE, True, Flat b', terminate_cmd53 ?s)"
    using w(1) by (subst read_tries.simps) simp
  moreover have "terminate_cmd53 ?s = set_xfers (xfers (terminate_cmd53 ?s)) s" by (simp add: terminate_cmd53_def note_xfer_def set_xfers_def)
  ultimately show ?case using w(2) by metis
next
  case (Suc n)
  let ?s = "note_xfer (Sdio_read (port AND 0xfffff) (transfer_len port (data_len b))) s"
  from woal_read_flat [OF Suc.prems, of e port s] obtain st b' where w: "woal_read_data_sync e (Flat b) port s = Some (st, Flat b', ?s)" "same_shape b b'" by blast
  have st: "st = MLAN_STATUS_FAILURE" by (rule woal_read_dead [OF assms(1) w(1)])
  have "has_room b'" using Suc.prems w(2) same_shape_room by blast
  from Suc.IH [OF this, of "terminate_cmd53 ?s"] obtain b2 xs where
    r: "read_tries e (Flat b') port n (terminate_cmd53 ?s) = Some (MLAN_STATUS_FAILURE, True, Flat b2, set_xfers xs (terminate_cmd53 ?s))" "same_shape b' b2"
    by blast
  have "read_tries e (Flat b) port (Suc n) s = Some (MLAN_STATUS_FAILURE, True, Flat b2, set_xfers xs (terminate_cmd53 ?s))"
    using w(1) r(1) st by (subst read_tries.simps) simp
  moreover have "set_xfers xs (terminate_cmd53 ?s) = set_xfers xs s" by (simp add: terminate_cmd53_def note_xfer_def set_xfers_def)
  ultimately show ?case using same_shape_trans [OF w(2) r(2)] by auto
qed

text \<open>C38. Receive aggregation is on, at least two packets are collected, the packet of the next port does not fit behind them,
  and every transfer fails.  Then the function reports failure, frees the buffers of the collected packets, queues
  nothing and keeps nothing.  The buffer of the packet itself is freed only if no further port has a packet waiting; while
  others are waiting (the read bitmap is not 0) it is neither freed nor kept nor handed on.\<close>

theorem rx_buffer_leaked:
  assumes inv: "rx_side_inv s" and n: "2 \<le> rx_pkt_cnt (mpa_rx s)" and en: "rx_enabled (mpa_rx s)"
    and room: "\<not> MP_RX_AGGR_BUF_HAS_ROOM s (ucast len)" and dead: "bus_dead e"
  shows "\<exists>s' bs. wlan_sdio_card_to_host_mp_aggr e b port len s = Some (MLAN_STATUS_FAILURE, s')
    \<and> rx_held (mpa_rx s) = Some bs
    \<and> up_calls s' = up_calls s @ map Free_buffer (bs @ (if mp_rd_bitmap s = 0 then [b] else []))
    \<and> rx_held (mpa_rx s') = Some [] \<and> rx_data_queue s' = rx_data_queue s"
proof -
  let ?r = "mpa_rx s" let ?n = "rx_pkt_cnt ?r"
  have ok: "rx_ok s" using inv by (simp add: rx_side_inv_def)
  obtain bs where bs: "rx_held ?r = Some bs" "length bs = ?n" by (rule rx_ok_held [OF ok])
  obtain buf where buf: "rx_aggr_buf ?r = Some buf" "unat (rx_buf_size ?r) \<le> length buf" "?n \<le> 16" "length (rx_len_arr ?r) = 16"
    "unat (rx_buf_len ?r) \<le> unat (rx_buf_size ?r)"
    using ok by (auto simp: rx_ok_def Let_def)
  let ?b = "\<lparr>sb_id = 0, pbuf = buf, data_offset = 0, data_len = rx_buf_len ?r, status_code = 0, buf_type = 0\<rparr>"
  let ?port = "(ioport s OR 0x1000 OR push_bit 8 (bitcount (rx_ports ?r) - 1)) + of_nat (rx_start_port ?r)"
  have "has_room ?b" using buf by (simp add: has_room_def)
  from read_tries_dead [OF dead this, of ?port 2 s] obtain b1 xs where
    1: "read_tries e (Flat ?b) ?port 2 s = Some (MLAN_STATUS_FAILURE, True, Flat b1, set_xfers xs s)" by blast
  let ?s2 = "(set_xfers xs s)\<lparr>mpa_rx := ?r\<lparr>rx_aggr_buf := Some (pbuf b1)\<rparr>\<rparr>"
  have run: "wlan_receive_mp_aggr_buf e s = Some (MLAN_STATUS_FAILURE, ?s2)"
    using n bs(1) buf 1 by (simp add: wlan_receive_mp_aggr_buf_def Let_def)
  have held: "rx_held (mpa_rx ?s2) = Some bs" using bs(1) by (simp add: rx_held_def split: if_split_asm)
  have one: "(0xffffffff :: t_u32) = - 1" by simp
  have "(mp_rd_bitmap s AND 0xffffffff \<noteq> 0) = (mp_rd_bitmap s \<noteq> 0)" unfolding one by simp
  then have "wlan_sdio_card_to_host_mp_aggr e b port len s
      = map_option (Pair MLAN_STATUS_FAILURE) (rx_cleanup (mp_rd_bitmap s = 0) b ?s2)"
    using n en room run by (simp add: wlan_sdio_card_to_host_mp_aggr_def mp_rx_flags_def Let_def)
  moreover have "rx_cleanup c b ?s2 = Some (call_up (if c then [Free_buffer b] else [])
      (MP_RX_AGGR_BUF_RESET (call_up (map Free_buffer bs) ?s2)))" for c
    using held n by (simp add: rx_cleanup_def Let_def call_up_def)
  ultimately show ?thesis
    using bs(1) by (auto simp: MP_RX_AGGR_BUF_RESET_def call_up_def rx_held_def set_xfers_def)
qed

text \<open>C39. If there is no buffer for a packet and nothing is collected, it is read into a spare one to be dropped; if reading it
  fails, this is counted as a dropped packet as well, and success is reported.\<close>

theorem failed_recovery_reported_success:
  assumes "bus_dead e" "rx_pkt_cnt (mpa_rx s) = 0" "unat len \<le> length (rx_buf s)"
  shows "\<exists>s'. wlan_sdio_card_to_host_recovery e port len s = Some (MLAN_STATUS_SUCCESS, s')
    \<and> num_pkt_dropped (sd_dbg s') = num_pkt_dropped (sd_dbg s) + 1 \<and> up_calls s' = up_calls s"
proof -
  let ?b = "\<lparr>sb_id = 0, pbuf = rx_buf s, data_offset = 0, data_len = ucast len, status_code = 0, buf_type = 0\<rparr>"
  have "has_room ?b" using assms(3) by (simp add: has_room_def unat_up)
  from read_tries_dead [OF assms(1) this, of "ioport s + of_nat port" 2 s] obtain b' xs where
    "read_tries e (Flat ?b) (ioport s + of_nat port) 2 s = Some (MLAN_STATUS_FAILURE, True, Flat b', set_xfers xs s)" by blast
  then show ?thesis
    using assms(2) by (simp add: wlan_sdio_card_to_host_recovery_def wlan_sdio_card_to_host_def io_single_def Let_def set_xfers_def)
qed

subsection \<open>Several ports in one transfer\<close>

text \<open>What the card delivers for one port: the length and the type of a data packet, the packet, and filling up to the length
  read for the port.\<close>

definition port_frame :: "t_u32 \<Rightarrow> t_u8 list \<Rightarrow> t_u8 list \<Rightarrow> bool" where
  "port_frame len f p \<longleftrightarrow> length f = unat len \<and> unat len < 65536 \<and> 4 + length p \<le> length f \<and> take 2 f = le16_bytes (of_nat (4 + length p))
     \<and> take 2 (drop 2 f) = le16_bytes 0 \<and> take (length p) (drop 4 f) = p"

lemma deaggr_one_packet:
  assumes f: "port_frame (data_len b) f p" and w: "rx_work_flag s" and b: "has_room b"
  shows "\<exists>b' s'. deaggr_one e (pre @ f @ rest) (length pre) b (data_len b) s = Some s' \<and> rx_side s' = rx_side s
    \<and> rx_data_queue s' = rx_data_queue s @ [b'] \<and> buf_data b' = p \<and> sb_id b' = sb_id b"
proof -
  have l: "length f = unat (data_len b)" "4 + length p \<le> length f" "4 + length p < 65536" using f by (auto simp: port_frame_def)
  have h: "rd (pre @ f @ rest) (length pre) 2 = Some (le16_bytes (of_nat (4 + length p)))"
    using f rd_within [of 0 2 f pre rest] l by (simp add: port_frame_def)
  have t: "rd (pre @ f @ rest) (length pre + 2) 2 = Some (le16_bytes 0)"
    using f rd_within [of 2 2 f pre rest] l by (simp add: port_frame_def)
  have n: "(ucast (of_nat (4 + length p) :: t_u16) :: t_u32) = of_nat (4 + length p)" by (rule small16(2) [OF l(3)])
  have un: "unat (of_nat (4 + length p) :: t_u32) = 4 + length p" using l(3) by (simp add: unat_of_nat take_bit_nat_eq_self del: of_nat_add)
  have le: "(of_nat (4 + length p) :: t_u32) \<le> data_len b" unfolding word_le_nat_alt un using l by simp
  have bytes: "rd (pre @ f @ rest) (length pre) (4 + length p) = Some (take (4 + length p) f)"
    using rd_within [of 0 "4 + length p" f pre rest] l by simp
  have "data_offset b + length (take (4 + length p) f) \<le> length (pbuf b)" using b l by (simp add: has_room_def)
  then obtain mem where mem: "wr (pbuf b) (data_offset b) (take (4 + length p) f) = Some mem" by (simp add: wr_def)
  let ?b = "b\<lparr>pbuf := mem, data_len := of_nat (4 + length p) - 4, data_offset := data_offset b + 4\<rparr>"
  let ?s = "(enqueue_rx ?b (s\<lparr>upld_len := of_nat (4 + length p)\<rparr>))\<lparr>data_received := True\<rparr>"
  have "wlan_decode_rx_packet e (b\<lparr>pbuf := mem\<rparr>) 0 (s\<lparr>upld_len := of_nat (4 + length p)\<rparr>) = Some ?s"
    using w le by (simp add: wlan_decode_rx_packet_def Let_def not_less del: of_nat_add)
  then have run: "deaggr_one e (pre @ f @ rest) (length pre) b (data_len b) s = Some ?s"
    unfolding deaggr_one_def h t Option.bind.simps Let_def of_le16_le16 n un
    using le bytes mem by (simp add: data_port_type_def del: of_nat_add rd_Some wr_Some)
  have "(of_nat (4 + length p) :: t_u32) - 4 = of_nat (length p)" by simp
  then have "unat (data_len ?b) = length p" using l(3) by (simp add: unat_of_nat take_bit_nat_eq_self)
  moreover have "take (length p) (drop (data_offset b + 4) mem) = take (length p) (drop 4 f)"
  proof -
    have "mem = take (data_offset b) (pbuf b) @ take (4 + length p) f @ drop (data_offset b + length (take (4 + length p) f)) (pbuf b)"
      using mem by (simp add: wr_Some)
    moreover have "length (take (data_offset b) (pbuf b)) = data_offset b" using b by (simp add: has_room_def)
    ultimately have "drop (data_offset b + 4) mem = drop 4 (take (4 + length p) f) @ drop (data_offset b + length (take (4 + length p) f)) (pbuf b)"
      using l by simp
    also have "drop 4 (take (4 + length p) f) = take (length p) (drop 4 f)" by (simp add: drop_take)
    finally show ?thesis using l by simp
  qed
  ultimately have "buf_data ?b = p" using f by (simp add: buf_data_def port_frame_def)
  then show ?thesis using run by (intro exI [of _ ?b] exI [of _ ?s]) (simp add: enqueue_rx_def rx_side_def)
qed

lemma deaggr_flat_frames:
  assumes "list_all2 (\<lambda>b (f, p). port_frame (data_len b) f p) bs fps" "rx_work_flag s" "\<forall>b \<in> set bs. has_room b"
  shows "\<exists>bs' s'. deaggr_flat e (pre @ concat (map fst fps) @ post) (length pre) (map (\<lambda>b. (b, data_len b)) bs) s = Some s'
    \<and> rx_side s' = rx_side s \<and> rx_data_queue s' = rx_data_queue s @ bs' \<and> map buf_data bs' = map snd fps \<and> map sb_id bs' = map sb_id bs"
  using assms
proof (induction bs fps arbitrary: pre s rule: list_all2_induct)
  case (Cons b bs q fps)
  obtain f p where q: "q = (f, p)" by fastforce
  have fr: "port_frame (data_len b) f p" using Cons.hyps(1) q by simp
  obtain b' s1 where 1: "deaggr_one e (pre @ f @ concat (map fst fps) @ post) (length pre) b (data_len b) s = Some s1" "rx_side s1 = rx_side s"
    "rx_data_queue s1 = rx_data_queue s @ [b']" "buf_data b' = p" "sb_id b' = sb_id b"
    using deaggr_one_packet [OF fr Cons.prems(1), of e pre "concat (map fst fps) @ post"] Cons.prems(2) by auto
  have l: "length (pre @ f) = length pre + unat (data_len b)" using fr by (simp add: port_frame_def)
  have "rx_work_flag s1" using rx_side_ok(3) [OF 1(2)] Cons.prems(1) by simp
  then obtain bs' s' where 2: "deaggr_flat e ((pre @ f) @ concat (map fst fps) @ post) (length (pre @ f)) (map (\<lambda>b. (b, data_len b)) bs) s1 = Some s'"
    "rx_side s' = rx_side s1" "rx_data_queue s' = rx_data_queue s1 @ bs'" "map buf_data bs' = map snd fps" "map sb_id bs' = map sb_id bs"
    using Cons.IH [of s1 "pre @ f"] Cons.prems(2) by auto
  have "deaggr_flat e (pre @ concat (map fst (q # fps)) @ post) (length pre) (map (\<lambda>b. (b, data_len b)) (b # bs)) s = Some s'"
    using 1(1) 2(1) unfolding l by (simp add: q)
  then show ?case using 1 2 by (intro exI [of _ "b' # bs'"] exI [of _ s']) (simp add: q)
qed simp

text \<open>The ports that are collected, as far as the address of the transfer depends on them.\<close>

definition rx_address_ok :: "sdio_ctx \<Rightarrow> bool" where
  "rx_address_ok s \<longleftrightarrow> ioport s = 0x10000 \<and> rx_start_port (mpa_rx s) < 32 \<and> card (port_set (rx_ports (mpa_rx s))) = rx_pkt_cnt (mpa_rx s)"

lemma rx_address:
  assumes "rx_address_ok s" "rx_ok s" "2 \<le> rx_pkt_cnt (mpa_rx s)"
  shows "(ioport s OR 0x1000 OR push_bit 8 (bitcount (rx_ports (mpa_rx s)) - 1)) + of_nat (rx_start_port (mpa_rx s))
    = of_nat (tx_address (rx_pkt_cnt (mpa_rx s)) (rx_start_port (mpa_rx s)))"
    and "tx_address (rx_pkt_cnt (mpa_rx s)) (rx_start_port (mpa_rx s)) < 2 ^ 20"
proof -
  let ?n = "rx_pkt_cnt (mpa_rx s)"
  have n: "?n \<le> 16" "ioport s = 0x10000" "rx_start_port (mpa_rx s) < 32" using assms by (auto simp: rx_ok_def Let_def rx_address_ok_def)
  have "bitcount (rx_ports (mpa_rx s)) - 1 = of_nat (?n - 1)"
    using assms by (simp add: bitcount_card rx_address_ok_def of_nat_diff)
  then show "(ioport s OR 0x1000 OR push_bit 8 (bitcount (rx_ports (mpa_rx s)) - 1)) + of_nat (rx_start_port (mpa_rx s))
    = of_nat (tx_address ?n (rx_start_port (mpa_rx s)))"
    using n mpa_base [of "?n - 1"] assms(3) by (simp add: tx_address_def)
  show "tx_address ?n (rx_start_port (mpa_rx s)) < 2 ^ 20"
  proof -
    have "?n - 1 \<le> 15" using n(1) by simp
    then have "256 * (?n - 1) + rx_start_port (mpa_rx s) < 978944" using n(3) by linarith
    then show ?thesis using n(3) by (simp add: tx_address_def)
  qed
qed

text \<open>C11. If the card delivers a packet for each port, one read of all the collected ports passes on exactly these packets, in
  order, each in the buffer that waited for it, and nothing stays collected.\<close>

theorem collected_ports_one_read:
  assumes ok: "rx_ok s" "rx_address_ok s" and n: "2 \<le> rx_pkt_cnt (mpa_rx s)" and bs: "rx_held (mpa_rx s) = Some bs"
    and frames: "list_all2 (\<lambda>b (f, p). port_frame (data_len b) f p) bs fps"
    and bus: "bus e (xfers s @ [Sdio_read (of_nat (tx_address (rx_pkt_cnt (mpa_rx s)) (rx_start_port (mpa_rx s)))) (length (concat (map fst fps)))])
      = (MLAN_STATUS_SUCCESS, concat (map fst fps))"
  shows "\<exists>s' bs'. wlan_receive_mp_aggr_buf e s = Some (MLAN_STATUS_SUCCESS, s') \<and> rx_data_queue s' = rx_data_queue s @ bs'
    \<and> map buf_data bs' = map snd fps \<and> map sb_id bs' = map sb_id bs \<and> rx_pkt_cnt (mpa_rx s') = 0"
proof -
  let ?r = "mpa_rx s" let ?n = "rx_pkt_cnt ?r" let ?data = "concat (map fst fps)"
  obtain bs0 where h: "rx_held ?r = Some bs0" "length bs0 = ?n" "map data_len bs0 = take ?n (rx_len_arr ?r)"
    "\<forall>b \<in> set bs0. has_room b \<and> 256 \<le> unat (data_len b) \<and> 256 dvd unat (data_len b)" by (rule rx_ok_held [OF ok(1)])
  have b0: "bs0 = bs" using h(1) bs by simp
  obtain buf where buf: "rx_aggr_buf ?r = Some buf" "unat (rx_buf_size ?r) \<le> length buf" "?n \<le> 16" "length (rx_len_arr ?r) = 16"
    "unat (rx_buf_len ?r) = sum_list (map unat (take ?n (rx_len_arr ?r)))" "unat (rx_buf_len ?r) \<le> unat (rx_buf_size ?r)"
    using ok(1) by (auto simp: rx_ok_def Let_def)
  have sum: "sum_list (map unat (map data_len bs)) = length ?data" "256 dvd sum_list (map unat (map data_len bs))"
  proof -
    show "sum_list (map unat (map data_len bs)) = length ?data"
      using frames by (induction bs fps rule: list_all2_induct) (auto simp: port_frame_def)
    show "256 dvd sum_list (map unat (map data_len bs))" using h(4) unfolding b0 by (induction bs) (auto intro: dvd_add)
  qed
  have len: "unat (rx_buf_len ?r) = length ?data" "256 dvd unat (rx_buf_len ?r)"
    using buf(5) sum unfolding h(3) [symmetric] b0 by simp_all
  let ?b = "\<lparr>sb_id = 0, pbuf = buf, data_offset = 0, data_len = rx_buf_len ?r, status_code = 0, buf_type = 0\<rparr>"
  let ?a = "tx_address ?n (rx_start_port ?r)"
  note a = rx_address [OF ok(2,1) n]
  have m: "(of_nat ?a :: t_u32) AND 0x80000000 = 0" "(of_nat ?a :: t_u32) AND 0xfffff = of_nat ?a" by (rule small_word [OF a(2)])+
  have tl: "transfer_len (of_nat ?a) (rx_buf_len ?r) = length ?data" using transfer_len_block [OF m(1) len(2)] len(1) by simp
  let ?s1 = "note_xfer (Sdio_read (of_nat ?a) (length ?data)) s"
  let ?mem = "?data @ drop (length ?data) buf"
  have fit: "length ?data \<le> length buf" using len(1) buf(2,6) by simp
  have rd1: "read_tries e (Flat ?b) (of_nat ?a) 2 s = Some (MLAN_STATUS_SUCCESS, False, Flat (?b\<lparr>pbuf := ?mem\<rparr>), ?s1)"
    using bus fit by (subst read_tries.simps) (simp add: woal_read_data_sync_def Let_def tl m(2) note_xfer_def delivered_def wr_def)
  let ?s2 = "?s1\<lparr>mpa_rx := ?r\<lparr>rx_aggr_buf := Some ?mem\<rparr>\<rparr>"
  have w: "rx_work_flag ?s2" using ok(1) by (simp add: rx_ok_def note_xfer_def)
  have rm: "\<forall>b \<in> set bs. has_room b" using h(4) b0 by simp
  obtain bs' s3 where 3: "deaggr_flat e ?mem 0 (map (\<lambda>b. (b, data_len b)) bs) ?s2 = Some s3"
    "rx_side s3 = rx_side ?s2" "rx_data_queue s3 = rx_data_queue s @ bs'" "map buf_data bs' = map snd fps" "map sb_id bs' = map sb_id bs"
    using deaggr_flat_frames [OF frames w rm, of e "[]" "drop (length ?data) buf"] by (auto simp: note_xfer_def)
  have z: "zip bs (take ?n (rx_len_arr ?r)) = map (\<lambda>b. (b, data_len b)) bs" using zip_data_len [OF h(3)] b0 by simp
  have "length (mpa_rx_count (sd_dbg s3)) = 16" using rx_side_ok(4) [OF 3(2)] ok(1) by (simp add: rx_ok_def note_xfer_def)
  then obtain s4 where 4: "count_rx (?n - 1) s3 = Some s4" "rx_data_queue s4 = rx_data_queue s3"
    using buf(3) by (simp add: count_rx_def)
  have "wlan_receive_mp_aggr_buf e s = Some (MLAN_STATUS_SUCCESS, MP_RX_AGGR_BUF_RESET s4)"
    using n bs buf a(1) rd1 3(1) 4(1) z by (simp add: wlan_receive_mp_aggr_buf_def Let_def)
  then show ?thesis using 3(3-5) 4(2) by (simp add: MP_RX_AGGR_BUF_RESET_def)
qed

end
