(* ===== verification/Sdio_Witness.thy ===== *)
theory Sdio_Witness
  imports Sdio_Props Sdio_Rx_Data
begin

text \<open>
  Concrete states of the bus layer on which the properties of \<^verbatim>\<open>Sdio_Props\<close> and \<^verbatim>\<open>Sdio_Rx_Data\<close> are applied: one in which nothing is collected,
  one with a packet collected in the array and one with a packet collected in an aggregation buffer.
\<close>

definition idle_tx :: sdio_mpa_tx where
  "idle_tx = \<lparr>tx_buf = None, tx_buf_len = 0, tx_pkt_cnt = 0, tx_ports = 0, tx_start_port = 0, tx_enabled = True,
     tx_buf_size = 0xff00, tx_pkt_aggr_limit = 16, mp_wr_info = replicate 16 0, tx_mbuf_arr = replicate 16 None\<rparr>"

definition idle_rx :: sdio_mpa_rx where
  "idle_rx = \<lparr>rx_aggr_buf = None, rx_buf_len = 0, rx_pkt_cnt = 0, rx_ports = 0, rx_start_port = 0, rx_mbuf_arr = replicate 16 None,
     rx_len_arr = replicate 16 0, rx_enabled = True, rx_buf_size = 0xff00, rx_pkt_aggr_limit = 16\<rparr>"

definition idle_log :: mp_write_log where
  "idle_log = \<lparr>last_mp_wr_bitmap = replicate 10 0, last_mp_wr_ports = replicate 10 0, last_mp_wr_len = replicate 10 0,
     last_mp_wr_info = replicate 160 0, last_curr_wr_port = replicate 10 0, last_mp_index = 0\<rparr>"

definition idle_dbg :: sdio_dbg where
  "idle_dbg = \<lparr>mp_update = replicate 32 0, mp_invalid_update = 0, mpa_tx_count = replicate 16 0, mpa_rx_count = replicate 16 0,
     mpa_sent_last_pkt = 0, mpa_sent_no_ports = 0, last_recv_wr_bitmap = 0, num_int_read_failure = 0, last_int_status = 0,
     num_of_irq = 0, num_cmdevt_card_to_host_failure = 0, num_rx_card_to_host_failure = 0, num_alloc_buffer_failure = 0,
     num_pkt_dropped = 0, diag_num_error = 0\<rparr>"

definition idle_ctx :: "sdio_mpa_tx \<Rightarrow> nat \<Rightarrow> sdio_ctx" where
  "idle_ctx t cur = \<lparr>ioport = 0x10000, mp_rd_bitmap = 0, mp_wr_bitmap = - 1, mp_end_port = 32, mp_data_port_mask = - 1,
     curr_rd_port = 0, curr_wr_port = cur, mp_regs = replicate 196 0, rx_buf = replicate 4096 0, sdio_ireg = 0, mpa_tx = t,
     mpa_rx = idle_rx, wr_log = idle_log, sd_dbg = idle_dbg, dev_tx_buf_size = 4096, max_segs = 16, max_seg_size = 65535,
     max_sp_tx_size = 0, max_sp_rx_size = 0, sdio_rx_aggr_enable = False, sdio_rx_block_size = 0, enable_net_mon = False,
     diag_enabled = False, data_sent = False, cmd_sent = False, data_received = False, cmd_resp_received = False,
     event_received = False, upld_len = 0, upld_buf = replicate 4096 0, event_cause = 0, event_body = replicate 2048 0,
     pmlan_buffer_event = None, sd_curr_cmd = False, sd_respbuf = None, rx_work_flag = False, rx_pkts_queued = 0,
     rx_data_queue = [], sd_ps_state = SD_AWAKE, sd_wakeup_card_req = False, sd_wakeup_fw_try = False, sd_uapsd_mode = False,
     sd_hs_configured = False, allocs = 0, xfers = [], up_calls = []\<rparr>"

definition packet :: "nat \<Rightarrow> sdio_buffer" where
  "packet i = \<lparr>sb_id = i, pbuf = replicate 256 7, data_offset = 0, data_len = 100, status_code = 0, buf_type = 0\<rparr>"

definition bus_up :: sdio_env where
  "bus_up = \<lparr>bus = \<lambda>x. (MLAN_STATUS_SUCCESS, []), reg_value = \<lambda>x. 0, alloc = \<lambda>i. Some 0\<rparr>"

definition bus_down :: sdio_env where
  "bus_down = \<lparr>bus = \<lambda>x. (MLAN_STATUS_FAILURE, []), reg_value = \<lambda>x. 0, alloc = \<lambda>i. Some 0\<rparr>"

lemma bus_up_ok: "bus_ok bus_up" "\<forall>i. alloc bus_up i \<noteq> None" and bus_down_dead: "bus_dead bus_down"
  by (simp_all add: bus_ok_def bus_up_def bus_dead_def bus_down_def)

text \<open>One packet of a block collected, in the array or in a buffer.\<close>

definition one_sg :: sdio_mpa_tx where
  "one_sg = idle_tx\<lparr>tx_buf_len := 256, tx_pkt_cnt := 1, tx_ports := 1,
     tx_mbuf_arr := Some ((packet 1)\<lparr>data_len := 256\<rparr>) # replicate 15 None\<rparr>"

definition one_flat :: sdio_mpa_tx where
  "one_flat = idle_tx\<lparr>tx_buf := Some (replicate 300 7), tx_buf_size := 300, tx_buf_len := 256, tx_pkt_cnt := 1, tx_ports := 1\<rparr>"

lemmas ctx_defs = idle_ctx_def idle_tx_def idle_log_def idle_dbg_def one_sg_def one_flat_def

lemma port_set_01: "port_set 0 = port_run s 0 k" "port_set 1 = port_run 0 1 32"
  by (auto simp: port_set_def port_run_def bit_1_iff lessThan_Suc)

lemma packet_data: "packet_ok (idle_ctx idle_tx c) (packet i)" "packet_ok (idle_ctx one_flat c) (packet i)"
  "block_buf ((packet 1)\<lparr>data_len := 256\<rparr>)"
  by (simp_all add: packet_ok_def round256_def packet_def ctx_defs block_buf_def)

lemma ctx_logs: "logs_ok (idle_ctx idle_tx c)" "logs_ok (idle_ctx one_sg c)" "logs_ok (idle_ctx one_flat c)"
  by (simp_all add: logs_ok_def ctx_defs Let_def)

lemma ctx_data: "tx_data_ok (idle_ctx idle_tx c)" "tx_data_ok (idle_ctx one_flat c)" "tx_data_ok (idle_ctx one_sg c)"
  using packet_data(3) by (simp_all add: tx_data_ok_def held_tx_def ctx_defs Let_def packet_def)

lemma ctx_ports: "tx_ports_ok 0 (idle_ctx idle_tx 0)" "tx_ports_ok 1 (idle_ctx one_sg 1)" "tx_ports_ok 1 (idle_ctx one_flat 1)"
  using port_set_01 by (simp_all add: tx_ports_ok_def ctx_defs)

lemma ctx_inv: "tx_inv (idle_ctx idle_tx 0)" "tx_inv (idle_ctx one_sg 1)" "tx_inv (idle_ctx one_flat 1)"
  using ctx_logs ctx_data ctx_ports by (simp_all add: tx_inv_def tx_core_def ctx_defs)




theorem collected_packets_one_write_witness:
  "\<exists>s'. wlan_send_mp_aggr_buf bus_up (idle_ctx one_sg 1) = Some (MLAN_STATUS_SUCCESS, s')
    \<and> xfers s' = [Sdio_write 0x10000 (replicate 256 7)]"
proof -
  have "0 < tx_pkt_cnt (mpa_tx (idle_ctx one_sg 1))" by (simp add: ctx_defs)
  from collected_packets_one_write [OF ctx_inv(2) this bus_up_ok(1)] show ?thesis
    by (auto simp: ctx_defs tx_address_def tx_pending_def held_tx_def packet_def buf_data_def)
qed

theorem lost_packets_reported_sent_witness:
  "\<exists>s' b. wlan_send_mp_aggr_buf bus_down (idle_ctx one_sg 1) = Some (MLAN_STATUS_FAILURE, s')
    \<and> up_calls s' = [Write_data_complete b MLAN_STATUS_SUCCESS] \<and> sb_id b = 1"
proof -
  have "0 < tx_pkt_cnt (mpa_tx (idle_ctx one_sg 1))" "tx_buf (mpa_tx (idle_ctx one_sg 1)) = None" by (simp_all add: ctx_defs)
  from lost_packets_reported_sent [OF ctx_inv(2) this bus_down_dead] show ?thesis
    by (auto simp: ctx_defs held_tx_def packet_def)
qed


theorem reconfigure_establishes_invariant_witness:
  "tx_inv (reconfigure_tx_buff 4096 32 (idle_ctx idle_tx 0))"
  using reconfigure_establishes_invariant [of "idle_ctx idle_tx 0" 32 4096] ctx_logs(1) by (simp add: ctx_defs)

theorem mpa_ctrl_rx_size_only_zeroes_tx_witness:
  "\<exists>r s'. wlan_misc_ioctl_sdio_mpa_ctrl bus_up True False
      \<lparr>mc_tx_enable = 1, mc_rx_enable = 1, mc_tx_buf_size = 0, mc_rx_buf_size = 4096, mc_tx_max_ports = 0, mc_rx_max_ports = 0\<rparr>
      (idle_ctx (idle_tx\<lparr>tx_buf := Some (replicate 0xff00 0)\<rparr>) 0) = (r, s') \<and> tx_buf_size (mpa_tx s') = 0"
  using mpa_ctrl_rx_size_only_zeroes_tx [OF _ _ bus_up_ok(2),
      where s = "idle_ctx (idle_tx\<lparr>tx_buf := Some (replicate 0xff00 0)\<rparr>) 0" and
      c = "\<lparr>mc_tx_enable = 1, mc_rx_enable = 1, mc_tx_buf_size = 0, mc_rx_buf_size = 4096, mc_tx_max_ports = 0, mc_rx_max_ports = 0\<rparr>"]
  by (auto simp: ctx_defs)

subsection \<open>Receiving\<close>

text \<open>A receiving side with an aggregation buffer and receive work, registers that announce a block on each of the first two ports, with nothing collected, and with two ports collected that
  fill the buffer.\<close>

definition rx_ctx :: "sdio_mpa_rx \<Rightarrow> sdio_ctx" where
  "rx_ctx r = (idle_ctx idle_tx 0)\<lparr>mpa_rx := r, rx_work_flag := True, sdio_ireg := 3, mp_rd_bitmap := 8,
     mp_regs := (replicate 196 0)[16 := 3, 25 := 1, 27 := 1], sdio_rx_block_size := 64\<rparr>"

definition idle_flat_rx :: sdio_mpa_rx where
  "idle_flat_rx = idle_rx\<lparr>rx_aggr_buf := Some (replicate 512 0), rx_buf_size := 512\<rparr>"

definition waiting :: "nat \<Rightarrow> sdio_buffer" where
  "waiting i = \<lparr>sb_id = i, pbuf = replicate 256 0, data_offset = 0, data_len = 256, status_code = 0, buf_type = 0\<rparr>"

definition two_rx :: sdio_mpa_rx where
  "two_rx = idle_flat_rx\<lparr>rx_buf_len := 512, rx_pkt_cnt := 2, rx_ports := 3, rx_mbuf_arr := [Some (waiting 1), Some (waiting 2)] @ replicate 14 None,
     rx_len_arr := [256, 256] @ replicate 14 0\<rparr>"

lemmas rx_defs = rx_ctx_def idle_flat_rx_def two_rx_def idle_rx_def waiting_def

lemma rx_ctx_ok: "rx_ok (rx_ctx idle_flat_rx)" "rx_ok (rx_ctx two_rx)"
  by (simp_all add: rx_ok_def rx_defs ctx_defs Let_def slot_ok_def)

lemma rx_ctx_inv: "rx_side_inv (rx_ctx idle_flat_rx)" "rx_side_inv (rx_ctx two_rx)"
  using rx_ctx_ok by (simp_all add: rx_side_inv_def rx_defs)

lemma two_rx_held: "rx_held (mpa_rx (rx_ctx two_rx)) = Some [waiting 1, waiting 2]"
  by (simp add: rx_held_def rx_defs)

theorem rx_interrupt_safe_witness:
  "\<exists>st s'. wlan_process_int_status bus_down (rx_ctx idle_flat_rx) = Some (st, s') \<and> rx_ready s'"
proof -
  have "int_ready (rx_ctx idle_flat_rx)" using rx_ctx_inv(1) by (simp add: int_ready_def rx_ready_def rx_defs ctx_defs)
  moreover have "sdio_ireg (rx_ctx idle_flat_rx) AND 0x40 = 0" "\<forall>i. alloc bus_down i \<noteq> None" by (simp_all add: rx_ctx_def bus_down_def)
  ultimately show ?thesis by (rule rx_interrupt_safe)
qed

definition sample_unit :: "t_u8 list" where
  "sample_unit = replicate 15 0 @ [1] @ replicate 12 0 @ [9, 0, 0, 0] @ [1, 2, 3, 4, 5] @ replicate 27 0"

lemma sample_unit_ok: "spa_unit (sdio_rx_block_size (rx_ctx r)) sample_unit [1, 2, 3, 4, 5]"
proof -
  have "sample_unit ! 15 = 1" by (simp add: sample_unit_def nth_append)
  then show ?thesis by (simp add: spa_unit_def rx_ctx_def) (simp add: sample_unit_def le16_bytes_def)
qed

theorem spa_frame_taken_apart_witness:
  "\<exists>bs s'. wlan_decode_spa_buffer bus_up (sample_unit @ sample_unit) 0 128 (rx_ctx idle_flat_rx) = Some s'
    \<and> map buf_data bs = [[1, 2, 3, 4, 5], [1, 2, 3, 4, 5]] \<and> up_calls s' = map Handle_rx_packet bs"
proof -
  have "length sample_unit = 64" by (simp add: sample_unit_def)
  then show ?thesis
    using spa_frame_taken_apart [of "rx_ctx idle_flat_rx" "[sample_unit, sample_unit]" "[[1, 2, 3, 4, 5], [1, 2, 3, 4, 5]]" bus_up 128 "[]" "[]"]
      sample_unit_ok [of idle_flat_rx] bus_up_ok(2)
    by (simp add: rx_ctx_def idle_ctx_def)
qed

theorem rx_buffer_leaked_witness:
  "\<exists>s'. wlan_sdio_card_to_host_mp_aggr bus_down (waiting 3) 2 256 (rx_ctx two_rx) = Some (MLAN_STATUS_FAILURE, s')
    \<and> up_calls s' = [Free_buffer (waiting 1), Free_buffer (waiting 2)] \<and> rx_held (mpa_rx s') = Some [] \<and> rx_data_queue s' = []"
proof -
  have "2 \<le> rx_pkt_cnt (mpa_rx (rx_ctx two_rx))" "rx_enabled (mpa_rx (rx_ctx two_rx))"
    "\<not> MP_RX_AGGR_BUF_HAS_ROOM (rx_ctx two_rx) (ucast (256 :: t_u16))"
    by (simp_all add: rx_defs MP_RX_AGGR_BUF_HAS_ROOM_def)
  from rx_buffer_leaked [OF rx_ctx_inv(2) this bus_down_dead, of "waiting 3" 2] show ?thesis
    using two_rx_held by (auto simp: rx_ctx_def idle_ctx_def)
qed

theorem failed_recovery_reported_success_witness:
  "\<exists>s'. wlan_sdio_card_to_host_recovery bus_down 3 256 (rx_ctx idle_flat_rx) = Some (MLAN_STATUS_SUCCESS, s')
    \<and> num_pkt_dropped (sd_dbg s') = 1"
  using failed_recovery_reported_success [OF bus_down_dead, of "rx_ctx idle_flat_rx" 256 3] by (auto simp: rx_defs ctx_defs)

definition port_bytes :: "t_u8 list" where
  "port_bytes = [9, 0, 0, 0] @ [1, 2, 3, 4, 5] @ replicate 247 0"

definition bus_data :: sdio_env where
  "bus_data = \<lparr>bus = \<lambda>x. (MLAN_STATUS_SUCCESS, port_bytes @ port_bytes), reg_value = \<lambda>x. 0, alloc = \<lambda>i. Some 0\<rparr>"

lemma port_set_3: "port_set 3 = {0, 1}"
proof -
  have "bit (3 :: t_u32) p \<longleftrightarrow> p = 0 \<or> p = 1" for p
  proof -
    have "(3 :: t_u32) = mask 2" by (simp add: mask_eq_exp_minus_1)
    then have "bit (3 :: t_u32) p \<longleftrightarrow> p < 2" by (simp only: bit_mask_iff) (auto simp: possible_bit_word)
    then show ?thesis by auto
  qed
  then show ?thesis by (auto simp: port_set_def)
qed

theorem collected_ports_one_read_witness:
  "\<exists>s' bs'. wlan_receive_mp_aggr_buf bus_data (rx_ctx two_rx) = Some (MLAN_STATUS_SUCCESS, s') \<and> rx_data_queue s' = bs'
    \<and> map buf_data bs' = [[1, 2, 3, 4, 5], [1, 2, 3, 4, 5]] \<and> map sb_id bs' = [1, 2]"
proof -
  let ?f = "[(port_bytes, [1, 2, 3, 4, 5]), (port_bytes, [1, 2, 3, 4, 5])]"
  have ad: "rx_address_ok (rx_ctx two_rx)" by (simp add: rx_address_ok_def rx_defs idle_ctx_def port_set_3)
  have fr: "port_frame 256 port_bytes [1, 2, 3, 4, 5]" by (simp add: port_frame_def port_bytes_def le16_bytes_def)
  then have fs: "list_all2 (\<lambda>b (f, p). port_frame (data_len b) f p) [waiting 1, waiting 2] ?f" by (simp add: waiting_def)
  have n: "2 \<le> rx_pkt_cnt (mpa_rx (rx_ctx two_rx))" by (simp add: rx_defs)
  show ?thesis
    using collected_ports_one_read [OF rx_ctx_ok(2) ad n two_rx_held fs, of bus_data]
    by (auto simp: bus_data_def rx_ctx_def idle_ctx_def waiting_def)
qed

end
