(* ===== verification/Spec2Isabelle.thy ===== *)
theory Spec2Isabelle
  imports Mlan_Prelude Util_List Mlan_State Mlan_Tables Rx_Reorder Rx_Window Rx_Props Rx_Table Rx_Sync
    Rx_Witness Wmm_Tables Wmm_Queues Wmm_Acct Tx_Ba Tx_Props Tx_Witness Byte_Mem Amsdu Amsdu_Props Tx_Path Tx_Send
    Tx_Sched Tx_Sched_Props Tx_Send_Props Tx_Path_Props Aggr_Props Send_Witness Cmd_State Cmd_Queue
    Cmd_Cancel Cmd_Resp Cmd_Inv Cmd_Steps Cmd_Cancel_Inv Cmd_Resp_Inv Cmd_Machine
    Cmd_Effects Cmd_Props Cmd_Life Cmd_Witness
    Sdio_State Sdio_Tx Sdio_Rx Sdio_Int Sdio_Tx_Inv Sdio_Tx_Props Sdio_Props Sdio_Rx_Props Sdio_Rx_Data Sdio_Witness
begin

text \<open>
  \<^bold>\<open>The program.\<close>  The repository is a board support package whose own logic is the Wi-Fi driver under
  \<^verbatim>\<open>recipes-kernel/mrvl-sdio8xxx/files\<close>.  Its core is the operating-system independent library
  \<^verbatim>\<open>mlan\<close>; this development models three parts of it.  The first is the 802.11n block-ack machinery and the WMM
  queues: the code that every data packet passes, in both directions, and the commands, events and requests that
  create, change and remove its tables.  The second is the command path: the command nodes, the queues they
  wait in, the one command the card works on, its response, and the four ways a command ends otherwise
  (failure to send, cancellation by a request, cancellation of an interface or of all, timeout).  The third is the bus
  layer below both: the ports of the SDIO card, packets of several ports in one transfer, and the interrupt.

  \<^bold>\<open>Parts and theories.\<close>
  \<^item> \<^verbatim>\<open>Mlan_Prelude\<close>: machine integers, C arrays with bounds (an access outside is \<open>None\<close>), list lemmas, the
    arithmetic of the 12-bit sequence space.
  \<^item> \<^verbatim>\<open>Util_List\<close> (\<^verbatim>\<open>mlan_util.h\<close>): the intrusive lists as pointers in an explicit heap, with the lock
    operations around every access; scalars; bit counting.  It proves that the pointer operations realise the
    list operations that all other theories use.
  \<^item> \<^verbatim>\<open>Mlan_State\<close> (\<^verbatim>\<open>mlan_main.h\<close>, \<^verbatim>\<open>mlan_fw.h\<close>, \<^verbatim>\<open>mlan_decl.h\<close>): packets, tables, interface and adapter
    as records, outgoing calls as values.
  \<^item> \<^verbatim>\<open>Mlan_Tables\<close> (\<^verbatim>\<open>mlan_misc.c\<close>, inline functions of \<^verbatim>\<open>mlan_main.h\<close> and \<^verbatim>\<open>mlan_11n.h\<close>): the station list
    and the questions other parts ask about a station; the locale \<open>keyed_table\<close> of a table with unique keys.
  \<^item> \<^verbatim>\<open>Rx_Reorder\<close>, \<^verbatim>\<open>Rx_Window\<close>, \<^verbatim>\<open>Rx_Props\<close> (\<^verbatim>\<open>mlan_11n_rxreorder.c\<close>): one reorder entry.  The first theory
    is the code, the second an abstract sliding window and the simulation, the third the properties.
  \<^item> \<^verbatim>\<open>Rx_Table\<close>, \<^verbatim>\<open>Rx_Sync\<close> (\<^verbatim>\<open>mlan_11n_rxreorder.c\<close>): the table of entries (ADDBA, DELBA, timeouts, station
    leave, flush) and the RXBA sync event; \<^verbatim>\<open>Rx_Witness\<close> applies their properties to concrete tables.
  \<^item> \<^verbatim>\<open>Wmm_Tables\<close> (\<^verbatim>\<open>mlan_wmm.c\<close>): access categories, downgrading, queue priorities from a WMM element.
  \<^item> \<^verbatim>\<open>Wmm_Queues\<close>, \<^verbatim>\<open>Wmm_Acct\<close> (\<^verbatim>\<open>mlan_wmm.c\<close>): the receiver lists with their packet queues, and the invariant
    that equates the four kinds of packet counter with the queues.
  \<^item> \<^verbatim>\<open>Tx_Ba\<close>, \<^verbatim>\<open>Tx_Props\<close> (\<^verbatim>\<open>mlan_11n.c\<close>, \<^verbatim>\<open>mlan_11n.h\<close>): transmit block-ack streams, the commands that set
    them up and end them, and the requests from user space; \<^verbatim>\<open>Tx_Witness\<close> holds their witnesses.
  \<^item> \<^verbatim>\<open>Byte_Mem\<close>: byte buffers with offsets, the byte orders of the fields read from and written to them.
  \<^item> \<^verbatim>\<open>Amsdu\<close>, \<^verbatim>\<open>Amsdu_Props\<close> (\<^verbatim>\<open>mlan_11n_aggr.c\<close>): the bytes of an aggregate, built for sending and taken apart on
    reception.
  \<^item> \<^verbatim>\<open>Tx_Path\<close>, \<^verbatim>\<open>Tx_Path_Props\<close> (\<^verbatim>\<open>mlan_sta_tx.c\<close>, \<^verbatim>\<open>mlan_uap_txrx.c\<close>, \<^verbatim>\<open>mlan_txrx.c\<close>, \<^verbatim>\<open>mlan_wmm.c\<close>): the
    device (the adapter, its interfaces and the scheduling table of each interface priority), the transmit
    descriptor, the hand-over to the card and the bypass queue.
  \<^item> \<^verbatim>\<open>Tx_Send\<close>, \<^verbatim>\<open>Tx_Sched\<close> (\<^verbatim>\<open>mlan_wmm.c\<close>, \<^verbatim>\<open>mlan_11n_aggr.c\<close>): sending one packet, a processed packet or an
    aggregate from a receiver list, and the scheduler that chooses interface, queue and list.
    \<^verbatim>\<open>Tx_Send_Props\<close>, \<^verbatim>\<open>Tx_Sched_Props\<close> and \<^verbatim>\<open>Aggr_Props\<close> hold the properties, \<^verbatim>\<open>Send_Witness\<close> their witnesses.
  \<^item> \<^verbatim>\<open>Cmd_State\<close> (\<^verbatim>\<open>mlan_main.h\<close>, \<^verbatim>\<open>mlan_fw.h\<close>): command nodes, the adapter and its interfaces as the command
    path sees them, the requests that wait for an answer.
  \<^item> \<^verbatim>\<open>Cmd_Queue\<close>, \<^verbatim>\<open>Cmd_Cancel\<close>, \<^verbatim>\<open>Cmd_Resp\<close> (\<^verbatim>\<open>mlan_cmdevt.c\<close>, \<^verbatim>\<open>mlan_scan.c\<close>, \<^verbatim>\<open>mlan_sta_cmdresp.c\<close>,
    \<^verbatim>\<open>mlan_sdio.c\<close>): preparing, queueing and sending a command; cancelling; responses, scan commands
    and the command timeout.  These three are the code.
  \<^item> \<^verbatim>\<open>Cmd_Inv\<close>, \<^verbatim>\<open>Cmd_Steps\<close>, \<^verbatim>\<open>Cmd_Cancel_Inv\<close>, \<^verbatim>\<open>Cmd_Resp_Inv\<close>: the invariant of the command path (every node is
    in exactly one place, what a node holds fits that place) and its preservation by each operation.
    \<^verbatim>\<open>Cmd_Machine\<close> composes the operations to a state machine and extends the invariant to its reachable states.
  \<^item> \<^verbatim>\<open>Cmd_Effects\<close>: the exact effect of each cancellation.  \<^verbatim>\<open>Cmd_Props\<close> and \<^verbatim>\<open>Cmd_Life\<close> hold the properties,
    \<^verbatim>\<open>Cmd_Witness\<close> applies them to reachable states.
  \<^item> \<^verbatim>\<open>Sdio_State\<close> (\<^verbatim>\<open>mlan_main.h\<close>, \<^verbatim>\<open>mlan_sdio.c\<close>, \<^verbatim>\<open>mlan_misc.c\<close>, \<^verbatim>\<open>moal_sdio_mmc.c\<close>): the bus layer's share of the
    adapter, one transfer with its repetitions, allocation of a buffer.
  \<^item> \<^verbatim>\<open>Sdio_Tx\<close>, \<^verbatim>\<open>Sdio_Rx\<close>, \<^verbatim>\<open>Sdio_Int\<close> (\<^verbatim>\<open>mlan_sdio.c\<close>, \<^verbatim>\<open>mlan_sdio.h\<close>, \<^verbatim>\<open>mlan_sta_cmdresp.c\<close>, \<^verbatim>\<open>mlan_sta_ioctl.c\<close>):
    sending with collection of packets, its settings; receiving, taking apart frames; the interrupt status.  These are the code.
  \<^item> \<^verbatim>\<open>Sdio_Tx_Inv\<close>, \<^verbatim>\<open>Sdio_Tx_Props\<close>: the invariant of the collected packets and its preservation by each step of sending.
    \<^verbatim>\<open>Sdio_Props\<close> holds the locale \<open>in_order_layer\<close> of what the layer above relies on, interpreted for the bus layer, and
    the properties of sending and of the settings, \<^verbatim>\<open>Sdio_Rx_Props\<close> the invariant and the safety of
    receiving, \<^verbatim>\<open>Sdio_Rx_Data\<close> what is delivered; \<^verbatim>\<open>Sdio_Witness\<close> applies them to concrete states.

  \<^bold>\<open>Correspondence.\<close>  A definition has the name of the C function it translates; a loop or phase of a function that is a
  definition of its own is named after what it does (\<open>dispatch_slots\<close>, \<open>rxreorder_slide\<close>).  A table that is a
  linked list is a list, a pointer into it is a position.  \<open>None\<close> is undefined behaviour of the C code: an access outside
  an array or to freed memory; theorems show either that it cannot happen or exactly when it does.  Calls to
  the kernel, to the firmware or into the next stage are appended to \<open>calls\<close>.  What \<^verbatim>\<open>moal_malloc\<close> returns (\<open>alloc\<close>) and
  what \<^verbatim>\<open>wlan_prepare_cmd\<close> answers (\<open>prep\<close>) are arguments.  Operations under one spin lock are one step.
  On the command path the encoder of a single command (\<open>enc\<close>), the answer of the bus to a download (\<open>h2c\<close>), the handlers
  of single responses (\<open>ops\<close>, each a list of the effects it has on the command path) and what other threads
  do between reading a request and taking the lock (\<open>env\<close>) are arguments.  A request is released by
  \<^verbatim>\<open>moal_ioctl_complete\<close>; a later use of it is \<open>None\<close>.
  In the bus layer what a transfer answers and delivers (\<open>bus\<close>, of all transfers so far), what a register holds
  (\<open>reg_value\<close>) and whether and where an allocation succeeds (\<open>alloc\<close>) are arguments; transfers and calls into the layer above
  are recorded in \<open>xfers\<close> and \<open>up_calls\<close>.

  \<^bold>\<open>What the lemmas show.\<close>  The receive side: every packet step stays inside the slot array and keeps the
  invariant, refines an abstract window, loses and duplicates no buffer, and outside the
  no-drop mode delivers in order; once the packet counter is initialised, the replay check passes on exactly the packets
  with a new highest number and frees the others; the table operations change exactly the entries they name.  The transmit side: each
  queue operation keeps the packet accounts; each block-ack operation changes exactly the streams it names; the
  scheduler takes the first interface and the first queue that has something to send, and it finds a packet
  whenever one is ready; a packet handed to the card is completed, pending or back at the head of its queue, and the
  accounts agree afterwards unless the receiver was paused or removed meanwhile; an aggregate holds a prefix of the queue
  and taking it apart gives back the packets.  The command path: no sequence of allowed operations reaches
  undefined behaviour, and no command node is lost or in two queues; the head of the queue is sent; a response
  goes to the interface that sent the command; the cancellations complete exactly the requests they should (what
  cancelling everything leaves in the queues is stated for the case that no enhanced scan runs).
  The bus layer: what is handed over goes out once and in order, on every behaviour of the bus the collected packets stay in
  their buffer and on consecutive ports; handling an interrupt stays inside all buffers whatever the card delivers; and
  what the card delivers is passed on exactly, for frames of several packets and for reads of several ports.
  Several theorems state defects of the code: they are listed as findings of the manifest.

  \<^bold>\<open>Fuel.\<close>  \<open>wlan_wmm_process_tx\<close> takes one unit per packet sent; the properties are about one round.
  \<open>rxba_sync_loop\<close>: each round consumes a header of at least 17 bytes of an event whose length
  has 16 bits, and the bitmap loop has an 8-bit counter; with fuel 256 a well-formed event is processed to its end
  (proved), and for a long bitmap no fuel suffices, even where
  every byte that the loop reads lies inside the buffer (proved).  The loops of the command path need no fuel: each round
  shortens a queue.  Nor does the loop over the ports of the card: each round clears a bit of the bit map it reads.

  \<^bold>\<open>Not modelled.\<close>  The Linux glue (\<^verbatim>\<open>mlinux\<close>), the command line tools (\<^verbatim>\<open>mapp\<close>), the Bluetooth driver
  (\<^verbatim>\<open>mrvl-bt8xxx\<close>), the Yocto recipes and the Qt demonstrations: input/output, argument parsing and glue.  Of \<^verbatim>\<open>mlan\<close>:
  association, regulatory tables, power save, firmware download, the encoding of the commands that
  do not concern block ack, the dispatch of received frames and events to the host, the queues held back for a TDLS
  peer and null frames.  Of scanning only the scan commands as they pass through the queues: how channels are
  grouped into commands is an argument, its setup failures, the parsing of results and the channel statistics of the
  extended scan are left out.  Of the command path: the debug output of a timeout, the rounding of the
  length on the bus, the time stamp put into \<^verbatim>\<open>HOST_CLOCK_CFG\<close> and the parser of calibration data.
  Of the bus layer: the download of the firmware and the set-up of the registers, which talk to the card in a fixed script;
  the copy of the sent blocks kept for debugging (\<^verbatim>\<open>mpa_buf\<close>); the change of \<^verbatim>\<open>curr_tx_buf_size\<close> and of the pause flag on
  reconfiguration; the handling of diagnostic packets.  The safety of receiving is proved with an aggregation buffer,
  with receive work and while allocations succeed; without these the unchecked lengths listed in the findings remain.
  What is left of \<^verbatim>\<open>mlan\<close> is the encoding and decoding of single commands and elements, table by table, with no state that
  operations share beyond what is modelled here.
\<close>

end
